(* ===== verification/Prelude.thy ===== *)
theory Prelude
  imports Main "HOL-Library.AList"
begin

text \<open>
  Shared vocabulary of the development: results with errors, loops that stop at the first
  error, and the lemma collections the component theories add to.

  A Go function that returns \<open>(T, error)\<close> is modelled by a value of \<open>'e + 'a\<close>: \<open>Inl\<close> the
  error, \<open>Inr\<close> the result. \<open>bindE\<close> is the statement sequence
  \<^verbatim>\<open>x, err := f(); if err != nil { return ..., err }; ...\<close>, \<open>foldE\<close> and \<open>mapE\<close> are
  \<^verbatim>\<open>for index, x := range xs\<close> loops with such a body.
\<close>

named_theorems err_simps \<open>rewriting of results with errors\<close>
named_theorems go_text \<open>rewriting of the Go string functions\<close>
named_theorems go_json \<open>rewriting of the JSON decoding and encoding functions\<close>

section \<open>Results with errors\<close>

definition bindE :: "'e + 'a \<Rightarrow> ('a \<Rightarrow> 'e + 'b) \<Rightarrow> 'e + 'b" where
  "bindE m f = (case m of Inl e \<Rightarrow> Inl e | Inr x \<Rightarrow> f x)"

lemma bindE_Inl [simp, err_simps]: "bindE (Inl e) f = Inl e"
  by (simp add: bindE_def)

lemma bindE_Inr [simp, err_simps]: "bindE (Inr x) f = f x"
  by (simp add: bindE_def)

lemma bindE_eq_Inr: "bindE m f = Inr y \<longleftrightarrow> (\<exists>x. m = Inr x \<and> f x = Inr y)"
  by (cases m) simp_all

lemma bindE_eq_Inl: "bindE m f = Inl e \<longleftrightarrow> m = Inl e \<or> (\<exists>x. m = Inr x \<and> f x = Inl e)"
  by (cases m) auto

lemma bindE_InrE:
  assumes "bindE m f = Inr y"
  obtains x where "m = Inr x" and "f x = Inr y"
  using assms by (auto simp: bindE_eq_Inr)

lemma bindE_cong [fundef_cong]:
  "m = m' \<Longrightarrow> (\<And>x. m' = Inr x \<Longrightarrow> f x = f' x) \<Longrightarrow> bindE m f = bindE m' f'"
  by (cases m') simp_all

lemma bindE_assoc: "bindE (bindE m f) g = bindE m (\<lambda>x. bindE (f x) g)"
  by (cases m) simp_all

definition guardE :: "bool \<Rightarrow> 'e \<Rightarrow> 'e + unit" where
  "guardE c e = (if c then Inl e else Inr ())"

lemma guardE_simps [simp, err_simps]:
  "guardE True e = Inl e"
  "guardE False e = Inr ()"
  by (simp_all add: guardE_def)

lemma guardE_eq_Inr [simp]: "guardE c e = Inr u \<longleftrightarrow> \<not> c"
  by (simp add: guardE_def)

fun is_ok :: "'e + 'a \<Rightarrow> bool" where
  "is_ok (Inl e) = False"
| "is_ok (Inr x) = True"

lemma is_ok_projr: "is_ok m \<Longrightarrow> m = Inr (projr m)"
  by (cases m) simp_all

lemma is_ok_iff: "is_ok m \<longleftrightarrow> (\<exists>x. m = Inr x)"
  by (cases m) simp_all

section \<open>Loops that stop at the first error\<close>

fun foldE :: "('a \<Rightarrow> 's \<Rightarrow> 'e + 's) \<Rightarrow> 'a list \<Rightarrow> 's \<Rightarrow> 'e + 's" where
  "foldE f [] s = Inr s"
| "foldE f (x # xs) s = bindE (f x s) (foldE f xs)"

lemma foldE_append: "foldE f (xs @ ys) s = bindE (foldE f xs s) (foldE f ys)"
  by (induction xs arbitrary: s) (auto simp: bindE_assoc intro: bindE_cong)

lemma foldE_invariant:
  assumes "foldE f xs s = Inr t" and "P s"
    and "\<And>x s t. x \<in> set xs \<Longrightarrow> P s \<Longrightarrow> f x s = Inr t \<Longrightarrow> P t"
  shows "P t"
  using assms
proof (induction xs arbitrary: s)
  case Nil
  then show ?case by simp
next
  case (Cons x xs)
  from Cons.prems(1) obtain u where "f x s = Inr u" and u: "foldE f xs u = Inr t"
    by (auto elim: bindE_InrE)
  with Cons.prems have "P u" by auto
  with Cons u show ?case by auto
qed

fun mapE_from :: "nat \<Rightarrow> (nat \<Rightarrow> 'a \<Rightarrow> 'e + 'b) \<Rightarrow> 'a list \<Rightarrow> 'e + 'b list" where
  "mapE_from i f [] = Inr []"
| "mapE_from i f (x # xs) =
     bindE (f i x) (\<lambda>y. bindE (mapE_from (Suc i) f xs) (\<lambda>ys. Inr (y # ys)))"

abbreviation mapE :: "(nat \<Rightarrow> 'a \<Rightarrow> 'e + 'b) \<Rightarrow> 'a list \<Rightarrow> 'e + 'b list" where
  "mapE \<equiv> mapE_from 0"

lemma mapE_from_Inr_length: "mapE_from i f xs = Inr ys \<Longrightarrow> length ys = length xs"
  by (induction xs arbitrary: i ys) (auto elim!: bindE_InrE)

lemma mapE_from_cong_Inr:
  assumes "\<And>i x. x \<in> set xs \<Longrightarrow> f i x = Inr (h x)"
  shows "mapE_from i f xs = Inr (map h xs)"
  using assms by (induction xs arbitrary: i) simp_all

lemma mapE_from_map: "mapE_from i f (map g xs) = mapE_from i (\<lambda>i x. f i (g x)) xs"
  by (induction xs arbitrary: i) simp_all

lemma mapE_from_all:
  "mapE_from i f xs = Inr ys \<Longrightarrow> (\<And>i x y. x \<in> set xs \<Longrightarrow> f i x = Inr y \<Longrightarrow> P y) \<Longrightarrow>
   \<forall>y \<in> set ys. P y"
proof (induction xs arbitrary: i ys)
  case Nil
  then show ?case by simp
next
  case (Cons x xs)
  from Cons.prems(1) obtain z zs where "f i x = Inr z" and zs: "mapE_from (Suc i) f xs = Inr zs"
    and ys: "ys = z # zs"
    by (auto elim!: bindE_InrE)
  then have "P z" using Cons.prems(2) by (meson list.set_intros(1))
  moreover have "\<forall>y \<in> set zs. P y"
    by (rule Cons.IH [OF zs]) (meson Cons.prems(2) list.set_intros(2))
  ultimately show ?case using ys by simp
qed

lemma mapE_from_error:
  "x \<in> set xs \<Longrightarrow> (\<And>i. \<not> is_ok (f i x)) \<Longrightarrow> \<not> is_ok (mapE_from i f xs)"
proof (induction xs arbitrary: i)
  case Nil
  then show ?case by simp
next
  case (Cons a xs)
  show ?case
  proof (cases "f i a")
    case (Inl e)
    then show ?thesis by simp
  next
    case (Inr y)
    with Cons.prems have "a \<noteq> x" by (metis is_ok.simps(2))
    with Cons have "\<not> is_ok (mapE_from (Suc i) f xs)" by auto
    with Inr show ?thesis by (cases "mapE_from (Suc i) f xs") simp_all
  qed
qed

section \<open>Association lists\<close>

text \<open>
  A Go map that the code builds entry by entry is an association list with distinct keys:
  \<open>AList.update\<close> is \<^verbatim>\<open>m[k] = v\<close>, \<open>AList.delete\<close> is \<^verbatim>\<open>delete(m, k)\<close>,
  \<open>optput\<close> an assignment under an \<^verbatim>\<open>if\<close>.
\<close>

abbreviation put :: "'k \<Rightarrow> 'v \<Rightarrow> ('k \<times> 'v) list \<Rightarrow> ('k \<times> 'v) list" where
  "put \<equiv> AList.update"

definition optput :: "bool \<Rightarrow> 'k \<Rightarrow> 'v \<Rightarrow> ('k \<times> 'v) list \<Rightarrow> ('k \<times> 'v) list" where
  "optput c k v m = (if c then put k v m else m)"

lemma map_of_put [simp]: "map_of (put k v m) k' = (if k' = k then Some v else map_of m k')"
  by (simp add: update_conv')

lemma map_of_optput [simp]:
  "map_of (optput c k v m) k' = (if c \<and> k' = k then Some v else map_of m k')"
  by (simp add: optput_def)

lemma set_keys_put: "fst ` set (put k v m) = insert k (fst ` set m)"
  by (induction m) auto

lemma set_keys_optput: "fst ` set (optput c k v m) \<subseteq> insert k (fst ` set m)"
  by (auto simp: optput_def set_keys_put)

lemma distinct_put: "distinct (map fst m) \<Longrightarrow> distinct (map fst (put k v m))"
  by (rule distinct_update)

lemma distinct_optput: "distinct (map fst m) \<Longrightarrow> distinct (map fst (optput c k v m))"
  by (simp add: optput_def distinct_put)

end
