(* ===== verification/GoText.thy ===== *)
theory GoText
  imports Prelude
begin

text \<open>
  The functions of the Go packages \<^verbatim>\<open>strings\<close>, \<^verbatim>\<open>bytes\<close>, \<^verbatim>\<open>strconv\<close> and
  \<^verbatim>\<open>unicode/utf8\<close> that the program uses, on byte strings: a \<^typ>\<open>string\<close> is the list
  of bytes of a Go string.

  White space is the ASCII white space; the other Unicode spaces that
  \<^verbatim>\<open>strings.TrimSpace\<close> also removes are not modelled. \<open>fold_case\<close> is the case folding behind
  \<^verbatim>\<open>strings.EqualFold\<close> and the member names of \<^verbatim>\<open>encoding/json\<close>, restricted to the runes
  that fold to an ASCII letter (the Kelvin sign and the long s besides the letters).
\<close>

section \<open>Prefixes, suffixes, cutting\<close>

definition has_prefix :: "string \<Rightarrow> string \<Rightarrow> bool" where
  "has_prefix s p \<longleftrightarrow> take (length p) s = p"

lemma has_prefix_append [simp]: "has_prefix (p @ s) p"
  by (simp add: has_prefix_def)

lemma has_prefix_iff: "has_prefix s p \<longleftrightarrow> (\<exists>t. s = p @ t)"
  unfolding has_prefix_def by (metis append_eq_conv_conj)

definition has_suffix :: "string \<Rightarrow> string \<Rightarrow> bool" where
  "has_suffix s p \<longleftrightarrow> has_prefix (rev s) (rev p)"

definition trim_prefix :: "string \<Rightarrow> string \<Rightarrow> string" where
  "trim_prefix s p = (if has_prefix s p then drop (length p) s else s)"

definition trim_suffix :: "string \<Rightarrow> string \<Rightarrow> string" where
  "trim_suffix s p = (if has_suffix s p then take (length s - length p) s else s)"

lemma trim_prefix_append [simp]: "trim_prefix (p @ s) p = s"
  by (simp add: trim_prefix_def)

lemma trim_suffix_append [simp]: "trim_suffix (s @ p) p = s"
  by (simp add: trim_suffix_def has_suffix_def)

definition cut :: "char \<Rightarrow> string \<Rightarrow> string \<times> string \<times> bool" where
  "cut c s = (takeWhile (\<lambda>x. x \<noteq> c) s, drop 1 (dropWhile (\<lambda>x. x \<noteq> c) s), c \<in> set s)"

lemma cut_append [simp]: "c \<notin> set s \<Longrightarrow> cut c (s @ c # t) = (s, t, True)"
  by (auto simp: cut_def takeWhile_append dropWhile_append)

lemma cut_absent [simp]: "c \<notin> set s \<Longrightarrow> cut c s = (s, [], False)"
  by (induction s) (auto simp: cut_def)

fun split_on :: "char \<Rightarrow> string \<Rightarrow> string list" where
  "split_on c [] = [[]]"
| "split_on c (x # xs) =
     (if x = c then [] # split_on c xs
      else (case split_on c xs of [] \<Rightarrow> [[x]] | w # ws \<Rightarrow> (x # w) # ws))"

lemma split_on_nonempty [simp]: "split_on c s \<noteq> []"
  by (induction s) (auto split: list.splits)

lemma split_on_absent [simp]: "c \<notin> set s \<Longrightarrow> split_on c s = [s]"
  by (induction s) auto

lemma split_on_append: "c \<notin> set s \<Longrightarrow> split_on c (s @ c # t) = s # split_on c t"
  by (induction s) auto

fun join :: "string \<Rightarrow> string list \<Rightarrow> string" where
  "join sep [] = []"
| "join sep [x] = x"
| "join sep (x # y # zs) = x @ sep @ join sep (y # zs)"

lemma join_Cons: "xs \<noteq> [] \<Longrightarrow> join sep (x # xs) = x @ sep @ join sep xs"
  by (cases xs) simp_all

lemma join_empty_sep: "join [] xs = concat xs"
  by (induction "[] :: string" xs rule: join.induct) simp_all

lemma join_split_on: "join [c] (split_on c s) = s"
proof (induction s)
  case Nil
  then show ?case by simp
next
  case (Cons x xs)
  then show ?case
    by (cases "split_on c xs") (auto simp: join_Cons split: list.splits, (cases "tl (split_on c xs)"; simp)+)
qed

definition is_space :: "char \<Rightarrow> bool" where
  "is_space c \<longleftrightarrow> c \<in> {CHR '' '', CHR 0x09, CHR 0x0A, CHR 0x0B, CHR 0x0C, CHR 0x0D}"

definition trim_space :: "string \<Rightarrow> string" where
  "trim_space s = rev (dropWhile is_space (rev (dropWhile is_space s)))"

lemma trim_space_blank: "trim_space s = [] \<longleftrightarrow> (\<forall>c \<in> set s. is_space c)"
proof -
  have "dropWhile is_space (rev (dropWhile is_space s)) = [] \<longleftrightarrow> (\<forall>c \<in> set (dropWhile is_space s). is_space c)"
    by (simp add: dropWhile_eq_Nil_conv)
  also have "\<dots> \<longleftrightarrow> dropWhile is_space s = []"
    by (metis dropWhile_eq_Nil_conv dropWhile_idem empty_iff list.set(1))
  also have "\<dots> \<longleftrightarrow> (\<forall>c \<in> set s. is_space c)"
    by (simp add: dropWhile_eq_Nil_conv)
  finally show ?thesis by (simp add: trim_space_def)
qed

lemma dropWhile_id: "s = [] \<or> \<not> P (hd s) \<Longrightarrow> dropWhile P s = s"
  by (cases s) auto

lemma trim_space_id:
  "s \<noteq> [] \<Longrightarrow> \<not> is_space (hd s) \<Longrightarrow> \<not> is_space (last s) \<Longrightarrow> trim_space s = s"
  by (simp add: trim_space_def dropWhile_id hd_rev)

section \<open>Letter case\<close>

definition lower_char :: "char \<Rightarrow> char" where
  "lower_char c =
     (let n = of_char c :: nat in if 65 \<le> n \<and> n \<le> 90 then char_of (n + 32) else c)"

text \<open>
  \<^verbatim>\<open>strings.ToLower\<close>, as far as its ASCII letters go: U+0130 and U+212A are the two runes
  above ASCII whose lower case is an ASCII letter; the other runes keep their bytes here.
\<close>

fun to_lower :: "string \<Rightarrow> string" where
  "to_lower [] = []"
| "to_lower (c # s) =
     (if c = CHR 0xC4 \<and> take 1 s = [CHR 0xB0] then CHR ''i'' # to_lower (drop 1 s)
      else if c = CHR 0xE2 \<and> take 2 s = [CHR 0x84, CHR 0xAA] then CHR ''k'' # to_lower (drop 2 s)
      else lower_char c # to_lower s)"

fun fold_case :: "string \<Rightarrow> string" where
  "fold_case [] = []"
| "fold_case (c # s) =
     (if c = CHR 0xC5 \<and> take 1 s = [CHR 0xBF] then CHR ''s'' # fold_case (drop 1 s)
      else if c = CHR 0xE2 \<and> take 2 s = [CHR 0x84, CHR 0xAA] then CHR ''k'' # fold_case (drop 2 s)
      else lower_char c # fold_case s)"

definition equal_fold :: "string \<Rightarrow> string \<Rightarrow> bool" where
  "equal_fold s t \<longleftrightarrow> fold_case s = fold_case t"

section \<open>Decimal numbers\<close>

definition digit_char :: "nat \<Rightarrow> char" where
  "digit_char d = char_of (48 + d)"

definition is_digit :: "char \<Rightarrow> bool" where
  "is_digit c \<longleftrightarrow> 48 \<le> (of_char c :: nat) \<and> (of_char c :: nat) \<le> 57"

definition digit_val :: "char \<Rightarrow> nat" where
  "digit_val c = of_char c - 48"

lemma of_char_digit_char: "d < 10 \<Longrightarrow> of_char (digit_char d) = 48 + d"
  by (simp add: digit_char_def of_char_of take_bit_nat_eq_self)

lemma is_digit_digit_char [simp]: "d < 10 \<Longrightarrow> is_digit (digit_char d)"
  by (simp add: is_digit_def of_char_digit_char)

lemma digit_val_digit_char [simp]: "d < 10 \<Longrightarrow> digit_val (digit_char d) = d"
  by (simp add: digit_val_def of_char_digit_char)

fun nat_str :: "nat \<Rightarrow> string" where
  "nat_str n = (if n < 10 then [digit_char n] else nat_str (n div 10) @ [digit_char (n mod 10)])"

declare nat_str.simps [simp del]

definition dec_val :: "string \<Rightarrow> nat" where
  "dec_val ds = foldl (\<lambda>a d. 10 * a + digit_val d) 0 ds"

lemma nat_str_nonempty [simp]: "nat_str n \<noteq> []"
  by (subst nat_str.simps) simp

lemma nat_str_digits: "c \<in> set (nat_str n) \<Longrightarrow> is_digit c"
proof (induction n rule: nat_str.induct)
  case (1 n)
  then show ?case by (subst (asm) nat_str.simps) (auto split: if_splits)
qed

lemma dec_val_nat_str [simp]: "dec_val (nat_str n) = n"
proof (induction n rule: nat_str.induct)
  case (1 n)
  show ?case
  proof (cases "n < 10")
    case True
    then show ?thesis by (subst nat_str.simps) (simp add: dec_val_def)
  next
    case False
    with "1.IH" have "dec_val (nat_str (n div 10)) = n div 10" by simp
    with False show ?thesis by (subst nat_str.simps) (simp add: dec_val_def)
  qed
qed

lemma nat_str_inject [simp]: "nat_str m = nat_str n \<longleftrightarrow> m = n"
  by (metis dec_val_nat_str)

lemma nat_str_hd: "hd (nat_str n) = CHR ''0'' \<longleftrightarrow> n = 0"
proof (induction n rule: nat_str.induct)
  case (1 n)
  show ?case
  proof (cases "n < 10")
    case True
    have "digit_char n = CHR ''0'' \<longleftrightarrow> n = 0"
    proof
      assume "digit_char n = CHR ''0''"
      then have "digit_val (digit_char n) = digit_val (CHR ''0'')" by simp
      with True show "n = 0" by (simp add: digit_val_def of_char_digit_char)
    next
      assume "n = 0"
      have "digit_char 0 = CHR ''0''" by code_simp
      with \<open>n = 0\<close> show "digit_char n = CHR ''0''" by simp
    qed
    with True show ?thesis by (subst nat_str.simps) simp
  next
    case False
    with "1.IH" show ?thesis by (subst nat_str.simps) simp
  qed
qed

definition itoa :: "int \<Rightarrow> string" where
  "itoa i = (if i < 0 then CHR ''-'' # nat_str (nat (- i)) else nat_str (nat i))"

definition in_int64 :: "int \<Rightarrow> bool" where
  "in_int64 i \<longleftrightarrow> - (2 ^ 63) \<le> i \<and> i < 2 ^ 63"

text \<open>\<^verbatim>\<open>strconv.ParseInt(s, 10, 64)\<close> on a number literal.\<close>

definition parse_int64 :: "string \<Rightarrow> int option" where
  "parse_int64 s =
     (let neg = (take 1 s = ''-''); ds = (if neg then drop 1 s else s);
          v = (if neg then - int (dec_val ds) else int (dec_val ds))
      in if ds \<noteq> [] \<and> list_all is_digit ds \<and> in_int64 v then Some v else None)"

lemma nat_str_not_minus: "take 1 (nat_str n) \<noteq> ''-''"
proof
  assume "take 1 (nat_str n) = ''-''"
  then have "CHR ''-'' \<in> set (nat_str n)"
    by (metis in_set_takeD list.set_intros(1))
  then have "is_digit (CHR ''-'')" by (rule nat_str_digits)
  then show False by (simp add: is_digit_def)
qed

lemma parse_int64_itoa [simp]: "in_int64 i \<Longrightarrow> parse_int64 (itoa i) = Some i"
  using nat_str_not_minus [of "nat i"]
  by (auto simp: parse_int64_def itoa_def Let_def list_all_iff nat_str_digits)

text \<open>Addition of Go \<^verbatim>\<open>int\<close>s wraps around at 64 bits.\<close>

definition wrap64 :: "int \<Rightarrow> int" where
  "wrap64 i = (i + 2 ^ 63) mod 2 ^ 64 - 2 ^ 63"

lemma wrap64_id [simp]: "in_int64 i \<Longrightarrow> wrap64 i = i"
  by (simp add: wrap64_def in_int64_def)

lemma wrap64_range: "in_int64 (wrap64 i)"
  by (simp add: wrap64_def in_int64_def)

section \<open>Counting runes\<close>

text \<open>
  \<^verbatim>\<open>utf8.RuneCountInString\<close>: a well-formed sequence of one to four bytes counts as one
  rune, every other byte as one rune of its own. \<open>utf8_width\<close> gives the length of the
  well-formed sequence at the head of the string, 1 where there is none.
\<close>

definition cont :: "char \<Rightarrow> nat \<Rightarrow> nat \<Rightarrow> bool" where
  "cont c lo hi \<longleftrightarrow> lo \<le> (of_char c :: nat) \<and> (of_char c :: nat) \<le> hi"

definition utf8_width :: "string \<Rightarrow> nat" where
  "utf8_width s = (case s of [] \<Rightarrow> 0 | c # r \<Rightarrow>
     (let b = of_char c :: nat;
          c1 = (\<lambda>lo hi. r \<noteq> [] \<and> cont (r ! 0) lo hi);
          c2 = (1 < length r \<and> cont (r ! 1) 128 191);
          c3 = (2 < length r \<and> cont (r ! 2) 128 191)
      in if 194 \<le> b \<and> b \<le> 223 \<and> c1 128 191 then 2
         else if (b = 224 \<and> c1 160 191 \<or> 225 \<le> b \<and> b \<le> 236 \<and> c1 128 191
                  \<or> b = 237 \<and> c1 128 159 \<or> 238 \<le> b \<and> b \<le> 239 \<and> c1 128 191) \<and> c2 then 3
         else if (b = 240 \<and> c1 144 191 \<or> 241 \<le> b \<and> b \<le> 243 \<and> c1 128 191
                  \<or> b = 244 \<and> c1 128 143) \<and> c2 \<and> c3 then 4
         else 1))"

lemma utf8_width_pos: "s \<noteq> [] \<Longrightarrow> 0 < utf8_width s"
  by (cases s) (simp_all add: utf8_width_def Let_def)

function rune_count :: "string \<Rightarrow> nat" where
  "rune_count s = (if s = [] then 0 else Suc (rune_count (drop (utf8_width s) s)))"
  by pat_completeness auto
termination
  by (relation "measure length") (auto simp: utf8_width_pos)

declare rune_count.simps [simp del]

lemma rune_count_le_length: "rune_count s \<le> length s"
proof (induction s rule: rune_count.induct)
  case (1 s)
  show ?case
  proof (cases "s = []")
    case True
    then show ?thesis by (simp add: rune_count.simps)
  next
    case False
    with "1.IH" have "rune_count (drop (utf8_width s) s) \<le> length s - utf8_width s" by simp
    moreover have "0 < utf8_width s" and "0 < length s"
      using False by (simp_all add: utf8_width_pos)
    ultimately have "Suc (rune_count (drop (utf8_width s) s)) \<le> length s" by linarith
    with False show ?thesis
      by (simp add: rune_count.simps [of s])
  qed
qed

lemma utf8_width_ascii: "(of_char c :: nat) < 128 \<Longrightarrow> utf8_width (c # s) = 1"
  by (simp add: utf8_width_def Let_def)

lemma rune_count_ascii: "list_all (\<lambda>c. (of_char c :: nat) < 128) s \<Longrightarrow> rune_count s = length s"
  by (induction s) (simp_all add: rune_count.simps utf8_width_ascii)

end
