(* ===== verification/JsonText.thy ===== *)
theory JsonText
  imports GoJson
begin

text \<open>
  The printed text of a JSON tree reads back as the same tree (\<open>parse_json_print\<close>), and every
  tree that the parser returns has well-formed number literals (\<open>parse_json_wf\<close>). The lemmas
  follow the lexers: string literals, numbers, then values with enough fuel.
\<close>

section \<open>String literals\<close>

declare unquote.simps(2) [simp del]

lemma char_of_eq: "char_of (n :: nat) = c \<longleftrightarrow> n mod 256 = of_char c"
  by (metis of_char_eq_iff of_char_of)

lemma hex_val_hex_digit: "k < 16 \<Longrightarrow> hex_val (hex_digit k) = Some k"
  by (auto simp: hex_val_def hex_digit_def Let_def of_char_of)

lemma hex_val_0: "hex_val (CHR ''0'') = Some 0"
  by (simp add: hex_val_def)

lemma utf8_encode_ascii: "n < 128 \<Longrightarrow> utf8_encode n = [char_of n]"
  by (simp add: utf8_encode_def)

lemma char_of_of_char_nat: "char_of (of_char c :: nat) = c" by simp

lemma unquote_u2028: "unquote (BS # ''u2028'' @ t) = map_option (\<lambda>(x, r). (CHR 0xE2 # CHR 0x80 # CHR 0xA8 # x, r)) (unquote t)"
proof -
  have h: "hex4 (''2028'' @ t) = Some 8232" unfolding hex4_def by (simp add: hex_val_def)
  have u: "utf8_encode 8232 = [CHR 0xE2, CHR 0x80, CHR 0xA8]" by (simp add: utf8_encode_def char_of_eq)
  show ?thesis using h u by (simp add: unquote.simps(2))
qed

lemma unquote_u2029: "unquote (BS # ''u2029'' @ t) = map_option (\<lambda>(x, r). (CHR 0xE2 # CHR 0x80 # CHR 0xA9 # x, r)) (unquote t)"
proof -
  have h: "hex4 (''2029'' @ t) = Some 8233" unfolding hex4_def by (simp add: hex_val_def)
  have u: "utf8_encode 8233 = [CHR 0xE2, CHR 0x80, CHR 0xA9]" by (simp add: utf8_encode_def char_of_eq)
  show ?thesis using h u by (simp add: unquote.simps(2))
qed

lemma unquote_short_escape:
  "e \<noteq> CHR ''u'' \<Longrightarrow> unescape_char e = Some d \<Longrightarrow>
   unquote (BS # e # t) = map_option (\<lambda>(x, r). (d # x, r)) (unquote t)"
  by (simp add: unquote.simps(2))

lemma unescape_short:
  "unescape_char (CHR ''b'') = Some (CHR 0x08)" "unescape_char (CHR ''t'') = Some (CHR 0x09)"
  "unescape_char (CHR ''n'') = Some (CHR 0x0A)" "unescape_char (CHR ''f'') = Some (CHR 0x0C)"
  "unescape_char (CHR ''r'') = Some (CHR 0x0D)"
  by (simp_all add: unescape_char_def)

lemma escape_short:
  "escape_char (CHR 0x08) = [BS, CHR ''b'']" "escape_char (CHR 0x09) = [BS, CHR ''t'']"
  "escape_char (CHR 0x0A) = [BS, CHR ''n'']" "escape_char (CHR 0x0C) = [BS, CHR ''f'']"
  "escape_char (CHR 0x0D) = [BS, CHR ''r'']"
  by (simp_all add: escape_char_def)

lemma unquote_escape_char:
  "unquote (escape_char c @ t) = map_option (\<lambda>(x, r). (c # x, r)) (unquote t)"
proof -
  define n where "n = (of_char c :: nat)"
  have n256: "n < 256" by (simp add: n_def)
  have cn: "c = char_of n" by (simp add: n_def)
  consider (q) "c = DQ \<or> c = BS" | (e) "n \<in> {8, 9, 10, 12, 13}"
    | (u) "c \<noteq> DQ" "c \<noteq> BS" "n \<notin> {8, 9, 10, 12, 13}" "n < 32 \<or> n = 60 \<or> n = 62 \<or> n = 38"
    | (o) "c \<noteq> DQ" "c \<noteq> BS" "\<not> n < 32" "n \<notin> {38, 60, 62}"
    by auto
  then show ?thesis
  proof cases
    case q
    then show ?thesis by (auto simp: escape_char_def Let_def unescape_char_def unquote.simps(2))
  next
    case e
    moreover have "char_of (8::nat) = CHR 0x08" "char_of (9::nat) = CHR 0x09" "char_of (10::nat) = CHR 0x0A"
      "char_of (12::nat) = CHR 0x0C" "char_of (13::nat) = CHR 0x0D"
      by (simp_all add: char_of_eq)
    ultimately have "c \<in> {CHR 0x08, CHR 0x09, CHR 0x0A, CHR 0x0C, CHR 0x0D}"
      unfolding cn by (elim insertE emptyE) (simp_all only: insert_iff simp_thms)
    then show ?thesis
      by (elim insertE emptyE) (simp_all add: escape_short unescape_short unquote_short_escape)
  next
    case u
    then have n: "n < 128" by auto
    have "hex4 (CHR ''0'' # CHR ''0'' # hex_digit (n div 16) # hex_digit (n mod 16) # t) = Some n"
      using n256 by (simp add: hex4_def hex_val_hex_digit hex_val_0)
    moreover have "escape_char c =
        [BS, CHR ''u'', CHR ''0'', CHR ''0'', hex_digit (n div 16), hex_digit (n mod 16)]"
      using u by (auto simp: escape_char_def Let_def n_def)
    moreover have "utf8_encode n = [c]" using n cn by (simp only: utf8_encode_ascii)
    moreover have "\<not> 55296 \<le> n" using n by simp
    ultimately show ?thesis by (simp add: unquote.simps(2))
  next
    case o
    then have "escape_char c = [c]" by (auto simp: escape_char_def Let_def n_def)
    with o show ?thesis by (simp add: n_def unquote.simps(2))
  qed
qed

lemma unquote_quote_body: "unquote (quote_body s @ DQ # t) = Some (s, t)"
proof (induction s rule: quote_body.induct)
  case 1
  then show ?case by (simp add: unquote.simps(2))
next
  case (2 c s)
  consider (a) "c = CHR 0xE2 \<and> take 2 s = [CHR 0x80, CHR 0xA8]"
    | (b) "c = CHR 0xE2 \<and> take 2 s = [CHR 0x80, CHR 0xA9]"
    | (o) "\<not> (c = CHR 0xE2 \<and> take 2 s = [CHR 0x80, CHR 0xA8])" "\<not> (c = CHR 0xE2 \<and> take 2 s = [CHR 0x80, CHR 0xA9])"
    by blast
  then show ?case
  proof cases
    case a
    then have s: "s = CHR 0x80 # CHR 0xA8 # drop 2 s" by (metis append_Cons append_Nil append_take_drop_id)
    from a have "quote_body (c # s) @ DQ # t = BS # ''u2028'' @ (quote_body (drop 2 s) @ DQ # t)" by simp
    then show ?thesis using "2.IH"(1) [OF a] a s by (simp only: unquote_u2028) simp
  next
    case b
    then have s: "s = CHR 0x80 # CHR 0xA9 # drop 2 s" by (metis append_Cons append_Nil append_take_drop_id)
    from b have "quote_body (c # s) @ DQ # t = BS # ''u2029'' @ (quote_body (drop 2 s) @ DQ # t)" by simp
    moreover have "\<not> (c = CHR 0xE2 \<and> take 2 s = [CHR 0x80, CHR 0xA8])" using b by simp
    ultimately show ?thesis using "2.IH"(2) b s by (simp only: unquote_u2029) simp
  next
    case o
    then have "quote_body (c # s) @ DQ # t = escape_char c @ (quote_body s @ DQ # t)" by auto
    then show ?thesis using "2.IH"(3) o by (simp only: unquote_escape_char) simp
  qed
qed

section \<open>Number literals\<close>

definition num_char :: "char \<Rightarrow> bool" where
  "num_char c \<longleftrightarrow> is_digit c \<or> c \<in> {CHR ''.'', CHR ''e'', CHR ''E'', CHR ''+'', CHR ''-''}"

definition delimited :: "string \<Rightarrow> bool" where
  "delimited t \<longleftrightarrow> t = [] \<or> \<not> num_char (hd t)"

lemma delimited_Cons [simp]: "delimited (c # t) \<longleftrightarrow> \<not> num_char c"
  by (simp add: delimited_def)

lemma delimited_Nil [simp]: "delimited []"
  by (simp add: delimited_def)

lemma span_append_delimited:
  "delimited t \<Longrightarrow> span is_digit (s @ t) = (let (d, r) = span is_digit s in (d, r @ t))"
proof -
  assume t: "delimited t"
  then have "takeWhile is_digit t = []" and "dropWhile is_digit t = t"
    by (cases t; simp add: num_char_def)+
  then show ?thesis
    by (cases "\<forall>x \<in> set s. is_digit x")
      (simp_all add: span_def takeWhile_append dropWhile_append takeWhile_eq_all_conv [THEN iffD2]
        dropWhile_eq_Nil_conv [THEN iffD2])
qed

lemma num_char_signs [simp]:
  "num_char (CHR ''.'')" "num_char (CHR ''e'')" "num_char (CHR ''E'')"
  "num_char (CHR ''+'')" "num_char (CHR ''-'')"
  by (simp_all add: num_char_def)

lemma num_char_delims [simp]:
  "\<not> num_char (CHR '','')" "\<not> num_char (CHR '']'')" "\<not> num_char (CHR ''}'')" "\<not> num_char (CHR '':'')"
  by (simp_all add: num_char_def is_digit_def)

lemma lex_digits_append:
  "delimited t \<Longrightarrow> lex_digits s = Some (a, r) \<Longrightarrow> lex_digits (s @ t) = Some (a, r @ t)"
  by (auto simp: lex_digits_def span_append_delimited Let_def split: if_splits prod.splits)

lemma lex_sign_append:
  "delimited t \<Longrightarrow> list_all num_char cs \<Longrightarrow> lex_sign cs (s @ t) = (let (sg, r) = lex_sign cs s in (sg, r @ t))"
  by (cases s; cases t) (auto simp: lex_sign_def list_all_iff)

lemma lex_int_append:
  "delimited t \<Longrightarrow> lex_int s = Some (a, r) \<Longrightarrow> lex_int (s @ t) = Some (a, r @ t)"
  using span_append_delimited [of t s]
  by (cases s) (auto simp: lex_int_def Let_def split: if_splits prod.splits)

lemma lex_frac_append:
  "delimited t \<Longrightarrow> lex_frac s = Some (a, r) \<Longrightarrow> lex_frac (s @ t) = Some (a, r @ t)"
  by (auto simp: lex_frac_def lex_sign_append lex_digits_append split: prod.splits if_splits)

lemma lex_exp_append:
  "delimited t \<Longrightarrow> lex_exp s = Some (a, r) \<Longrightarrow> lex_exp (s @ t) = Some (a, r @ t)"
  by (auto simp: lex_exp_def lex_sign_append lex_digits_append split: prod.splits if_splits)

lemma lex_number_append:
  "delimited t \<Longrightarrow> lex_number s = Some (a, r) \<Longrightarrow> lex_number (s @ t) = Some (a, r @ t)"
proof -
  assume t: "delimited t" and l: "lex_number s = Some (a, r)"
  obtain sg r0 where 0: "lex_sign ''-'' s = (sg, r0)" by fastforce
  with l obtain a1 r1 b r2 c r3 where
    1: "lex_int r0 = Some (a1, r1)" and 2: "lex_frac r1 = Some (b, r2)"
    and 3: "lex_exp r2 = Some (c, r3)" and a: "a = sg @ a1 @ b @ c" "r = r3"
    unfolding lex_number_def by (auto split: option.splits)
  have "lex_sign ''-'' (s @ t) = (sg, r0 @ t)"
    using t 0 by (simp add: lex_sign_append)
  with lex_int_append [OF t 1] lex_frac_append [OF t 2] lex_exp_append [OF t 3] a
  show ?thesis by (simp add: lex_number_def)
qed

lemma valid_number_append: "valid_number l \<Longrightarrow> delimited t \<Longrightarrow> lex_number (l @ t) = Some (l, t)"
  using lex_number_append [of t l l "[]"] by (simp add: valid_number_def)

lemma valid_number_head:
  assumes "valid_number l"
  obtains c r where "l = c # r" and "c = CHR ''-'' \<or> is_digit c"
proof (cases l)
  case Nil
  with assms show ?thesis by (simp add: valid_number_def lex_number_def lex_int_def lex_sign_def)
next
  case (Cons c r)
  with assms have "c = CHR ''-'' \<or> is_digit c"
    by (auto simp: valid_number_def lex_number_def lex_int_def lex_sign_def is_digit_def split: if_splits option.splits)
  with Cons that show ?thesis by blast
qed

lemma lex_int_nat_str: "lex_int (nat_str n) = Some (nat_str n, [])"
proof -
  obtain c r where cr: "nat_str n = c # r" by (cases "nat_str n") auto
  have d: "\<forall>x \<in> set (nat_str n). is_digit x" using nat_str_digits [of _ n] by blast
  then have s: "span is_digit (nat_str n) = (nat_str n, [])"
    by (simp add: span_def takeWhile_eq_all_conv dropWhile_eq_Nil_conv)
  show ?thesis
  proof (cases "n = 0")
    case True
    then show ?thesis
      by (simp add: nat_str.simps lex_int_def digit_char_def char_of_eq)
  next
    case False
    with nat_str_hd [of n] cr have "c \<noteq> CHR ''0''" by simp
    with s d show ?thesis by (simp add: lex_int_def cr)
  qed
qed

lemma lex_sign_nat_str: "lex_sign ''-'' (nat_str n) = ([], nat_str n)"
  using nat_str_not_minus [of n] by (cases "nat_str n") (auto simp: lex_sign_def)

lemma lex_sign_Nil [simp]: "lex_sign cs [] = ([], [])"
  by (simp add: lex_sign_def)

lemma lex_sign_Cons: "lex_sign cs (c # s) = (if c \<in> set cs then ([c], s) else ([], c # s))"
  by (simp add: lex_sign_def)

lemma valid_number_nat_str: "valid_number (nat_str n)"
  by (simp add: valid_number_def lex_number_def lex_sign_nat_str lex_int_nat_str lex_frac_def lex_exp_def)

lemma valid_number_minus_nat_str: "valid_number (CHR ''-'' # nat_str n)"
  by (simp add: valid_number_def lex_number_def lex_sign_Cons lex_int_nat_str lex_frac_def lex_exp_def)

lemma valid_number_itoa [simp]: "valid_number (itoa i)"
  by (simp add: itoa_def valid_number_nat_str valid_number_minus_nat_str)

section \<open>Values\<close>

declare parse_value.simps [simp del] parse_elems.simps [simp del] parse_members.simps [simp del]

lemma skip_ws_id: "\<not> is_ws c \<Longrightarrow> skip_ws (c # s) = c # s"
  by simp

lemma not_ws [simp]:
  "\<not> is_ws (CHR '','')" "\<not> is_ws (CHR '']'')" "\<not> is_ws (CHR ''}'')" "\<not> is_ws (CHR '':'')"
  "\<not> is_ws (CHR ''['')" "\<not> is_ws (CHR ''{'')" "\<not> is_ws DQ" "\<not> is_ws (CHR ''n'')" "\<not> is_ws (CHR ''t'')"
  "\<not> is_ws (CHR ''f'')" "\<not> is_ws (CHR ''-'')"
  by (simp_all add: is_ws_def)

lemma digit_not_ws: "is_digit c \<Longrightarrow> \<not> is_ws c"
  by (auto simp: is_digit_def is_ws_def)

lemma is_digit_not_punct:
  "is_digit c \<or> c = CHR ''-'' \<Longrightarrow>
   c \<notin> {CHR ''['', CHR ''{'', DQ, CHR ''n'', CHR ''t'', CHR ''f'', CHR '']'', CHR ''}'', CHR '',''}"
  by (auto simp: is_digit_def)

lemma parse_number:
  assumes l: "valid_number l" and t: "delimited t"
  shows "parse_value (Suc n) (l @ t) = Some (JNum l, t)"
proof -
  obtain c r where cr: "l = c # r" and c: "c = CHR ''-'' \<or> is_digit c"
    using l by (rule valid_number_head)
  have ws: "\<not> is_ws c" using c digit_not_ws by auto
  have lx: "lex_number (c # r @ t) = Some (c # r, t)"
    using valid_number_append [OF l t] cr by simp
  have "c \<notin> {CHR ''['', CHR ''{'', DQ, CHR ''n'', CHR ''t'', CHR ''f''}"
    using is_digit_not_punct [of c] c by auto
  then show ?thesis by (simp add: parse_value.simps cr ws lx)
qed

text \<open>The first character of a printed value is neither white space nor a closing bracket.\<close>

definition value_start :: "string \<Rightarrow> bool" where
  "value_start s \<longleftrightarrow> (\<exists>c r. s = c # r \<and> \<not> is_ws c \<and> c \<noteq> CHR '']'' \<and> c \<noteq> CHR ''}'')"

lemma value_start_print: "wf_json j \<Longrightarrow> value_start (print_json j)"
proof (cases j)
  case (JNum l)
  moreover assume "wf_json j"
  ultimately have "valid_number l" by simp
  then obtain c r where "l = c # r" and "c = CHR ''-'' \<or> is_digit c"
    by (rule valid_number_head)
  with JNum show ?thesis
    using is_digit_not_punct [of c] digit_not_ws [of c] by (auto simp: value_start_def)
qed (auto simp: value_start_def quote_def)

lemma value_start_append: "value_start s \<Longrightarrow> value_start (s @ t)"
  by (auto simp: value_start_def)

lemma value_start_skip: "value_start s \<Longrightarrow> skip_ws s = s \<and> take 1 s \<noteq> '']'' \<and> take 1 s \<noteq> ''}''"
  by (auto simp: value_start_def)

definition print_elems :: "json list \<Rightarrow> string" where
  "print_elems js = join '','' (map print_json js) @ '']''"

definition print_members :: "members \<Rightarrow> string" where
  "print_members kvs = join '','' (map (\<lambda>kv. quote (fst kv) @ '':'' @ print_json (snd kv)) kvs) @ ''}''"

lemma print_elems_Cons:
  "print_elems (j # js) = print_json j @ (if js = [] then '']'' else CHR '','' # print_elems js)"
  by (cases js) (simp_all add: print_elems_def)

lemma print_members_Cons:
  "print_members (kv # kvs) = quote (fst kv) @ CHR '':'' # print_json (snd kv) @
     (if kvs = [] then ''}'' else CHR '','' # print_members kvs)"
  by (cases kvs) (simp_all add: print_members_def)

lemma parse_elems_print:
  assumes "js \<noteq> []" and "2 * length (print_elems js) \<le> n"
    and "\<And>j n t. j \<in> set js \<Longrightarrow> 2 * length (print_json j) \<le> n \<Longrightarrow> delimited t \<Longrightarrow>
           parse_value n (print_json j @ t) = Some (j, t)"
  shows "parse_elems n (print_elems js @ t) = Some (js, t)"
  using assms
proof (induction js arbitrary: n)
  case Nil
  then show ?case by simp
next
  case (Cons j js)
  obtain m where n: "n = Suc m"
    using Cons.prems(2) by (cases n) (auto simp: print_elems_def)
  show ?case
  proof (cases "js = []")
    case True
    have "parse_value m (print_json j @ CHR '']'' # t) = Some (j, CHR '']'' # t)"
      using Cons.prems n True by (intro Cons.prems(3)) (auto simp: print_elems_Cons)
    then show ?thesis using True n by (simp add: parse_elems.simps print_elems_Cons)
  next
    case False
    have "parse_value m (print_json j @ CHR '','' # print_elems js @ t) = Some (j, CHR '','' # print_elems js @ t)"
      using Cons.prems n False by (intro Cons.prems(3)) (auto simp: print_elems_Cons)
    moreover have "parse_elems m (print_elems js @ t) = Some (js, t)"
      using Cons.prems n False by (intro Cons.IH) (auto simp: print_elems_Cons)
    ultimately show ?thesis using False n by (simp add: parse_elems.simps print_elems_Cons)
  qed
qed

lemma unquote_quote: "unquote (quote_body s @ DQ # t) = Some (s, t)"
  by (rule unquote_quote_body)

lemma parse_members_print:
  assumes "kvs \<noteq> []" and "2 * length (print_members kvs) \<le> n"
    and "\<And>kv n t. kv \<in> set kvs \<Longrightarrow> 2 * length (print_json (snd kv)) \<le> n \<Longrightarrow> delimited t \<Longrightarrow>
           parse_value n (print_json (snd kv) @ t) = Some (snd kv, t)"
  shows "parse_members n (print_members kvs @ t) = Some (kvs, t)"
  using assms
proof (induction kvs arbitrary: n)
  case Nil
  then show ?case by simp
next
  case (Cons kv kvs)
  obtain m where n: "n = Suc m"
    using Cons.prems(2) by (cases n) (auto simp: print_members_def)
  show ?case
  proof (cases "kvs = []")
    case True
    have "parse_value m (print_json (snd kv) @ CHR ''}'' # t) = Some (snd kv, CHR ''}'' # t)"
      using Cons.prems n True by (intro Cons.prems(3)) (auto simp: print_members_Cons)
    then show ?thesis using True n
      by (simp add: parse_members.simps print_members_Cons quote_def unquote_quote)
  next
    case False
    have "parse_value m (print_json (snd kv) @ CHR '','' # print_members kvs @ t)
        = Some (snd kv, CHR '','' # print_members kvs @ t)"
      using Cons.prems n False by (intro Cons.prems(3)) (auto simp: print_members_Cons)
    moreover have "parse_members m (print_members kvs @ t) = Some (kvs, t)"
      using Cons.prems n False by (intro Cons.IH) (auto simp: print_members_Cons)
    ultimately show ?thesis using False n
      by (simp add: parse_members.simps print_members_Cons quote_def unquote_quote)
  qed
qed

lemma print_members_start: "kvs \<noteq> [] \<Longrightarrow> value_start (print_members kvs)"
  by (cases kvs) (auto simp: print_members_Cons quote_def value_start_def)

lemma print_elems_start: "js \<noteq> [] \<Longrightarrow> list_all wf_json js \<Longrightarrow> value_start (print_elems js)"
  by (cases js) (auto simp: print_elems_Cons intro: value_start_append value_start_print)

lemma parse_value_print:
  "wf_json j \<Longrightarrow> 2 * length (print_json j) \<le> n \<Longrightarrow> delimited t \<Longrightarrow>
   parse_value n (print_json j @ t) = Some (j, t)"
proof (induction j arbitrary: n t)
  case JNull
  then show ?case by (cases n) (auto simp: parse_value.simps literal_def has_prefix_def)
next
  case (JBool b)
  then show ?case by (cases n; cases b) (auto simp: parse_value.simps literal_def has_prefix_def)
next
  case (JNum l)
  then obtain m where "n = Suc m"
    by (cases n) (auto simp: valid_number_def lex_number_def lex_int_def)
  with JNum show ?case by (simp add: parse_number)
next
  case (JStr s)
  then obtain m where "n = Suc m" by (cases n) (auto simp: quote_def)
  then show ?case by (simp add: parse_value.simps quote_def unquote_quote)
next
  case (JArr js)
  then obtain m where n: "n = Suc m" by (cases n) auto
  show ?case
  proof (cases "js = []")
    case True
    with n show ?thesis by (simp add: parse_value.simps)
  next
    case False
    have p: "print_json (JArr js) = CHR ''['' # print_elems js" by (simp add: print_elems_def)
    have "parse_elems m (print_elems js @ t) = Some (js, t)"
    proof (rule parse_elems_print [OF False])
      show "2 * length (print_elems js) \<le> m" using JArr.prems(2) [unfolded p] n by simp
      show "\<And>j n t. j \<in> set js \<Longrightarrow> 2 * length (print_json j) \<le> n \<Longrightarrow> delimited t \<Longrightarrow>
           parse_value n (print_json j @ t) = Some (j, t)"
        using JArr.IH JArr.prems(1) by (auto simp: list_all_iff)
    qed
    moreover define u where "u = print_elems js @ t"
    moreover have "value_start u"
      unfolding u_def using False JArr.prems(1) by (auto intro: value_start_append print_elems_start)
    then have "skip_ws u = u \<and> take 1 u \<noteq> '']'' \<and> take 1 u \<noteq> ''}''" by (rule value_start_skip)
    moreover have "print_json (JArr js) @ t = CHR ''['' # u" by (simp only: p u_def append_Cons)
    ultimately show ?thesis
      using n by (simp add: parse_value.simps del: print_json.simps)
  qed
next
  case (JObj kvs)
  then obtain m where n: "n = Suc m" by (cases n) auto
  show ?case
  proof (cases "kvs = []")
    case True
    with n show ?thesis by (simp add: parse_value.simps)
  next
    case False
    have p: "print_json (JObj kvs) = CHR ''{'' # print_members kvs" by (simp add: print_members_def)
    have "parse_members m (print_members kvs @ t) = Some (kvs, t)"
    proof (rule parse_members_print [OF False])
      show "2 * length (print_members kvs) \<le> m" using JObj.prems(2) [unfolded p] n by simp
      show "\<And>kv n t. kv \<in> set kvs \<Longrightarrow> 2 * length (print_json (snd kv)) \<le> n \<Longrightarrow> delimited t \<Longrightarrow>
           parse_value n (print_json (snd kv) @ t) = Some (snd kv, t)"
        using JObj.IH JObj.prems(1) by (fastforce simp: list_all_iff)
    qed
    moreover define u where "u = print_members kvs @ t"
    moreover have "value_start u"
      unfolding u_def using False by (auto intro: value_start_append print_members_start)
    then have "skip_ws u = u \<and> take 1 u \<noteq> '']'' \<and> take 1 u \<noteq> ''}''" by (rule value_start_skip)
    moreover have "print_json (JObj kvs) @ t = CHR ''{'' # u" by (simp only: p u_def append_Cons)
    ultimately show ?thesis
      using n by (simp add: parse_value.simps del: print_json.simps)
  qed
qed

lemma parse_json_print [simp]: "wf_json j \<Longrightarrow> parse_json (print_json j) = Some j"
  using parse_value_print [of j "2 * length (print_json j) + 1" "[]"] by (simp add: parse_json_def)

section \<open>Parsed trees are well formed\<close>

definition no_digit :: "string \<Rightarrow> bool" where
  "no_digit u \<longleftrightarrow> u = [] \<or> \<not> is_digit (hd u)"

lemma no_digit_simps [simp]: "no_digit []" "no_digit (c # u) \<longleftrightarrow> \<not> is_digit c"
  by (simp_all add: no_digit_def)

lemma span_restart: "span P s = (a, r) \<Longrightarrow> u = [] \<or> \<not> P (hd u) \<Longrightarrow> span P (a @ u) = (a, u)"
proof -
  assume s: "span P s = (a, r)" and u: "u = [] \<or> \<not> P (hd u)"
  have a: "\<forall>x \<in> set a. P x" using s by (auto simp: span_def dest: set_takeWhileD)
  have "takeWhile P u = []" "dropWhile P u = u" using u by (cases u; simp)+
  with a show ?thesis
    by (simp add: span_def takeWhile_append dropWhile_append takeWhile_eq_all_conv [THEN iffD2]
        dropWhile_eq_Nil_conv [THEN iffD2])
qed

lemma lex_digits_restart: "lex_digits s = Some (a, r) \<Longrightarrow> no_digit u \<Longrightarrow> lex_digits (a @ u) = Some (a, u)"
  by (auto simp: lex_digits_def Let_def no_digit_def span_restart split: prod.splits if_splits)

lemma lex_digits_head: "lex_digits s = Some (a, r) \<Longrightarrow> \<exists>d a'. a = d # a' \<and> is_digit d"
  by (cases s) (auto simp: lex_digits_def span_def split: if_splits)

lemma lex_int_restart: "lex_int s = Some (a, r) \<Longrightarrow> no_digit u \<Longrightarrow> lex_int (a @ u) = Some (a, u)"
proof (cases s)
  case (Cons c s')
  assume l: "lex_int s = Some (a, r)" and u: "no_digit u"
  show ?thesis
  proof (cases "c = CHR ''0''")
    case True
    with l Cons show ?thesis by (auto simp: lex_int_def)
  next
    case False
    with l Cons have sp: "span is_digit s = (a, r)" and d: "is_digit c"
      by (auto simp: lex_int_def split: if_splits)
    then obtain a' where a: "a = c # a'" using Cons by (auto simp: span_def)
    have "span is_digit (a @ u) = (a, u)"
      using sp u by (intro span_restart) (auto simp: no_digit_def)
    with False d a show ?thesis by (simp add: lex_int_def)
  qed
qed (simp add: lex_int_def)

lemma lex_frac_restart:
  assumes "lex_frac s = Some (a, r)" and "u = [] \<or> hd u \<in> set ''eE''"
  shows "lex_frac (a @ u) = Some (a, u) \<and> no_digit (a @ u)"
proof -
  have u: "no_digit u" "lex_sign ''.'' u = ([], u)"
    using assms(2) by (cases u; auto simp: no_digit_def is_digit_def lex_sign_def)+
  show ?thesis
  proof (cases "s \<noteq> [] \<and> hd s = CHR ''.''")
    case True
    then have "lex_sign ''.'' s = (''.'', tl s)" by (simp add: lex_sign_def)
    with assms(1) obtain ds where ds: "lex_digits (tl s) = Some (ds, r)" and a: "a = CHR ''.'' # ds"
      by (auto simp: lex_frac_def)
    from lex_digits_restart [OF ds u(1)] a show ?thesis
      by (simp add: lex_frac_def lex_sign_Cons is_digit_def)
  next
    case False
    then have "lex_sign ''.'' s = ([], s)" by (auto simp: lex_sign_def)
    with assms(1) have "a = []" by (simp add: lex_frac_def)
    with u show ?thesis by (simp add: lex_frac_def)
  qed
qed

lemma lex_exp_restart:
  assumes "lex_exp s = Some (a, r)"
  shows "lex_exp a = Some (a, []) \<and> (a = [] \<or> hd a \<in> set ''eE'')"
proof (cases "s \<noteq> [] \<and> hd s \<in> set ''eE''")
  case False
  then have "lex_sign ''eE'' s = ([], s)" unfolding lex_sign_def by (rule if_not_P)
  with assms have "a = []" by (simp add: lex_exp_def)
  then show ?thesis by (simp add: lex_exp_def)
next
  case True
  then have s: "lex_sign ''eE'' s = ([hd s], tl s)" unfolding lex_sign_def by (rule if_P)
  obtain sg r1 where sg: "lex_sign ''+-'' (tl s) = (sg, r1)" by fastforce
  with s assms obtain ds where ds: "lex_digits r1 = Some (ds, r)" and a: "a = hd s # sg @ ds"
    by (auto simp: lex_exp_def)
  obtain d ds' where d: "ds = d # ds'" "is_digit d" using lex_digits_head [OF ds] by blast
  have "lex_sign ''+-'' (sg @ ds) = (sg, ds)"
    using sg d by (auto simp: lex_sign_def is_digit_def split: if_splits)
  moreover have "lex_digits ds = Some (ds, [])" using lex_digits_restart [OF ds, of "[]"] by simp
  ultimately show ?thesis using True a by (simp add: lex_exp_def lex_sign_Cons)
qed

lemma lex_number_valid: "lex_number s = Some (a, r) \<Longrightarrow> valid_number a"
proof -
  assume l: "lex_number s = Some (a, r)"
  obtain sg r0 where 0: "lex_sign ''-'' s = (sg, r0)" by fastforce
  with l obtain a1 r1 b r2 c r3 where
    1: "lex_int r0 = Some (a1, r1)" and 2: "lex_frac r1 = Some (b, r2)"
    and 3: "lex_exp r2 = Some (c, r3)" and a: "a = sg @ a1 @ b @ c"
    unfolding lex_number_def by (auto split: option.splits)
  have c: "lex_exp c = Some (c, [])" "c = [] \<or> hd c \<in> set ''eE''"
    using lex_exp_restart [OF 3] by auto
  have b: "lex_frac (b @ c) = Some (b, c)" "no_digit (b @ c)"
    using lex_frac_restart [OF 2 c(2)] by auto
  have a1: "lex_int (a1 @ b @ c) = Some (a1, b @ c)"
    using lex_int_restart [OF 1 b(2)] .
  have "a1 \<noteq> [] \<and> hd a1 \<noteq> CHR ''-''"
    using 1 by (auto simp: lex_int_def span_def is_digit_def split: list.splits if_splits)
  then have "lex_sign ''-'' (sg @ a1 @ b @ c) = (sg, a1 @ b @ c)"
    using 0 by (auto simp: lex_sign_def split: if_splits)
  with a1 b c a show ?thesis by (simp add: valid_number_def lex_number_def)
qed

lemma parse_wf_all:
  "(\<forall>s j r. parse_value n s = Some (j, r) \<longrightarrow> wf_json j) \<and>
   (\<forall>s js r. parse_elems n s = Some (js, r) \<longrightarrow> list_all wf_json js) \<and>
   (\<forall>s kvs r. parse_members n s = Some (kvs, r) \<longrightarrow> list_all (\<lambda>kv. wf_json (snd kv)) kvs)"
proof (induction n)
  case 0
  then show ?case by (simp add: parse_value.simps parse_elems.simps parse_members.simps)
next
  case (Suc n)
  then have v: "\<And>s j r. parse_value n s = Some (j, r) \<Longrightarrow> wf_json j"
    and e: "\<And>s js r. parse_elems n s = Some (js, r) \<Longrightarrow> list_all wf_json js"
    and m: "\<And>s kvs r. parse_members n s = Some (kvs, r) \<Longrightarrow> list_all (\<lambda>kv. wf_json (snd kv)) kvs"
    by blast+
  have "parse_value (Suc n) s = Some (j, r) \<Longrightarrow> wf_json j" for s j r
    by (auto simp: parse_value.simps literal_def dest: lex_number_valid e m split: list.splits if_splits)
  moreover have "parse_elems (Suc n) s = Some (js, r) \<Longrightarrow> list_all wf_json js" for s js r
    by (auto simp: parse_elems.simps split: option.splits if_splits) (erule v e)+
  moreover have "parse_members (Suc n) s = Some (kvs, r) \<Longrightarrow> list_all (\<lambda>kv. wf_json (snd kv)) kvs" for s kvs r
    by (auto simp: parse_members.simps split: option.splits if_splits) (erule v m)+
  ultimately show ?case by blast
qed

lemma parse_value_wf: "parse_value n s = Some (j, r) \<Longrightarrow> wf_json j"
  using parse_wf_all by blast

lemma parse_json_wf: "parse_json s = Some j \<Longrightarrow> wf_json j"
  by (auto simp: parse_json_def dest: parse_value_wf split: option.splits if_splits)

end
