(* ===== verification/GoDecode.thy ===== *)
theory GoDecode
  imports JsonText
begin

text \<open>
  \<^verbatim>\<open>json.Unmarshal\<close> into the Go types the program uses.

  A decoder takes the current value of the destination and a tree and returns the new value
  and a flag that is \<^const>\<open>False\<close> where Go reports an \<^verbatim>\<open>UnmarshalTypeError\<close>: decoding goes
  on after such an error and the error is returned at the end, so callers that ignore the
  error see the value decoded so far. \<^verbatim>\<open>null\<close> leaves a non-pointer destination
  unchanged. A struct is decoded member by member: \<open>fields_of k\<close> are the members whose name
  matches \<open>k\<close> up to letter case, in their order, and each overwrites the field; the members
  of a nested struct that occurs twice are decoded one after the other. (Go also decodes the
  elements of an array that occurs twice under one name over the earlier elements; here the
  last array counts.)

  A Go \<^verbatim>\<open>float64\<close> is represented by the number literal it was decoded from; the rounding
  and reformatting of \<^verbatim>\<open>strconv\<close> are not modelled.
\<close>

type_synonym 'a decoded = "'a \<times> bool"

section \<open>Decoders for the basic types\<close>

fun dec_string :: "string \<Rightarrow> json \<Rightarrow> string decoded" where
  "dec_string cur (JStr s) = (s, True)"
| "dec_string cur JNull = (cur, True)"
| "dec_string cur _ = (cur, False)"

fun dec_bool :: "bool \<Rightarrow> json \<Rightarrow> bool decoded" where
  "dec_bool cur (JBool b) = (b, True)"
| "dec_bool cur JNull = (cur, True)"
| "dec_bool cur _ = (cur, False)"

fun dec_int :: "int \<Rightarrow> json \<Rightarrow> int decoded" where
  "dec_int cur (JNum l) = (case parse_int64 l of Some i \<Rightarrow> (i, True) | None \<Rightarrow> (cur, False))"
| "dec_int cur JNull = (cur, True)"
| "dec_int cur _ = (cur, False)"

type_synonym float64 = string

fun dec_float :: "float64 \<Rightarrow> json \<Rightarrow> float64 decoded" where
  "dec_float cur (JNum l) = (l, True)"
| "dec_float cur JNull = (cur, True)"
| "dec_float cur _ = (cur, False)"

text \<open>A pointer: \<^verbatim>\<open>null\<close> gives nil, anything else is decoded into a new variable.\<close>

definition dec_ptr :: "('a \<Rightarrow> json \<Rightarrow> 'a decoded) \<Rightarrow> 'a \<Rightarrow> 'a option \<Rightarrow> json \<Rightarrow> 'a option decoded" where
  "dec_ptr dec zero cur j =
     (if j = JNull then (None, True)
      else (let (v, ok) = dec (case cur of None \<Rightarrow> zero | Some x \<Rightarrow> x) j in (Some v, ok)))"

text \<open>A \<^verbatim>\<open>json.RawMessage\<close> takes the text of any value, \<^verbatim>\<open>null\<close> included.\<close>

definition dec_raw :: "raw_message \<Rightarrow> json \<Rightarrow> raw_message decoded" where
  "dec_raw cur j = (Some j, True)"

fun dec_elems :: "(json \<Rightarrow> 'a decoded) \<Rightarrow> json list \<Rightarrow> 'a list decoded" where
  "dec_elems dec [] = ([], True)"
| "dec_elems dec (j # js) =
     (let (x, ok) = dec j; (xs, oks) = dec_elems dec js in (x # xs, ok \<and> oks))"

definition dec_slice :: "(json \<Rightarrow> 'a decoded) \<Rightarrow> 'a list \<Rightarrow> json \<Rightarrow> 'a list decoded" where
  "dec_slice dec cur j = (case j of
       JArr js \<Rightarrow> dec_elems dec js
     | JNull \<Rightarrow> ([], True)
     | _ \<Rightarrow> (cur, False))"

section \<open>Structs and maps\<close>

definition fields_of :: "string \<Rightarrow> members \<Rightarrow> json list" where
  "fields_of k kvs = map snd (filter (\<lambda>kv. fold_case (fst kv) = fold_case k) kvs)"

definition field :: "('a \<Rightarrow> json \<Rightarrow> 'a decoded) \<Rightarrow> 'a \<Rightarrow> string \<Rightarrow> members \<Rightarrow> 'a decoded" where
  "field dec zero k kvs =
     foldl (\<lambda>(cur, ok) j. let (x, ok') = dec cur j in (x, ok \<and> ok')) (zero, True) (fields_of k kvs)"

abbreviation f_string :: "string \<Rightarrow> members \<Rightarrow> string decoded" where
  "f_string \<equiv> field dec_string []"
abbreviation f_bool :: "string \<Rightarrow> members \<Rightarrow> bool decoded" where
  "f_bool \<equiv> field dec_bool False"
abbreviation f_int :: "string \<Rightarrow> members \<Rightarrow> int decoded" where
  "f_int \<equiv> field dec_int 0"
abbreviation f_raw :: "string \<Rightarrow> members \<Rightarrow> raw_message decoded" where
  "f_raw \<equiv> field dec_raw None"
abbreviation f_ptr_int :: "string \<Rightarrow> members \<Rightarrow> int option decoded" where
  "f_ptr_int \<equiv> field (dec_ptr dec_int 0) None"
abbreviation f_ptr_bool :: "string \<Rightarrow> members \<Rightarrow> bool option decoded" where
  "f_ptr_bool \<equiv> field (dec_ptr dec_bool False) None"
abbreviation f_ptr_string :: "string \<Rightarrow> members \<Rightarrow> string option decoded" where
  "f_ptr_string \<equiv> field (dec_ptr dec_string []) None"
abbreviation f_ptr_float :: "string \<Rightarrow> members \<Rightarrow> float64 option decoded" where
  "f_ptr_float \<equiv> field (dec_ptr dec_float ''0'') None"
abbreviation f_slice :: "(json \<Rightarrow> 'a decoded) \<Rightarrow> string \<Rightarrow> members \<Rightarrow> 'a list decoded" where
  "f_slice dec \<equiv> field (dec_slice dec) []"

text \<open>The members of a nested struct: those of every matching object, in order.\<close>

fun struct_members :: "json \<Rightarrow> members decoded" where
  "struct_members (JObj kvs) = (kvs, True)"
| "struct_members JNull = ([], True)"
| "struct_members _ = ([], False)"

definition f_struct :: "(members \<Rightarrow> 'a decoded) \<Rightarrow> string \<Rightarrow> members \<Rightarrow> 'a decoded" where
  "f_struct dec k kvs =
     (let ms = map struct_members (fields_of k kvs);
          (x, ok) = dec (concat (map fst ms))
      in (x, ok \<and> list_all snd ms))"

text \<open>
  A pointer to a struct: nil unless a matching member is there; \<^verbatim>\<open>null\<close> resets it, so the
  members after the last \<^verbatim>\<open>null\<close> count.
\<close>

definition f_ptr_struct :: "(members \<Rightarrow> 'a decoded) \<Rightarrow> string \<Rightarrow> members \<Rightarrow> 'a option decoded" where
  "f_ptr_struct dec k kvs =
     (let js = rev (takeWhile (\<lambda>j. j \<noteq> JNull) (rev (fields_of k kvs)));
          ms = map struct_members js;
          (x, ok) = dec (concat (map fst ms))
      in (if js = [] then (None, list_all (\<lambda>j. snd (struct_members j)) (fields_of k kvs))
          else (Some x, ok \<and> list_all (\<lambda>j. snd (struct_members j)) (fields_of k kvs))))"

text \<open>A struct as the whole destination (\<^verbatim>\<open>json.Unmarshal(data, &source)\<close>) or as an element.\<close>

definition dec_struct :: "(members \<Rightarrow> 'a decoded) \<Rightarrow> json \<Rightarrow> 'a decoded" where
  "dec_struct dec j =
     (let (kvs, ok) = struct_members j; (x, ok') = dec kvs in (x, ok' \<and> ok))"

text \<open>
  A \<^verbatim>\<open>map[string]json.RawMessage\<close>: the members as written, a later one replacing an earlier
  one of the same name; \<^verbatim>\<open>null\<close> gives the nil map, which reads like the empty one.
\<close>

definition dec_map :: "json \<Rightarrow> members decoded" where
  "dec_map j = struct_members j"

definition entry :: "string \<Rightarrow> members \<Rightarrow> raw_message" where
  "entry k kvs = map_of (rev kvs) k"

text \<open>Unmarshalling a raw message: the empty message is a syntax error.\<close>

definition unm :: "(json \<Rightarrow> 'a decoded) \<Rightarrow> 'a \<Rightarrow> raw_message \<Rightarrow> 'a decoded" where
  "unm dec zero raw = (case raw of None \<Rightarrow> (zero, False) | Some j \<Rightarrow> dec j)"

abbreviation unm_string :: "raw_message \<Rightarrow> string decoded" where
  "unm_string \<equiv> unm (dec_string []) []"
abbreviation unm_bool :: "raw_message \<Rightarrow> bool decoded" where
  "unm_bool \<equiv> unm (dec_bool False) False"
abbreviation unm_ptr_bool :: "raw_message \<Rightarrow> bool option decoded" where
  "unm_ptr_bool \<equiv> unm (dec_ptr dec_bool False None) None"
abbreviation unm_raw :: "raw_message \<Rightarrow> raw_message decoded" where
  "unm_raw \<equiv> unm (dec_raw None) None"
abbreviation unm_slice :: "(json \<Rightarrow> 'a decoded) \<Rightarrow> raw_message \<Rightarrow> 'a list decoded" where
  "unm_slice dec \<equiv> unm (dec_slice dec []) []"
abbreviation unm_maps :: "raw_message \<Rightarrow> members list decoded" where
  "unm_maps \<equiv> unm_slice dec_map"

text \<open>
  The tests the code makes on raw text: \<open>raw_absent\<close> is
  \<^verbatim>\<open>len(raw) == 0 || bytes.Equal(raw, "null")\<close>, \<open>raw_is_string\<close> is \<^verbatim>\<open>raw[0] == '"'\<close>.
\<close>

definition raw_absent :: "raw_message \<Rightarrow> bool" where
  "raw_absent raw \<longleftrightarrow> raw = None \<or> raw = Some JNull"

fun raw_is_string :: "raw_message \<Rightarrow> bool" where
  "raw_is_string (Some (JStr s)) = True"
| "raw_is_string _ = False"

fun raw_is_object :: "raw_message \<Rightarrow> bool" where
  "raw_is_object (Some (JObj kvs)) = True"
| "raw_is_object _ = False"

definition raw_text :: "raw_message \<Rightarrow> string" where
  "raw_text raw = (case raw of None \<Rightarrow> [] | Some j \<Rightarrow> print_json j)"

section \<open>Errors\<close>

text \<open>
  The errors of the program: an error of \<^verbatim>\<open>encoding/json\<close> (or of another library call),
  \<^verbatim>\<open>fmt.Errorf\<close> and \<^verbatim>\<open>errors.New\<close> with the format and its string arguments, and an error
  wrapped with \<^verbatim>\<open>%w\<close> under a path; \<open>Upstream\<close> is the \<^verbatim>\<open>UpstreamError\<close> of the packages
  antigravity and codex (status, code, message, time of recovery). Messages the program words
  in Chinese are given in English, since the theories are ASCII.
\<close>

datatype go_error =
    JsonError
  | Errorf string "string list"
  | Wrapped string go_error
  | Upstream int string string "int option"

definition okE :: "'a decoded \<Rightarrow> go_error + 'a" where
  "okE d = (if snd d then Inr (fst d) else Inl JsonError)"

definition wrapE :: "string \<Rightarrow> 'a decoded \<Rightarrow> go_error + 'a" where
  "wrapE path d = (if snd d then Inr (fst d) else Inl (Wrapped path JsonError))"

lemma okE_simps [simp, err_simps]: "okE (x, True) = Inr x" "okE (x, False) = Inl JsonError"
  by (simp_all add: okE_def)

lemma wrapE_simps [simp, err_simps]:
  "wrapE p (x, True) = Inr x" "wrapE p (x, False) = Inl (Wrapped p JsonError)"
  by (simp_all add: wrapE_def)

lemma okE_eq_Inr: "okE d = Inr x \<longleftrightarrow> d = (x, True)"
  by (cases d) (auto simp: okE_def)

lemma wrapE_eq_Inr: "wrapE p d = Inr x \<longleftrightarrow> d = (x, True)"
  by (cases d) (auto simp: wrapE_def)

section \<open>Lemmas\<close>

lemma dec_ptr_simps [simp, go_json]:
  "dec_ptr dec zero cur JNull = (None, True)"
  "j \<noteq> JNull \<Longrightarrow> dec_ptr dec zero None j = (let (v, ok) = dec zero j in (Some v, ok))"
  by (simp_all add: dec_ptr_def)

lemma dec_elems_map:
  "(\<And>x. x \<in> set xs \<Longrightarrow> dec (f x) = (g x, True)) \<Longrightarrow> dec_elems dec (map f xs) = (map g xs, True)"
  by (induction xs) auto

lemma length_dec_elems: "length (fst (dec_elems dec js)) = length js"
  by (induction js) (auto simp: case_prod_unfold Let_def)

lemma field_Nil: "fields_of k kvs = [] \<Longrightarrow> field dec zero k kvs = (zero, True)"
  by (simp add: field_def)

lemma field_single: "fields_of k kvs = [j] \<Longrightarrow> field dec zero k kvs = dec zero j"
  by (simp add: field_def case_prod_unfold Let_def)

lemma f_struct_single:
  "fields_of k kvs = [JObj ms] \<Longrightarrow> f_struct dec k kvs = dec ms"
  by (simp add: f_struct_def case_prod_unfold Let_def)

lemma f_struct_Nil: "fields_of k kvs = [] \<Longrightarrow> f_struct dec k kvs = dec []"
  by (simp add: f_struct_def case_prod_unfold Let_def)

lemma dec_struct_JObj [simp, go_json]: "dec_struct dec (JObj kvs) = dec kvs"
  by (simp add: dec_struct_def case_prod_unfold Let_def)

lemma dec_map_JObj [simp, go_json]: "dec_map (JObj kvs) = (kvs, True)"
  by (simp add: dec_map_def)

lemma unm_simps [simp, go_json]:
  "unm dec zero None = (zero, False)" "unm dec zero (Some j) = dec j"
  by (simp_all add: unm_def)

lemma raw_absent_simps [simp, go_json]:
  "raw_absent None" "raw_absent (Some JNull)" "raw_absent (Some (JStr s)) = False"
  "raw_absent (Some (JArr js)) = False" "raw_absent (Some (JObj kvs)) = False"
  "raw_absent (Some (JBool b)) = False" "raw_absent (Some (JNum l)) = False"
  by (simp_all add: raw_absent_def)

lemma dec_slice_simps [simp, go_json]:
  "dec_slice dec cur (JArr js) = dec_elems dec js"
  "dec_slice dec cur JNull = ([], True)"
  by (simp_all add: dec_slice_def)

lemma dec_raw_simp [simp, go_json]: "dec_raw cur j = (Some j, True)"
  by (simp add: dec_raw_def)

section \<open>What is decoded of well-formed documents\<close>

abbreviation wf_members :: "members \<Rightarrow> bool" where
  "wf_members kvs \<equiv> list_all (\<lambda>kv. wf_json (snd kv)) kvs"

lemma wf_fields_of: "wf_members kvs \<Longrightarrow> list_all wf_json (fields_of k kvs)"
  by (auto simp: fields_of_def list_all_iff)

lemma wf_entry: "wf_members kvs \<Longrightarrow> pred_option wf_json (entry k kvs)"
  by (cases "entry k kvs") (force simp: entry_def list_all_iff dest!: map_of_SomeD)+

lemma wf_struct_members: "wf_json j \<Longrightarrow> wf_members (fst (struct_members j))"
  by (cases j) auto

text \<open>What every step of a field's decoder keeps holds of the field.\<close>

lemma field_keeps:
  assumes "P zero" and "\<And>cur j. P cur \<Longrightarrow> j \<in> set (fields_of k kvs) \<Longrightarrow> P (fst (dec cur j))"
  shows "P (fst (field dec zero k kvs))"
proof -
  have "P (fst (foldl (\<lambda>(cur, ok) j. let (x, ok') = dec cur j in (x, ok \<and> ok')) (cur, b) js))"
    if "P cur" and "set js \<subseteq> set (fields_of k kvs)" for cur b js
    using that by (induction js arbitrary: cur b) (auto simp: Let_def case_prod_unfold assms(2))
  with assms(1) show ?thesis by (simp add: field_def)
qed

lemma f_ptr_int_range: "pred_option in_int64 (fst (f_ptr_int k kvs))"
proof (rule field_keeps)
  show "pred_option in_int64 (fst (dec_ptr dec_int 0 cur j))" if "pred_option in_int64 cur" for cur j
    using that by (cases j; cases cur) (auto simp: dec_ptr_def parse_int64_def in_int64_def Let_def split: option.splits if_splits)
qed simp

lemma f_struct_keeps:
  assumes "wf_members kvs" and "\<And>ms. wf_members ms \<Longrightarrow> P (fst (dec ms))"
  shows "P (fst (f_struct dec k kvs))"
proof -
  have "wf_members (concat (map fst (map struct_members (fields_of k kvs))))"
    using wf_fields_of [OF assms(1), of k] wf_struct_members by (fastforce simp: list_all_iff)
  from assms(2) [OF this] show ?thesis by (simp add: f_struct_def case_prod_unfold Let_def)
qed

lemma dec_struct_keeps:
  "wf_json j \<Longrightarrow> (\<And>ms. wf_members ms \<Longrightarrow> P (fst (dec ms))) \<Longrightarrow> P (fst (dec_struct dec j))"
  using wf_struct_members [of j] by (simp add: dec_struct_def case_prod_unfold Let_def)

lemma dec_elems_keeps:
  "list_all wf_json js \<Longrightarrow> (\<And>j. wf_json j \<Longrightarrow> P (fst (dec j))) \<Longrightarrow> list_all P (fst (dec_elems dec js))"
  by (induction js) (simp_all add: case_prod_unfold Let_def)

lemma dec_slice_keeps:
  "wf_json j \<Longrightarrow> list_all P cur \<Longrightarrow> (\<And>j. wf_json j \<Longrightarrow> P (fst (dec j))) \<Longrightarrow> list_all P (fst (dec_slice dec cur j))"
  by (cases j) (simp_all add: dec_slice_def dec_elems_keeps)

lemma f_slice_keeps:
  assumes "wf_members kvs" and "\<And>j. wf_json j \<Longrightarrow> P (fst (dec j))"
  shows "list_all P (fst (f_slice dec k kvs))"
  by (rule field_keeps) (use assms wf_fields_of [OF assms(1), of k] in \<open>auto simp: list_all_iff [of wf_json] intro: dec_slice_keeps\<close>)

lemma f_raw_wf: "wf_members kvs \<Longrightarrow> pred_option wf_json (fst (f_raw k kvs))"
  by (rule field_keeps) (use wf_fields_of [of kvs k] in \<open>auto simp: list_all_iff\<close>)

end
