(* ===== verification/GoEncode.thy ===== *)
theory GoEncode
  imports GoDecode "HOL-Library.List_Lexorder" "HOL-Library.Char_ord"
begin

text \<open>
  \<^verbatim>\<open>json.Marshal\<close> of the values the program builds: \<open>gval\<close> is a Go \<^verbatim>\<open>any\<close> made of maps,
  slices, strings, numbers, booleans, nil and raw messages. A map is marshalled with its
  keys in byte order, a raw message as its own tree.
\<close>

datatype gval =
    GNil
  | GBool bool
  | GInt int
  | GFloat float64
  | GStr string
  | GArr "gval list"
  | GMap "(string \<times> gval) list"
  | GRaw json

type_synonym gmap = "(string \<times> gval) list"

function marshal :: "gval \<Rightarrow> json" where
  "marshal GNil = JNull"
| "marshal (GBool b) = JBool b"
| "marshal (GInt i) = JNum (itoa i)"
| "marshal (GFloat l) = JNum l"
| "marshal (GStr s) = JStr s"
| "marshal (GArr vs) = JArr (map marshal vs)"
| "marshal (GMap m) = JObj (sort_key fst (map (\<lambda>kv. (fst kv, marshal (snd kv))) m))"
| "marshal (GRaw j) = j"
  by pat_completeness auto
termination
proof (relation "measure size")
  fix m :: gmap and kv
  assume "kv \<in> set m"
  then have "size (snd kv) < Suc (size_list (size_prod (\<lambda>x. 0) size) m)"
    by (induction m) (auto simp: less_Suc_eq_le)
  then show "(snd kv, GMap m) \<in> measure size" by simp
qed (auto simp: less_Suc_eq_le size_list_estimation')

definition marshal_members :: "gmap \<Rightarrow> members" where
  "marshal_members m = sort_key fst (map (\<lambda>kv. (fst kv, marshal (snd kv))) m)"

lemma marshal_GMap [simp, go_json]: "marshal (GMap m) = JObj (marshal_members m)"
  by (simp add: marshal_members_def)

declare marshal.simps(7) [simp del]

text \<open>A pointer as an entry of a map: nil is \<^verbatim>\<open>null\<close>.\<close>

definition g_ptr_int :: "int option \<Rightarrow> gval" where
  "g_ptr_int p = (case p of None \<Rightarrow> GNil | Some i \<Rightarrow> GInt i)"

text \<open>
  Member names that stay different when letter case is ignored: then decoding a field of the
  marshalled map finds exactly the entry of that name.
\<close>

definition fold_distinct :: "gmap \<Rightarrow> bool" where
  "fold_distinct m \<longleftrightarrow> distinct (map (\<lambda>kv. fold_case (fst kv)) m)"

lemma fold_distinct_subset:
  assumes "distinct (map fold_case ks)" and "set (map fst m) \<subseteq> set ks" and "distinct (map fst m)"
  shows "fold_distinct m"
proof -
  have "inj_on fold_case (set ks)" using assms(1) by (simp add: distinct_map)
  then have "inj_on fold_case (set (map fst m))" using assms(2) by (rule inj_on_subset)
  then have "distinct (map fold_case (map fst m))" using assms(3) by (simp only: distinct_map)
  then show ?thesis by (simp add: fold_distinct_def comp_def)
qed

lemma filter_fold_le_1:
  "fold_distinct m \<Longrightarrow> length (filter (\<lambda>kv. fold_case (fst kv) = w) m) \<le> 1"
  by (induction m) (auto simp: fold_distinct_def filter_empty_conv image_iff)

lemma sort_key_singleton: "length xs \<le> 1 \<Longrightarrow> sort_key f xs = xs"
  by (cases xs) auto

lemma fields_of_marshal:
  assumes "fold_distinct m"
  shows "fields_of k (marshal_members m) =
    map (\<lambda>kv. marshal (snd kv)) (filter (\<lambda>kv. fold_case (fst kv) = fold_case k) m)"
proof -
  let ?P = "\<lambda>kv :: string \<times> json. fold_case (fst kv) = fold_case k"
  let ?m = "map (\<lambda>kv. (fst kv, marshal (snd kv))) m"
  have f: "filter ?P ?m = map (\<lambda>kv. (fst kv, marshal (snd kv))) (filter (\<lambda>kv. fold_case (fst kv) = fold_case k) m)"
    by (simp add: filter_map comp_def)
  have "filter ?P (sort_key fst ?m) = sort_key fst (filter ?P ?m)" by (simp add: filter_sort)
  also have "\<dots> = filter ?P ?m"
    using filter_fold_le_1 [OF assms, of "fold_case k"] by (intro sort_key_singleton) (simp add: f)
  finally show ?thesis by (simp add: fields_of_def marshal_members_def f comp_def)
qed

text \<open>
  The form the round-trip proofs use: \<open>ks\<close> lists every name in play, the entry is looked up
  in the map.
\<close>

lemma fields_of_marshal_lookup:
  assumes ks: "distinct (map fold_case ks)" "k \<in> set ks"
    and m: "set (map fst m) \<subseteq> set ks" "distinct (map fst m)"
  shows "fields_of k (marshal_members m) = (case map_of m k of None \<Rightarrow> [] | Some v \<Rightarrow> [marshal v])"
proof -
  have inj: "inj_on fold_case (set ks)" using ks by (simp add: distinct_map)
  have "filter (\<lambda>kv. fold_case (fst kv) = fold_case k) m = filter (\<lambda>kv. fst kv = k) m"
    using inj ks(2) m(1) by (intro filter_cong) (auto simp: inj_on_def)
  moreover have "map (\<lambda>kv. marshal (snd kv)) (filter (\<lambda>kv. fst kv = k) m) =
      (case map_of m k of None \<Rightarrow> [] | Some v \<Rightarrow> [marshal v])"
    using m(2)
  proof (induction m)
    case (Cons kv m)
    show ?case
    proof (cases "fst kv = k")
      case True
      with Cons.prems have "filter (\<lambda>kv. fst kv = k) m = []"
        by (auto simp: filter_empty_conv image_iff)
      with True show ?thesis by (cases kv) simp
    next
      case False
      with Cons show ?thesis by (cases kv) simp
    qed
  qed simp
  ultimately show ?thesis
    using fields_of_marshal [OF fold_distinct_subset [OF ks(1) m]] by simp
qed

lemma map_of_map_snd: "map_of (map (\<lambda>kv. (fst kv, f (snd kv))) m) k = map_option f (map_of m k)"
  by (induction m) auto

lemma entry_marshal:
  assumes "distinct (map fst m)"
  shows "entry k (marshal_members m) = map_option marshal (map_of m k)"
proof -
  let ?m = "map (\<lambda>kv. (fst kv, marshal (snd kv))) m"
  have d: "distinct (map fst ?m)" using assms by (simp add: comp_def)
  have dr: "distinct (map fst (rev (sort_key fst ?m)))"
  proof -
    have "distinct ?m" and "inj_on fst (set ?m)" using d by (simp_all only: distinct_map)
    then show ?thesis by (simp only: distinct_map distinct_rev distinct_sort set_rev set_sort)
  qed
  have "map_of (rev (sort_key fst ?m)) = map_of ?m"
    by (subst map_of_inject_set [OF dr d]) simp
  then show ?thesis
    by (simp add: entry_def marshal_members_def map_of_map_snd)
qed

section \<open>Maps with plain member names\<close>

text \<open>
  The names the gateway writes consist of small letters and underscores, which case folding
  leaves alone: for maps with such keys the decoded field is the entry of the map.
\<close>

definition plain_char :: "char \<Rightarrow> bool" where
  "plain_char c \<longleftrightarrow> 95 \<le> (of_char c :: nat) \<and> (of_char c :: nat) \<le> 122"

definition plain_name :: "string \<Rightarrow> bool" where
  "plain_name = list_all plain_char"

lemma fold_case_plain: "plain_name s \<Longrightarrow> fold_case s = s"
  by (induction s) (auto simp: plain_name_def plain_char_def lower_char_def Let_def)

lemma plain_name_simps [simp]:
  "plain_name []" "plain_name (c # s) \<longleftrightarrow> plain_char c \<and> plain_name s"
  by (simp_all add: plain_name_def)

lemma plain_letters [simp]:
  "plain_char (CHR ''a'')" "plain_char (CHR ''b'')" "plain_char (CHR ''c'')" "plain_char (CHR ''d'')"
  "plain_char (CHR ''e'')" "plain_char (CHR ''f'')" "plain_char (CHR ''g'')" "plain_char (CHR ''h'')"
  "plain_char (CHR ''i'')" "plain_char (CHR ''j'')" "plain_char (CHR ''k'')" "plain_char (CHR ''l'')"
  "plain_char (CHR ''m'')" "plain_char (CHR ''n'')" "plain_char (CHR ''o'')" "plain_char (CHR ''p'')"
  "plain_char (CHR ''q'')" "plain_char (CHR ''r'')" "plain_char (CHR ''s'')" "plain_char (CHR ''t'')"
  "plain_char (CHR ''u'')" "plain_char (CHR ''v'')" "plain_char (CHR ''w'')" "plain_char (CHR ''x'')"
  "plain_char (CHR ''y'')" "plain_char (CHR ''z'')" "plain_char (CHR ''_'')"
  by (simp_all add: plain_char_def)

definition api_map :: "gmap \<Rightarrow> bool" where
  "api_map m \<longleftrightarrow> distinct (map fst m) \<and> (\<forall>k \<in> fst ` set m. plain_name k)"

lemma api_map_Nil [simp]: "api_map []"
  by (simp add: api_map_def)

lemma api_map_Cons [simp]: "api_map ((k, v) # m) \<longleftrightarrow> plain_name k \<and> map_of m k = None \<and> api_map m"
  by (auto simp: api_map_def map_of_eq_None_iff)

lemma api_map_put [simp]: "api_map m \<Longrightarrow> plain_name k \<Longrightarrow> api_map (put k v m)"
  by (simp add: api_map_def distinct_put set_keys_put)

lemma api_map_optput [simp]: "api_map m \<Longrightarrow> plain_name k \<Longrightarrow> api_map (optput c k v m)"
  by (simp add: optput_def)

lemma api_map_delete [simp]: "api_map m \<Longrightarrow> api_map (AList.delete k m)"
  by (auto simp: api_map_def AList.delete_eq distinct_map_filter)

lemma fields_of_api:
  assumes "api_map m" and "plain_name k"
  shows "fields_of k (marshal_members m) = (case map_of m k of None \<Rightarrow> [] | Some v \<Rightarrow> [marshal v])"
proof (rule fields_of_marshal_lookup [where ks = "remdups (k # map fst m)"])
  have "\<forall>x \<in> set (k # map fst m). fold_case x = x"
    using assms by (auto simp: api_map_def fold_case_plain)
  then have "inj_on fold_case (set (k # map fst m))" by (simp add: inj_on_def)
  then show "distinct (map fold_case (remdups (k # map fst m)))"
    by (simp add: distinct_map del: remdups.simps)
qed (use assms in \<open>auto simp: api_map_def\<close>)

lemma field_api [simp]:
  "api_map m \<Longrightarrow> plain_name k \<Longrightarrow>
   field dec zero k (marshal_members m) =
     (case map_of m k of None \<Rightarrow> (zero, True) | Some v \<Rightarrow> dec zero (marshal v))"
  by (simp add: field_Nil field_single fields_of_api split: option.splits)

lemma f_struct_api [simp]:
  "api_map m \<Longrightarrow> plain_name k \<Longrightarrow>
   f_struct dec k (marshal_members m) =
     (case map_of m k of None \<Rightarrow> dec [] | Some v \<Rightarrow> dec_struct dec (marshal v))"
  by (auto simp: f_struct_Nil fields_of_api f_struct_def dec_struct_def Let_def case_prod_unfold split: option.splits)

lemma entry_api [simp]: "api_map m \<Longrightarrow> entry k (marshal_members m) = map_option marshal (map_of m k)"
  by (simp add: api_map_def entry_marshal)

end
