(* ===== verification/Types.thy ===== *)
theory Types
  imports GoEncode
begin

text \<open>
  The canonical request and response of the gateway (internal/protocol/types.go), between
  which every client and upstream protocol is converted.

  A \<^verbatim>\<open>Block\<close> is a struct with a \<^verbatim>\<open>Type\<close> string and one pointer per kind of
  content; every place of the code that builds one sets exactly the field that goes with the
  type, so it is the tagged union \<open>block\<close>.
\<close>

definition Chat :: string where "Chat = ''chat_completions''"
definition Responses :: string where "Responses = ''responses''"
definition Messages :: string where "Messages = ''messages''"
definition Antigravity :: string where "Antigravity = ''antigravity''"

lemmas protocol_defs = Chat_def Responses_def Messages_def Antigravity_def

lemma protocol_distinct [simp]:
  "Chat \<noteq> Responses" "Chat \<noteq> Messages" "Chat \<noteq> Antigravity"
  "Responses \<noteq> Chat" "Responses \<noteq> Messages" "Responses \<noteq> Antigravity"
  "Messages \<noteq> Chat" "Messages \<noteq> Responses" "Messages \<noteq> Antigravity"
  "Antigravity \<noteq> Chat" "Antigravity \<noteq> Responses" "Antigravity \<noteq> Messages"
  by (simp_all add: protocol_defs)

definition ImageURL :: string where "ImageURL = ''url''"
definition ImageBase64 :: string where "ImageBase64 = ''base64''"
definition ImageFileID :: string where "ImageFileID = ''file_id''"

lemma image_kind_distinct [simp]:
  "ImageURL \<noteq> ImageBase64" "ImageURL \<noteq> ImageFileID" "ImageBase64 \<noteq> ImageURL"
  "ImageBase64 \<noteq> ImageFileID" "ImageFileID \<noteq> ImageURL" "ImageFileID \<noteq> ImageBase64"
  by (simp_all add: ImageURL_def ImageBase64_def ImageFileID_def)

record image_source =
  src_kind :: string
  src_url :: string
  src_media_type :: string
  src_data :: string
  src_file_id :: string

definition no_source :: image_source where
  "no_source = \<lparr>src_kind = [], src_url = [], src_media_type = [], src_data = [], src_file_id = []\<rparr>"

record image =
  img_source :: image_source
  img_detail :: "string option"

record tool_call =
  call_id :: string
  call_upstream_id :: string
  call_name :: string
  call_arguments :: raw_message

record tool_result =
  result_call_id :: string
  result_content :: string
  result_is_error :: bool

datatype block =
    TextBlock string
  | ReasoningBlock string
  | ImageBlock image
  | ToolCallBlock tool_call
  | ToolResultBlock tool_result

record message =
  msg_role :: string
  msg_blocks :: "block list"
  msg_antigravity :: raw_message

definition message_of :: "string \<Rightarrow> block list \<Rightarrow> message" where
  "message_of role blocks = \<lparr>msg_role = role, msg_blocks = blocks, msg_antigravity = None\<rparr>"

lemma message_of_simps [simp]:
  "msg_role (message_of r bs) = r" "msg_blocks (message_of r bs) = bs"
  "msg_antigravity (message_of r bs) = None"
  by (simp_all add: message_of_def)

record tool =
  tool_kind :: string
  tool_name :: string
  tool_description :: string
  tool_parameters :: raw_message
  tool_strict :: "bool option"

record tool_choice =
  choice_mode :: string
  choice_name :: string

definition no_choice :: tool_choice where
  "no_choice = \<lparr>choice_mode = [], choice_name = []\<rparr>"

record request =
  req_model :: string
  req_instructions :: "string list"
  req_messages :: "message list"
  req_tools :: "tool list"
  req_tool_choice :: tool_choice
  req_stream :: bool
  req_parallel :: bool
  req_parallel_set :: bool
  req_max_output :: "int option"
  req_temperature :: "float64 option"
  req_top_p :: "float64 option"
  req_stop :: "string list"
  req_effort :: string

record usage =
  input_tokens :: "int option"
  cache_read_tokens :: "int option"
  cache_write_tokens :: "int option"
  output_tokens :: "int option"
  reasoning_tokens :: "int option"
  total_tokens :: "int option"

definition no_usage :: usage where
  "no_usage = \<lparr>input_tokens = None, cache_read_tokens = None, cache_write_tokens = None,
     output_tokens = None, reasoning_tokens = None, total_tokens = None\<rparr>"

text \<open>
  \<^verbatim>\<open>Usage.Raw\<close>, the copy of the body that only the request log reads, is kept apart from
  the counters: \<open>resp_raw\<close> of the response.
\<close>

record response =
  resp_id :: string
  resp_model :: string
  resp_blocks :: "block list"
  resp_stop :: string
  resp_usage :: usage
  resp_raw :: raw_message

end
