(* ===== verification/Image.thy ===== *)
theory Image
  imports Types
begin

text \<open>
  Image blocks (internal/protocol/image.go): decoding the three protocols' spellings into the
  canonical image, the data URL parser with its base64 check, and the encoder.
\<close>

section \<open>base64 validity\<close>

text \<open>
  \<^verbatim>\<open>base64.StdEncoding.DecodeString\<close> and its \<^verbatim>\<open>Raw\<close> variant, as far as whether they
  fail: line breaks are skipped; the padded form has length divisible by four with at most
  two padding characters at the end, the raw form has none and no lone last character.
\<close>

definition base64_char :: "char \<Rightarrow> bool" where
  "base64_char c \<longleftrightarrow>
     (let n = of_char c :: nat in
      65 \<le> n \<and> n \<le> 90 \<or> 97 \<le> n \<and> n \<le> 122 \<or> is_digit c \<or> c = CHR ''+'' \<or> c = CHR ''/'')"

definition strip_newlines :: "string \<Rightarrow> string" where
  "strip_newlines = filter (\<lambda>c. c \<noteq> CHR 0x0A \<and> c \<noteq> CHR 0x0D)"

definition std_base64_ok :: "string \<Rightarrow> bool" where
  "std_base64_ok s =
     (let t = strip_newlines s; p = length (takeWhile (\<lambda>c. c = CHR ''='') (rev t))
      in length t mod 4 = 0 \<and> p \<le> 2 \<and> list_all base64_char (take (length t - p) t))"

definition raw_base64_ok :: "string \<Rightarrow> bool" where
  "raw_base64_ok s =
     (let t = strip_newlines s in length t mod 4 \<noteq> 1 \<and> list_all base64_char t)"

definition validateBase64 :: "string \<Rightarrow> string \<Rightarrow> go_error + unit" where
  "validateBase64 data path =
     (if \<not> std_base64_ok data then
        if \<not> raw_base64_ok data then Inl (Errorf ''%s must contain valid base64 data'' [path])
        else Inr ()
      else Inr ())"

definition validateBase64Image :: "string \<Rightarrow> string \<Rightarrow> string \<Rightarrow> go_error + unit" where
  "validateBase64Image media_type data path =
     (if \<not> has_prefix (to_lower media_type) ''image/'' then
        Inl (Errorf ''%s.media_type must be an image media type'' [path])
      else validateBase64 data (path @ ''.data''))"

fun validateImageDetail :: "string option \<Rightarrow> string \<Rightarrow> go_error + unit" where
  "validateImageDetail None path = Inr ()"
| "validateImageDetail (Some d) path =
     (if d \<in> {''auto'', ''low'', ''high''} then Inr ()
      else Inl (Errorf ''unsupported image detail %q at %s'' [d, path]))"

section \<open>Image URLs\<close>

definition parseImageURL :: "string \<Rightarrow> string \<Rightarrow> go_error + image_source" where
  "parseImageURL url path =
     (if \<not> has_prefix (to_lower url) ''data:'' then
        Inr (no_source\<lparr>src_kind := ImageURL, src_url := url\<rparr>)
      else (let (header, data, ok) = cut (CHR '','') (drop 5 url) in
        if \<not> ok then Inl (Errorf ''%s must be a valid base64 data URL'' [path])
        else (let parts = split_on (CHR '';'') header; media_type = hd parts in
          if \<not> has_prefix (to_lower media_type) ''image/'' then
            Inl (Errorf ''%s must contain an image media type'' [path])
          else if \<not> list_ex (\<lambda>part. equal_fold part ''base64'') (tl parts) then
            Inl (Errorf ''%s must be a base64 data URL'' [path])
          else bindE (validateBase64 data path) (\<lambda>_.
            Inr (no_source\<lparr>src_kind := ImageBase64, src_media_type := media_type, src_data := data\<rparr>)))))"

definition imageURL :: "image_source \<Rightarrow> string" where
  "imageURL source =
     (if src_kind source = ImageBase64 then
        ''data:'' @ src_media_type source @ '';base64,'' @ src_data source
      else src_url source)"

section \<open>Decoding\<close>

definition chat_image_struct :: "members \<Rightarrow> (string \<times> string option) decoded" where
  "chat_image_struct kvs =
     (let (url, ok1) = f_string ''url'' kvs; (detail, ok2) = f_ptr_string ''detail'' kvs
      in ((url, detail), ok1 \<and> ok2))"

definition decodeChatImage :: "raw_message \<Rightarrow> string \<Rightarrow> go_error + image" where
  "decodeChatImage raw path =
     bindE (wrapE path (unm (dec_struct chat_image_struct) ([], None) raw)) (\<lambda>(url, detail).
     if url = [] then Inl (Errorf ''%s.url is required'' [path])
     else bindE (parseImageURL url (path @ ''.url'')) (\<lambda>source.
     bindE (validateImageDetail detail (path @ ''.detail'')) (\<lambda>_.
     Inr \<lparr>img_source = source, img_detail = detail\<rparr>)))"

definition responses_image_struct ::
    "members \<Rightarrow> (string option \<times> string option \<times> string option) decoded" where
  "responses_image_struct kvs =
     (let (url, ok1) = f_ptr_string ''image_url'' kvs;
          (file_id, ok2) = f_ptr_string ''file_id'' kvs;
          (detail, ok3) = f_ptr_string ''detail'' kvs
      in ((url, file_id, detail), ok1 \<and> ok2 \<and> ok3))"

text \<open>
  The map is marshalled before it is decoded into the struct, so its members come one per
  name, in byte order of the names.
\<close>

definition remarshal :: "members \<Rightarrow> members" where
  "remarshal kvs = map (\<lambda>k. (k, the (entry k kvs))) (sort (remdups (map fst kvs)))"

definition decodeResponsesImage :: "members \<Rightarrow> string \<Rightarrow> go_error + image" where
  "decodeResponsesImage raw path =
     bindE (wrapE path (responses_image_struct (remarshal raw))) (\<lambda>(url, file_id, detail).
     if file_id \<noteq> None then Inl (Errorf ''%s.file_id is not supported'' [path])
     else (case url of
         None \<Rightarrow> Inl (Errorf ''%s.image_url is required'' [path])
       | Some u \<Rightarrow>
           if u = [] then Inl (Errorf ''%s.image_url is required'' [path])
           else bindE (parseImageURL u (path @ ''.image_url'')) (\<lambda>source.
                bindE (validateImageDetail detail (path @ ''.detail'')) (\<lambda>_.
                Inr \<lparr>img_source = source, img_detail = detail\<rparr>))))"

record messages_image =
  mi_type :: string
  mi_url :: string
  mi_media_type :: string
  mi_data :: string
  mi_file_id :: string

definition messages_image_struct :: "members \<Rightarrow> messages_image decoded" where
  "messages_image_struct kvs =
     (let (t, ok1) = f_string ''type'' kvs;
          (url, ok2) = f_string ''url'' kvs;
          (media_type, ok3) = f_string ''media_type'' kvs;
          (data, ok4) = f_string ''data'' kvs;
          (file_id, ok5) = f_string ''file_id'' kvs
      in (\<lparr>mi_type = t, mi_url = url, mi_media_type = media_type, mi_data = data, mi_file_id = file_id\<rparr>,
          ok1 \<and> ok2 \<and> ok3 \<and> ok4 \<and> ok5))"

definition decodeMessagesImage :: "raw_message \<Rightarrow> string \<Rightarrow> go_error + image" where
  "decodeMessagesImage raw path =
     bindE (wrapE path (unm (dec_struct messages_image_struct) (fst (messages_image_struct [])) raw)) (\<lambda>s.
     if mi_type s = ''url'' then
       (if mi_url s = [] then Inl (Errorf ''%s.url is required'' [path])
        else bindE (parseImageURL (mi_url s) (path @ ''.url'')) (\<lambda>source.
             Inr \<lparr>img_source = source, img_detail = None\<rparr>))
     else if mi_type s = ''base64'' then
       (if mi_media_type s = [] then Inl (Errorf ''%s.media_type is required'' [path])
        else if mi_data s = [] then Inl (Errorf ''%s.data is required'' [path])
        else bindE (validateBase64Image (mi_media_type s) (mi_data s) path) (\<lambda>_.
             Inr \<lparr>img_source = no_source\<lparr>src_kind := ImageBase64, src_media_type := mi_media_type s,
                    src_data := mi_data s\<rparr>, img_detail = None\<rparr>))
     else if mi_type s = ''file'' then
       (if mi_file_id s = [] then Inl (Errorf ''%s.file_id is required'' [path])
        else Inl (Errorf ''%s.file_id is not supported'' [path]))
     else Inl (Errorf ''unsupported image source type %q at %s.type'' [mi_type s, path]))"

section \<open>Encoding\<close>

definition encodeImage :: "image option \<Rightarrow> string \<Rightarrow> string \<Rightarrow> go_error + gval" where
  "encodeImage pointer target path = (case pointer of
       None \<Rightarrow> Inl (Errorf ''%s is missing'' [path])
     | Some img \<Rightarrow>
         bindE (validateImageDetail (img_detail img) (path @ ''.detail'')) (\<lambda>_.
         let source = img_source img; detail = img_detail img in
         if src_kind source = ImageFileID then Inl (Errorf ''%s.file_id is not supported'' [path])
         else if target = Chat then
           Inr (GMap [(''type'', GStr ''image_url''),
             (''image_url'', GMap (optput (detail \<noteq> None) ''detail'' (GStr (the detail))
                [(''url'', GStr (imageURL source))]))])
         else if target = Responses then
           Inr (GMap (optput (detail \<noteq> None) ''detail'' (GStr (the detail))
             [(''type'', GStr ''input_image''), (''image_url'', GStr (imageURL source))]))
         else if target = Messages then
           (if detail \<noteq> None \<and> detail \<noteq> Some ''auto'' then
              Inl (Errorf ''image detail %q cannot be represented by target protocol %q at %s.detail''
                [the detail, target, path])
            else if src_kind source = ImageURL then
              Inr (GMap [(''type'', GStr ''image''),
                (''source'', GMap [(''type'', GStr ''url''), (''url'', GStr (src_url source))])])
            else if src_kind source = ImageBase64 then
              Inr (GMap [(''type'', GStr ''image''),
                (''source'', GMap [(''type'', GStr ''base64''), (''media_type'', GStr (src_media_type source)),
                   (''data'', GStr (src_data source))])])
            else Inl (Errorf ''unsupported image source %q at %s'' [src_kind source, path]))
         else Inl (Errorf ''unsupported image target protocol %q'' [target])))"

section \<open>What decoding guarantees\<close>

text \<open>
  \<open>source_ok\<close> is what every decoder establishes of a source: a plain URL that is no data URL,
  or inline data with an image media type and valid base64. \<open>image_ok\<close> adds a known detail.
\<close>

definition source_ok :: "image_source \<Rightarrow> bool" where
  "source_ok s \<longleftrightarrow>
     (src_kind s = ImageURL \<and> src_url s \<noteq> [] \<and> \<not> has_prefix (to_lower (src_url s)) ''data:'' \<or>
      src_kind s = ImageBase64 \<and> has_prefix (to_lower (src_media_type s)) ''image/'' \<and>
        (std_base64_ok (src_data s) \<or> raw_base64_ok (src_data s)))"

definition detail_ok :: "string option \<Rightarrow> bool" where
  "detail_ok d \<longleftrightarrow> d = None \<or> d \<in> {Some ''auto'', Some ''low'', Some ''high''}"

definition image_ok :: "image \<Rightarrow> bool" where
  "image_ok img \<longleftrightarrow> source_ok (img_source img) \<and> detail_ok (img_detail img)"

lemma validateBase64_eq_Inr [simp]:
  "validateBase64 d p = Inr u \<longleftrightarrow> std_base64_ok d \<or> raw_base64_ok d"
  by (auto simp: validateBase64_def)

lemma validateBase64Image_eq_Inr [simp]:
  "validateBase64Image m d p = Inr u \<longleftrightarrow>
     has_prefix (to_lower m) ''image/'' \<and> (std_base64_ok d \<or> raw_base64_ok d)"
  by (auto simp: validateBase64Image_def)

lemma validateImageDetail_eq_Inr [simp]: "validateImageDetail d p = Inr u \<longleftrightarrow> detail_ok d"
  by (cases d) (auto simp: detail_ok_def)

lemma parseImageURL_ok: "parseImageURL u p = Inr s \<Longrightarrow> u \<noteq> [] \<Longrightarrow> source_ok s"
  by (auto simp: parseImageURL_def source_ok_def no_source_def Let_def bindE_eq_Inr
      split: if_splits prod.splits)

lemma decodeChatImage_ok: "decodeChatImage raw p = Inr img \<Longrightarrow> image_ok img"
  by (auto simp: decodeChatImage_def bindE_eq_Inr image_ok_def parseImageURL_ok split: if_splits)

lemma decodeResponsesImage_ok: "decodeResponsesImage raw p = Inr img \<Longrightarrow> image_ok img"
  by (auto simp: decodeResponsesImage_def bindE_eq_Inr image_ok_def parseImageURL_ok
      split: if_splits option.splits)

lemma decodeMessagesImage_ok: "decodeMessagesImage raw p = Inr img \<Longrightarrow> image_ok img"
  by (auto simp: decodeMessagesImage_def bindE_eq_Inr image_ok_def parseImageURL_ok source_ok_def detail_ok_def
      no_source_def split: if_splits dest!: parseImageURL_ok)

lemmas image_decoders_ok = decodeChatImage_ok decodeResponsesImage_ok decodeMessagesImage_ok

section \<open>What encoding can represent\<close>

definition representable :: "string \<Rightarrow> image \<Rightarrow> bool" where
  "representable target img \<longleftrightarrow>
     target \<in> {Chat, Responses} \<or> target = Messages \<and> img_detail img \<in> {None, Some ''auto''}"

lemma image_ok_kind: "image_ok img \<Longrightarrow> src_kind (img_source img) \<in> {ImageURL, ImageBase64}"
  by (auto simp: image_ok_def source_ok_def)

lemma encodeImage_ok_iff:
  "image_ok img \<Longrightarrow> is_ok (encodeImage (Some img) target p) \<longleftrightarrow> representable target img"
proof -
  assume ok: "image_ok img"
  then have d: "validateImageDetail (img_detail img) q = Inr ()" for q
    by (simp add: image_ok_def)
  from image_ok_kind [OF ok] show ?thesis
    by (auto simp: encodeImage_def d representable_def Let_def)
qed

section \<open>Round trips\<close>

definition url_media_type :: "string \<Rightarrow> bool" where
  "url_media_type m \<longleftrightarrow> CHR '','' \<notin> set m \<and> CHR '';'' \<notin> set m"

definition canonical_source :: "image_source \<Rightarrow> bool" where
  "canonical_source s \<longleftrightarrow> source_ok s \<and>
     (src_kind s = ImageURL \<and> s = no_source\<lparr>src_kind := ImageURL, src_url := src_url s\<rparr> \<or>
      src_kind s = ImageBase64 \<and> url_media_type (src_media_type s) \<and>
        s = no_source\<lparr>src_kind := ImageBase64, src_media_type := src_media_type s, src_data := src_data s\<rparr>)"

lemma parseImageURL_imageURL:
  assumes "canonical_source s"
  shows "parseImageURL (imageURL s) p = Inr s"
proof (cases "src_kind s = ImageURL")
  case True
  with assms show ?thesis
    by (auto simp: canonical_source_def source_ok_def parseImageURL_def imageURL_def)
next
  case False
  let ?m = "src_media_type s" and ?d = "src_data s"
  from False assms have s: "src_kind s = ImageBase64"
    and m: "has_prefix (to_lower ?m) ''image/''" "CHR '','' \<notin> set ?m" "CHR '';'' \<notin> set ?m"
    and d: "std_base64_ok ?d \<or> raw_base64_ok ?d"
    and eq: "s = no_source\<lparr>src_kind := ImageBase64, src_media_type := ?m, src_data := ?d\<rparr>"
    by (auto simp: canonical_source_def source_ok_def url_media_type_def)
  have "cut (CHR '','') ((?m @ '';base64'') @ CHR '','' # ?d) = (?m @ '';base64'', ?d, True)"
    using m(2) by (intro cut_append) simp
  moreover have "split_on (CHR '';'') (?m @ '';base64'') = [?m, ''base64'']"
    using split_on_append [OF m(3), of "''base64''"] by simp
  moreover have "has_prefix (to_lower (''data:'' @ x)) ''data:''" for x
    by (simp add: has_prefix_def lower_char_def Let_def)
  moreover have v: "validateBase64 ?d p = Inr ()" using d by simp
  ultimately show ?thesis
    using m(1) eq by (simp add: imageURL_def s parseImageURL_def equal_fold_def Let_def v)
qed

end
