(* ===== verification/Tools.thy ===== *)
theory Tools
  imports Types
begin

text \<open>
  Tool declarations and tool choice (internal/protocol/tools.go).
\<close>

section \<open>Tool declarations\<close>

record chat_tool =
  ct_type :: string
  ct_name :: string
  ct_description :: string
  ct_parameters :: raw_message
  ct_strict :: "bool option"

definition chat_tool_function :: "members \<Rightarrow> (string \<times> string \<times> raw_message \<times> bool option) decoded" where
  "chat_tool_function kvs =
     (let (name, ok1) = f_string ''name'' kvs; (description, ok2) = f_string ''description'' kvs;
          (parameters, ok3) = f_raw ''parameters'' kvs; (strict, ok4) = f_ptr_bool ''strict'' kvs
      in ((name, description, parameters, strict), ok1 \<and> ok2 \<and> ok3 \<and> ok4))"

definition chat_tool_struct :: "members \<Rightarrow> chat_tool decoded" where
  "chat_tool_struct kvs =
     (let (t, ok1) = f_string ''type'' kvs;
          ((name, description, parameters, strict), ok2) = f_struct chat_tool_function ''function'' kvs
      in (\<lparr>ct_type = t, ct_name = name, ct_description = description, ct_parameters = parameters,
           ct_strict = strict\<rparr>, ok1 \<and> ok2))"

definition decodeChatTools :: "raw_message \<Rightarrow> tool list \<Rightarrow> go_error + tool list" where
  "decodeChatTools raw destination =
     (if raw_absent raw then Inr destination
      else bindE (okE (unm_slice (dec_struct chat_tool_struct) raw)) (\<lambda>tools.
        foldE (\<lambda>source destination.
          if ct_type source \<noteq> ''function'' then Inl (Errorf ''unsupported Chat tool type %q'' [ct_type source])
          else Inr (destination @ [\<lparr>tool_kind = ''function'', tool_name = ct_name source,
                 tool_description = ct_description source, tool_parameters = ct_parameters source,
                 tool_strict = ct_strict source\<rparr>]))
        tools destination))"

text \<open>The two parameter schemas that the decoder supplies itself.\<close>

definition custom_parameters :: json where
  "custom_parameters =
     JObj [(''type'', JStr ''object''),
           (''properties'', JObj [(''input'', JObj [(''type'', JStr ''string'')])]),
           (''required'', JArr [JStr ''input''])]"

definition open_parameters :: json where
  "open_parameters = JObj [(''type'', JStr ''object''), (''additionalProperties'', JBool True)]"

definition decodeResponsesTool :: "members \<Rightarrow> go_error + tool" where
  "decodeResponsesTool source =
     (let kind = fst (unm_string (entry ''type'' source));
          name = fst (unm_string (entry ''name'' source));
          description = fst (unm_string (entry ''description'' source));
          strict = fst (unm_ptr_bool (entry ''strict'' source));
          parameters = entry ''parameters'' source;
          t = (\<lambda>name parameters. Inr \<lparr>tool_kind = kind, tool_name = name,
             tool_description = description, tool_parameters = parameters, tool_strict = strict\<rparr>)
      in if kind = ''function'' then t name parameters
         else if kind = ''custom'' then
           t name (if parameters = None then Some custom_parameters else parameters)
         else if kind = ''shell'' \<or> kind = ''apply_patch'' then t kind (Some open_parameters)
         else Inl (Errorf ''unsupported hosted Responses tool type %q'' [kind]))"

definition decodeResponsesTools :: "raw_message \<Rightarrow> tool list \<Rightarrow> go_error + tool list" where
  "decodeResponsesTools raw destination =
     (if raw_absent raw then Inr destination
      else bindE (okE (unm_maps raw)) (\<lambda>tools.
        foldE (\<lambda>source destination. bindE (decodeResponsesTool source) (\<lambda>t. Inr (destination @ [t])))
          tools destination))"

record messages_tool =
  mt_name :: string
  mt_description :: string
  mt_schema :: raw_message
  mt_type :: string

definition messages_tool_struct :: "members \<Rightarrow> messages_tool decoded" where
  "messages_tool_struct kvs =
     (let (name, ok1) = f_string ''name'' kvs; (description, ok2) = f_string ''description'' kvs;
          (schema, ok3) = f_raw ''input_schema'' kvs; (t, ok4) = f_string ''type'' kvs
      in (\<lparr>mt_name = name, mt_description = description, mt_schema = schema, mt_type = t\<rparr>,
          ok1 \<and> ok2 \<and> ok3 \<and> ok4))"

definition decodeMessagesTools :: "raw_message \<Rightarrow> tool list \<Rightarrow> go_error + tool list" where
  "decodeMessagesTools raw destination =
     (if raw_absent raw then Inr destination
      else bindE (okE (unm_slice (dec_struct messages_tool_struct) raw)) (\<lambda>tools.
        foldE (\<lambda>source destination.
          if mt_type source \<noteq> [] \<and> mt_type source \<noteq> ''custom'' then
            Inl (Errorf ''unsupported hosted Messages tool type %q'' [mt_type source])
          else Inr (destination @ [\<lparr>tool_kind = ''function'', tool_name = mt_name source,
                 tool_description = mt_description source, tool_parameters = mt_schema source,
                 tool_strict = None\<rparr>]))
        tools destination))"

section \<open>Tool choice\<close>

definition chat_choice_struct :: "members \<Rightarrow> (string \<times> string) decoded" where
  "chat_choice_struct kvs =
     (let (t, ok1) = f_string ''type'' kvs; (name, ok2) = f_struct (f_string ''name'') ''function'' kvs
      in ((t, name), ok1 \<and> ok2))"

definition decodeChatToolChoice :: "raw_message \<Rightarrow> tool_choice" where
  "decodeChatToolChoice raw =
     (if raw_absent raw then no_choice
      else (let (mode, ok) = unm_string raw in
        if ok then \<lparr>choice_mode = mode, choice_name = []\<rparr>
        else (let ((t, name), ok) = unm (dec_struct chat_choice_struct) ([], []) raw in
          if ok \<and> name \<noteq> [] then \<lparr>choice_mode = ''tool'', choice_name = name\<rparr>
          else no_choice)))"

definition named_choice_struct :: "members \<Rightarrow> (string \<times> string) decoded" where
  "named_choice_struct kvs =
     (let (t, ok1) = f_string ''type'' kvs; (name, ok2) = f_string ''name'' kvs
      in ((t, name), ok1 \<and> ok2))"

definition decodeResponsesToolChoice :: "raw_message \<Rightarrow> tool_choice" where
  "decodeResponsesToolChoice raw =
     (if raw_absent raw then no_choice
      else (let (mode, ok) = unm_string raw in
        if ok then \<lparr>choice_mode = mode, choice_name = []\<rparr>
        else (let ((t, name), ok) = unm (dec_struct named_choice_struct) ([], []) raw in
          if ok \<and> name \<noteq> [] then \<lparr>choice_mode = ''tool'', choice_name = name\<rparr>
          else no_choice)))"

definition decodeMessagesToolChoice :: "raw_message \<Rightarrow> tool_choice" where
  "decodeMessagesToolChoice raw =
     (if raw_absent raw then no_choice
      else (let ((t, name), ok) = unm (dec_struct named_choice_struct) ([], []) raw in
        if \<not> ok then no_choice
        else (let mode = (if t = ''any'' then ''required'' else t) in
          if mode = ''tool'' then \<lparr>choice_mode = ''tool'', choice_name = name\<rparr>
          else \<lparr>choice_mode = mode, choice_name = []\<rparr>)))"

definition encodeChatToolChoice :: "tool_choice \<Rightarrow> gval option" where
  "encodeChatToolChoice choice =
     (if choice_mode choice \<in> {''auto'', ''none'', ''required''} then Some (GStr (choice_mode choice))
      else if choice_mode choice = ''tool'' then
        Some (GMap [(''type'', GStr ''function''), (''function'', GMap [(''name'', GStr (choice_name choice))])])
      else None)"

definition encodeResponsesToolChoice :: "tool_choice \<Rightarrow> gval option" where
  "encodeResponsesToolChoice choice =
     (if choice_mode choice \<in> {''auto'', ''none'', ''required''} then Some (GStr (choice_mode choice))
      else if choice_mode choice = ''tool'' then
        Some (GMap [(''type'', GStr ''function''), (''name'', GStr (choice_name choice))])
      else None)"

definition encodeMessagesToolChoice :: "tool_choice \<Rightarrow> gval option" where
  "encodeMessagesToolChoice choice =
     (if choice_mode choice \<in> {''auto'', ''none''} then Some (GMap [(''type'', GStr (choice_mode choice))])
      else if choice_mode choice = ''required'' then Some (GMap [(''type'', GStr ''any'')])
      else if choice_mode choice = ''tool'' then
        Some (GMap [(''type'', GStr ''tool''), (''name'', GStr (choice_name choice))])
      else None)"

section \<open>Round trips\<close>

text \<open>The tool choices that every protocol can say.\<close>

definition choice_ok :: "tool_choice \<Rightarrow> bool" where
  "choice_ok c \<longleftrightarrow>
     c = no_choice \<or> c \<in> {\<lparr>choice_mode = ''auto'', choice_name = []\<rparr>, \<lparr>choice_mode = ''none'', choice_name = []\<rparr>,
       \<lparr>choice_mode = ''required'', choice_name = []\<rparr>} \<or>
     (\<exists>n. n \<noteq> [] \<and> c = \<lparr>choice_mode = ''tool'', choice_name = n\<rparr>)"

lemma chat_choice_roundtrip:
  "choice_ok c \<Longrightarrow> decodeChatToolChoice (map_option marshal (encodeChatToolChoice c)) = c"
  by (auto simp: choice_ok_def no_choice_def encodeChatToolChoice_def decodeChatToolChoice_def
      chat_choice_struct_def)

lemma responses_choice_roundtrip:
  "choice_ok c \<Longrightarrow> decodeResponsesToolChoice (map_option marshal (encodeResponsesToolChoice c)) = c"
  by (auto simp: choice_ok_def no_choice_def encodeResponsesToolChoice_def decodeResponsesToolChoice_def
      named_choice_struct_def)

lemma messages_choice_roundtrip:
  "choice_ok c \<Longrightarrow> decodeMessagesToolChoice (map_option marshal (encodeMessagesToolChoice c)) = c"
  by (auto simp: choice_ok_def no_choice_def encodeMessagesToolChoice_def decodeMessagesToolChoice_def
      named_choice_struct_def)

end
