(* ===== verification/DecodeRequest.thy ===== *)
theory DecodeRequest
  imports Image Tools
begin

text \<open>
  Decoding client requests of the three protocols into the canonical request
  (the decoding half of internal/protocol/request.go). A loop over messages or items is a
  \<^const>\<open>foldE\<close> over the enumerated list, its state the variables the Go loop assigns.
\<close>

definition index_path :: "string \<Rightarrow> nat \<Rightarrow> string" where
  "index_path path i = path @ ''['' @ nat_str i @ '']''"

section \<open>Text, stop sequences, arguments\<close>

definition decodeResponsesContent :: "raw_message \<Rightarrow> go_error + string" where
  "decodeResponsesContent raw =
     (if raw = None then Inr []
      else if raw_is_string raw then okE (unm_string raw)
      else bindE (okE (unm_maps raw)) (\<lambda>blocks.
        foldE (\<lambda>block text.
          let block_type = fst (unm_string (entry ''type'' block)) in
          if block_type \<noteq> ''input_text'' \<and> block_type \<noteq> ''output_text'' \<and> block_type \<noteq> ''text'' then
            Inl (Errorf ''unsupported text content block %q'' [block_type])
          else Inr (text @ fst (unm_string (entry ''text'' block))))
        blocks []))"

definition decodeTextContent :: "raw_message \<Rightarrow> go_error + string" where
  "decodeTextContent raw =
     (if raw_absent raw then Inr []
      else if raw_is_string raw then okE (unm_string raw)
      else decodeResponsesContent raw)"

definition decodeAnthropicContent :: "raw_message \<Rightarrow> bool \<Rightarrow> go_error + string" where
  "decodeAnthropicContent raw allow_tool =
     (if raw_absent raw then Inr []
      else if raw_is_string raw then okE (unm_string raw)
      else bindE (okE (unm_maps raw)) (\<lambda>blocks.
        foldE (\<lambda>block text.
          let block_type = fst (unm_string (entry ''type'' block)) in
          if block_type \<noteq> ''text'' then
            (if allow_tool then Inr text
             else Inl (Errorf ''unsupported Anthropic content block %q'' [block_type]))
          else Inr (text @ fst (unm_string (entry ''text'' block))))
        blocks []))"

definition decodeStop :: "raw_message \<Rightarrow> go_error + string list" where
  "decodeStop raw =
     (if raw_absent raw then Inr []
      else if raw_is_string raw then bindE (okE (unm_string raw)) (\<lambda>value. Inr [value])
      else okE (unm_slice (dec_string []) raw))"

definition normalizeArguments :: "raw_message \<Rightarrow> raw_message" where
  "normalizeArguments raw =
     (if raw_absent raw then Some (JObj [])
      else (case raw of
          Some (JStr value) \<Rightarrow> (case parse_json value of Some j \<Rightarrow> Some j | None \<Rightarrow> raw)
        | _ \<Rightarrow> raw))"

fun appendBlock :: "message list \<Rightarrow> string \<Rightarrow> block \<Rightarrow> message list" where
  "appendBlock messages role block =
     (if messages \<noteq> [] \<and> msg_role (last messages) = role then
        butlast messages @ [(last messages)\<lparr>msg_blocks := msg_blocks (last messages) @ [block]\<rparr>]
      else messages @ [message_of role [block]])"

section \<open>Content blocks\<close>

definition decodeChatBlock :: "string \<Rightarrow> members \<Rightarrow> go_error + block" where
  "decodeChatBlock block_path block =
     bindE (wrapE (block_path @ ''.type'') (unm_string (entry ''type'' block))) (\<lambda>block_type.
     if block_type = ''text'' then
       bindE (wrapE (block_path @ ''.text'') (unm_string (entry ''text'' block))) (\<lambda>text.
       Inr (TextBlock text))
     else if block_type = ''image_url'' then
       bindE (decodeChatImage (entry ''image_url'' block) (block_path @ ''.image_url'')) (\<lambda>img.
       Inr (ImageBlock img))
     else Inl (Errorf ''unsupported Chat content block %q at %s.type'' [block_type, block_path]))"

definition decodeResponsesBlock :: "string \<Rightarrow> members \<Rightarrow> go_error + block" where
  "decodeResponsesBlock block_path block =
     bindE (wrapE (block_path @ ''.type'') (unm_string (entry ''type'' block))) (\<lambda>block_type.
     if block_type = ''input_text'' \<or> block_type = ''output_text'' \<or> block_type = ''text'' then
       bindE (wrapE (block_path @ ''.text'') (unm_string (entry ''text'' block))) (\<lambda>text.
       Inr (TextBlock text))
     else if block_type = ''input_image'' then
       bindE (decodeResponsesImage block block_path) (\<lambda>img. Inr (ImageBlock img))
     else Inl (Errorf ''unsupported Responses content block %q at %s.type'' [block_type, block_path]))"

definition content_blocks ::
    "(string \<Rightarrow> members \<Rightarrow> go_error + block) \<Rightarrow> raw_message \<Rightarrow> string \<Rightarrow> go_error + block list" where
  "content_blocks block_dec raw path =
     (if raw_absent raw then Inr []
      else if raw_is_string raw then bindE (wrapE path (unm_string raw)) (\<lambda>text. Inr [TextBlock text])
      else bindE (wrapE path (unm_maps raw)) (\<lambda>blocks.
        mapE (\<lambda>index block. block_dec (index_path path index) block) blocks))"

definition decodeChatContentBlocks :: "raw_message \<Rightarrow> string \<Rightarrow> go_error + block list" where
  "decodeChatContentBlocks raw path = content_blocks decodeChatBlock raw path"

definition decodeResponsesContentBlocks :: "raw_message \<Rightarrow> string \<Rightarrow> go_error + block list" where
  "decodeResponsesContentBlocks raw path = content_blocks decodeResponsesBlock raw path"

text \<open>One block of a Messages message; \<^const>\<open>None\<close> where the code appends nothing.\<close>

definition decodeMessagesBlock :: "string \<Rightarrow> members \<Rightarrow> go_error + block option" where
  "decodeMessagesBlock block_path block =
     bindE (wrapE (block_path @ ''.type'') (unm_string (entry ''type'' block))) (\<lambda>block_type.
     if block_type = ''text'' then
       bindE (wrapE (block_path @ ''.text'') (unm_string (entry ''text'' block))) (\<lambda>text.
       Inr (Some (TextBlock text)))
     else if block_type = ''image'' then
       bindE (decodeMessagesImage (entry ''source'' block) (block_path @ ''.source'')) (\<lambda>img.
       Inr (Some (ImageBlock img)))
     else if block_type = ''tool_use'' then
       Inr (Some (ToolCallBlock \<lparr>call_id = fst (unm_string (entry ''id'' block)), call_upstream_id = [],
         call_name = fst (unm_string (entry ''name'' block)),
         call_arguments = normalizeArguments (entry ''input'' block)\<rparr>))
     else if block_type = ''tool_result'' then
       bindE (decodeAnthropicContent (entry ''content'' block) False) (\<lambda>text.
       Inr (Some (ToolResultBlock \<lparr>result_call_id = fst (unm_string (entry ''tool_use_id'' block)),
         result_content = text, result_is_error = fst (unm_bool (entry ''is_error'' block))\<rparr>)))
     else if block_type = ''thinking'' then
       (let thinking = fst (unm_string (entry ''thinking'' block)) in
        Inr (if thinking \<noteq> [] then Some (ReasoningBlock thinking) else None))
     else if block_type = ''redacted_thinking'' then Inr None
     else Inl (Errorf ''unsupported Messages content block %q'' [block_type]))"

definition somes :: "'a option list \<Rightarrow> 'a list" where
  "somes xs = map the (filter (\<lambda>x. x \<noteq> None) xs)"

lemma somes_simps [simp]: "somes [] = []" "somes (None # xs) = somes xs" "somes (Some x # xs) = x # somes xs"
  by (simp_all add: somes_def)

lemma somes_map_Some [simp]: "somes (map (\<lambda>x. Some (f x)) xs) = map f xs"
  by (induction xs) simp_all

definition decodeMessagesContent :: "string \<Rightarrow> raw_message \<Rightarrow> string \<Rightarrow> go_error + message" where
  "decodeMessagesContent role raw path =
     (if raw_absent raw then Inr (message_of role [])
      else if raw_is_string raw then
        bindE (wrapE path (unm_string raw)) (\<lambda>text. Inr (message_of role [TextBlock text]))
      else bindE (wrapE path (unm_maps raw)) (\<lambda>blocks.
        bindE (mapE (\<lambda>index block. decodeMessagesBlock (index_path path index) block) blocks) (\<lambda>decoded.
        Inr (message_of role (somes decoded)))))"

section \<open>Chat requests\<close>

record chat_call =
  cc_id :: string
  cc_type :: string
  cc_name :: string
  cc_arguments :: raw_message

record chat_message =
  cm_role :: string
  cm_content :: raw_message
  cm_tool_calls :: "chat_call list"
  cm_tool_call_id :: string

record request_source =
  rs_model :: string
  rs_messages :: raw_message
  rs_tools :: raw_message
  rs_tool_choice :: raw_message
  rs_stream :: bool
  rs_parallel :: "bool option"
  rs_max_tokens :: "int option"
  rs_max_completion :: "int option"
  rs_temperature :: "float64 option"
  rs_top_p :: "float64 option"
  rs_stop :: raw_message
  rs_effort :: string

definition chat_function_struct :: "members \<Rightarrow> (string \<times> raw_message) decoded" where
  "chat_function_struct kvs =
     (let (name, ok1) = f_string ''name'' kvs; (arguments, ok2) = f_raw ''arguments'' kvs
      in ((name, arguments), ok1 \<and> ok2))"

definition chat_call_struct :: "members \<Rightarrow> chat_call decoded" where
  "chat_call_struct kvs =
     (let (i, ok1) = f_string ''id'' kvs; (t, ok2) = f_string ''type'' kvs;
          ((name, arguments), ok3) = f_struct chat_function_struct ''function'' kvs
      in (\<lparr>cc_id = i, cc_type = t, cc_name = name, cc_arguments = arguments\<rparr>, ok1 \<and> ok2 \<and> ok3))"

definition chat_message_struct :: "members \<Rightarrow> chat_message decoded" where
  "chat_message_struct kvs =
     (let (role, ok1) = f_string ''role'' kvs; (content, ok2) = f_raw ''content'' kvs;
          (calls, ok3) = f_slice (dec_struct chat_call_struct) ''tool_calls'' kvs;
          (i, ok4) = f_string ''tool_call_id'' kvs
      in (\<lparr>cm_role = role, cm_content = content, cm_tool_calls = calls, cm_tool_call_id = i\<rparr>,
          ok1 \<and> ok2 \<and> ok3 \<and> ok4))"

definition chat_request_struct :: "members \<Rightarrow> request_source decoded" where
  "chat_request_struct kvs =
     (let (model, ok1) = f_string ''model'' kvs; (messages, ok2) = f_raw ''messages'' kvs;
          (tools, ok3) = f_raw ''tools'' kvs; (choice, ok4) = f_raw ''tool_choice'' kvs;
          (stream, ok5) = f_bool ''stream'' kvs; (parallel, ok6) = f_ptr_bool ''parallel_tool_calls'' kvs;
          (max_tokens, ok7) = f_ptr_int ''max_tokens'' kvs;
          (max_completion, ok8) = f_ptr_int ''max_completion_tokens'' kvs;
          (temperature, ok9) = f_ptr_float ''temperature'' kvs; (top_p, ok10) = f_ptr_float ''top_p'' kvs;
          (stop, ok11) = f_raw ''stop'' kvs; (effort, ok12) = f_string ''reasoning_effort'' kvs
      in (\<lparr>rs_model = model, rs_messages = messages, rs_tools = tools, rs_tool_choice = choice,
           rs_stream = stream, rs_parallel = parallel, rs_max_tokens = max_tokens,
           rs_max_completion = max_completion, rs_temperature = temperature, rs_top_p = top_p,
           rs_stop = stop, rs_effort = effort\<rparr>,
          ok1 \<and> ok2 \<and> ok3 \<and> ok4 \<and> ok5 \<and> ok6 \<and> ok7 \<and> ok8 \<and> ok9 \<and> ok10 \<and> ok11 \<and> ok12))"

definition decodeChatCall :: "nat \<Rightarrow> chat_call \<Rightarrow> go_error + block" where
  "decodeChatCall _ call =
     (if cc_type call \<noteq> [] \<and> cc_type call \<noteq> ''function'' then
        Inl (Errorf ''unsupported chat tool call type %q'' [cc_type call])
      else Inr (ToolCallBlock \<lparr>call_id = cc_id call, call_upstream_id = [], call_name = cc_name call,
             call_arguments = normalizeArguments (cc_arguments call)\<rparr>))"

text \<open>The loop state: conversation seen, instructions so far, messages so far.\<close>

type_synonym chat_loop = "bool \<times> string list \<times> message list"

definition decodeChatMessage :: "nat \<times> chat_message \<Rightarrow> chat_loop \<Rightarrow> go_error + chat_loop" where
  "decodeChatMessage = (\<lambda>(index, message) (seen, instructions, messages).
     let path = index_path ''messages'' index in
     if cm_role message = ''system'' \<or> cm_role message = ''developer'' then
       (if seen then
          Inl (Errorf ''system/developer messages are only supported before conversation messages'' [])
        else bindE (decodeTextContent (cm_content message)) (\<lambda>text.
             Inr (seen, instructions @ [text], messages)))
     else if cm_role message = ''tool'' then
       bindE (decodeTextContent (cm_content message)) (\<lambda>text.
       Inr (True, instructions, messages @ [message_of ''user''
         [ToolResultBlock \<lparr>result_call_id = cm_tool_call_id message, result_content = text,
            result_is_error = False\<rparr>]]))
     else if cm_role message \<noteq> ''user'' \<and> cm_role message \<noteq> ''assistant'' then
       Inl (Errorf ''unsupported chat role %q'' [cm_role message])
     else
       bindE (if raw_absent (cm_content message) then Inr []
              else decodeChatContentBlocks (cm_content message) (path @ ''.content'')) (\<lambda>blocks.
       bindE (mapE decodeChatCall (cm_tool_calls message)) (\<lambda>calls.
       Inr (True, instructions, messages @ [message_of (cm_role message) (blocks @ calls)]))))"

definition decodeChatRequest :: "json \<Rightarrow> go_error + request" where
  "decodeChatRequest body =
     bindE (okE (dec_struct chat_request_struct body)) (\<lambda>source.
     if rs_model source = [] then Inl (Errorf ''model is required'' [])
     else bindE (decodeStop (rs_stop source)) (\<lambda>stop.
     if raw_absent (rs_messages source) then Inl (Errorf ''messages is required'' [])
     else bindE (okE (unm_slice (dec_struct chat_message_struct) (rs_messages source))) (\<lambda>messages.
     bindE (foldE decodeChatMessage (enumerate 0 messages) (False, [], [])) (\<lambda>(_, instructions, decoded).
     bindE (decodeChatTools (rs_tools source) []) (\<lambda>tools.
     Inr \<lparr>req_model = rs_model source, req_instructions = instructions, req_messages = decoded,
          req_tools = tools, req_tool_choice = decodeChatToolChoice (rs_tool_choice source),
          req_stream = rs_stream source,
          req_parallel = (case rs_parallel source of Some b \<Rightarrow> b | None \<Rightarrow> False),
          req_parallel_set = (rs_parallel source \<noteq> None),
          req_max_output = (if rs_max_completion source = None then rs_max_tokens source
                            else rs_max_completion source),
          req_temperature = rs_temperature source, req_top_p = rs_top_p source,
          req_stop = stop, req_effort = rs_effort source\<rparr>)))))"

section \<open>Responses requests\<close>

record responses_source =
  ss_model :: string
  ss_instructions :: raw_message
  ss_input :: raw_message
  ss_tools :: raw_message
  ss_tool_choice :: raw_message
  ss_stream :: bool
  ss_parallel :: "bool option"
  ss_max_output :: "int option"
  ss_temperature :: "float64 option"
  ss_top_p :: "float64 option"
  ss_effort :: string
  ss_previous :: "string option"
  ss_conversation :: "json option"
  ss_background :: bool
  ss_store :: "bool option"

text \<open>An \<^verbatim>\<open>any\<close> destination: null is nil, every other value is kept.\<close>

definition dec_any :: "json option \<Rightarrow> json \<Rightarrow> json option decoded" where
  "dec_any cur j = (if j = JNull then None else Some j, True)"

definition responses_request_struct :: "members \<Rightarrow> responses_source decoded" where
  "responses_request_struct kvs =
     (let (model, ok1) = f_string ''model'' kvs; (instructions, ok2) = f_raw ''instructions'' kvs;
          (input, ok3) = f_raw ''input'' kvs; (tools, ok4) = f_raw ''tools'' kvs;
          (choice, ok5) = f_raw ''tool_choice'' kvs; (stream, ok6) = f_bool ''stream'' kvs;
          (parallel, ok7) = f_ptr_bool ''parallel_tool_calls'' kvs;
          (max_output, ok8) = f_ptr_int ''max_output_tokens'' kvs;
          (temperature, ok9) = f_ptr_float ''temperature'' kvs; (top_p, ok10) = f_ptr_float ''top_p'' kvs;
          (effort, ok11) = f_struct (f_string ''effort'') ''reasoning'' kvs;
          (previous, ok12) = f_ptr_string ''previous_response_id'' kvs;
          (conversation, ok13) = field dec_any None ''conversation'' kvs;
          (background, ok14) = f_bool ''background'' kvs; (st, ok15) = f_ptr_bool ''store'' kvs
      in (\<lparr>ss_model = model, ss_instructions = instructions, ss_input = input, ss_tools = tools,
           ss_tool_choice = choice, ss_stream = stream, ss_parallel = parallel, ss_max_output = max_output,
           ss_temperature = temperature, ss_top_p = top_p, ss_effort = effort, ss_previous = previous,
           ss_conversation = conversation, ss_background = background, ss_store = st\<rparr>,
          ok1 \<and> ok2 \<and> ok3 \<and> ok4 \<and> ok5 \<and> ok6 \<and> ok7 \<and> ok8 \<and> ok9 \<and> ok10 \<and> ok11 \<and> ok12 \<and> ok13 \<and>
          ok14 \<and> ok15))"

type_synonym responses_loop = "string list \<times> message list"

definition decodeResponsesItem :: "nat \<times> members \<Rightarrow> responses_loop \<Rightarrow> go_error + responses_loop" where
  "decodeResponsesItem = (\<lambda>(index, item) (instructions, messages).
     let item_type = fst (unm_string (entry ''type'' item)); role = fst (unm_string (entry ''role'' item));
         path = index_path ''input'' index
     in
     if item_type = [] \<or> item_type = ''message'' then
       (if role = ''system'' \<or> role = ''developer'' then
          bindE (decodeResponsesContent (entry ''content'' item)) (\<lambda>text.
          Inr (instructions @ [text], messages))
        else if role \<noteq> ''user'' \<and> role \<noteq> ''assistant'' then
          Inl (Errorf ''unsupported Responses role %q'' [role])
        else bindE (decodeResponsesContentBlocks (entry ''content'' item) (path @ ''.content'')) (\<lambda>blocks.
          Inr (instructions, messages @ [message_of role blocks])))
     else if item_type = ''input_text'' then
       bindE (wrapE (path @ ''.text'') (unm_string (entry ''text'' item))) (\<lambda>text.
       Inr (instructions, appendBlock messages ''user'' (TextBlock text)))
     else if item_type = ''input_image'' then
       bindE (decodeResponsesImage item path) (\<lambda>img.
       Inr (instructions, appendBlock messages ''user'' (ImageBlock img)))
     else if item_type = ''function_call'' then
       Inr (instructions, appendBlock messages ''assistant''
         (ToolCallBlock \<lparr>call_id = fst (unm_string (entry ''call_id'' item)), call_upstream_id = [],
            call_name = fst (unm_string (entry ''name'' item)),
            call_arguments = normalizeArguments (fst (unm_raw (entry ''arguments'' item)))\<rparr>))
     else if item_type = ''function_call_output'' then
       bindE (decodeTextContent (entry ''output'' item)) (\<lambda>text.
       Inr (instructions, appendBlock messages ''user''
         (ToolResultBlock \<lparr>result_call_id = fst (unm_string (entry ''call_id'' item)),
            result_content = text, result_is_error = False\<rparr>)))
     else Inl (Errorf ''unsupported Responses input item type %q'' [item_type]))"

definition decodeResponsesRequest :: "json \<Rightarrow> go_error + request" where
  "decodeResponsesRequest body =
     bindE (okE (dec_struct responses_request_struct body)) (\<lambda>source.
     if ss_model source = [] then Inl (Errorf ''model is required'' [])
     else if ss_previous source \<noteq> None \<or> ss_conversation source \<noteq> None \<or> ss_background source
             \<or> ss_store source = Some True then
       Inl (Errorf ''stateful Responses fields are not supported'' [])
     else bindE (if raw_absent (ss_instructions source) then Inr []
                 else bindE (decodeTextContent (ss_instructions source)) (\<lambda>text. Inr [text])) (\<lambda>instructions0.
     if ss_input source = None then Inl (Errorf ''input is required'' [])
     else bindE (if raw_is_string (ss_input source) then
                   bindE (okE (unm_string (ss_input source))) (\<lambda>text.
                   Inr (instructions0, [message_of ''user'' [TextBlock text]]))
                 else bindE (okE (unm_maps (ss_input source))) (\<lambda>items.
                   foldE decodeResponsesItem (enumerate 0 items) (instructions0, []))) (\<lambda>(instructions, messages).
     bindE (decodeResponsesTools (ss_tools source) []) (\<lambda>tools.
     Inr \<lparr>req_model = ss_model source, req_instructions = instructions, req_messages = messages,
          req_tools = tools, req_tool_choice = decodeResponsesToolChoice (ss_tool_choice source),
          req_stream = ss_stream source,
          req_parallel = (case ss_parallel source of Some b \<Rightarrow> b | None \<Rightarrow> False),
          req_parallel_set = (ss_parallel source \<noteq> None),
          req_max_output = ss_max_output source, req_temperature = ss_temperature source,
          req_top_p = ss_top_p source, req_stop = [], req_effort = ss_effort source\<rparr>))))"

section \<open>Messages requests\<close>

record messages_source =
  ms_model :: string
  ms_system :: raw_message
  ms_messages :: raw_message
  ms_tools :: raw_message
  ms_tool_choice :: raw_message
  ms_stream :: bool
  ms_max_tokens :: "int option"
  ms_temperature :: "float64 option"
  ms_top_p :: "float64 option"
  ms_stop :: "string list"
  ms_effort :: string

definition messages_request_struct :: "members \<Rightarrow> messages_source decoded" where
  "messages_request_struct kvs =
     (let (model, ok1) = f_string ''model'' kvs; (system, ok2) = f_raw ''system'' kvs;
          (messages, ok3) = f_raw ''messages'' kvs; (tools, ok4) = f_raw ''tools'' kvs;
          (choice, ok5) = f_raw ''tool_choice'' kvs; (stream, ok6) = f_bool ''stream'' kvs;
          (max_tokens, ok7) = f_ptr_int ''max_tokens'' kvs;
          (temperature, ok8) = f_ptr_float ''temperature'' kvs; (top_p, ok9) = f_ptr_float ''top_p'' kvs;
          (stop, ok10) = f_slice (dec_string []) ''stop_sequences'' kvs;
          (effort, ok11) = f_struct (f_string ''effort'') ''output_config'' kvs
      in (\<lparr>ms_model = model, ms_system = system, ms_messages = messages, ms_tools = tools,
           ms_tool_choice = choice, ms_stream = stream, ms_max_tokens = max_tokens,
           ms_temperature = temperature, ms_top_p = top_p, ms_stop = stop, ms_effort = effort\<rparr>,
          ok1 \<and> ok2 \<and> ok3 \<and> ok4 \<and> ok5 \<and> ok6 \<and> ok7 \<and> ok8 \<and> ok9 \<and> ok10 \<and> ok11))"

definition role_content_struct :: "members \<Rightarrow> (string \<times> raw_message) decoded" where
  "role_content_struct kvs =
     (let (role, ok1) = f_string ''role'' kvs; (content, ok2) = f_raw ''content'' kvs
      in ((role, content), ok1 \<and> ok2))"

definition decodeMessagesMessage :: "nat \<Rightarrow> string \<times> raw_message \<Rightarrow> go_error + message" where
  "decodeMessagesMessage = (\<lambda>index (role, content).
     if role \<noteq> ''user'' \<and> role \<noteq> ''assistant'' \<and> role \<noteq> ''system'' then
       Inl (Errorf ''unsupported Messages role %q'' [role])
     else decodeMessagesContent role content (index_path ''messages'' index @ ''.content''))"

definition decodeMessagesRequest :: "json \<Rightarrow> go_error + request" where
  "decodeMessagesRequest body =
     bindE (okE (dec_struct messages_request_struct body)) (\<lambda>source.
     if ms_model source = [] then Inl (Errorf ''model is required'' [])
     else bindE (if raw_absent (ms_system source) then Inr []
                 else bindE (decodeAnthropicContent (ms_system source) False) (\<lambda>text. Inr [text])) (\<lambda>instructions.
     bindE (okE (unm_slice (dec_struct role_content_struct) (ms_messages source))) (\<lambda>messages.
     bindE (mapE decodeMessagesMessage messages) (\<lambda>decoded.
     bindE (decodeMessagesTools (ms_tools source) []) (\<lambda>tools.
     Inr \<lparr>req_model = ms_model source, req_instructions = instructions, req_messages = decoded,
          req_tools = tools, req_tool_choice = decodeMessagesToolChoice (ms_tool_choice source),
          req_stream = ms_stream source, req_parallel = False, req_parallel_set = False,
          req_max_output = ms_max_tokens source, req_temperature = ms_temperature source,
          req_top_p = ms_top_p source, req_stop = ms_stop source, req_effort = ms_effort source\<rparr>)))))"

section \<open>Dispatch\<close>

definition unmarshal_text :: "string \<Rightarrow> go_error + json" where
  "unmarshal_text body = (case parse_json body of None \<Rightarrow> Inl JsonError | Some j \<Rightarrow> Inr j)"

definition DecodeRequest :: "string \<Rightarrow> string \<Rightarrow> go_error + request" where
  "DecodeRequest body protocol =
     (if protocol = Chat then bindE (unmarshal_text body) decodeChatRequest
      else if protocol = Responses then bindE (unmarshal_text body) decodeResponsesRequest
      else if protocol = Messages then bindE (unmarshal_text body) decodeMessagesRequest
      else Inl (Errorf ''unsupported protocol %q'' [protocol]))"

end
