(* ===== verification/EncodeRequest.thy ===== *)
theory EncodeRequest
  imports DecodeRequest
begin

text \<open>
  Encoding the canonical request for an upstream (the encoding half of
  internal/protocol/request.go) and the conversion that composes both halves.
\<close>

definition rawOrObject :: "raw_message \<Rightarrow> gval" where
  "rawOrObject raw = (case raw of None \<Rightarrow> GRaw (JObj []) | Some j \<Rightarrow> GRaw j)"

section \<open>Content\<close>

text \<open>
  The state of the content loops: the text collected so far, the parts, and whether an image
  was seen. A content of nil is \<^const>\<open>None\<close>. The two encoders differ in the target and in
  the type given to text parts.
\<close>

record content_state =
  ct_text :: string
  ct_parts :: "gval list"
  ct_image :: bool

definition text_part :: "string \<Rightarrow> string \<Rightarrow> gval" where
  "text_part text_type text = GMap [(''type'', GStr text_type), (''text'', GStr text)]"

definition content_step ::
    "string \<Rightarrow> string \<Rightarrow> string \<Rightarrow> nat \<times> block \<Rightarrow> content_state \<Rightarrow> go_error + content_state" where
  "content_step target text_type path = (\<lambda>(index, block) s.
     case block of
       TextBlock text \<Rightarrow>
         Inr (if text = [] then s
              else if ct_image s then s\<lparr>ct_parts := ct_parts s @ [text_part text_type text]\<rparr>
              else s\<lparr>ct_text := ct_text s @ text\<rparr>)
     | ImageBlock img \<Rightarrow>
         (let s' = (if ct_image s then s
                    else (if ct_text s \<noteq> [] then
                            s\<lparr>ct_parts := ct_parts s @ [text_part text_type (ct_text s)], ct_text := []\<rparr>
                          else s)\<lparr>ct_image := True\<rparr>)
          in bindE (encodeImage (Some img) target (index_path path index)) (\<lambda>value.
             Inr (s'\<lparr>ct_parts := ct_parts s' @ [value]\<rparr>)))
     | _ \<Rightarrow> Inr s)"

definition content_result :: "content_state \<Rightarrow> gval option" where
  "content_result s =
     (if \<not> ct_image s then (if ct_text s = [] then None else Some (GStr (ct_text s)))
      else Some (GArr (ct_parts s)))"

definition encode_content ::
    "string \<Rightarrow> string \<Rightarrow> block list \<Rightarrow> string \<Rightarrow> go_error + gval option" where
  "encode_content target text_type blocks path =
     bindE (foldE (content_step target text_type path) (enumerate 0 blocks)
              \<lparr>ct_text = [], ct_parts = [], ct_image = False\<rparr>)
       (\<lambda>s. Inr (content_result s))"

definition encodeChatContent :: "block list \<Rightarrow> string \<Rightarrow> go_error + gval option" where
  "encodeChatContent blocks path = encode_content Chat ''text'' blocks path"

definition encodeResponsesContent :: "block list \<Rightarrow> string \<Rightarrow> string \<Rightarrow> go_error + gval option" where
  "encodeResponsesContent blocks role path =
     encode_content Responses (if role = ''assistant'' then ''output_text'' else ''input_text'') blocks path"

section \<open>Common fields\<close>

definition applyCommonRequestFields :: "gmap \<Rightarrow> request \<Rightarrow> string \<Rightarrow> gmap" where
  "applyCommonRequestFields result request max_field =
     (let r1 = optput (req_max_output request \<noteq> None) max_field (GInt (the (req_max_output request))) result;
          r2 = optput (req_temperature request \<noteq> None) ''temperature'' (GFloat (the (req_temperature request))) r1;
          r3 = optput (req_top_p request \<noteq> None) ''top_p'' (GFloat (the (req_top_p request))) r2
      in if length (req_stop request) = 1 then put ''stop'' (GStr (hd (req_stop request))) r3
         else optput (length (req_stop request) > 1) ''stop'' (GArr (map GStr (req_stop request))) r3)"

definition blank_line :: string where
  "blank_line = [CHR 0x0A, CHR 0x0A]"

section \<open>Chat\<close>

definition chat_call :: "tool_call \<Rightarrow> gval" where
  "chat_call c = GMap [(''id'', GStr (call_id c)), (''type'', GStr ''function''),
     (''function'', GMap [(''name'', GStr (call_name c)), (''arguments'', GStr (raw_text (call_arguments c)))])]"

definition chat_tool_message :: "tool_result \<Rightarrow> gval" where
  "chat_tool_message r = GMap [(''role'', GStr ''tool''), (''tool_call_id'', GStr (result_call_id r)),
     (''content'', GStr (result_content r))]"

fun reasoning_texts :: "block list \<Rightarrow> string list" where
  "reasoning_texts [] = []"
| "reasoning_texts (ReasoningBlock t # bs) = t # reasoning_texts bs"
| "reasoning_texts (_ # bs) = reasoning_texts bs"

fun tool_calls :: "block list \<Rightarrow> tool_call list" where
  "tool_calls [] = []"
| "tool_calls (ToolCallBlock c # bs) = c # tool_calls bs"
| "tool_calls (_ # bs) = tool_calls bs"

fun tool_results :: "block list \<Rightarrow> tool_result list" where
  "tool_results [] = []"
| "tool_results (ToolResultBlock r # bs) = r # tool_results bs"
| "tool_results (_ # bs) = tool_results bs"

text \<open>
  The messages one canonical message becomes: the tool results first, each a message of its
  own, then, unless it would be empty, the message itself.
\<close>

definition encodeChatMessage :: "nat \<Rightarrow> message \<Rightarrow> go_error + gval list" where
  "encodeChatMessage index message =
     bindE (encodeChatContent (msg_blocks message) (index_path ''messages'' index @ ''.content'')) (\<lambda>content.
     let reasoning = reasoning_texts (msg_blocks message);
         calls = map chat_call (tool_calls (msg_blocks message));
         results = map chat_tool_message (tool_results (msg_blocks message));
         v0 = [(''role'', GStr (msg_role message)),
               (''content'', case content of None \<Rightarrow> GNil | Some g \<Rightarrow> g)];
         v1 = optput (reasoning \<noteq> []) ''reasoning_content'' (GStr (concat reasoning)) v0;
         v2 = optput (calls \<noteq> []) ''tool_calls'' (GArr calls) v1
     in Inr (results @ (if content \<noteq> None \<or> reasoning \<noteq> [] \<or> calls \<noteq> [] then [GMap v2] else [])))"

definition chat_tool_value :: "tool \<Rightarrow> gval" where
  "chat_tool_value t =
     (let f0 = [(''name'', GStr (tool_name t)), (''parameters'', rawOrObject (tool_parameters t))];
          f1 = optput (tool_description t \<noteq> []) ''description'' (GStr (tool_description t)) f0;
          f2 = optput (tool_strict t \<noteq> None) ''strict'' (GBool (the (tool_strict t))) f1
      in GMap [(''type'', GStr ''function''), (''function'', GMap f2)])"

definition add_parallel :: "request \<Rightarrow> gmap \<Rightarrow> gmap" where
  "add_parallel request m =
     optput (req_tools request \<noteq> [] \<and> (req_parallel_set request \<or> req_parallel request))
       ''parallel_tool_calls'' (GBool (req_parallel request)) m"

definition put_choice :: "gval option \<Rightarrow> gmap \<Rightarrow> gmap" where
  "put_choice choice m = (case choice of None \<Rightarrow> m | Some g \<Rightarrow> put ''tool_choice'' g m)"

definition encodeChatRequest :: "request \<Rightarrow> go_error + gmap" where
  "encodeChatRequest request =
     bindE (mapE encodeChatMessage (req_messages request)) (\<lambda>encoded.
     let system = (if req_instructions request = [] then []
            else [GMap [(''role'', GStr ''system''),
                    (''content'', GStr (join blank_line (req_instructions request)))]]);
         r0 = [(''model'', GStr (req_model request)), (''messages'', GArr (system @ concat encoded)),
               (''stream'', GBool (req_stream request))];
         r1 = applyCommonRequestFields r0 request ''max_completion_tokens'';
         r2 = optput (req_tools request \<noteq> []) ''tools'' (GArr (map chat_tool_value (req_tools request))) r1;
         r3 = add_parallel request r2;
         r4 = put_choice (encodeChatToolChoice (req_tool_choice request)) r3;
         r5 = optput (req_effort request \<noteq> []) ''reasoning_effort'' (GStr (req_effort request)) r4
     in Inr r5)"

section \<open>Call ids of the Responses protocol\<close>

text \<open>
  The Responses API takes call ids of at most 64 characters. Longer ones are renamed to
  \<^verbatim>\<open>call_mc_1\<close>, \<^verbatim>\<open>call_mc_2\<close>, ..., passing over the names that the request uses itself.
\<close>

record call_ids =
  ids_used :: "string list"
  ids_map :: "(string \<times> string) list"
  ids_next :: nat

fun block_ids :: "block list \<Rightarrow> string list" where
  "block_ids [] = []"
| "block_ids (ToolCallBlock c # bs) = call_id c # block_ids bs"
| "block_ids (ToolResultBlock r # bs) = result_call_id r # block_ids bs"
| "block_ids (_ # bs) = block_ids bs"

definition used_ids :: "message list \<Rightarrow> string list" where
  "used_ids messages = concat (map (\<lambda>m. block_ids (msg_blocks m)) messages)"

definition mc_id :: "nat \<Rightarrow> string" where
  "mc_id n = ''call_mc_'' @ nat_str n"

lemma mc_id_inject [simp]: "mc_id m = mc_id n \<longleftrightarrow> m = n"
  by (simp add: mc_id_def nat_str_inject)

text \<open>The loop that looks for a free name; its result is the first free number.\<close>

function fresh_call :: "string list \<Rightarrow> nat \<Rightarrow> nat" where
  "fresh_call used n = (if mc_id n \<in> set used then fresh_call used (Suc n) else n)"
  by pat_completeness auto
termination
proof (relation "measure (\<lambda>(used, n). card {m. n \<le> m \<and> mc_id m \<in> set used})")
  fix used n
  assume n: "mc_id n \<in> set used"
  have "inj mc_id" by (simp add: inj_on_def)
  then have "finite (mc_id -` set used)" by (simp add: finite_vimageI)
  then have fin: "finite {m. n \<le> m \<and> mc_id m \<in> set used}" by (rule rev_finite_subset) auto
  have "n \<in> {m. n \<le> m \<and> mc_id m \<in> set used}" and "n \<notin> {m. Suc n \<le> m \<and> mc_id m \<in> set used}"
    using n by auto
  moreover have "{m. Suc n \<le> m \<and> mc_id m \<in> set used} \<subseteq> {m. n \<le> m \<and> mc_id m \<in> set used}"
    by auto
  ultimately have "{m. Suc n \<le> m \<and> mc_id m \<in> set used} \<subset> {m. n \<le> m \<and> mc_id m \<in> set used}"
    by blast
  then show "((used, Suc n), used, n) \<in> measure (\<lambda>(used, n). card {m. n \<le> m \<and> mc_id m \<in> set used})"
    using fin by (simp add: psubset_card_mono)
qed simp

declare fresh_call.simps [simp del]

definition callID :: "string \<Rightarrow> call_ids \<Rightarrow> string \<times> call_ids" where
  "callID i s =
     (if rune_count i \<le> 64 then (i, s)
      else case map_of (ids_map s) i of
        Some mapped \<Rightarrow> (mapped, s)
      | None \<Rightarrow> (let n = fresh_call (ids_used s) (ids_next s); mapped = mc_id n in
          (mapped, \<lparr>ids_used = mapped # ids_used s, ids_map = put i mapped (ids_map s),
                    ids_next = Suc n\<rparr>)))"

section \<open>Responses\<close>

definition function_call_item :: "tool_call \<Rightarrow> string \<Rightarrow> gval" where
  "function_call_item c i = GMap [(''type'', GStr ''function_call''), (''call_id'', GStr i),
     (''name'', GStr (call_name c)), (''arguments'', GStr (raw_text (call_arguments c)))]"

definition function_output_item :: "tool_result \<Rightarrow> string \<Rightarrow> gval" where
  "function_output_item r i = GMap [(''type'', GStr ''function_call_output''), (''call_id'', GStr i),
     (''output'', GStr (result_content r))]"

definition message_item :: "string \<Rightarrow> gval \<Rightarrow> gval" where
  "message_item role content = GMap [(''type'', GStr ''message''), (''role'', GStr role), (''content'', content)]"

fun encodeResponsesBlocks :: "block list \<Rightarrow> call_ids \<Rightarrow> gval list \<times> call_ids" where
  "encodeResponsesBlocks [] s = ([], s)"
| "encodeResponsesBlocks (ToolCallBlock c # bs) s =
     (let (i, s') = callID (call_id c) s; (items, s'') = encodeResponsesBlocks bs s'
      in (function_call_item c i # items, s''))"
| "encodeResponsesBlocks (ToolResultBlock r # bs) s =
     (let (i, s') = callID (result_call_id r) s; (items, s'') = encodeResponsesBlocks bs s'
      in (function_output_item r i # items, s''))"
| "encodeResponsesBlocks (_ # bs) s = encodeResponsesBlocks bs s"

definition encodeResponsesMessage ::
    "nat \<times> message \<Rightarrow> gval list \<times> call_ids \<Rightarrow> go_error + gval list \<times> call_ids" where
  "encodeResponsesMessage = (\<lambda>(index, message) (input, s).
     bindE (encodeResponsesContent (msg_blocks message) (msg_role message)
              (index_path ''input'' index @ ''.content'')) (\<lambda>content.
     let (items, s') = encodeResponsesBlocks (msg_blocks message) s
     in Inr (input @ items @ (case content of None \<Rightarrow> [] | Some g \<Rightarrow> [message_item (msg_role message) g]), s')))"

definition responses_tool_value :: "tool \<Rightarrow> gval" where
  "responses_tool_value t =
     (let f0 = [(''type'', GStr ''function''), (''name'', GStr (tool_name t)),
                (''parameters'', rawOrObject (tool_parameters t))];
          f1 = optput (tool_description t \<noteq> []) ''description'' (GStr (tool_description t)) f0
      in GMap (optput (tool_strict t \<noteq> None) ''strict'' (GBool (the (tool_strict t))) f1))"

definition initial_ids :: "request \<Rightarrow> call_ids" where
  "initial_ids request = \<lparr>ids_used = used_ids (req_messages request), ids_map = [], ids_next = 1\<rparr>"

definition encodeResponsesRequest :: "request \<Rightarrow> go_error + gmap" where
  "encodeResponsesRequest request =
     bindE (foldE encodeResponsesMessage (enumerate 0 (req_messages request)) ([], initial_ids request)) (\<lambda>(input, _).
     let r0 = [(''model'', GStr (req_model request)), (''input'', GArr input),
               (''stream'', GBool (req_stream request)), (''store'', GBool False)];
         r1 = optput (req_instructions request \<noteq> []) ''instructions''
                (GStr (join blank_line (req_instructions request))) r0;
         r2 = applyCommonRequestFields r1 request ''max_output_tokens'';
         r3 = optput (req_tools request \<noteq> []) ''tools'' (GArr (map responses_tool_value (req_tools request))) r2;
         r4 = add_parallel request r3;
         r5 = put_choice (encodeResponsesToolChoice (req_tool_choice request)) r4;
         r6 = optput (req_effort request \<noteq> []) ''reasoning''
                (GMap [(''effort'', GStr (req_effort request)), (''summary'', GStr ''auto'')]) r5
     in Inr r6)"

section \<open>Messages\<close>

definition encodeMessagesBlock :: "string \<Rightarrow> nat \<Rightarrow> block \<Rightarrow> go_error + gval list" where
  "encodeMessagesBlock path index block = (case block of
       TextBlock text \<Rightarrow> Inr [text_part ''text'' text]
     | ImageBlock img \<Rightarrow>
         bindE (encodeImage (Some img) Messages (index_path path index)) (\<lambda>value. Inr [value])
     | ToolCallBlock c \<Rightarrow>
         Inr [GMap [(''type'', GStr ''tool_use''), (''id'', GStr (call_id c)), (''name'', GStr (call_name c)),
                (''input'', rawOrObject (call_arguments c))]]
     | ToolResultBlock r \<Rightarrow>
         Inr [GMap [(''type'', GStr ''tool_result''), (''tool_use_id'', GStr (result_call_id r)),
                (''content'', GStr (result_content r)), (''is_error'', GBool (result_is_error r))]]
     | ReasoningBlock _ \<Rightarrow> Inr [])"

definition encodeMessagesMessage :: "nat \<Rightarrow> message \<Rightarrow> go_error + gval" where
  "encodeMessagesMessage index message =
     bindE (mapE (encodeMessagesBlock (index_path ''messages'' index @ ''.content'')) (msg_blocks message))
       (\<lambda>content. Inr (GMap [(''role'', GStr (msg_role message)), (''content'', GArr (concat content))]))"

definition messages_tool_value :: "tool \<Rightarrow> gval" where
  "messages_tool_value t =
     GMap (optput (tool_description t \<noteq> []) ''description'' (GStr (tool_description t))
       [(''name'', GStr (tool_name t)), (''input_schema'', rawOrObject (tool_parameters t))])"

definition encodeMessagesRequest :: "request \<Rightarrow> go_error + gmap" where
  "encodeMessagesRequest request =
     bindE (mapE encodeMessagesMessage (req_messages request)) (\<lambda>messages.
     let r0 = [(''model'', GStr (req_model request)), (''messages'', GArr messages),
               (''stream'', GBool (req_stream request))];
         r1 = optput (req_instructions request \<noteq> []) ''system''
                (GStr (join blank_line (req_instructions request))) r0;
         r2 = AList.delete ''stop'' (applyCommonRequestFields r1 request ''max_tokens'');
         r3 = optput (req_stop request \<noteq> []) ''stop_sequences'' (GArr (map GStr (req_stop request))) r2;
         r4 = optput (req_tools request \<noteq> []) ''tools'' (GArr (map messages_tool_value (req_tools request))) r3;
         r5 = put_choice (encodeMessagesToolChoice (req_tool_choice request)) r4;
         r6 = optput (req_effort request \<noteq> []) ''output_config'' (GMap [(''effort'', GStr (req_effort request))]) r5
     in Inr r6)"

section \<open>Dispatch and conversion\<close>

definition encode_tree :: "request \<Rightarrow> string \<Rightarrow> go_error + gmap" where
  "encode_tree request protocol =
     (if protocol = Chat then encodeChatRequest request
      else if protocol = Responses then encodeResponsesRequest request
      else if protocol = Messages then encodeMessagesRequest request
      else Inl (Errorf ''unsupported protocol %q'' [protocol]))"

definition EncodeRequest :: "request \<Rightarrow> string \<Rightarrow> go_error + string" where
  "EncodeRequest request protocol =
     bindE (encode_tree request protocol) (\<lambda>m. Inr (print_json (marshal (GMap m))))"

definition default_strict :: "tool \<Rightarrow> tool" where
  "default_strict t = (if tool_strict t = None then t\<lparr>tool_strict := Some False\<rparr> else t)"

definition retarget :: "request \<Rightarrow> string \<Rightarrow> string \<Rightarrow> string \<Rightarrow> int \<Rightarrow> request" where
  "retarget request source target upstream_model default_max =
     (let r0 = request\<lparr>req_model := upstream_model\<rparr>;
          r1 = (if target = Responses \<and> source \<noteq> Responses
                then r0\<lparr>req_tools := map default_strict (req_tools r0)\<rparr> else r0)
      in if req_max_output r1 = None \<and> target = Messages then r1\<lparr>req_max_output := Some default_max\<rparr> else r1)"

definition ConvertRequest :: "string \<Rightarrow> string \<Rightarrow> string \<Rightarrow> string \<Rightarrow> int \<Rightarrow> go_error + string" where
  "ConvertRequest body source target upstream_model default_max =
     bindE (DecodeRequest body source) (\<lambda>request.
     EncodeRequest (retarget request source target upstream_model default_max) target)"

end
