(* ===== verification/CallIds.thy ===== *)
theory CallIds
  imports EncodeRequest
begin

text \<open>
  The renaming of long call ids in requests for the Responses API: it is one injective
  function for the whole request, leaves short ids alone and yields short ids only.

  The interface is \<open>allocator\<close>: an operation that gives every key a value when the key is
  first met and the same value from then on.
\<close>

section \<open>Allocators\<close>

locale allocator =
  fixes alloc :: "'k \<Rightarrow> 's \<Rightarrow> 'v \<times> 's"
    and assigned :: "'s \<Rightarrow> 'k \<Rightarrow> 'v option"
    and keys :: "'k set"
    and inv :: "'s \<Rightarrow> bool"
  assumes alloc_inv: "inv s \<Longrightarrow> k \<in> keys \<Longrightarrow> inv (snd (alloc k s))"
    and alloc_assigned: "inv s \<Longrightarrow> k \<in> keys \<Longrightarrow> assigned (snd (alloc k s)) k = Some (fst (alloc k s))"
    and alloc_keeps: "inv s \<Longrightarrow> k \<in> keys \<Longrightarrow> assigned s k' = Some v \<Longrightarrow> assigned (snd (alloc k s)) k' = Some v"
    and inv_inj: "inv s \<Longrightarrow> assigned s k = Some v \<Longrightarrow> assigned s k' = Some v \<Longrightarrow> k \<in> keys \<Longrightarrow> k' \<in> keys \<Longrightarrow> k = k'"
begin

fun allocs :: "'k list \<Rightarrow> 's \<Rightarrow> 'v list \<times> 's" where
  "allocs [] s = ([], s)"
| "allocs (k # ks) s = (let (v, s') = alloc k s; (vs, s'') = allocs ks s' in (v # vs, s''))"

lemma allocs_inv: "inv s \<Longrightarrow> set ks \<subseteq> keys \<Longrightarrow> inv (snd (allocs ks s))"
  by (induction ks arbitrary: s) (auto simp: case_prod_unfold Let_def alloc_inv)

lemma allocs_keeps:
  "inv s \<Longrightarrow> set ks \<subseteq> keys \<Longrightarrow> assigned s k' = Some v \<Longrightarrow> assigned (snd (allocs ks s)) k' = Some v"
  by (induction ks arbitrary: s) (auto simp: case_prod_unfold Let_def alloc_inv alloc_keeps)

lemma allocs_append:
  "allocs (ks @ ls) s = (let (vs, s') = allocs ks s; (ws, s'') = allocs ls s' in (vs @ ws, s''))"
  by (induction ks arbitrary: s) (auto simp: case_prod_unfold Let_def)

text \<open>The values handed out are those of one function: what is assigned in the end.\<close>

lemma allocs_final:
  "inv s \<Longrightarrow> set ks \<subseteq> keys \<Longrightarrow>
   map Some (fst (allocs ks s)) = map (assigned (snd (allocs ks s))) ks"
proof (induction ks arbitrary: s)
  case (Cons k ks)
  then have "inv (snd (alloc k s))" and "assigned (snd (alloc k s)) k = Some (fst (alloc k s))"
    by (auto simp: alloc_inv alloc_assigned)
  with Cons allocs_keeps show ?case by (auto simp: case_prod_unfold Let_def)
qed simp

lemma allocs_inj:
  assumes "inv s" and "set ks \<subseteq> keys"
  shows "inj_on (\<lambda>k. the (assigned (snd (allocs ks s)) k)) (set ks)"
proof (rule inj_onI)
  fix k k'
  let ?t = "snd (allocs ks s)"
  assume k: "k \<in> set ks" "k' \<in> set ks" and eq: "the (assigned ?t k) = the (assigned ?t k')"
  from allocs_final [OF assms] have some: "assigned ?t x \<noteq> None" if "x \<in> set ks" for x
    using that by (metis in_set_conv_nth length_map not_Some_eq nth_map)
  with k eq obtain v where "assigned ?t k = Some v" "assigned ?t k' = Some v"
    by (metis option.exhaust_sel)
  with inv_inj [OF allocs_inv [OF assms]] k assms(2) show "k = k'" by blast
qed

end

section \<open>Renaming call ids\<close>

definition short_id :: "string \<Rightarrow> bool" where
  "short_id i \<longleftrightarrow> rune_count i \<le> 64"

definition assigned_id :: "string set \<Rightarrow> call_ids \<Rightarrow> string \<Rightarrow> string option" where
  "assigned_id used s i = (if short_id i then Some i else map_of (ids_map s) i)"

definition ids_inv :: "string set \<Rightarrow> call_ids \<Rightarrow> bool" where
  "ids_inv used s \<longleftrightarrow>
     (set (ids_used s) = used \<union> ran (map_of (ids_map s)) \<and>
     used \<inter> ran (map_of (ids_map s)) = {} \<and>
     dom (map_of (ids_map s)) \<subseteq> used \<and>
     (\<forall>i j v. map_of (ids_map s) i = Some v \<longrightarrow> map_of (ids_map s) j = Some v \<longrightarrow> i = j) \<and>
     (\<forall>v \<in> ran (map_of (ids_map s)). \<exists>n < ids_next s. v = mc_id n) \<and>
     (\<forall>n. 1 \<le> n \<longrightarrow> n < ids_next s \<longrightarrow> mc_id n \<in> set (ids_used s)) \<and> 1 \<le> ids_next s)"

lemma fresh_call_fresh: "mc_id (fresh_call used n) \<notin> set used"
  by (induction used n rule: fresh_call.induct) (subst fresh_call.simps, simp)

lemma fresh_call_ge: "n \<le> fresh_call used n"
proof (induction used n rule: fresh_call.induct)
  case (1 used n)
  then show ?case by (subst fresh_call.simps) auto
qed

lemma fresh_call_least: "n \<le> m \<Longrightarrow> m < fresh_call used n \<Longrightarrow> mc_id m \<in> set used"
proof (induction used n rule: fresh_call.induct)
  case (1 used n)
  show ?case
  proof (cases "mc_id n \<in> set used")
    case True
    then have "fresh_call used n = fresh_call used (Suc n)" by (subst fresh_call.simps) simp
    with 1 True show ?thesis by (cases "m = n") auto
  next
    case False
    then have "fresh_call used n = n" by (subst fresh_call.simps) simp
    with 1 show ?thesis by simp
  qed
qed

lemma callID_long:
  assumes "\<not> short_id i" and "map_of (ids_map s) i = None"
  shows "callID i s = (mc_id (fresh_call (ids_used s) (ids_next s)),
    \<lparr>ids_used = mc_id (fresh_call (ids_used s) (ids_next s)) # ids_used s,
     ids_map = put i (mc_id (fresh_call (ids_used s) (ids_next s))) (ids_map s),
     ids_next = Suc (fresh_call (ids_used s) (ids_next s))\<rparr>)"
  using assms by (simp add: callID_def short_id_def Let_def)

lemma callID_known:
  "short_id i \<Longrightarrow> callID i s = (i, s)"
  "\<not> short_id i \<Longrightarrow> map_of (ids_map s) i = Some v \<Longrightarrow> callID i s = (v, s)"
  by (simp_all add: callID_def short_id_def)

lemma ran_map_of_put:
  "map_of m k = None \<Longrightarrow> ran (map_of (put k v m)) = insert v (ran (map_of m))"
  by (auto simp: ran_def) (metis option.distinct(1))

lemma ids_inv_callID:
  assumes inv: "ids_inv used s" and i: "i \<in> used"
  shows "ids_inv used (snd (callID i s))"
proof (cases "short_id i \<or> map_of (ids_map s) i \<noteq> None")
  case True
  with inv callID_known show ?thesis by (cases "short_id i") auto
next
  case False
  let ?n = "fresh_call (ids_used s) (ids_next s)"
  let ?m = "map_of (ids_map s)"
  from False have none: "?m i = None" by simp
  have u: "set (ids_used s) = used \<union> ran ?m" and d: "used \<inter> ran ?m = {}" and dm: "dom ?m \<subseteq> used"
    and inj: "\<And>i j v. ?m i = Some v \<Longrightarrow> ?m j = Some v \<Longrightarrow> i = j"
    and nums: "\<And>v. v \<in> ran ?m \<Longrightarrow> \<exists>n < ids_next s. v = mc_id n"
    and low: "\<And>n. 1 \<le> n \<Longrightarrow> n < ids_next s \<Longrightarrow> mc_id n \<in> set (ids_used s)" and one: "1 \<le> ids_next s"
    using inv unfolding ids_inv_def by blast+
  have fresh: "mc_id ?n \<notin> used \<union> ran ?m" using fresh_call_fresh u by blast
  have ge: "ids_next s \<le> ?n" by (rule fresh_call_ge)
  have r: "ran (map_of (put i (mc_id ?n) (ids_map s))) = insert (mc_id ?n) (ran ?m)"
    by (rule ran_map_of_put [OF none])
  have low': "mc_id n \<in> insert (mc_id ?n) (set (ids_used s))" if "1 \<le> n" "n < Suc ?n" for n
  proof (cases "n < ids_next s")
    case True
    with low that show ?thesis by simp
  next
    case False
    with that fresh_call_least [of "ids_next s" n "ids_used s"] show ?thesis
      by (cases "n = ?n") auto
  qed
  have inj': "j = k" if "map_of (put i (mc_id ?n) (ids_map s)) j = Some v"
    "map_of (put i (mc_id ?n) (ids_map s)) k = Some v" for j k v
    using that inj fresh by (auto simp: ranI split: if_splits)
  have nums': "\<exists>n < Suc ?n. v = mc_id n" if "v \<in> insert (mc_id ?n) (ran ?m)" for v
    using that nums ge by (metis insert_iff less_Suc_eq less_le_trans)
  have "dom (map_of (put i (mc_id ?n) (ids_map s))) \<subseteq> used"
    using dm i by (auto simp: dom_def)
  with False u d fresh low' inj' nums' show ?thesis
    by (simp add: ids_inv_def callID_long r del: map_of_put)
qed

lemma assigned_id_keeps:
  "assigned_id used s j = Some v \<Longrightarrow> assigned_id used (snd (callID i s)) j = Some v"
  by (auto simp: assigned_id_def callID_def short_id_def Let_def split: if_splits option.splits)

lemma assigned_id_callID: "assigned_id used (snd (callID i s)) i = Some (fst (callID i s))"
  by (auto simp: assigned_id_def callID_def short_id_def Let_def split: option.splits)

lemma assigned_id_inj:
  assumes inv: "ids_inv used s" and "assigned_id used s i = Some v" "assigned_id used s j = Some v"
    and "i \<in> used" "j \<in> used"
  shows "i = j"
proof -
  have d: "used \<inter> ran (map_of (ids_map s)) = {}" using inv by (simp add: ids_inv_def)
  have "\<And>v. map_of (ids_map s) i = Some v \<Longrightarrow> map_of (ids_map s) j = Some v \<Longrightarrow> i = j"
    using inv unfolding ids_inv_def by blast
  moreover have "map_of (ids_map s) k = Some l \<Longrightarrow> l \<notin> used" for k l
    using d by (auto simp: ran_def)
  ultimately show ?thesis using assms by (auto simp: assigned_id_def split: if_splits)
qed

interpretation ids: allocator callID "assigned_id used" used "ids_inv used" for used
  by unfold_locales (auto intro: ids_inv_callID assigned_id_callID assigned_id_keeps assigned_id_inj)

section \<open>Requests\<close>

lemma initial_ids_inv: "ids_inv (set (used_ids (req_messages r))) (initial_ids r)"
  by (auto simp: ids_inv_def initial_ids_def)

text \<open>The items of a message under a given renaming, and a whole input under it.\<close>

fun responses_items :: "(string \<Rightarrow> string) \<Rightarrow> block list \<Rightarrow> gval list" where
  "responses_items \<phi> [] = []"
| "responses_items \<phi> (ToolCallBlock c # bs) = function_call_item c (\<phi> (call_id c)) # responses_items \<phi> bs"
| "responses_items \<phi> (ToolResultBlock r # bs) =
     function_output_item r (\<phi> (result_call_id r)) # responses_items \<phi> bs"
| "responses_items \<phi> (_ # bs) = responses_items \<phi> bs"

definition responses_message_items :: "(string \<Rightarrow> string) \<Rightarrow> nat \<Rightarrow> message \<Rightarrow> go_error + gval list" where
  "responses_message_items \<phi> index message =
     bindE (encodeResponsesContent (msg_blocks message) (msg_role message)
              (index_path ''input'' index @ ''.content'')) (\<lambda>content.
     Inr (responses_items \<phi> (msg_blocks message) @
          (case content of None \<Rightarrow> [] | Some g \<Rightarrow> [message_item (msg_role message) g])))"

lemma encodeResponsesBlocks_state:
  "snd (encodeResponsesBlocks bs s) = snd (ids.allocs (block_ids bs) s)"
proof (induction bs arbitrary: s)
  case (Cons b bs)
  then show ?case by (cases b) (simp_all add: case_prod_unfold Let_def)
qed simp

lemma encodeResponsesBlocks_items:
  assumes "ids_inv used s" and "set (block_ids bs) \<subseteq> used"
    and "\<And>i v. assigned_id used (snd (ids.allocs (block_ids bs) s)) i = Some v \<Longrightarrow> \<phi> i = v"
  shows "fst (encodeResponsesBlocks bs s) = responses_items \<phi> bs"
  using assms
proof (induction bs s rule: encodeResponsesBlocks.induct)
  case (2 c bs s)
  let ?s' = "snd (callID (call_id c) s)"
  have inv: "ids_inv used ?s'" using "2.prems" by (simp add: ids_inv_callID)
  have "\<phi> (call_id c) = fst (callID (call_id c) s)"
    using "2.prems" ids.allocs_keeps [OF inv _ assigned_id_callID]
    by (auto simp: case_prod_unfold Let_def)
  moreover have "fst (encodeResponsesBlocks bs ?s') = responses_items \<phi> bs"
    using "2.prems" inv by (intro "2.IH" [OF refl prod.collapse]) (auto simp: case_prod_unfold Let_def)
  ultimately show ?case by (simp add: case_prod_unfold Let_def)
next
  case (3 r bs s)
  let ?s' = "snd (callID (result_call_id r) s)"
  have inv: "ids_inv used ?s'" using "3.prems" by (simp add: ids_inv_callID)
  have "\<phi> (result_call_id r) = fst (callID (result_call_id r) s)"
    using "3.prems" ids.allocs_keeps [OF inv _ assigned_id_callID]
    by (auto simp: case_prod_unfold Let_def)
  moreover have "fst (encodeResponsesBlocks bs ?s') = responses_items \<phi> bs"
    using "3.prems" inv by (intro "3.IH" [OF refl prod.collapse]) (auto simp: case_prod_unfold Let_def)
  ultimately show ?case by (simp add: case_prod_unfold Let_def)
qed simp_all

lemma used_ids_simps [simp]:
  "used_ids [] = []" "used_ids (m # ms) = block_ids (msg_blocks m) @ used_ids ms"
  by (simp_all add: used_ids_def)

lemma encodeResponsesMessages_items:
  assumes "ids_inv used s" and "set (used_ids ms) \<subseteq> used"
    and "\<And>i v. assigned_id used (snd (ids.allocs (used_ids ms) s)) i = Some v \<Longrightarrow> \<phi> i = v"
  shows "foldE encodeResponsesMessage (enumerate n ms) (acc, s) =
    bindE (mapE_from n (responses_message_items \<phi>) ms)
      (\<lambda>items. Inr (acc @ concat items, snd (ids.allocs (used_ids ms) s)))"
  using assms
proof (induction ms arbitrary: n acc s)
  case Nil
  then show ?case by simp
next
  case (Cons m ms)
  let ?ids = "block_ids (msg_blocks m)"
  let ?s' = "snd (ids.allocs ?ids s)"
  have inv: "ids_inv used ?s'" using Cons.prems by (simp add: ids.allocs_inv)
  have rest: "snd (ids.allocs (used_ids (m # ms)) s) = snd (ids.allocs (used_ids ms) ?s')"
    by (simp add: ids.allocs_append case_prod_unfold Let_def)
  have last: "\<phi> i = v" if "assigned_id used (snd (ids.allocs (used_ids ms) ?s')) i = Some v" for i v
    by (rule Cons.prems(3)) (unfold rest, rule that)
  have late: "\<phi> i = v" if "assigned_id used ?s' i = Some v" for i v
    using Cons.prems(2,3) ids.allocs_keeps [OF inv _ that, of "used_ids ms"] unfolding rest by simp
  have "fst (encodeResponsesBlocks (msg_blocks m) s) = responses_items \<phi> (msg_blocks m)"
    using Cons.prems(2) by (intro encodeResponsesBlocks_items [OF Cons.prems(1) _ late]) simp_all
  then have items: "encodeResponsesBlocks (msg_blocks m) s = (responses_items \<phi> (msg_blocks m), ?s')"
    by (simp add: prod_eq_iff encodeResponsesBlocks_state)
  have IH: "foldE encodeResponsesMessage (enumerate (Suc n) ms) (acc', ?s') =
      bindE (mapE_from (Suc n) (responses_message_items \<phi>) ms)
        (\<lambda>items. Inr (acc' @ concat items, snd (ids.allocs (used_ids ms) ?s')))" for acc'
    using Cons.prems(2) by (intro Cons.IH [OF inv _ last]) simp_all
  have "encodeResponsesMessage (n, m) (acc, s) =
      bindE (responses_message_items \<phi> n m) (\<lambda>xs. Inr (acc @ xs, ?s'))"
    by (simp add: encodeResponsesMessage_def responses_message_items_def bindE_assoc items)
  then show ?case unfolding rest by (simp add: bindE_assoc IH)
qed

text \<open>The renaming of a request: what its ids are mapped to once all of it is encoded.\<close>

definition final_ids :: "request \<Rightarrow> call_ids" where
  "final_ids r = snd (ids.allocs (used_ids (req_messages r)) (initial_ids r))"

definition renaming :: "request \<Rightarrow> string \<Rightarrow> string" where
  "renaming r i = the (assigned_id (set (used_ids (req_messages r))) (final_ids r) i)"

lemma final_ids_inv: "ids_inv (set (used_ids (req_messages r))) (final_ids r)"
  unfolding final_ids_def by (rule ids.allocs_inv [OF initial_ids_inv]) simp

lemma renaming_inj: "inj_on (renaming r) (set (used_ids (req_messages r)))"
  using ids.allocs_inj [OF initial_ids_inv [of r] subset_refl]
  by (simp add: renaming_def [abs_def] final_ids_def)

lemma renaming_short: "short_id i \<Longrightarrow> renaming r i = i"
  by (simp add: renaming_def assigned_id_def)

lemma renaming_long:
  assumes "i \<in> set (used_ids (req_messages r))" and "\<not> short_id i"
  obtains n where "renaming r i = mc_id n" and "n \<le> 2 * length (used_ids (req_messages r))"
    and "mc_id n \<notin> set (used_ids (req_messages r))"
proof -
  let ?u = "used_ids (req_messages r)" and ?t = "final_ids r"
  let ?m = "map_of (ids_map ?t)"
  have inv: "ids_inv (set ?u) ?t" by (rule final_ids_inv)
  have "map Some (fst (ids.allocs ?u (initial_ids r))) = map (assigned_id (set ?u) ?t) ?u"
    unfolding final_ids_def by (rule ids.allocs_final [OF initial_ids_inv subset_refl])
  with assms(1) have "assigned_id (set ?u) ?t i \<noteq> None"
    by (metis in_set_conv_nth length_map nth_map option.distinct(1))
  with assms(2) obtain v where v: "?m i = Some v" and phi: "renaming r i = v"
    by (auto simp: assigned_id_def renaming_def)
  then have ran: "v \<in> ran ?m" by (simp add: ranI)
  with inv obtain n where n: "n < ids_next ?t" "v = mc_id n" unfolding ids_inv_def by blast
  have sub: "mc_id ` {1..<ids_next ?t} \<subseteq> set ?u \<union> ran ?m"
  proof (rule image_subsetI)
    fix k
    assume "k \<in> {1..<ids_next ?t}"
    moreover have "\<forall>n. 1 \<le> n \<longrightarrow> n < ids_next ?t \<longrightarrow> mc_id n \<in> set (ids_used ?t)"
      using inv unfolding ids_inv_def by blast
    ultimately have "mc_id k \<in> set (ids_used ?t)" by simp
    moreover have "set (ids_used ?t) = set ?u \<union> ran ?m" using inv by (simp add: ids_inv_def)
    ultimately show "mc_id k \<in> set ?u \<union> ran ?m" by blast
  qed
  have fin: "finite (dom ?m)" by (simp add: finite_dom_map_of)
  have im: "ran ?m = (\<lambda>k. the (?m k)) ` dom ?m" by (force simp: ran_def dom_def)
  then have fr: "finite (ran ?m)" using fin by simp
  from im have "card (ran ?m) \<le> card (dom ?m)" using fin by (simp add: card_image_le)
  also have "\<dots> \<le> card (set ?u)" using inv by (intro card_mono) (simp_all add: ids_inv_def)
  finally have c: "card (set ?u \<union> ran ?m) \<le> 2 * length ?u"
    using card_Un_le [of "set ?u" "ran ?m"] card_length [of ?u] by linarith
  have "ids_next ?t - 1 = card (mc_id ` {1..<ids_next ?t})"
    by (simp add: card_image inj_on_def)
  also have "\<dots> \<le> card (set ?u \<union> ran ?m)"
    using sub by (intro card_mono) (simp_all add: fr)
  finally have "n \<le> 2 * length ?u" using c n(1) by linarith
  moreover have "v \<notin> set ?u" using inv ran unfolding ids_inv_def by blast
  ultimately show ?thesis using that n(2) phi by blast
qed

lemma length_nat_str: "n < 10 ^ Suc k \<Longrightarrow> length (nat_str n) \<le> Suc k"
proof (induction k arbitrary: n)
  case 0
  then show ?case by (simp add: nat_str.simps)
next
  case (Suc k)
  show ?case
  proof (cases "n < 10")
    case True
    then show ?thesis by (simp add: nat_str.simps)
  next
    case False
    have "n div 10 < 10 ^ Suc k" using Suc.prems by (simp add: div_less_iff_less_mult mult.commute)
    from Suc.IH [OF this] False show ?thesis by (subst nat_str.simps) simp
  qed
qed

lemma mc_id_short:
  assumes "n < 10 ^ 56"
  shows "short_id (mc_id n)"
proof -
  have "length (nat_str n) \<le> 56" using length_nat_str [of n 55] assms by simp
  then have "length (mc_id n) \<le> 64" by (simp add: mc_id_def)
  with rune_count_le_length [of "mc_id n"] show ?thesis by (simp add: short_id_def)
qed

lemma renaming_is_short:
  assumes "i \<in> set (used_ids (req_messages r))" and "length (used_ids (req_messages r)) < 2 ^ 63"
  shows "short_id (renaming r i)"
proof (cases "short_id i")
  case False
  from renaming_long [OF assms(1) False] obtain n where
    "renaming r i = mc_id n" "n \<le> 2 * length (used_ids (req_messages r))" by blast
  moreover from this assms(2) have "n < 10 ^ 56" by simp
  ultimately show ?thesis by (simp add: mc_id_short)
qed (simp add: renaming_short)

text \<open>The encoder with its mutable tables refines the encoder that applies the renaming.\<close>

lemma encodeResponsesRequest_input:
  "foldE encodeResponsesMessage (enumerate 0 (req_messages r)) ([], initial_ids r) =
   bindE (mapE (responses_message_items (renaming r)) (req_messages r))
     (\<lambda>items. Inr (concat items, final_ids r))"
  using encodeResponsesMessages_items [OF initial_ids_inv subset_refl, of r "renaming r" 0 "[]"]
  by (simp add: renaming_def final_ids_def)

end
