(* ===== verification/RequestViews.thy ===== *)
theory RequestViews
  imports CallIds
begin

text \<open>
  What survives a conversion. \<open>request_ok\<close> describes the canonical requests that a target
  protocol can carry, \<open>messages_view\<close> the part of a request the Messages protocol has a place
  for; the main lemma says that decoding an encoded Messages request gives exactly the view.
  The views of the other two protocols are in \<^verbatim>\<open>ChatView\<close> and \<^verbatim>\<open>ResponsesView\<close>.
\<close>

section \<open>Well-formed requests\<close>

definition args_ok :: "raw_message \<Rightarrow> bool" where
  "args_ok raw \<longleftrightarrow> (\<exists>j. raw = Some j \<and> wf_json j \<and> normalizeArguments (Some j) = Some j)"

definition call_ok :: "tool_call \<Rightarrow> bool" where
  "call_ok c \<longleftrightarrow> args_ok (call_arguments c) \<and> call_upstream_id c = []"

definition img_ok :: "string \<Rightarrow> image \<Rightarrow> bool" where
  "img_ok target img \<longleftrightarrow> image_ok img \<and> canonical_source (img_source img) \<and> representable target img \<and>
     (src_kind (img_source img) = ImageBase64 \<longrightarrow> src_data (img_source img) \<noteq> [])"

fun block_ok :: "string \<Rightarrow> block \<Rightarrow> bool" where
  "block_ok target (ImageBlock img) = img_ok target img"
| "block_ok target (ToolCallBlock c) = call_ok c"
| "block_ok target _ = True"

definition message_ok :: "string \<Rightarrow> message \<Rightarrow> bool" where
  "message_ok target m \<longleftrightarrow> msg_role m \<in> {''user'', ''assistant''} \<and> list_all (block_ok target) (msg_blocks m)"

definition raw_wf :: "raw_message \<Rightarrow> bool" where
  "raw_wf raw \<longleftrightarrow> (\<forall>j. raw = Some j \<longrightarrow> wf_json j)"

definition float_ok :: "float64 option \<Rightarrow> bool" where
  "float_ok f \<longleftrightarrow> (\<forall>l. f = Some l \<longrightarrow> valid_number l)"

definition request_ok :: "string \<Rightarrow> request \<Rightarrow> bool" where
  "request_ok target r \<longleftrightarrow>
     req_model r \<noteq> [] \<and> list_all (message_ok target) (req_messages r) \<and>
     list_all (\<lambda>t. raw_wf (tool_parameters t)) (req_tools r) \<and> choice_ok (req_tool_choice r) \<and>
     (\<forall>i. req_max_output r = Some i \<longrightarrow> in_int64 i) \<and>
     float_ok (req_temperature r) \<and> float_ok (req_top_p r)"

section \<open>What each protocol carries\<close>

definition joined :: "string list \<Rightarrow> string list" where
  "joined xs = (if xs = [] then [] else [join blank_line xs])"

definition parameters_or_object :: "raw_message \<Rightarrow> raw_message" where
  "parameters_or_object raw = (case raw of None \<Rightarrow> Some (JObj []) | Some j \<Rightarrow> Some j)"

fun messages_block_view :: "block \<Rightarrow> block list" where
  "messages_block_view (ReasoningBlock t) = []"
| "messages_block_view (ImageBlock img) = [ImageBlock (img\<lparr>img_detail := None\<rparr>)]"
| "messages_block_view b = [b]"

definition message_view :: "message \<Rightarrow> message" where
  "message_view m = message_of (msg_role m) (concat (map messages_block_view (msg_blocks m)))"

definition messages_tool_view :: "tool \<Rightarrow> tool" where
  "messages_tool_view t = \<lparr>tool_kind = ''function'', tool_name = tool_name t,
     tool_description = tool_description t, tool_parameters = parameters_or_object (tool_parameters t),
     tool_strict = None\<rparr>"

definition messages_view :: "request \<Rightarrow> request" where
  "messages_view r =
     \<lparr>req_model = req_model r, req_instructions = joined (req_instructions r),
      req_messages = map message_view (req_messages r), req_tools = map messages_tool_view (req_tools r),
      req_tool_choice = req_tool_choice r, req_stream = req_stream r, req_parallel = False,
      req_parallel_set = False, req_max_output = req_max_output r, req_temperature = req_temperature r,
      req_top_p = req_top_p r, req_stop = req_stop r, req_effort = req_effort r\<rparr>"

section \<open>Maps with optional entries\<close>

lemma map_of_common:
  "max_field \<notin> {''temperature'', ''top_p'', ''stop''} \<Longrightarrow>
   map_of (applyCommonRequestFields m r max_field) k =
     (if k = ''stop'' \<and> length (req_stop r) = 1 then Some (GStr (hd (req_stop r)))
      else if k = ''stop'' \<and> length (req_stop r) > 1 then Some (GArr (map GStr (req_stop r)))
      else if k = ''top_p'' \<and> req_top_p r \<noteq> None then Some (GFloat (the (req_top_p r)))
      else if k = ''temperature'' \<and> req_temperature r \<noteq> None then Some (GFloat (the (req_temperature r)))
      else if k = max_field \<and> req_max_output r \<noteq> None then Some (GInt (the (req_max_output r)))
      else map_of m k)"
  by (auto simp: applyCommonRequestFields_def Let_def)

lemma api_map_common [simp]:
  "api_map m \<Longrightarrow> plain_name max_field \<Longrightarrow> api_map (applyCommonRequestFields m r max_field)"
  by (simp add: applyCommonRequestFields_def Let_def)

lemma map_of_delete [simp]: "map_of (AList.delete k m) k' = (if k' = k then None else map_of m k')"
  by (simp add: delete_conv')

lemma parse_int64_itoa' [simp]: "in_int64 i \<Longrightarrow> dec_int cur (JNum (itoa i)) = (i, True)"
  by (simp add: parse_int64_itoa)

lemma dec_elems_append:
  "dec_elems dec (xs @ ys) =
     (let (as, ok) = dec_elems dec xs; (bs, ok') = dec_elems dec ys in (as @ bs, ok \<and> ok'))"
  by (induction xs) (auto simp: Let_def case_prod_unfold)

lemma mapE_from_append:
  "mapE_from n f (xs @ ys) =
     bindE (mapE_from n f xs) (\<lambda>as. bindE (mapE_from (n + length xs) f ys) (\<lambda>bs. Inr (as @ bs)))"
  by (induction xs arbitrary: n) (auto simp: bindE_assoc bindE_def split: sum.splits)

lemma decodeMessagesImage_encoded:
  assumes "img_ok Messages img" and "encodeImage (Some img) Messages p = Inr g"
  obtains m where "g = GMap [(''type'', GStr ''image''), (''source'', GMap m)]"
    and "\<And>q. decodeMessagesImage (Some (JObj (marshal_members m))) q = Inr (img\<lparr>img_detail := None\<rparr>)"
proof -
  obtain s d where img: "img = \<lparr>img_source = s, img_detail = d\<rparr>" by (cases img) auto
  from assms have c: "canonical_source s" and "source_ok s" and r: "d = None \<or> d = Some ''auto''"
    by (auto simp: img_ok_def image_ok_def representable_def img)
  have d: "validateImageDetail d q = Inr ()" for q using r by (auto simp: detail_ok_def)
  show ?thesis
  proof (cases "src_kind s = ImageURL")
    case True
    with assms(2) r have g: "g = GMap [(''type'', GStr ''image''),
        (''source'', GMap [(''type'', GStr ''url''), (''url'', GStr (src_url s))])]"
      by (auto simp: encodeImage_def img Let_def detail_ok_def)
    have "parseImageURL (src_url s) q = Inr s" for q
      using parseImageURL_imageURL [OF c] by (simp add: imageURL_def True)
    moreover have "src_url s \<noteq> []" using True c by (auto simp: canonical_source_def source_ok_def)
    ultimately show ?thesis using g
      by (intro that) (auto simp: decodeMessagesImage_def messages_image_struct_def img)
  next
    case False
    with c have k: "src_kind s = ImageBase64" by (auto simp: canonical_source_def)
    with assms(2) r have g: "g = GMap [(''type'', GStr ''image''),
        (''source'', GMap [(''type'', GStr ''base64''), (''media_type'', GStr (src_media_type s)),
           (''data'', GStr (src_data s))])]"
      by (auto simp: encodeImage_def img Let_def detail_ok_def)
    have "s = no_source\<lparr>src_kind := ImageBase64, src_media_type := src_media_type s, src_data := src_data s\<rparr>"
      and "has_prefix (to_lower (src_media_type s)) ''image/''"
      and "std_base64_ok (src_data s) \<or> raw_base64_ok (src_data s)"
      using c k by (auto simp: canonical_source_def source_ok_def)
    moreover have v: "validateBase64Image (src_media_type s) (src_data s) q = Inr ()" for q
      using calculation(2,3) by simp
    moreover have "src_media_type s \<noteq> []" using calculation(2) by (auto simp: has_prefix_def)
    ultimately show ?thesis using g
      using assms(1) k by (intro that) (auto simp: decodeMessagesImage_def messages_image_struct_def img img_ok_def v)
  qed
qed

lemma decodeMessagesBlock_encoded:
  assumes "block_ok Messages b" and "encodeMessagesBlock p i b = Inr gs"
  shows "\<exists>ms. dec_elems dec_map (map marshal gs) = (ms, True) \<and>
    (\<forall>n. mapE_from n (\<lambda>i. decodeMessagesBlock (index_path q i)) ms = Inr (map Some (messages_block_view b)))"
proof (cases b)
  case (TextBlock t)
  then show ?thesis using assms
    by (auto simp: encodeMessagesBlock_def text_part_def decodeMessagesBlock_def)
next
  case (ReasoningBlock t)
  then show ?thesis using assms by (simp add: encodeMessagesBlock_def)
next
  case (ToolCallBlock c)
  then show ?thesis using assms
    by (auto simp: encodeMessagesBlock_def decodeMessagesBlock_def rawOrObject_def call_ok_def args_ok_def)
next
  case (ToolResultBlock x)
  then show ?thesis using assms
    by (auto simp: encodeMessagesBlock_def decodeMessagesBlock_def decodeAnthropicContent_def)
next
  case (ImageBlock img)
  with assms obtain g where ok: "img_ok Messages img" and g: "encodeImage (Some img) Messages (index_path p i) = Inr g"
    and gs: "gs = [g]" by (auto simp: encodeMessagesBlock_def bindE_eq_Inr)
  from decodeMessagesImage_encoded [OF ok g] obtain m where "g = GMap [(''type'', GStr ''image''), (''source'', GMap m)]"
    and "\<And>q. decodeMessagesImage (Some (JObj (marshal_members m))) q = Inr (img\<lparr>img_detail := None\<rparr>)"
    by blast
  with gs ImageBlock show ?thesis by (auto simp: decodeMessagesBlock_def)
qed


lemma mapE_from_ConsE:
  assumes "mapE_from n f (x # xs) = Inr ys"
  obtains y zs where "f n x = Inr y" and "mapE_from (Suc n) f xs = Inr zs" and "ys = y # zs"
  using assms by (auto elim!: bindE_InrE)

lemma decodeMessagesBlocks_encoded:
  assumes "list_all (block_ok Messages) bs" and "mapE_from k (encodeMessagesBlock p) bs = Inr gss"
  shows "\<exists>ms. dec_elems dec_map (map marshal (concat gss)) = (ms, True) \<and>
    (\<forall>n. mapE_from n (\<lambda>i. decodeMessagesBlock (index_path q i)) ms =
          Inr (map Some (concat (map messages_block_view bs))))"
  using assms
proof (induction bs arbitrary: k gss)
  case Nil
  then show ?case by simp
next
  case (Cons b bs)
  from Cons.prems(2) obtain gs hs where g: "encodeMessagesBlock p k b = Inr gs"
    and h: "mapE_from (Suc k) (encodeMessagesBlock p) bs = Inr hs" and gss: "gss = gs # hs"
    by (rule mapE_from_ConsE)
  from Cons.prems(1) decodeMessagesBlock_encoded [OF _ g] obtain ms1 where
    1: "dec_elems dec_map (map marshal gs) = (ms1, True)"
      "\<And>n. mapE_from n (\<lambda>i. decodeMessagesBlock (index_path q i)) ms1 = Inr (map Some (messages_block_view b))"
    by fastforce
  from Cons.prems(1) Cons.IH [OF _ h] obtain ms2 where
    2: "dec_elems dec_map (map marshal (concat hs)) = (ms2, True)"
      "\<And>n. mapE_from n (\<lambda>i. decodeMessagesBlock (index_path q i)) ms2 =
        Inr (map Some (concat (map messages_block_view bs)))"
    by fastforce
  have "dec_elems dec_map (map marshal (concat gss)) = (ms1 @ ms2, True)"
    by (simp add: gss dec_elems_append 1 2)
  moreover have "mapE_from n (\<lambda>i. decodeMessagesBlock (index_path q i)) (ms1 @ ms2) =
      Inr (map Some (concat (map messages_block_view (b # bs))))" for n
    by (simp add: mapE_from_append 1 2)
  ultimately show ?case by blast
qed

lemma somes_map_Some' [simp]: "somes (map Some xs) = xs"
  using somes_map_Some [of "\<lambda>x. x" xs] by simp

lemma decodeMessagesMessage_encoded:
  assumes "message_ok Messages m" and "encodeMessagesMessage k m = Inr g"
  obtains c where "dec_struct role_content_struct (marshal g) = (c, True)"
    and "\<And>n. decodeMessagesMessage n c = Inr (message_view m)"
proof -
  from assms(2) obtain gss where
    g: "mapE (encodeMessagesBlock (index_path ''messages'' k @ ''.content'')) (msg_blocks m) = Inr gss"
    "g = GMap [(''role'', GStr (msg_role m)), (''content'', GArr (concat gss))]"
    by (auto simp: encodeMessagesMessage_def bindE_eq_Inr)
  from assms(1) have "list_all (block_ok Messages) (msg_blocks m)" and r: "msg_role m \<in> {''user'', ''assistant''}"
    by (simp_all add: message_ok_def)
  note dec = decodeMessagesBlocks_encoded [OF this(1) g(1)]
  show ?thesis
  proof (rule that)
    show "dec_struct role_content_struct (marshal g) =
        ((msg_role m, Some (JArr (map marshal (concat gss)))), True)"
      by (simp add: g(2) role_content_struct_def)
    fix n
    from dec [where q = "index_path ''messages'' n @ ''.content''"] r
    show "decodeMessagesMessage n (msg_role m, Some (JArr (map marshal (concat gss)))) = Inr (message_view m)"
      by (auto simp: decodeMessagesMessage_def decodeMessagesContent_def message_view_def)
  qed
qed

lemma decodeMessagesMessages_encoded:
  assumes "list_all (message_ok Messages) ms" and "mapE_from k encodeMessagesMessage ms = Inr gs"
  obtains cs where "dec_elems (dec_struct role_content_struct) (map marshal gs) = (cs, True)"
    and "mapE_from k decodeMessagesMessage cs = Inr (map message_view ms)"
  using assms
proof (induction ms arbitrary: k gs thesis)
  case Nil
  then show ?case by simp
next
  case (Cons m ms)
  from Cons.prems(3) obtain h hs where h: "encodeMessagesMessage k m = Inr h"
    and hs: "mapE_from (Suc k) encodeMessagesMessage ms = Inr hs" and gs: "gs = h # hs"
    by (rule mapE_from_ConsE)
  from Cons.prems(2) have ok: "message_ok Messages m" "list_all (message_ok Messages) ms" by simp_all
  from decodeMessagesMessage_encoded [OF ok(1) h] obtain c where
    c: "dec_struct role_content_struct (marshal h) = (c, True)"
      "\<And>n. decodeMessagesMessage n c = Inr (message_view m)" by blast
  from Cons.IH [OF _ ok(2) hs] obtain cs where
    cs: "dec_elems (dec_struct role_content_struct) (map marshal hs) = (cs, True)"
      "mapE_from (Suc k) decodeMessagesMessage cs = Inr (map message_view ms)" by blast
  show ?case by (rule Cons.prems(1) [of "c # cs"]) (simp_all add: gs c cs)
qed


lemma foldE_append_map:
  assumes "\<And>x acc. x \<in> set xs \<Longrightarrow> f x acc = Inr (acc @ [h x])"
  shows "foldE f xs acc = Inr (acc @ map h xs)"
  using assms by (induction xs arbitrary: acc) simp_all

lemma marshal_rawOrObject [simp]: "marshal (rawOrObject raw) = the (parameters_or_object raw)"
  by (simp add: rawOrObject_def parameters_or_object_def split: option.splits)

lemma the_parameters [simp]: "Some (the (parameters_or_object raw)) = parameters_or_object raw"
  by (simp add: parameters_or_object_def split: option.splits)

lemma decodeMessagesTools_encoded:
  "decodeMessagesTools (Some (JArr (map (\<lambda>t. marshal (messages_tool_value t)) ts))) [] =
   Inr (map messages_tool_view ts)"
proof -
  let ?d = "\<lambda>t. \<lparr>mt_name = tool_name t, mt_description = tool_description t,
    mt_schema = parameters_or_object (tool_parameters t), mt_type = []\<rparr>"
  have "dec_elems (dec_struct messages_tool_struct) (map (\<lambda>t. marshal (messages_tool_value t)) ts) =
      (map ?d ts, True)"
    by (rule dec_elems_map) (simp add: messages_tool_value_def messages_tool_struct_def)
  moreover have "foldE (\<lambda>source destination.
          if mt_type source \<noteq> [] \<and> mt_type source \<noteq> ''custom'' then
            Inl (Errorf ''unsupported hosted Messages tool type %q'' [mt_type source])
          else Inr (destination @ [\<lparr>tool_kind = ''function'', tool_name = mt_name source,
                 tool_description = mt_description source, tool_parameters = mt_schema source,
                 tool_strict = None\<rparr>])) (map ?d ts) [] = Inr (map messages_tool_view ts)"
    by (induction ts rule: rev_induct) (simp_all add: foldE_append messages_tool_view_def)
  ultimately show ?thesis by (simp add: decodeMessagesTools_def)
qed

lemma dec_elems_strings [simp]: "dec_elems (dec_string []) (map JStr xs) = (xs, True)"
  using dec_elems_map [of xs "dec_string []" JStr "\<lambda>x. x"] by simp

lemma map_of_put_choice [simp]:
  "map_of (put_choice c m) k = (if k = ''tool_choice'' \<and> c \<noteq> None then c else map_of m k)"
  by (simp add: put_choice_def split: option.splits)

lemma api_map_put_choice [simp]: "api_map m \<Longrightarrow> api_map (put_choice c m)"
  by (simp add: put_choice_def split: option.splits)

text \<open>Entries of a map written under a condition, decoded into pointers, strings and slices.\<close>

definition optv :: "bool \<Rightarrow> gval \<Rightarrow> gval option" where
  "optv c v = (if c then Some v else None)"

lemma f_ptr_float_opt:
  "api_map m \<Longrightarrow> plain_name k \<Longrightarrow> map_of m k = optv (f \<noteq> None) (GFloat (the f)) \<Longrightarrow>
   f_ptr_float k (marshal_members m) = (f, True)"
  by (cases f) (simp_all add: optv_def)

lemma f_ptr_int_opt:
  "api_map m \<Longrightarrow> plain_name k \<Longrightarrow> map_of m k = optv (f \<noteq> None) (GInt (the f)) \<Longrightarrow>
   (\<And>i. f = Some i \<Longrightarrow> in_int64 i) \<Longrightarrow> f_ptr_int k (marshal_members m) = (f, True)"
  by (cases f) (simp_all add: optv_def)

lemma f_raw_opt:
  "api_map m \<Longrightarrow> plain_name k \<Longrightarrow> map_of m k = optv c v \<Longrightarrow>
   f_raw k (marshal_members m) = (if c then Some (marshal v) else None, True)"
  by (simp add: optv_def)

lemma f_string_opt:
  "api_map m \<Longrightarrow> plain_name k \<Longrightarrow> map_of m k = optv (s \<noteq> []) (GStr s) \<Longrightarrow>
   f_string k (marshal_members m) = (s, True)"
  by (simp add: optv_def)

lemmas opt_fields = f_ptr_float_opt f_ptr_int_opt f_raw_opt f_string_opt

lemma encodeMessagesRequest_fields:
  assumes "encodeMessagesRequest r = Inr m" and "mapE encodeMessagesMessage (req_messages r) = Inr gs"
  shows "api_map m" and "map_of m ''model'' = Some (GStr (req_model r))"
    and "map_of m ''messages'' = Some (GArr gs)" and "map_of m ''stream'' = Some (GBool (req_stream r))"
    and "map_of m ''system'' = optv (req_instructions r \<noteq> []) (GStr (join blank_line (req_instructions r)))"
    and "map_of m ''max_tokens'' = optv (req_max_output r \<noteq> None) (GInt (the (req_max_output r)))"
    and "map_of m ''temperature'' = optv (req_temperature r \<noteq> None) (GFloat (the (req_temperature r)))"
    and "map_of m ''top_p'' = optv (req_top_p r \<noteq> None) (GFloat (the (req_top_p r)))"
    and "map_of m ''stop_sequences'' = optv (req_stop r \<noteq> []) (GArr (map GStr (req_stop r)))"
    and "map_of m ''tools'' = optv (req_tools r \<noteq> []) (GArr (map messages_tool_value (req_tools r)))"
    and "map_of m ''tool_choice'' = encodeMessagesToolChoice (req_tool_choice r)"
    and "map_of m ''output_config'' = optv (req_effort r \<noteq> []) (GMap [(''effort'', GStr (req_effort r))])"
  using assms by (auto simp: encodeMessagesRequest_def Let_def map_of_common optv_def)

lemma messages_request_roundtrip:
  assumes "request_ok Messages r" and "encodeMessagesRequest r = Inr m"
  shows "decodeMessagesRequest (marshal (GMap m)) = Inr (messages_view r)"
proof -
  from assms(2) obtain gs where gs: "mapE encodeMessagesMessage (req_messages r) = Inr gs"
    by (auto simp: encodeMessagesRequest_def bindE_eq_Inr)
  note f = encodeMessagesRequest_fields [OF assms(2) gs]
  from assms(1) have "list_all (message_ok Messages) (req_messages r)" by (simp add: request_ok_def)
  from decodeMessagesMessages_encoded [OF this gs] obtain cs where
    cs: "dec_elems (dec_struct role_content_struct) (map marshal gs) = (cs, True)"
      "mapE decodeMessagesMessage cs = Inr (map message_view (req_messages r))" .
  let ?src = "\<lparr>ms_model = req_model r, ms_system = (if req_instructions r \<noteq> [] then Some (JStr (join blank_line (req_instructions r))) else None),
     ms_messages = Some (JArr (map marshal gs)),
     ms_tools = (if req_tools r \<noteq> [] then Some (JArr (map (\<lambda>t. marshal (messages_tool_value t)) (req_tools r))) else None),
     ms_tool_choice = map_option marshal (encodeMessagesToolChoice (req_tool_choice r)),
     ms_stream = req_stream r, ms_max_tokens = req_max_output r, ms_temperature = req_temperature r,
     ms_top_p = req_top_p r, ms_stop = req_stop r, ms_effort = req_effort r\<rparr>"
  have stop: "f_slice (dec_string []) ''stop_sequences'' (marshal_members m) = (req_stop r, True)"
    by (simp add: f optv_def comp_def)
  have effort: "f_struct (f_string ''effort'') ''output_config'' (marshal_members m) = (req_effort r, True)"
    by (simp add: f optv_def field_Nil fields_of_def)
  have maxt: "f_ptr_int ''max_tokens'' (marshal_members m) = (req_max_output r, True)"
    using assms(1) by (intro f_ptr_int_opt f) (simp_all add: request_ok_def)
  have choice: "f_raw ''tool_choice'' (marshal_members m) =
      (map_option marshal (encodeMessagesToolChoice (req_tool_choice r)), True)"
    by (simp add: f split: option.splits)
  have "f_string ''model'' (marshal_members m) = (req_model r, True)"
    "f_bool ''stream'' (marshal_members m) = (req_stream r, True)"
    "f_raw ''messages'' (marshal_members m) = (Some (JArr (map marshal gs)), True)"
    by (simp_all add: f)
  then have "messages_request_struct (marshal_members m) = (?src, True)"
    unfolding messages_request_struct_def
    by (simp add: f_raw_opt [OF f(1) _ f(5)] f_raw_opt [OF f(1) _ f(10)] f_ptr_float_opt [OF f(1) _ f(7)]
      f_ptr_float_opt [OF f(1) _ f(8)] stop effort maxt choice comp_def)
  moreover have "(if raw_absent (ms_system ?src) then Inr []
      else bindE (decodeAnthropicContent (ms_system ?src) False) (\<lambda>text. Inr [text])) = Inr (joined (req_instructions r))"
    by (simp add: joined_def decodeAnthropicContent_def)
  moreover have "decodeMessagesTools (ms_tools ?src) [] = Inr (map messages_tool_view (req_tools r))"
    using decodeMessagesTools_encoded [of "req_tools r"] by (simp add: decodeMessagesTools_def)
  moreover have "decodeMessagesToolChoice (ms_tool_choice ?src) = req_tool_choice r"
    using assms(1) by (simp add: request_ok_def messages_choice_roundtrip)
  moreover have "req_model r \<noteq> []" using assms(1) by (simp add: request_ok_def)
  ultimately show ?thesis
    by (simp only: decodeMessagesRequest_def marshal_GMap dec_struct_JObj okE_simps bindE_Inr
        messages_source.simps unm_simps dec_slice_simps cs if_False messages_view_def)
qed

end
