(* ===== verification/ContentView.thy ===== *)
theory ContentView
  imports RequestViews
begin

text \<open>
  The content of a message after encoding and decoding: \<open>content_view\<close>. The texts in front of
  the first image are joined, the later ones stay apart, empty ones and everything that is
  neither text nor image disappear. The proof is made once, in the locale
  \<open>content_codec\<close> of a block decoder that reads text parts and images of one target, and
  instantiated for Chat and for the two text types of Responses.
\<close>

fun is_image :: "block \<Rightarrow> bool" where
  "is_image (ImageBlock img) = True"
| "is_image _ = False"

fun text_blocks :: "block list \<Rightarrow> string list" where
  "text_blocks [] = []"
| "text_blocks (TextBlock t # bs) = t # text_blocks bs"
| "text_blocks (_ # bs) = text_blocks bs"

definition one_text :: "string \<Rightarrow> block list" where
  "one_text t = (if t = [] then [] else [TextBlock t])"

fun keep_content :: "block list \<Rightarrow> block list" where
  "keep_content [] = []"
| "keep_content (ImageBlock img # bs) = ImageBlock img # keep_content bs"
| "keep_content (TextBlock t # bs) = one_text t @ keep_content bs"
| "keep_content (_ # bs) = keep_content bs"

definition content_view :: "block list \<Rightarrow> block list" where
  "content_view bs =
     one_text (concat (text_blocks (takeWhile (\<lambda>b. \<not> is_image b) bs))) @
     keep_content (dropWhile (\<lambda>b. \<not> is_image b) bs)"

locale content_codec =
  fixes block_dec :: "string \<Rightarrow> members \<Rightarrow> go_error + block"
    and target :: string
    and text_type :: string
  assumes text_dec: "block_dec q (marshal_members [(''type'', GStr text_type), (''text'', GStr t)]) = Inr (TextBlock t)"
    and image_dec: "img_ok target img \<Longrightarrow> encodeImage (Some img) target p = Inr g \<Longrightarrow>
      \<exists>m. g = GMap m \<and> (\<forall>q. block_dec q (marshal_members m) = Inr (ImageBlock img))"
begin

definition decodes_to :: "gval list \<Rightarrow> block list \<Rightarrow> bool" where
  "decodes_to gs bs \<longleftrightarrow> (\<exists>ms. dec_elems dec_map (map marshal gs) = (ms, True) \<and>
     (\<forall>n path. mapE_from n (\<lambda>index. block_dec (index_path path index)) ms = Inr bs))"

lemma decodes_to_Nil: "decodes_to [] []"
  by (simp add: decodes_to_def)

lemma decodes_to_append: "decodes_to gs bs \<Longrightarrow> decodes_to hs cs \<Longrightarrow> decodes_to (gs @ hs) (bs @ cs)"
  by (auto simp: decodes_to_def dec_elems_append mapE_from_append)

lemma decodes_to_text: "decodes_to [text_part text_type t] [TextBlock t]"
  by (simp add: decodes_to_def text_part_def text_dec)

lemma decodes_to_image:
  "img_ok target img \<Longrightarrow> encodeImage (Some img) target p = Inr g \<Longrightarrow> decodes_to [g] [ImageBlock img]"
  using image_dec by (fastforce simp: decodes_to_def)

lemma content_steps_image:
  assumes "foldE (content_step target text_type path) (enumerate n bs) s = Inr s'"
    and "ct_image s" and "list_all (block_ok target) bs" and "decodes_to (ct_parts s) cs"
  shows "ct_image s' \<and> decodes_to (ct_parts s') (cs @ keep_content bs)"
  using assms
proof (induction bs arbitrary: n s cs)
  case (Cons b bs)
  from Cons.prems(1) obtain u where u: "content_step target text_type path (n, b) s = Inr u"
    and rest: "foldE (content_step target text_type path) (enumerate (Suc n) bs) u = Inr s'"
    by (auto elim: bindE_InrE)
  have "ct_image u \<and> decodes_to (ct_parts u) (cs @ keep_content [b])"
    using u Cons.prems(2-) by (cases b)
      (auto simp: content_step_def one_text_def bindE_eq_Inr Let_def
        intro!: decodes_to_append decodes_to_text elim: decodes_to_image)
  with Cons.IH [OF rest, of "cs @ keep_content [b]"] Cons.prems(3) have "ct_image s' \<and> decodes_to (ct_parts s') ((cs @ keep_content [b]) @ keep_content bs)"
    by simp
  then show ?case by (cases b) simp_all
qed simp

lemma content_steps_text:
  assumes "foldE (content_step target text_type path) (enumerate n bs) s = Inr s'"
    and "\<not> ct_image s" and "ct_parts s = []" and "list_all (block_ok target) bs"
  shows "if list_ex is_image bs
    then ct_image s' \<and> decodes_to (ct_parts s')
      (one_text (ct_text s @ concat (text_blocks (takeWhile (\<lambda>b. \<not> is_image b) bs))) @
       keep_content (dropWhile (\<lambda>b. \<not> is_image b) bs))
    else \<not> ct_image s' \<and> ct_text s' = ct_text s @ concat (text_blocks bs)"
  using assms
proof (induction bs arbitrary: n s)
  case (Cons b bs)
  from Cons.prems(1) obtain u where u: "content_step target text_type path (n, b) s = Inr u"
    and rest: "foldE (content_step target text_type path) (enumerate (Suc n) bs) u = Inr s'"
    by (auto elim: bindE_InrE)
  show ?case
  proof (cases "is_image b")
    case False
    then have "\<not> ct_image u" "ct_parts u = []" "ct_text u = ct_text s @ concat (text_blocks [b])"
      using u Cons.prems(2,3) by (cases b; auto simp: content_step_def split: if_splits)+
    with Cons.IH [OF rest this(1,2)] Cons.prems(4) False show ?thesis by (cases b) (simp_all split: if_splits)
  next
    case True
    then obtain img where b: "b = ImageBlock img" by (cases b) simp_all
    have "ct_image u \<and> decodes_to (ct_parts u) (one_text (ct_text s) @ [ImageBlock img])"
      using u Cons.prems(2-) 
      by (auto simp: b content_step_def one_text_def bindE_eq_Inr Let_def
        intro: decodes_to_image decodes_to_append [OF decodes_to_text decodes_to_image, simplified])
    with content_steps_image [OF rest, of "one_text (ct_text s) @ [ImageBlock img]"] Cons.prems(4) show ?thesis by (simp add: b)
  qed
qed simp

lemma content_encoded:
  assumes "encode_content target text_type bs path = Inr c" and "list_all (block_ok target) bs"
  shows "content_blocks block_dec (map_option marshal c) q = Inr (content_view bs)"
    and "c = None \<longleftrightarrow> content_view bs = []"
proof -
  obtain s' where s': "foldE (content_step target text_type path) (enumerate 0 bs)
      \<lparr>ct_text = [], ct_parts = [], ct_image = False\<rparr> = Inr s'" and c: "c = content_result s'"
    using assms(1) by (auto simp: encode_content_def bindE_eq_Inr)
  note st = content_steps_text [OF s' _ _ assms(2), simplified]
  have no: "takeWhile (\<lambda>b. \<not> is_image b) bs = bs" "dropWhile (\<lambda>b. \<not> is_image b) bs = []"
    if "\<not> list_ex is_image bs"
    using that by (auto simp: list_ex_iff)
  have yes: "list_ex is_image bs \<Longrightarrow> keep_content (dropWhile (\<lambda>b. \<not> is_image b) bs) \<noteq> []"
  proof (induction bs)
    case (Cons b bs)
    then show ?case by (cases b) simp_all
  qed simp
  show "content_blocks block_dec (map_option marshal c) q = Inr (content_view bs)"
  proof (cases "list_ex is_image bs")
    case True
    with st show ?thesis
      by (auto simp: c content_result_def content_blocks_def decodes_to_def content_view_def)
  next
    case False
    with st show ?thesis
      by (simp add: c content_result_def content_blocks_def content_view_def one_text_def no)
  qed
  show "c = None \<longleftrightarrow> content_view bs = []"
    using st yes by (cases "list_ex is_image bs") (simp_all add: c content_result_def content_view_def one_text_def no)
qed

end

section \<open>The three providers\<close>

lemma remarshal_marshal:
  assumes "distinct (map fst m)"
  shows "remarshal (marshal_members m) = marshal_members m"
proof -
  let ?kvs = "marshal_members m"
  have fst_eq: "map fst ?kvs = sort (map fst m)"
  proof (rule sorted_distinct_set_unique)
    show "sorted (map fst ?kvs)" by (simp add: marshal_members_def)
    let ?m = "map (\<lambda>kv. (fst kv, marshal (snd kv))) m"
    have "distinct (map fst ?m)" using assms by (simp add: comp_def)
    then have "distinct ?m" and "inj_on fst (set ?m)" by (simp_all only: distinct_map)
    then show "distinct (map fst ?kvs)"
      by (simp only: marshal_members_def distinct_map distinct_sort set_sort)
    show "set (map fst ?kvs) = set (sort (map fst m))" by (simp add: marshal_members_def image_image)
  qed (use assms in simp_all)
  then have d: "distinct (map fst ?kvs)" and srt: "sorted (map fst ?kvs)" using assms by simp_all
  have "the (entry k ?kvs) = v" if "(k, v) \<in> set ?kvs" for k v
  proof -
    have "distinct (map fst (rev ?kvs))" using d by (simp flip: rev_map)
    then show ?thesis using that by (simp add: entry_def)
  qed
  then have "map (\<lambda>k. (k, the (entry k ?kvs))) (map fst ?kvs) = ?kvs"
    by (auto simp: comp_def intro!: map_idI)
  with d srt show ?thesis by (simp add: remarshal_def distinct_remdups_id sorted_sort_id)
qed

lemma img_ok_facts:
  assumes "img_ok target img"
  shows "validateImageDetail (img_detail img) q = Inr ()"
    and "parseImageURL (imageURL (img_source img)) q = Inr (img_source img)"
    and "imageURL (img_source img) \<noteq> []" and "src_kind (img_source img) \<noteq> ImageFileID"
  using assms parseImageURL_imageURL [of "img_source img"] image_ok_kind [of img]
  by (auto simp: img_ok_def imageURL_def image_ok_def source_ok_def)

interpretation chat: content_codec decodeChatBlock Chat "''text''"
proof
  fix q t
  show "decodeChatBlock q (marshal_members [(''type'', GStr ''text''), (''text'', GStr t)]) = Inr (TextBlock t)"
    by (simp add: decodeChatBlock_def)
next
  fix img p g
  assume ok: "img_ok Chat img" and "encodeImage (Some img) Chat p = Inr g"
  then have "g = GMap [(''type'', GStr ''image_url''),
       (''image_url'', GMap (optput (img_detail img \<noteq> None) ''detail'' (GStr (the (img_detail img)))
          [(''url'', GStr (imageURL (img_source img)))]))]"
    by (simp add: encodeImage_def Let_def img_ok_facts)
  then show "\<exists>m. g = GMap m \<and> (\<forall>q. decodeChatBlock q (marshal_members m) = Inr (ImageBlock img))"
    by (auto simp: decodeChatBlock_def decodeChatImage_def chat_image_struct_def img_ok_facts [OF ok])
qed

lemma responses_image_dec:
  assumes ok: "img_ok Responses img" and g: "encodeImage (Some img) Responses p = Inr g"
  shows "\<exists>m. g = GMap m \<and> (\<forall>q. decodeResponsesBlock q (marshal_members m) = Inr (ImageBlock img))"
proof -
  let ?m = "optput (img_detail img \<noteq> None) ''detail'' (GStr (the (img_detail img)))
     [(''type'', GStr ''input_image''), (''image_url'', GStr (imageURL (img_source img)))]"
  have "distinct (map fst ?m)" by (rule distinct_optput) simp
  then have "remarshal (marshal_members ?m) = marshal_members ?m" by (rule remarshal_marshal)
  moreover have "g = GMap ?m" using g by (simp add: encodeImage_def Let_def img_ok_facts [OF ok])
  ultimately show ?thesis
    by (auto simp: decodeResponsesBlock_def decodeResponsesImage_def responses_image_struct_def img_ok_facts [OF ok])
qed

interpretation responses_in: content_codec decodeResponsesBlock Responses "''input_text''"
  by unfold_locales (use responses_image_dec in \<open>simp_all add: decodeResponsesBlock_def\<close>)

interpretation responses_out: content_codec decodeResponsesBlock Responses "''output_text''"
  by unfold_locales (use responses_image_dec in \<open>simp_all add: decodeResponsesBlock_def\<close>)

lemma chat_content_encoded:
  assumes "encodeChatContent bs path = Inr c" and "list_all (block_ok Chat) bs"
  shows "decodeChatContentBlocks (map_option marshal c) q = Inr (content_view bs)"
    and "c = None \<longleftrightarrow> content_view bs = []"
  using chat.content_encoded [of bs path c] assms by (simp_all add: encodeChatContent_def decodeChatContentBlocks_def)

lemma responses_content_encoded:
  assumes "encodeResponsesContent bs role path = Inr c" and "list_all (block_ok Responses) bs"
  shows "decodeResponsesContentBlocks (map_option marshal c) q = Inr (content_view bs)"
    and "c = None \<longleftrightarrow> content_view bs = []"
  using responses_in.content_encoded [of bs path c] responses_out.content_encoded [of bs path c] assms
  by (simp_all add: encodeResponsesContent_def decodeResponsesContentBlocks_def split: if_splits)

end
