(* ===== verification/ChatView.thy ===== *)
theory ChatView
  imports ContentView
begin

text \<open>
  What a Chat request carries of a canonical request, and the proof that decoding an encoded
  Chat request gives exactly that view: tool results become messages of their own in front of
  the message they stood in, reasoning is dropped, the instructions are joined into one.
\<close>

definition result_message :: "tool_result \<Rightarrow> message" where
  "result_message x = message_of ''user'' [ToolResultBlock (x\<lparr>result_is_error := False\<rparr>)]"

definition chat_message_view :: "message \<Rightarrow> message list" where
  "chat_message_view m =
     (let bs = msg_blocks m; rest = content_view bs @ map ToolCallBlock (tool_calls bs)
      in map result_message (tool_results bs) @
         (if rest \<noteq> [] \<or> reasoning_texts bs \<noteq> [] then [message_of (msg_role m) rest] else []))"

definition chat_tool_view :: "tool \<Rightarrow> tool" where
  "chat_tool_view t = \<lparr>tool_kind = ''function'', tool_name = tool_name t,
     tool_description = tool_description t, tool_parameters = parameters_or_object (tool_parameters t),
     tool_strict = tool_strict t\<rparr>"

definition sends_parallel :: "request \<Rightarrow> bool" where
  "sends_parallel r \<longleftrightarrow> req_tools r \<noteq> [] \<and> (req_parallel_set r \<or> req_parallel r)"

definition chat_view :: "request \<Rightarrow> request" where
  "chat_view r =
     \<lparr>req_model = req_model r, req_instructions = joined (req_instructions r),
      req_messages = concat (map chat_message_view (req_messages r)),
      req_tools = map chat_tool_view (req_tools r),
      req_tool_choice = req_tool_choice r, req_stream = req_stream r,
      req_parallel = (sends_parallel r \<and> req_parallel r), req_parallel_set = sends_parallel r,
      req_max_output = req_max_output r, req_temperature = req_temperature r,
      req_top_p = req_top_p r, req_stop = req_stop r, req_effort = req_effort r\<rparr>"

text \<open>Encoded messages, decoded again: the structs and what the loop makes of them.\<close>

definition chat_decodes :: "gval list \<Rightarrow> message list \<Rightarrow> bool" where
  "chat_decodes gs ms \<longleftrightarrow> (\<exists>cs. dec_elems (dec_struct chat_message_struct) (map marshal gs) = (cs, True) \<and>
     (\<forall>n seen instructions acc. foldE decodeChatMessage (enumerate n cs) (seen, instructions, acc) =
        Inr (seen \<or> cs \<noteq> [], instructions, acc @ ms)))"

lemma chat_decodes_Nil: "chat_decodes [] []"
  by (simp add: chat_decodes_def)

lemma chat_decodes_append: "chat_decodes gs ms \<Longrightarrow> chat_decodes hs ns \<Longrightarrow> chat_decodes (gs @ hs) (ms @ ns)"
  by (auto simp: chat_decodes_def dec_elems_append enumerate_append_eq foldE_append)

lemma chat_decodes_result: "chat_decodes [chat_tool_message x] [result_message x]"
  by (simp add: chat_decodes_def chat_tool_message_def chat_message_struct_def decodeChatMessage_def
      decodeTextContent_def result_message_def Let_def)

lemma chat_call_encoded:
  assumes "call_ok c"
  shows "dec_struct chat_call_struct (marshal (chat_call c)) =
     (\<lparr>cc_id = call_id c, cc_type = ''function'', cc_name = call_name c,
       cc_arguments = Some (JStr (raw_text (call_arguments c)))\<rparr>, True)"
    and "normalizeArguments (Some (JStr (raw_text (call_arguments c)))) = call_arguments c"
  using assms by (auto simp: EncodeRequest.chat_call_def chat_call_struct_def chat_function_struct_def call_ok_def args_ok_def
      normalizeArguments_def raw_text_def)

lemma chat_calls_encoded:
  assumes "list_all call_ok cs"
  shows "\<exists>ds. dec_elems (dec_struct chat_call_struct) (map (\<lambda>c. marshal (chat_call c)) cs) = (ds, True) \<and>
     (\<forall>n. mapE_from n decodeChatCall ds = Inr (map ToolCallBlock cs))"
  using assms
proof (induction cs)
  case (Cons c cs)
  then obtain ds where "dec_elems (dec_struct chat_call_struct) (map (\<lambda>c. marshal (chat_call c)) cs) = (ds, True)"
    and "\<And>n. mapE_from n decodeChatCall ds = Inr (map ToolCallBlock cs)" by auto
  moreover have "decodeChatCall n \<lparr>cc_id = call_id c, cc_type = ''function'', cc_name = call_name c,
       cc_arguments = Some (JStr (raw_text (call_arguments c)))\<rparr> = Inr (ToolCallBlock c)" for n
    using Cons.prems by (simp add: decodeChatCall_def chat_call_encoded call_ok_def)
  ultimately show ?case using Cons.prems by (simp add: chat_call_encoded)
qed simp

lemma tool_calls_ok: "list_all (block_ok target) bs \<Longrightarrow> list_all call_ok (tool_calls bs)"
  by (induction bs rule: tool_calls.induct) simp_all

lemma chat_message_encoded:
  assumes ok: "message_ok Chat m" and enc: "encodeChatMessage k m = Inr gs"
  shows "chat_decodes gs (chat_message_view m)"
proof -
  let ?bs = "msg_blocks m"
  from ok have bs: "list_all (block_ok Chat) ?bs" and role: "msg_role m \<in> {''user'', ''assistant''}"
    by (simp_all add: message_ok_def)
  from enc obtain c where c: "encodeChatContent ?bs (index_path ''messages'' k @ ''.content'') = Inr c"
    by (auto simp: encodeChatMessage_def bindE_eq_Inr)
  note view = chat_content_encoded [OF c bs]
  let ?v = "optput (tool_calls ?bs \<noteq> []) ''tool_calls'' (GArr (map chat_call (tool_calls ?bs)))
    (optput (reasoning_texts ?bs \<noteq> []) ''reasoning_content'' (GStr (concat (reasoning_texts ?bs)))
      [(''role'', GStr (msg_role m)), (''content'', case c of None \<Rightarrow> GNil | Some g \<Rightarrow> g)])"
  from enc c have gs: "gs = map chat_tool_message (tool_results ?bs) @
      (if c \<noteq> None \<or> reasoning_texts ?bs \<noteq> [] \<or> tool_calls ?bs \<noteq> [] then [GMap ?v] else [])"
    by (auto simp: encodeChatMessage_def Let_def)
  obtain ds where ds: "dec_elems (dec_struct chat_call_struct) (map (\<lambda>c. marshal (chat_call c)) (tool_calls ?bs)) = (ds, True)"
    "\<And>n. mapE_from n decodeChatCall ds = Inr (map ToolCallBlock (tool_calls ?bs))"
    using chat_calls_encoded [OF tool_calls_ok [OF bs]] by blast
  let ?content = "case c of None \<Rightarrow> JNull | Some g \<Rightarrow> marshal g"
  have st: "chat_message_struct (marshal_members ?v) =
      (\<lparr>cm_role = msg_role m, cm_content = Some ?content, cm_tool_calls = ds, cm_tool_call_id = []\<rparr>, True)"
    using ds(1) by (auto simp: chat_message_struct_def comp_def split: option.splits)
  have content: "raw_absent (Some ?content) \<Longrightarrow> content_view ?bs = []"
    "\<not> raw_absent (Some ?content) \<Longrightarrow> decodeChatContentBlocks (Some ?content) q = Inr (content_view ?bs)" for q
    using view by (cases c; auto simp: decodeChatContentBlocks_def content_blocks_def)+
  have "chat_decodes [GMap ?v] [message_of (msg_role m) (content_view ?bs @ map ToolCallBlock (tool_calls ?bs))]"
    using role by (auto simp: chat_decodes_def st decodeChatMessage_def Let_def content ds(2))
  moreover have "chat_decodes (map chat_tool_message xs) (map result_message xs)" for xs
  proof (induction xs)
    case (Cons x xs)
    then show ?case using chat_decodes_append [OF chat_decodes_result, of "map chat_tool_message xs"] by simp
  qed (simp add: chat_decodes_Nil)
  ultimately show ?thesis using view(2)
    by (auto simp: gs chat_message_view_def Let_def intro: chat_decodes_append chat_decodes_Nil)
qed

lemma chat_messages_encoded:
  "list_all (message_ok Chat) ms \<Longrightarrow> mapE_from k encodeChatMessage ms = Inr gss \<Longrightarrow>
   chat_decodes (concat gss) (concat (map chat_message_view ms))"
proof (induction ms arbitrary: k gss)
  case Nil
  then show ?case by (simp add: chat_decodes_Nil)
next
  case (Cons m ms)
  from Cons.prems(2) obtain g gs where "encodeChatMessage k m = Inr g"
    and "mapE_from (Suc k) encodeChatMessage ms = Inr gs" and "gss = g # gs"
    by (rule mapE_from_ConsE)
  with Cons chat_message_encoded chat_decodes_append show ?case by simp
qed

lemma decodeChatTools_encoded:
  "decodeChatTools (Some (JArr (map (\<lambda>t. marshal (chat_tool_value t)) ts))) [] = Inr (map chat_tool_view ts)"
proof -
  let ?d = "\<lambda>t. \<lparr>ct_type = ''function'', ct_name = tool_name t, ct_description = tool_description t,
    ct_parameters = parameters_or_object (tool_parameters t), ct_strict = tool_strict t\<rparr>"
  have one: "dec_struct chat_tool_struct (marshal (chat_tool_value t)) = (?d t, True)" for t
    by (cases "tool_strict t") (simp_all add: chat_tool_value_def chat_tool_struct_def chat_tool_function_def Let_def)
  have "dec_elems (dec_struct chat_tool_struct) (map (\<lambda>t. marshal (chat_tool_value t)) ts) = (map ?d ts, True)"
    by (rule dec_elems_map) (rule one)
  moreover have "foldE (\<lambda>source destination.
          if ct_type source \<noteq> ''function'' then Inl (Errorf ''unsupported Chat tool type %q'' [ct_type source])
          else Inr (destination @ [\<lparr>tool_kind = ''function'', tool_name = ct_name source,
                 tool_description = ct_description source, tool_parameters = ct_parameters source,
                 tool_strict = ct_strict source\<rparr>])) (map ?d ts) [] = Inr (map chat_tool_view ts)"
    by (induction ts rule: rev_induct) (simp_all add: foldE_append chat_tool_view_def)
  ultimately show ?thesis by (simp add: decodeChatTools_def)
qed

lemma decodeChatMessage_system:
  "decodeChatMessage (n, \<lparr>cm_role = ''system'', cm_content = Some (JStr t), cm_tool_calls = calls, cm_tool_call_id = i\<rparr>)
     (False, instructions, acc) = Inr (False, instructions @ [t], acc)"
  by (simp add: decodeChatMessage_def decodeTextContent_def)

definition chat_system :: "request \<Rightarrow> gval list" where
  "chat_system r = (if req_instructions r = [] then []
     else [GMap [(''role'', GStr ''system''), (''content'', GStr (join blank_line (req_instructions r)))]])"

lemma map_of_add_parallel [simp]:
  "map_of (add_parallel r m) k =
     (if k = ''parallel_tool_calls'' \<and> sends_parallel r then Some (GBool (req_parallel r)) else map_of m k)"
  by (auto simp: add_parallel_def sends_parallel_def)

lemma api_map_add_parallel [simp]: "api_map m \<Longrightarrow> api_map (add_parallel r m)"
  by (simp add: add_parallel_def)

lemma encodeChatRequest_fields:
  assumes "encodeChatRequest r = Inr m" and "mapE encodeChatMessage (req_messages r) = Inr gss"
  shows "api_map m" and "map_of m ''model'' = Some (GStr (req_model r))"
    and "map_of m ''messages'' = Some (GArr (chat_system r @ concat gss))"
    and "map_of m ''stream'' = Some (GBool (req_stream r))"
    and "map_of m ''max_tokens'' = None"
    and "map_of m ''max_completion_tokens'' = optv (req_max_output r \<noteq> None) (GInt (the (req_max_output r)))"
    and "map_of m ''temperature'' = optv (req_temperature r \<noteq> None) (GFloat (the (req_temperature r)))"
    and "map_of m ''top_p'' = optv (req_top_p r \<noteq> None) (GFloat (the (req_top_p r)))"
    and "map_of m ''stop'' = optv (req_stop r \<noteq> []) (if length (req_stop r) = 1 then GStr (hd (req_stop r))
           else GArr (map GStr (req_stop r)))"
    and "map_of m ''tools'' = optv (req_tools r \<noteq> []) (GArr (map chat_tool_value (req_tools r)))"
    and "map_of m ''parallel_tool_calls'' = optv (sends_parallel r) (GBool (req_parallel r))"
    and "map_of m ''tool_choice'' = encodeChatToolChoice (req_tool_choice r)"
    and "map_of m ''reasoning_effort'' = optv (req_effort r \<noteq> []) (GStr (req_effort r))"
  using assms
  by (cases "req_stop r"; auto simp: encodeChatRequest_def Let_def map_of_common optv_def chat_system_def)+

lemma decodeStop_encoded:
  "decodeStop (if req_stop r \<noteq> [] then Some (marshal (if length (req_stop r) = 1 then GStr (hd (req_stop r))
           else GArr (map GStr (req_stop r)))) else None) = Inr (req_stop r)"
  by (auto simp: decodeStop_def comp_def length_Suc_conv)

lemma f_ptr_bool_opt:
  "api_map m \<Longrightarrow> plain_name k \<Longrightarrow> map_of m k = optv c (GBool b) \<Longrightarrow>
   f_ptr_bool k (marshal_members m) = (if c then Some b else None, True)"
  by (simp add: optv_def)

lemma chat_request_roundtrip:
  assumes "request_ok Chat r" and "encodeChatRequest r = Inr m"
  shows "decodeChatRequest (marshal (GMap m)) = Inr (chat_view r)"
proof -
  from assms(2) obtain gss where gss: "mapE encodeChatMessage (req_messages r) = Inr gss"
    by (auto simp: encodeChatRequest_def bindE_eq_Inr)
  note f = encodeChatRequest_fields [OF assms(2) gss]
  from assms(1) have "list_all (message_ok Chat) (req_messages r)" by (simp add: request_ok_def)
  from chat_messages_encoded [OF this gss] obtain cs where
    cs: "dec_elems (dec_struct chat_message_struct) (map marshal (concat gss)) = (cs, True)"
      "\<And>n seen instructions acc. foldE decodeChatMessage (enumerate n cs) (seen, instructions, acc) =
        Inr (seen \<or> cs \<noteq> [], instructions, acc @ concat (map chat_message_view (req_messages r)))"
    unfolding chat_decodes_def by blast
  let ?sys = "if req_instructions r = [] then [] else [\<lparr>cm_role = ''system'',
     cm_content = Some (JStr (join blank_line (req_instructions r))), cm_tool_calls = [], cm_tool_call_id = []\<rparr>]"
  define gs where "gs = chat_system r @ concat gss"
  define ds where "ds = ?sys @ cs"
  have sys: "dec_elems (dec_struct chat_message_struct) (map marshal gs) = (ds, True)"
    by (simp add: gs_def ds_def chat_system_def dec_elems_append cs chat_message_struct_def)
  have loop: "foldE decodeChatMessage (enumerate 0 ds) (False, [], []) =
      Inr (cs \<noteq> [], joined (req_instructions r), concat (map chat_message_view (req_messages r)))"
    by (simp add: ds_def cs decodeChatMessage_system joined_def)
  let ?raw_stop = "if req_stop r \<noteq> [] then Some (marshal (if length (req_stop r) = 1 then GStr (hd (req_stop r))
           else GArr (map GStr (req_stop r)))) else None"
  let ?raw_tools = "if req_tools r \<noteq> [] then Some (JArr (map (\<lambda>t. marshal (chat_tool_value t)) (req_tools r))) else None"
  let ?src = "\<lparr>rs_model = req_model r, rs_messages = Some (JArr (map marshal gs)),
     rs_tools = ?raw_tools, rs_tool_choice = map_option marshal (encodeChatToolChoice (req_tool_choice r)),
     rs_stream = req_stream r, rs_parallel = (if sends_parallel r then Some (req_parallel r) else None),
     rs_max_tokens = None, rs_max_completion = req_max_output r, rs_temperature = req_temperature r,
     rs_top_p = req_top_p r, rs_stop = ?raw_stop, rs_effort = req_effort r\<rparr>"
  have maxt: "f_ptr_int ''max_completion_tokens'' (marshal_members m) = (req_max_output r, True)"
    using assms(1) by (intro f_ptr_int_opt f) (simp_all add: request_ok_def)
  have choice: "f_raw ''tool_choice'' (marshal_members m) =
      (map_option marshal (encodeChatToolChoice (req_tool_choice r)), True)"
    by (simp add: f split: option.splits)
  have "f_string ''model'' (marshal_members m) = (req_model r, True)"
    "f_bool ''stream'' (marshal_members m) = (req_stream r, True)"
    "f_ptr_int ''max_tokens'' (marshal_members m) = (None, True)"
    "f_raw ''messages'' (marshal_members m) = (Some (JArr (map marshal gs)), True)"
    by (simp_all add: f gs_def)
  then have "chat_request_struct (marshal_members m) = (?src, True)"
    unfolding chat_request_struct_def
    by (simp add: f_raw_opt [OF f(1) _ f(9)] f_raw_opt [OF f(1) _ f(10)] f_ptr_float_opt [OF f(1) _ f(7)]
      f_ptr_float_opt [OF f(1) _ f(8)] f_ptr_bool_opt [OF f(1) _ f(11)] f_string_opt [OF f(1) _ f(13)]
      maxt choice comp_def)
  moreover have "decodeChatTools ?raw_tools [] = Inr (map chat_tool_view (req_tools r))"
    using decodeChatTools_encoded [of "req_tools r"] by (simp add: decodeChatTools_def)
  moreover have "decodeChatToolChoice (map_option marshal (encodeChatToolChoice (req_tool_choice r))) = req_tool_choice r"
    using assms(1) by (simp add: request_ok_def chat_choice_roundtrip)
  moreover have "req_model r \<noteq> []" using assms(1) by (simp add: request_ok_def)
  ultimately show ?thesis
    by (simp add: decodeChatRequest_def decodeStop_encoded sys loop chat_view_def)
qed

end
