(* ===== verification/ResponsesView.thy ===== *)
theory ResponsesView
  imports ChatView
begin

text \<open>
  What a Responses request carries of a canonical request, and the proof that decoding an
  encoded Responses request gives exactly that view. Tool calls and tool results become items
  in front of the content of their message, their ids renamed by \<^const>\<open>renaming\<close>; stop
  sequences have no place in the protocol.
\<close>

fun responses_block_view :: "(string \<Rightarrow> string) \<Rightarrow> block \<Rightarrow> message list \<Rightarrow> message list" where
  "responses_block_view \<phi> (ToolCallBlock c) acc =
     appendBlock acc ''assistant'' (ToolCallBlock (c\<lparr>call_id := \<phi> (call_id c)\<rparr>))"
| "responses_block_view \<phi> (ToolResultBlock x) acc =
     appendBlock acc ''user'' (ToolResultBlock (x\<lparr>result_call_id := \<phi> (result_call_id x), result_is_error := False\<rparr>))"
| "responses_block_view \<phi> _ acc = acc"

declare appendBlock.simps [simp del]

definition responses_message_view :: "(string \<Rightarrow> string) \<Rightarrow> message \<Rightarrow> message list \<Rightarrow> message list" where
  "responses_message_view \<phi> m acc =
     fold (responses_block_view \<phi>) (msg_blocks m) acc @
     (if content_view (msg_blocks m) \<noteq> [] then [message_of (msg_role m) (content_view (msg_blocks m))] else [])"

definition responses_view :: "request \<Rightarrow> request" where
  "responses_view r =
     \<lparr>req_model = req_model r, req_instructions = joined (req_instructions r),
      req_messages = fold (responses_message_view (renaming r)) (req_messages r) [],
      req_tools = map chat_tool_view (req_tools r),
      req_tool_choice = req_tool_choice r, req_stream = req_stream r,
      req_parallel = (sends_parallel r \<and> req_parallel r), req_parallel_set = sends_parallel r,
      req_max_output = req_max_output r, req_temperature = req_temperature r,
      req_top_p = req_top_p r, req_stop = [], req_effort = req_effort r\<rparr>"

definition items_decode :: "gval list \<Rightarrow> (message list \<Rightarrow> message list) \<Rightarrow> bool" where
  "items_decode gs f \<longleftrightarrow> (\<exists>ms. dec_elems dec_map (map marshal gs) = (ms, True) \<and>
     (\<forall>n instructions acc. foldE decodeResponsesItem (enumerate n ms) (instructions, acc) = Inr (instructions, f acc)))"

lemma items_decode_Nil: "items_decode [] (\<lambda>acc. acc)"
  by (simp add: items_decode_def)

lemma items_decode_append: "items_decode gs f \<Longrightarrow> items_decode hs g \<Longrightarrow> items_decode (gs @ hs) (\<lambda>acc. g (f acc))"
  by (auto simp: items_decode_def dec_elems_append enumerate_append_eq foldE_append)

lemma decodes_call:
  "call_ok c \<Longrightarrow> items_decode [function_call_item c i]
     (\<lambda>acc. appendBlock acc ''assistant'' (ToolCallBlock (c\<lparr>call_id := i\<rparr>)))"
  using chat_call_encoded(2) [of c]
  by (cases c) (simp add: items_decode_def function_call_item_def decodeResponsesItem_def Let_def chat_call_encoded call_ok_def)

lemma decodes_output:
  "items_decode [function_output_item x i]
     (\<lambda>acc. appendBlock acc ''user'' (ToolResultBlock (x\<lparr>result_call_id := i, result_is_error := False\<rparr>)))"
  by (cases x) (simp add: items_decode_def function_output_item_def decodeResponsesItem_def Let_def decodeTextContent_def)

lemma decodes_blocks:
  "list_all (block_ok Responses) bs \<Longrightarrow> items_decode (responses_items \<phi> bs) (fold (responses_block_view \<phi>) bs)"
proof (induction bs)
  case Nil
  then show ?case using items_decode_Nil by (simp add: id_def)
next
  case (Cons b bs)
  then have IH: "items_decode (responses_items \<phi> bs) (fold (responses_block_view \<phi>) bs)" by simp
  show ?case
  proof (cases b)
    case (ToolCallBlock c)
    with Cons.prems have "call_ok c" by simp
    from items_decode_append [OF decodes_call [OF this] IH] show ?thesis by (simp add: ToolCallBlock comp_def)
  next
    case (ToolResultBlock x)
    from items_decode_append [OF decodes_output IH] show ?thesis by (simp add: ToolResultBlock comp_def)
  qed (use IH in \<open>simp_all add: comp_def\<close>)
qed

lemma decodes_message:
  assumes "message_ok Responses m" and "responses_message_items \<phi> k m = Inr gs"
  shows "items_decode gs (responses_message_view \<phi> m)"
proof -
  from assms(1) have bs: "list_all (block_ok Responses) (msg_blocks m)"
    and role: "msg_role m \<in> {''user'', ''assistant''}" by (simp_all add: message_ok_def)
  from assms(2) obtain c where
    c: "encodeResponsesContent (msg_blocks m) (msg_role m) (index_path ''input'' k @ ''.content'') = Inr c"
    and gs: "gs = responses_items \<phi> (msg_blocks m) @
      (case c of None \<Rightarrow> [] | Some g \<Rightarrow> [message_item (msg_role m) g])"
    by (auto simp: responses_message_items_def bindE_eq_Inr)
  note view = responses_content_encoded [OF c bs]
  show ?thesis
  proof (cases c)
    case None
    with view decodes_blocks [OF bs, of \<phi>] show ?thesis
      by (simp add: gs responses_message_view_def [abs_def])
  next
    case (Some g)
    have "items_decode [message_item (msg_role m) g] (\<lambda>acc. acc @ [message_of (msg_role m) (content_view (msg_blocks m))])"
      using view(1) Some role
      by (auto simp: items_decode_def message_item_def decodeResponsesItem_def Let_def)
    from items_decode_append [OF decodes_blocks [OF bs] this, of \<phi>] show ?thesis
      using view(2) Some by (simp add: gs responses_message_view_def [abs_def])
  qed
qed

lemma decodes_messages:
  "list_all (message_ok Responses) ms \<Longrightarrow> mapE_from k (responses_message_items \<phi>) ms = Inr gss \<Longrightarrow>
   items_decode (concat gss) (fold (responses_message_view \<phi>) ms)"
proof (induction ms arbitrary: k gss)
  case Nil
  then show ?case using items_decode_Nil by (simp add: id_def)
next
  case (Cons m ms)
  from Cons.prems(2) obtain g gs where g: "responses_message_items \<phi> k m = Inr g"
    and gs: "mapE_from (Suc k) (responses_message_items \<phi>) ms = Inr gs" and "gss = g # gs"
    by (rule mapE_from_ConsE)
  with Cons have "items_decode (concat gs) (fold (responses_message_view \<phi>) ms)" by simp
  with decodes_message [OF _ g] Cons.prems items_decode_append \<open>gss = g # gs\<close> show ?case
    by (fastforce simp: comp_def)
qed

lemma decodeResponsesTool_encoded:
  "dec_map (marshal (responses_tool_value t)) = (kvs, True) \<Longrightarrow> decodeResponsesTool kvs = Inr (chat_tool_view t)"
  by (cases "tool_strict t")
    (auto simp: responses_tool_value_def Let_def decodeResponsesTool_def chat_tool_view_def)

lemma decodeResponsesTools_encoded:
  "decodeResponsesTools (Some (JArr (map (\<lambda>t. marshal (responses_tool_value t)) ts))) [] = Inr (map chat_tool_view ts)"
proof -
  let ?kvs = "\<lambda>t. fst (dec_map (marshal (responses_tool_value t)))"
  have kvs: "dec_map (marshal (responses_tool_value t)) = (?kvs t, True)" for t
    by (simp add: responses_tool_value_def Let_def)
  then have "dec_elems dec_map (map (\<lambda>t. marshal (responses_tool_value t)) ts) = (map ?kvs ts, True)"
    by (rule dec_elems_map)
  moreover have "foldE (\<lambda>source destination. bindE (decodeResponsesTool source) (\<lambda>t. Inr (destination @ [t])))
      (map ?kvs ts) [] = Inr (map chat_tool_view ts)"
    by (induction ts rule: rev_induct) (simp_all add: foldE_append decodeResponsesTool_encoded [OF kvs])
  ultimately show ?thesis by (simp add: decodeResponsesTools_def)
qed

lemma encodeResponsesRequest_fields:
  assumes "encodeResponsesRequest r = Inr m"
    and "mapE (responses_message_items (renaming r)) (req_messages r) = Inr gss"
  shows "api_map m" and "map_of m ''model'' = Some (GStr (req_model r))"
    and "map_of m ''input'' = Some (GArr (concat gss))"
    and "map_of m ''stream'' = Some (GBool (req_stream r))"
    and "map_of m ''store'' = Some (GBool False)"
    and "map_of m ''instructions'' = optv (req_instructions r \<noteq> []) (GStr (join blank_line (req_instructions r)))"
    and "map_of m ''max_output_tokens'' = optv (req_max_output r \<noteq> None) (GInt (the (req_max_output r)))"
    and "map_of m ''temperature'' = optv (req_temperature r \<noteq> None) (GFloat (the (req_temperature r)))"
    and "map_of m ''top_p'' = optv (req_top_p r \<noteq> None) (GFloat (the (req_top_p r)))"
    and "map_of m ''tools'' = optv (req_tools r \<noteq> []) (GArr (map responses_tool_value (req_tools r)))"
    and "map_of m ''parallel_tool_calls'' = optv (sends_parallel r) (GBool (req_parallel r))"
    and "map_of m ''tool_choice'' = encodeResponsesToolChoice (req_tool_choice r)"
    and "map_of m ''reasoning'' = optv (req_effort r \<noteq> [])
           (GMap [(''effort'', GStr (req_effort r)), (''summary'', GStr ''auto'')])"
    and "map_of m ''previous_response_id'' = None" and "map_of m ''conversation'' = None"
    and "map_of m ''background'' = None"
  using assms
  by (auto simp: encodeResponsesRequest_def encodeResponsesRequest_input Let_def map_of_common optv_def)

lemma responses_request_roundtrip:
  assumes "request_ok Responses r" and "encodeResponsesRequest r = Inr m"
  shows "decodeResponsesRequest (marshal (GMap m)) = Inr (responses_view r)"
proof -
  from assms(2) obtain gss where gss: "mapE (responses_message_items (renaming r)) (req_messages r) = Inr gss"
    by (auto simp: encodeResponsesRequest_def encodeResponsesRequest_input bindE_eq_Inr)
  note f = encodeResponsesRequest_fields [OF assms(2) gss]
  define gs where "gs = concat gss"
  from assms(1) have "list_all (message_ok Responses) (req_messages r)" by (simp add: request_ok_def)
  from decodes_messages [OF this gss] obtain cs where
    cs: "dec_elems dec_map (map marshal gs) = (cs, True)"
      "\<And>n instructions acc. foldE decodeResponsesItem (enumerate n cs) (instructions, acc) =
        Inr (instructions, fold (responses_message_view (renaming r)) (req_messages r) acc)"
    unfolding items_decode_def gs_def by blast
  let ?raw_tools = "if req_tools r \<noteq> [] then Some (JArr (map (\<lambda>t. marshal (responses_tool_value t)) (req_tools r))) else None"
  let ?raw_instr = "if req_instructions r \<noteq> [] then Some (JStr (join blank_line (req_instructions r))) else None"
  let ?src = "\<lparr>ss_model = req_model r, ss_instructions = ?raw_instr, ss_input = Some (JArr (map marshal gs)),
     ss_tools = ?raw_tools, ss_tool_choice = map_option marshal (encodeResponsesToolChoice (req_tool_choice r)),
     ss_stream = req_stream r, ss_parallel = (if sends_parallel r then Some (req_parallel r) else None),
     ss_max_output = req_max_output r, ss_temperature = req_temperature r, ss_top_p = req_top_p r,
     ss_effort = req_effort r, ss_previous = None, ss_conversation = None, ss_background = False,
     ss_store = Some False\<rparr>"
  have maxt: "f_ptr_int ''max_output_tokens'' (marshal_members m) = (req_max_output r, True)"
    using assms(1) by (intro f_ptr_int_opt f) (simp_all add: request_ok_def)
  have choice: "f_raw ''tool_choice'' (marshal_members m) =
      (map_option marshal (encodeResponsesToolChoice (req_tool_choice r)), True)"
    by (simp add: f split: option.splits)
  have effort: "f_struct (f_string ''effort'') ''reasoning'' (marshal_members m) = (req_effort r, True)"
    by (simp add: f optv_def field_Nil fields_of_def)
  have "f_string ''model'' (marshal_members m) = (req_model r, True)"
    "f_bool ''stream'' (marshal_members m) = (req_stream r, True)"
    "f_bool ''background'' (marshal_members m) = (False, True)"
    "f_ptr_bool ''store'' (marshal_members m) = (Some False, True)"
    "f_ptr_string ''previous_response_id'' (marshal_members m) = (None, True)"
    "field dec_any None ''conversation'' (marshal_members m) = (None, True)"
    "f_raw ''input'' (marshal_members m) = (Some (JArr (map marshal gs)), True)"
    by (simp_all add: f gs_def)
  then have "responses_request_struct (marshal_members m) = (?src, True)"
    unfolding responses_request_struct_def
    by (simp add: f_raw_opt [OF f(1) _ f(6)] f_raw_opt [OF f(1) _ f(10)] f_ptr_float_opt [OF f(1) _ f(8)]
      f_ptr_float_opt [OF f(1) _ f(9)] f_ptr_bool_opt [OF f(1) _ f(11)] maxt choice effort comp_def)
  moreover have "(if raw_absent ?raw_instr then Inr []
      else bindE (decodeTextContent ?raw_instr) (\<lambda>text. Inr [text])) = Inr (joined (req_instructions r))"
    by (simp add: joined_def decodeTextContent_def)
  moreover have "decodeResponsesTools ?raw_tools [] = Inr (map chat_tool_view (req_tools r))"
    using decodeResponsesTools_encoded [of "req_tools r"] by (simp add: decodeResponsesTools_def)
  moreover have "decodeResponsesToolChoice (map_option marshal (encodeResponsesToolChoice (req_tool_choice r))) = req_tool_choice r"
    using assms(1) by (simp add: request_ok_def responses_choice_roundtrip)
  moreover have "req_model r \<noteq> []" using assms(1) by (simp add: request_ok_def)
  ultimately show ?thesis
    by (simp add: decodeResponsesRequest_def cs responses_view_def cong: if_cong)
qed

end
