(* ===== verification/Convert.thy ===== *)
theory Convert
  imports ResponsesView
begin

text \<open>
  The request conversion at the level of JSON texts: what an encoder writes is well-formed JSON,
  encoding succeeds for requests the target can carry, and decoding the text again gives the
  view of the target. The last section shows what the decoders guarantee of images.
\<close>

section \<open>Well-formed output\<close>

definition wf_g :: "gval \<Rightarrow> bool" where
  "wf_g g \<longleftrightarrow> wf_json (marshal g)"

definition wf_map :: "gmap \<Rightarrow> bool" where
  "wf_map m \<longleftrightarrow> (\<forall>kv \<in> set m. wf_g (snd kv))"

lemma wf_g_simps [simp]:
  "wf_g GNil" "wf_g (GBool b)" "wf_g (GInt i)" "wf_g (GStr s)" "wf_g (GFloat l) \<longleftrightarrow> valid_number l"
  "wf_g (GArr gs) \<longleftrightarrow> (\<forall>g \<in> set gs. wf_g g)" "wf_g (GMap m) \<longleftrightarrow> wf_map m" "wf_g (GRaw j) \<longleftrightarrow> wf_json j"
  by (auto simp: wf_g_def list_all_iff marshal_members_def wf_map_def)

lemma wf_map_simps [simp]:
  "wf_map []" "wf_map ((k, v) # m) \<longleftrightarrow> wf_g v \<and> wf_map m"
  by (simp_all add: wf_map_def)

lemma wf_map_put: "wf_map m \<Longrightarrow> wf_g v \<Longrightarrow> wf_map (put k v m)"
  by (induction m) (auto simp: wf_map_def)

lemma wf_map_optput [simp]: "wf_map m \<Longrightarrow> (c \<Longrightarrow> wf_g v) \<Longrightarrow> wf_map (optput c k v m)"
  by (simp add: optput_def wf_map_put)

lemma wf_map_delete [simp]: "wf_map m \<Longrightarrow> wf_map (AList.delete k m)"
  by (auto simp: wf_map_def AList.delete_eq)

lemma wf_text_part [simp]: "wf_g (text_part t x)"
  by (simp add: text_part_def)

lemma wf_raw: "raw_wf raw \<Longrightarrow> wf_g (rawOrObject raw)"
  by (simp add: rawOrObject_def raw_wf_def split: option.splits)

lemma wf_encodeImage: "encodeImage p target path = Inr g \<Longrightarrow> wf_g g"
  by (auto simp: encodeImage_def Let_def bindE_eq_Inr split: option.splits if_splits)

lemma wf_content:
  assumes "encode_content target tt bs path = Inr (Some g)"
  shows "wf_g g"
proof -
  obtain s where s: "foldE (content_step target tt path) (enumerate 0 bs)
      \<lparr>ct_text = [], ct_parts = [], ct_image = False\<rparr> = Inr s" and g: "content_result s = Some g"
    using assms by (auto simp: encode_content_def bindE_eq_Inr)
  have "\<forall>p \<in> set (ct_parts s). wf_g p"
    using s
  proof (rule foldE_invariant)
    fix x s t
    assume "\<forall>p \<in> set (ct_parts s). wf_g p" and "content_step target tt path x s = Inr t"
    then show "\<forall>p \<in> set (ct_parts t). wf_g p"
      by (auto simp: content_step_def Let_def bindE_eq_Inr wf_encodeImage split: prod.splits block.splits if_splits)
  qed simp
  with g show ?thesis by (auto simp: content_result_def split: if_splits)
qed

lemma wf_common:
  "wf_map m \<Longrightarrow> float_ok (req_temperature r) \<Longrightarrow> float_ok (req_top_p r) \<Longrightarrow>
   wf_map (applyCommonRequestFields m r k)"
  by (auto simp: applyCommonRequestFields_def Let_def float_ok_def intro!: wf_map_put)

lemma wf_put_choice: "wf_map m \<Longrightarrow> (\<And>g. c = Some g \<Longrightarrow> wf_g g) \<Longrightarrow> wf_map (put_choice c m)"
  by (simp add: put_choice_def wf_map_put split: option.splits)

lemma wf_choices:
  "encodeChatToolChoice c = Some g \<Longrightarrow> wf_g g"
  "encodeResponsesToolChoice c = Some g \<Longrightarrow> wf_g g"
  "encodeMessagesToolChoice c = Some g \<Longrightarrow> wf_g g"
  by (auto simp: encodeChatToolChoice_def encodeResponsesToolChoice_def encodeMessagesToolChoice_def split: if_splits)

lemma args_wf: "call_ok c \<Longrightarrow> wf_g (rawOrObject (call_arguments c))"
  by (auto simp: call_ok_def args_ok_def rawOrObject_def)

lemma wf_messages_block:
  "block_ok Messages b \<Longrightarrow> encodeMessagesBlock p i b = Inr gs \<Longrightarrow> \<forall>g \<in> set gs. wf_g g"
  by (cases b) (auto simp: encodeMessagesBlock_def bindE_eq_Inr wf_encodeImage args_wf)

lemma mapE_from_wf:
  assumes "mapE_from k f xs = Inr gss" and "list_all P xs"
    and "\<And>i x gs. P x \<Longrightarrow> f i x = Inr gs \<Longrightarrow> Q gs"
  shows "\<forall>gs \<in> set gss. Q gs"
  using assms by (auto simp: list_all_iff intro!: mapE_from_all [OF assms(1)])

lemma wf_messages_message:
  assumes "message_ok Messages m" and "encodeMessagesMessage i m = Inr g"
  shows "wf_g g"
proof -
  obtain gss where gss: "mapE (encodeMessagesBlock (index_path ''messages'' i @ ''.content'')) (msg_blocks m) = Inr gss"
    and g: "g = GMap [(''role'', GStr (msg_role m)), (''content'', GArr (concat gss))]"
    using assms(2) by (auto simp: encodeMessagesMessage_def bindE_eq_Inr)
  have "list_all (block_ok Messages) (msg_blocks m)" using assms(1) by (simp add: message_ok_def)
  then have "\<forall>gs \<in> set gss. \<forall>g \<in> set gs. wf_g g" by (rule mapE_from_wf [OF gss]) (rule wf_messages_block)
  with g show ?thesis by auto
qed

lemma wf_chat_message:
  assumes "message_ok Chat m" and "encodeChatMessage i m = Inr gs"
  shows "\<forall>g \<in> set gs. wf_g g"
  using assms(2) wf_content
  by (auto simp: encodeChatMessage_def bindE_eq_Inr encodeChatContent_def chat_tool_message_def
      EncodeRequest.chat_call_def Let_def split: if_splits option.splits)

lemma wf_responses_items: "\<forall>g \<in> set (responses_items \<phi> bs). wf_g g"
  by (induction \<phi> bs rule: responses_items.induct) (auto simp: function_call_item_def function_output_item_def)

lemma wf_responses_message:
  "responses_message_items \<phi> i m = Inr gs \<Longrightarrow> \<forall>g \<in> set gs. wf_g g"
  using wf_responses_items wf_content
  by (auto simp: responses_message_items_def bindE_eq_Inr encodeResponsesContent_def message_item_def split: option.splits)

lemma wf_tools:
  "raw_wf (tool_parameters t) \<Longrightarrow> wf_g (chat_tool_value t)"
  "raw_wf (tool_parameters t) \<Longrightarrow> wf_g (responses_tool_value t)"
  "raw_wf (tool_parameters t) \<Longrightarrow> wf_g (messages_tool_value t)"
  using wf_raw [of "tool_parameters t"]
  by (simp_all add: chat_tool_value_def responses_tool_value_def messages_tool_value_def Let_def)

lemma encode_tree_wf:
  assumes "request_ok target r" and "encode_tree r target = Inr m"
  shows "wf_map m"
proof -
  from assms(1) have ms: "list_all (message_ok target) (req_messages r)"
    and ts: "\<forall>t \<in> set (req_tools r). raw_wf (tool_parameters t)"
    and fl: "float_ok (req_temperature r)" "float_ok (req_top_p r)"
    by (simp_all add: request_ok_def list_all_iff)
  note wf = wf_common [OF _ fl] wf_put_choice wf_choices wf_tools ts
  consider "target = Chat" | "target = Responses" | "target = Messages"
    using assms(2) by (auto simp: encode_tree_def split: if_splits)
  then show ?thesis
  proof cases
    case 1
    with assms(2) obtain gss where gss: "mapE encodeChatMessage (req_messages r) = Inr gss"
      and enc: "encodeChatRequest r = Inr m"
      by (auto simp: encode_tree_def encodeChatRequest_def bindE_eq_Inr)
    from ms have "\<forall>gs \<in> set gss. \<forall>g \<in> set gs. wf_g g"
      unfolding 1 by (rule mapE_from_wf [OF gss]) (rule wf_chat_message)
    with gss enc show ?thesis
      by (auto simp: encodeChatRequest_def Let_def add_parallel_def wf)
  next
    case 2
    with assms(2) obtain gss where gss: "mapE (responses_message_items (renaming r)) (req_messages r) = Inr gss"
      and enc: "encodeResponsesRequest r = Inr m"
      by (auto simp: encode_tree_def encodeResponsesRequest_def encodeResponsesRequest_input bindE_eq_Inr)
    from ms have "\<forall>gs \<in> set gss. \<forall>g \<in> set gs. wf_g g"
      by (rule mapE_from_wf [OF gss]) (rule wf_responses_message)
    with gss enc show ?thesis
      by (auto simp: encodeResponsesRequest_def encodeResponsesRequest_input Let_def add_parallel_def wf)
  next
    case 3
    with assms(2) obtain gs where gs: "mapE encodeMessagesMessage (req_messages r) = Inr gs"
      and enc: "encodeMessagesRequest r = Inr m"
      by (auto simp: encode_tree_def encodeMessagesRequest_def bindE_eq_Inr)
    from ms have "\<forall>g \<in> set gs. wf_g g"
      unfolding 3 by (rule mapE_from_wf [OF gs]) (rule wf_messages_message)
    with gs enc show ?thesis
      by (auto simp: encodeMessagesRequest_def Let_def wf)
  qed
qed

definition request_view :: "string \<Rightarrow> request \<Rightarrow> request" where
  "request_view target r =
     (if target = Chat then chat_view r else if target = Responses then responses_view r else messages_view r)"

section \<open>Encoding succeeds\<close>

lemma bindE_ok: "is_ok m \<Longrightarrow> (\<And>x. m = Inr x \<Longrightarrow> is_ok (f x)) \<Longrightarrow> is_ok (bindE m f)"
  by (cases m) simp_all

lemma foldE_ok: "(\<And>x s. x \<in> set xs \<Longrightarrow> is_ok (f x s)) \<Longrightarrow> is_ok (foldE f xs s)"
  by (induction xs arbitrary: s) (auto intro!: bindE_ok)

lemma mapE_from_ok: "(\<And>i x. x \<in> set xs \<Longrightarrow> is_ok (f i x)) \<Longrightarrow> is_ok (mapE_from k f xs)"
  by (induction xs arbitrary: k) (auto intro!: bindE_ok)

lemma is_ok_encodeImage: "img_ok target img \<Longrightarrow> is_ok (encodeImage (Some img) target p)"
  by (simp add: img_ok_def encodeImage_ok_iff)

lemma encode_content_ok:
  assumes "list_all (block_ok target) bs"
  shows "is_ok (encode_content target tt bs p)"
proof -
  have "is_ok (content_step target tt p x s)" if "x \<in> set (enumerate 0 bs)" for x s
  proof -
    obtain i b where x: "x = (i, b)" by (cases x)
    with that have "b \<in> set bs" by (metis in_set_zip map_snd_enumerate set_map snd_conv image_eqI)
    with assms have "block_ok target b" by (simp add: list_all_iff)
    then show ?thesis
      by (cases b) (auto simp: x content_step_def Let_def intro!: bindE_ok is_ok_encodeImage)
  qed
  then have "is_ok (foldE (content_step target tt p) (enumerate 0 bs) s)" for s by (rule foldE_ok)
  then show ?thesis by (simp add: encode_content_def bindE_ok)
qed

lemma encodeMessagesBlock_ok: "block_ok Messages b \<Longrightarrow> is_ok (encodeMessagesBlock p i b)"
  by (cases b) (auto simp: encodeMessagesBlock_def intro!: bindE_ok is_ok_encodeImage)

lemma encode_messages_ok:
  assumes "list_all (message_ok target) ms"
  shows "target = Chat \<Longrightarrow> is_ok (mapE encodeChatMessage ms)"
    and "target = Responses \<Longrightarrow> is_ok (mapE (responses_message_items \<phi>) ms)"
    and "target = Messages \<Longrightarrow> is_ok (mapE encodeMessagesMessage ms)"
proof -
  have bs: "list_all (block_ok target) (msg_blocks m)" if "m \<in> set ms" for m
    using assms that by (auto simp: list_all_iff message_ok_def)
  show "is_ok (mapE encodeChatMessage ms)" if "target = Chat"
    using encode_content_ok [OF bs] that
    by (intro mapE_from_ok) (auto simp: encodeChatMessage_def encodeChatContent_def Let_def intro!: bindE_ok)
  show "is_ok (mapE (responses_message_items \<phi>) ms)" if "target = Responses"
    using encode_content_ok [OF bs] that
    by (intro mapE_from_ok) (auto simp: responses_message_items_def encodeResponsesContent_def intro!: bindE_ok)
  show "is_ok (mapE encodeMessagesMessage ms)" if "target = Messages"
  proof (rule mapE_from_ok)
    fix i m
    assume "m \<in> set ms"
    with bs that have "is_ok (mapE (encodeMessagesBlock p) (msg_blocks m))" for p
      by (intro mapE_from_ok encodeMessagesBlock_ok) (simp add: list_all_iff)
    then show "is_ok (encodeMessagesMessage i m)" by (simp add: encodeMessagesMessage_def bindE_ok)
  qed
qed

lemma encode_tree_ok:
  assumes "request_ok target r" and "target \<in> {Chat, Responses, Messages}"
  shows "is_ok (encode_tree r target)"
  using assms encode_messages_ok [of target "req_messages r"]
  by (auto simp: request_ok_def encode_tree_def encodeChatRequest_def encodeResponsesRequest_def
      encodeResponsesRequest_input encodeMessagesRequest_def Let_def bindE_assoc intro!: bindE_ok)

lemma decode_encoded_request:
  assumes "request_ok target r" and "EncodeRequest r target = Inr body"
  shows "DecodeRequest body target = Inr (request_view target r)"
proof -
  from assms(2) obtain m where m: "encode_tree r target = Inr m" and b: "body = print_json (JObj (marshal_members m))"
    by (auto simp: EncodeRequest_def bindE_eq_Inr)
  have parse: "unmarshal_text body = Inr (JObj (marshal_members m))"
  proof -
    have "wf_g (GMap m)" using encode_tree_wf [OF assms(1) m] by simp
    then have "wf_json (JObj (marshal_members m))" unfolding wf_g_def marshal_GMap .
    then show ?thesis unfolding unmarshal_text_def b by (simp only: parse_json_print option.simps)
  qed
  from m show ?thesis
    using chat_request_roundtrip [of r m] responses_request_roundtrip [of r m] messages_request_roundtrip [of r m] assms(1)
    by (auto simp: encode_tree_def DecodeRequest_def parse request_view_def split: if_splits)
qed

lemma convert_request:
  assumes "DecodeRequest body source = Inr r" and "target \<in> {Chat, Responses, Messages}"
    and "request_ok target (retarget r source target model default_max)"
  shows "\<exists>out. ConvertRequest body source target model default_max = Inr out \<and>
    DecodeRequest out target = Inr (request_view target (retarget r source target model default_max))"
proof -
  let ?r = "retarget r source target model default_max"
  from encode_tree_ok [OF assms(3,2)] obtain m where "encode_tree ?r target = Inr m" by (auto simp: is_ok_iff)
  then have "EncodeRequest ?r target = Inr (print_json (marshal (GMap m)))" by (simp add: EncodeRequest_def)
  with decode_encoded_request [OF assms(3) this] assms(1) show ?thesis by (simp add: ConvertRequest_def)
qed

section \<open>Decoded images\<close>

definition images_ok :: "message list \<Rightarrow> bool" where
  "images_ok ms \<longleftrightarrow> (\<forall>m \<in> set ms. \<forall>img. ImageBlock img \<in> set (msg_blocks m) \<longrightarrow> image_ok img)"

lemma images_ok_simps [simp]:
  "images_ok []" "images_ok (ms @ ns) \<longleftrightarrow> images_ok ms \<and> images_ok ns"
  "images_ok (m # ms) \<longleftrightarrow> (\<forall>img. ImageBlock img \<in> set (msg_blocks m) \<longrightarrow> image_ok img) \<and> images_ok ms"
  by (auto simp: images_ok_def)

lemma images_ok_appendBlock:
  "images_ok ms \<Longrightarrow> (\<And>img. b = ImageBlock img \<Longrightarrow> image_ok img) \<Longrightarrow> images_ok (appendBlock ms role b)"
proof (cases ms rule: rev_cases)
  case (snoc ns m)
  assume "images_ok ms" and "\<And>img. b = ImageBlock img \<Longrightarrow> image_ok img"
  with snoc show ?thesis by (auto simp: appendBlock.simps)
qed (auto simp: appendBlock.simps)

lemma content_blocks_images:
  assumes "content_blocks dec raw path = Inr bs"
    and "\<And>p m img. dec p m = Inr (ImageBlock img) \<Longrightarrow> image_ok img"
  shows "\<forall>img. ImageBlock img \<in> set bs \<longrightarrow> image_ok img"
proof -
  have "bs = [] \<or> (\<exists>t. bs = [TextBlock t]) \<or> (\<exists>ms. mapE (\<lambda>i. dec (index_path path i)) ms = Inr bs)"
    using assms(1) unfolding content_blocks_def
    by (cases "raw_absent raw"; cases "raw_is_string raw") (simp_all add: bindE_eq_Inr, blast+)
  then consider "bs = []" | t where "bs = [TextBlock t]" | ms where "mapE (\<lambda>i. dec (index_path path i)) ms = Inr bs"
    by blast
  then show ?thesis
  proof cases
    case 3
    then have "\<forall>b \<in> set bs. \<forall>img. b = ImageBlock img \<longrightarrow> image_ok img"
      by (rule mapE_from_all) (use assms(2) in auto)
    then show ?thesis by auto
  qed simp_all
qed

lemma decodeChatBlock_images: "decodeChatBlock p m = Inr (ImageBlock img) \<Longrightarrow> image_ok img"
  by (auto simp: decodeChatBlock_def bindE_eq_Inr image_decoders_ok split: if_splits)

lemma decodeResponsesBlock_images: "decodeResponsesBlock p m = Inr (ImageBlock img) \<Longrightarrow> image_ok img"
  by (auto simp: decodeResponsesBlock_def bindE_eq_Inr image_decoders_ok split: if_splits)

lemma decodeMessagesBlock_images: "decodeMessagesBlock p m = Inr (Some (ImageBlock img)) \<Longrightarrow> image_ok img"
  by (auto simp: decodeMessagesBlock_def bindE_eq_Inr image_decoders_ok Let_def split: if_splits)

lemma decodeChatMessage_images:
  assumes "decodeChatMessage x s = Inr t" and "images_ok (snd (snd s))"
  shows "images_ok (snd (snd t))"
proof -
  obtain i m seen ins ms where x: "x = (i, m)" "s = (seen, ins, ms)" by (metis surj_pair)
  have calls: "ImageBlock img \<notin> set bs" if "mapE decodeChatCall cs = Inr bs" for cs bs img
  proof -
    from that have "\<forall>b \<in> set bs. \<not> is_image b"
      by (rule mapE_from_all) (auto simp: decodeChatCall_def split: if_splits)
    then show ?thesis by auto
  qed
  have "\<forall>img. ImageBlock img \<in> set bs \<longrightarrow> image_ok img" if "decodeChatContentBlocks raw p = Inr bs" for raw p bs
    using that decodeChatBlock_images unfolding decodeChatContentBlocks_def by (rule content_blocks_images)
  with assms calls show ?thesis
    by (auto simp: x decodeChatMessage_def Let_def bindE_eq_Inr split: if_splits)
qed

lemma decodeResponsesItem_images:
  assumes "decodeResponsesItem x s = Inr t" and "images_ok (snd s)"
  shows "images_ok (snd t)"
proof -
  obtain i m ins ms where x: "x = (i, m)" "s = (ins, ms)" by (metis surj_pair)
  have "\<forall>img. ImageBlock img \<in> set bs \<longrightarrow> image_ok img" if "decodeResponsesContentBlocks raw p = Inr bs" for raw p bs
    using that decodeResponsesBlock_images unfolding decodeResponsesContentBlocks_def by (rule content_blocks_images)
  with assms show ?thesis
    by (auto simp: x decodeResponsesItem_def Let_def bindE_eq_Inr image_decoders_ok
        intro!: images_ok_appendBlock split: if_splits)
qed

lemma decodeMessagesMessage_images:
  assumes "decodeMessagesMessage i x = Inr m"
  shows "ImageBlock img \<in> set (msg_blocks m) \<longrightarrow> image_ok img"
proof -
  have blocks: "image_ok img" if "mapE (\<lambda>i. decodeMessagesBlock (index_path p i)) ms = Inr bs" "Some (ImageBlock img) \<in> set bs" for p ms bs
  proof -
    from that(1) have "\<forall>b \<in> set bs. \<forall>img. b = Some (ImageBlock img) \<longrightarrow> image_ok img"
      by (rule mapE_from_all) (use decodeMessagesBlock_images in auto)
    with that(2) show ?thesis by auto
  qed
  have "ImageBlock img \<in> set (somes bs) \<longleftrightarrow> Some (ImageBlock img) \<in> set bs" for bs
    by (auto simp: somes_def image_iff intro!: bexI [where x = "Some (ImageBlock img)"])
  with assms blocks show ?thesis
    by (auto simp: decodeMessagesMessage_def decodeMessagesContent_def bindE_eq_Inr split: if_splits prod.splits)
qed

lemma decoded_images:
  assumes "DecodeRequest body source = Inr r"
  shows "images_ok (req_messages r)"
proof -
  have chat: "images_ok (snd (snd t))" if "foldE decodeChatMessage xs (False, [], []) = Inr t" for xs t
    using that by (rule foldE_invariant) (auto intro: decodeChatMessage_images)
  have responses: "images_ok (snd t)" if "foldE decodeResponsesItem xs (ins, []) = Inr t" for xs ins t
    using that by (rule foldE_invariant) (auto intro: decodeResponsesItem_images)
  have messages: "images_ok ms" if "mapE decodeMessagesMessage xs = Inr ms" for xs ms
    using mapE_from_all [OF that, of "\<lambda>m. \<forall>img. ImageBlock img \<in> set (msg_blocks m) \<longrightarrow> image_ok img"]
      decodeMessagesMessage_images by (auto simp: images_ok_def)
  show ?thesis
    using assms
    by (auto simp: DecodeRequest_def decodeChatRequest_def decodeResponsesRequest_def decodeMessagesRequest_def
        bindE_eq_Inr dest!: chat responses messages split: if_splits prod.splits)
qed

end
