(* ===== verification/RequestSpec.thy ===== *)
theory RequestSpec
  imports Convert
begin

text \<open>
  What the conversion of requests promises. The properties are stated for the text level
  (\<^verbatim>\<open>ConvertRequest\<close>, \<^verbatim>\<open>EncodeRequest\<close>, \<^verbatim>\<open>DecodeRequest\<close>) and for the parts that carry
  them: call ids, images and tool choices.
\<close>

section \<open>Sample inputs\<close>

definition chat_sample :: string where
  "chat_sample = print_json (JObj [(''model'', JStr ''virtual''), (''temperature'', JNum ''0.5''),
     (''messages'', JArr [
        JObj [(''role'', JStr ''system''), (''content'', JStr ''be brief'')],
        JObj [(''role'', JStr ''user''), (''content'', JStr ''hi'')]])])"

definition chat_sample_request :: request where
  "chat_sample_request = \<lparr>req_model = ''virtual'', req_instructions = [''be brief''],
     req_messages = [message_of ''user'' [TextBlock ''hi'']], req_tools = [], req_tool_choice = no_choice,
     req_stream = False, req_parallel = False, req_parallel_set = False, req_max_output = None,
     req_temperature = Some ''0.5'', req_top_p = None, req_stop = [], req_effort = []\<rparr>"

definition long_id :: string where
  "long_id = replicate 65 (CHR ''x'')"

definition call_sample_request :: request where
  "call_sample_request = chat_sample_request\<lparr>req_messages :=
     [message_of ''assistant'' [ToolCallBlock \<lparr>call_id = long_id, call_upstream_id = [], call_name = ''f'', call_arguments = Some (JObj [])\<rparr>],
      message_of ''user'' [ToolResultBlock \<lparr>result_call_id = long_id, result_content = ''ok'', result_is_error = False\<rparr>]]\<rparr>"

definition sample_image :: image where
  "sample_image = \<lparr>img_source = no_source\<lparr>src_kind := ImageURL, src_url := ''https://x/y.png''\<rparr>, img_detail = Some ''low''\<rparr>"

lemma chat_sample_decoded: "DecodeRequest chat_sample Chat = Inr chat_sample_request"
  by code_simp


section \<open>Conversion\<close>

text \<open>
  C1. Converting a request whose content the target can carry succeeds, and reading the
  converted body with the decoder of the target gives exactly the view the target has of the
  decoded request: the upstream model put in, the default for \<^verbatim>\<open>max_tokens\<close> and the strictness
  of tools filled in, everything else as the client sent it.
\<close>

theorem convert_request_correct:
  assumes "DecodeRequest body source = Inr r" and "target \<in> {Chat, Responses, Messages}"
    and "request_ok target (retarget r source target model default_max)"
  shows "\<exists>out. ConvertRequest body source target model default_max = Inr out \<and>
    DecodeRequest out target = Inr (request_view target (retarget r source target model default_max))"
  using assms by (rule convert_request)

lemma chat_sample_ok: "request_ok target (retarget chat_sample_request Chat target ''up'' 4096)"
  by (simp add: request_ok_def retarget_def chat_sample_request_def message_ok_def choice_ok_def float_ok_def
      in_int64_def Let_def; code_simp)

theorem convert_request_witness:
  "\<exists>out. ConvertRequest chat_sample Chat Messages ''up'' 4096 = Inr out \<and>
    DecodeRequest out Messages = Inr (request_view Messages (retarget chat_sample_request Chat Messages ''up'' 4096))"
  by (rule convert_request_correct [OF chat_sample_decoded _ chat_sample_ok]) simp

text \<open>
  C2. What an encoder of the gateway writes, the decoder of the same protocol reads back: the
  text an encoder produces for a well-formed request is valid JSON whose decoding is the view
  that protocol has of the request.
\<close>

theorem encoded_request_decodes:
  assumes "request_ok target r" and "EncodeRequest r target = Inr body"
  shows "DecodeRequest body target = Inr (request_view target r)"
  using assms by (rule decode_encoded_request)

theorem encoded_request_decodes_witness:
  "\<exists>body. EncodeRequest (retarget chat_sample_request Chat Responses ''up'' 1) Responses = Inr body \<and>
     DecodeRequest body Responses = Inr (request_view Responses (retarget chat_sample_request Chat Responses ''up'' 1))"
proof -
  have "is_ok (EncodeRequest (retarget chat_sample_request Chat Responses ''up'' 1) Responses)" by code_simp
  then obtain body where body: "EncodeRequest (retarget chat_sample_request Chat Responses ''up'' 1) Responses = Inr body"
    by (auto simp: is_ok_iff)
  have "request_ok Responses (retarget chat_sample_request Chat Responses ''up'' 1)"
    by (simp add: request_ok_def retarget_def chat_sample_request_def message_ok_def choice_ok_def float_ok_def
        in_int64_def Let_def; code_simp)
  from encoded_request_decodes [OF this body] body show ?thesis by blast
qed

section \<open>Images\<close>

text \<open>
  C5. No decoder lets an image through that the encoders could not handle: whatever the protocol of
  the client, every image of a decoded request is either base64 data of an image type or the
  client's own non-empty URL, which is no data URL (its scheme is not checked), with a detail the
  protocols know. Chat and Responses can always be sent such an image, Messages exactly when its
  detail is absent or \<^verbatim>\<open>auto\<close>.
\<close>

theorem decoded_images_valid:
  assumes "DecodeRequest body source = Inr r" and "m \<in> set (req_messages r)" and "ImageBlock img \<in> set (msg_blocks m)"
  shows "(src_kind (img_source img) = ImageURL \<and> src_url (img_source img) \<noteq> []
        \<and> \<not> has_prefix (to_lower (src_url (img_source img))) ''data:'')
      \<noteq> (src_kind (img_source img) = ImageBase64 \<and> has_prefix (to_lower (src_media_type (img_source img))) ''image/''
        \<and> (std_base64_ok (src_data (img_source img)) \<or> raw_base64_ok (src_data (img_source img))))
    \<and> img_detail img \<in> {None, Some ''auto'', Some ''low'', Some ''high''}
    \<and> is_ok (encodeImage (Some img) Chat path) \<and> is_ok (encodeImage (Some img) Responses path)
    \<and> (is_ok (encodeImage (Some img) Messages path) \<longleftrightarrow> img_detail img \<in> {None, Some ''auto''})"
proof -
  have ok: "image_ok img" using decoded_images [OF assms(1)] assms(2,3) by (auto simp: images_ok_def)
  have "Messages \<notin> {Chat, Responses}" "ImageURL \<noteq> ImageBase64"
    by (simp_all add: Chat_def Messages_def Responses_def ImageURL_def ImageBase64_def)
  with ok encodeImage_ok_iff [OF ok] show ?thesis
    by (auto simp: image_ok_def source_ok_def detail_ok_def representable_def)
qed

definition image_sample :: string where
  "image_sample = print_json (JObj [(''model'', JStr ''m''), (''messages'', JArr [
     JObj [(''role'', JStr ''user''), (''content'', JArr [
       JObj [(''type'', JStr ''image_url''), (''image_url'', JObj [(''url'', JStr ''https://x/y.png''), (''detail'', JStr ''low'')])]])]])])"

definition image_sample_request :: request where
  "image_sample_request = chat_sample_request\<lparr>req_model := ''m'', req_instructions := [],
     req_messages := [message_of ''user'' [ImageBlock sample_image]], req_temperature := None\<rparr>"

theorem decoded_images_valid_witness:
  "is_ok (encodeImage (Some sample_image) Chat ''p'') \<and> \<not> is_ok (encodeImage (Some sample_image) Messages ''p'')"
proof -
  have "DecodeRequest image_sample Chat = Inr image_sample_request" by code_simp
  from decoded_images_valid [OF this, of "message_of ''user'' [ImageBlock sample_image]" sample_image "''p''"] show ?thesis
    by (simp add: image_sample_request_def sample_image_def)
qed

text \<open>
  The encoder of an image fails exactly for the combinations the target cannot express: a
  valid image is refused only for Messages with a detail other than \<^verbatim>\<open>auto\<close> and for unknown targets.
\<close>

theorem encodeImage_refuses:
  assumes "image_ok img"
  shows "is_ok (encodeImage (Some img) target path) \<longleftrightarrow>
    target \<in> {Chat, Responses} \<or> target = Messages \<and> img_detail img \<in> {None, Some ''auto''}"
  using encodeImage_ok_iff [OF assms] by (simp add: representable_def)

theorem encodeImage_refuses_witness: "\<not> is_ok (encodeImage (Some sample_image) Messages ''p'')"
  by (subst encodeImage_refuses) code_simp+

text \<open>
  A data or http URL survives: parsing the URL an image source is written as gives the
  source back, the media type and the payload of base64 data included.
\<close>

theorem image_url_roundtrip:
  assumes "canonical_source s"
  shows "parseImageURL (imageURL s) path = Inr s"
  using assms by (rule parseImageURL_imageURL)

theorem image_url_roundtrip_witness:
  "parseImageURL (imageURL (no_source\<lparr>src_kind := ImageBase64, src_media_type := ''image/png'', src_data := ''aGk=''\<rparr>)) ''p'' =
   Inr (no_source\<lparr>src_kind := ImageBase64, src_media_type := ''image/png'', src_data := ''aGk=''\<rparr>)"
  by (rule image_url_roundtrip) code_simp

section \<open>Tool calls\<close>

text \<open>
  C3. The encoder for Responses, with its table of renamed ids and its counter, is the
  encoder that applies one fixed renaming to every call id of the request.
\<close>

theorem responses_ids_refinement:
  "foldE encodeResponsesMessage (enumerate 0 (req_messages r)) ([], initial_ids r) =
   bindE (mapE (responses_message_items (renaming r)) (req_messages r)) (\<lambda>items. Inr (concat items, final_ids r))"
  by (rule encodeResponsesRequest_input)

text \<open>
  C4. Renaming the call ids of a request keeps calls and results together and apart: two ids
  of the request are written alike only if they are the same.
\<close>

theorem renamed_ids_distinct: "inj_on (renaming r) (set (used_ids (req_messages r)))"
  by (rule renaming_inj)

text \<open>
  Every id written for Responses has at most 64 characters, and an id that was short
  enough is kept as it is.
\<close>

theorem renamed_ids_short:
  assumes "i \<in> set (used_ids (req_messages r))" and "length (used_ids (req_messages r)) < 2 ^ 63"
  shows "rune_count (renaming r i) \<le> 64 \<and> (rune_count i \<le> 64 \<longrightarrow> renaming r i = i)"
  using renaming_is_short [OF assms] renaming_short by (simp_all add: short_id_def)

theorem renamed_ids_short_witness: "rune_count (renaming call_sample_request long_id) \<le> 64"
proof -
  have ids: "used_ids (req_messages call_sample_request) = [long_id, long_id]" by code_simp
  show ?thesis using renamed_ids_short [of long_id call_sample_request] by (simp add: ids)
qed

text \<open>
  The search for a fresh id ends and is exact: from a counter it finds the first number
  whose id is not in use.
\<close>

theorem fresh_call_exact:
  "mc_id (fresh_call used n) \<notin> set used \<and> n \<le> fresh_call used n \<and>
   (\<forall>m\<ge>n. m < fresh_call used n \<longrightarrow> mc_id m \<in> set used)"
  using fresh_call_fresh fresh_call_ge fresh_call_least by blast

theorem fresh_call_exact_witness: "fresh_call [mc_id 1, mc_id 2, mc_id 4] 1 = 3"
proof -
  let ?used = "[mc_id 1, mc_id 2, mc_id 4]"
  let ?n = "fresh_call ?used 1"
  have used: "mc_id 3 \<notin> set ?used" "mc_id 1 \<in> set ?used" "mc_id 2 \<in> set ?used" by code_simp+
  have n: "mc_id ?n \<notin> set ?used" "1 \<le> ?n" "\<And>m. 1 \<le> m \<Longrightarrow> m < ?n \<Longrightarrow> mc_id m \<in> set ?used"
    using fresh_call_exact [of ?used 1] by blast+
  have "?n \<noteq> 1" "?n \<noteq> 2" using n(1) used(2,3) by metis+
  moreover have "\<not> 3 < ?n" using n(3) [of 3] used(1) by linarith
  ultimately show ?thesis using n(2) by linarith
qed

text \<open>The tool choice a client of a protocol can say again: a tool without a name only in Messages.\<close>

definition choice_view :: "string \<Rightarrow> tool_choice \<Rightarrow> tool_choice" where
  "choice_view p c =
     (if choice_mode c \<in> {''auto'', ''none'', ''required''} then \<lparr>choice_mode = choice_mode c, choice_name = []\<rparr>
      else if choice_mode c = ''tool'' \<and> (choice_name c \<noteq> [] \<or> p = Messages) then c
      else no_choice)"

text \<open>
  C6. What a protocol makes of any tool choice, exactly: of the modes every protocol has, the mode
  is read back; a forced tool with a name is read back as it was; a forced tool without a name,
  which only Messages clients can say, is read back by Messages and lost by Chat and Responses; any
  other mode is written as nothing and read as no choice.
\<close>

theorem tool_choice_roundtrip:
  "decodeChatToolChoice (map_option marshal (encodeChatToolChoice c)) = choice_view Chat c \<and>
    decodeResponsesToolChoice (map_option marshal (encodeResponsesToolChoice c)) = choice_view Responses c \<and>
    decodeMessagesToolChoice (map_option marshal (encodeMessagesToolChoice c)) = choice_view Messages c"
proof -
  have "Chat \<noteq> Messages" "Responses \<noteq> Messages" by (simp_all add: Chat_def Messages_def Responses_def)
  then show ?thesis
    by (cases c) (auto simp: choice_view_def no_choice_def encodeChatToolChoice_def decodeChatToolChoice_def chat_choice_struct_def
        encodeResponsesToolChoice_def decodeResponsesToolChoice_def encodeMessagesToolChoice_def decodeMessagesToolChoice_def
        named_choice_struct_def)
qed

end
