(* ===== verification/Usage.thy ===== *)
theory Usage
  imports Convert
begin

text \<open>
  Token counts: the usage objects of the three protocols, read and written
  (internal/protocol/response.go, stream_decode.go, stream_encode.go), and their merging
  (internal/protocol/usage.go).
\<close>

section \<open>Counters\<close>

definition valueOrZero :: "int option \<Rightarrow> int" where
  "valueOrZero value = (case value of None \<Rightarrow> 0 | Some n \<Rightarrow> n)"

lemma valueOrZero_simps [simp]: "valueOrZero None = 0" "valueOrZero (Some n) = n"
  by (simp_all add: valueOrZero_def)

text \<open>The sum of the counters that are there, in Go's 64-bit arithmetic.\<close>

fun sum_loop :: "int option list \<Rightarrow> int \<times> bool \<Rightarrow> int \<times> bool" where
  "sum_loop [] s = s"
| "sum_loop (None # vs) s = sum_loop vs s"
| "sum_loop (Some n # vs) (tot, found) = sum_loop vs (wrap64 (tot + n), True)"

definition sumPointers :: "int option list \<Rightarrow> int option" where
  "sumPointers values = (let (tot, found) = sum_loop values (0, False) in if found then Some tot else None)"

definition usagePresent :: "usage \<Rightarrow> bool" where
  "usagePresent u \<longleftrightarrow> input_tokens u \<noteq> None \<or> cache_read_tokens u \<noteq> None \<or> cache_write_tokens u \<noteq> None \<or>
     output_tokens u \<noteq> None \<or> reasoning_tokens u \<noteq> None \<or> total_tokens u \<noteq> None"

definition total_of :: "usage \<Rightarrow> int option" where
  "total_of u = sumPointers [input_tokens u, cache_read_tokens u, cache_write_tokens u, output_tokens u]"

section \<open>Reading\<close>

definition chat_usage_struct :: "members \<Rightarrow> usage decoded" where
  "chat_usage_struct kvs =
     (let (prompt, ok1) = f_ptr_int ''prompt_tokens'' kvs; (completion, ok2) = f_ptr_int ''completion_tokens'' kvs;
          (tot, ok3) = f_ptr_int ''total_tokens'' kvs;
          (cached, ok4) = f_struct (f_ptr_int ''cached_tokens'') ''prompt_tokens_details'' kvs;
          (reasoning, ok5) = f_struct (f_ptr_int ''reasoning_tokens'') ''completion_tokens_details'' kvs
      in (\<lparr>input_tokens = prompt, cache_read_tokens = cached, cache_write_tokens = None,
           output_tokens = completion, reasoning_tokens = reasoning, total_tokens = tot\<rparr>,
          ok1 \<and> ok2 \<and> ok3 \<and> ok4 \<and> ok5))"

definition responses_usage_struct :: "members \<Rightarrow> usage decoded" where
  "responses_usage_struct kvs =
     (let (input, ok1) = f_ptr_int ''input_tokens'' kvs; (output, ok2) = f_ptr_int ''output_tokens'' kvs;
          (tot, ok3) = f_ptr_int ''total_tokens'' kvs;
          (cached, ok4) = f_struct (f_ptr_int ''cached_tokens'') ''input_tokens_details'' kvs;
          (reasoning, ok5) = f_struct (f_ptr_int ''reasoning_tokens'') ''output_tokens_details'' kvs
      in (\<lparr>input_tokens = input, cache_read_tokens = cached, cache_write_tokens = None,
           output_tokens = output, reasoning_tokens = reasoning, total_tokens = tot\<rparr>,
          ok1 \<and> ok2 \<and> ok3 \<and> ok4 \<and> ok5))"

text \<open>The usage of a Messages stream event.\<close>

definition messages_stream_usage_struct :: "members \<Rightarrow> usage decoded" where
  "messages_stream_usage_struct kvs =
     (let (input, ok1) = f_ptr_int ''input_tokens'' kvs; (output, ok2) = f_ptr_int ''output_tokens'' kvs;
          (cache_read, ok3) = f_ptr_int ''cache_read_input_tokens'' kvs;
          (cache_write, ok4) = f_ptr_int ''cache_creation_input_tokens'' kvs
      in (\<lparr>input_tokens = input, cache_read_tokens = cache_read, cache_write_tokens = cache_write,
           output_tokens = output, reasoning_tokens = None, total_tokens = None\<rparr>,
          ok1 \<and> ok2 \<and> ok3 \<and> ok4))"

text \<open>The usage of a complete Messages response, which also counts thinking tokens.\<close>

definition messages_usage_struct :: "members \<Rightarrow> usage decoded" where
  "messages_usage_struct kvs =
     (let (u, ok1) = messages_stream_usage_struct kvs;
          (thinking, ok2) = f_struct (f_ptr_int ''thinking_tokens'') ''output_tokens_details'' kvs
      in (u\<lparr>reasoning_tokens := thinking\<rparr>, ok1 \<and> ok2))"

section \<open>Writing\<close>

definition g_count :: "int option \<Rightarrow> gval" where
  "g_count value = GInt (valueOrZero value)"

definition encodeChatUsage :: "usage \<Rightarrow> gval" where
  "encodeChatUsage u = GMap [(''prompt_tokens'', g_count (input_tokens u)),
     (''completion_tokens'', g_count (output_tokens u)), (''total_tokens'', g_count (total_tokens u)),
     (''prompt_tokens_details'', GMap [(''cached_tokens'', g_count (cache_read_tokens u))]),
     (''completion_tokens_details'', GMap [(''reasoning_tokens'', g_count (reasoning_tokens u))])]"

definition encodeResponsesUsage :: "usage \<Rightarrow> gval" where
  "encodeResponsesUsage u = GMap [(''input_tokens'', g_count (input_tokens u)),
     (''output_tokens'', g_count (output_tokens u)), (''total_tokens'', g_count (total_tokens u)),
     (''input_tokens_details'', GMap [(''cached_tokens'', g_count (cache_read_tokens u))]),
     (''output_tokens_details'', GMap [(''reasoning_tokens'', g_count (reasoning_tokens u))])]"

definition encodeMessagesUsage :: "usage \<Rightarrow> gval" where
  "encodeMessagesUsage u = GMap [(''input_tokens'', g_count (input_tokens u)),
     (''output_tokens'', g_count (output_tokens u)),
     (''cache_read_input_tokens'', g_count (cache_read_tokens u)),
     (''cache_creation_input_tokens'', g_count (cache_write_tokens u))]"

section \<open>Merging\<close>

definition newer :: "int option \<Rightarrow> int option \<Rightarrow> int option" where
  "newer value old = (if value \<noteq> None then value else old)"

definition mergeExtractedUsage :: "usage \<Rightarrow> usage \<Rightarrow> usage" where
  "mergeExtractedUsage destination source =
     \<lparr>input_tokens = newer (input_tokens source) (input_tokens destination),
      cache_read_tokens = newer (cache_read_tokens source) (cache_read_tokens destination),
      cache_write_tokens = newer (cache_write_tokens source) (cache_write_tokens destination),
      output_tokens = newer (output_tokens source) (output_tokens destination),
      reasoning_tokens = newer (reasoning_tokens source) (reasoning_tokens destination),
      total_tokens = newer (total_tokens source) (total_tokens destination)\<rparr>"

definition usageMap :: "usage \<Rightarrow> gmap" where
  "usageMap u = [(''input_tokens'', g_ptr_int (input_tokens u)), (''cache_read_tokens'', g_ptr_int (cache_read_tokens u)),
     (''cache_write_tokens'', g_ptr_int (cache_write_tokens u)), (''output_tokens'', g_ptr_int (output_tokens u)),
     (''reasoning_tokens'', g_ptr_int (reasoning_tokens u)), (''total_tokens'', g_ptr_int (total_tokens u))]"

text \<open>
  Merging is the accumulation of a stream: a monoid whose unit is the empty usage, in which
  the later counter wins.
\<close>

lemma newer_simps [simp]:
  "newer None v = v" "newer v None = v" "newer (Some n) v = Some n" "newer v v = v"
  "newer (newer v w) x = newer v (newer w x)" "newer v w = None \<longleftrightarrow> v = None \<and> w = None"
  by (auto simp: newer_def)

lemma mergeExtractedUsage_unit [simp]:
  "mergeExtractedUsage no_usage u = u" "mergeExtractedUsage u no_usage = u"
  by (simp_all add: mergeExtractedUsage_def no_usage_def)

lemma mergeExtractedUsage_assoc:
  "mergeExtractedUsage (mergeExtractedUsage a b) c = mergeExtractedUsage a (mergeExtractedUsage b c)"
  by (simp add: mergeExtractedUsage_def)

lemma mergeExtractedUsage_idem [simp]: "mergeExtractedUsage u u = u"
  by (simp add: mergeExtractedUsage_def)

lemma usagePresent_merge: "usagePresent (mergeExtractedUsage a b) \<longleftrightarrow> usagePresent a \<or> usagePresent b"
  by (simp add: usagePresent_def mergeExtractedUsage_def del: not_None_eq) blast

section \<open>Round trips\<close>

definition counters_ok :: "usage \<Rightarrow> bool" where
  "counters_ok u \<longleftrightarrow> (\<forall>c \<in> {input_tokens u, cache_read_tokens u, cache_write_tokens u, output_tokens u,
     reasoning_tokens u, total_tokens u}. in_int64 (valueOrZero c))"

definition filled :: "usage \<Rightarrow> usage" where
  "filled u = \<lparr>input_tokens = Some (valueOrZero (input_tokens u)),
     cache_read_tokens = Some (valueOrZero (cache_read_tokens u)), cache_write_tokens = None,
     output_tokens = Some (valueOrZero (output_tokens u)),
     reasoning_tokens = Some (valueOrZero (reasoning_tokens u)),
     total_tokens = Some (valueOrZero (total_tokens u))\<rparr>"

lemma dec_ptr_itoa [simp]:
  "in_int64 i \<Longrightarrow> dec_ptr dec_int 0 None (JNum (itoa i)) = (Some i, True)"
  by simp

lemma chat_usage_roundtrip:
  "counters_ok u \<Longrightarrow> dec_struct chat_usage_struct (marshal (encodeChatUsage u)) = (filled u, True)"
  by (simp add: chat_usage_struct_def encodeChatUsage_def g_count_def counters_ok_def filled_def)

lemma responses_usage_roundtrip:
  "counters_ok u \<Longrightarrow> dec_struct responses_usage_struct (marshal (encodeResponsesUsage u)) = (filled u, True)"
  by (simp add: responses_usage_struct_def encodeResponsesUsage_def g_count_def counters_ok_def filled_def)

lemma messages_usage_roundtrip:
  "counters_ok u \<Longrightarrow> dec_struct messages_usage_struct (marshal (encodeMessagesUsage u)) =
     (\<lparr>input_tokens = Some (valueOrZero (input_tokens u)),
     cache_read_tokens = Some (valueOrZero (cache_read_tokens u)),
     cache_write_tokens = Some (valueOrZero (cache_write_tokens u)),
     output_tokens = Some (valueOrZero (output_tokens u)),
     reasoning_tokens = None, total_tokens = None\<rparr>, True)"
  by (simp add: messages_usage_struct_def messages_stream_usage_struct_def encodeMessagesUsage_def g_count_def
      counters_ok_def field_Nil fields_of_def)

lemma wf_usage [simp]:
  "wf_g (encodeChatUsage u)" "wf_g (encodeResponsesUsage u)" "wf_g (encodeMessagesUsage u)"
  by (simp_all add: encodeChatUsage_def encodeResponsesUsage_def encodeMessagesUsage_def g_count_def)

lemma sum_loop_exact:
  assumes "\<And>n. Some n \<in> set vs \<Longrightarrow> 0 \<le> n"
    and "0 \<le> t" and "t + sum_list (map valueOrZero vs) < 2 ^ 63"
  shows "sum_loop vs (t, f) = (t + sum_list (map valueOrZero vs), f \<or> (\<exists>n. Some n \<in> set vs))"
  using assms
proof (induction vs "(t, f)" arbitrary: t f rule: sum_loop.induct)
  case (3 n vs t f)
  have "0 \<le> sum_list (map valueOrZero vs)"
  proof (rule sum_list_nonneg)
    fix x
    assume "x \<in> set (map valueOrZero vs)"
    then obtain v where "v \<in> set vs" and "x = valueOrZero v" by auto
    with "3.prems"(1) show "0 \<le> x" by (cases v) auto
  qed
  moreover have "0 \<le> n" using "3.prems"(1) by simp
  ultimately have "wrap64 (t + n) = t + n" using "3.prems" by (simp add: wrap64_def)
  with "3.hyps" "3.prems" show ?case by auto
qed auto

end
