(* ===== verification/Response.thy ===== *)
theory Response
  imports Usage
begin

text \<open>
  Complete responses: decoding, encoding and converting them (internal/protocol/response.go).

  The random ids and the clock are parameters: \<open>rand k\<close> is the hexadecimal text of the
  \<open>k\<close>-th draw of an encoder, \<open>now k\<close> its \<open>k\<close>-th reading of the clock.
\<close>

section \<open>Stop reasons and ids\<close>

definition chatStopToCanonical :: "string \<Rightarrow> string" where
  "chatStopToCanonical reason =
     (if reason \<in> {''tool_calls'', ''function_call''} then ''tool_use''
      else if reason = ''length'' then ''max_tokens''
      else if reason = ''content_filter'' then ''content_filter''
      else ''end_turn'')"

definition messagesStopToCanonical :: "string \<Rightarrow> string" where
  "messagesStopToCanonical reason =
     (if reason \<in> {''tool_use'', ''max_tokens'', ''stop_sequence'', ''refusal''} then reason else ''end_turn'')"

definition canonicalStopToChat :: "string \<Rightarrow> string" where
  "canonicalStopToChat reason =
     (if reason = ''tool_use'' then ''tool_calls''
      else if reason = ''max_tokens'' then ''length''
      else if reason \<in> {''content_filter'', ''refusal''} then ''content_filter''
      else ''stop'')"

definition canonicalStopToMessages :: "string \<Rightarrow> string" where
  "canonicalStopToMessages reason =
     (if reason \<in> {''tool_use'', ''max_tokens'', ''stop_sequence''} then reason
      else if reason \<in> {''refusal'', ''content_filter''} then ''refusal''
      else ''end_turn'')"

definition newID :: "(nat \<Rightarrow> string) \<Rightarrow> nat \<Rightarrow> string \<Rightarrow> string" where
  "newID rand k prefix = prefix @ ''_'' @ rand k"

definition idOr :: "(nat \<Rightarrow> string) \<Rightarrow> string \<Rightarrow> string \<Rightarrow> string" where
  "idOr rand i prefix = (if i \<noteq> [] then i else newID rand 0 prefix)"

section \<open>Decoding\<close>

record chat_choice =
  cx_content :: string
  cx_reasoning :: string
  cx_calls :: "chat_call list"
  cx_finish :: string

definition response_call_struct :: "members \<Rightarrow> chat_call decoded" where
  "response_call_struct kvs =
     (let (i, ok1) = f_string ''id'' kvs; ((name, arguments), ok2) = f_struct chat_function_struct ''function'' kvs
      in (\<lparr>cc_id = i, cc_type = [], cc_name = name, cc_arguments = arguments\<rparr>, ok1 \<and> ok2))"

definition response_message_struct :: "members \<Rightarrow> (string \<times> string \<times> chat_call list) decoded" where
  "response_message_struct kvs =
     (let (content, ok1) = f_string ''content'' kvs; (reasoning, ok2) = f_string ''reasoning_content'' kvs;
          (calls, ok3) = f_slice (dec_struct response_call_struct) ''tool_calls'' kvs
      in ((content, reasoning, calls), ok1 \<and> ok2 \<and> ok3))"

definition chat_choice_message :: "members \<Rightarrow> chat_choice decoded" where
  "chat_choice_message kvs =
     (let ((content, reasoning, calls), ok1) = f_struct response_message_struct ''message'' kvs;
          (finish, ok2) = f_string ''finish_reason'' kvs
      in (\<lparr>cx_content = content, cx_reasoning = reasoning, cx_calls = calls, cx_finish = finish\<rparr>, ok1 \<and> ok2))"

definition chat_response_struct :: "members \<Rightarrow> (string \<times> string \<times> chat_choice list \<times> usage) decoded" where
  "chat_response_struct kvs =
     (let (i, ok1) = f_string ''id'' kvs; (model, ok2) = f_string ''model'' kvs;
          (choices, ok3) = f_slice (dec_struct chat_choice_message) ''choices'' kvs;
          (usg, ok4) = f_struct chat_usage_struct ''usage'' kvs
      in ((i, model, choices, usg), ok1 \<and> ok2 \<and> ok3 \<and> ok4))"

definition response_call_block :: "chat_call \<Rightarrow> block" where
  "response_call_block call = ToolCallBlock \<lparr>call_id = cc_id call, call_upstream_id = [],
     call_name = cc_name call, call_arguments = normalizeArguments (cc_arguments call)\<rparr>"

definition decodeChatResponse :: "json \<Rightarrow> go_error + response" where
  "decodeChatResponse body =
     bindE (okE (dec_struct chat_response_struct body)) (\<lambda>(i, model, choices, usg).
     case choices of
       [] \<Rightarrow> Inl (Errorf ''Chat response has no choices'' [])
     | choice # _ \<Rightarrow>
         Inr \<lparr>resp_id = i, resp_model = model,
           resp_blocks =
             (if cx_reasoning choice \<noteq> [] then [ReasoningBlock (cx_reasoning choice)] else []) @
             (if cx_content choice \<noteq> [] then [TextBlock (cx_content choice)] else []) @
             map response_call_block (cx_calls choice),
           resp_stop = chatStopToCanonical (cx_finish choice), resp_usage = usg, resp_raw = Some body\<rparr>)"

definition responses_response_struct ::
    "members \<Rightarrow> (string \<times> string \<times> string \<times> string option \<times> members list \<times> usage) decoded" where
  "responses_response_struct kvs =
     (let (i, ok1) = f_string ''id'' kvs; (model, ok2) = f_string ''model'' kvs;
          (status, ok3) = f_string ''status'' kvs;
          (incomplete, ok4) = f_ptr_struct (f_string ''reason'') ''incomplete_details'' kvs;
          (out, ok5) = f_slice dec_map ''output'' kvs;
          (usg, ok6) = f_struct responses_usage_struct ''usage'' kvs
      in ((i, model, status, incomplete, out, usg), ok1 \<and> ok2 \<and> ok3 \<and> ok4 \<and> ok5 \<and> ok6))"

definition decodeOutputPart :: "nat \<Rightarrow> members \<Rightarrow> go_error + block" where
  "decodeOutputPart _ part =
     (let part_type = fst (unm_string (entry ''type'' part)) in
      if part_type = ''refusal'' then Inl (Errorf ''cross-protocol refusal blocks are not supported'' [])
      else if part_type \<noteq> ''output_text'' \<and> part_type \<noteq> ''text'' then
        Inl (Errorf ''unsupported Responses output content %q'' [part_type])
      else Inr (TextBlock (fst (unm_string (entry ''text'' part)))))"

definition summary_struct :: "members \<Rightarrow> (string \<times> string) decoded" where
  "summary_struct kvs =
     (let (t, ok1) = f_string ''type'' kvs; (text, ok2) = f_string ''text'' kvs in ((t, text), ok1 \<and> ok2))"

definition decodeSummaryPart :: "nat \<Rightarrow> string \<times> string \<Rightarrow> go_error + block option" where
  "decodeSummaryPart _ = (\<lambda>(part_type, text).
     if part_type \<noteq> ''summary_text'' then
       Inl (Errorf ''unsupported Responses reasoning summary %q'' [part_type])
     else Inr (if text \<noteq> [] then Some (ReasoningBlock text) else None))"

text \<open>The loop over the output items; its state is the blocks and the stop reason.\<close>

definition decodeOutputItem :: "members \<Rightarrow> block list \<times> string \<Rightarrow> go_error + block list \<times> string" where
  "decodeOutputItem item = (\<lambda>(blocks, stop).
     let item_type = fst (unm_string (entry ''type'' item)) in
     if item_type = ''message'' then
       bindE (okE (unm_maps (entry ''content'' item))) (\<lambda>content.
       bindE (mapE decodeOutputPart content) (\<lambda>texts. Inr (blocks @ texts, stop)))
     else if item_type = ''function_call'' then
       Inr (blocks @ [ToolCallBlock \<lparr>call_id = fst (unm_string (entry ''call_id'' item)), call_upstream_id = [],
          call_name = fst (unm_string (entry ''name'' item)),
          call_arguments = normalizeArguments (fst (unm_raw (entry ''arguments'' item)))\<rparr>], ''tool_use'')
     else if item_type = ''reasoning'' then
       bindE (if entry ''summary'' item = None then Inr []
              else okE (unm_slice (dec_struct summary_struct) (entry ''summary'' item))) (\<lambda>summary.
       bindE (mapE decodeSummaryPart summary) (\<lambda>parts. Inr (blocks @ somes parts, stop)))
     else Inl (Errorf ''unsupported Responses output item %q'' [item_type]))"

definition decodeResponsesResponse :: "json \<Rightarrow> go_error + response" where
  "decodeResponsesResponse body =
     bindE (okE (dec_struct responses_response_struct body)) (\<lambda>(i, model, status, incomplete, out, usg).
     bindE (foldE decodeOutputItem out
              ([], if status = ''incomplete'' \<and> incomplete \<noteq> None then ''max_tokens'' else ''end_turn''))
       (\<lambda>(blocks, stop).
     Inr \<lparr>resp_id = i, resp_model = model, resp_blocks = blocks, resp_stop = stop, resp_usage = usg,
          resp_raw = Some body\<rparr>))"

definition messages_response_struct ::
    "members \<Rightarrow> (string \<times> string \<times> members list \<times> string \<times> usage) decoded" where
  "messages_response_struct kvs =
     (let (i, ok1) = f_string ''id'' kvs; (model, ok2) = f_string ''model'' kvs;
          (content, ok3) = f_slice dec_map ''content'' kvs; (stop, ok4) = f_string ''stop_reason'' kvs;
          (usg, ok5) = f_struct messages_usage_struct ''usage'' kvs
      in ((i, model, content, stop, usg), ok1 \<and> ok2 \<and> ok3 \<and> ok4 \<and> ok5))"

definition decodeResponseItem :: "nat \<Rightarrow> members \<Rightarrow> go_error + block option" where
  "decodeResponseItem _ item =
     (let item_type = fst (unm_string (entry ''type'' item)) in
      if item_type = ''text'' then Inr (Some (TextBlock (fst (unm_string (entry ''text'' item)))))
      else if item_type = ''tool_use'' then
        Inr (Some (ToolCallBlock \<lparr>call_id = fst (unm_string (entry ''id'' item)), call_upstream_id = [],
          call_name = fst (unm_string (entry ''name'' item)),
          call_arguments = normalizeArguments (fst (unm_raw (entry ''input'' item)))\<rparr>))
      else if item_type = ''thinking'' then
        (let thinking = fst (unm_string (entry ''thinking'' item)) in
         Inr (if thinking \<noteq> [] then Some (ReasoningBlock thinking) else None))
      else if item_type = ''redacted_thinking'' then Inr None
      else Inl (Errorf ''unsupported Messages response content %q'' [item_type]))"

definition decodeMessagesResponse :: "json \<Rightarrow> go_error + response" where
  "decodeMessagesResponse body =
     bindE (okE (dec_struct messages_response_struct body)) (\<lambda>(i, model, content, stop, usg).
     bindE (mapE decodeResponseItem content) (\<lambda>blocks.
     Inr \<lparr>resp_id = i, resp_model = model, resp_blocks = somes blocks,
          resp_stop = messagesStopToCanonical stop, resp_usage = usg\<lparr>total_tokens := total_of usg\<rparr>,
          resp_raw = Some body\<rparr>))"

definition DecodeResponse :: "string \<Rightarrow> string \<Rightarrow> go_error + response" where
  "DecodeResponse body protocol =
     (if protocol = Chat then bindE (unmarshal_text body) decodeChatResponse
      else if protocol = Responses then bindE (unmarshal_text body) decodeResponsesResponse
      else if protocol = Messages then bindE (unmarshal_text body) decodeMessagesResponse
      else Inl (Errorf ''unsupported protocol %q'' [protocol]))"

section \<open>Encoding\<close>

definition joined_texts :: "block list \<Rightarrow> string" where
  "joined_texts bs = concat (text_blocks bs)"

definition joined_reasoning :: "block list \<Rightarrow> string" where
  "joined_reasoning bs = concat (reasoning_texts bs)"

definition encodeChatResponse :: "(nat \<Rightarrow> string) \<Rightarrow> (nat \<Rightarrow> int) \<Rightarrow> response \<Rightarrow> gmap" where
  "encodeChatResponse rand now r =
     (let calls = map chat_call (tool_calls (resp_blocks r));
          m0 = [(''role'', GStr ''assistant''), (''content'', GStr (joined_texts (resp_blocks r)))];
          m1 = optput (joined_reasoning (resp_blocks r) \<noteq> []) ''reasoning_content''
                 (GStr (joined_reasoning (resp_blocks r))) m0;
          m2 = optput (calls \<noteq> []) ''tool_calls'' (GArr calls) m1
      in [(''id'', GStr (idOr rand (resp_id r) ''chatcmpl'')), (''object'', GStr ''chat.completion''),
          (''created'', GInt (now 0)), (''model'', GStr (resp_model r)),
          (''choices'', GArr [GMap [(''index'', GInt 0), (''message'', GMap m2),
             (''finish_reason'', GStr (canonicalStopToChat (resp_stop r)))]]),
          (''usage'', encodeChatUsage (resp_usage r))])"

definition reasoning_output :: "string \<Rightarrow> string \<Rightarrow> gval" where
  "reasoning_output i text = GMap [(''id'', GStr i), (''type'', GStr ''reasoning''),
     (''summary'', GArr [GMap [(''type'', GStr ''summary_text''), (''text'', GStr text)]])]"

definition message_output :: "string \<Rightarrow> string \<Rightarrow> gval" where
  "message_output i text = GMap [(''id'', GStr i), (''type'', GStr ''message''), (''status'', GStr ''completed''),
     (''role'', GStr ''assistant''),
     (''content'', GArr [GMap [(''type'', GStr ''output_text''), (''text'', GStr text), (''annotations'', GArr [])]])]"

definition call_output :: "string \<Rightarrow> tool_call \<Rightarrow> gval" where
  "call_output i c = GMap [(''id'', GStr i), (''type'', GStr ''function_call''), (''status'', GStr ''completed''),
     (''call_id'', GStr (call_id c)), (''name'', GStr (call_name c)),
     (''arguments'', GStr (raw_text (call_arguments c)))]"

text \<open>The calls draw their ids one after the other, starting with draw \<open>k\<close>.\<close>

fun call_outputs :: "(nat \<Rightarrow> string) \<Rightarrow> nat \<Rightarrow> tool_call list \<Rightarrow> gval list" where
  "call_outputs rand k [] = []"
| "call_outputs rand k (c # cs) = call_output (newID rand k ''fc'') c # call_outputs rand (Suc k) cs"

definition encodeResponsesResponse :: "(nat \<Rightarrow> string) \<Rightarrow> (nat \<Rightarrow> int) \<Rightarrow> response \<Rightarrow> gmap" where
  "encodeResponsesResponse rand now r =
     (let reasoning = joined_reasoning (resp_blocks r); text = joined_texts (resp_blocks r);
          k0 = (if resp_id r \<noteq> [] then 0 else 1);
          k1 = (if reasoning \<noteq> [] then Suc k0 else k0);
          k2 = (if text \<noteq> [] then Suc k1 else k1);
          out = (if reasoning \<noteq> [] then [reasoning_output (newID rand k0 ''rs'') reasoning] else []) @
             (if text \<noteq> [] then [message_output (newID rand k1 ''msg'') text] else []) @
             call_outputs rand k2 (tool_calls (resp_blocks r));
          cut_off = resp_stop r = ''max_tokens''
      in [(''id'', GStr (idOr rand (resp_id r) ''resp'')), (''object'', GStr ''response''),
          (''created_at'', GInt (now 0)), (''completed_at'', GInt (now 1)),
          (''status'', GStr (if cut_off then ''incomplete'' else ''completed'')), (''error'', GNil),
          (''incomplete_details'', if cut_off then GMap [(''reason'', GStr ''max_output_tokens'')] else GNil),
          (''model'', GStr (resp_model r)), (''output'', GArr out), (''parallel_tool_calls'', GBool True),
          (''usage'', encodeResponsesUsage (resp_usage r))])"

fun messages_output :: "block list \<Rightarrow> gval list" where
  "messages_output [] = []"
| "messages_output (ReasoningBlock t # bs) =
     GMap [(''type'', GStr ''thinking''), (''thinking'', GStr t)] # messages_output bs"
| "messages_output (TextBlock t # bs) = text_part ''text'' t # messages_output bs"
| "messages_output (ToolCallBlock c # bs) =
     GMap [(''type'', GStr ''tool_use''), (''id'', GStr (call_id c)), (''name'', GStr (call_name c)),
       (''input'', rawOrObject (call_arguments c))] # messages_output bs"
| "messages_output (_ # bs) = messages_output bs"

definition encodeMessagesResponse :: "(nat \<Rightarrow> string) \<Rightarrow> response \<Rightarrow> gmap" where
  "encodeMessagesResponse rand r =
     [(''id'', GStr (idOr rand (resp_id r) ''msg'')), (''type'', GStr ''message''), (''role'', GStr ''assistant''),
      (''model'', GStr (resp_model r)), (''content'', GArr (messages_output (resp_blocks r))),
      (''stop_reason'', GStr (canonicalStopToMessages (resp_stop r))), (''stop_sequence'', GNil),
      (''usage'', encodeMessagesUsage (resp_usage r))]"

definition encode_response_tree ::
    "(nat \<Rightarrow> string) \<Rightarrow> (nat \<Rightarrow> int) \<Rightarrow> response \<Rightarrow> string \<Rightarrow> go_error + gmap" where
  "encode_response_tree rand now r protocol =
     (if protocol = Chat then Inr (encodeChatResponse rand now r)
      else if protocol = Responses then Inr (encodeResponsesResponse rand now r)
      else if protocol = Messages then Inr (encodeMessagesResponse rand r)
      else Inl (Errorf ''unsupported protocol %q'' [protocol]))"

definition EncodeResponse ::
    "(nat \<Rightarrow> string) \<Rightarrow> (nat \<Rightarrow> int) \<Rightarrow> response \<Rightarrow> string \<Rightarrow> go_error + string" where
  "EncodeResponse rand now r protocol =
     bindE (encode_response_tree rand now r protocol) (\<lambda>m. Inr (print_json (marshal (GMap m))))"

definition ConvertResponse ::
    "(nat \<Rightarrow> string) \<Rightarrow> (nat \<Rightarrow> int) \<Rightarrow> string \<Rightarrow> string \<Rightarrow> string \<Rightarrow> string \<Rightarrow> go_error + string" where
  "ConvertResponse rand now body source target virtual_model =
     bindE (DecodeResponse body source) (\<lambda>r.
     EncodeResponse rand now (r\<lparr>resp_model := virtual_model\<rparr>) target)"

section \<open>What a conversion keeps\<close>

text \<open>A call as the decoders give it: with arguments that are a JSON value.\<close>

definition call_wf :: "tool_call \<Rightarrow> bool" where
  "call_wf c \<longleftrightarrow> (\<exists>j. call_arguments c = Some j \<and> wf_json j) \<and> call_upstream_id c = []"

lemma call_read:
  assumes "call_wf c"
  shows "\<lparr>call_id = call_id c, call_upstream_id = [], call_name = call_name c,
     call_arguments = normalizeArguments (Some (JStr (raw_text (call_arguments c))))\<rparr> = c"
  using assms by (cases c) (auto simp: call_wf_def normalizeArguments_def raw_text_def)

definition response_ok :: "response \<Rightarrow> bool" where
  "response_ok r \<longleftrightarrow> list_all call_wf (tool_calls (resp_blocks r)) \<and> counters_ok (resp_usage r)"

definition canonical_blocks :: "block list \<Rightarrow> block list" where
  "canonical_blocks bs =
     (if joined_reasoning bs \<noteq> [] then [ReasoningBlock (joined_reasoning bs)] else []) @
     (if joined_texts bs \<noteq> [] then [TextBlock (joined_texts bs)] else []) @
     map ToolCallBlock (tool_calls bs)"

lemma response_call_encoded:
  assumes "call_wf c"
  shows "dec_struct response_call_struct (marshal (chat_call c)) =
     (\<lparr>cc_id = call_id c, cc_type = [], cc_name = call_name c,
       cc_arguments = Some (JStr (raw_text (call_arguments c)))\<rparr>, True)"
  using assms by (auto simp: EncodeRequest.chat_call_def response_call_struct_def chat_function_struct_def)

lemma response_calls_encoded:
  assumes "list_all call_wf cs"
  shows "\<exists>ds. dec_elems (dec_struct response_call_struct) (map (\<lambda>c. marshal (chat_call c)) cs) = (ds, True) \<and>
     map response_call_block ds = map ToolCallBlock cs"
  using assms
proof (induction cs)
  case (Cons c cs)
  then obtain ds where "dec_elems (dec_struct response_call_struct) (map (\<lambda>c. marshal (chat_call c)) cs) = (ds, True)"
    and "map response_call_block ds = map ToolCallBlock cs" by auto
  moreover have "response_call_block \<lparr>cc_id = call_id c, cc_type = [], cc_name = call_name c,
       cc_arguments = Some (JStr (raw_text (call_arguments c)))\<rparr> = ToolCallBlock c"
    using Cons.prems call_read [of c] by (simp add: response_call_block_def)
  ultimately show ?case using Cons.prems by (simp add: response_call_encoded)
qed simp

lemma chat_response_roundtrip:
  assumes "response_ok r"
  shows "decodeChatResponse (marshal (GMap (encodeChatResponse rand now r))) =
    Inr \<lparr>resp_id = idOr rand (resp_id r) ''chatcmpl'', resp_model = resp_model r,
      resp_blocks = canonical_blocks (resp_blocks r),
      resp_stop = chatStopToCanonical (canonicalStopToChat (resp_stop r)),
      resp_usage = filled (resp_usage r), resp_raw = Some (marshal (GMap (encodeChatResponse rand now r)))\<rparr>"
proof -
  let ?bs = "resp_blocks r"
  obtain ds where ds: "dec_elems (dec_struct response_call_struct) (map (\<lambda>c. marshal (chat_call c)) (tool_calls ?bs)) = (ds, True)"
    "map response_call_block ds = map ToolCallBlock (tool_calls ?bs)"
    using assms response_calls_encoded [of "tool_calls ?bs"] by (auto simp: response_ok_def)
  let ?m = "optput (tool_calls ?bs \<noteq> []) ''tool_calls'' (GArr (map chat_call (tool_calls ?bs)))
    (optput (joined_reasoning ?bs \<noteq> []) ''reasoning_content'' (GStr (joined_reasoning ?bs))
      [(''role'', GStr ''assistant''), (''content'', GStr (joined_texts ?bs))])"
  have m: "dec_struct response_message_struct (marshal (GMap ?m)) = ((joined_texts ?bs, joined_reasoning ?bs, ds), True)"
    using ds(1) by (auto simp: response_message_struct_def comp_def)
  have u: "dec_struct chat_usage_struct (marshal (encodeChatUsage (resp_usage r))) = (filled (resp_usage r), True)"
    using assms by (intro chat_usage_roundtrip) (simp add: response_ok_def)
  have choice: "chat_choice_message (marshal_members [(''index'', GInt 0), (''message'', GMap ?m),
       (''finish_reason'', GStr (canonicalStopToChat (resp_stop r)))]) =
     (\<lparr>cx_content = joined_texts ?bs, cx_reasoning = joined_reasoning ?bs, cx_calls = ds,
       cx_finish = canonicalStopToChat (resp_stop r)\<rparr>, True)"
    using m by (simp add: chat_choice_message_def)
  have "dec_struct chat_response_struct (marshal (GMap (encodeChatResponse rand now r))) =
     ((idOr rand (resp_id r) ''chatcmpl'', resp_model r,
       [\<lparr>cx_content = joined_texts ?bs, cx_reasoning = joined_reasoning ?bs, cx_calls = ds,
         cx_finish = canonicalStopToChat (resp_stop r)\<rparr>], filled (resp_usage r)), True)"
    using choice u by (simp add: chat_response_struct_def encodeChatResponse_def Let_def)
  then show ?thesis unfolding decodeChatResponse_def
    by (simp add: canonical_blocks_def ds(2) del: marshal_GMap)
qed

lemma decodeOutputItem_encoded:
  "dec_map (marshal (reasoning_output i t)) = (kvs, True) \<Longrightarrow> t \<noteq> [] \<Longrightarrow>
   decodeOutputItem kvs (bs, stop) = Inr (bs @ [ReasoningBlock t], stop)"
  "dec_map (marshal (message_output i t)) = (kvs, True) \<Longrightarrow>
   decodeOutputItem kvs (bs, stop) = Inr (bs @ [TextBlock t], stop)"
  "dec_map (marshal (call_output i c)) = (kvs, True) \<Longrightarrow> call_wf c \<Longrightarrow>
   decodeOutputItem kvs (bs, stop) = Inr (bs @ [ToolCallBlock c], ''tool_use'')"
  using call_read [of c]
  by (auto simp: decodeOutputItem_def Let_def reasoning_output_def message_output_def call_output_def
      summary_struct_def decodeSummaryPart_def decodeOutputPart_def)

text \<open>Output items that decode to a list of blocks.\<close>

definition outputs_decode :: "gval list \<Rightarrow> block list \<Rightarrow> bool" where
  "outputs_decode gs bs \<longleftrightarrow> (\<exists>ms. dec_elems dec_map (map marshal gs) = (ms, True) \<and>
     (\<forall>acc stop. foldE decodeOutputItem ms (acc, stop) =
        Inr (acc @ bs, if tool_calls bs \<noteq> [] then ''tool_use'' else stop)))"

lemma tool_calls_append [simp]: "tool_calls (bs @ cs) = tool_calls bs @ tool_calls cs"
  by (induction bs rule: tool_calls.induct) simp_all

lemma tool_calls_map [simp]: "tool_calls (map ToolCallBlock cs) = cs"
  by (induction cs) simp_all

lemma canonical_blocks_calls [simp]: "tool_calls (canonical_blocks bs) = tool_calls bs"
  by (simp add: canonical_blocks_def)

lemma canonical_blocks_texts [simp]:
  "joined_texts (canonical_blocks bs) = joined_texts bs" "joined_reasoning (canonical_blocks bs) = joined_reasoning bs"
proof -
  have t: "text_blocks (xs @ ys) = text_blocks xs @ text_blocks ys" for xs ys
    by (induction xs rule: text_blocks.induct) simp_all
  have r: "reasoning_texts (xs @ ys) = reasoning_texts xs @ reasoning_texts ys" for xs ys
    by (induction xs rule: reasoning_texts.induct) simp_all
  have "text_blocks (map ToolCallBlock cs) = []" "reasoning_texts (map ToolCallBlock cs) = []" for cs
    by (induction cs) simp_all
  then show "joined_texts (canonical_blocks bs) = joined_texts bs"
    "joined_reasoning (canonical_blocks bs) = joined_reasoning bs"
    by (simp_all add: canonical_blocks_def joined_texts_def [of "xs @ ys" for xs ys] joined_reasoning_def [of "xs @ ys" for xs ys] t r)
qed

lemma outputs_decode_Nil: "outputs_decode [] []"
  by (simp add: outputs_decode_def)

lemma outputs_decode_append: "outputs_decode gs bs \<Longrightarrow> outputs_decode hs cs \<Longrightarrow> outputs_decode (gs @ hs) (bs @ cs)"
  by (auto simp: outputs_decode_def dec_elems_append foldE_append)

lemma outputs_decode_single:
  "t \<noteq> [] \<Longrightarrow> outputs_decode [reasoning_output i t] [ReasoningBlock t]"
  "outputs_decode [message_output i t] [TextBlock t]"
  "call_wf c \<Longrightarrow> outputs_decode [call_output i c] [ToolCallBlock c]"
  using decodeOutputItem_encoded
  by (simp_all add: outputs_decode_def reasoning_output_def message_output_def call_output_def)

lemma outputs_decode_calls: "list_all call_wf cs \<Longrightarrow> outputs_decode (call_outputs rand k cs) (map ToolCallBlock cs)"
proof (induction cs arbitrary: k)
  case (Cons c cs)
  then show ?case
    using outputs_decode_append [OF outputs_decode_single(3), of c "call_outputs rand (Suc k) cs"] by simp
qed (simp add: outputs_decode_Nil)

lemma responses_response_roundtrip:
  assumes "response_ok r"
  shows "decodeResponsesResponse (marshal (GMap (encodeResponsesResponse rand now r))) =
    Inr \<lparr>resp_id = idOr rand (resp_id r) ''resp'', resp_model = resp_model r,
      resp_blocks = canonical_blocks (resp_blocks r),
      resp_stop = (if tool_calls (resp_blocks r) \<noteq> [] then ''tool_use''
                   else if resp_stop r = ''max_tokens'' then ''max_tokens'' else ''end_turn''),
      resp_usage = filled (resp_usage r), resp_raw = Some (marshal (GMap (encodeResponsesResponse rand now r)))\<rparr>"
proof -
  let ?bs = "resp_blocks r" and ?m = "encodeResponsesResponse rand now r"
  let ?R = "joined_reasoning ?bs" and ?T = "joined_texts ?bs"
  from assms have ok: "list_all call_wf (tool_calls ?bs)" by (simp add: response_ok_def)
  obtain gs where gs: "map_of ?m ''output'' = Some (GArr gs)" and "outputs_decode gs (canonical_blocks ?bs)"
  proof
    let ?k0 = "if resp_id r \<noteq> [] then 0 else 1 :: nat"
    let ?k1 = "if ?R \<noteq> [] then Suc ?k0 else ?k0"
    let ?k2 = "if ?T \<noteq> [] then Suc ?k1 else ?k1"
    let ?gs = "(if ?R \<noteq> [] then [reasoning_output (newID rand ?k0 ''rs'') ?R] else []) @
       (if ?T \<noteq> [] then [message_output (newID rand ?k1 ''msg'') ?T] else []) @
       call_outputs rand ?k2 (tool_calls ?bs)"
    show "map_of ?m ''output'' = Some (GArr ?gs)" by (simp add: encodeResponsesResponse_def Let_def)
    show "outputs_decode ?gs (canonical_blocks ?bs)"
      unfolding canonical_blocks_def
      by (intro outputs_decode_append outputs_decode_calls [OF ok]) (simp_all add: outputs_decode_Nil outputs_decode_single)
  qed
  then obtain ms where ms: "dec_elems dec_map (map marshal gs) = (ms, True)"
    "\<And>acc stop. foldE decodeOutputItem ms (acc, stop) =
        Inr (acc @ canonical_blocks ?bs, if tool_calls ?bs \<noteq> [] then ''tool_use'' else stop)"
    unfolding outputs_decode_def canonical_blocks_calls by blast
  have api: "api_map ?m" by (simp add: encodeResponsesResponse_def Let_def)
  have u: "dec_struct responses_usage_struct (marshal (encodeResponsesUsage (resp_usage r))) = (filled (resp_usage r), True)"
    using assms by (intro responses_usage_roundtrip) (simp add: response_ok_def)
  have flds: "map_of ?m ''id'' = Some (GStr (idOr rand (resp_id r) ''resp''))" "map_of ?m ''model'' = Some (GStr (resp_model r))"
    "map_of ?m ''status'' = Some (GStr (if resp_stop r = ''max_tokens'' then ''incomplete'' else ''completed''))"
    "map_of ?m ''usage'' = Some (encodeResponsesUsage (resp_usage r))"
    "map_of ?m ''incomplete_details'' = Some (if resp_stop r = ''max_tokens'' then GMap [(''reason'', GStr ''max_output_tokens'')] else GNil)"
    by (simp_all add: encodeResponsesResponse_def Let_def)
  have inc: "f_ptr_struct (f_string ''reason'') ''incomplete_details'' (marshal_members ?m) =
      (if resp_stop r = ''max_tokens'' then Some ''max_output_tokens'' else None, True)"
    by (simp add: f_ptr_struct_def fields_of_api [OF api] flds)
  have "dec_struct responses_response_struct (marshal (GMap ?m)) =
     ((idOr rand (resp_id r) ''resp'', resp_model r, if resp_stop r = ''max_tokens'' then ''incomplete'' else ''completed'',
       if resp_stop r = ''max_tokens'' then Some ''max_output_tokens'' else None, ms, filled (resp_usage r)), True)"
    by (simp add: responses_response_struct_def api flds gs inc u ms(1))
  then show ?thesis unfolding decodeResponsesResponse_def by (simp add: ms(2) del: marshal_GMap)
qed

text \<open>
  The arguments of a call are a JSON value in Messages and are read like the text of the other
  protocols: a \<^verbatim>\<open>null\<close> or a string that holds a document becomes that document.
\<close>

definition messages_call :: "tool_call \<Rightarrow> tool_call" where
  "messages_call c = c\<lparr>call_arguments := normalizeArguments (call_arguments c)\<rparr>"

fun messages_response_view :: "block list \<Rightarrow> block list" where
  "messages_response_view [] = []"
| "messages_response_view (ReasoningBlock t # bs) =
     (if t \<noteq> [] then [ReasoningBlock t] else []) @ messages_response_view bs"
| "messages_response_view (TextBlock t # bs) = TextBlock t # messages_response_view bs"
| "messages_response_view (ToolCallBlock c # bs) = ToolCallBlock (messages_call c) # messages_response_view bs"
| "messages_response_view (_ # bs) = messages_response_view bs"

definition contents_decode :: "gval list \<Rightarrow> block list \<Rightarrow> bool" where
  "contents_decode gs bs \<longleftrightarrow> (\<exists>ms. dec_elems dec_map (map marshal gs) = (ms, True) \<and>
     (\<forall>n. \<exists>os. mapE_from n decodeResponseItem ms = Inr os \<and> somes os = bs))"

lemma somes_append [simp]: "somes (xs @ ys) = somes xs @ somes ys"
  by (simp add: somes_def)

lemma contents_decode_append:
  assumes "contents_decode gs bs" and "contents_decode hs cs"
  shows "contents_decode (gs @ hs) (bs @ cs)"
proof -
  from assms obtain ms ns where ms: "dec_elems dec_map (map marshal gs) = (ms, True)"
      "\<And>n. \<exists>os. mapE_from n decodeResponseItem ms = Inr os \<and> somes os = bs"
    and ns: "dec_elems dec_map (map marshal hs) = (ns, True)"
      "\<And>n. \<exists>os. mapE_from n decodeResponseItem ns = Inr os \<and> somes os = cs"
    unfolding contents_decode_def by blast
  have "\<exists>os. mapE_from n decodeResponseItem (ms @ ns) = Inr os \<and> somes os = bs @ cs" for n
    using ms(2) [of n] ns(2) [of "n + length ms"] by (auto simp: mapE_from_append)
  with ms(1) ns(1) show ?thesis by (simp add: contents_decode_def dec_elems_append)
qed

lemma contents_decode_single:
  assumes "\<And>n. decodeResponseItem n (marshal_members m) = Inr r"
  shows "contents_decode [GMap m] (case r of None \<Rightarrow> [] | Some b \<Rightarrow> [b])"
  using assms by (auto simp: contents_decode_def split: option.split)

lemma messages_output_encoded:
  assumes "list_all call_wf (tool_calls bs)"
  shows "contents_decode (messages_output bs) (messages_response_view bs)"
  using assms
proof (induction bs)
  case Nil
  then show ?case by (simp add: contents_decode_def)
next
  case (Cons b bs)
  show ?case
  proof (cases b)
    case (TextBlock t)
    have "contents_decode [text_part ''text'' t] [TextBlock t]"
      using contents_decode_single [of "[(''type'', GStr ''text''), (''text'', GStr t)]" "Some (TextBlock t)"]
      by (simp add: text_part_def decodeResponseItem_def)
    with Cons TextBlock show ?thesis using contents_decode_append by fastforce
  next
    case (ReasoningBlock t)
    have "contents_decode [GMap [(''type'', GStr ''thinking''), (''thinking'', GStr t)]]
        (if t \<noteq> [] then [ReasoningBlock t] else [])"
      using contents_decode_single [of "[(''type'', GStr ''thinking''), (''thinking'', GStr t)]"
        "if t \<noteq> [] then Some (ReasoningBlock t) else None"]
      by (simp add: decodeResponseItem_def split: if_splits)
    from contents_decode_append [OF this Cons.IH] Cons.prems ReasoningBlock show ?thesis by simp
  next
    case (ToolCallBlock c)
    then have "call_wf c" using Cons.prems by simp
    then have "decodeResponseItem n (marshal_members [(''type'', GStr ''tool_use''), (''id'', GStr (call_id c)),
       (''name'', GStr (call_name c)), (''input'', rawOrObject (call_arguments c))]) = Inr (Some (ToolCallBlock (messages_call c)))" for n
      by (cases c) (auto simp: decodeResponseItem_def call_wf_def messages_call_def rawOrObject_def)
    from contents_decode_append [OF contents_decode_single [OF this] Cons.IH] Cons.prems ToolCallBlock
    show ?thesis by simp
  qed (use Cons in simp_all)
qed

definition messages_filled :: "usage \<Rightarrow> usage" where
  "messages_filled u =
     (let v = \<lparr>input_tokens = Some (valueOrZero (input_tokens u)), cache_read_tokens = Some (valueOrZero (cache_read_tokens u)),
            cache_write_tokens = Some (valueOrZero (cache_write_tokens u)), output_tokens = Some (valueOrZero (output_tokens u)),
            reasoning_tokens = None, total_tokens = None\<rparr>
      in v\<lparr>total_tokens := Some (wrap64 (valueOrZero (input_tokens u) + valueOrZero (cache_read_tokens u)
            + valueOrZero (cache_write_tokens u) + valueOrZero (output_tokens u)))\<rparr>)"

lemma wrap64_add: "wrap64 (wrap64 a + b) = wrap64 (a + b)"
  by (simp add: wrap64_def algebra_simps mod_simps)

lemma messages_response_roundtrip:
  assumes "response_ok r"
  shows "decodeMessagesResponse (marshal (GMap (encodeMessagesResponse rand r))) =
    Inr \<lparr>resp_id = idOr rand (resp_id r) ''msg'', resp_model = resp_model r,
      resp_blocks = messages_response_view (resp_blocks r),
      resp_stop = messagesStopToCanonical (canonicalStopToMessages (resp_stop r)),
      resp_usage = messages_filled (resp_usage r), resp_raw = Some (marshal (GMap (encodeMessagesResponse rand r)))\<rparr>"
proof -
  let ?m = "encodeMessagesResponse rand r"
  obtain ms os where ms: "dec_elems dec_map (map marshal (messages_output (resp_blocks r))) = (ms, True)"
    "mapE decodeResponseItem ms = Inr os" "somes os = messages_response_view (resp_blocks r)"
    using messages_output_encoded [of "resp_blocks r"] assms unfolding response_ok_def contents_decode_def by blast
  define u where "u = fst (dec_struct messages_usage_struct (marshal (encodeMessagesUsage (resp_usage r))))"
  have ok: "counters_ok (resp_usage r)" using assms by (simp add: response_ok_def)
  then have u: "dec_struct messages_usage_struct (marshal (encodeMessagesUsage (resp_usage r))) = (u, True)"
    by (simp add: u_def messages_usage_roundtrip)
  have filled: "u\<lparr>total_tokens := total_of u\<rparr> = messages_filled (resp_usage r)"
    using ok by (simp add: u_def messages_usage_roundtrip messages_filled_def total_of_def sumPointers_def counters_ok_def
        wrap64_add Let_def)
  have "dec_struct messages_response_struct (marshal (GMap ?m)) =
     ((idOr rand (resp_id r) ''msg'', resp_model r, ms, canonicalStopToMessages (resp_stop r), u), True)"
    by (simp add: messages_response_struct_def encodeMessagesResponse_def ms(1) u)
  then show ?thesis unfolding decodeMessagesResponse_def by (simp add: ms filled del: marshal_GMap)
qed

section \<open>Conversion of texts\<close>

lemma wf_call_outputs: "\<forall>g \<in> set (call_outputs rand k cs). wf_g g"
  by (induction rand k cs rule: call_outputs.induct) (simp_all add: call_output_def)

lemma wf_messages_output: "list_all call_wf (tool_calls bs) \<Longrightarrow> \<forall>g \<in> set (messages_output bs). wf_g g"
  by (induction bs rule: messages_output.induct) (auto simp: call_wf_def rawOrObject_def)

lemma encode_response_wf:
  assumes "response_ok r" and "encode_response_tree rand now r target = Inr m"
  shows "wf_map m"
proof -
  consider "m = encodeChatResponse rand now r" | "m = encodeResponsesResponse rand now r" | "m = encodeMessagesResponse rand r"
    using assms(2) by (auto simp: encode_response_tree_def split: if_splits)
  then show ?thesis
  proof cases
    case 1
    then show ?thesis
      by (auto simp: encodeChatResponse_def Let_def EncodeRequest.chat_call_def)
  next
    case 2
    then show ?thesis
      by (simp add: encodeResponsesResponse_def Let_def wf_call_outputs ball_Un reasoning_output_def message_output_def)
  next
    case 3
    moreover have "\<forall>g \<in> set (messages_output (resp_blocks r)). wf_g g"
      using assms(1) by (intro wf_messages_output) (simp add: response_ok_def)
    ultimately show ?thesis by (simp add: encodeMessagesResponse_def)
  qed
qed

text \<open>The reason an answer ended with, as far as the target has a word for it.\<close>

definition kept_stop :: "string \<Rightarrow> response \<Rightarrow> string" where
  "kept_stop target r =
     (let stop = resp_stop r in
      if target = Responses then
        (if tool_calls (resp_blocks r) \<noteq> [] then ''tool_use'' else if stop = ''max_tokens'' then stop else ''end_turn'')
      else if stop \<in> {''tool_use'', ''max_tokens''} then stop
      else if stop \<in> {''content_filter'', ''refusal''} then (if target = Chat then ''content_filter'' else ''refusal'')
      else if stop = ''stop_sequence'' \<and> target = Messages then stop
      else ''end_turn'')"

lemma kept_stop_model [simp]: "kept_stop target (r\<lparr>resp_model := model\<rparr>) = kept_stop target r"
  by (cases r) (simp add: kept_stop_def)

lemma kept_stop_codes:
  "kept_stop Chat r = chatStopToCanonical (canonicalStopToChat (resp_stop r))"
  "kept_stop Messages r = messagesStopToCanonical (canonicalStopToMessages (resp_stop r))"
proof -
  have "Chat \<noteq> Responses" "Messages \<noteq> Responses" "Messages \<noteq> Chat" by (simp_all add: Chat_def Messages_def Responses_def)
  then show "kept_stop Chat r = chatStopToCanonical (canonicalStopToChat (resp_stop r))"
    "kept_stop Messages r = messagesStopToCanonical (canonicalStopToMessages (resp_stop r))"
    by (auto simp: kept_stop_def Let_def chatStopToCanonical_def canonicalStopToChat_def messagesStopToCanonical_def
        canonicalStopToMessages_def)
qed

definition same_answer :: "string \<Rightarrow> response \<Rightarrow> response \<Rightarrow> bool" where
  "same_answer target r s \<longleftrightarrow> joined_texts (resp_blocks s) = joined_texts (resp_blocks r) \<and>
     joined_reasoning (resp_blocks s) = joined_reasoning (resp_blocks r) \<and>
     tool_calls (resp_blocks s) = (if target = Messages then map messages_call else id) (tool_calls (resp_blocks r)) \<and>
     resp_usage s = (if target = Messages then messages_filled else filled) (resp_usage r) \<and>
     resp_stop s = kept_stop target r"

lemma messages_response_view_keeps [simp]:
  "joined_texts (messages_response_view bs) = joined_texts bs"
  "joined_reasoning (messages_response_view bs) = joined_reasoning bs"
  "tool_calls (messages_response_view bs) = map messages_call (tool_calls bs)"
  unfolding joined_texts_def joined_reasoning_def
  by (induction bs rule: messages_response_view.induct) simp_all

lemma decode_encoded_response:
  assumes ok: "response_ok r" and target: "target \<in> {Chat, Responses, Messages}"
  shows "\<exists>out s. EncodeResponse rand now r target = Inr out \<and> DecodeResponse out target = Inr s \<and>
    same_answer target r s \<and> resp_model s = resp_model r"
proof -
  from target obtain m where m: "encode_response_tree rand now r target = Inr m"
    by (auto simp: encode_response_tree_def)
  have "wf_g (GMap m)" using encode_response_wf [OF ok m] by simp
  then have parse: "unmarshal_text (print_json (marshal (GMap m))) = Inr (marshal (GMap m))"
    unfolding unmarshal_text_def wf_g_def by (simp only: parse_json_print option.simps)
  have "\<exists>s. DecodeResponse (print_json (marshal (GMap m))) target = Inr s \<and> same_answer target r s \<and> resp_model s = resp_model r"
    using target m chat_response_roundtrip [OF ok, of rand now] responses_response_roundtrip [OF ok, of rand now]
      messages_response_roundtrip [OF ok, of rand]
      kept_stop_codes [of r]
    by (auto simp: DecodeResponse_def parse encode_response_tree_def same_answer_def kept_stop_def [of Responses] Let_def
        simp del: marshal_GMap)
  with m show ?thesis by (auto simp: EncodeResponse_def)
qed

section \<open>Decoded answers can be converted\<close>

lemma counters_ok_iff: "counters_ok u \<longleftrightarrow> (\<forall>c \<in> {input_tokens u, cache_read_tokens u, cache_write_tokens u, output_tokens u,
     reasoning_tokens u, total_tokens u}. pred_option in_int64 c)"
proof -
  have "in_int64 (valueOrZero c) \<longleftrightarrow> pred_option in_int64 c" for c
    by (cases c) (simp_all add: in_int64_def)
  then show ?thesis by (simp add: counters_ok_def)
qed

lemma f_struct_int_range: "pred_option in_int64 (fst (f_struct (f_ptr_int k) n kvs))"
  using f_ptr_int_range by (simp add: f_struct_def case_prod_unfold Let_def)

lemma usage_structs_range:
  "counters_ok (fst (chat_usage_struct kvs))" "counters_ok (fst (responses_usage_struct kvs))"
  "counters_ok (fst (messages_usage_struct kvs))"
  by (simp_all add: counters_ok_iff chat_usage_struct_def responses_usage_struct_def messages_usage_struct_def
      messages_stream_usage_struct_def case_prod_unfold Let_def f_ptr_int_range f_struct_int_range)

lemma f_struct_usage_range:
  "counters_ok (fst (f_struct chat_usage_struct n kvs))" "counters_ok (fst (f_struct responses_usage_struct n kvs))"
  "counters_ok (fst (f_struct messages_usage_struct n kvs))"
  by (simp_all add: f_struct_def case_prod_unfold Let_def usage_structs_range)

lemma total_of_range: "pred_option in_int64 (total_of u)"
proof -
  have "in_int64 t \<Longrightarrow> in_int64 (fst (sum_loop vs (t, f)))" for vs t f
    by (induction vs "(t, f)" arbitrary: t f rule: sum_loop.induct) (simp_all add: wrap64_range)
  from this [of 0] show ?thesis by (simp add: total_of_def sumPointers_def case_prod_unfold Let_def in_int64_def)
qed

lemma normalized_wf: "pred_option wf_json raw \<Longrightarrow> \<exists>j. normalizeArguments raw = Some j \<and> wf_json j"
  by (auto simp: normalizeArguments_def raw_absent_def dest: parse_json_wf split: option.splits json.splits)

lemma wf_unm_raw: "wf_members kvs \<Longrightarrow> pred_option wf_json (fst (unm_raw (entry k kvs)))"
  using wf_entry [of kvs k] by (cases "entry k kvs") simp_all

lemma set_tool_calls: "set (tool_calls bs) = {c. ToolCallBlock c \<in> set bs}"
  by (induction bs rule: tool_calls.induct) auto

lemma decodeResponseItem_wf:
  assumes "wf_members kvs" and "decodeResponseItem n kvs = Inr (Some (ToolCallBlock c))"
  shows "call_wf c"
  using assms normalized_wf [OF wf_unm_raw, of kvs "''input''"]
  by (auto simp: decodeResponseItem_def Let_def call_wf_def split: if_splits)

lemma decodeOutputPart_no_call: "decodeOutputPart n part \<noteq> Inr (ToolCallBlock c)"
  by (simp add: decodeOutputPart_def Let_def)

lemma decodeSummaryPart_no_call: "decodeSummaryPart n part \<noteq> Inr (Some (ToolCallBlock c))"
  by (cases part) (simp add: decodeSummaryPart_def)

lemma mapE_never: "mapE f xs = Inr ys \<Longrightarrow> (\<And>i x. f i x \<noteq> Inr y) \<Longrightarrow> y \<notin> set ys"
  using mapE_from_all [of 0 f xs ys "\<lambda>z. z \<noteq> y"] by blast

lemma in_somes: "b \<in> set (somes bs) \<longleftrightarrow> Some b \<in> set bs"
  by (force simp: somes_def)

lemma decodeOutputItem_wf:
  assumes "wf_members kvs" and "decodeOutputItem kvs (bs, stop) = Inr (bs', stop')"
    and "\<forall>c. ToolCallBlock c \<in> set bs \<longrightarrow> call_wf c" and "ToolCallBlock c \<in> set bs'"
  shows "call_wf c"
proof (cases "ToolCallBlock c \<in> set bs")
  case True
  then show ?thesis using assms(3) by blast
next
  case False
  have "ToolCallBlock c \<notin> set ts" if "mapE decodeOutputPart ps = Inr ts" for ps ts
    using mapE_never [OF that] decodeOutputPart_no_call by blast
  moreover have "ToolCallBlock c \<notin> set (somes ts)" if "mapE decodeSummaryPart ps = Inr ts" for ps ts
    using mapE_never [OF that] decodeSummaryPart_no_call by (simp add: in_somes)
  ultimately show ?thesis using assms(2,4) False normalized_wf [OF wf_unm_raw [OF assms(1)], of "''arguments''"]
    by (fastforce simp: decodeOutputItem_def Let_def bindE_eq_Inr call_wf_def split: if_splits)
qed

lemma DecodeResponse_ok:
  assumes "DecodeResponse body p = Inr r"
  shows "response_ok r"
proof -
  obtain j where j: "unmarshal_text body = Inr j" using assms by (auto simp: DecodeResponse_def bindE_eq_Inr split: if_splits)
  then have wf: "wf_json j" by (auto simp: unmarshal_text_def dest: parse_json_wf split: option.splits)
  consider "decodeChatResponse j = Inr r" | "decodeResponsesResponse j = Inr r" | "decodeMessagesResponse j = Inr r"
    using assms j by (auto simp: DecodeResponse_def split: if_splits)
  then show ?thesis
  proof cases
    case 1
    have choice: "list_all (\<lambda>c. pred_option wf_json (cc_arguments c)) (cx_calls (fst (chat_choice_message kvs)))"
      if kvs: "wf_members kvs" for kvs
    proof -
      have call: "pred_option wf_json (cc_arguments (fst (response_call_struct ms)))" if "wf_members ms" for ms
        using f_struct_keeps [OF that, of "\<lambda>x. pred_option wf_json (snd x)" chat_function_struct "''function''"] f_raw_wf
        by (simp add: response_call_struct_def chat_function_struct_def case_prod_unfold Let_def)
      have "list_all (\<lambda>c. pred_option wf_json (cc_arguments c)) (snd (snd (fst (response_message_struct ms))))" if "wf_members ms" for ms
        using f_slice_keeps [OF that, of "\<lambda>c. pred_option wf_json (cc_arguments c)" "dec_struct response_call_struct" "''tool_calls''"]
          dec_struct_keeps [of _ "\<lambda>c. pred_option wf_json (cc_arguments c)", OF _ call]
        by (simp add: response_message_struct_def case_prod_unfold Let_def)
      from f_struct_keeps [OF kvs, of "\<lambda>x. list_all (\<lambda>c. pred_option wf_json (cc_arguments c)) (snd (snd x))", OF this]
      show ?thesis by (simp add: chat_choice_message_def case_prod_unfold Let_def)
    qed
    have slice: "list_all (\<lambda>x. list_all (\<lambda>c. pred_option wf_json (cc_arguments c)) (cx_calls x)) (fst (f_slice (dec_struct chat_choice_message) k ms))"
      if "wf_members ms" for k ms
      by (rule f_slice_keeps [OF that]) (rule dec_struct_keeps, assumption, rule choice)
    have whole: "list_all (\<lambda>x. list_all (\<lambda>c. pred_option wf_json (cc_arguments c)) (cx_calls x)) (fst (snd (snd (fst (dec_struct chat_response_struct j)))))
        \<and> counters_ok (snd (snd (snd (fst (dec_struct chat_response_struct j)))))"
    proof (rule dec_struct_keeps [OF wf])
      fix ms
      assume "wf_members ms"
      then show "list_all (\<lambda>x. list_all (\<lambda>c. pred_option wf_json (cc_arguments c)) (cx_calls x)) (fst (snd (snd (fst (chat_response_struct ms)))))
        \<and> counters_ok (snd (snd (snd (fst (chat_response_struct ms)))))"
        using slice f_struct_usage_range by (simp add: chat_response_struct_def case_prod_unfold Let_def)
    qed
    obtain i model choices u ok where d: "dec_struct chat_response_struct j = ((i, model, choices, u), ok)"
      by (metis surj_pair)
    with 1 obtain c cs where "choices = c # cs" by (cases choices; cases ok) (auto simp: decodeChatResponse_def)
    with 1 d have "dec_struct chat_response_struct j = ((i, model, c # cs, u), True)"
      and r: "resp_usage r = u" "resp_blocks r = (if cx_reasoning c \<noteq> [] then [ReasoningBlock (cx_reasoning c)] else []) @
             (if cx_content c \<noteq> [] then [TextBlock (cx_content c)] else []) @ map response_call_block (cx_calls c)"
      by (cases ok; auto simp: decodeChatResponse_def)+
    with whole have "list_all (\<lambda>c. pred_option wf_json (cc_arguments c)) (cx_calls c)" and "counters_ok u" by simp_all
    moreover have "call_wf d" if "ToolCallBlock d \<in> response_call_block ` set (cx_calls c)" for d
      using that calculation(1) normalized_wf by (fastforce simp: response_call_block_def call_wf_def list_all_iff)
    ultimately show ?thesis by (auto simp: response_ok_def r list_all_iff set_tool_calls)
  next
    case 2
    let ?d = "fst (dec_struct responses_response_struct j)"
    define out where "out = fst (snd (snd (snd (snd ?d))))"
    define u where "u = snd (snd (snd (snd (snd ?d))))"
    have s: "fst (snd (snd (snd (snd ?d)))) = out" "snd (snd (snd (snd (snd ?d)))) = u" by (simp_all add: out_def u_def)
    have "\<exists>stop stop'. foldE decodeOutputItem out ([], stop) = Inr (resp_blocks r, stop') \<and> resp_usage r = u"
      using 2 by (auto simp: decodeResponsesResponse_def bindE_eq_Inr okE_def case_prod_unfold out_def u_def split: if_splits) blast+
    then obtain stop stop' where loop: "foldE decodeOutputItem out ([], stop) = Inr (resp_blocks r, stop')" and usg: "resp_usage r = u"
      by blast
    have whole: "list_all wf_members (fst (snd (snd (snd (snd (fst (dec_struct responses_response_struct j)))))))
        \<and> counters_ok (snd (snd (snd (snd (snd (fst (dec_struct responses_response_struct j)))))))"
    proof (rule dec_struct_keeps [OF wf])
      fix ms
      assume "wf_members ms"
      then have "list_all wf_members (fst (f_slice dec_map ''output'' ms))"
        by (rule f_slice_keeps) (simp add: dec_map_def wf_struct_members)
      then show "list_all wf_members (fst (snd (snd (snd (snd (fst (responses_response_struct ms)))))))
        \<and> counters_ok (snd (snd (snd (snd (snd (fst (responses_response_struct ms)))))))"
        using f_struct_usage_range by (simp add: responses_response_struct_def case_prod_unfold Let_def)
    qed
    have step: "foldE decodeOutputItem out st = Inr (bs, stop') \<Longrightarrow> list_all wf_members out \<Longrightarrow>
      (\<forall>c. ToolCallBlock c \<in> set (fst st) \<longrightarrow> call_wf c) \<Longrightarrow> ToolCallBlock c \<in> set bs \<Longrightarrow> call_wf c" for out st bs stop' c
    proof (induction out arbitrary: st)
      case (Cons item out)
      obtain st' where "decodeOutputItem item st = Inr st'" "foldE decodeOutputItem out st' = Inr (bs, stop')"
        using Cons.prems(1) by (auto simp: bindE_eq_Inr)
      moreover from this(1) have "\<forall>c. ToolCallBlock c \<in> set (fst st') \<longrightarrow> call_wf c"
        using decodeOutputItem_wf [of item "fst st" "snd st" "fst st'" "snd st'"] Cons.prems(2,3) by auto
      ultimately show ?case using Cons.IH Cons.prems(2,4) by simp
    qed auto
    have "call_wf c" if "ToolCallBlock c \<in> set (resp_blocks r)" for c
      using whole s step [OF loop _ _ that] by simp
    with whole s usg show ?thesis by (auto simp: response_ok_def list_all_iff set_tool_calls)
  next
    case 3
    let ?d = "fst (dec_struct messages_response_struct j)"
    define content where "content = fst (snd (snd ?d))"
    define u where "u = snd (snd (snd (snd ?d)))"
    have s: "fst (snd (snd ?d)) = content" "snd (snd (snd (snd ?d))) = u" by (simp_all add: content_def u_def)
    have "\<exists>bs. mapE decodeResponseItem content = Inr bs \<and> resp_blocks r = somes bs \<and> resp_usage r = u\<lparr>total_tokens := total_of u\<rparr>"
      using 3 by (auto simp: decodeMessagesResponse_def bindE_eq_Inr okE_def case_prod_unfold content_def u_def split: if_splits)
    then obtain bs where bs: "mapE decodeResponseItem content = Inr bs" "resp_blocks r = somes bs"
      and usg: "resp_usage r = u\<lparr>total_tokens := total_of u\<rparr>" by blast
    have whole: "list_all wf_members (fst (snd (snd (fst (dec_struct messages_response_struct j)))))
        \<and> counters_ok (snd (snd (snd (snd (fst (dec_struct messages_response_struct j))))))"
    proof (rule dec_struct_keeps [OF wf])
      fix ms
      assume "wf_members ms"
      then have "list_all wf_members (fst (f_slice dec_map ''content'' ms))"
        by (rule f_slice_keeps) (simp add: dec_map_def wf_struct_members)
      then show "list_all wf_members (fst (snd (snd (fst (messages_response_struct ms)))))
        \<and> counters_ok (snd (snd (snd (snd (fst (messages_response_struct ms))))))"
        using f_struct_usage_range by (simp add: messages_response_struct_def case_prod_unfold Let_def)
    qed
    have "\<forall>b \<in> set bs. \<forall>c. b = Some (ToolCallBlock c) \<longrightarrow> call_wf c"
      by (rule mapE_from_all [OF bs(1)]) (use whole s decodeResponseItem_wf in \<open>auto simp: list_all_iff\<close>)
    then have "call_wf c" if "ToolCallBlock c \<in> set (resp_blocks r)" for c
      using that by (auto simp: bs(2) in_somes)
    moreover have "counters_ok (resp_usage r)" using whole s usg total_of_range [of u] by (simp add: counters_ok_iff)
    ultimately show ?thesis by (auto simp: response_ok_def list_all_iff set_tool_calls)
  qed
qed

end
