(* ===== verification/Sse.thy ===== *)
theory Sse
  imports Response
begin

text \<open>
  Server-sent events on the wire (internal/protocol/stream.go).

  A \<^verbatim>\<open>bufio.Reader\<close> is the text that is still to come and the way it ends: end of file or a
  read error. \<open>ReadSSEEvent\<close> returns the event and the rest of the text.
\<close>

definition LF :: char where "LF = CHR 0x0A"
definition CR :: char where "CR = CHR 0x0D"

lemma LF_CR [simp]: "LF \<noteq> CR" "CR \<noteq> LF"
  by (simp_all add: LF_def CR_def)

lemma LF_CR_punctuation [simp]: "LF \<noteq> CHR '':''" "LF \<noteq> CHR '' ''" "CR \<noteq> CHR '':''" "CHR '':'' \<noteq> LF" "CHR '':'' \<noteq> CR"
  by (simp_all add: LF_def CR_def)

record sse_event =
  sse_name :: string
  sse_data :: string
  sse_raw :: string

datatype read_end = EndOfFile | ReadFailed

section \<open>Reading\<close>

text \<open>\<^verbatim>\<open>ReadString('\n')\<close>: the line with its delimiter, or all that is left.\<close>

definition read_line :: "string \<Rightarrow> string \<times> string \<times> bool" where
  "read_line s =
     (let l = takeWhile (\<lambda>c. c \<noteq> LF) s in
      case dropWhile (\<lambda>c. c \<noteq> LF) s of
        [] \<Rightarrow> (l, [], False)
      | c # rest \<Rightarrow> (l @ [c], rest, True))"

lemma read_line_split:
  assumes "read_line s = (l, rest, ok)"
  shows "s = l @ rest"
proof (cases "dropWhile (\<lambda>c. c \<noteq> LF) s")
  case Nil
  then have "takeWhile (\<lambda>c. c \<noteq> LF) s = s" by (metis append_Nil2 takeWhile_dropWhile_id)
  with assms Nil show ?thesis by (simp add: read_line_def Let_def)
next
  case (Cons c t)
  then have "takeWhile (\<lambda>c. c \<noteq> LF) s @ c # t = s" by (metis takeWhile_dropWhile_id)
  with assms Cons show ?thesis by (auto simp: read_line_def Let_def)
qed

lemma read_line_shorter: "read_line s = (l, rest, True) \<Longrightarrow> length rest < length s"
  using read_line_split [of s l rest True] by (auto simp: read_line_def Let_def split: list.splits)

definition trim_eol :: "string \<Rightarrow> string" where
  "trim_eol line = trim_suffix (trim_suffix line [LF]) [CR]"

text \<open>One line of an event: the name or a data line, comments and other fields are skipped.\<close>

definition sse_line :: "string \<Rightarrow> string \<times> string list \<Rightarrow> string \<times> string list" where
  "sse_line trimmed = (\<lambda>(name, data).
     if has_prefix trimmed '':'' then (name, data)
     else (let (fld, value, _) = cut (CHR '':'') trimmed; value = trim_prefix value '' '' in
       if fld = ''event'' then (value, data)
       else if fld = ''data'' then (name, data @ [value])
       else (name, data)))"

definition make_event :: "string \<Rightarrow> string list \<Rightarrow> string \<Rightarrow> sse_event" where
  "make_event name data raw = \<lparr>sse_name = name, sse_data = join [LF] data, sse_raw = raw\<rparr>"

function read_loop ::
    "read_end \<Rightarrow> string \<Rightarrow> string \<Rightarrow> string \<times> string list \<Rightarrow> read_end + sse_event \<times> string" where
  "read_loop fin s raw flds =
     (case read_line s of (line, rest, ok) \<Rightarrow>
        let raw' = raw @ line; trimmed = trim_eol line in
        if line \<noteq> [] \<and> trimmed = [] then Inr (make_event (fst flds) (snd flds) raw', rest)
        else (let flds' = (if line \<noteq> [] then sse_line trimmed flds else flds) in
          if ok then read_loop fin rest raw' flds'
          else if fin = EndOfFile \<and> raw' \<noteq> [] then Inr (make_event (fst flds') (snd flds') raw', rest)
          else Inl fin))"
  by pat_completeness auto
termination
  by (relation "measure (\<lambda>(fin, s, raw, flds). length s)") (auto dest: read_line_shorter [OF sym])

declare read_loop.simps [simp del]

definition ReadSSEEvent :: "read_end \<Rightarrow> string \<Rightarrow> read_end + sse_event \<times> string" where
  "ReadSSEEvent fin s = read_loop fin s [] ([], [])"

lemma read_loop_raw:
  "read_loop fin s raw flds = Inr (ev, rest) \<Longrightarrow> raw @ s = sse_raw ev @ rest"
proof (induction fin s raw flds rule: read_loop.induct)
  case (1 fin s raw flds)
  obtain line rest' ok where l: "read_line s = (line, rest', ok)" by (metis surj_pair)
  then have s: "s = line @ rest'" by (rule read_line_split)
  show ?case
    using "1.prems" "1.IH" [OF l [symmetric] refl refl refl] l s
    by (subst (asm) read_loop.simps) (auto simp: Let_def make_event_def split: if_splits)
qed

lemma read_loop_progress:
  "read_loop fin s raw flds = Inr (ev, rest) \<Longrightarrow> length rest \<le> length s \<and> sse_raw ev \<noteq> []"
proof (induction fin s raw flds rule: read_loop.induct)
  case (1 fin s raw flds)
  obtain line rest' ok where l: "read_line s = (line, rest', ok)" by (metis surj_pair)
  then have s: "s = line @ rest'" by (rule read_line_split)
  show ?case
    using "1.prems" "1.IH" [OF l [symmetric] refl refl refl] l s
    by (subst (asm) read_loop.simps) (auto simp: Let_def make_event_def split: if_splits)
qed

lemma ReadSSEEvent_raw: "ReadSSEEvent fin s = Inr (ev, rest) \<Longrightarrow> s = sse_raw ev @ rest"
  using read_loop_raw [of fin s "[]"] by (simp add: ReadSSEEvent_def)

lemma ReadSSEEvent_shorter: "ReadSSEEvent fin s = Inr (ev, rest) \<Longrightarrow> length rest < length s"
  using ReadSSEEvent_raw read_loop_progress by (fastforce simp: ReadSSEEvent_def)

text \<open>All events of a text, as the loops over a stream read them.\<close>

function read_all :: "read_end \<Rightarrow> string \<Rightarrow> sse_event list \<times> read_end" where
  "read_all fin s = (case ReadSSEEvent fin s of
       Inl e \<Rightarrow> ([], e)
     | Inr (ev, rest) \<Rightarrow> (let (evs, e) = read_all fin rest in (ev # evs, e)))"
  by pat_completeness auto
termination
  by (relation "measure (\<lambda>(fin, s). length s)") (auto dest: ReadSSEEvent_shorter)

declare read_all.simps [simp del]

lemma read_loop_error: "read_loop fin s raw flds = Inl e \<Longrightarrow> e = fin \<and> (fin = EndOfFile \<longrightarrow> raw = [] \<and> s = [])"
proof (induction fin s raw flds rule: read_loop.induct)
  case (1 fin s raw flds)
  obtain line rest' ok where l: "read_line s = (line, rest', ok)" by (metis surj_pair)
  then have s: "s = line @ rest'" by (rule read_line_split)
  have "ok \<Longrightarrow> line \<noteq> []" and "\<not> ok \<Longrightarrow> rest' = []"
    using l by (auto simp: read_line_def Let_def split: list.splits)
  then show ?case
    using "1.prems" "1.IH" [OF l [symmetric] refl refl refl] l s
    by (subst (asm) read_loop.simps) (auto simp: Let_def split: if_splits)
qed

lemma read_all_lossless: "concat (map sse_raw (fst (read_all EndOfFile s))) = s"
proof (induction "EndOfFile" s rule: read_all.induct)
  case (1 s)
  show ?case
  proof (cases "ReadSSEEvent EndOfFile s")
    case (Inl e)
    then have "s = []" using read_loop_error by (fastforce simp: ReadSSEEvent_def)
    with Inl show ?thesis by (subst read_all.simps) simp
  next
    case (Inr p)
    obtain ev rest where p: "p = (ev, rest)" by (cases p)
    with Inr have "s = sse_raw ev @ rest" by (simp add: ReadSSEEvent_raw)
    with "1" [OF Inr [unfolded p] refl] Inr p show ?thesis
      by (subst read_all.simps) (simp add: case_prod_unfold Let_def)
  qed
qed

section \<open>Writing\<close>

definition sse_text :: "string \<Rightarrow> string \<Rightarrow> string" where
  "sse_text name payload = (if name \<noteq> [] then ''event: '' @ name @ [LF] else []) @ ''data: '' @ payload @ [LF, LF]"

definition encodeSSE :: "string \<Rightarrow> gval \<Rightarrow> string" where
  "encodeSSE name value = sse_text name (print_json (marshal value))"

definition dataSSE :: "gval \<Rightarrow> string" where
  "dataSSE value = encodeSSE [] value"

definition one_line :: "string \<Rightarrow> bool" where
  "one_line s \<longleftrightarrow> LF \<notin> set s \<and> (s = [] \<or> last s \<noteq> CR)"

lemma read_line_LF: "LF \<notin> set l \<Longrightarrow> read_line (l @ LF # rest) = (l @ [LF], rest, True)"
proof -
  assume l: "LF \<notin> set l"
  then have p: "\<And>c. c \<in> set l \<Longrightarrow> c \<noteq> LF" by auto
  have "takeWhile (\<lambda>c. c \<noteq> LF) (l @ LF # rest) = l" using p by (subst takeWhile_append2) simp_all
  moreover have "dropWhile (\<lambda>c. c \<noteq> LF) (l @ LF # rest) = LF # rest" using p by (subst dropWhile_append2) simp_all
  ultimately show ?thesis by (simp add: read_line_def)
qed

lemma trim_eol_line: "one_line l \<Longrightarrow> trim_eol (l @ [LF]) = l"
  by (cases l rule: rev_cases) (auto simp: trim_eol_def one_line_def trim_suffix_def has_suffix_def has_prefix_iff)

lemma read_loop_line:
  assumes "one_line l" and "l \<noteq> []"
  shows "read_loop fin (l @ LF # rest) raw flds = read_loop fin rest (raw @ l @ [LF]) (sse_line l flds)"
  using assms read_line_LF [of l rest] trim_eol_line [of l]
  by (subst read_loop.simps) (simp add: one_line_def)

lemma read_loop_blank:
  "read_loop fin (LF # rest) raw flds = Inr (make_event (fst flds) (snd flds) (raw @ [LF]), rest)"
  using read_line_LF [of "[]" rest] trim_eol_line [of "[]"] by (subst read_loop.simps) (simp add: one_line_def)

lemma sse_line_event: "sse_line (''event: '' @ v) (n, d) = (v, d)"
  using cut_append [of "CHR '':''" "''event''" "CHR '' '' # v"] trim_prefix_append [of "'' ''" v]
  by (simp add: sse_line_def has_prefix_def)

lemma sse_line_data: "sse_line (''data: '' @ v) (n, d) = (n, d @ [v])"
  using cut_append [of "CHR '':''" "''data''" "CHR '' '' # v"] trim_prefix_append [of "'' ''" v]
  by (simp add: sse_line_def has_prefix_def)

lemma one_line_append: "one_line s \<Longrightarrow> LF \<notin> set p \<Longrightarrow> p \<noteq> [] \<Longrightarrow> last p \<noteq> CR \<Longrightarrow> one_line (p @ s)"
  by (cases "s = []") (auto simp: one_line_def)

lemma ReadSSEEvent_sse_text:
  assumes "one_line name" and "one_line payload"
  shows "ReadSSEEvent fin (sse_text name payload @ rest) =
    Inr (\<lparr>sse_name = name, sse_data = payload, sse_raw = sse_text name payload\<rparr>, rest)"
proof -
  have d: "one_line (''data: '' @ payload)" and e: "one_line (''event: '' @ name)"
    by (rule one_line_append; use assms in \<open>simp add: LF_def CR_def\<close>)+
  have data: "read_loop fin (''data: '' @ payload @ LF # LF # rest) raw (n, []) =
      Inr (make_event n [payload] (raw @ ''data: '' @ payload @ [LF, LF]), rest)" for raw n
    using read_loop_line [OF d, of fin "LF # rest" raw "(n, [])"] sse_line_data [of payload n "[]"]
    by (simp add: read_loop_blank)
  show ?thesis
  proof (cases "name = []")
    case True
    then show ?thesis using data [of "[]" "[]"] by (simp add: ReadSSEEvent_def sse_text_def make_event_def)
  next
    case False
    have "read_loop fin (''event: '' @ name @ LF # x) [] ([], []) = read_loop fin x (''event: '' @ name @ [LF]) (name, [])" for x
      using read_loop_line [OF e, of fin x "[]" "([], [])"] sse_line_event [of name "[]" "[]"] by simp
    with False data show ?thesis by (simp add: ReadSSEEvent_def sse_text_def make_event_def)
  qed
qed

section \<open>JSON on one line\<close>

definition plain :: "string \<Rightarrow> bool" where
  "plain s \<longleftrightarrow> LF \<notin> set s \<and> CR \<notin> set s"

lemma plain_simps [simp]:
  "plain []" "plain (c # s) \<longleftrightarrow> c \<noteq> LF \<and> c \<noteq> CR \<and> plain s" "plain (s @ t) \<longleftrightarrow> plain s \<and> plain t"
  by (auto simp: plain_def)

lemma plain_one_line: "plain s \<Longrightarrow> one_line s"
  by (auto simp: plain_def one_line_def dest: last_in_set)

lemma plain_digits: "list_all is_digit s \<Longrightarrow> plain s"
  by (auto simp: plain_def list_all_iff is_digit_def LF_def CR_def)

lemma plain_lex_sign: "lex_sign cs s = (a, r) \<Longrightarrow> plain cs \<Longrightarrow> plain a"
  by (auto simp: lex_sign_def plain_def split: if_splits)

lemma plain_span: "span is_digit s = (a, r) \<Longrightarrow> plain a"
  by (rule plain_digits) (auto simp: span_def list_all_iff dest: set_takeWhileD)

lemma plain_lex_int: "lex_int s = Some (a, r) \<Longrightarrow> plain a"
  by (auto simp: lex_int_def plain_span LF_def CR_def split: list.splits if_splits)

lemma plain_lex_digits: "lex_digits s = Some (a, r) \<Longrightarrow> plain a"
  by (auto simp: lex_digits_def plain_span split: prod.splits if_splits)

lemma plain_lex_frac: "lex_frac s = Some (a, r) \<Longrightarrow> plain a"
  using plain_lex_sign [of "''.''" s] plain_lex_digits
  by (auto simp: lex_frac_def LF_def CR_def split: prod.splits if_splits)

lemma plain_lex_exp: "lex_exp s = Some (a, r) \<Longrightarrow> plain a"
  using plain_lex_sign [of "''eE''" s] plain_lex_sign [of "''+-''"] plain_lex_digits
  by (auto simp: lex_exp_def LF_def CR_def split: prod.splits if_splits)

lemma plain_number: "valid_number l \<Longrightarrow> plain l"
  using plain_lex_sign [of "''-''" l] plain_lex_int plain_lex_frac plain_lex_exp
  by (fastforce simp: valid_number_def lex_number_def LF_def CR_def split: prod.splits option.splits)

lemma LF_CR_code: "c = LF \<longleftrightarrow> (of_char c :: nat) = 10" "c = CR \<longleftrightarrow> (of_char c :: nat) = 13"
proof -
  have "(of_char LF :: nat) = 10" "(of_char CR :: nat) = 13" by (simp_all add: LF_def CR_def)
  then show "c = LF \<longleftrightarrow> (of_char c :: nat) = 10" "c = CR \<longleftrightarrow> (of_char c :: nat) = 13"
    by (metis of_char_eq_iff)+
qed

lemma plain_hex_digit: "k < 16 \<Longrightarrow> plain [hex_digit k]"
  by (auto simp: LF_CR_code hex_digit_def)

lemma plain_escape_char: "plain (escape_char c)"
proof -
  have "plain [hex_digit (of_char c mod 16)]" and "(of_char c :: nat) < 256"
    by (simp_all add: plain_hex_digit del: plain_simps)
  moreover from this have "plain [hex_digit (of_char c div 16)]" by (intro plain_hex_digit) linarith
  ultimately show ?thesis by (auto simp: escape_char_def Let_def LF_def CR_def)
qed

lemma plain_quote: "plain (quote s)"
proof -
  have "plain (quote_body s)"
    by (induction s rule: quote_body.induct) (auto simp: plain_escape_char, simp_all add: LF_def CR_def)
  then show ?thesis by (simp add: quote_def LF_def CR_def)
qed

lemma plain_join: "plain sep \<Longrightarrow> list_all plain xs \<Longrightarrow> plain (join sep xs)"
  by (induction sep xs rule: join.induct) simp_all

lemma plain_print_json: "wf_json j \<Longrightarrow> plain (print_json j)"
proof (induction j rule: print_json.induct)
  case (5 js)
  then have "list_all plain (map print_json js)" by (auto simp: list_all_iff)
  then have "plain (join '','' (map print_json js))" by (intro plain_join) (simp_all add: LF_def CR_def)
  then show ?case by (simp add: LF_def CR_def)
next
  case (6 kvs)
  then have "list_all plain (map (\<lambda>kv. quote (fst kv) @ '':'' @ print_json (snd kv)) kvs)"
    by (auto simp: list_all_iff plain_quote LF_def CR_def)
  then have "plain (join '','' (map (\<lambda>kv. quote (fst kv) @ '':'' @ print_json (snd kv)) kvs))"
    by (intro plain_join) (simp_all add: LF_def CR_def)
  then show ?case by (simp add: LF_def CR_def)
qed (simp_all add: plain_number plain_quote LF_def CR_def)

text \<open>Every event that the gateway writes is read back as it was written.\<close>

lemma ReadSSEEvent_encodeSSE:
  assumes "one_line name" and "wf_g value"
  shows "ReadSSEEvent fin (encodeSSE name value @ rest) =
    Inr (\<lparr>sse_name = name, sse_data = print_json (marshal value), sse_raw = encodeSSE name value\<rparr>, rest)"
  unfolding encodeSSE_def using assms
  by (intro ReadSSEEvent_sse_text plain_one_line [OF plain_print_json]) (simp_all add: wf_g_def)

end
