(* ===== verification/ResponseSpec.thy ===== *)
theory ResponseSpec
  imports Sse
begin

text \<open>
  What the conversion of answers, the accounting of tokens and the reading and writing of
  server-sent events promise.
\<close>

section \<open>Answers\<close>

text \<open>
  C7. Converting an answer keeps it: whatever answer the source decoder accepts, the conversion
  succeeds for every target, and the target's own decoder reads back, under the virtual model's
  name, the same text, the same reasoning, the same tool calls (in Messages with their arguments
  normalized once more), the reason it ended with as far as the target has a word for it, and every
  token counter the target has a place for, an absent one as zero: Chat and Responses all but the
  cache writes, Messages all but the reasoning, its total being the sum of the others.
\<close>

theorem convert_response_keeps_answer:
  assumes "DecodeResponse body source = Inr r" and "target \<in> {Chat, Responses, Messages}"
  shows "\<exists>out s. ConvertResponse rand now body source target model = Inr out \<and> DecodeResponse out target = Inr s \<and>
    same_answer target r s \<and> resp_model s = model"
proof -
  have "response_ok (r\<lparr>resp_model := model\<rparr>)" using DecodeResponse_ok [OF assms(1)] by (simp add: response_ok_def)
  from decode_encoded_response [OF this assms(2), of rand now] obtain out s
    where "EncodeResponse rand now (r\<lparr>resp_model := model\<rparr>) target = Inr out" "DecodeResponse out target = Inr s"
      and "same_answer target (r\<lparr>resp_model := model\<rparr>) s" "resp_model s = model" by auto
  moreover from this(3) have "same_answer target r s" by (simp add: same_answer_def)
  ultimately show ?thesis using assms(1) by (auto simp: ConvertResponse_def)
qed

definition messages_answer_json :: json where
  "messages_answer_json = JObj [(''id'', JStr ''msg_1''), (''model'', JStr ''up''),
     (''content'', JArr [JObj [(''type'', JStr ''text''), (''text'', JStr ''hello'')]]),
     (''stop_reason'', JStr ''end_turn''), (''usage'', JObj [(''input_tokens'', JNum ''7''), (''output_tokens'', JNum ''3'')])]"

definition messages_answer :: string where
  "messages_answer = print_json messages_answer_json"

definition messages_answer_decoded :: response where
  "messages_answer_decoded = \<lparr>resp_id = ''msg_1'', resp_model = ''up'', resp_blocks = [TextBlock ''hello''],
     resp_stop = ''end_turn'', resp_usage = no_usage\<lparr>input_tokens := Some 7, output_tokens := Some 3, total_tokens := Some 10\<rparr>,
     resp_raw = Some messages_answer_json\<rparr>"

theorem convert_response_witness:
  "\<exists>out s. ConvertResponse (\<lambda>_. ''r'') (\<lambda>_. 0) messages_answer Messages Chat ''virtual'' = Inr out \<and>
    DecodeResponse out Chat = Inr s \<and> same_answer Chat messages_answer_decoded s \<and> resp_model s = ''virtual''"
proof (rule convert_response_keeps_answer)
  show "DecodeResponse messages_answer Messages = Inr messages_answer_decoded" by code_simp
qed simp

text \<open>
  Stop reasons survive the protocol that can express them: written for Chat and read
  again the reasons end_turn, tool_use, max_tokens and content_filter are unchanged, for
  Messages the reasons end_turn, tool_use, max_tokens, stop_sequence and refusal.
\<close>

theorem stop_reasons_roundtrip:
  "(\<forall>r \<in> {''end_turn'', ''tool_use'', ''max_tokens'', ''content_filter''}.
      chatStopToCanonical (canonicalStopToChat r) = r) \<and>
   (\<forall>r \<in> {''end_turn'', ''tool_use'', ''max_tokens'', ''stop_sequence'', ''refusal''}.
      messagesStopToCanonical (canonicalStopToMessages r) = r)"
  by (simp add: chatStopToCanonical_def canonicalStopToChat_def messagesStopToCanonical_def canonicalStopToMessages_def)

theorem stop_reasons_witness:
  "chatStopToCanonical (canonicalStopToChat ''max_tokens'') = ''max_tokens''"
  using stop_reasons_roundtrip by blast

section \<open>Token counters\<close>

text \<open>
  Accumulating the usage of a stream is a monoid: the empty usage changes nothing, the
  grouping of the events does not matter, and a usage is present as soon as one event had one.
\<close>

theorem usage_merge_monoid:
  "mergeExtractedUsage no_usage u = u \<and> mergeExtractedUsage u no_usage = u \<and>
   mergeExtractedUsage (mergeExtractedUsage u v) w = mergeExtractedUsage u (mergeExtractedUsage v w) \<and>
   (usagePresent (mergeExtractedUsage u v) \<longleftrightarrow> usagePresent u \<or> usagePresent v)"
  by (simp add: mergeExtractedUsage_assoc usagePresent_merge)

text \<open>
  The total of optional counters is exact as long as it fits the machine integer, and
  absent exactly when every counter is absent.
\<close>

theorem sum_pointers_exact:
  assumes "\<And>n. Some n \<in> set vs \<Longrightarrow> 0 \<le> n" and "sum_list (map valueOrZero vs) < 2 ^ 63"
  shows "sumPointers vs = (if \<exists>n. Some n \<in> set vs then Some (sum_list (map valueOrZero vs)) else None)"
  using sum_loop_exact [OF assms(1), where t = 0 and f = False] assms(2) by (simp add: sumPointers_def)

theorem sum_pointers_witness: "sumPointers [Some 3, None, Some 4] = Some 7"
  using sum_pointers_exact [of "[Some 3, None, Some 4]"] by (force simp del: not_None_eq)

text \<open>
  The usage object written for Chat or Responses is read back with the same counters, an
  absent one as zero.
\<close>

theorem usage_roundtrip:
  assumes "counters_ok u"
  shows "dec_struct chat_usage_struct (marshal (encodeChatUsage u)) = (filled u, True) \<and>
    dec_struct responses_usage_struct (marshal (encodeResponsesUsage u)) = (filled u, True)"
  using chat_usage_roundtrip [OF assms] responses_usage_roundtrip [OF assms] by blast

theorem usage_roundtrip_witness:
  "dec_struct chat_usage_struct (marshal (encodeChatUsage (no_usage\<lparr>input_tokens := Some 7\<rparr>))) =
    (filled (no_usage\<lparr>input_tokens := Some 7\<rparr>), True)"
  using usage_roundtrip [of "no_usage\<lparr>input_tokens := Some 7\<rparr>"] by (simp add: counters_ok_def no_usage_def in_int64_def)

section \<open>Server-sent events\<close>

text \<open>
  Reading the events of a text loses and invents nothing: the raw parts of the events, in
  order, are the whole text, also where the last event is not finished.
\<close>

theorem events_are_the_stream: "concat (map sse_raw (fst (read_all EndOfFile s))) = s"
  by (rule read_all_lossless)

text \<open>
  C8. An event the gateway writes is read back as one event: with its name, its JSON data and
  its own bytes, and the reader stops where the next event starts.
\<close>

theorem written_event_is_read:
  assumes "one_line name" and "wf_g value"
  shows "ReadSSEEvent fin (encodeSSE name value @ rest) =
    Inr (\<lparr>sse_name = name, sse_data = print_json (marshal value), sse_raw = encodeSSE name value\<rparr>, rest)"
  using assms by (rule ReadSSEEvent_encodeSSE)

theorem written_event_witness:
  "ReadSSEEvent EndOfFile (encodeSSE ''ping'' (GMap []) @ ''data: x'') =
    Inr (\<lparr>sse_name = ''ping'', sse_data = ''{}'', sse_raw = encodeSSE ''ping'' (GMap [])\<rparr>, ''data: x'')"
proof -
  have "print_json (marshal (GMap [])) = ''{}''" by code_simp
  moreover have "one_line ''ping''" by code_simp
  ultimately show ?thesis using written_event_is_read [of "''ping''" "GMap []" EndOfFile "''data: x''"] by simp
qed

end
