(* ===== verification/GoTime.thy ===== *)
theory GoTime
  imports GoText
begin

text \<open>
  The parts of package \<^verbatim>\<open>time\<close> the program uses. A \<^verbatim>\<open>time.Time\<close> is the number of nanoseconds
  since an epoch, a \<^verbatim>\<open>time.Duration\<close> a number of nanoseconds; the clock is a parameter of the
  operations that read it. \<open>parse_duration\<close> is \<^verbatim>\<open>time.ParseDuration\<close>, where a fraction is
  rounded down exactly (Go computes it in \<^verbatim>\<open>float64\<close>).
\<close>

type_synonym instant = int

definition millisecond :: int where "millisecond = 1000000"
definition second :: int where "second = 1000000000"
definition hour :: int where "hour = 3600 * second"

definition duration_units :: "(string \<times> int) list" where
  "duration_units = [(''ns'', 1), (''us'', 1000), ([CHR 0xC2, CHR 0xB5, CHR ''s''], 1000),
     ([CHR 0xCE, CHR 0xBC, CHR ''s''], 1000), (''ms'', millisecond), (''s'', second), (''m'', 60 * second), (''h'', hour)]"

definition unit_char :: "char \<Rightarrow> bool" where
  "unit_char c \<longleftrightarrow> c \<noteq> CHR ''.'' \<and> \<not> is_digit c"

definition fraction :: "string \<Rightarrow> string \<times> string" where
  "fraction s = (case s of
       c # t \<Rightarrow> if c = CHR ''.'' then (takeWhile is_digit t, dropWhile is_digit t) else ([], s)
     | [] \<Rightarrow> ([], s))"

lemma fraction_shorter: "fraction s = (f, t) \<Longrightarrow> length t \<le> length s"
  using length_dropWhile_le [of is_digit "tl s"] by (auto simp: fraction_def split: list.splits if_splits)

text \<open>One term \<^verbatim>\<open>12.5ms\<close> of a duration, and the rest of the text.\<close>

definition duration_term :: "string \<Rightarrow> (int \<times> string) option" where
  "duration_term s =
     (let whole = takeWhile is_digit s; s1 = dropWhile is_digit s;
          (frac, s2) = fraction s1;
          u = takeWhile unit_char s2; rest = dropWhile unit_char s2
      in if whole = [] \<and> frac = [] then None
         else case map_of duration_units u of
             None \<Rightarrow> None
           | Some n \<Rightarrow>
               (let v = int (dec_val whole) * n + int (dec_val frac) * n div 10 ^ length frac in
                if v > 2 ^ 63 then None else Some (v, rest)))"

lemma duration_term_shorter: "duration_term s = Some (v, rest) \<Longrightarrow> length rest < length s"
proof -
  assume parsed: "duration_term s = Some (v, rest)"
  obtain frac s2 where f: "fraction (dropWhile is_digit s) = (frac, s2)" by (metis surj_pair)
  have "length s2 \<le> length (dropWhile is_digit s)" by (rule fraction_shorter [OF f])
  also have "\<dots> \<le> length s" by (rule length_dropWhile_le)
  finally have le: "length s2 \<le> length s" .
  have "rest = dropWhile unit_char s2" and "map_of duration_units (takeWhile unit_char s2) \<noteq> None"
    using parsed by (auto simp: duration_term_def Let_def f split: if_splits option.splits)
  moreover have "map_of duration_units [] = None" by (simp add: duration_units_def)
  ultimately have "takeWhile unit_char s2 \<noteq> []" by metis
  then have "length (dropWhile unit_char s2) < length s2"
    by (metis append_Nil2 length_append length_greater_0_conv less_add_same_cancel2 takeWhile_dropWhile_id)
  with \<open>rest = _\<close> le show ?thesis by simp
qed

function duration_terms :: "int \<Rightarrow> string \<Rightarrow> int option" where
  "duration_terms d s =
     (if s = [] then Some d
      else case duration_term s of
          None \<Rightarrow> None
        | Some (v, rest) \<Rightarrow> if d + v > 2 ^ 63 then None else duration_terms (d + v) rest)"
  by pat_completeness auto
termination
  by (relation "measure (\<lambda>(d, s). length s)") (auto dest: duration_term_shorter)

declare duration_terms.simps [simp del]

definition parse_duration :: "string \<Rightarrow> int option" where
  "parse_duration s0 =
     (let neg = (take 1 s0 = ''-''); s = (if take 1 s0 \<in> {''-'', ''+''} then drop 1 s0 else s0) in
      if s = ''0'' then Some 0
      else if s = [] then None
      else case duration_terms 0 s of
          None \<Rightarrow> None
        | Some d \<Rightarrow> if neg then Some (- d) else if d > 2 ^ 63 - 1 then None else Some d)"

end
