(* ===== verification/AntigravityReply.thy ===== *)
theory AntigravityReply
  imports Response GoTime
begin

text \<open>
  Answers of the Antigravity upstream (internal/protocol/antigravity_response.go and the error
  classification of internal/antigravity/errors.go): documents, usage and the state that
  collects the parts of a stream. Random ids come from \<open>rand\<close>, numbered by a counter of the
  state; the callback \<^verbatim>\<open>saveTools\<close> is a function of the turn that may return an error, and
  the turns it was called with are kept in \<open>ag_saved\<close>.
\<close>

section \<open>Errors of the upstream\<close>

record ag_detail =
  agd_type :: string
  agd_delay :: string
  agd_reason :: string

definition ag_detail_struct :: "members \<Rightarrow> ag_detail decoded" where
  "ag_detail_struct kvs =
     (let (t, ok1) = f_string ''@type'' kvs; (delay, ok2) = f_string ''retryDelay'' kvs; (reason, ok3) = f_string ''reason'' kvs
      in (\<lparr>agd_type = t, agd_delay = delay, agd_reason = reason\<rparr>, ok1 \<and> ok2 \<and> ok3))"

definition ag_error_struct :: "members \<Rightarrow> (int \<times> string \<times> string \<times> ag_detail list) decoded" where
  "ag_error_struct kvs =
     (let (code, ok1) = f_int ''code'' kvs; (status, ok2) = f_string ''status'' kvs; (message, ok3) = f_string ''message'' kvs;
          (details, ok4) = f_slice (dec_struct ag_detail_struct) ''details'' kvs
      in ((code, status, message, details), ok1 \<and> ok2 \<and> ok3 \<and> ok4))"

definition ag_detail_step :: "instant \<Rightarrow> ag_detail \<Rightarrow> string \<times> instant option \<Rightarrow> string \<times> instant option" where
  "ag_detail_step now d = (\<lambda>(code, recover).
     let recover' = (if agd_type d = ''type.googleapis.com/google.rpc.RetryInfo''
            then (case parse_duration (agd_delay d) of
                    Some delay \<Rightarrow> if delay \<ge> 0 then Some (now + delay) else recover
                  | None \<Rightarrow> recover)
            else recover);
         code' = (if agd_type d = ''type.googleapis.com/google.rpc.ErrorInfo'' \<and>
              agd_reason d \<in> {''MODEL_NOT_FOUND'', ''MODEL_NOT_SUPPORTED''} then agd_reason d else code)
     in (code', recover'))"

definition ClassifyError :: "string \<Rightarrow> int \<Rightarrow> instant \<Rightarrow> go_error" where
  "ClassifyError body status now =
     (let inner = (case parse_json body of
            None \<Rightarrow> None
          | Some j \<Rightarrow> (case dec_struct (f_raw ''error'') j of
              (Some e, True) \<Rightarrow> Some e
            | _ \<Rightarrow> Some j))
      in case map_option (dec_struct ag_error_struct) inner of
          Some ((code, st, message, details), True) \<Rightarrow>
            (let status' = (if 200 \<le> status \<and> status < 300 then (if 400 \<le> code \<and> code \<le> 599 then code else 502) else status);
                 (c, recover) = fold (ag_detail_step now) details (if st \<noteq> [] then st else ''upstream_error'', None)
             in Upstream status' c message recover)
        | _ \<Rightarrow> Upstream status ''upstream_error'' ''malformed upstream error'' None)"

section \<open>Documents\<close>

definition agPresent :: "raw_message \<Rightarrow> bool" where
  "agPresent raw \<longleftrightarrow> \<not> raw_absent raw"

record ag_call =
  agc_id :: string
  agc_name :: string
  agc_args :: raw_message

record ag_part =
  agp_raw :: json
  agp_text :: string
  agp_thought :: bool
  agp_signature :: string
  agp_call :: "ag_call option"

text \<open>\<^verbatim>\<open>DisallowUnknownFields\<close>: every member has the name of a field, up to letter case.\<close>

definition only_fields :: "string list \<Rightarrow> members \<Rightarrow> bool" where
  "only_fields names kvs \<longleftrightarrow> list_all (\<lambda>kv. fold_case (fst kv) \<in> set (map fold_case names)) kvs"

definition ag_call_struct :: "members \<Rightarrow> ag_call decoded" where
  "ag_call_struct kvs =
     (let (i, ok1) = f_string ''id'' kvs; (name, ok2) = f_string ''name'' kvs; (args, ok3) = f_raw ''args'' kvs
      in (\<lparr>agc_id = i, agc_name = name, agc_args = args\<rparr>, ok1 \<and> ok2 \<and> ok3 \<and> only_fields [''id'', ''name'', ''args''] kvs))"

definition dec_ag_part :: "json \<Rightarrow> ag_part decoded" where
  "dec_ag_part j =
     (let (kvs, ok0) = struct_members j; (text, ok1) = f_string ''text'' kvs; (thought, ok2) = f_bool ''thought'' kvs;
          (sig, ok3) = f_string ''thoughtSignature'' kvs; (call, ok4) = f_ptr_struct ag_call_struct ''functionCall'' kvs
      in (\<lparr>agp_raw = j, agp_text = text, agp_thought = thought, agp_signature = sig, agp_call = call\<rparr>,
          ok0 \<and> ok1 \<and> ok2 \<and> ok3 \<and> ok4 \<and> only_fields [''text'', ''thought'', ''thoughtSignature'', ''functionCall''] kvs))"

record ag_candidate =
  agn_index :: int
  agn_parts :: "ag_part list"
  agn_finish :: string

record ag_document =
  agx_id :: string
  agx_model :: string
  agx_candidates :: "ag_candidate list"
  agx_usage :: raw_message
  agx_block_reason :: string
  agx_error :: raw_message

definition ag_candidate_struct :: "members \<Rightarrow> ag_candidate decoded" where
  "ag_candidate_struct kvs =
     (let (index, ok1) = f_int ''index'' kvs; (parts, ok2) = f_struct (f_slice dec_ag_part ''parts'') ''content'' kvs;
          (finish, ok3) = f_string ''finishReason'' kvs
      in (\<lparr>agn_index = index, agn_parts = parts, agn_finish = finish\<rparr>, ok1 \<and> ok2 \<and> ok3))"

definition ag_document_struct :: "members \<Rightarrow> ag_document decoded" where
  "ag_document_struct kvs =
     (let (i, ok1) = f_string ''responseId'' kvs; (model, ok2) = f_string ''modelVersion'' kvs;
          (candidates, ok3) = f_slice (dec_struct ag_candidate_struct) ''candidates'' kvs;
          (usg, ok4) = f_raw ''usageMetadata'' kvs; (reason, ok5) = f_struct (f_string ''blockReason'') ''promptFeedback'' kvs;
          (err, ok6) = f_raw ''error'' kvs
      in (\<lparr>agx_id = i, agx_model = model, agx_candidates = candidates, agx_usage = usg, agx_block_reason = reason,
           agx_error = err\<rparr>, ok1 \<and> ok2 \<and> ok3 \<and> ok4 \<and> ok5 \<and> ok6))"

definition decodeAntigravityDocument :: "instant \<Rightarrow> string \<Rightarrow> go_error + ag_document" where
  "decodeAntigravityDocument now data =
     (case parse_json data of
        None \<Rightarrow> Inl (Wrapped ''decode Antigravity response'' JsonError)
      | Some j \<Rightarrow>
          bindE (wrapE ''decode Antigravity response'' (dec_struct (f_raw ''response'') j)) (\<lambda>wrapped.
          bindE (okE (dec_struct ag_document_struct (if agPresent wrapped then the wrapped else j))) (\<lambda>document.
          if agPresent (agx_error document) then Inl (ClassifyError (raw_text (agx_error document)) 200 now)
          else if agx_block_reason document \<noteq> []
            then Inl (Upstream 400 (agx_block_reason document) ''refused by the safety check of the upstream'' None)
          else Inr document)))"

definition ag_usage_struct :: "members \<Rightarrow> (int option \<times> int option \<times> int option \<times> int option \<times> int option) decoded" where
  "ag_usage_struct kvs =
     (let (input, ok1) = f_ptr_int ''promptTokenCount'' kvs; (cache, ok2) = f_ptr_int ''cachedContentTokenCount'' kvs;
          (output, ok3) = f_ptr_int ''candidatesTokenCount'' kvs; (thinking, ok4) = f_ptr_int ''thoughtsTokenCount'' kvs;
          (tot, ok5) = f_ptr_int ''totalTokenCount'' kvs
      in ((input, cache, output, thinking, tot), ok1 \<and> ok2 \<and> ok3 \<and> ok4 \<and> ok5))"

definition negative :: "int option \<Rightarrow> bool" where
  "negative v \<longleftrightarrow> (case v of Some n \<Rightarrow> n < 0 | None \<Rightarrow> False)"

text \<open>The sum of two counters that are both there.\<close>

definition plus_opt :: "int option \<Rightarrow> int option \<Rightarrow> int option" where
  "plus_opt a b = (case (a, b) of (Some x, Some y) \<Rightarrow> Some (wrap64 (x + y)) | _ \<Rightarrow> None)"

definition antigravityUsage :: "raw_message \<Rightarrow> go_error + usage" where
  "antigravityUsage raw =
     (case raw of
        None \<Rightarrow> Inr no_usage
      | Some j \<Rightarrow>
          if j = JNull then Inr no_usage
          else bindE (okE (dec_struct ag_usage_struct j)) (\<lambda>(input, cache, output, thinking, tot).
            if list_ex negative [input, cache, output, thinking, tot]
              then Inl (Errorf ''Antigravity usage has a negative count'' [])
            else if (case (input, cache) of (Some i, Some c) \<Rightarrow> c > i | _ \<Rightarrow> False)
              then Inl (Errorf ''Antigravity cached input exceeds the input'' [])
            else (let out = (if output \<noteq> None \<and> thinking \<noteq> None then plus_opt output thinking else output);
                      total' = (if tot = None \<and> input \<noteq> None \<and> out \<noteq> None then plus_opt input out else tot)
                  in Inr \<lparr>input_tokens = input, cache_read_tokens = cache, cache_write_tokens = None,
                       output_tokens = out, reasoning_tokens = thinking, total_tokens = total'\<rparr>)))"

definition AntigravityAccountingUsage :: "usage \<Rightarrow> usage" where
  "AntigravityAccountingUsage u =
     (case (input_tokens u, cache_read_tokens u) of
        (Some i, Some c) \<Rightarrow> u\<lparr>input_tokens := Some (wrap64 (i - c))\<rparr>
      | _ \<Rightarrow> u)"

section \<open>The parts of a stream\<close>

record ag_turn =
  agt_content :: json
  agt_calls :: "tool_call list"
  agt_upstream_ids :: "string list"

datatype stream_event =
    StreamStart string string
  | StreamText int string
  | StreamReasoning int string
  | StreamToolStart int string string
  | StreamToolDelta int string string
  | StreamToolEnd int string
  | StreamFinish string
  | StreamUsage usage
  | StreamDone

record ag_state =
  ag_response :: response
  ag_done :: bool
  ag_tool_index :: int
  ag_signed :: bool
  ag_parts :: "json list"
  ag_calls :: "tool_call list"
  ag_upstream_ids :: "string list"
  ag_pending :: "stream_event list"
  ag_save :: "(ag_turn \<Rightarrow> go_error option) option"
  ag_draws :: nat
  ag_saved :: "ag_turn list"

definition new_ag_state :: ag_state where
  "new_ag_state = \<lparr>ag_response = \<lparr>resp_id = [], resp_model = [], resp_blocks = [], resp_stop = [], resp_usage = no_usage,
       resp_raw = None\<rparr>, ag_done = False, ag_tool_index = 0, ag_signed = False, ag_parts = [], ag_calls = [],
     ag_upstream_ids = [], ag_pending = [], ag_save = None, ag_draws = 0, ag_saved = []\<rparr>"

text \<open>
  The body of the code works on the events so far and on the state; an error leaves the state
  as it is at that point. \<open>orElse\<close> goes on unless there is an error, \<open>foldS\<close> is a loop.
\<close>

type_synonym 's outcome = "(go_error + unit) \<times> 's"

definition orElse :: "'s outcome \<Rightarrow> ('s \<Rightarrow> 's outcome) \<Rightarrow> 's outcome" where
  "orElse r f = (case fst r of Inl e \<Rightarrow> r | Inr _ \<Rightarrow> f (snd r))"

fun foldS :: "('a \<Rightarrow> 's \<Rightarrow> 's outcome) \<Rightarrow> 'a list \<Rightarrow> 's \<Rightarrow> 's outcome" where
  "foldS f [] s = (Inr (), s)"
| "foldS f (x # xs) s = orElse (f x s) (foldS f xs)"

abbreviation fails :: "string \<Rightarrow> string list \<Rightarrow> 's \<Rightarrow> 's outcome" where
  "fails message args s \<equiv> (Inl (Errorf message args), s)"

definition call_id_char :: "char \<Rightarrow> bool" where
  "call_id_char c \<longleftrightarrow> is_digit c \<or> (let n = of_char c :: nat in 65 \<le> n \<and> n \<le> 90 \<or> 97 \<le> n \<and> n \<le> 122) \<or> c \<in> {CHR ''_'', CHR ''-''}"

definition antigravityCallID :: "string \<Rightarrow> bool" where
  "antigravityCallID i \<longleftrightarrow> 1 \<le> length i \<and> length i \<le> 64 \<and> list_all call_id_char i"

definition draw_id :: "(nat \<Rightarrow> string) \<Rightarrow> string \<Rightarrow> ag_state \<Rightarrow> string \<times> ag_state" where
  "draw_id rand prefix s = (newID rand (ag_draws s) prefix, s\<lparr>ag_draws := ag_draws s + 1\<rparr>)"

definition add_block :: "block \<Rightarrow> ag_state \<Rightarrow> ag_state" where
  "add_block b s = s\<lparr>ag_response := ag_response s\<lparr>resp_blocks := resp_blocks (ag_response s) @ [b]\<rparr>\<rparr>"

definition ag_call_step :: "(nat \<Rightarrow> string) \<Rightarrow> ag_call \<Rightarrow> stream_event list \<times> ag_state \<Rightarrow> (stream_event list \<times> ag_state) outcome" where
  "ag_call_step rand call es =
     (let (events, s) = es; args = (if agPresent (agc_args call) then the (agc_args call) else JObj []) in
      if ag_signed s \<and> ag_save s = None
        then fails ''the Antigravity tool call needs its thoughtSignature history'' [] es
      else if agc_name call = [] then fails ''the Antigravity tool call has no name'' [] es
      else if \<not> raw_is_object (Some args) then fails ''the Antigravity tool arguments must be an object'' [] es
      else if agc_id call \<noteq> [] \<and> \<not> antigravityCallID (agc_id call)
        then fails ''the Antigravity call id cannot be sent back safely'' [] es
      else (let (i1, s1) = (if agc_id call = [] then draw_id rand ''call_ag'' s else (agc_id call, s));
                s2 = s1\<lparr>ag_upstream_ids := ag_upstream_ids s1 @ [agc_id call]\<rparr>;
                (i, s3) = (if ag_save s2 \<noteq> None then draw_id rand ''call_ag'' s2 else (i1, s2));
                c = \<lparr>call_id = i, call_upstream_id = [], call_name = agc_name call, call_arguments = Some args\<rparr>;
                s4 = add_block (ToolCallBlock c) (s3\<lparr>ag_calls := ag_calls s3 @ [c]\<rparr>);
                k = ag_tool_index s4
            in (Inr (), (events @ [StreamToolStart k i (agc_name call), StreamToolDelta k i (print_json args), StreamToolEnd k i],
                s4\<lparr>ag_tool_index := k + 1\<rparr>))))"

definition ag_text_step :: "ag_part \<Rightarrow> stream_event list \<times> ag_state \<Rightarrow> stream_event list \<times> ag_state" where
  "ag_text_step part = (\<lambda>(events, s).
     if agp_text part = [] then (events, s)
     else if agp_thought part
       then (events @ [StreamReasoning 0 (agp_text part)], add_block (ReasoningBlock (agp_text part)) s)
     else (events @ [StreamText 0 (agp_text part)], add_block (TextBlock (agp_text part)) s))"

definition ag_part_step :: "(nat \<Rightarrow> string) \<Rightarrow> ag_part \<Rightarrow> stream_event list \<times> ag_state \<Rightarrow> (stream_event list \<times> ag_state) outcome" where
  "ag_part_step rand part = (\<lambda>(events, s0).
     let s = s0\<lparr>ag_parts := ag_parts s0 @ [agp_raw part]\<rparr> in
     if agp_signature part \<noteq> [] \<and> ag_tool_index s > 0 \<and> ag_save s = None
       then fails ''the Antigravity tool call has an unsupported signature history'' [] (events, s)
     else let es1 = (events, if agp_signature part \<noteq> [] then s\<lparr>ag_signed := True\<rparr> else s) in
       orElse (case agp_call part of None \<Rightarrow> (Inr (), es1) | Some call \<Rightarrow> ag_call_step rand call es1)
         (\<lambda>es. (Inr (), ag_text_step part es)))"

definition set_stop :: "string \<Rightarrow> ag_state \<Rightarrow> ag_state" where
  "set_stop r s = s\<lparr>ag_response := ag_response s\<lparr>resp_stop := r\<rparr>\<rparr>"

definition ag_finish_step :: "string \<Rightarrow> stream_event list \<times> ag_state \<Rightarrow> (stream_event list \<times> ag_state) outcome" where
  "ag_finish_step reason = (\<lambda>(events, s).
     if reason = [] then (Inr (), (events, s))
     else if reason = ''STOP'' then
       (if ag_tool_index s > 0
        then (Inr (), (events @ [StreamFinish ''tool_calls''], (set_stop ''tool_use'' s)\<lparr>ag_done := True\<rparr>))
        else (Inr (), (events @ [StreamFinish ''stop''], (set_stop ''end_turn'' s)\<lparr>ag_done := True\<rparr>)))
     else if reason = ''MAX_TOKENS'' then
       (Inr (), (events @ [StreamFinish ''length''], (set_stop ''max_tokens'' s)\<lparr>ag_done := True\<rparr>))
     else if reason \<in> {''SAFETY'', ''RECITATION'', ''BLOCKLIST'', ''PROHIBITED_CONTENT'', ''SPII''} then
       (Inl (Upstream 400 reason ''the upstream stopped generating'' None), (events, s))
     else fails ''unknown Antigravity finish reason %q'' [reason] (events, s))"

definition ag_candidate_step ::
    "(nat \<Rightarrow> string) \<Rightarrow> ag_candidate \<Rightarrow> stream_event list \<times> ag_state \<Rightarrow> (stream_event list \<times> ag_state) outcome" where
  "ag_candidate_step rand c es =
     (if agn_index c \<noteq> 0 then fails ''Antigravity returned the unsupported candidate index %d'' [itoa (agn_index c)] es
      else orElse (foldS (ag_part_step rand) (agn_parts c) es) (ag_finish_step (agn_finish c)))"

text \<open>The turn that is handed to the callback when the stream has ended.\<close>

definition ag_save_turn :: "ag_state \<Rightarrow> ag_state outcome" where
  "ag_save_turn s = (case ag_save s of
       None \<Rightarrow> (Inr (), s)
     | Some save \<Rightarrow>
         if ag_calls s = [] then (Inr (), s)
         else (let turn = \<lparr>agt_content = marshal (GMap [(''role'', GStr ''model''), (''parts'', GArr (map GRaw (ag_parts s)))]),
                     agt_calls = ag_calls s, agt_upstream_ids = ag_upstream_ids s\<rparr>;
                   s' = s\<lparr>ag_saved := ag_saved s @ [turn]\<rparr>
               in case save turn of None \<Rightarrow> (Inr (), s') | Some e \<Rightarrow> (Inl e, s')))"

text \<open>The usage of a document, then the end of the stream and the events held back for it.\<close>

definition ag_usage_step :: "raw_message \<Rightarrow> stream_event list \<times> ag_state \<Rightarrow> (stream_event list \<times> ag_state) outcome" where
  "ag_usage_step raw = (\<lambda>(events, s). case antigravityUsage raw of
       Inl e \<Rightarrow> (Inl e, (events, s))
     | Inr u \<Rightarrow>
         (let r = ag_response s; r1 = r\<lparr>resp_usage := mergeExtractedUsage (resp_usage r) u\<rparr>;
              r2 = (if agPresent raw then r1\<lparr>resp_raw := raw\<rparr> else r1)
          in (Inr (), (events @ (if usagePresent u then [StreamUsage u] else []), s\<lparr>ag_response := r2\<rparr>))))"

definition ag_end_step :: "stream_event list \<times> ag_state \<Rightarrow> (stream_event list \<times> ag_state) outcome" where
  "ag_end_step = (\<lambda>(events, s).
     if \<not> ag_done s then (Inr (), (events, s))
     else (let (r, s') = ag_save_turn s in
       case r of Inl e \<Rightarrow> (Inl e, (events, s')) | Inr _ \<Rightarrow> (Inr (), (events @ [StreamDone], s'))))"

definition ag_hold :: "stream_event list \<times> ag_state \<Rightarrow> stream_event list \<times> ag_state" where
  "ag_hold = (\<lambda>(events, s).
     if ag_calls s = [] \<or> ag_save s = None then (events, s)
     else if \<not> ag_done s then ([], s\<lparr>ag_pending := ag_pending s @ events\<rparr>)
     else (ag_pending s @ events, s\<lparr>ag_pending := []\<rparr>))"

definition ag_run :: "(nat \<Rightarrow> string) \<Rightarrow> ag_document \<Rightarrow> stream_event list \<times> ag_state \<Rightarrow> (stream_event list \<times> ag_state) outcome" where
  "ag_run rand document es =
     orElse (orElse (foldS (ag_candidate_step rand) (agx_candidates document) es) (ag_usage_step (agx_usage document))) ag_end_step"

end
