(* ===== verification/StreamDecode.thy ===== *)
theory StreamDecode
  imports Sse AntigravityReply
begin

text \<open>
  Decoding the stream events of the three protocols into the gateway's own events
  (internal/protocol/stream_decode.go). A \<^verbatim>\<open>streamEvent\<close> is a struct with a kind and the
  fields that go with it, so it is the tagged union \<open>stream_event\<close>. The maps of the decoder are
  association lists.
\<close>

record stream_block =
  sb_kind :: string
  sb_call_id :: string
  sb_name :: string

record stream_decoder =
  dec_antigravity :: ag_state
  dec_protocol :: string
  dec_started :: bool
  dec_chat_tools :: "(int \<times> string) list"
  dec_blocks :: "(int \<times> stream_block) list"
  dec_response_tools :: "(int \<times> string) list"
  dec_had_tools :: bool

definition newStreamDecoder :: "string \<Rightarrow> stream_decoder" where
  "newStreamDecoder protocol = \<lparr>dec_antigravity = new_ag_state, dec_protocol = protocol, dec_started = False, dec_chat_tools = [], dec_blocks = [], dec_response_tools = [],
     dec_had_tools = False\<rparr>"

text \<open>The events or an error, and the decoder afterwards: an error leaves it as it is then.\<close>

type_synonym decode_result = "(go_error + stream_event list) \<times> stream_decoder"

definition orFail :: "go_error + 'a \<Rightarrow> stream_decoder \<Rightarrow> ('a \<Rightarrow> decode_result) \<Rightarrow> decode_result" where
  "orFail m d f = (case m of Inl e \<Rightarrow> (Inl e, d) | Inr x \<Rightarrow> f x)"

definition events_of :: "stream_event list \<times> stream_decoder \<Rightarrow> decode_result" where
  "events_of r = (Inr (fst r), snd r)"

definition normalizeChatStop :: "string \<Rightarrow> string" where
  "normalizeChatStop reason =
     (if reason = ''length'' then ''length''
      else if reason \<in> {''tool_calls'', ''function_call''} then ''tool_calls''
      else ''stop'')"

definition normalizeMessagesStop :: "string \<Rightarrow> string" where
  "normalizeMessagesStop reason =
     (if reason = ''max_tokens'' then ''length''
      else if reason = ''tool_use'' then ''tool_calls''
      else ''stop'')"

text \<open>A usage event where the counters say something.\<close>

definition usage_events :: "usage \<Rightarrow> stream_event list" where
  "usage_events u = (if usagePresent u then [StreamUsage u] else [])"

section \<open>Chat\<close>

record chat_tool_delta =
  td_index :: int
  td_id :: string
  td_name :: string
  td_arguments :: string

record chat_delta =
  cd_content :: "string option"
  cd_reasoning :: "string option"
  cd_tools :: "chat_tool_delta list"
  cd_finish :: "string option"

definition tool_delta_struct :: "members \<Rightarrow> chat_tool_delta decoded" where
  "tool_delta_struct kvs =
     (let (index, ok1) = f_int ''index'' kvs; (i, ok2) = f_string ''id'' kvs;
          ((name, arguments), ok3) = f_struct (\<lambda>fs. let (n, o1) = f_string ''name'' fs; (a, o2) = f_string ''arguments'' fs
             in ((n, a), o1 \<and> o2)) ''function'' kvs
      in (\<lparr>td_index = index, td_id = i, td_name = name, td_arguments = arguments\<rparr>, ok1 \<and> ok2 \<and> ok3))"

definition delta_struct :: "members \<Rightarrow> (string option \<times> string option \<times> chat_tool_delta list) decoded" where
  "delta_struct kvs =
     (let (role, ok1) = f_string ''role'' kvs; (content, ok2) = f_ptr_string ''content'' kvs;
          (reasoning, ok3) = f_ptr_string ''reasoning_content'' kvs;
          (tools, ok4) = f_slice (dec_struct tool_delta_struct) ''tool_calls'' kvs
      in ((content, reasoning, tools), ok1 \<and> ok2 \<and> ok3 \<and> ok4))"

definition chunk_choice_struct :: "members \<Rightarrow> chat_delta decoded" where
  "chunk_choice_struct kvs =
     (let ((content, reasoning, tools), ok1) = f_struct delta_struct ''delta'' kvs;
          (finish, ok2) = f_ptr_string ''finish_reason'' kvs
      in (\<lparr>cd_content = content, cd_reasoning = reasoning, cd_tools = tools, cd_finish = finish\<rparr>, ok1 \<and> ok2))"

definition chunk_struct :: "members \<Rightarrow> (string \<times> string \<times> chat_delta list \<times> usage) decoded" where
  "chunk_struct kvs =
     (let (i, ok1) = f_string ''id'' kvs; (model, ok2) = f_string ''model'' kvs;
          (choices, ok3) = f_slice (dec_struct chunk_choice_struct) ''choices'' kvs;
          (usg, ok4) = f_struct chat_usage_struct ''usage'' kvs
      in ((i, model, choices, usg), ok1 \<and> ok2 \<and> ok3 \<and> ok4))"

type_synonym decode_state = "stream_event list \<times> stream_decoder"

definition chat_tool_step :: "chat_tool_delta \<Rightarrow> decode_state \<Rightarrow> decode_state" where
  "chat_tool_step t = (\<lambda>(events, d).
     let index = td_index t;
         (i, started, d') = (case map_of (dec_chat_tools d) index of
             Some i \<Rightarrow> (i, [], d)
           | None \<Rightarrow> (let i = (if td_id t \<noteq> [] then td_id t else ''call_'' @ itoa index) in
               (i, [StreamToolStart index i (td_name t)],
                d\<lparr>dec_chat_tools := put index i (dec_chat_tools d), dec_had_tools := True\<rparr>)))
     in (events @ started @ (if td_arguments t \<noteq> [] then [StreamToolDelta index i (td_arguments t)] else []), d'))"

text \<open>On the finish reason every open call ends, in the order of the indexes.\<close>

definition chat_tool_ends :: "stream_decoder \<Rightarrow> stream_event list" where
  "chat_tool_ends d =
     map (\<lambda>index. StreamToolEnd index (the (map_of (dec_chat_tools d) index)))
       (sort (remdups (map fst (dec_chat_tools d))))"

definition some_text :: "string option \<Rightarrow> (string \<Rightarrow> stream_event) \<Rightarrow> stream_event list" where
  "some_text text event = (case text of None \<Rightarrow> [] | Some s \<Rightarrow> if s \<noteq> [] then [event s] else [])"

definition chat_choice_step :: "chat_delta \<Rightarrow> decode_state \<Rightarrow> decode_state" where
  "chat_choice_step c = (\<lambda>(events, d).
     let events1 = events @ some_text (cd_reasoning c) (StreamReasoning 0) @ some_text (cd_content c) (StreamText 0);
         (events2, d2) = fold chat_tool_step (cd_tools c) (events1, d)
     in case cd_finish c of
          None \<Rightarrow> (events2, d2)
        | Some reason \<Rightarrow> (events2 @ chat_tool_ends d2 @ [StreamFinish (normalizeChatStop reason)],
                         d2\<lparr>dec_chat_tools := []\<rparr>))"

definition decodeChat :: "string \<Rightarrow> stream_decoder \<Rightarrow> decode_result" where
  "decodeChat data d =
     (if trim_space data = ''[DONE]'' then (Inr [StreamDone], d)
      else orFail (bindE (unmarshal_text data) (\<lambda>j. okE (dec_struct chunk_struct j))) d (\<lambda>(i, model, choices, usg).
        let start = (if dec_started d then ([], d) else ([StreamStart i model], d\<lparr>dec_started := True\<rparr>));
            (events, d') = fold chat_choice_step choices start
        in (Inr (events @ usage_events usg), d')))"

section \<open>Messages\<close>

definition typed_struct :: "string \<Rightarrow> members \<Rightarrow> (string \<times> int) decoded" where
  "typed_struct index_name kvs =
     (let (t, ok1) = f_string ''type'' kvs; (index, ok2) = f_int index_name kvs in ((t, index), ok1 \<and> ok2))"

definition message_start_struct :: "members \<Rightarrow> (string \<times> string \<times> usage) decoded" where
  "message_start_struct kvs =
     f_struct (\<lambda>ms. let (i, ok1) = f_string ''id'' ms; (model, ok2) = f_string ''model'' ms;
         (usg, ok3) = f_struct messages_stream_usage_struct ''usage'' ms
       in ((i, model, usg), ok1 \<and> ok2 \<and> ok3)) ''message'' kvs"

record content_block =
  cb_type :: string
  cb_text :: string
  cb_thinking :: string
  cb_id :: string
  cb_name :: string
  cb_input :: raw_message

definition content_block_struct :: "members \<Rightarrow> content_block decoded" where
  "content_block_struct kvs =
     (let (t, ok1) = f_string ''type'' kvs; (text, ok2) = f_string ''text'' kvs;
          (thinking, ok3) = f_string ''thinking'' kvs; (i, ok4) = f_string ''id'' kvs;
          (name, ok5) = f_string ''name'' kvs; (input, ok6) = f_raw ''input'' kvs
      in (\<lparr>cb_type = t, cb_text = text, cb_thinking = thinking, cb_id = i, cb_name = name, cb_input = input\<rparr>,
          ok1 \<and> ok2 \<and> ok3 \<and> ok4 \<and> ok5 \<and> ok6))"

definition block_start_struct :: "members \<Rightarrow> (int \<times> content_block) decoded" where
  "block_start_struct kvs =
     (let (index, ok1) = f_int ''index'' kvs; (b, ok2) = f_struct content_block_struct ''content_block'' kvs
      in ((index, b), ok1 \<and> ok2))"

record block_delta =
  bd_type :: string
  bd_text :: string
  bd_thinking :: string
  bd_json :: string

definition block_delta_struct :: "members \<Rightarrow> (int \<times> block_delta) decoded" where
  "block_delta_struct kvs =
     (let (index, ok1) = f_int ''index'' kvs;
          (b, ok2) = f_struct (\<lambda>ds. let (t, o1) = f_string ''type'' ds; (text, o2) = f_string ''text'' ds;
              (thinking, o3) = f_string ''thinking'' ds; (partial, o4) = f_string ''partial_json'' ds
            in (\<lparr>bd_type = t, bd_text = text, bd_thinking = thinking, bd_json = partial\<rparr>, o1 \<and> o2 \<and> o3 \<and> o4))
            ''delta'' kvs
      in ((index, b), ok1 \<and> ok2))"

definition message_delta_struct :: "members \<Rightarrow> (string \<times> usage) decoded" where
  "message_delta_struct kvs =
     (let (stop, ok1) = f_struct (f_string ''stop_reason'') ''delta'' kvs;
          (usg, ok2) = f_struct messages_stream_usage_struct ''usage'' kvs
      in ((stop, usg), ok1 \<and> ok2))"

text \<open>The block of an index; an unknown index reads as the zero block.\<close>

definition block_at :: "stream_decoder \<Rightarrow> int \<Rightarrow> stream_block" where
  "block_at d index = (case map_of (dec_blocks d) index of
       Some b \<Rightarrow> b | None \<Rightarrow> \<lparr>sb_kind = [], sb_call_id = [], sb_name = []\<rparr>)"

definition decodeBlockStart :: "int \<times> content_block \<Rightarrow> stream_decoder \<Rightarrow> decode_result" where
  "decodeBlockStart = (\<lambda>(index, b) d.
     let d' = d\<lparr>dec_blocks := put index \<lparr>sb_kind = cb_type b, sb_call_id = cb_id b, sb_name = cb_name b\<rparr> (dec_blocks d)\<rparr> in
     if cb_type b = ''text'' then (Inr (if cb_text b = [] then [] else [StreamText index (cb_text b)]), d')
     else if cb_type b = ''thinking'' then
       (Inr (if cb_thinking b = [] then [] else [StreamReasoning index (cb_thinking b)]), d')
     else if cb_type b = ''redacted_thinking'' then (Inr [], d')
     else if cb_type b \<noteq> ''tool_use'' then
       (Inl (Errorf ''unsupported Messages stream block %q'' [cb_type b]), d')
     else (Inr (StreamToolStart index (cb_id b) (cb_name b) #
         (if cb_input b \<noteq> None \<and> raw_text (cb_input b) \<noteq> ''{}''
          then [StreamToolDelta index (cb_id b) (raw_text (cb_input b))] else [])),
         d'\<lparr>dec_had_tools := True\<rparr>))"

definition decodeBlockDelta :: "int \<times> block_delta \<Rightarrow> stream_decoder \<Rightarrow> decode_result" where
  "decodeBlockDelta = (\<lambda>(index, b) d.
     let block = block_at d index;
         unexpected = Errorf ''unexpected Messages stream delta %q for block %q'' [bd_type b, sb_kind block]
     in
     if bd_type b = ''text_delta'' then (Inr [StreamText index (bd_text b)], d)
     else if bd_type b = ''input_json_delta'' then
       (Inr [StreamToolDelta index (sb_call_id block) (bd_json b)], d)
     else if bd_type b = ''thinking_delta'' then
       (if sb_kind block \<noteq> ''thinking'' then (Inl unexpected, d)
        else (Inr [StreamReasoning index (bd_thinking b)], d))
     else if bd_type b = ''signature_delta'' then
       (if sb_kind block \<noteq> ''thinking'' then (Inl unexpected, d) else (Inr [], d))
     else (Inl (Errorf ''unsupported Messages stream delta %q'' [bd_type b]), d))"

definition decodeBlockStop :: "int \<Rightarrow> stream_decoder \<Rightarrow> decode_result" where
  "decodeBlockStop index d =
     (let block = block_at d index; d' = d\<lparr>dec_blocks := AList.delete index (dec_blocks d)\<rparr> in
      (Inr (if sb_kind block = ''tool_use'' then [StreamToolEnd index (sb_call_id block)] else []), d'))"

definition decodeMessages :: "sse_event \<Rightarrow> stream_decoder \<Rightarrow> decode_result" where
  "decodeMessages input d =
     orFail (unmarshal_text (sse_data input)) d (\<lambda>j.
     orFail (okE (dec_struct (typed_struct ''index'') j)) d (\<lambda>(t, raw_index).
     let event_type = (if t \<noteq> [] then t else sse_name input) in
     if event_type = ''ping'' then (Inr [], d)
     else if event_type = ''message_start'' then
       orFail (okE (dec_struct message_start_struct j)) d (\<lambda>(i, model, usg).
       (Inr (StreamStart i model # usage_events usg), d\<lparr>dec_started := True\<rparr>))
     else if event_type = ''content_block_start'' then
       orFail (okE (dec_struct block_start_struct j)) d (\<lambda>s. decodeBlockStart s d)
     else if event_type = ''content_block_delta'' then
       orFail (okE (dec_struct block_delta_struct j)) d (\<lambda>s. decodeBlockDelta s d)
     else if event_type = ''content_block_stop'' then decodeBlockStop raw_index d
     else if event_type = ''message_delta'' then
       orFail (okE (dec_struct message_delta_struct j)) d (\<lambda>(stop, usg).
       (Inr (StreamFinish (normalizeMessagesStop stop) # usage_events usg), d))
     else if event_type = ''message_stop'' then (Inr [StreamDone], d)
     else if event_type = ''error'' then
       (Inl (Errorf ''Messages stream returned an error: %s'' [sse_data input]), d)
     else (Inl (Errorf ''unsupported Messages stream event %q'' [event_type]), d)))"

section \<open>Responses\<close>

definition response_start_struct :: "members \<Rightarrow> (string \<times> string) decoded" where
  "response_start_struct kvs =
     f_struct (\<lambda>rs. let (i, ok1) = f_string ''id'' rs; (model, ok2) = f_string ''model'' rs
       in ((i, model), ok1 \<and> ok2)) ''response'' kvs"

record output_item =
  oi_type :: string
  oi_id :: string
  oi_call_id :: string
  oi_name :: string
  oi_arguments :: string

definition item_struct :: "members \<Rightarrow> output_item decoded" where
  "item_struct kvs =
     (let (t, ok1) = f_string ''type'' kvs; (i, ok2) = f_string ''id'' kvs; (c, ok3) = f_string ''call_id'' kvs;
          (name, ok4) = f_string ''name'' kvs; (arguments, ok5) = f_string ''arguments'' kvs
      in (\<lparr>oi_type = t, oi_id = i, oi_call_id = c, oi_name = name, oi_arguments = arguments\<rparr>,
          ok1 \<and> ok2 \<and> ok3 \<and> ok4 \<and> ok5))"

definition item_added_struct :: "members \<Rightarrow> (int \<times> output_item) decoded" where
  "item_added_struct kvs =
     (let (index, ok1) = f_int ''output_index'' kvs; (item, ok2) = f_struct item_struct ''item'' kvs
      in ((index, item), ok1 \<and> ok2))"

definition item_done_struct :: "members \<Rightarrow> (int \<times> string \<times> string) decoded" where
  "item_done_struct kvs =
     (let (index, ok1) = f_int ''output_index'' kvs;
          ((t, c), ok2) = f_struct (\<lambda>is. let (t, o1) = f_string ''type'' is; (c, o2) = f_string ''call_id'' is
            in ((t, c), o1 \<and> o2)) ''item'' kvs
      in ((index, t, c), ok1 \<and> ok2))"

definition output_delta_struct :: "members \<Rightarrow> (int \<times> string) decoded" where
  "output_delta_struct kvs =
     (let (index, ok1) = f_int ''output_index'' kvs; (delta, ok2) = f_string ''delta'' kvs
      in ((index, delta), ok1 \<and> ok2))"

definition response_end_struct :: "members \<Rightarrow> (string \<times> string \<times> usage) decoded" where
  "response_end_struct kvs =
     f_struct (\<lambda>rs. let (status, ok1) = f_string ''status'' rs;
         (reason, ok2) = f_struct (f_string ''reason'') ''incomplete_details'' rs;
         (usg, ok3) = f_struct responses_usage_struct ''usage'' rs
       in ((status, reason, usg), ok1 \<and> ok2 \<and> ok3)) ''response'' kvs"

definition response_tool :: "stream_decoder \<Rightarrow> int \<Rightarrow> string" where
  "response_tool d index = (case map_of (dec_response_tools d) index of Some c \<Rightarrow> c | None \<Rightarrow> [])"

text \<open>The events of the protocol that carry nothing the gateway forwards.\<close>

definition ignored_responses_events :: "string list" where
  "ignored_responses_events =
     [''response.content_part.added'', ''response.content_part.done'', ''response.output_text.done'',
      ''response.function_call_arguments.done'', ''response.reasoning_summary_part.added'',
      ''response.reasoning_summary_part.done'', ''response.reasoning_summary_text.done'',
      ''response.reasoning_text.done'', ''response.output_text.annotation.added'',
      ''response.output_text.annotation.done'']"

definition decodeItemAdded :: "int \<times> output_item \<Rightarrow> stream_decoder \<Rightarrow> decode_state" where
  "decodeItemAdded = (\<lambda>(index, item) d.
     if oi_type item \<noteq> ''function_call'' then ([], d)
     else (StreamToolStart index (oi_call_id item) (oi_name item) #
             (if oi_arguments item \<noteq> [] then [StreamToolDelta index (oi_call_id item) (oi_arguments item)] else []),
           d\<lparr>dec_had_tools := True, dec_response_tools := put index (oi_call_id item) (dec_response_tools d)\<rparr>))"

definition decodeItemDone :: "int \<times> string \<times> string \<Rightarrow> stream_decoder \<Rightarrow> decode_state" where
  "decodeItemDone = (\<lambda>(index, t, c) d.
     if t \<noteq> ''function_call'' then ([], d)
     else ([StreamToolEnd index (if c = [] then response_tool d index else c)], d))"

definition decodeResponseEnd :: "string \<times> string \<times> usage \<Rightarrow> stream_decoder \<Rightarrow> decode_state" where
  "decodeResponseEnd = (\<lambda>(status, reason, usg) d.
     let stop = (if status = ''incomplete'' \<and> reason = ''max_output_tokens'' then ''length''
                 else if dec_had_tools d then ''tool_calls'' else ''stop'')
     in (StreamFinish stop # usage_events usg @ [StreamDone], d))"

definition decodeResponses :: "sse_event \<Rightarrow> stream_decoder \<Rightarrow> decode_result" where
  "decodeResponses input d =
     orFail (unmarshal_text (sse_data input)) d (\<lambda>j.
     orFail (okE (dec_struct (typed_struct ''output_index'') j)) d (\<lambda>(t, _).
     let event_type = (if t \<noteq> [] then t else sse_name input) in
     if event_type \<in> {''response.created'', ''response.in_progress'', ''response.queued''} then
       (if dec_started d then (Inr [], d)
        else orFail (okE (dec_struct response_start_struct j)) d (\<lambda>(i, model).
          (Inr [StreamStart i model], d\<lparr>dec_started := True\<rparr>)))
     else if event_type = ''response.output_item.added'' then
       orFail (okE (dec_struct item_added_struct j)) d (\<lambda>s. events_of (decodeItemAdded s d))
     else if event_type = ''response.output_text.delta'' then
       orFail (okE (dec_struct output_delta_struct j)) d (\<lambda>(index, delta). (Inr [StreamText index delta], d))
     else if event_type \<in> {''response.reasoning_summary_text.delta'', ''response.reasoning_text.delta''} then
       orFail (okE (dec_struct output_delta_struct j)) d (\<lambda>(index, delta). (Inr [StreamReasoning index delta], d))
     else if event_type = ''response.function_call_arguments.delta'' then
       orFail (okE (dec_struct output_delta_struct j)) d (\<lambda>(index, delta).
       (Inr [StreamToolDelta index (response_tool d index) delta], d))
     else if event_type = ''response.output_item.done'' then
       orFail (okE (dec_struct item_done_struct j)) d (\<lambda>s. events_of (decodeItemDone s d))
     else if event_type \<in> {''response.completed'', ''response.incomplete'', ''response.failed''} then
       orFail (okE (dec_struct response_end_struct j)) d (\<lambda>s. events_of (decodeResponseEnd s d))
     else if event_type = ''error'' then
       (Inl (Errorf ''Responses stream returned an error: %s'' [sse_data input]), d)
     else if event_type \<in> set ignored_responses_events then (Inr [], d)
     else (Inl (Errorf ''unsupported Responses stream event %q'' [event_type]), d)))"


section \<open>Antigravity\<close>

definition set_antigravity :: "stream_event list \<times> ag_state \<Rightarrow> stream_decoder \<Rightarrow> stream_decoder" where
  "set_antigravity es d = d\<lparr>dec_antigravity := snd es\<rparr>"

definition ag_begin :: "(nat \<Rightarrow> string) \<Rightarrow> ag_document \<Rightarrow> stream_decoder \<Rightarrow> stream_event list \<times> stream_decoder" where
  "ag_begin rand document d =
     (if dec_started d then ([], d)
      else let (i, s) = (if agx_id document = [] then draw_id rand ''agy'' (dec_antigravity d)
                         else (agx_id document, dec_antigravity d))
           in ([StreamStart i (agx_model document)],
               d\<lparr>dec_started := True,
                 dec_antigravity := s\<lparr>ag_response := ag_response s\<lparr>resp_id := i, resp_model := agx_model document\<rparr>\<rparr>\<rparr>))"

definition decodeAntigravity :: "(nat \<Rightarrow> string) \<Rightarrow> instant \<Rightarrow> string \<Rightarrow> stream_decoder \<Rightarrow> decode_result" where
  "decodeAntigravity rand now data d =
     (if ag_done (dec_antigravity d) then (Inl (Errorf ''Antigravity data after the end'' []), d)
      else if trim_space data = ''[DONE]'' then (Inl (Errorf ''Antigravity sent DONE before a finishReason'' []), d)
      else orFail (decodeAntigravityDocument now data) d (\<lambda>document.
        if length (agx_candidates document) > 1 then (Inl (Errorf ''Antigravity returned several candidates'' []), d)
        else let (events, d1) = ag_begin rand document d in
          if agx_candidates document = [] \<and> \<not> agPresent (agx_usage document)
            then (Inl (Errorf ''Antigravity answer without candidates or usageMetadata'' []), d1)
          else let (r, es) = ag_run rand document (events, dec_antigravity d1) in
            case r of
              Inl e \<Rightarrow> (Inl e, set_antigravity es d1)
            | Inr _ \<Rightarrow> (Inr (fst (ag_hold es)), set_antigravity (ag_hold es) d1)))"

section \<open>Dispatch\<close>

text \<open>\<^verbatim>\<open>Decode\<close>; \<open>now\<close> is the clock the error classification of Antigravity reads.\<close>

definition Decode :: "(nat \<Rightarrow> string) \<Rightarrow> instant \<Rightarrow> sse_event \<Rightarrow> stream_decoder \<Rightarrow> decode_result" where
  "Decode rand now input d =
     (if trim_space (sse_data input) = [] then (Inr [], d)
      else if dec_protocol d = Chat then decodeChat (sse_data input) d
      else if dec_protocol d = Messages then decodeMessages input d
      else if dec_protocol d = Responses then decodeResponses input d
      else if dec_protocol d = Antigravity then decodeAntigravity rand now (sse_data input) d
      else (Inl (Errorf ''unsupported stream protocol %q'' [dec_protocol d]), d))"

end
