(* ===== verification/StreamEncode.thy ===== *)
theory StreamEncode
  imports StreamDecode
begin

text \<open>
  Writing the gateway's stream events for a client (internal/protocol/stream_encode.go).

  The encoder is built by \<^verbatim>\<open>NewStreamConverter\<close> only, which admits three targets; they are
  the type \<open>stream_target\<close>, so the code's branches for other protocols have no counterpart. The
  map of tools and the slice with its keys in order of arrival are one list. A frame is one
  \<^verbatim>\<open>[]byte\<close> of the code, kept as its event name and value; \<open>frame_text\<close> gives the bytes.
  The parameter \<open>clk\<close> is what \<^verbatim>\<open>time.Now().UnixNano()\<close> returns: \<open>clk 0\<close> where the stream id is
  made, \<open>clk 1\<close> where an item id is made.
\<close>

datatype stream_target = ToChat | ToMessages | ToResponses

record encoded_tool =
  tl_key :: string
  tl_call_id :: string
  tl_name :: string
  tl_target_index :: int
  tl_block_index :: int
  tl_item_id :: string
  tl_arguments :: string
  tl_closed :: bool

record stream_encoder =
  enc_omit_usage :: bool
  enc_target :: stream_target
  enc_model :: string
  enc_id :: string
  enc_created :: int
  enc_sequence :: int
  enc_started :: bool
  enc_done :: bool
  enc_stop :: string
  enc_usage :: usage
  enc_text_started :: bool
  enc_text_closed :: bool
  enc_text_index :: int
  enc_text_item :: string
  enc_text :: string
  enc_reasoning_started :: bool
  enc_reasoning_closed :: bool
  enc_reasoning_index :: int
  enc_reasoning_item :: string
  enc_reasoning :: string
  enc_next_block :: int
  enc_next_output :: int
  enc_tools :: "encoded_tool list"

definition newStreamEncoder :: "stream_target \<Rightarrow> string \<Rightarrow> int \<Rightarrow> stream_encoder" where
  "newStreamEncoder target model created =
     \<lparr>enc_omit_usage = False, enc_target = target, enc_model = model, enc_id = [], enc_created = created,
      enc_sequence = 0, enc_started = False, enc_done = False, enc_stop = [], enc_usage = no_usage,
      enc_text_started = False, enc_text_closed = False, enc_text_index = -1, enc_text_item = [], enc_text = [],
      enc_reasoning_started = False, enc_reasoning_closed = False, enc_reasoning_index = -1,
      enc_reasoning_item = [], enc_reasoning = [], enc_next_block = 0, enc_next_output = 0, enc_tools = []\<rparr>"

datatype frame = Frame string gmap | DoneFrame

definition frame_text :: "frame \<Rightarrow> string" where
  "frame_text f = (case f of Frame name m \<Rightarrow> encodeSSE name (GMap m) | DoneFrame \<Rightarrow> ''data: [DONE]'' @ [LF, LF])"

type_synonym encode_result = "frame list \<times> stream_encoder"

text \<open>Running one step after another, the frames of both in order.\<close>

definition after :: "encode_result \<Rightarrow> (stream_encoder \<Rightarrow> encode_result) \<Rightarrow> encode_result" where
  "after r f = (let (out, e) = r; (out', e') = f e in (out @ out', e'))"

section \<open>Small parts\<close>

fun base36_nat :: "nat \<Rightarrow> string" where
  "base36_nat n = (let d = n mod 36; c = (if d < 10 then char_of (48 + d) else char_of (87 + d)) in
     if n < 36 then [c] else base36_nat (n div 36) @ [c])"

declare base36_nat.simps [simp del]

definition base36 :: "int \<Rightarrow> string" where
  "base36 i = (if i < 0 then ''-'' @ base36_nat (nat (- i)) else base36_nat (nat i))"

definition chatStop :: "string \<Rightarrow> string" where
  "chatStop reason = (if reason = ''tool_calls'' \<or> reason = ''length'' then reason else ''stop'')"

definition messagesStop :: "string \<Rightarrow> string" where
  "messagesStop reason =
     (if reason = ''tool_calls'' then ''tool_use'' else if reason = ''length'' then ''max_tokens'' else ''end_turn'')"

definition chatUsage :: "usage \<Rightarrow> gval" where "chatUsage = encodeChatUsage"
definition messagesUsage :: "usage \<Rightarrow> gval" where "messagesUsage = encodeMessagesUsage"
definition responsesUsage :: "usage \<Rightarrow> gval" where "responsesUsage = encodeResponsesUsage"

definition mergeUsage :: "usage \<Rightarrow> stream_encoder \<Rightarrow> stream_encoder" where
  "mergeUsage value e = e\<lparr>enc_usage := mergeExtractedUsage (enc_usage e) value\<rparr>"

fun id_prefix :: "stream_target \<Rightarrow> string" where
  "id_prefix ToChat = ''chatcmpl_''"
| "id_prefix ToMessages = ''msg_''"
| "id_prefix ToResponses = ''resp_''"

definition setID :: "(nat \<Rightarrow> int) \<Rightarrow> string \<Rightarrow> stream_encoder \<Rightarrow> stream_encoder" where
  "setID clk source e =
     (if enc_id e \<noteq> [] then e
      else if has_prefix source (id_prefix (enc_target e)) then e\<lparr>enc_id := source\<rparr>
      else e\<lparr>enc_id := id_prefix (enc_target e) @ base36 (clk 0)\<rparr>)"

definition chat_chunk :: "stream_encoder \<Rightarrow> gmap \<Rightarrow> gval \<Rightarrow> gmap" where
  "chat_chunk e delta finish =
     [(''id'', GStr (enc_id e)), (''object'', GStr ''chat.completion.chunk''), (''created'', GInt (enc_created e)),
      (''model'', GStr (enc_model e)),
      (''choices'', GArr [GMap [(''index'', GInt 0), (''delta'', GMap delta), (''finish_reason'', finish)]])]"

definition messages_frame :: "string \<Rightarrow> gmap \<Rightarrow> frame" where
  "messages_frame name m = Frame name ((''type'', GStr name) # m)"

text \<open>The Responses events carry their name and a running number.\<close>

definition responsesEvent :: "string \<Rightarrow> gmap \<Rightarrow> stream_encoder \<Rightarrow> encode_result" where
  "responsesEvent name flds e =
     ([Frame name (put ''sequence_number'' (GInt (enc_sequence e)) (put ''type'' (GStr name) flds))],
      e\<lparr>enc_sequence := enc_sequence e + 1\<rparr>)"

definition responseObject :: "stream_encoder \<Rightarrow> string \<Rightarrow> gval list \<Rightarrow> gval \<Rightarrow> gval" where
  "responseObject e status out usg =
     GMap [(''id'', GStr (enc_id e)), (''object'', GStr ''response''), (''created_at'', GInt (enc_created e)),
      (''status'', GStr status), (''completed_at'', GNil), (''error'', GNil), (''incomplete_details'', GNil),
      (''instructions'', GNil), (''max_output_tokens'', GNil), (''model'', GStr (enc_model e)),
      (''output'', GArr out), (''parallel_tool_calls'', GBool True), (''previous_response_id'', GNil),
      (''reasoning'', GNil), (''store'', GBool False), (''temperature'', GNil),
      (''text'', GMap [(''format'', GMap [(''type'', GStr ''text'')])]), (''tool_choice'', GStr ''auto''),
      (''tools'', GArr []), (''top_p'', GNil), (''truncation'', GStr ''disabled''), (''usage'', usg),
      (''metadata'', GMap [])]"

definition output_text_part :: "string \<Rightarrow> gval" where
  "output_text_part text = GMap [(''type'', GStr ''output_text''), (''text'', GStr text), (''annotations'', GArr [])]"

definition summary_part :: "string \<Rightarrow> gval" where
  "summary_part text = GMap [(''type'', GStr ''summary_text''), (''text'', GStr text)]"

definition responseMessageItem :: "stream_encoder \<Rightarrow> string \<Rightarrow> gval" where
  "responseMessageItem e status =
     GMap [(''id'', GStr (enc_text_item e)), (''type'', GStr ''message''), (''status'', GStr status),
      (''role'', GStr ''assistant''), (''content'', GArr [output_text_part (enc_text e)])]"

definition responseReasoningItem :: "stream_encoder \<Rightarrow> string \<Rightarrow> gval" where
  "responseReasoningItem e text =
     GMap [(''id'', GStr (enc_reasoning_item e)), (''type'', GStr ''reasoning''),
      (''summary'', GArr (if text \<noteq> [] then [summary_part text] else []))]"

definition responseToolItem :: "encoded_tool \<Rightarrow> string \<Rightarrow> gval" where
  "responseToolItem t status =
     GMap [(''id'', GStr (tl_item_id t)), (''type'', GStr ''function_call''), (''status'', GStr status),
      (''arguments'', GStr (tl_arguments t)), (''call_id'', GStr (tl_call_id t)), (''name'', GStr (tl_name t))]"

text \<open>The output of the finished response: one slot per output index, filled from the blocks.\<close>

definition responseOutput :: "stream_encoder \<Rightarrow> gval list" where
  "responseOutput e =
     (let i0 = replicate (nat (enc_next_output e)) GNil;
          i1 = (if enc_reasoning_started e
                then i0[nat (enc_reasoning_index e) := responseReasoningItem e (enc_reasoning e)] else i0);
          i2 = (if enc_text_started e then i1[nat (enc_text_index e) := responseMessageItem e ''completed''] else i1)
      in fold (\<lambda>t items. items[nat (tl_target_index t) := responseToolItem t ''completed'']) (enc_tools e) i2)"

section \<open>Start, reasoning, text\<close>

definition ensureStarted :: "(nat \<Rightarrow> int) \<Rightarrow> stream_encoder \<Rightarrow> encode_result" where
  "ensureStarted clk e0 =
     (if enc_started e0 then ([], e0)
      else let e = setID clk [] (e0\<lparr>enc_started := True\<rparr>) in
        case enc_target e of
          ToChat \<Rightarrow> ([Frame [] (chat_chunk e [(''role'', GStr ''assistant''), (''content'', GStr [])] GNil)], e)
        | ToMessages \<Rightarrow>
            ([messages_frame ''message_start''
                [(''message'', GMap [(''id'', GStr (enc_id e)), (''type'', GStr ''message''), (''role'', GStr ''assistant''),
                   (''model'', GStr (enc_model e)), (''content'', GArr []), (''stop_reason'', GNil),
                   (''stop_sequence'', GNil), (''usage'', messagesUsage (enc_usage e))])]], e)
        | ToResponses \<Rightarrow>
            (let created = responseObject e ''in_progress'' [] GNil in
             after (responsesEvent ''response.created'' [(''response'', created)] e)
               (responsesEvent ''response.in_progress'' [(''response'', created)])))"

definition block_start :: "int \<Rightarrow> gmap \<Rightarrow> frame" where
  "block_start index block = messages_frame ''content_block_start'' [(''index'', GInt index), (''content_block'', GMap block)]"

definition block_delta :: "int \<Rightarrow> gmap \<Rightarrow> frame" where
  "block_delta index delta = messages_frame ''content_block_delta'' [(''index'', GInt index), (''delta'', GMap delta)]"

definition block_stop :: "int \<Rightarrow> frame" where
  "block_stop index = messages_frame ''content_block_stop'' [(''index'', GInt index)]"

definition startReasoning :: "(nat \<Rightarrow> int) \<Rightarrow> stream_encoder \<Rightarrow> encode_result" where
  "startReasoning clk e =
     (if enc_reasoning_started e then ([], e)
      else case enc_target e of
          ToMessages \<Rightarrow>
            ([block_start (enc_next_block e) [(''type'', GStr ''thinking''), (''thinking'', GStr [])]],
             e\<lparr>enc_reasoning_started := True, enc_reasoning_index := enc_next_block e,
               enc_next_block := enc_next_block e + 1\<rparr>)
        | ToResponses \<Rightarrow>
            (let e1 = e\<lparr>enc_reasoning_started := True, enc_reasoning_index := enc_next_output e,
                        enc_next_output := enc_next_output e + 1, enc_reasoning_item := ''rs_'' @ base36 (clk 1)\<rparr>
             in after (responsesEvent ''response.output_item.added''
                   [(''output_index'', GInt (enc_reasoning_index e1)), (''item'', responseReasoningItem e1 [])] e1)
                 (\<lambda>e2. responsesEvent ''response.reasoning_summary_part.added''
                   [(''item_id'', GStr (enc_reasoning_item e2)), (''output_index'', GInt (enc_reasoning_index e2)),
                    (''summary_index'', GInt 0), (''part'', summary_part [])] e2))
        | ToChat \<Rightarrow> ([], e))"

definition encodeReasoning :: "(nat \<Rightarrow> int) \<Rightarrow> string \<Rightarrow> stream_encoder \<Rightarrow> encode_result" where
  "encodeReasoning clk delta e =
     (if delta = [] then ([], e)
      else case enc_target e of
          ToChat \<Rightarrow> ([Frame [] (chat_chunk e [(''reasoning_content'', GStr delta)] GNil)], e)
        | ToMessages \<Rightarrow> after (startReasoning clk e) (\<lambda>e.
            ([block_delta (enc_reasoning_index e) [(''type'', GStr ''thinking_delta''), (''thinking'', GStr delta)]],
             e\<lparr>enc_reasoning := enc_reasoning e @ delta\<rparr>))
        | ToResponses \<Rightarrow> after (startReasoning clk e) (\<lambda>e.
            responsesEvent ''response.reasoning_summary_text.delta''
              [(''item_id'', GStr (enc_reasoning_item e)), (''output_index'', GInt (enc_reasoning_index e)),
               (''summary_index'', GInt 0), (''delta'', GStr delta)]
              (e\<lparr>enc_reasoning := enc_reasoning e @ delta\<rparr>)))"

definition closeReasoning :: "stream_encoder \<Rightarrow> encode_result" where
  "closeReasoning e0 =
     (if \<not> enc_reasoning_started e0 \<or> enc_reasoning_closed e0 then ([], e0)
      else let e = e0\<lparr>enc_reasoning_closed := True\<rparr> in
        if enc_target e = ToMessages then ([block_stop (enc_reasoning_index e)], e)
        else after (responsesEvent ''response.reasoning_summary_text.done''
               [(''item_id'', GStr (enc_reasoning_item e)), (''output_index'', GInt (enc_reasoning_index e)),
                (''summary_index'', GInt 0), (''text'', GStr (enc_reasoning e))] e) (\<lambda>e.
             after (responsesEvent ''response.reasoning_summary_part.done''
               [(''item_id'', GStr (enc_reasoning_item e)), (''output_index'', GInt (enc_reasoning_index e)),
                (''summary_index'', GInt 0), (''part'', summary_part (enc_reasoning e))] e) (\<lambda>e.
             responsesEvent ''response.output_item.done''
               [(''output_index'', GInt (enc_reasoning_index e)),
                (''item'', responseReasoningItem e (enc_reasoning e))] e)))"

definition startText :: "(nat \<Rightarrow> int) \<Rightarrow> stream_encoder \<Rightarrow> encode_result" where
  "startText clk e =
     (if enc_text_started e then ([], e)
      else case enc_target e of
          ToMessages \<Rightarrow>
            ([block_start (enc_next_block e) [(''type'', GStr ''text''), (''text'', GStr [])]],
             e\<lparr>enc_text_started := True, enc_text_index := enc_next_block e, enc_next_block := enc_next_block e + 1\<rparr>)
        | ToResponses \<Rightarrow>
            (let e1 = e\<lparr>enc_text_started := True, enc_text_index := enc_next_output e,
                        enc_next_output := enc_next_output e + 1, enc_text_item := ''msg_'' @ base36 (clk 1)\<rparr>
             in after (responsesEvent ''response.output_item.added''
                   [(''output_index'', GInt (enc_text_index e1)),
                    (''item'', GMap [(''id'', GStr (enc_text_item e1)), (''type'', GStr ''message''),
                       (''status'', GStr ''in_progress''), (''role'', GStr ''assistant''), (''content'', GArr [])])] e1)
                 (\<lambda>e2. responsesEvent ''response.content_part.added''
                   [(''item_id'', GStr (enc_text_item e2)), (''output_index'', GInt (enc_text_index e2)),
                    (''content_index'', GInt 0), (''part'', output_text_part [])] e2))
        | ToChat \<Rightarrow> ([], e))"

definition encodeText :: "(nat \<Rightarrow> int) \<Rightarrow> string \<Rightarrow> stream_encoder \<Rightarrow> encode_result" where
  "encodeText clk delta e0 =
     (if delta = [] then ([], e0)
      else let e = e0\<lparr>enc_text := enc_text e0 @ delta\<rparr> in
        case enc_target e of
          ToChat \<Rightarrow> ([Frame [] (chat_chunk e [(''content'', GStr delta)] GNil)], e)
        | ToMessages \<Rightarrow> after (startText clk e) (\<lambda>e.
            ([block_delta (enc_text_index e) [(''type'', GStr ''text_delta''), (''text'', GStr delta)]], e))
        | ToResponses \<Rightarrow> after (startText clk e) (\<lambda>e.
            responsesEvent ''response.output_text.delta''
              [(''item_id'', GStr (enc_text_item e)), (''output_index'', GInt (enc_text_index e)),
               (''content_index'', GInt 0), (''delta'', GStr delta), (''logprobs'', GArr [])] e))"

section \<open>Tool calls\<close>

definition tool_key :: "string \<Rightarrow> int \<Rightarrow> string" where
  "tool_key i index = (if i = [] then ''index:'' @ itoa index else i)"

definition find_tool :: "string \<Rightarrow> stream_encoder \<Rightarrow> encoded_tool option" where
  "find_tool key e = find (\<lambda>t. tl_key t = key) (enc_tools e)"

definition set_tool :: "encoded_tool \<Rightarrow> stream_encoder \<Rightarrow> stream_encoder" where
  "set_tool t e = e\<lparr>enc_tools := map (\<lambda>u. if tl_key u = tl_key t then t else u) (enc_tools e)\<rparr>"

text \<open>
  \<^verbatim>\<open>tool(event)\<close>: the tool of a call id, or of an index where the event has none. An unknown
  key makes a new tool and reserves its index.
\<close>

definition get_tool ::
    "(nat \<Rightarrow> int) \<Rightarrow> string \<Rightarrow> int \<Rightarrow> string \<Rightarrow> stream_encoder \<Rightarrow> encoded_tool \<times> stream_encoder" where
  "get_tool clk i index name e =
     (case find_tool (tool_key i index) e of
        Some t \<Rightarrow>
          (let t1 = (if tl_call_id t = [] \<and> i \<noteq> [] then t\<lparr>tl_call_id := i\<rparr> else t);
               t2 = (if tl_name t1 = [] \<and> name \<noteq> [] then t1\<lparr>tl_name := name\<rparr> else t1)
           in (t2, set_tool t2 e))
      | None \<Rightarrow>
          (let n = int (length (enc_tools e));
               t = \<lparr>tl_key = tool_key i index, tl_call_id = (if i = [] then ''call_'' @ itoa n else i),
                    tl_name = name,
                    tl_target_index = (if enc_target e = ToResponses then enc_next_output e else n),
                    tl_block_index = enc_next_block e,
                    tl_item_id = ''fc_'' @ base36 (wrap64 (clk 1 + n)), tl_arguments = [], tl_closed = False\<rparr>
           in (t, e\<lparr>enc_tools := enc_tools e @ [t],
                   enc_next_block := (if enc_target e = ToMessages then enc_next_block e + 1 else enc_next_block e),
                   enc_next_output := (if enc_target e = ToResponses then enc_next_output e + 1 else enc_next_output e)\<rparr>)))"

definition encodeToolStart :: "(nat \<Rightarrow> int) \<Rightarrow> int \<Rightarrow> string \<Rightarrow> string \<Rightarrow> stream_encoder \<Rightarrow> encode_result" where
  "encodeToolStart clk index i name e0 =
     (let (t, e) = get_tool clk i index name e0 in
      case enc_target e of
        ToChat \<Rightarrow>
          ([Frame [] (chat_chunk e [(''tool_calls'', GArr [GMap [(''index'', GInt (tl_target_index t)),
              (''id'', GStr (tl_call_id t)), (''type'', GStr ''function''),
              (''function'', GMap [(''name'', GStr (tl_name t)), (''arguments'', GStr [])])]])] GNil)], e)
      | ToMessages \<Rightarrow>
          ([block_start (tl_block_index t) [(''type'', GStr ''tool_use''), (''id'', GStr (tl_call_id t)),
              (''name'', GStr (tl_name t)), (''input'', GMap [])]], e)
      | ToResponses \<Rightarrow>
          responsesEvent ''response.output_item.added''
            [(''output_index'', GInt (tl_target_index t)),
             (''item'', GMap [(''id'', GStr (tl_item_id t)), (''type'', GStr ''function_call''),
                (''status'', GStr ''in_progress''), (''arguments'', GStr []), (''call_id'', GStr (tl_call_id t)),
                (''name'', GStr (tl_name t))])] e)"

definition encodeToolDelta :: "(nat \<Rightarrow> int) \<Rightarrow> int \<Rightarrow> string \<Rightarrow> string \<Rightarrow> stream_encoder \<Rightarrow> encode_result" where
  "encodeToolDelta clk index i delta e0 =
     (let (t, e1) = get_tool clk i index [] e0 in
      if delta = [] then ([], e1)
      else let e = set_tool (t\<lparr>tl_arguments := tl_arguments t @ delta\<rparr>) e1 in
        case enc_target e of
          ToChat \<Rightarrow>
            ([Frame [] (chat_chunk e [(''tool_calls'', GArr [GMap [(''index'', GInt (tl_target_index t)),
                (''function'', GMap [(''arguments'', GStr delta)])]])] GNil)], e)
        | ToMessages \<Rightarrow>
            ([block_delta (tl_block_index t) [(''type'', GStr ''input_json_delta''), (''partial_json'', GStr delta)]], e)
        | ToResponses \<Rightarrow>
            responsesEvent ''response.function_call_arguments.delta''
              [(''item_id'', GStr (tl_item_id t)), (''output_index'', GInt (tl_target_index t)),
               (''delta'', GStr delta)] e)"

definition closeTool :: "encoded_tool \<Rightarrow> stream_encoder \<Rightarrow> encode_result" where
  "closeTool t0 e0 =
     (if tl_closed t0 then ([], e0)
      else let t = t0\<lparr>tl_closed := True\<rparr>; e = set_tool t e0 in
        case enc_target e of
          ToMessages \<Rightarrow> ([block_stop (tl_block_index t)], e)
        | ToResponses \<Rightarrow>
            after (responsesEvent ''response.function_call_arguments.done''
                [(''item_id'', GStr (tl_item_id t)), (''output_index'', GInt (tl_target_index t)),
                 (''arguments'', GStr (tl_arguments t))] e)
              (responsesEvent ''response.output_item.done''
                [(''output_index'', GInt (tl_target_index t)), (''item'', responseToolItem t ''completed'')])
        | ToChat \<Rightarrow> ([], e))"

definition encodeToolEnd :: "(nat \<Rightarrow> int) \<Rightarrow> int \<Rightarrow> string \<Rightarrow> stream_encoder \<Rightarrow> encode_result" where
  "encodeToolEnd clk index i e0 = (let (t, e) = get_tool clk i index [] e0 in closeTool t e)"

section \<open>The end of a stream\<close>

text \<open>Closing the tools in order of arrival.\<close>

fun closeTools :: "encoded_tool list \<Rightarrow> stream_encoder \<Rightarrow> encode_result" where
  "closeTools [] e = ([], e)"
| "closeTools (t # ts) e = after (closeTool t e) (closeTools ts)"

definition closeText :: "stream_encoder \<Rightarrow> encode_result" where
  "closeText e0 =
     (if \<not> enc_text_started e0 \<or> enc_text_closed e0 then ([], e0)
      else let e = e0\<lparr>enc_text_closed := True\<rparr> in
        if enc_target e = ToMessages then ([block_stop (enc_text_index e)], e)
        else after (responsesEvent ''response.output_text.done''
               [(''item_id'', GStr (enc_text_item e)), (''output_index'', GInt (enc_text_index e)),
                (''content_index'', GInt 0), (''text'', GStr (enc_text e)), (''logprobs'', GArr [])] e) (\<lambda>e.
             after (responsesEvent ''response.content_part.done''
               [(''item_id'', GStr (enc_text_item e)), (''output_index'', GInt (enc_text_index e)),
                (''content_index'', GInt 0), (''part'', output_text_part (enc_text e))] e) (\<lambda>e.
             responsesEvent ''response.output_item.done''
               [(''output_index'', GInt (enc_text_index e)), (''item'', responseMessageItem e ''completed'')] e)))"

definition last_frames :: "stream_encoder \<Rightarrow> encode_result" where
  "last_frames e = (case enc_target e of
       ToChat \<Rightarrow>
         ([Frame [] (optput (usagePresent (enc_usage e) \<and> \<not> enc_omit_usage e) ''usage'' (chatUsage (enc_usage e))
             (chat_chunk e [] (GStr (chatStop (enc_stop e))))), DoneFrame], e)
     | ToMessages \<Rightarrow>
         ([messages_frame ''message_delta''
             [(''delta'', GMap [(''stop_reason'', GStr (messagesStop (enc_stop e))), (''stop_sequence'', GNil)]),
              (''usage'', messagesUsage (enc_usage e))],
           messages_frame ''message_stop'' []], e)
     | ToResponses \<Rightarrow>
         responsesEvent ''response.completed''
           [(''response'', responseObject e ''completed'' (responseOutput e) (responsesUsage (enc_usage e)))] e)"

definition final_frames :: "stream_encoder \<Rightarrow> encode_result" where
  "final_frames e =
     (if enc_target e = ToChat then last_frames e
      else after (closeReasoning e) (\<lambda>e. after (closeText e) last_frames))"

definition finish :: "(nat \<Rightarrow> int) \<Rightarrow> stream_encoder \<Rightarrow> encode_result" where
  "finish clk e =
     (if enc_done e then ([], e)
      else after (ensureStarted clk (e\<lparr>enc_done := True\<rparr>)) (\<lambda>e.
           after (closeTools (enc_tools e) e) (\<lambda>e.
           final_frames (if enc_stop e = [] then e\<lparr>enc_stop := ''stop''\<rparr> else e))))"

section \<open>One event\<close>

definition encode_body :: "(nat \<Rightarrow> int) \<Rightarrow> stream_event \<Rightarrow> stream_encoder \<Rightarrow> encode_result" where
  "encode_body clk event e = (case event of
       StreamText _ delta \<Rightarrow> encodeText clk delta e
     | StreamReasoning _ delta \<Rightarrow> encodeReasoning clk delta e
     | StreamToolStart index i name \<Rightarrow> encodeToolStart clk index i name e
     | StreamToolDelta index i delta \<Rightarrow> encodeToolDelta clk index i delta e
     | StreamToolEnd index i \<Rightarrow> encodeToolEnd clk index i e
     | _ \<Rightarrow> ([], e))"

fun is_reasoning :: "stream_event \<Rightarrow> bool" where
  "is_reasoning (StreamReasoning _ _) = True"
| "is_reasoning _ = False"

definition Encode :: "(nat \<Rightarrow> int) \<Rightarrow> stream_event \<Rightarrow> stream_encoder \<Rightarrow> encode_result" where
  "Encode clk event e =
     (if enc_done e then ([], e)
      else case event of
          StreamStart i _ \<Rightarrow> ([], setID clk i e)
        | StreamUsage u \<Rightarrow> ([], mergeUsage u e)
        | StreamFinish reason \<Rightarrow> ([], e\<lparr>enc_stop := reason\<rparr>)
        | StreamDone \<Rightarrow> finish clk e
        | _ \<Rightarrow>
            after (ensureStarted clk e) (\<lambda>e.
            after (if enc_target e \<in> {ToResponses, ToMessages} \<and> \<not> is_reasoning event then closeReasoning e
                   else ([], e))
              (encode_body clk event)))"

text \<open>A whole stream; every event comes with its own readings of the clock.\<close>

fun encode_all :: "((nat \<Rightarrow> int) \<times> stream_event) list \<Rightarrow> stream_encoder \<Rightarrow> encode_result" where
  "encode_all [] e = ([], e)"
| "encode_all ((clk, ev) # evs) e = after (Encode clk ev e) (encode_all evs)"

end
