(* ===== verification/StreamLaws.thy ===== *)
theory StreamLaws
  imports StreamEncode
begin

text \<open>
  Laws of the stream encoder. Each law relates what was written so far to the state of the
  encoder; \<open>encoder_log\<close> is the interface of such a law: an observation of frames and a
  relation between two states and the observations in between, which every elementary step
  has to satisfy. The locale lifts it to events and whole streams.
\<close>

section \<open>Composition\<close>

lemma fst_after [simp]: "fst (after r f) = fst r @ fst (f (snd r))"
  by (simp add: after_def case_prod_unfold Let_def)

lemma snd_after [simp]: "snd (after r f) = snd (f (snd r))"
  by (simp add: after_def case_prod_unfold Let_def)

lemma snd_responsesEvent [simp]: "snd (responsesEvent n m e) = e\<lparr>enc_sequence := enc_sequence e + 1\<rparr>"
  by (simp add: responsesEvent_def)

section \<open>The invariant\<close>

text \<open>
  The indices of the blocks a client has been told of. For Messages and Responses the
  reasoning, the text and the tools share one numbering; in Chat only the tools are numbered.
\<close>

definition tool_index :: "stream_target \<Rightarrow> encoded_tool \<Rightarrow> int" where
  "tool_index target t = (if target = ToMessages then tl_block_index t else tl_target_index t)"

definition next_index :: "stream_encoder \<Rightarrow> int" where
  "next_index e = (case enc_target e of
       ToChat \<Rightarrow> int (length (enc_tools e)) | ToMessages \<Rightarrow> enc_next_block e | ToResponses \<Rightarrow> enc_next_output e)"

definition block_indices :: "stream_encoder \<Rightarrow> int list" where
  "block_indices e =
     (if enc_reasoning_started e then [enc_reasoning_index e] else []) @
     (if enc_text_started e then [enc_text_index e] else []) @
     map (tool_index (enc_target e)) (enc_tools e)"

definition enc_inv :: "stream_encoder \<Rightarrow> bool" where
  "enc_inv e \<longleftrightarrow>
     distinct (map tl_key (enc_tools e)) \<and> 0 \<le> next_index e \<and>
     distinct (block_indices e) \<and> set (block_indices e) = {0..<next_index e} \<and>
     (enc_target e = ToChat \<longrightarrow> \<not> enc_reasoning_started e \<and> \<not> enc_text_started e)"

text \<open>The part of the state the invariant looks at.\<close>

definition shape ::
    "stream_encoder \<Rightarrow> stream_target \<times> (bool \<times> int) \<times> (bool \<times> int) \<times> (int \<times> int) \<times> (string \<times> int \<times> int) list" where
  "shape e = (enc_target e, (enc_reasoning_started e, enc_reasoning_index e), (enc_text_started e, enc_text_index e),
     (enc_next_block e, enc_next_output e),
     map (\<lambda>t. (tl_key t, tl_target_index t, tl_block_index t)) (enc_tools e))"

lemma map_eq_on:
  assumes m: "map f xs = map f ys" and g: "\<And>x y. f x = f y \<Longrightarrow> g x = g y"
  shows "map g xs = map g ys"
proof (rule nth_equalityI)
  from m have l: "length xs = length ys" by (rule map_eq_imp_length_eq)
  then show "length (map g xs) = length (map g ys)" by simp
  fix i
  assume i: "i < length (map g xs)"
  with m l have "f (xs ! i) = f (ys ! i)" by (metis length_map nth_map)
  then have "g (xs ! i) = g (ys ! i)" by (rule g)
  with i l show "map g xs ! i = map g ys ! i" by simp
qed

lemma shape_inv:
  assumes "shape e = shape e'"
  shows "enc_inv e = enc_inv e'" and "block_indices e = block_indices e'" and "next_index e = next_index e'"
    and "map tl_key (enc_tools e) = map tl_key (enc_tools e')" and "enc_target e = enc_target e'"
proof -
  let ?f = "\<lambda>t. (tl_key t, tl_target_index t, tl_block_index t)"
  from assms have m: "map ?f (enc_tools e) = map ?f (enc_tools e')" and t: "enc_target e = enc_target e'"
    by (simp_all add: shape_def)
  from m show k: "map tl_key (enc_tools e) = map tl_key (enc_tools e')" by (rule map_eq_on) simp
  from m have i: "map (tool_index (enc_target e)) (enc_tools e) = map (tool_index (enc_target e')) (enc_tools e')"
    unfolding t by (rule map_eq_on) (simp add: tool_index_def)
  from m have "length (enc_tools e) = length (enc_tools e')" by (rule map_eq_imp_length_eq)
  then show n: "next_index e = next_index e'" using assms by (simp add: next_index_def shape_def split: stream_target.splits)
  show b: "block_indices e = block_indices e'" using assms i by (simp add: block_indices_def shape_def)
  show "enc_inv e = enc_inv e'" using assms k n b by (simp add: enc_inv_def shape_def)
  show "enc_target e = enc_target e'" by (rule t)
qed

lemma shape_sequence [simp]: "shape (e\<lparr>enc_sequence := n\<rparr>) = shape e"
  by (simp add: shape_def)

lemma shape_setID [simp]: "shape (setID clk i e) = shape e"
  by (simp add: setID_def shape_def)

lemma shape_ensureStarted [simp]: "shape (snd (ensureStarted clk e)) = shape e"
proof -
  have "shape (setID clk [] (e\<lparr>enc_started := True\<rparr>)) = shape e" by (simp, simp add: shape_def)
  then show ?thesis by (simp add: ensureStarted_def Let_def split: stream_target.splits)
qed

lemma shape_closeReasoning [simp]: "shape (snd (closeReasoning e)) = shape e"
proof -
  have "shape (e\<lparr>enc_reasoning_closed := True\<rparr>) = shape e" by (simp add: shape_def)
  then show ?thesis by (simp add: closeReasoning_def Let_def)
qed

lemma shape_closeText [simp]: "shape (snd (closeText e)) = shape e"
proof -
  have "shape (e\<lparr>enc_text_closed := True\<rparr>) = shape e" by (simp add: shape_def)
  then show ?thesis by (simp add: closeText_def Let_def)
qed

lemma shape_last_frames [simp]: "shape (snd (last_frames e)) = shape e"
  by (simp add: last_frames_def split: stream_target.splits)

lemma shape_set_tool:
  assumes "distinct (map tl_key (enc_tools e))" and "u \<in> set (enc_tools e)"
    and "tl_key t = tl_key u" "tl_target_index t = tl_target_index u" "tl_block_index t = tl_block_index u"
  shows "shape (set_tool t e) = shape e"
proof -
  have "v = u" if "v \<in> set (enc_tools e)" "tl_key v = tl_key u" for v
    using assms(1,2) that by (auto simp: distinct_map inj_on_def)
  then show ?thesis using assms(3-) by (auto simp: shape_def set_tool_def)
qed

lemma shape_closeTool:
  assumes "enc_inv e" and "t \<in> set (enc_tools e)"
  shows "shape (snd (closeTool t e)) = shape e"
proof -
  have "shape (set_tool (t\<lparr>tl_closed := True\<rparr>) e) = shape e"
    using assms by (intro shape_set_tool [of e t]) (simp_all add: enc_inv_def)
  then show ?thesis by (simp add: closeTool_def Let_def split: stream_target.splits)
qed

lemma find_tool_SomeD: "find_tool k e = Some t \<Longrightarrow> t \<in> set (enc_tools e) \<and> tl_key t = k"
  by (auto simp: find_tool_def find_Some_iff)

lemma find_tool_None: "find_tool k e = None \<longleftrightarrow> k \<notin> tl_key ` set (enc_tools e)"
  by (auto simp: find_tool_def find_None_iff image_iff)

lemma range_Suc: "0 \<le> (n :: int) \<Longrightarrow> {0..<n + 1} = insert n {0..<n}"
  by auto

lemma get_tool_known:
  assumes "enc_inv e" and "find_tool (tool_key i index) e = Some t"
  shows "shape (snd (get_tool clk i index name e)) = shape e"
    and "fst (get_tool clk i index name e) \<in> set (enc_tools (snd (get_tool clk i index name e)))"
    and "tl_key (fst (get_tool clk i index name e)) = tool_key i index"
    and "tool_index g (fst (get_tool clk i index name e)) = tool_index g t"
    and "tl_closed (fst (get_tool clk i index name e)) = tl_closed t"
    and "tl_arguments (fst (get_tool clk i index name e)) = tl_arguments t"
proof -
  let ?r = "get_tool clk i index name e"
  have t: "t \<in> set (enc_tools e)" "tl_key t = tool_key i index" using find_tool_SomeD [OF assms(2)] by simp_all
  have r: "tl_key (fst ?r) = tl_key t" "tl_target_index (fst ?r) = tl_target_index t"
    "tl_block_index (fst ?r) = tl_block_index t" "snd ?r = set_tool (fst ?r) e"
    "tl_closed (fst ?r) = tl_closed t" "tl_arguments (fst ?r) = tl_arguments t"
    using assms(2) by (simp_all add: get_tool_def Let_def)
  show "shape (snd ?r) = shape e"
    unfolding r(4) using assms(1) t r by (intro shape_set_tool [of e t]) (simp_all add: enc_inv_def)
  show "fst ?r \<in> set (enc_tools (snd ?r))" unfolding r(4) using t(1) r(1) by (force simp: set_tool_def)
  show "tl_key (fst ?r) = tool_key i index" "tool_index g (fst ?r) = tool_index g t"
    "tl_closed (fst ?r) = tl_closed t" "tl_arguments (fst ?r) = tl_arguments t"
    using r t by (simp_all add: tool_index_def)
qed

lemma get_tool_new:
  assumes "enc_inv e" and new: "find_tool (tool_key i index) e = None"
  shows "enc_inv (snd (get_tool clk i index name e))"
    and "enc_tools (snd (get_tool clk i index name e)) = enc_tools e @ [fst (get_tool clk i index name e)]"
    and "tl_key (fst (get_tool clk i index name e)) = tool_key i index"
    and "tool_index (enc_target e) (fst (get_tool clk i index name e)) = next_index e"
    and "next_index (snd (get_tool clk i index name e)) = next_index e + 1"
    and "enc_target (snd (get_tool clk i index name e)) = enc_target e"
    and "\<not> tl_closed (fst (get_tool clk i index name e))" and "tl_arguments (fst (get_tool clk i index name e)) = []"
proof -
  let ?r = "get_tool clk i index name e"
  show tools: "enc_tools (snd ?r) = enc_tools e @ [fst ?r]" and key: "tl_key (fst ?r) = tool_key i index"
    and idx: "tool_index (enc_target e) (fst ?r) = next_index e" and nxt: "next_index (snd ?r) = next_index e + 1"
    and tgt: "enc_target (snd ?r) = enc_target e" and "\<not> tl_closed (fst ?r)" "tl_arguments (fst ?r) = []"
    by (cases "enc_target e"; simp add: new get_tool_def Let_def tool_index_def next_index_def)+
  have b: "block_indices (snd ?r) = block_indices e @ [next_index e]"
    using new idx tgt tools by (simp add: block_indices_def) (simp add: get_tool_def Let_def)
  have "enc_reasoning_started (snd ?r) = enc_reasoning_started e" "enc_text_started (snd ?r) = enc_text_started e"
    using new by (simp_all add: get_tool_def Let_def)
  then show "enc_inv (snd ?r)"
    using assms(1) new key b by (simp add: enc_inv_def tools nxt tgt find_tool_None range_Suc)
qed

lemma get_tool_inv: "enc_inv e \<Longrightarrow> enc_inv (snd (get_tool clk i index name e))"
  using get_tool_known(1) [of e i index] get_tool_new(1) [of e i index] shape_inv(1)
  by (cases "find_tool (tool_key i index) e") metis+

lemma get_tool_in:
  "enc_inv e \<Longrightarrow> fst (get_tool clk i index name e) \<in> set (enc_tools (snd (get_tool clk i index name e)))"
  using get_tool_known(2) [of e i index] get_tool_new(2) [of e i index]
  by (cases "find_tool (tool_key i index) e") auto

lemma get_tool_target [simp]: "enc_target (snd (get_tool clk i index name e)) = enc_target e"
  by (simp add: get_tool_def Let_def set_tool_def split: option.splits)

lemma inv_cong: "shape e' = shape e \<Longrightarrow> enc_inv e \<Longrightarrow> enc_inv e'"
  using shape_inv(1) by blast

text \<open>Opening the reasoning or the text block takes the next index.\<close>

lemma enc_inv_grow:
  assumes "enc_inv e" and "distinct (block_indices e')" and "set (block_indices e') = insert (next_index e) (set (block_indices e))"
    and "next_index e' = next_index e + 1" and "enc_tools e' = enc_tools e" and "enc_target e' \<noteq> ToChat"
  shows "enc_inv e'"
  using assms by (simp add: enc_inv_def range_Suc)

lemma startReasoning_new:
  assumes "enc_inv e" and "\<not> enc_reasoning_started e" and "enc_target e \<noteq> ToChat"
  shows "enc_inv (snd (startReasoning clk e))" and "enc_reasoning_index (snd (startReasoning clk e)) = next_index e"
    and "next_index (snd (startReasoning clk e)) = next_index e + 1" and "enc_reasoning_started (snd (startReasoning clk e))"
    and "enc_target (snd (startReasoning clk e)) = enc_target e"
    and "enc_tools (snd (startReasoning clk e)) = enc_tools e"
    and "enc_reasoning (snd (startReasoning clk e)) = enc_reasoning e"
proof -
  let ?e = "snd (startReasoning clk e)"
  show i: "enc_reasoning_index ?e = next_index e" and n: "next_index ?e = next_index e + 1"
    and s: "enc_reasoning_started ?e" and g: "enc_target ?e = enc_target e" and t: "enc_tools ?e = enc_tools e"
    and "enc_reasoning ?e = enc_reasoning e"
    by (cases "enc_target e"; simp add: assms(2,3) Let_def startReasoning_def next_index_def)+
  have "enc_text_started ?e = enc_text_started e" "enc_text_index ?e = enc_text_index e"
    by (cases "enc_target e"; simp add: assms(2,3) Let_def startReasoning_def)+
  then have b: "block_indices ?e = next_index e # block_indices e"
    unfolding block_indices_def i s g t using assms(2) s by simp
  have "next_index e \<notin> set (block_indices e)" and "distinct (block_indices e)"
    using assms(1) by (simp_all add: enc_inv_def)
  then show "enc_inv ?e" by (intro enc_inv_grow [OF assms(1) _ _ n t]) (simp_all add: b g assms(3))
qed

lemma startText_new:
  assumes "enc_inv e" and "\<not> enc_text_started e" and "enc_target e \<noteq> ToChat"
  shows "enc_inv (snd (startText clk e))" and "enc_text_index (snd (startText clk e)) = next_index e"
    and "next_index (snd (startText clk e)) = next_index e + 1" and "enc_text_started (snd (startText clk e))"
    and "enc_target (snd (startText clk e)) = enc_target e"
    and "enc_tools (snd (startText clk e)) = enc_tools e"
proof -
  let ?e = "snd (startText clk e)"
  show i: "enc_text_index ?e = next_index e" and n: "next_index ?e = next_index e + 1"
    and s: "enc_text_started ?e" and g: "enc_target ?e = enc_target e" and t: "enc_tools ?e = enc_tools e"
    by (cases "enc_target e"; simp add: assms(2,3) Let_def startText_def next_index_def)+
  have r: "enc_reasoning_started ?e = enc_reasoning_started e" "enc_reasoning_index ?e = enc_reasoning_index e"
    by (cases "enc_target e"; simp add: assms(2,3) Let_def startText_def)+
  have "next_index e \<notin> set (block_indices e)" and d: "distinct (block_indices e)" using assms(1) by (simp_all add: enc_inv_def)
  then have "distinct (block_indices ?e)" "set (block_indices ?e) = insert (next_index e) (set (block_indices e))"
    unfolding block_indices_def i g t r using assms(2) s by auto
  then show "enc_inv ?e" by (intro enc_inv_grow [OF assms(1) _ _ n t]) (simp_all add: g assms(3))
qed

lemma startReasoning_inv: "enc_inv e \<Longrightarrow> enc_inv (snd (startReasoning clk e))"
  using startReasoning_new(1) [of e] by (cases "enc_reasoning_started e \<or> enc_target e = ToChat") (auto simp: startReasoning_def)

lemma startText_inv: "enc_inv e \<Longrightarrow> enc_inv (snd (startText clk e))"
  using startText_new(1) [of e] by (cases "enc_text_started e \<or> enc_target e = ToChat") (auto simp: startText_def)

lemma encodeReasoning_inv:
  assumes "enc_inv e"
  shows "enc_inv (snd (encodeReasoning clk delta e))"
proof -
  have "shape (u\<lparr>enc_reasoning := r\<rparr>) = shape u" for u r by (simp add: shape_def)
  then have "enc_inv (u\<lparr>enc_reasoning := r\<rparr>) = enc_inv u" for u r by (rule shape_inv(1))
  then show ?thesis using assms startReasoning_inv [OF assms, of clk] inv_cong [OF shape_sequence]
    by (auto simp: encodeReasoning_def split: stream_target.splits)
qed

lemma encodeText_inv:
  assumes "enc_inv e"
  shows "enc_inv (snd (encodeText clk delta e))"
proof -
  have "shape (e\<lparr>enc_text := r\<rparr>) = shape e" for r by (simp add: shape_def)
  then have inv: "enc_inv (e\<lparr>enc_text := r\<rparr>)" for r using assms by (rule inv_cong)
  show ?thesis using assms inv startText_inv [OF inv, of clk] inv_cong [OF shape_sequence]
    by (auto simp: encodeText_def Let_def split: stream_target.splits)
qed

lemma encodeToolStart_inv: "enc_inv e \<Longrightarrow> enc_inv (snd (encodeToolStart clk index i name e))"
  using get_tool_inv [of e clk i index name] inv_cong [OF shape_sequence]
  by (auto simp: encodeToolStart_def Let_def case_prod_unfold split: stream_target.splits)

lemma encodeToolDelta_inv:
  assumes "enc_inv e"
  shows "enc_inv (snd (encodeToolDelta clk index i delta e))"
proof -
  let ?r = "get_tool clk i index [] e"
  have "shape (set_tool (fst ?r\<lparr>tl_arguments := a\<rparr>) (snd ?r)) = shape (snd ?r)" for a
    using get_tool_inv [OF assms] get_tool_in [OF assms]
    by (intro shape_set_tool [of _ "fst ?r"]) (simp_all add: enc_inv_def)
  then have "enc_inv (set_tool (fst ?r\<lparr>tl_arguments := a\<rparr>) (snd ?r))" for a
    using get_tool_inv [OF assms] by (rule inv_cong)
  then show ?thesis using get_tool_inv [OF assms, of clk i index "[]"] inv_cong [OF shape_sequence]
    by (auto simp: encodeToolDelta_def Let_def case_prod_unfold split: stream_target.splits)
qed

lemma encodeToolEnd_inv: "enc_inv e \<Longrightarrow> enc_inv (snd (encodeToolEnd clk index i e))"
  using inv_cong [OF shape_closeTool [OF get_tool_inv get_tool_in]] get_tool_inv
  by (simp add: encodeToolEnd_def case_prod_unfold Let_def)

lemma encode_body_inv: "enc_inv e \<Longrightarrow> enc_inv (snd (encode_body clk ev e))"
  by (cases ev) (simp_all add: encode_body_def encodeText_inv encodeReasoning_inv encodeToolStart_inv
    encodeToolDelta_inv encodeToolEnd_inv)

lemma distinct_head:
  "distinct (map f (t # ts)) \<Longrightarrow> u \<in> set ts \<Longrightarrow> f u \<noteq> f t"
  by (auto simp: image_iff)

lemma closeTool_keeps:
  assumes "u \<in> set (enc_tools e)" and "tl_key u \<noteq> tl_key t"
  shows "u \<in> set (enc_tools (snd (closeTool t e)))"
  using assms by (force simp: closeTool_def Let_def set_tool_def split: stream_target.splits)

lemma closeTool_rest:
  assumes "distinct (map tl_key (t # ts))" and "set (t # ts) \<subseteq> set (enc_tools e)"
  shows "set ts \<subseteq> set (enc_tools (snd (closeTool t e)))"
proof
  fix u
  assume u: "u \<in> set ts"
  have "u \<in> set (enc_tools e)" using u assms(2) by simp blast
  then show "u \<in> set (enc_tools (snd (closeTool t e)))" using distinct_head [OF assms(1) u] by (rule closeTool_keeps)
qed

lemma closeTools_inv:
  "enc_inv e \<Longrightarrow> distinct (map tl_key ts) \<Longrightarrow> set ts \<subseteq> set (enc_tools e) \<Longrightarrow>
   shape (snd (closeTools ts e)) = shape e"
proof (induction ts arbitrary: e)
  case (Cons t ts)
  let ?e = "snd (closeTool t e)"
  have sh: "shape ?e = shape e" using Cons.prems by (intro shape_closeTool) simp_all
  have "shape (snd (closeTools ts ?e)) = shape ?e"
    using Cons.prems(2) closeTool_rest [OF Cons.prems(2,3)] inv_cong [OF sh Cons.prems(1)] by (intro Cons.IH) simp_all
  with sh show ?case by simp
qed simp

lemma enc_inv_update [simp]:
  "enc_inv (e\<lparr>enc_usage := u\<rparr>) = enc_inv e" "enc_inv (e\<lparr>enc_stop := s\<rparr>) = enc_inv e"
  "enc_inv (e\<lparr>enc_done := d\<rparr>) = enc_inv e" "enc_inv (e\<lparr>enc_id := i\<rparr>) = enc_inv e"
  by (rule shape_inv(1), simp add: shape_def)+

section \<open>Lifting a law to whole streams\<close>

text \<open>The state in which the body of an event runs.\<close>

definition before_body :: "(nat \<Rightarrow> int) \<Rightarrow> stream_event \<Rightarrow> stream_encoder \<Rightarrow> stream_encoder" where
  "before_body clk ev e =
     snd ((\<lambda>e. if enc_target e \<in> {ToResponses, ToMessages} \<and> \<not> is_reasoning ev then closeReasoning e else ([], e))
       (snd (ensureStarted clk e)))"

locale encoder_log =
  fixes admits :: "stream_encoder \<Rightarrow> stream_event \<Rightarrow> bool"
    and obs :: "frame \<Rightarrow> 'a list"
    and rel :: "stream_encoder \<Rightarrow> 'a list \<Rightarrow> stream_encoder \<Rightarrow> bool"
  assumes rel_refl: "rel e [] e"
    and rel_trans: "rel e xs e' \<Longrightarrow> rel e' ys e'' \<Longrightarrow> rel e (xs @ ys) e''"
    and rel_usage: "rel e [] (e\<lparr>enc_usage := u\<rparr>)"
    and rel_stop: "rel e [] (e\<lparr>enc_stop := s\<rparr>)"
    and rel_done: "rel e [] (e\<lparr>enc_done := True\<rparr>)"
    and rel_id: "rel e [] (e\<lparr>enc_id := i\<rparr>)"
    and rel_started: "enc_inv e \<Longrightarrow> rel e (concat (map obs (fst (ensureStarted clk e)))) (snd (ensureStarted clk e))"
    and rel_closeReasoning: "enc_inv e \<Longrightarrow> rel e (concat (map obs (fst (closeReasoning e)))) (snd (closeReasoning e))"
    and rel_closeText: "enc_inv e \<Longrightarrow> rel e (concat (map obs (fst (closeText e)))) (snd (closeText e))"
    and rel_closeTool: "enc_inv e \<Longrightarrow> t \<in> set (enc_tools e) \<Longrightarrow>
      rel e (concat (map obs (fst (closeTool t e)))) (snd (closeTool t e))"
    and rel_last: "enc_inv e \<Longrightarrow> rel e (concat (map obs (fst (last_frames e)))) (snd (last_frames e))"
    and rel_body: "enc_inv e \<Longrightarrow> admits e ev \<Longrightarrow> rel e (concat (map obs (fst (encode_body clk ev e)))) (snd (encode_body clk ev e))"
begin

definition logs :: "stream_encoder \<Rightarrow> encode_result \<Rightarrow> bool" where
  "logs e r \<longleftrightarrow> rel e (concat (map obs (fst r))) (snd r)"

lemma logs_after: "logs e r \<Longrightarrow> logs (snd r) (f (snd r)) \<Longrightarrow> logs e (after r f)"
  by (simp add: logs_def rel_trans)

lemma logs_silent: "rel e [] e' \<Longrightarrow> logs e ([], e')"
  by (simp add: logs_def)

lemma logs_before: "rel e [] e' \<Longrightarrow> logs e' r \<Longrightarrow> logs e r"
  unfolding logs_def using rel_trans [of e "[]"] by simp

lemma logs_closeTools:
  "enc_inv e \<Longrightarrow> distinct (map tl_key ts) \<Longrightarrow> set ts \<subseteq> set (enc_tools e) \<Longrightarrow> logs e (closeTools ts e)"
proof (induction ts arbitrary: e)
  case Nil
  then show ?case by (simp add: logs_silent rel_refl)
next
  case (Cons t ts)
  let ?e = "snd (closeTool t e)"
  have "set ts \<subseteq> set (enc_tools ?e)" by (rule closeTool_rest [OF Cons.prems(2,3)])
  moreover have "enc_inv ?e" using Cons.prems by (intro inv_cong [OF shape_closeTool]) simp_all
  ultimately have "logs ?e (closeTools ts ?e)" using Cons.prems by (intro Cons.IH) simp_all
  moreover have "logs e (closeTool t e)" using Cons.prems by (simp add: logs_def rel_closeTool)
  ultimately show ?case by (simp add: logs_after)
qed

lemma inv_closeTools: "enc_inv e \<Longrightarrow> enc_inv (snd (closeTools (enc_tools e) e))"
  by (rule inv_cong [OF closeTools_inv]) (simp_all add: enc_inv_def)

lemma logs_final: "enc_inv e \<Longrightarrow> logs e (final_frames e)"
proof -
  assume inv: "enc_inv e"
  let ?r = "snd (closeReasoning e)"
  have r: "enc_inv ?r" using inv by (rule inv_cong [OF shape_closeReasoning])
  then have t: "enc_inv (snd (closeText ?r))" by (rule inv_cong [OF shape_closeText])
  have "logs e (closeReasoning e)" "logs ?r (closeText ?r)" "logs (snd (closeText ?r)) (last_frames (snd (closeText ?r)))"
    "logs e (last_frames e)"
    using inv r t by (simp_all add: logs_def rel_last rel_closeReasoning rel_closeText)
  then show ?thesis unfolding final_frames_def by (simp add: logs_after)
qed

lemma logs_finish:
  assumes "enc_inv e"
  shows "logs e (finish clk e)"
proof (cases "enc_done e")
  case False
  let ?e = "e\<lparr>enc_done := True\<rparr>"
  let ?s = "snd (ensureStarted clk ?e)"
  let ?c = "snd (closeTools (enc_tools ?s) ?s)"
  have inv: "enc_inv ?s" using assms by (intro inv_cong [OF shape_ensureStarted]) simp
  have stop: "rel u [] (if enc_stop u = [] then u\<lparr>enc_stop := ''stop''\<rparr> else u)" for u
    by (simp add: rel_stop rel_refl)
  have "logs ?e (after (ensureStarted clk ?e) (\<lambda>e. after (closeTools (enc_tools e) e) (\<lambda>e.
           final_frames (if enc_stop e = [] then e\<lparr>enc_stop := ''stop''\<rparr> else e))))"
  proof (intro logs_after)
    show "logs ?e (ensureStarted clk ?e)" using assms by (simp add: logs_def rel_started)
    show "logs ?s (closeTools (enc_tools ?s) ?s)"
      using inv by (intro logs_closeTools) (simp_all add: enc_inv_def)
    show "logs ?c (final_frames (if enc_stop ?c = [] then ?c\<lparr>enc_stop := ''stop''\<rparr> else ?c))"
      by (rule logs_before [OF stop], rule logs_final) (use inv_closeTools [OF inv] in simp)
  qed
  then show ?thesis using False logs_before [OF rel_done] by (simp add: finish_def)
qed (simp add: finish_def logs_silent rel_refl)

lemma logs_Encode:
  assumes "enc_inv e" and adm: "enc_done e \<or> admits (before_body clk ev e) ev"
  shows "logs e (Encode clk ev e)"
proof -
  let ?cl = "\<lambda>e. if enc_target e \<in> {ToResponses, ToMessages} \<and> \<not> is_reasoning ev then closeReasoning e else ([], e)"
  let ?s = "snd (ensureStarted clk e)"
  have inv: "enc_inv ?s" by (rule inv_cong [OF shape_ensureStarted assms(1)])
  have c: "logs u (?cl u)" and i: "enc_inv (snd (?cl u))" if "enc_inv u" for u
    using that inv_cong [OF shape_closeReasoning] by (auto simp: logs_def rel_closeReasoning rel_refl)
  have content: "logs e (after (ensureStarted clk e) (\<lambda>e. after (?cl e) (encode_body clk ev)))"
    if "\<not> enc_done e"
  proof (intro logs_after)
    show "logs e (ensureStarted clk e)" using assms by (simp add: logs_def rel_started)
    show "logs ?s (?cl ?s)" by (rule c [OF inv])
    show "logs (snd (?cl ?s)) (encode_body clk ev (snd (?cl ?s)))"
      using i [OF inv] adm that by (simp add: logs_def rel_body before_body_def)
  qed
  have "rel e [] (setID clk i e)" for i by (simp add: setID_def rel_id rel_refl)
  then show ?thesis using content assms(1)
    by (cases ev) (auto simp: Encode_def logs_silent rel_refl rel_stop mergeUsage_def rel_usage logs_finish)
qed

end

interpretation inv_law: encoder_log "\<lambda>_ _. True" "\<lambda>_. []" "\<lambda>e (_ :: unit list) e'. enc_inv e \<longrightarrow> enc_inv e'"
  using encode_body_inv inv_cong [OF shape_ensureStarted] inv_cong [OF shape_closeReasoning]
    inv_cong [OF shape_closeText] inv_cong [OF shape_last_frames] inv_cong [OF shape_closeTool]
  by unfold_locales auto

lemma Encode_inv: "enc_inv e \<Longrightarrow> enc_inv (snd (Encode clk ev e))"
  using inv_law.logs_Encode [of e clk ev] by (simp add: inv_law.logs_def)

lemma encode_all_inv: "enc_inv e \<Longrightarrow> enc_inv (snd (encode_all evs e))"
  by (induction evs e rule: encode_all.induct) (simp_all add: Encode_inv)

lemma newStreamEncoder_inv: "enc_inv (newStreamEncoder target model created)"
  by (auto simp: enc_inv_def newStreamEncoder_def next_index_def block_indices_def split: stream_target.splits)

context encoder_log
begin

fun all_admitted :: "((nat \<Rightarrow> int) \<times> stream_event) list \<Rightarrow> stream_encoder \<Rightarrow> bool" where
  "all_admitted [] e \<longleftrightarrow> True"
| "all_admitted ((clk, ev) # evs) e \<longleftrightarrow>
     (enc_done e \<or> admits (before_body clk ev e) ev) \<and> all_admitted evs (snd (Encode clk ev e))"

lemma logs_encode_all: "enc_inv e \<Longrightarrow> all_admitted evs e \<Longrightarrow> logs e (encode_all evs e)"
  by (induction evs e rule: encode_all.induct)
    (auto simp: logs_silent rel_refl Encode_inv intro!: logs_after logs_Encode)

lemma logs_encode_all_free:
  assumes "enc_inv e" and "\<And>e ev. admits e ev"
  shows "logs e (encode_all evs e)"
proof -
  have "all_admitted evs e" by (induction evs e rule: all_admitted.induct) (auto intro!: assms(2))
  with assms(1) show ?thesis by (rule logs_encode_all)
qed

end

end
