(* ===== verification/StreamProtocol.thy ===== *)
theory StreamProtocol
  imports StreamLaws
begin

text \<open>
  What a client sees of an encoded stream: the running numbers of the Responses events, the
  life of the content blocks (an abstract block protocol that the encoder implements), the
  content itself, and the items of the finished response. Each law is an interpretation of
  \<open>encoder_log\<close>.
\<close>

section \<open>Observations of a frame\<close>

definition int_member :: "string \<Rightarrow> gmap \<Rightarrow> int list" where
  "int_member k m = (case map_of m k of Some (GInt i) \<Rightarrow> [i] | _ \<Rightarrow> [])"

fun frame_numbers :: "frame \<Rightarrow> int list" where
  "frame_numbers (Frame name m) = int_member ''sequence_number'' m"
| "frame_numbers DoneFrame = []"

datatype block_action = Opened int | Extended int | Closed int

fun frame_actions :: "frame \<Rightarrow> block_action list" where
  "frame_actions (Frame name m) =
     (if name = ''content_block_start'' then map Opened (int_member ''index'' m)
      else if name = ''content_block_delta'' then map Extended (int_member ''index'' m)
      else if name = ''content_block_stop'' then map Closed (int_member ''index'' m)
      else if name = ''response.output_item.added'' then map Opened (int_member ''output_index'' m)
      else if name \<in> {''response.output_text.delta'', ''response.reasoning_summary_text.delta'',
                      ''response.function_call_arguments.delta''} then map Extended (int_member ''output_index'' m)
      else if name = ''response.output_item.done'' then map Closed (int_member ''output_index'' m)
      else [])"
| "frame_actions DoneFrame = []"

fun closings :: "block_action list \<Rightarrow> int list" where
  "closings [] = []"
| "closings (Closed i # acts) = i # closings acts"
| "closings (_ # acts) = closings acts"

lemma closings_append [simp]: "closings (xs @ ys) = closings xs @ closings ys"
  by (induction xs rule: closings.induct) simp_all

lemmas encoder_steps = ensureStarted_def closeReasoning_def closeText_def last_frames_def encode_body_def
  encodeReasoning_def encodeText_def startReasoning_def startText_def closeTool_def
  encodeToolStart_def encodeToolDelta_def encodeToolEnd_def

lemmas frame_builders = chat_chunk_def messages_frame_def block_start_def block_delta_def block_stop_def
  responsesEvent_def

lemmas encoder_observed = encoder_steps frame_builders int_member_def Let_def case_prod_unfold

section \<open>The running numbers of a Responses stream\<close>

definition numbered :: "stream_encoder \<Rightarrow> int list \<Rightarrow> stream_encoder \<Rightarrow> bool" where
  "numbered e ns e' \<longleftrightarrow> ns = [enc_sequence e..enc_sequence e' - 1] \<and> enc_sequence e \<le> enc_sequence e'"

lemma upto_glue: "i \<le> j \<Longrightarrow> j \<le> k \<Longrightarrow> [i..j - 1] @ [j..k - 1] = [i..k - (1 :: int)]"
  using upto_split1 [of i j k]
  by (cases "j = k") (auto simp: upto_split1 [of i j "k - 1"])

lemma numbered_refl: "enc_sequence e' = enc_sequence e \<Longrightarrow> numbered e [] e'"
  by (simp add: numbered_def)

lemma numbered_trans: "numbered e xs e' \<Longrightarrow> numbered e' ys e'' \<Longrightarrow> numbered e (xs @ ys) e''"
  by (auto simp: numbered_def upto_glue)

lemma numbered_one: "enc_sequence e' = enc_sequence e + 1 \<Longrightarrow> numbered e [enc_sequence e] e'"
  by (simp add: numbered_def)

lemma numbered_get_tool [simp]: "enc_sequence (snd (get_tool clk i index name e)) = enc_sequence e"
  by (simp add: get_tool_def Let_def set_tool_def split: option.splits)

lemma sequence_set_tool [simp]: "enc_sequence (set_tool t e) = enc_sequence e"
  by (simp add: set_tool_def)

lemma sequence_setID [simp]: "enc_sequence (setID clk i e) = enc_sequence e"
  by (simp add: setID_def)

lemma frames_numbered:
  "numbered e (concat (map frame_numbers (fst (ensureStarted clk e)))) (snd (ensureStarted clk e))"
  "numbered e (concat (map frame_numbers (fst (closeReasoning e)))) (snd (closeReasoning e))"
  "numbered e (concat (map frame_numbers (fst (closeText e)))) (snd (closeText e))"
  "numbered e (concat (map frame_numbers (fst (closeTool t e)))) (snd (closeTool t e))"
  "numbered e (concat (map frame_numbers (fst (last_frames e)))) (snd (last_frames e))"
  by (auto simp: encoder_observed numbered_def upto_rec1 split: stream_target.splits)

lemma body_numbered:
  "numbered e (concat (map frame_numbers (fst (encode_body clk ev e)))) (snd (encode_body clk ev e))"
  by (cases ev; auto simp: encoder_observed numbered_def upto_rec1 split: stream_target.splits)

interpretation numbers: encoder_log "\<lambda>_ _. True" frame_numbers numbered
  by unfold_locales (simp_all add: numbered_refl frames_numbered body_numbered, blast intro: numbered_trans)

section \<open>The life of the blocks\<close>

text \<open>
  The protocol a client of a block stream relies on: blocks are opened under consecutive
  indices, only an open block is extended or closed. A state is the next index and the set of
  the open ones.
\<close>

inductive blocks_run :: "int \<times> int set \<Rightarrow> block_action list \<Rightarrow> int \<times> int set \<Rightarrow> bool" where
  run_end: "blocks_run s [] s"
| run_open: "blocks_run (n + 1, insert n B) acts s \<Longrightarrow> blocks_run (n, B) (Opened n # acts) s"
| run_extend: "i \<in> B \<Longrightarrow> blocks_run (n, B) acts s \<Longrightarrow> blocks_run (n, B) (Extended i # acts) s"
| run_close: "i \<in> B \<Longrightarrow> blocks_run (n, B - {i}) acts s \<Longrightarrow> blocks_run (n, B) (Closed i # acts) s"

inductive_cases run_openE: "blocks_run (n, B) (Opened i # acts) s"
inductive_cases run_extendE: "blocks_run (n, B) (Extended i # acts) s"
inductive_cases run_closeE: "blocks_run (n, B) (Closed i # acts) s"
inductive_simps run_nil [simp]: "blocks_run s [] s'"

lemma run_trans: "blocks_run s xs s' \<Longrightarrow> blocks_run s' ys s'' \<Longrightarrow> blocks_run s (xs @ ys) s''"
  by (induction rule: blocks_run.induct) (auto intro: blocks_run.intros)

fun opens :: "block_action list \<Rightarrow> int list" where
  "opens [] = []"
| "opens (Opened i # acts) = i # opens acts"
| "opens (_ # acts) = opens acts"

text \<open>What the protocol promises.\<close>

lemma run_opens: "blocks_run s acts s' \<Longrightarrow> opens acts = [fst s..fst s' - 1] \<and> fst s \<le> fst s'"
  by (induction rule: blocks_run.induct) (auto simp: upto_rec1)

lemma run_closings:
  "blocks_run s acts s' \<Longrightarrow> \<forall>i\<in>snd s. i < fst s \<Longrightarrow>
     distinct (closings acts) \<and> set (closings acts) \<subseteq> snd s \<union> {fst s..<fst s'} \<and>
     snd s' = (snd s \<union> {fst s..<fst s'}) - set (closings acts)"
proof (induction rule: blocks_run.induct)
  case (run_open n B acts s)
  have "n + 1 \<le> fst s" using run_opens [OF run_open.hyps] by simp
  then have "insert n B \<union> {n + 1..<fst s} = B \<union> {n..<fst s}" by auto
  moreover have "\<forall>i\<in>insert n B. i < n + 1" using run_open.prems by force
  ultimately show ?case using run_open.IH by simp
next
  case (run_close i B n acts s)
  have le: "n \<le> fst s" and i: "i < n" using run_opens [OF run_close.hyps(2)] run_close.hyps(1) run_close.prems by simp_all
  have IH: "distinct (closings acts)" "set (closings acts) \<subseteq> (B - {i}) \<union> {n..<fst s}"
    "snd s = ((B - {i}) \<union> {n..<fst s}) - set (closings acts)"
    using run_close.IH run_close.prems by simp_all
  moreover have "i \<notin> set (closings acts)" using IH(2) i by (auto dest: subsetD)
  ultimately show ?case using run_close.hyps(1) i by auto
qed auto

section \<open>The encoder implements the protocol\<close>

definition open_indices :: "stream_encoder \<Rightarrow> int set" where
  "open_indices e =
     (if enc_reasoning_started e \<and> \<not> enc_reasoning_closed e then {enc_reasoning_index e} else {}) \<union>
     (if enc_text_started e \<and> \<not> enc_text_closed e then {enc_text_index e} else {}) \<union>
     tool_index (enc_target e) ` {t \<in> set (enc_tools e). \<not> tl_closed t}"

definition block_state :: "stream_encoder \<Rightarrow> int \<times> int set" where
  "block_state e = (next_index e, open_indices e)"

definition simulates :: "stream_encoder \<Rightarrow> block_action list \<Rightarrow> stream_encoder \<Rightarrow> bool" where
  "simulates e acts e' \<longleftrightarrow>
     enc_target e' = enc_target e \<and> (enc_target e \<noteq> ToChat \<longrightarrow> blocks_run (block_state e) acts (block_state e'))"

text \<open>The events the protocol has room for: no delta for a closed block, no tool without a start.\<close>

definition fits :: "stream_encoder \<Rightarrow> stream_event \<Rightarrow> bool" where
  "fits e ev = (case ev of
       StreamText _ delta \<Rightarrow> \<not> enc_text_closed e
     | StreamReasoning _ delta \<Rightarrow> delta = [] \<or> \<not> enc_reasoning_closed e
     | StreamToolStart index i name \<Rightarrow> find_tool (tool_key i index) e = None
     | StreamToolDelta index i delta \<Rightarrow> (case find_tool (tool_key i index) e of Some t \<Rightarrow> \<not> tl_closed t | None \<Rightarrow> False)
     | StreamToolEnd index i \<Rightarrow> find_tool (tool_key i index) e \<noteq> None
     | _ \<Rightarrow> True)"

lemma simulates_refl: "block_state e' = block_state e \<Longrightarrow> enc_target e' = enc_target e \<Longrightarrow> simulates e [] e'"
  by (simp add: simulates_def run_end)

lemma simulates_trans: "simulates e xs e' \<Longrightarrow> simulates e' ys e'' \<Longrightarrow> simulates e (xs @ ys) e''"
  by (auto simp: simulates_def intro: run_trans)

text \<open>The indices of different blocks differ.\<close>

lemma inv_apart:
  assumes "enc_inv e"
  shows "enc_reasoning_started e \<Longrightarrow> enc_text_started e \<Longrightarrow> enc_reasoning_index e \<noteq> enc_text_index e"
    and "enc_reasoning_started e \<Longrightarrow> t \<in> set (enc_tools e) \<Longrightarrow> tool_index (enc_target e) t \<noteq> enc_reasoning_index e"
    and "enc_text_started e \<Longrightarrow> t \<in> set (enc_tools e) \<Longrightarrow> tool_index (enc_target e) t \<noteq> enc_text_index e"
    and "t \<in> set (enc_tools e) \<Longrightarrow> u \<in> set (enc_tools e) \<Longrightarrow>
      tool_index (enc_target e) t = tool_index (enc_target e) u \<Longrightarrow> t = u"
    and "t \<in> set (enc_tools e) \<Longrightarrow> u \<in> set (enc_tools e) \<Longrightarrow> tl_key t = tl_key u \<Longrightarrow> t = u"
  using assms by (auto simp: enc_inv_def block_indices_def distinct_map inj_on_def image_iff)

lemma open_below: "enc_inv e \<Longrightarrow> \<forall>i\<in>open_indices e. i < next_index e"
proof -
  assume inv: "enc_inv e"
  have "open_indices e \<subseteq> set (block_indices e)" by (auto simp: open_indices_def block_indices_def)
  with inv show ?thesis by (auto simp: enc_inv_def)
qed

lemma closeReasoning_simulates:
  assumes "enc_inv e"
  shows "simulates e (concat (map frame_actions (fst (closeReasoning e)))) (snd (closeReasoning e))"
proof (cases "enc_reasoning_started e \<and> \<not> enc_reasoning_closed e")
  case True
  let ?e = "snd (closeReasoning e)"
  have chat: "enc_target e \<noteq> ToChat" using assms True by (auto simp: enc_inv_def)
  have acts: "concat (map frame_actions (fst (closeReasoning e))) = [Closed (enc_reasoning_index e)]"
    using True chat by (cases "enc_target e") (simp_all add: closeReasoning_def encoder_observed)
  have "open_indices ?e = open_indices e - {enc_reasoning_index e}" and i: "enc_reasoning_index e \<in> open_indices e"
    using True inv_apart [OF assms] by (auto simp: open_indices_def closeReasoning_def Let_def)
  moreover have "next_index ?e = next_index e" "enc_target ?e = enc_target e"
    using shape_inv(3,5) [OF shape_closeReasoning] by simp_all
  ultimately show ?thesis
    unfolding simulates_def acts block_state_def by (simp add: run_close run_end)
qed (simp add: closeReasoning_def simulates_refl)

lemma closeText_simulates:
  assumes "enc_inv e"
  shows "simulates e (concat (map frame_actions (fst (closeText e)))) (snd (closeText e))"
proof (cases "enc_text_started e \<and> \<not> enc_text_closed e")
  case True
  let ?e = "snd (closeText e)"
  have chat: "enc_target e \<noteq> ToChat" using assms True by (auto simp: enc_inv_def)
  have acts: "concat (map frame_actions (fst (closeText e))) = [Closed (enc_text_index e)]"
    using True chat by (cases "enc_target e") (simp_all add: closeText_def encoder_observed)
  have "open_indices ?e = open_indices e - {enc_text_index e}" and i: "enc_text_index e \<in> open_indices e"
    using True inv_apart [OF assms] by (auto simp: open_indices_def closeText_def Let_def)
  moreover have "next_index ?e = next_index e" "enc_target ?e = enc_target e"
    using shape_inv(3,5) [OF shape_closeText] by simp_all
  ultimately show ?thesis
    unfolding simulates_def acts block_state_def by (simp add: run_close run_end)
qed (simp add: closeText_def simulates_refl)

lemma set_tool_tools:
  assumes "enc_inv e" and "u \<in> set (enc_tools e)" and "tl_key t = tl_key u"
  shows "set (enc_tools (set_tool t e)) = insert t (set (enc_tools e) - {u})"
  using assms(2,3) inv_apart(5) [OF assms(1)] by (auto simp: set_tool_def)

lemma tool_target_closed [simp]: "tool_index g (t\<lparr>tl_closed := c\<rparr>) = tool_index g t"
  "tool_index g (t\<lparr>tl_arguments := a\<rparr>) = tool_index g t"
  by (simp_all add: tool_index_def)

lemma closeTool_tools: "\<not> tl_closed t \<Longrightarrow> enc_tools (snd (closeTool t e)) = enc_tools (set_tool (t\<lparr>tl_closed := True\<rparr>) e)"
  by (simp add: closeTool_def Let_def split: stream_target.splits)

lemma closeTool_flags [simp]:
  "enc_reasoning_closed (snd (closeTool t e)) = enc_reasoning_closed e"
  "enc_text_closed (snd (closeTool t e)) = enc_text_closed e"
  by (simp_all add: closeTool_def set_tool_def Let_def split: stream_target.splits)

lemma closeTool_simulates:
  assumes "enc_inv e" and t: "t \<in> set (enc_tools e)"
  shows "simulates e (concat (map frame_actions (fst (closeTool t e)))) (snd (closeTool t e))"
proof (cases "tl_closed t")
  case False
  let ?e = "snd (closeTool t e)"
  have tgt: "enc_target ?e = enc_target e" and nxt: "next_index ?e = next_index e"
    using shape_inv(3,5) [OF shape_closeTool [OF assms]] by simp_all
  have tools: "set (enc_tools ?e) = insert (t\<lparr>tl_closed := True\<rparr>) (set (enc_tools e) - {t})"
    unfolding closeTool_tools [OF False] by (rule set_tool_tools [OF assms]) simp
  have flags: "enc_reasoning_started ?e = enc_reasoning_started e" "enc_reasoning_index ?e = enc_reasoning_index e"
    "enc_text_started ?e = enc_text_started e" "enc_text_index ?e = enc_text_index e"
    using shape_closeTool [OF assms] by (simp_all add: shape_def)
  have "open_indices ?e = open_indices e - {tool_index (enc_target e) t}"
    unfolding open_indices_def tgt tools flags closeTool_flags
    using t False inv_apart(2,3) [OF assms(1) _ t] inv_apart(4) [OF assms(1)] by auto
  moreover have "tool_index (enc_target e) t \<in> open_indices e" using t False by (auto simp: open_indices_def)
  moreover have "concat (map frame_actions (fst (closeTool t e))) = [Closed (tool_index (enc_target e) t)]"
    if "enc_target e \<noteq> ToChat"
    using that False by (cases "enc_target e") (simp_all add: closeTool_def encoder_observed tool_index_def set_tool_def)
  ultimately show ?thesis unfolding simulates_def block_state_def by (auto simp: tgt nxt intro: run_close run_end)
qed (simp add: closeTool_def simulates_refl)

text \<open>Steps that leave the blocks alone.\<close>

lemma block_state_cong:
  assumes "shape e' = shape e" and "map tl_closed (enc_tools e') = map tl_closed (enc_tools e)"
    and "enc_reasoning_closed e' = enc_reasoning_closed e" "enc_text_closed e' = enc_text_closed e"
  shows "block_state e' = block_state e"
proof -
  have open_tools: "tool_index g ` {t \<in> set ts. \<not> tl_closed t} =
      set (map fst (filter (Not \<circ> snd) (zip (map (tool_index g) ts) (map tl_closed ts))))" for g ts
    by (induction ts) (auto simp: image_iff)
  have "map (tool_index (enc_target e)) (enc_tools e') = map (tool_index (enc_target e)) (enc_tools e)"
    by (rule map_eq_on [where f = "\<lambda>t. (tl_key t, tl_target_index t, tl_block_index t)"])
      (use assms(1) in \<open>simp_all add: shape_def tool_index_def\<close>)
  then have "tool_index (enc_target e) ` {t \<in> set (enc_tools e'). \<not> tl_closed t} =
      tool_index (enc_target e) ` {t \<in> set (enc_tools e). \<not> tl_closed t}"
    unfolding open_tools assms(2) by (simp only:)
  then show ?thesis using assms shape_inv(3,5) [OF assms(1)]
    by (simp add: block_state_def open_indices_def shape_def)
qed


lemma silent_simulates:
  "simulates e (concat (map frame_actions (fst (ensureStarted clk e)))) (snd (ensureStarted clk e))"
  "simulates e (concat (map frame_actions (fst (last_frames e)))) (snd (last_frames e))"
proof -
  have "enc_tools (snd (ensureStarted clk e)) = enc_tools e"
    "enc_reasoning_closed (snd (ensureStarted clk e)) = enc_reasoning_closed e"
    "enc_text_closed (snd (ensureStarted clk e)) = enc_text_closed e"
    by (simp_all add: ensureStarted_def setID_def Let_def split: stream_target.splits)
  then have "block_state (snd (ensureStarted clk e)) = block_state e" by (intro block_state_cong) simp_all
  moreover have acts: "concat (map frame_actions (fst (ensureStarted clk e))) = []"
    by (simp add: encoder_observed split: stream_target.splits)
  ultimately show "simulates e (concat (map frame_actions (fst (ensureStarted clk e)))) (snd (ensureStarted clk e))"
    unfolding acts using shape_inv(5) [OF shape_ensureStarted] by (intro simulates_refl)
  have "enc_tools (snd (last_frames e)) = enc_tools e"
    "enc_reasoning_closed (snd (last_frames e)) = enc_reasoning_closed e"
    "enc_text_closed (snd (last_frames e)) = enc_text_closed e"
    by (simp_all add: last_frames_def split: stream_target.splits)
  then have "block_state (snd (last_frames e)) = block_state e" by (intro block_state_cong) simp_all
  moreover have acts: "concat (map frame_actions (fst (last_frames e))) = []"
    by (simp add: encoder_observed split: stream_target.splits)
  ultimately show "simulates e (concat (map frame_actions (fst (last_frames e)))) (snd (last_frames e))"
    unfolding acts using shape_inv(5) [OF shape_last_frames] by (intro simulates_refl)
qed

lemma block_state_update [simp]:
  "block_state (e\<lparr>enc_text := t\<rparr>) = block_state e" "block_state (e\<lparr>enc_reasoning := t\<rparr>) = block_state e"
  "block_state (e\<lparr>enc_sequence := n\<rparr>) = block_state e" "block_state (e\<lparr>enc_usage := u\<rparr>) = block_state e"
  "block_state (e\<lparr>enc_stop := t\<rparr>) = block_state e" "block_state (e\<lparr>enc_done := d\<rparr>) = block_state e"
  "block_state (e\<lparr>enc_id := t\<rparr>) = block_state e"
  by (rule block_state_cong; simp add: shape_def)+

text \<open>A block that is started and extended at once.\<close>

lemma startText_opens:
  assumes "enc_inv e" and "\<not> enc_text_closed e" and "enc_target e \<noteq> ToChat"
  shows "blocks_run (block_state e) (concat (map frame_actions (fst (startText clk e)))) (block_state (snd (startText clk e)))"
    and "enc_text_index (snd (startText clk e)) \<in> open_indices (snd (startText clk e))"
    and "enc_target (snd (startText clk e)) = enc_target e"
proof -
  let ?e = "snd (startText clk e)"
  have goal: "blocks_run (block_state e) (concat (map frame_actions (fst (startText clk e)))) (block_state ?e) \<and>
      enc_text_index ?e \<in> open_indices ?e \<and> enc_target ?e = enc_target e"
  proof (cases "enc_text_started e")
    case False
    note new = startText_new [OF assms(1) False assms(3), of clk]
    have flags: "enc_reasoning_started ?e = enc_reasoning_started e" "enc_reasoning_index ?e = enc_reasoning_index e"
      "enc_reasoning_closed ?e = enc_reasoning_closed e" "enc_text_closed ?e = enc_text_closed e"
      by (simp_all add: startText_def Let_def split: stream_target.splits)
    have op: "open_indices ?e = insert (next_index e) (open_indices e)"
      using False assms(2) new(2,4-6) flags by (auto simp: open_indices_def)
    have "concat (map frame_actions (fst (startText clk e))) = [Opened (next_index e)]"
      using False assms(3) by (cases "enc_target e") (simp_all add: encoder_observed next_index_def)
    then have "blocks_run (block_state e) (concat (map frame_actions (fst (startText clk e)))) (block_state ?e)"
      by (simp add: block_state_def op new(3) run_open run_end)
    then show ?thesis using new(2,5) op by simp
  qed (use assms in \<open>simp add: startText_def open_indices_def run_end\<close>)
  show "blocks_run (block_state e) (concat (map frame_actions (fst (startText clk e)))) (block_state ?e)"
    "enc_text_index ?e \<in> open_indices ?e" "enc_target ?e = enc_target e"
    using goal by blast+
qed

lemma startReasoning_opens:
  assumes "enc_inv e" and "\<not> enc_reasoning_closed e" and "enc_target e \<noteq> ToChat"
  shows "blocks_run (block_state e) (concat (map frame_actions (fst (startReasoning clk e))))
      (block_state (snd (startReasoning clk e)))"
    and "enc_reasoning_index (snd (startReasoning clk e)) \<in> open_indices (snd (startReasoning clk e))"
    and "enc_target (snd (startReasoning clk e)) = enc_target e"
proof -
  let ?e = "snd (startReasoning clk e)"
  have goal: "blocks_run (block_state e) (concat (map frame_actions (fst (startReasoning clk e)))) (block_state ?e) \<and>
      enc_reasoning_index ?e \<in> open_indices ?e \<and> enc_target ?e = enc_target e"
  proof (cases "enc_reasoning_started e")
    case False
    note new = startReasoning_new [OF assms(1) False assms(3), of clk]
    have flags: "enc_text_started ?e = enc_text_started e" "enc_text_index ?e = enc_text_index e"
      "enc_reasoning_closed ?e = enc_reasoning_closed e" "enc_text_closed ?e = enc_text_closed e"
      by (simp_all add: startReasoning_def Let_def split: stream_target.splits)
    have op: "open_indices ?e = insert (next_index e) (open_indices e)"
      using False assms(2) new(2,4-6) flags by (auto simp: open_indices_def)
    have "concat (map frame_actions (fst (startReasoning clk e))) = [Opened (next_index e)]"
      using False assms(3) by (cases "enc_target e") (simp_all add: encoder_observed next_index_def)
    then have "blocks_run (block_state e) (concat (map frame_actions (fst (startReasoning clk e)))) (block_state ?e)"
      by (simp add: block_state_def op new(3) run_open run_end)
    then show ?thesis using new(2,5) op by simp
  qed (use assms in \<open>simp add: startReasoning_def open_indices_def run_end\<close>)
  show "blocks_run (block_state e) (concat (map frame_actions (fst (startReasoning clk e)))) (block_state ?e)"
    "enc_reasoning_index ?e \<in> open_indices ?e" "enc_target ?e = enc_target e"
    using goal by blast+
qed

lemma run_then_extend:
  assumes "blocks_run s acts (block_state e)" and "i \<in> open_indices e"
  shows "blocks_run s (acts @ [Extended i]) (block_state e)"
  using assms(1) by (rule run_trans) (simp add: assms(2) block_state_def run_extend run_end)

lemma encodeText_simulates:
  assumes "enc_inv e" and "\<not> enc_text_closed e"
  shows "simulates e (concat (map frame_actions (fst (encodeText clk delta e)))) (snd (encodeText clk delta e))"
proof (cases "delta = [] \<or> enc_target e = ToChat")
  case False
  let ?e = "e\<lparr>enc_text := enc_text e @ delta\<rparr>"
  let ?s = "startText clk ?e"
  have inv: "enc_inv ?e" by (rule inv_cong [OF _ assms(1)]) (simp add: shape_def)
  note op = startText_opens [OF inv, of clk]
  have acts: "concat (map frame_actions (fst (encodeText clk delta e))) =
      concat (map frame_actions (fst ?s)) @ [Extended (enc_text_index (snd ?s))]"
    and st: "block_state (snd (encodeText clk delta e)) = block_state (snd ?s)"
    and tgt: "enc_target (snd (encodeText clk delta e)) = enc_target (snd ?s)"
    using False by (simp_all add: encodeText_def Let_def frame_builders int_member_def split: stream_target.splits)
  show ?thesis unfolding simulates_def acts st tgt
    using op assms False by (auto intro: run_then_extend)
qed (use assms in \<open>auto simp: encodeText_def Let_def chat_chunk_def simulates_def run_end\<close>)

lemma encodeReasoning_simulates:
  assumes "enc_inv e" and "delta = [] \<or> \<not> enc_reasoning_closed e"
  shows "simulates e (concat (map frame_actions (fst (encodeReasoning clk delta e)))) (snd (encodeReasoning clk delta e))"
proof (cases "delta = [] \<or> enc_target e = ToChat")
  case False
  let ?s = "startReasoning clk e"
  note op = startReasoning_opens [OF assms(1), of clk]
  have acts: "concat (map frame_actions (fst (encodeReasoning clk delta e))) =
      concat (map frame_actions (fst ?s)) @ [Extended (enc_reasoning_index (snd ?s))]"
    and st: "block_state (snd (encodeReasoning clk delta e)) = block_state (snd ?s)"
    and tgt: "enc_target (snd (encodeReasoning clk delta e)) = enc_target (snd ?s)"
    using False by (simp_all add: encodeReasoning_def Let_def frame_builders int_member_def split: stream_target.splits)
  show ?thesis unfolding simulates_def acts st tgt
    using op assms False by (auto intro: run_then_extend)
qed (use assms in \<open>auto simp: encodeReasoning_def Let_def chat_chunk_def simulates_def run_end\<close>)

lemma get_tool_flags [simp]:
  "enc_reasoning_closed (snd (get_tool clk i index name e)) = enc_reasoning_closed e"
  "enc_text_closed (snd (get_tool clk i index name e)) = enc_text_closed e"
  "enc_reasoning_started (snd (get_tool clk i index name e)) = enc_reasoning_started e"
  "enc_text_started (snd (get_tool clk i index name e)) = enc_text_started e"
  "enc_reasoning_index (snd (get_tool clk i index name e)) = enc_reasoning_index e"
  "enc_text_index (snd (get_tool clk i index name e)) = enc_text_index e"
  by (simp_all add: get_tool_def set_tool_def Let_def split: option.splits)

lemma set_tool_state:
  assumes "enc_inv e" and "u \<in> set (enc_tools e)"
    and "tl_key t = tl_key u" "tl_target_index t = tl_target_index u" "tl_block_index t = tl_block_index u"
      "tl_closed t = tl_closed u"
  shows "block_state (set_tool t e) = block_state e"
proof (rule block_state_cong)
  show "shape (set_tool t e) = shape e" using assms by (intro shape_set_tool [of e u]) (simp_all add: enc_inv_def)
  have "v = u" if "v \<in> set (enc_tools e)" "tl_key v = tl_key u" for v
    using inv_apart(5) [OF assms(1) that(1) assms(2) that(2)] .
  then show "map tl_closed (enc_tools (set_tool t e)) = map tl_closed (enc_tools e)"
    using assms(3,6) by (auto simp: set_tool_def)
qed (simp_all add: set_tool_def)

lemma get_tool_known_state:
  assumes "enc_inv e" and "find_tool (tool_key i index) e = Some t"
  shows "block_state (snd (get_tool clk i index name e)) = block_state e"
proof -
  have t: "t \<in> set (enc_tools e)" using find_tool_SomeD [OF assms(2)] by simp
  have "snd (get_tool clk i index name e) = set_tool (fst (get_tool clk i index name e)) e"
    using assms(2) by (simp add: get_tool_def Let_def)
  moreover have "block_state (set_tool (fst (get_tool clk i index name e)) e) = block_state e"
    by (rule set_tool_state [OF assms(1) t]) (simp_all add: assms(2) get_tool_def Let_def)
  ultimately show ?thesis by simp
qed

lemma encodeToolStart_simulates:
  assumes "enc_inv e" and new: "find_tool (tool_key i index) e = None"
  shows "simulates e (concat (map frame_actions (fst (encodeToolStart clk index i name e))))
    (snd (encodeToolStart clk index i name e))"
proof -
  let ?r = "get_tool clk i index name e"
  note tool = get_tool_new [OF assms, of clk name]
  have op: "open_indices (snd ?r) = insert (next_index e) (open_indices e)"
  proof -
    have "{t \<in> set (enc_tools (snd ?r)). \<not> tl_closed t} = insert (fst ?r) {t \<in> set (enc_tools e). \<not> tl_closed t}"
      using tool(2,7) by auto
    then show ?thesis unfolding open_indices_def get_tool_flags using tool(4) by simp
  qed
  have "block_state (snd (encodeToolStart clk index i name e)) = block_state (snd ?r)"
    and tgt: "enc_target (snd (encodeToolStart clk index i name e)) = enc_target e"
    by (simp_all add: encodeToolStart_def case_prod_unfold Let_def split: stream_target.splits)
  moreover have "concat (map frame_actions (fst (encodeToolStart clk index i name e))) = [Opened (next_index e)]"
    if "enc_target e \<noteq> ToChat"
    using that tool(4)
    by (cases "enc_target e") (simp_all add: encodeToolStart_def case_prod_unfold Let_def frame_builders int_member_def tool_index_def)
  ultimately show ?thesis
    unfolding simulates_def tgt by (auto simp: block_state_def op tool(5) intro: run_open run_end)
qed

lemma encodeToolDelta_simulates:
  assumes "enc_inv e" and known: "find_tool (tool_key i index) e = Some t" and "\<not> tl_closed t"
  shows "simulates e (concat (map frame_actions (fst (encodeToolDelta clk index i delta e))))
    (snd (encodeToolDelta clk index i delta e))"
proof -
  let ?r = "get_tool clk i index [] e"
  note tool = get_tool_known [OF assms(1,2), where clk = clk and name = "[]"]
  have inv: "enc_inv (snd ?r)" by (rule get_tool_inv [OF assms(1)])
  have tgt: "enc_target (snd (encodeToolDelta clk index i delta e)) = enc_target e"
    by (simp add: encodeToolDelta_def case_prod_unfold Let_def set_tool_def split: stream_target.splits)
  have "block_state (set_tool (fst ?r\<lparr>tl_arguments := a\<rparr>) (snd ?r)) = block_state (snd ?r)" for a
    by (rule set_tool_state [OF inv tool(2)]) simp_all
  then have st: "block_state (snd (encodeToolDelta clk index i delta e)) = block_state e"
    using get_tool_known_state [OF assms(1,2), where clk = clk and name = "[]"]
    by (simp add: encodeToolDelta_def case_prod_unfold Let_def split: stream_target.splits)
  have "tool_index (enc_target e) t \<in> open_indices e"
    using find_tool_SomeD [OF known] assms(3) by (auto simp: open_indices_def)
  moreover have "concat (map frame_actions (fst (encodeToolDelta clk index i delta e))) =
      (if delta = [] then [] else [Extended (tool_index (enc_target e) t)])" if "enc_target e \<noteq> ToChat"
    using that tool(4) [of "enc_target e"] by (cases "enc_target e")
      (simp_all add: encodeToolDelta_def case_prod_unfold Let_def frame_builders int_member_def tool_index_def set_tool_def)
  ultimately show ?thesis unfolding simulates_def tgt st
    by (auto simp: block_state_def intro: run_extend run_end)
qed

lemma encodeToolEnd_simulates:
  assumes "enc_inv e" and "find_tool (tool_key i index) e = Some t"
  shows "simulates e (concat (map frame_actions (fst (encodeToolEnd clk index i e)))) (snd (encodeToolEnd clk index i e))"
proof -
  let ?r = "get_tool clk i index [] e"
  have "simulates e [] (snd ?r)"
    by (rule simulates_refl [OF get_tool_known_state [OF assms]]) simp
  then show ?thesis
    using simulates_trans [OF _ closeTool_simulates [OF get_tool_inv [OF assms(1)] get_tool_in [OF assms(1)]], of e "[]"]
    by (simp add: encodeToolEnd_def case_prod_unfold Let_def)
qed

lemma body_simulates:
  "enc_inv e \<Longrightarrow> fits e ev \<Longrightarrow>
     simulates e (concat (map frame_actions (fst (encode_body clk ev e)))) (snd (encode_body clk ev e))"
  by (cases ev) (auto simp: encode_body_def fits_def simulates_refl encodeText_simulates encodeReasoning_simulates
    encodeToolStart_simulates encodeToolDelta_simulates encodeToolEnd_simulates split: option.splits)

interpretation blocks: encoder_log fits frame_actions simulates
  by unfold_locales (simp_all add: simulates_refl silent_simulates closeReasoning_simulates closeText_simulates
    closeTool_simulates body_simulates, blast intro: simulates_trans)

end
