(* ===== verification/StreamRun.thy ===== *)
theory StreamRun
  imports StreamProtocol
begin

text \<open>
  Which event streams the block protocol has room for: the events are followed by a small
  state of their own, and what that state allows fits the encoder.
\<close>

section \<open>Event streams the protocol has room for\<close>

text \<open>
  \<open>tools_proper\<close> looks at the events only: which tools are known and whether they have ended.
  \<open>resumes\<close> says that a stream comes back to its reasoning after something else: \<open>opened\<close> and \<open>over\<close>
  tell whether reasoning has been sent and has been interrupted since.
\<close>

type_synonym tool_states = "(string \<times> bool) list"

definition mark_known :: "string \<Rightarrow> tool_states \<Rightarrow> tool_states" where
  "mark_known k S = (if k \<in> fst ` set S then S else S @ [(k, False)])"

definition mark_ended :: "string \<Rightarrow> tool_states \<Rightarrow> tool_states" where
  "mark_ended k S = map (\<lambda>(k', c). (k', c \<or> k' = k)) S"

fun track :: "stream_event \<Rightarrow> tool_states \<Rightarrow> tool_states" where
  "track (StreamToolStart index i name) S = mark_known (tool_key i index) S"
| "track (StreamToolDelta index i delta) S = mark_known (tool_key i index) S"
| "track (StreamToolEnd index i) S = mark_ended (tool_key i index) (mark_known (tool_key i index) S)"
| "track _ S = S"

fun interrupts :: "stream_event \<Rightarrow> bool" where
  "interrupts (StreamText _ _) = True"
| "interrupts (StreamToolStart _ _ _) = True"
| "interrupts (StreamToolDelta _ _ _) = True"
| "interrupts (StreamToolEnd _ _) = True"
| "interrupts _ = False"

fun tools_allowed :: "tool_states \<Rightarrow> stream_event \<Rightarrow> bool" where
  "tools_allowed S (StreamToolStart index i _) \<longleftrightarrow> map_of S (tool_key i index) = None"
| "tools_allowed S (StreamToolDelta index i _) \<longleftrightarrow> map_of S (tool_key i index) = Some False"
| "tools_allowed S (StreamToolEnd index i) \<longleftrightarrow> map_of S (tool_key i index) \<noteq> None"
| "tools_allowed S _ \<longleftrightarrow> True"

fun tools_proper :: "tool_states \<Rightarrow> stream_event list \<Rightarrow> bool" where
  "tools_proper S [] \<longleftrightarrow> True"
| "tools_proper S (ev # evs) \<longleftrightarrow> ev = StreamDone \<or> tools_allowed S ev \<and> tools_proper (track ev S) evs"

fun reasons :: "stream_event \<Rightarrow> bool" where
  "reasons (StreamReasoning _ delta) \<longleftrightarrow> delta \<noteq> []"
| "reasons _ \<longleftrightarrow> False"

fun resumes :: "bool \<Rightarrow> bool \<Rightarrow> stream_event list \<Rightarrow> bool" where
  "resumes opened over [] \<longleftrightarrow> False"
| "resumes opened over (ev # evs) \<longleftrightarrow> ev \<noteq> StreamDone
     \<and> (reasons ev \<and> over \<or> resumes (opened \<or> reasons ev) (over \<or> opened \<and> interrupts ev) evs)"

definition tool_states :: "stream_encoder \<Rightarrow> tool_states" where
  "tool_states e = map (\<lambda>t. (tl_key t, tl_closed t)) (enc_tools e)"

lemma map_of_tool_states: "map_of (tool_states e) k = map_option tl_closed (find_tool k e)"
proof -
  have "map_of (map (\<lambda>t. (tl_key t, tl_closed t)) ts) k = map_option tl_closed (find (\<lambda>t. tl_key t = k) ts)" for ts
    by (induction ts) auto
  then show ?thesis by (simp add: tool_states_def find_tool_def)
qed

lemma keys_tool_states: "fst ` set (tool_states e) = tl_key ` set (enc_tools e)"
  by (auto simp: tool_states_def image_iff)

lemma tool_states_set_tool:
  assumes "enc_inv e" and "u \<in> set (enc_tools e)" and "tl_key t = tl_key u"
  shows "tool_states (set_tool t e) = map (\<lambda>(k, c). (k, if k = tl_key u then tl_closed t else c)) (tool_states e)"
  using assms(3) by (auto simp: tool_states_def set_tool_def)

lemma tool_states_get_tool:
  assumes "enc_inv e"
  shows "tool_states (snd (get_tool clk i index name e)) = mark_known (tool_key i index) (tool_states e)"
proof (cases "find_tool (tool_key i index) e")
  case None
  show ?thesis using get_tool_new(2,3,7) [OF assms None, of clk name] None
    by (simp add: mark_known_def keys_tool_states find_tool_None) (simp add: tool_states_def)
next
  case (Some t)
  have t: "t \<in> set (enc_tools e)" "tl_key t = tool_key i index" using find_tool_SomeD [OF Some] by simp_all
  have "snd (get_tool clk i index name e) = set_tool (fst (get_tool clk i index name e)) e"
    using Some by (simp add: get_tool_def Let_def)
  moreover have "tool_states (set_tool (fst (get_tool clk i index name e)) e) =
      map (\<lambda>(k, c). (k, if k = tl_key t then tl_closed t else c)) (tool_states e)"
    using tool_states_set_tool [OF assms t(1)] get_tool_known(3,5) [OF assms Some] t(2) by auto
  moreover have "map (\<lambda>(k, c). (k, if k = tl_key t then tl_closed t else c)) (tool_states e) = tool_states e"
    using inv_apart(5) [OF assms _ t(1)] by (auto simp: tool_states_def intro!: map_idI)
  moreover have "tool_key i index \<in> fst ` set (tool_states e)" using t by (metis imageI keys_tool_states)
  ultimately show ?thesis by (simp add: mark_known_def)
qed

lemma tool_states_closeTool:
  assumes "enc_inv e" and "t \<in> set (enc_tools e)"
  shows "tool_states (snd (closeTool t e)) = mark_ended (tl_key t) (tool_states e)"
proof (cases "tl_closed t")
  case True
  then show ?thesis using inv_apart(5) [OF assms(1) _ assms(2)]
    by (auto simp: closeTool_def mark_ended_def tool_states_def intro!: map_idI [symmetric])
next
  case False
  have "tool_states (snd (closeTool t e)) = tool_states (set_tool (t\<lparr>tl_closed := True\<rparr>) e)"
    using closeTool_tools [OF False] by (simp add: tool_states_def)
  also have "\<dots> = mark_ended (tl_key t) (tool_states e)"
    by (subst tool_states_set_tool [OF assms]) (auto simp: mark_ended_def)
  finally show ?thesis .
qed


lemma encoder_keeps [simp]:
  "tool_states (e\<lparr>enc_text := x\<rparr>) = tool_states e" "tool_states (e\<lparr>enc_reasoning := x\<rparr>) = tool_states e"
  "tool_states (e\<lparr>enc_sequence := n\<rparr>) = tool_states e" "tool_states (e\<lparr>enc_done := d\<rparr>) = tool_states e"
  "tool_states (e\<lparr>enc_usage := u\<rparr>) = tool_states e" "tool_states (e\<lparr>enc_stop := x\<rparr>) = tool_states e"
  by (simp_all add: tool_states_def)

lemma tool_states_started [simp]:
  "tool_states (snd (ensureStarted clk e)) = tool_states e"
  "tool_states (snd (closeReasoning e)) = tool_states e"
  "tool_states (snd (startText clk e)) = tool_states e"
  "tool_states (snd (startReasoning clk e)) = tool_states e"
  "tool_states (setID clk i e) = tool_states e"
  by (simp_all add: tool_states_def ensureStarted_def closeReasoning_def startText_def startReasoning_def setID_def Let_def
    split: stream_target.splits)

lemma encodeToolDelta_tool_states:
  assumes "enc_inv e"
  shows "tool_states (snd (encodeToolDelta clk index i delta e)) = mark_known (tool_key i index) (tool_states e)"
proof -
  let ?r = "get_tool clk i index [] e"
  have inv: "enc_inv (snd ?r)" and t: "fst ?r \<in> set (enc_tools (snd ?r))"
    by (rule get_tool_inv [OF assms], rule get_tool_in [OF assms])
  have "tool_states (set_tool (fst ?r\<lparr>tl_arguments := a\<rparr>) (snd ?r)) = tool_states (snd ?r)" for a
    by (subst tool_states_set_tool [OF inv t])
      (use inv_apart(5) [OF inv _ t] in \<open>auto simp: tool_states_def intro!: map_idI\<close>)
  then show ?thesis using tool_states_get_tool [OF assms, of clk i index "[]"]
    by (simp add: encodeToolDelta_def case_prod_unfold Let_def split: stream_target.splits)
qed

lemma get_tool_key: "enc_inv e \<Longrightarrow> tl_key (fst (get_tool clk i index name e)) = tool_key i index"
  using get_tool_known(3) [of e i index] get_tool_new(3) [of e i index]
  by (cases "find_tool (tool_key i index) e") auto

lemma encode_body_tool_states:
  assumes "enc_inv e"
  shows "tool_states (snd (encode_body clk ev e)) = track ev (tool_states e)"
proof (cases ev)
  case (StreamToolEnd index i)
  then show ?thesis
    using tool_states_closeTool [OF get_tool_inv [OF assms] get_tool_in [OF assms]]
      tool_states_get_tool [OF assms] get_tool_key [OF assms]
    by (simp add: encode_body_def encodeToolEnd_def case_prod_unfold Let_def)
qed (use assms in \<open>simp_all add: encode_body_def encodeText_def encodeReasoning_def encodeToolStart_def Let_def
    case_prod_unfold tool_states_get_tool encodeToolDelta_tool_states split: stream_target.splits\<close>)

lemma before_body_inv: "enc_inv e \<Longrightarrow> enc_inv (before_body clk ev e)"
  using inv_cong [OF shape_closeReasoning inv_cong [OF shape_ensureStarted, of e]] inv_cong [OF shape_ensureStarted, of e]
  by (simp add: before_body_def)

lemma tool_states_before [simp]: "tool_states (before_body clk ev e) = tool_states e"
  by (simp add: before_body_def)

lemma Encode_tool_states:
  assumes "enc_inv e" and "\<not> enc_done e" and "ev \<noteq> StreamDone"
  shows "tool_states (snd (Encode clk ev e)) = track ev (tool_states e)"
  using encode_body_tool_states [OF before_body_inv [OF assms(1), of clk ev], of clk ev] assms
  by (cases ev) (simp_all add: Encode_def before_body_def mergeUsage_def)

text \<open>The flags of the reasoning and the text block.\<close>

lemma start_flags [simp]:
  "enc_reasoning_closed (snd (startText clk e)) = enc_reasoning_closed e"
  "enc_text_closed (snd (startText clk e)) = enc_text_closed e" "enc_done (snd (startText clk e)) = enc_done e"
  "enc_reasoning_closed (snd (startReasoning clk e)) = enc_reasoning_closed e"
  "enc_text_closed (snd (startReasoning clk e)) = enc_text_closed e" "enc_done (snd (startReasoning clk e)) = enc_done e"
  by (simp_all add: startText_def startReasoning_def Let_def split: stream_target.splits)

lemma tool_done [simp]:
  "enc_done (set_tool t e) = enc_done e" "enc_text_closed (set_tool t e) = enc_text_closed e"
  "enc_reasoning_closed (set_tool t e) = enc_reasoning_closed e" "enc_done (snd (get_tool clk i index name e)) = enc_done e"
  by (simp_all add: set_tool_def get_tool_def Let_def split: option.splits)

definition same_flags :: "stream_encoder \<Rightarrow> stream_encoder \<Rightarrow> bool" where
  "same_flags e e' \<longleftrightarrow> enc_reasoning_closed e' = enc_reasoning_closed e \<and> enc_text_closed e' = enc_text_closed e \<and>
     enc_done e' = enc_done e"

text \<open>What holds of the encoder after a step follows the structure of the step.\<close>

lemma step_intros:
  "P e \<Longrightarrow> P (snd (fs, e))"
  "P (e\<lparr>enc_sequence := enc_sequence e + 1\<rparr>) \<Longrightarrow> P (snd (responsesEvent name m e))"
  "P (snd a) \<Longrightarrow> P (snd b) \<Longrightarrow> P (snd c) \<Longrightarrow> P (snd (case t of ToChat \<Rightarrow> a | ToMessages \<Rightarrow> b | ToResponses \<Rightarrow> c))"
  "(q \<Longrightarrow> P (snd x)) \<Longrightarrow> (\<not> q \<Longrightarrow> P (snd y)) \<Longrightarrow> P (snd (if q then x else y))"
  "P (snd (f (snd r))) \<Longrightarrow> P (snd (after r f))"
  by (simp_all add: responsesEvent_def split: stream_target.splits)

lemma get_tool_same_flags: "get_tool clk i index name e = (t, e') \<Longrightarrow> same_flags e e'"
  by (auto simp: same_flags_def get_tool_def set_tool_def Let_def split: option.splits)

lemma set_tool_flags: "same_flags e e' \<Longrightarrow> same_flags e (set_tool t e')"
  by (simp add: same_flags_def)

lemma sequence_flags: "same_flags e e' \<Longrightarrow> same_flags e (e'\<lparr>enc_sequence := n\<rparr>)"
  by (simp add: same_flags_def)

lemmas flag_intros = step_intros [where P = "same_flags e" for e] set_tool_flags sequence_flags

lemma encodeToolStart_flags: "same_flags e (snd (encodeToolStart clk index i name e))"
proof -
  obtain t e' where g: "get_tool clk i index name e = (t, e')" by (metis surj_pair)
  note f = get_tool_same_flags [OF g]
  show ?thesis unfolding encodeToolStart_def g prod.case Let_def by (intro flag_intros f)
qed

lemma encodeToolDelta_flags: "same_flags e (snd (encodeToolDelta clk index i delta e))"
proof -
  obtain t e' where g: "get_tool clk i index [] e = (t, e')" by (metis surj_pair)
  note f = get_tool_same_flags [OF g]
  show ?thesis unfolding encodeToolDelta_def g prod.case Let_def by (intro flag_intros f)
qed

lemma closeTool_same_flags: "same_flags e (snd (closeTool t e))"
proof -
  have f: "same_flags e e" by (simp add: same_flags_def)
  then show ?thesis unfolding closeTool_def Let_def by (intro flag_intros f)
qed

lemma encodeToolEnd_flags: "same_flags e (snd (encodeToolEnd clk index i e))"
proof -
  obtain t e' where g: "get_tool clk i index [] e = (t, e')" by (metis surj_pair)
  show ?thesis using get_tool_same_flags [OF g] closeTool_same_flags [of e' t]
    by (simp add: encodeToolEnd_def g same_flags_def)
qed

lemma text_step_flags:
  "same_flags e e' \<Longrightarrow> same_flags e (snd (startText clk e'))" "same_flags e e' \<Longrightarrow> same_flags e (snd (startReasoning clk e'))"
  "same_flags e e' \<Longrightarrow> same_flags e (e'\<lparr>enc_text := x\<rparr>)" "same_flags e e' \<Longrightarrow> same_flags e (e'\<lparr>enc_reasoning := x\<rparr>)"
  by (simp_all add: same_flags_def)

lemma text_flags: "same_flags e (snd (encodeText clk delta e))" "same_flags e (snd (encodeReasoning clk delta e))"
proof -
  have f: "same_flags e e" by (simp add: same_flags_def)
  show "same_flags e (snd (encodeText clk delta e))" unfolding encodeText_def Let_def by (intro flag_intros text_step_flags f)
  show "same_flags e (snd (encodeReasoning clk delta e))" unfolding encodeReasoning_def by (intro flag_intros text_step_flags f)
qed

lemma body_same_flags: "same_flags e (snd (encode_body clk ev e))"
  by (cases ev) (simp_all add: encode_body_def text_flags encodeToolStart_flags encodeToolDelta_flags encodeToolEnd_flags,
    simp_all add: same_flags_def)

lemma body_flags [simp]:
  "enc_reasoning_closed (snd (encode_body clk ev e)) = enc_reasoning_closed e"
  "enc_text_closed (snd (encode_body clk ev e)) = enc_text_closed e"
  "enc_done (snd (encode_body clk ev e)) = enc_done e"
  using body_same_flags [of e clk ev] by (simp_all add: same_flags_def)

lemma ensureStarted_flags: "same_flags e (snd (ensureStarted clk e))"
proof -
  have f: "same_flags e (setID clk [] (e\<lparr>enc_started := True\<rparr>))" "same_flags e e"
    by (simp_all add: same_flags_def setID_def)
  show ?thesis unfolding ensureStarted_def Let_def by (intro flag_intros f)
qed

lemma closeReasoning_flags:
  "enc_text_closed (snd (closeReasoning e)) = enc_text_closed e \<and> enc_done (snd (closeReasoning e)) = enc_done e"
  unfolding closeReasoning_def Let_def
  by (intro step_intros [where P = "\<lambda>e'. enc_text_closed e' = enc_text_closed e \<and> enc_done e' = enc_done e"]) simp_all

lemma before_body_flags:
  "enc_text_closed (before_body clk ev e) = enc_text_closed e"
  "enc_done (before_body clk ev e) = enc_done e"
  "is_reasoning ev \<Longrightarrow> enc_reasoning_closed (before_body clk ev e) = enc_reasoning_closed e"
  using ensureStarted_flags [of e clk] closeReasoning_flags
  by (simp_all add: before_body_def same_flags_def)

lemma Encode_content:
  assumes "\<not> enc_done e" and "is_reasoning ev \<or> interrupts ev"
  shows "snd (Encode clk ev e) = snd (encode_body clk ev (before_body clk ev e))"
  using assms by (cases ev) (simp_all add: Encode_def before_body_def)

lemma Encode_control:
  assumes "\<not> is_reasoning ev" "\<not> interrupts ev" "ev \<noteq> StreamDone" "\<not> enc_done e"
  shows "enc_text_closed (snd (Encode clk ev e)) = enc_text_closed e" "\<not> enc_done (snd (Encode clk ev e))"
    "enc_reasoning_closed (snd (Encode clk ev e)) = enc_reasoning_closed e"
  using assms by (cases ev; simp add: Encode_def setID_def mergeUsage_def)+

lemma Encode_flags:
  assumes "\<not> enc_done e" and "ev \<noteq> StreamDone"
  shows "enc_text_closed (snd (Encode clk ev e)) = enc_text_closed e" "\<not> enc_done (snd (Encode clk ev e))"
    and "enc_reasoning_closed (snd (Encode clk ev e)) \<Longrightarrow> enc_reasoning_closed e \<or> interrupts ev"
proof -
  consider "interrupts ev" | "is_reasoning ev" | "\<not> is_reasoning ev" "\<not> interrupts ev" by blast
  then have "enc_text_closed (snd (Encode clk ev e)) = enc_text_closed e \<and> \<not> enc_done (snd (Encode clk ev e)) \<and>
      (enc_reasoning_closed (snd (Encode clk ev e)) \<longrightarrow> enc_reasoning_closed e \<or> interrupts ev)"
    by cases (simp_all add: assms Encode_content Encode_control before_body_flags)
  then show "enc_text_closed (snd (Encode clk ev e)) = enc_text_closed e" "\<not> enc_done (snd (Encode clk ev e))"
    "enc_reasoning_closed (snd (Encode clk ev e)) \<Longrightarrow> enc_reasoning_closed e \<or> interrupts ev"
    by blast+
qed

text \<open>Whether the reasoning block is open, after a step.\<close>

definition reasoning_flags :: "stream_encoder \<Rightarrow> bool \<times> bool" where
  "reasoning_flags e = (enc_reasoning_started e, enc_reasoning_closed e)"

lemma started_body:
  assumes "enc_inv e" and "enc_target e \<noteq> ToChat"
  shows "enc_reasoning_started (snd (encode_body clk ev e)) = (enc_reasoning_started e \<or> reasons ev)"
proof (cases ev)
  case (StreamToolEnd index i)
  have "enc_reasoning_started (snd (closeTool t u)) = enc_reasoning_started u" for t u
    by (simp add: closeTool_def set_tool_def Let_def split: stream_target.splits)
  then show ?thesis by (simp add: StreamToolEnd encode_body_def encodeToolEnd_def case_prod_unfold Let_def)
next
  case (StreamReasoning index delta)
  then show ?thesis using assms(2)
    by (auto simp: encode_body_def encodeReasoning_def startReasoning_def Let_def split: stream_target.splits)
qed (simp_all add: encode_body_def encodeText_def startText_def encodeToolStart_def encodeToolDelta_def set_tool_def Let_def
    case_prod_unfold split: stream_target.splits)

lemma started_before:
  assumes "enc_target e \<noteq> ToChat"
  shows "enc_reasoning_started (before_body clk ev e) = enc_reasoning_started e"
    and "enc_target (before_body clk ev e) = enc_target e"
    and "enc_reasoning_closed (before_body clk ev e) = (enc_reasoning_closed e \<or> enc_reasoning_started e \<and> \<not> is_reasoning ev)"
proof -
  let ?s = "snd (ensureStarted clk e)"
  have s: "enc_reasoning_started ?s = enc_reasoning_started e" "enc_target ?s = enc_target e" "enc_reasoning_closed ?s = enc_reasoning_closed e"
    using shape_ensureStarted [of clk e] ensureStarted_flags [of e clk] by (simp_all add: shape_def same_flags_def)
  have c: "enc_reasoning_started (snd (closeReasoning u)) = enc_reasoning_started u" "enc_target (snd (closeReasoning u)) = enc_target u"
    "enc_reasoning_closed (snd (closeReasoning u)) = (enc_reasoning_closed u \<or> enc_reasoning_started u)" for u
    by (auto simp: closeReasoning_def Let_def)
  have "enc_target e \<in> {ToResponses, ToMessages}" using assms by (cases "enc_target e") simp_all
  then show "enc_reasoning_started (before_body clk ev e) = enc_reasoning_started e"
    "enc_target (before_body clk ev e) = enc_target e"
    "enc_reasoning_closed (before_body clk ev e) = (enc_reasoning_closed e \<or> enc_reasoning_started e \<and> \<not> is_reasoning ev)"
    by (simp_all add: before_body_def s c)
qed

lemma Encode_reasoning:
  assumes "enc_inv e" and "\<not> enc_done e" and "ev \<noteq> StreamDone" and "enc_target e \<noteq> ToChat"
  shows "enc_reasoning_started (snd (Encode clk ev e)) = (enc_reasoning_started e \<or> reasons ev)"
    and "enc_reasoning_closed (snd (Encode clk ev e)) = (enc_reasoning_closed e \<or> enc_reasoning_started e \<and> interrupts ev)"
proof -
  consider (content) "is_reasoning ev \<or> interrupts ev" | (control) "\<not> is_reasoning ev" "\<not> interrupts ev" by blast
  then have "enc_reasoning_started (snd (Encode clk ev e)) = (enc_reasoning_started e \<or> reasons ev) \<and>
    enc_reasoning_closed (snd (Encode clk ev e)) = (enc_reasoning_closed e \<or> enc_reasoning_started e \<and> interrupts ev)"
  proof cases
    case content
    then have "is_reasoning ev \<longleftrightarrow> \<not> interrupts ev" by (cases ev) simp_all
    then show ?thesis
      using started_before [OF assms(4), of clk ev] started_body [OF before_body_inv [OF assms(1)], of clk ev clk ev]
      by (simp add: Encode_content [OF assms(2) content] assms(4))
  next
    case control
    then have "enc_reasoning_started (snd (Encode clk ev e)) = enc_reasoning_started e" "\<not> reasons ev"
      using assms(2,3) by (cases ev; simp add: Encode_def setID_def mergeUsage_def)+
    with control Encode_control [OF control assms(3,2), where clk = clk] show ?thesis by simp
  qed
  then show "enc_reasoning_started (snd (Encode clk ev e)) = (enc_reasoning_started e \<or> reasons ev)"
    "enc_reasoning_closed (snd (Encode clk ev e)) = (enc_reasoning_closed e \<or> enc_reasoning_started e \<and> interrupts ev)" by blast+
qed

text \<open>An event the tracked state allows fits the encoder, unless it resumes the reasoning.\<close>

lemma allowed_fits:
  assumes "tools_allowed (tool_states e) ev" and "\<not> (reasons ev \<and> enc_reasoning_closed e)" and "\<not> enc_text_closed e"
  shows "fits (before_body clk ev e) ev"
proof -
  have m: "map_of (tool_states e) k = map_option tl_closed (find_tool k (before_body clk ev e))" for k
    using map_of_tool_states [of "before_body clk ev e" k] by simp
  show ?thesis using assms
    by (cases ev) (auto simp: fits_def m before_body_flags split: option.splits)
qed

lemma done_kept [simp]:
  "enc_done (snd (ensureStarted clk e)) = enc_done e" "enc_done (snd (closeTool t e)) = enc_done e"
  "enc_done (snd (closeReasoning e)) = enc_done e" "enc_done (snd (closeText e)) = enc_done e"
  "enc_done (snd (last_frames e)) = enc_done e"
  by (simp_all add: encoder_steps setID_def set_tool_def Let_def split: stream_target.splits)

lemma done_final_frames [simp]: "enc_done (snd (final_frames e)) = enc_done e"
  by (simp add: final_frames_def)

lemma done_closeTools [simp]: "enc_done (snd (closeTools ts e)) = enc_done e"
  by (induction ts arbitrary: e) simp_all

lemma finish_done [simp]: "enc_done (snd (finish clk e))"
  by (simp add: finish_def)

lemma silent_when_done: "enc_done e \<Longrightarrow> encode_all evs e = ([], e)"
  by (induction evs e rule: encode_all.induct) (simp_all add: Encode_def after_def)

text \<open>A stream with proper tools runs the block protocol as far as it does not resume its reasoning.\<close>

lemma proper_admitted:
  "enc_inv e \<Longrightarrow> \<not> enc_done e \<Longrightarrow> \<not> enc_text_closed e \<Longrightarrow> enc_target e \<noteq> ToChat \<Longrightarrow>
   tools_proper (tool_states e) (map snd evs) \<Longrightarrow>
   \<not> resumes (enc_reasoning_started e) (enc_reasoning_closed e) (map snd evs) \<Longrightarrow> blocks.all_admitted evs e"
proof (induction evs e rule: encode_all.induct)
  case (2 clk ev evs e)
  note prems = "2.prems" and IH = "2.IH"
  have silent: "blocks.all_admitted xs u" if "enc_done u" for xs u
    using that by (induction xs u rule: blocks.all_admitted.induct) (simp_all add: Encode_def)
  show ?case
  proof (cases "ev = StreamDone")
    case True
    have "enc_done (snd (Encode clk ev e))" using prems(2) True by (simp add: Encode_def)
    moreover have "fits (before_body clk ev e) ev" using True by (simp add: fits_def)
    ultimately show ?thesis using silent by simp
  next
    case False
    note step = Encode_tool_states [OF prems(1,2) False, where clk = clk] Encode_flags [OF prems(2) False, where clk = clk]
      Encode_reasoning [OF prems(1,2) False prems(4), where clk = clk]
    have fits: "fits (before_body clk ev e) ev"
      using prems False by (intro allowed_fits) auto
    have "enc_target (snd (Encode clk ev e)) = enc_target e"
      using blocks.logs_Encode [OF prems(1), of clk ev] fits by (simp add: blocks.logs_def simulates_def)
    then have "blocks.all_admitted evs (snd (Encode clk ev e))"
      using prems step Encode_inv [OF prems(1)] False by (intro IH) auto
    with fits show ?thesis by simp
  qed
qed simp

lemma run_determined: "blocks_run s xs s1 \<Longrightarrow> blocks_run s (xs @ ys) s2 \<Longrightarrow> blocks_run s1 ys s2"
  by (induction arbitrary: s2 rule: blocks_run.induct) (auto elim: run_openE run_extendE run_closeE)

text \<open>The frames of a fragment of reasoning that comes after the block was closed.\<close>

lemma resumed_frames:
  assumes "enc_inv e" and "\<not> enc_done e" and "enc_target e \<noteq> ToChat" and "enc_reasoning_started e" and "enc_reasoning_closed e"
    and "delta \<noteq> []"
  shows "concat (map frame_actions (fst (Encode clk (StreamReasoning index delta) e))) = [Extended (enc_reasoning_index e)]"
    and "enc_reasoning_index e \<notin> open_indices e"
proof -
  let ?s = "snd (ensureStarted clk e)"
  have s: "enc_reasoning_started ?s" "enc_target ?s = enc_target e" "enc_reasoning_index ?s = enc_reasoning_index e"
    using shape_ensureStarted [of clk e] assms(4) by (simp_all add: shape_def)
  have silent: "concat (map frame_actions (fst (ensureStarted clk e))) = []"
    by (simp add: encoder_observed split: stream_target.splits)
  have "concat (map frame_actions (fst (encodeReasoning clk delta ?s))) = [Extended (enc_reasoning_index e)]"
    using assms(3,6) s by (cases "enc_target e") (simp_all add: encodeReasoning_def startReasoning_def frame_builders int_member_def)
  with silent assms(2) show "concat (map frame_actions (fst (Encode clk (StreamReasoning index delta) e))) = [Extended (enc_reasoning_index e)]"
    by (simp add: Encode_def encode_body_def)
  show "enc_reasoning_index e \<notin> open_indices e"
    using assms(4,5) inv_apart(1) [OF assms(1)] by (auto simp: open_indices_def dest!: inv_apart(2) [OF assms(1,4)])
qed

lemma resumed_breaks:
  "enc_inv e \<Longrightarrow> \<not> enc_done e \<Longrightarrow> \<not> enc_text_closed e \<Longrightarrow> enc_target e \<noteq> ToChat \<Longrightarrow>
   (enc_reasoning_closed e \<Longrightarrow> enc_reasoning_started e) \<Longrightarrow> tools_proper (tool_states e) (map snd evs) \<Longrightarrow>
   resumes (enc_reasoning_started e) (enc_reasoning_closed e) (map snd evs) \<Longrightarrow>
   \<not> blocks_run (block_state e) (concat (map frame_actions (fst (encode_all evs e)))) s"
proof (induction evs e rule: encode_all.induct)
  case (2 clk ev evs e)
  note prems = "2.prems" and IH = "2.IH"
  from prems(7) have False: "ev \<noteq> StreamDone" by auto
  show ?case
  proof (cases "reasons ev \<and> enc_reasoning_closed e")
    case True
    then obtain index delta where ev: "ev = StreamReasoning index delta" "delta \<noteq> []" by (cases ev) auto
    from resumed_frames [OF prems(1,2,4) prems(5) _ ev(2)] True
    have "concat (map frame_actions (fst (Encode clk ev e))) = [Extended (enc_reasoning_index e)]" "enc_reasoning_index e \<notin> open_indices e"
      by (simp_all add: ev(1))
    then show ?thesis by (auto simp: block_state_def elim: run_extendE)
  next
    case resume: False
    note step = Encode_tool_states [OF prems(1,2) False, where clk = clk] Encode_flags [OF prems(2) False, where clk = clk]
      Encode_reasoning [OF prems(1,2) False prems(4), where clk = clk]
    have fits: "fits (before_body clk ev e) ev"
      using prems False resume by (intro allowed_fits) auto
    have sim: "simulates e (concat (map frame_actions (fst (Encode clk ev e)))) (snd (Encode clk ev e))"
      using blocks.logs_Encode [OF prems(1), of clk ev] fits by (simp add: blocks.logs_def)
    then have target: "enc_target (snd (Encode clk ev e)) = enc_target e"
      and run: "blocks_run (block_state e) (concat (map frame_actions (fst (Encode clk ev e)))) (block_state (snd (Encode clk ev e)))"
      using prems(4) by (simp_all add: simulates_def)
    have "\<not> blocks_run (block_state (snd (Encode clk ev e))) (concat (map frame_actions (fst (encode_all evs (snd (Encode clk ev e)))))) s"
      using prems step Encode_inv [OF prems(1)] False resume target by (intro IH) auto
    with run_determined [OF run] show ?thesis by (cases s) auto
  qed
qed simp

end
