(* ===== verification/StreamEnd.thy ===== *)
theory StreamEnd
  imports StreamRun
begin

text \<open>
  How a stream ends: nothing stays open, the items of the finished response, and the content
  a client has received by then.
\<close>

section \<open>The end of a stream\<close>

lemma closeTools_closed:
  "enc_inv e \<Longrightarrow> distinct (map tl_key ts) \<Longrightarrow> set ts \<subseteq> set (enc_tools e) \<Longrightarrow>
   \<forall>u \<in> set (enc_tools (snd (closeTools ts e))). tl_closed u \<or> u \<in> set (enc_tools e) - set ts"
proof (induction ts arbitrary: e)
  case (Cons t ts)
  let ?e = "snd (closeTool t e)"
  have t: "t \<in> set (enc_tools e)" using Cons.prems(3) by simp
  have inv: "enc_inv ?e" using inv_cong [OF shape_closeTool [OF Cons.prems(1) t] Cons.prems(1)] .
  have one: "tl_closed u \<or> u \<in> set (enc_tools e) - {t}" if "u \<in> set (enc_tools ?e)" for u
  proof (cases "tl_closed t")
    case False
    have "set (enc_tools ?e) = insert (t\<lparr>tl_closed := True\<rparr>) (set (enc_tools e) - {t})"
      unfolding closeTool_tools [OF False] by (rule set_tool_tools [OF Cons.prems(1) t]) simp
    then have "u = t\<lparr>tl_closed := True\<rparr> \<or> u \<in> set (enc_tools e) - {t}" using that by blast
    moreover have "tl_closed (t\<lparr>tl_closed := True\<rparr>)" by simp
    ultimately show ?thesis by metis
  qed (use that in \<open>auto simp: closeTool_def\<close>)
  have "\<forall>u \<in> set (enc_tools (snd (closeTools ts ?e))). tl_closed u \<or> u \<in> set (enc_tools ?e) - set ts"
    using Cons.prems(2) closeTool_rest [OF Cons.prems(2,3)] inv by (intro Cons.IH) simp_all
  with one show ?case by auto
qed simp

lemma closing_frames [simp]:
  "enc_tools (snd (closeReasoning e)) = enc_tools e"
  "enc_reasoning_started (snd (closeReasoning e)) \<longrightarrow> enc_reasoning_closed (snd (closeReasoning e))"
  "enc_tools (snd (closeText e)) = enc_tools e"
  "enc_reasoning_started (snd (closeText e)) = enc_reasoning_started e"
  "enc_reasoning_closed (snd (closeText e)) = enc_reasoning_closed e"
  "enc_text_started (snd (closeText e)) \<longrightarrow> enc_text_closed (snd (closeText e))"
  by (simp_all add: closeReasoning_def closeText_def Let_def)

lemma last_frames_keeps [simp]:
  "enc_tools (snd (last_frames e)) = enc_tools e"
  "enc_reasoning_started (snd (last_frames e)) = enc_reasoning_started e"
  "enc_reasoning_closed (snd (last_frames e)) = enc_reasoning_closed e"
  "enc_text_started (snd (last_frames e)) = enc_text_started e"
  "enc_text_closed (snd (last_frames e)) = enc_text_closed e"
  by (simp_all add: last_frames_def split: stream_target.splits)

text \<open>After the end of a stream no block is open.\<close>

lemma final_open:
  assumes "\<forall>u \<in> set (enc_tools e). tl_closed u" and "enc_target e \<noteq> ToChat"
  shows "open_indices (snd (final_frames e)) = {}"
proof -
  let ?r = "snd (closeReasoning e)"
  let ?l = "snd (last_frames (snd (closeText ?r)))"
  have "enc_tools ?l = enc_tools e" "enc_reasoning_started ?l \<longrightarrow> enc_reasoning_closed ?l"
    "enc_text_started ?l \<longrightarrow> enc_text_closed ?l"
    by simp_all
  then have "open_indices ?l = {}" using assms(1) by (auto simp: open_indices_def)
  then show ?thesis unfolding final_frames_def using assms(2) by simp
qed

lemma finish_open:
  assumes "enc_inv e" and "\<not> enc_done e" and "enc_target e \<noteq> ToChat"
  shows "open_indices (snd (finish clk e)) = {}"
proof -
  let ?s = "snd (ensureStarted clk (e\<lparr>enc_done := True\<rparr>))"
  let ?c = "snd (closeTools (enc_tools ?s) ?s)"
  have inv: "enc_inv ?s" using assms(1) by (intro inv_cong [OF shape_ensureStarted]) simp
  have tgt: "enc_target ?c = enc_target e"
    using shape_inv(5) [OF closeTools_inv [OF inv, of "enc_tools ?s"]] inv shape_inv(5) [OF shape_ensureStarted]
    by (simp add: enc_inv_def)
  have "\<forall>u \<in> set (enc_tools ?c). tl_closed u"
    using closeTools_closed [OF inv, of "enc_tools ?s"] inv by (simp add: enc_inv_def)
  then have "open_indices (snd (final_frames (if enc_stop ?c = [] then ?c\<lparr>enc_stop := ''stop''\<rparr> else ?c))) = {}"
    using tgt assms(3) by (intro final_open) auto
  then show ?thesis using assms(2) by (simp add: finish_def)
qed

lemma target_startReasoning [simp]: "enc_target (snd (startReasoning clk e)) = enc_target e"
  by (simp add: startReasoning_def Let_def split: stream_target.splits)

lemma target_startText [simp]: "enc_target (snd (startText clk e)) = enc_target e"
  by (simp add: startText_def Let_def split: stream_target.splits)

lemma target_closeTool [simp]: "enc_target (snd (closeTool t e)) = enc_target e"
  by (simp add: closeTool_def set_tool_def Let_def split: stream_target.splits)

lemma target_body [simp]: "enc_target (snd (encode_body clk ev e)) = enc_target e"
  by (cases ev) (simp_all add: encode_body_def encodeText_def encodeReasoning_def encodeToolStart_def encodeToolDelta_def
    encodeToolEnd_def set_tool_def Let_def case_prod_unfold split: stream_target.splits)

interpretation targets: encoder_log "\<lambda>_ _. True" "\<lambda>_. []" "\<lambda>e (_ :: unit list) e'. enc_target e' = enc_target e"
  using shape_inv(5) [OF shape_ensureStarted] shape_inv(5) [OF shape_closeReasoning] shape_inv(5) [OF shape_closeText]
    shape_inv(5) [OF shape_last_frames]
  by unfold_locales simp_all

text \<open>A complete stream: any events, then the end.\<close>

lemma encode_all_append:
  "encode_all (xs @ ys) e = after (encode_all xs e) (encode_all ys)"
  by (induction xs e rule: encode_all.induct) (simp_all add: after_def case_prod_unfold Let_def)

lemma ended:
  "enc_done (snd (encode_all (evs @ [(clk, StreamDone)]) e))"
  by (simp add: encode_all_append Encode_def)

lemma ended_at_done:
  "enc_inv e \<Longrightarrow> \<not> enc_done e \<Longrightarrow> enc_target e \<noteq> ToChat \<Longrightarrow> StreamDone \<in> set (map snd evs) \<Longrightarrow>
   open_indices (snd (encode_all evs e)) = {}"
proof (induction evs e rule: encode_all.induct)
  case (2 clk ev evs e)
  note prems = "2.prems" and IH = "2.IH"
  show ?case
  proof (cases "ev = StreamDone")
    case True
    then have "snd (encode_all ((clk, ev) # evs) e) = snd (finish clk e)"
      using prems(2) silent_when_done [OF finish_done, of evs clk e] by (simp add: Encode_def)
    then show ?thesis using finish_open [OF prems(1-3)] by simp
  next
    case False
    have "enc_target (snd (Encode clk ev e)) = enc_target e"
      using targets.logs_Encode [OF prems(1), of clk ev] by (simp add: targets.logs_def)
    then show ?thesis
      using IH [OF Encode_inv [OF prems(1)] Encode_flags(2) [OF prems(2) False]] prems(3,4) False by auto
  qed
qed simp

section \<open>The items of the finished response\<close>

lemma fold_update_length: "length (fold (\<lambda>t xs. xs[f t := g t]) ts xs) = length xs"
  by (induction ts arbitrary: xs) simp_all

lemma fold_update_other: "i \<notin> f ` set ts \<Longrightarrow> fold (\<lambda>t xs. xs[f t := g t]) ts xs ! i = xs ! i"
  by (induction ts arbitrary: xs) simp_all

lemma fold_update_at:
  "t \<in> set ts \<Longrightarrow> distinct (map f ts) \<Longrightarrow> f t < length xs \<Longrightarrow> fold (\<lambda>t xs. xs[f t := g t]) ts xs ! f t = g t"
proof (induction ts arbitrary: xs)
  case (Cons u ts)
  show ?case
  proof (cases "t = u")
    case True
    then show ?thesis using Cons.prems by (simp add: fold_update_other)
  qed (use Cons in simp)
qed simp

lemma inv_range:
  assumes "enc_inv e" and "i \<in> set (block_indices e)"
  shows "0 \<le> i" and "nat i < nat (next_index e)" and "j \<in> set (block_indices e) \<Longrightarrow> nat i = nat j \<longleftrightarrow> i = j"
  using assms by (auto simp: enc_inv_def eq_nat_nat_iff)

lemma responseOutput_slots:
  assumes inv: "enc_inv e" and tgt: "enc_target e = ToResponses"
  shows "length (responseOutput e) = nat (enc_next_output e)"
    and "enc_reasoning_started e \<Longrightarrow> responseOutput e ! nat (enc_reasoning_index e) = responseReasoningItem e (enc_reasoning e)"
    and "enc_text_started e \<Longrightarrow> responseOutput e ! nat (enc_text_index e) = responseMessageItem e ''completed''"
    and "t \<in> set (enc_tools e) \<Longrightarrow> responseOutput e ! nat (tl_target_index t) = responseToolItem t ''completed''"
proof -
  have n: "next_index e = enc_next_output e" using tgt by (simp add: next_index_def)
  have mem: "enc_reasoning_started e \<Longrightarrow> enc_reasoning_index e \<in> set (block_indices e)"
    "enc_text_started e \<Longrightarrow> enc_text_index e \<in> set (block_indices e)"
    "u \<in> set (enc_tools e) \<Longrightarrow> tl_target_index u \<in> set (block_indices e)" for u
    using tgt by (auto simp: block_indices_def tool_index_def)
  have range: "i \<in> set (block_indices e) \<Longrightarrow> nat i < nat (enc_next_output e)" for i
    using inv_range(2) [OF inv] n by simp
  have d: "distinct (map (\<lambda>t. nat (tl_target_index t)) (enc_tools e))"
    using inv mem(3) inv_range(3) [OF inv] tgt
    by (auto simp: enc_inv_def block_indices_def tool_index_def distinct_map inj_on_def)
  have rt: "nat (enc_reasoning_index e) \<noteq> nat (enc_text_index e)" if "enc_reasoning_started e" "enc_text_started e"
    using inv_range(3) [OF inv mem(1) mem(2)] inv_apart(1) [OF inv] that by blast
  have ru: "nat (enc_reasoning_index e) \<notin> (\<lambda>t. nat (tl_target_index t)) ` set (enc_tools e)" if "enc_reasoning_started e"
    using inv_range(3) [OF inv mem(1) mem(3)] inv_apart(2) [OF inv] that tgt by (fastforce simp: tool_index_def)
  have tu: "nat (enc_text_index e) \<notin> (\<lambda>t. nat (tl_target_index t)) ` set (enc_tools e)" if "enc_text_started e"
    using inv_range(3) [OF inv mem(2) mem(3)] inv_apart(3) [OF inv] that tgt by (fastforce simp: tool_index_def)
  show "length (responseOutput e) = nat (enc_next_output e)"
    by (simp add: responseOutput_def Let_def fold_update_length)
  show "enc_reasoning_started e \<Longrightarrow> responseOutput e ! nat (enc_reasoning_index e) = responseReasoningItem e (enc_reasoning e)"
    using ru rt range [OF mem(1)]
    by (cases "enc_text_started e") (simp_all add: responseOutput_def Let_def fold_update_other nth_list_update)
  show "enc_text_started e \<Longrightarrow> responseOutput e ! nat (enc_text_index e) = responseMessageItem e ''completed''"
    using tu range [OF mem(2)] by (simp add: responseOutput_def Let_def fold_update_other)
  show "responseOutput e ! nat (tl_target_index t) = responseToolItem t ''completed''" if t: "t \<in> set (enc_tools e)"
    unfolding responseOutput_def Let_def
    by (rule fold_update_at [where f = "\<lambda>t. nat (tl_target_index t)", OF t d]) (use range [OF mem(3) [OF t]] in simp)
qed

text \<open>Every slot of the output is an item: the list the code builds with holes has none left.\<close>

lemma responseOutput_complete:
  assumes inv: "enc_inv e" and tgt: "enc_target e = ToResponses"
  shows "GNil \<notin> set (responseOutput e)"
proof
  assume "GNil \<in> set (responseOutput e)"
  then obtain k where k: "k < nat (enc_next_output e)" "responseOutput e ! k = GNil"
    using responseOutput_slots(1) [OF assms] by (auto simp: in_set_conv_nth)
  then have "int k \<in> set (block_indices e)" using inv tgt by (auto simp: enc_inv_def next_index_def)
  then consider "enc_reasoning_started e" "int k = enc_reasoning_index e"
    | "enc_text_started e" "int k = enc_text_index e"
    | t where "t \<in> set (enc_tools e)" "int k = tl_target_index t"
    using tgt by (auto simp: block_indices_def tool_index_def split: if_splits)
  then show False
  proof cases
    case 1
    then show ?thesis using responseOutput_slots(2) [OF assms 1(1)] k(2)
      by (simp add: responseReasoningItem_def flip: 1(2))
  next
    case 2
    then show ?thesis using responseOutput_slots(3) [OF assms 2(1)] k(2)
      by (simp add: responseMessageItem_def flip: 2(2))
  next
    case (3 t)
    then show ?thesis using responseOutput_slots(4) [OF assms 3(1)] k(2)
      by (simp add: responseToolItem_def flip: 3(2))
  qed
qed

section \<open>Where a tool lives\<close>

definition positions :: "stream_encoder \<Rightarrow> (string \<times> int) list" where
  "positions e = map (\<lambda>t. (tl_key t, tool_index (enc_target e) t)) (enc_tools e)"

definition extends :: "stream_encoder \<Rightarrow> unit list \<Rightarrow> stream_encoder \<Rightarrow> bool" where
  "extends e xs e' \<longleftrightarrow> (\<exists>zs. positions e' = positions e @ zs)"

lemma positions_shape: "shape e' = shape e \<Longrightarrow> positions e' = positions e"
proof -
  assume s: "shape e' = shape e"
  have "map (\<lambda>t. (tl_key t, tool_index (enc_target e) t)) (enc_tools e') = map (\<lambda>t. (tl_key t, tool_index (enc_target e) t)) (enc_tools e)"
    by (rule map_eq_on [where f = "\<lambda>t. (tl_key t, tl_target_index t, tl_block_index t)"])
      (use s in \<open>simp_all add: shape_def tool_index_def\<close>)
  then show ?thesis unfolding positions_def shape_inv(5) [OF s] .
qed

lemma extends_shape: "shape e' = shape e \<Longrightarrow> extends e [] e'"
  using positions_shape [of e' e] by (simp add: extends_def)

lemma extends_trans: "extends e xs e' \<Longrightarrow> extends e' ys e'' \<Longrightarrow> extends e (xs @ ys) e''"
  by (auto simp: extends_def)

lemma get_tool_extends:
  assumes "enc_inv e"
  shows "extends e [] (snd (get_tool clk i index name e))"
proof (cases "find_tool (tool_key i index) e")
  case None
  show ?thesis using get_tool_new(2) [OF assms None] by (simp add: extends_def positions_def)
next
  case (Some t)
  show ?thesis by (rule extends_shape [OF get_tool_known(1) [OF assms Some]])
qed

lemma positions_find: "map_of (positions e) k = map_option (tool_index (enc_target e)) (find_tool k e)"
proof -
  have "map_of (map (\<lambda>t. (tl_key t, h t)) ts) k = map_option h (find (\<lambda>t. tl_key t = k) ts)" for h and ts :: "encoded_tool list"
    by (induction ts) auto
  then show ?thesis by (simp add: positions_def find_tool_def)
qed

lemma body_extends:
  assumes inv: "enc_inv e"
  shows "extends e [] (snd (encode_body clk ev e))"
proof -
  have same: "extends e [] e'" if "enc_tools e' = enc_tools e" "enc_target e' = enc_target e" for e'
    using that by (simp add: extends_def positions_def)
  have seq: "extends u [] (v\<lparr>enc_sequence := n\<rparr>)" if "extends u [] v" for u v n
    using that by (simp add: extends_def positions_def)
  have tool: "extends e [] (set_tool (fst (get_tool clk i index name e)\<lparr>tl_arguments := a\<rparr>) (snd (get_tool clk i index name e)))"
    for i index name a
  proof -
    have "shape (set_tool (fst (get_tool clk i index name e)\<lparr>tl_arguments := a\<rparr>) (snd (get_tool clk i index name e))) =
        shape (snd (get_tool clk i index name e))"
      using get_tool_inv [OF inv] get_tool_in [OF inv]
      by (intro shape_set_tool [of _ "fst (get_tool clk i index name e)"]) (simp_all add: enc_inv_def)
    from extends_trans [OF get_tool_extends [OF inv] extends_shape [OF this]] show ?thesis by simp
  qed
  show ?thesis
  proof (cases ev)
    case (StreamToolStart index i name)
    then show ?thesis using get_tool_extends [OF inv, where clk = clk and i = i and index = index and name = name] seq
      by (simp add: encode_body_def encodeToolStart_def Let_def case_prod_unfold split: stream_target.splits)
  next
    case (StreamToolDelta index i delta)
    then show ?thesis using get_tool_extends [OF inv, where clk = clk and i = i and index = index and name = "[]"] tool seq
      by (simp add: encode_body_def encodeToolDelta_def Let_def case_prod_unfold split: stream_target.splits)
  next
    case (StreamToolEnd index i)
    have "extends (snd (get_tool clk i index [] e)) [] (snd (closeTool (fst (get_tool clk i index [] e)) (snd (get_tool clk i index [] e))))"
      by (rule extends_shape [OF shape_closeTool [OF get_tool_inv [OF inv] get_tool_in [OF inv]]])
    from extends_trans [OF get_tool_extends [OF inv] this] StreamToolEnd show ?thesis
      by (simp add: encode_body_def encodeToolEnd_def Let_def case_prod_unfold)
  qed (use same in \<open>simp_all add: encode_body_def encodeText_def encodeReasoning_def startText_def startReasoning_def Let_def
      split: stream_target.splits\<close>)
qed

interpretation places: encoder_log "\<lambda>_ _. True" "\<lambda>_. []" extends
  using body_extends extends_shape [OF shape_ensureStarted] extends_shape [OF shape_closeReasoning]
    extends_shape [OF shape_closeText] extends_shape [OF shape_last_frames] extends_shape [OF shape_closeTool] extends_trans
  by unfold_locales (auto simp: extends_def positions_def)

text \<open>The index of a tool never changes once it is known.\<close>

lemma place_stays:
  assumes "enc_inv e" and "map_of (positions e) k = Some i"
  shows "map_of (positions (snd (encode_all evs e))) k = Some i"
  using places.logs_encode_all_free [OF assms(1), of evs] assms(2)
  by (auto simp: places.logs_def extends_def map_add_def)

section \<open>The content a client receives\<close>

datatype piece = TextPiece string | ReasoningPiece string | ArgumentsPiece int string

definition str_member :: "string \<Rightarrow> gmap \<Rightarrow> string list" where
  "str_member k m = (case map_of m k of Some (GStr s) \<Rightarrow> if s = [] then [] else [s] | _ \<Rightarrow> [])"

definition map_member :: "string \<Rightarrow> gmap \<Rightarrow> gmap list" where
  "map_member k m = (case map_of m k of Some (GMap n) \<Rightarrow> [n] | Some (GArr [GMap n]) \<Rightarrow> [n] | _ \<Rightarrow> [])"

definition call_pieces :: "gmap \<Rightarrow> piece list" where
  "call_pieces c = concat (map (\<lambda>i. concat (map (\<lambda>f. map (ArgumentsPiece i) (str_member ''arguments'' f)) (map_member ''function'' c)))
     (int_member ''index'' c))"

definition chat_pieces :: "gmap \<Rightarrow> piece list" where
  "chat_pieces m = concat (map (\<lambda>c. concat (map (\<lambda>d.
       map ReasoningPiece (str_member ''reasoning_content'' d) @ map TextPiece (str_member ''content'' d) @
       concat (map call_pieces (map_member ''tool_calls'' d)))
     (map_member ''delta'' c))) (map_member ''choices'' m))"

definition delta_pieces :: "int list \<Rightarrow> gmap \<Rightarrow> piece list" where
  "delta_pieces index d = map TextPiece (str_member ''text'' d) @ map ReasoningPiece (str_member ''thinking'' d) @
     concat (map (\<lambda>i. map (ArgumentsPiece i) (str_member ''partial_json'' d)) index)"

text \<open>What a frame adds for the client of its protocol.\<close>

fun frame_pieces :: "frame \<Rightarrow> piece list" where
  "frame_pieces (Frame name m) =
     (if name = [] then chat_pieces m
      else if name = ''content_block_delta'' then concat (map (delta_pieces (int_member ''index'' m)) (map_member ''delta'' m))
      else if name = ''response.output_text.delta'' then map TextPiece (str_member ''delta'' m)
      else if name = ''response.reasoning_summary_text.delta'' then map ReasoningPiece (str_member ''delta'' m)
      else if name = ''response.function_call_arguments.delta''
        then concat (map (\<lambda>i. map (ArgumentsPiece i) (str_member ''delta'' m)) (int_member ''output_index'' m))
      else [])"
| "frame_pieces DoneFrame = []"

text \<open>What an event of the upstream adds, under the indices a state gives the tools.\<close>

fun event_pieces :: "stream_encoder \<Rightarrow> stream_event \<Rightarrow> piece list" where
  "event_pieces e (StreamText _ delta) = (if delta = [] then [] else [TextPiece delta])"
| "event_pieces e (StreamReasoning _ delta) = (if delta = [] then [] else [ReasoningPiece delta])"
| "event_pieces e (StreamToolDelta index i delta) =
     (if delta = [] then []
      else case map_of (positions e) (tool_key i index) of Some p \<Rightarrow> [ArgumentsPiece p delta] | None \<Rightarrow> [])"
| "event_pieces e _ = []"

lemmas piece_observed = frame_builders str_member_def map_member_def int_member_def chat_pieces_def call_pieces_def
  delta_pieces_def output_text_part_def summary_part_def responseMessageItem_def responseReasoningItem_def
  responseToolItem_def Let_def case_prod_unfold

lemma no_pieces [simp]:
  "concat (map frame_pieces (fst (ensureStarted clk e))) = []"
  "concat (map frame_pieces (fst (closeReasoning e))) = []"
  "concat (map frame_pieces (fst (closeText e))) = []"
  "concat (map frame_pieces (fst (closeTool t e))) = []"
  "concat (map frame_pieces (fst (last_frames e))) = []"
  "concat (map frame_pieces (fst (startText clk e))) = []"
  "concat (map frame_pieces (fst (startReasoning clk e))) = []"
  by (simp_all add: ensureStarted_def closeReasoning_def closeText_def closeTool_def last_frames_def startText_def
    startReasoning_def piece_observed optput_def split: stream_target.splits)

lemma tool_place:
  assumes "enc_inv e" and "t \<in> set (enc_tools e)"
  shows "map_of (positions e) (tl_key t) = Some (tool_index (enc_target e) t)"
proof -
  have "map fst (positions e) = map tl_key (enc_tools e)" by (simp add: positions_def)
  then have "distinct (map fst (positions e))" using assms(1) by (simp add: enc_inv_def)
  then show ?thesis using assms(2) by (auto simp: map_of_eq_Some_iff positions_def)
qed

lemma encodeToolDelta_pieces:
  assumes inv: "enc_inv e"
  shows "concat (map frame_pieces (fst (encodeToolDelta clk index i delta e))) =
    event_pieces (snd (encodeToolDelta clk index i delta e)) (StreamToolDelta index i delta)"
proof (cases "delta = []")
  case False
  let ?t = "fst (get_tool clk i index [] e)" and ?e = "snd (get_tool clk i index [] e)"
  let ?s = "set_tool (?t\<lparr>tl_arguments := tl_arguments ?t @ delta\<rparr>) ?e"
  have inv': "enc_inv ?e" and t: "?t \<in> set (enc_tools ?e)" by (rule get_tool_inv [OF inv], rule get_tool_in [OF inv])
  have "shape ?s = shape ?e"
    using inv' t by (intro shape_set_tool [of _ ?t]) (simp_all add: enc_inv_def)
  then have s: "positions ?s = positions ?e" by (rule positions_shape)
  have "positions (snd (encodeToolDelta clk index i delta e)) = positions ?s"
    using False by (simp add: encodeToolDelta_def Let_def case_prod_unfold positions_def split: stream_target.splits)
  then have "map_of (positions (snd (encodeToolDelta clk index i delta e))) (tool_key i index) = Some (tool_index (enc_target e) ?t)"
    using tool_place [OF inv' t] get_tool_key [OF inv] s by simp
  moreover have "concat (map frame_pieces (fst (encodeToolDelta clk index i delta e))) = [ArgumentsPiece (tool_index (enc_target e) ?t) delta]"
    using False by (simp add: encodeToolDelta_def piece_observed tool_index_def set_tool_def split: stream_target.splits)
  ultimately show ?thesis using False by simp
qed (simp add: encodeToolDelta_def Let_def case_prod_unfold)

lemma body_pieces:
  assumes "enc_inv e"
  shows "concat (map frame_pieces (fst (encode_body clk ev e))) = event_pieces (snd (encode_body clk ev e)) ev"
proof (cases ev)
  case (StreamText x delta)
  then show ?thesis
    by (simp add: encode_body_def encodeText_def Let_def split: stream_target.splits) (simp add: piece_observed)
next
  case (StreamReasoning x delta)
  then show ?thesis
    by (simp add: encode_body_def encodeReasoning_def Let_def split: stream_target.splits) (simp add: piece_observed)
next
  case (StreamToolStart index i name)
  then show ?thesis
    by (simp add: encode_body_def encodeToolStart_def piece_observed split: stream_target.splits)
next
  case (StreamToolDelta index i delta)
  then show ?thesis using encodeToolDelta_pieces [OF assms] by (simp add: encode_body_def)
qed (simp_all add: encode_body_def encodeToolEnd_def Let_def case_prod_unfold)

lemma Encode_pieces:
  assumes "enc_inv e" and "\<not> enc_done e" and "ev \<noteq> StreamDone"
  shows "concat (map frame_pieces (fst (Encode clk ev e))) = event_pieces (snd (Encode clk ev e)) ev"
  using body_pieces [OF before_body_inv [OF assms(1), of clk ev], of clk ev] assms(2,3)
  by (cases ev) (simp_all add: Encode_def before_body_def del: concat_eq_Nil_conv)

lemma closeTools_pieces [simp]: "concat (map frame_pieces (fst (closeTools ts e))) = []"
  by (induction ts arbitrary: e) (simp_all del: concat_eq_Nil_conv)

lemma finish_pieces [simp]: "concat (map frame_pieces (fst (finish clk e))) = []"
  by (simp add: finish_def final_frames_def del: concat_eq_Nil_conv)

text \<open>The pieces of an event do not depend on how far the stream has got.\<close>

lemma event_pieces_later:
  assumes "enc_inv e" and "\<not> enc_done e" and "ev \<noteq> StreamDone"
  shows "event_pieces (snd (encode_all evs (snd (Encode clk ev e)))) ev = event_pieces (snd (Encode clk ev e)) ev"
proof (cases ev)
  case (StreamToolDelta index i delta)
  have "map_of (positions (snd (Encode clk ev e))) (tool_key i index) \<noteq> None"
    using encode_body_tool_states [OF before_body_inv [OF assms(1)], of clk ev clk ev] assms(2) StreamToolDelta
      keys_tool_states [of "snd (Encode clk ev e)"] Encode_tool_states [OF assms, of clk]
    by (auto simp: positions_def map_of_eq_None_iff image_image mark_known_def split: if_splits)
  then show ?thesis using place_stays [OF Encode_inv [OF assms(1)]] StreamToolDelta by auto
qed simp_all

lemma stream_pieces:
  "enc_inv e \<Longrightarrow> \<not> enc_done e \<Longrightarrow> StreamDone \<notin> set (map snd evs) \<Longrightarrow>
   concat (map frame_pieces (fst (encode_all (evs @ [(clk, StreamDone)]) e))) =
   concat (map (event_pieces (snd (encode_all (evs @ [(clk, StreamDone)]) e))) (map snd evs))"
proof (induction evs arbitrary: e)
  case Nil
  then show ?case by (simp add: Encode_def)
next
  case (Cons x evs)
  obtain c ev where x: "x = (c, ev)" by (cases x)
  have ev: "ev \<noteq> StreamDone" using Cons.prems(3) x by auto
  let ?e = "snd (Encode c ev e)"
  have "concat (map frame_pieces (fst (encode_all (evs @ [(clk, StreamDone)]) ?e))) =
      concat (map (event_pieces (snd (encode_all (evs @ [(clk, StreamDone)]) ?e))) (map snd evs))"
    using Cons.prems Encode_inv [OF Cons.prems(1)] Encode_flags(2) [OF Cons.prems(2) ev]
    by (intro Cons.IH) simp_all
  then show ?case
    using Encode_pieces [OF Cons.prems(1,2) ev, of c] event_pieces_later [OF Cons.prems(1,2) ev, of _ c] by (simp add: x)
qed

end
