(* ===== verification/StreamSpec.thy ===== *)
theory StreamSpec
  imports StreamEnd
begin

text \<open>
  What the stream encoder promises the client of each protocol, for whole streams of events
  from a fresh encoder.
\<close>

section \<open>A sample stream\<close>

definition tick :: "nat \<Rightarrow> int" where
  "tick n = 1000 + int n"

definition sample_events :: "stream_event list" where
  "sample_events = [StreamStart ''x'' ''m'', StreamReasoning 0 ''hm'', StreamText 0 ''hel'', StreamText 0 ''lo'',
     StreamToolStart 1 ''c1'' ''f'', StreamToolDelta 1 ''c1'' ''{}'', StreamToolEnd 1 ''c1'', StreamFinish ''tool_calls'']"

definition sample_stream :: "((nat \<Rightarrow> int) \<times> stream_event) list" where
  "sample_stream = map (Pair tick) sample_events"

lemma sample_stream_events [simp]: "map snd sample_stream = sample_events" "snd ` set sample_stream = set sample_events"
  by (simp_all add: sample_stream_def image_image comp_def)

lemma sample_not_done: "StreamDone \<notin> set sample_events"
  by (simp add: sample_events_def)

lemma sample_proper: "tools_proper [] sample_events" "\<not> resumes False False sample_events"
  by code_simp+

lemma fresh_encoder [simp]:
  "\<not> enc_done (newStreamEncoder target model created)" "\<not> enc_text_closed (newStreamEncoder target model created)"
  "\<not> enc_reasoning_closed (newStreamEncoder target model created)" "\<not> enc_reasoning_started (newStreamEncoder target model created)"
  "tool_states (newStreamEncoder target model created) = []"
  "enc_sequence (newStreamEncoder target model created) = 0" "enc_target (newStreamEncoder target model created) = target"
  "block_state (newStreamEncoder target model created) = (0, {})" "enc_tools (newStreamEncoder target model created) = []"
  by (simp_all add: newStreamEncoder_def tool_states_def block_state_def next_index_def open_indices_def split: stream_target.splits)

section \<open>Every stream\<close>

text \<open>
  The events of a Responses stream are numbered 0, 1, 2, ... without a gap or a repetition,
  in the order in which they are sent, whatever the upstream sent.
\<close>

theorem responses_numbering:
  "concat (map frame_numbers (fst (encode_all evs (newStreamEncoder target model created)))) =
   [0..enc_sequence (snd (encode_all evs (newStreamEncoder target model created))) - 1]"
  using numbers.logs_encode_all_free [OF newStreamEncoder_inv [of target model created], of evs]
  by (simp add: numbers.logs_def numbered_def)

text \<open>
  C11. The indices of the blocks of a stream stay consistent whatever the upstream sends: in
  every state the encoder reaches, the reasoning, the text and the tools have distinct
  indices, and these are exactly the numbers below the next one.
\<close>

theorem block_indices_consistent:
  "enc_inv (snd (encode_all evs (newStreamEncoder target model created)))"
  by (rule encode_all_inv [OF newStreamEncoder_inv])




text \<open>
  C9. The client receives exactly the content of the upstream, in its order: the text, the
  reasoning and the argument fragments in the frames of a finished stream are those of the
  events, nothing dropped, repeated or reordered, every fragment under the index its tool has.
\<close>

theorem content_preserved:
  assumes "StreamDone \<notin> set (map snd evs)"
    and "encode_all (evs @ [(clk, StreamDone)]) (newStreamEncoder target model created) = (frames, e)"
  shows "concat (map frame_pieces frames) = concat (map (event_pieces e) (map snd evs))"
  using stream_pieces [OF newStreamEncoder_inv _ assms(1), of target model created clk] assms(2) by simp

theorem content_preserved_witness:
  "concat (map frame_pieces (fst (encode_all (sample_stream @ [(tick, StreamDone)]) (newStreamEncoder ToResponses ''m'' 0)))) =
   [ReasoningPiece ''hm'', TextPiece ''hel'', TextPiece ''lo'', ArgumentsPiece 2 ''{}'']"
proof -
  let ?r = "encode_all (sample_stream @ [(tick, StreamDone)]) (newStreamEncoder ToResponses ''m'' 0)"
  have "concat (map frame_pieces (fst ?r)) = concat (map (event_pieces (snd ?r)) (map snd sample_stream))"
    by (rule content_preserved [OF _ surjective_pairing]) (simp add: sample_not_done)
  moreover have "positions (snd ?r) = [(''c1'', 2)]" by code_simp
  ultimately show ?thesis by (simp add: sample_events_def tool_key_def)
qed

text \<open>
  C12. The response object at the end of a Responses stream is complete: its output has one
  item per output index, no hole, and each item stands at the index under which its block was
  announced, with all of its text or arguments.
\<close>

theorem final_output_complete:
  assumes "enc_inv e" and "enc_target e = ToResponses"
  shows "length (responseOutput e) = nat (enc_next_output e) \<and> GNil \<notin> set (responseOutput e) \<and>
    (enc_reasoning_started e \<longrightarrow> responseOutput e ! nat (enc_reasoning_index e) = responseReasoningItem e (enc_reasoning e)) \<and>
    (enc_text_started e \<longrightarrow> responseOutput e ! nat (enc_text_index e) = responseMessageItem e ''completed'') \<and>
    (\<forall>t \<in> set (enc_tools e). responseOutput e ! nat (tl_target_index t) = responseToolItem t ''completed'')"
  using responseOutput_slots [OF assms] responseOutput_complete [OF assms] by blast

theorem final_output_witness:
  "length (responseOutput (snd (encode_all sample_stream (newStreamEncoder ToResponses ''m'' 0)))) = 3"
proof -
  let ?e = "snd (encode_all sample_stream (newStreamEncoder ToResponses ''m'' 0))"
  have "enc_target ?e = ToResponses" "enc_next_output ?e = 3" by code_simp+
  then show ?thesis using final_output_complete [OF encode_all_inv [OF newStreamEncoder_inv], of sample_stream ToResponses "''m''" 0]
    by simp
qed

text \<open>
  A finished stream stays finished: after the end event the encoder sends nothing more and
  its state does not change, whatever the upstream still sends.
\<close>

theorem silent_after_end:
  assumes "StreamDone \<in> set (map snd evs)"
  shows "encode_all (evs @ later) e = encode_all evs e"
proof -
  have "enc_done (snd (encode_all evs e))"
    using assms
  proof (induction evs e rule: encode_all.induct)
    case (2 clk ev evs e)
    have keep: "enc_done (snd (encode_all xs u))" if "enc_done u" for xs u
      using that silent_when_done by simp
    show ?case
    proof (cases "ev = StreamDone")
      case True
      then show ?thesis by (simp add: Encode_def keep)
    next
      case False
      then show ?thesis using 2 by simp
    qed
  qed simp
  then show ?thesis by (simp add: encode_all_append after_def silent_when_done case_prod_unfold Let_def)
qed

theorem silent_after_end_witness:
  "encode_all [(tick, StreamDone), (tick, StreamText 0 ''late'')] (newStreamEncoder ToChat ''m'' 0) =
   encode_all [(tick, StreamDone)] (newStreamEncoder ToChat ''m'' 0)"
  using silent_after_end [of "[(tick, StreamDone)]" "[(tick, StreamText 0 ''late'')]"] by simp

end
