(* ===== verification/StreamConvert.thy ===== *)
theory StreamConvert
  imports StreamEnd
begin

text \<open>
  The converter of a stream (\<^verbatim>\<open>StreamConverter\<close> in internal/protocol/stream.go): a decoder for the
  upstream's protocol feeds an encoder for the client's. \<open>clk\<close> gives the readings of the clock
  by the number of the event within one call of \<open>Convert\<close>.
\<close>

record stream_converter =
  cv_decoder :: stream_decoder
  cv_encoder :: stream_encoder

definition stream_targets :: "(string \<times> stream_target) list" where
  "stream_targets = [(Chat, ToChat), (Responses, ToResponses), (Messages, ToMessages)]"

definition NewStreamConverter :: "int \<Rightarrow> string \<Rightarrow> string \<Rightarrow> string \<Rightarrow> go_error + stream_converter" where
  "NewStreamConverter created from to virtualModel =
     (if from \<noteq> Chat \<and> from \<noteq> Responses \<and> from \<noteq> Messages \<and> from \<noteq> Antigravity
        then Inl (Errorf ''unsupported source stream protocol %q'' [from])
      else case map_of stream_targets to of
          None \<Rightarrow> Inl (Errorf ''unsupported target stream protocol %q'' [to])
        | Some target \<Rightarrow>
            if from = to then Inl (Errorf ''stream converter requires different protocols'' [])
            else Inr \<lparr>cv_decoder = newStreamDecoder from, cv_encoder = newStreamEncoder target virtualModel created\<rparr>)"

definition SetChatUsage :: "bool \<Rightarrow> stream_converter \<Rightarrow> stream_converter" where
  "SetChatUsage enabled c = c\<lparr>cv_encoder := (cv_encoder c)\<lparr>enc_omit_usage := \<not> enabled\<rparr>\<rparr>"

definition SetAntigravityToolStore :: "(ag_turn \<Rightarrow> go_error option) \<Rightarrow> stream_converter \<Rightarrow> stream_converter" where
  "SetAntigravityToolStore save c =
     c\<lparr>cv_decoder := (cv_decoder c)\<lparr>dec_antigravity := (dec_antigravity (cv_decoder c))\<lparr>ag_save := Some save\<rparr>\<rparr>\<rparr>"

text \<open>
  Messages counts the cached input apart from the input, Antigravity within it, so the usage is
  recomputed on the way.
\<close>

definition account :: "bool \<Rightarrow> stream_event \<Rightarrow> stream_event" where
  "account recompute event = (case event of
       StreamUsage u \<Rightarrow> if recompute then StreamUsage (AntigravityAccountingUsage u) else event
     | _ \<Rightarrow> event)"

text \<open>Whether an event carries content of the answer to the client.\<close>

definition semantic_event :: "stream_event \<Rightarrow> frame list \<Rightarrow> bool" where
  "semantic_event event encoded \<longleftrightarrow> (case event of
       StreamText _ delta \<Rightarrow> delta \<noteq> []
     | StreamReasoning _ delta \<Rightarrow> delta \<noteq> [] \<and> encoded \<noteq> []
     | StreamToolStart _ _ _ \<Rightarrow> True
     | StreamToolDelta _ _ delta \<Rightarrow> delta \<noteq> []
     | _ \<Rightarrow> False)"

record converted =
  co_frames :: "frame list"
  co_semantic :: bool
  co_done :: bool

definition nothing_converted :: converted where
  "nothing_converted = \<lparr>co_frames = [], co_semantic = False, co_done = False\<rparr>"

definition convert_event :: "(nat \<Rightarrow> int) \<Rightarrow> stream_event \<Rightarrow> converted \<times> stream_encoder \<Rightarrow> converted \<times> stream_encoder" where
  "convert_event clk event = (\<lambda>(out, e).
     let (encoded, e') = Encode clk event e
     in (\<lparr>co_frames = co_frames out @ encoded, co_semantic = (co_semantic out \<or> semantic_event event encoded),
          co_done = (co_done out \<or> event = StreamDone)\<rparr>, e'))"

fun convert_events ::
    "(nat \<Rightarrow> nat \<Rightarrow> int) \<Rightarrow> nat \<Rightarrow> stream_event list \<Rightarrow> converted \<times> stream_encoder \<Rightarrow> converted \<times> stream_encoder" where
  "convert_events clk i [] s = s"
| "convert_events clk i (ev # evs) s = convert_events clk (Suc i) evs (convert_event (clk i) ev s)"

definition recomputes :: "stream_converter \<Rightarrow> bool" where
  "recomputes c \<longleftrightarrow> dec_protocol (cv_decoder c) = Antigravity \<and> enc_target (cv_encoder c) = ToMessages"

text \<open>
  \<^verbatim>\<open>Convert\<close>. An error of the decoder is returned with the decoder as it is then. (The encoder
  returns an error only where \<^verbatim>\<open>json.Marshal\<close> does, which does not happen for its frames.)
\<close>

definition Convert ::
    "(nat \<Rightarrow> string) \<Rightarrow> instant \<Rightarrow> (nat \<Rightarrow> nat \<Rightarrow> int) \<Rightarrow> sse_event \<Rightarrow> stream_converter \<Rightarrow> (go_error + converted) \<times> stream_converter" where
  "Convert rand now clk input c =
     (let (r, d) = Decode rand now input (cv_decoder c) in
      case r of
        Inl err \<Rightarrow> (Inl err, c\<lparr>cv_decoder := d\<rparr>)
      | Inr events \<Rightarrow>
          (let (out, e) = convert_events clk 0 (map (account (recomputes c)) events) (nothing_converted, cv_encoder c)
           in (Inr out, \<lparr>cv_decoder = d, cv_encoder = e\<rparr>)))"

definition AntigravityResponse :: "stream_converter \<Rightarrow> response \<times> go_error option" where
  "AntigravityResponse c =
     (let empty = ag_response new_ag_state; s = dec_antigravity (cv_decoder c) in
      if dec_protocol (cv_decoder c) \<noteq> Antigravity then (empty, Some (Errorf ''not an Antigravity response'' []))
      else if \<not> ag_done s then (ag_response s, Some (Errorf ''the Antigravity response has not ended'' []))
      else (ag_response s, None))"

section \<open>A whole stream\<close>

text \<open>The events of a stream one after another, as the gateway's loop does it: an error ends it.\<close>

fun decode_all :: "(nat \<Rightarrow> string) \<Rightarrow> instant \<Rightarrow> sse_event list \<Rightarrow> stream_decoder \<Rightarrow> decode_result" where
  "decode_all rand now [] d = (Inr [], d)"
| "decode_all rand now (input # inputs) d =
     (let (r, d') = Decode rand now input d in
      case r of
        Inl err \<Rightarrow> (Inl err, d')
      | Inr evs \<Rightarrow> (let (r', d'') = decode_all rand now inputs d' in (map_sum id ((@) evs) r', d'')))"

fun convert_all ::
    "(nat \<Rightarrow> string) \<Rightarrow> instant \<Rightarrow> ((nat \<Rightarrow> nat \<Rightarrow> int) \<times> sse_event) list \<Rightarrow> stream_converter \<Rightarrow>
     (go_error + converted list) \<times> stream_converter" where
  "convert_all rand now [] c = (Inr [], c)"
| "convert_all rand now ((clk, input) # inputs) c =
     (let (r, c') = Convert rand now clk input c in
      case r of
        Inl err \<Rightarrow> (Inl err, c')
      | Inr out \<Rightarrow> (let (r', c'') = convert_all rand now inputs c' in (map_sum id ((#) out) r', c'')))"

section \<open>The decoder keeps its protocol\<close>

lemma orFail_protocol:
  "(\<And>x. m = Inr x \<Longrightarrow> dec_protocol (snd (f x)) = dec_protocol d) \<Longrightarrow> dec_protocol (snd (orFail m d f)) = dec_protocol d"
  by (cases m) (simp_all add: orFail_def)

lemma if_protocol:
  "(b \<Longrightarrow> dec_protocol (snd x) = p) \<Longrightarrow> (\<not> b \<Longrightarrow> dec_protocol (snd y) = p) \<Longrightarrow> dec_protocol (snd (if b then x else y)) = p"
  by simp

lemma let_protocol: "(\<And>y. dec_protocol (snd (f y)) = p) \<Longrightarrow> dec_protocol (snd (let y = x in f y)) = p"
  by simp

lemma prod_protocol:
  "(\<And>a b. dec_protocol (snd (f a b)) = p) \<Longrightarrow> dec_protocol (snd (case x of (a, b) \<Rightarrow> f a b)) = p"
  by (simp add: case_prod_unfold)

lemmas protocol_intros = orFail_protocol if_protocol let_protocol prod_protocol

lemma chat_tool_step_protocol [simp]: "dec_protocol (snd (chat_tool_step t s)) = dec_protocol (snd s)"
  by (simp add: chat_tool_step_def case_prod_unfold Let_def split: option.splits)

lemma fold_protocol:
  "(\<And>x s. dec_protocol (snd (f x s)) = dec_protocol (snd s)) \<Longrightarrow> dec_protocol (snd (fold f xs s)) = dec_protocol (snd s)"
  by (induction xs arbitrary: s) simp_all

lemma chat_choice_step_protocol [simp]: "dec_protocol (snd (chat_choice_step c s)) = dec_protocol (snd s)"
  using fold_protocol [of chat_tool_step "cd_tools c"]
  by (simp add: chat_choice_step_def case_prod_unfold Let_def split: option.splits)

lemma decodeChat_protocol: "dec_protocol (snd (decodeChat data d)) = dec_protocol d"
  using fold_protocol [of chat_choice_step]
  by (auto simp: decodeChat_def case_prod_unfold Let_def intro!: orFail_protocol)

lemma decodeBlock_protocol:
  "dec_protocol (snd (decodeBlockStart s d)) = dec_protocol d"
  "dec_protocol (snd (decodeBlockDelta s' d)) = dec_protocol d"
  "dec_protocol (snd (decodeBlockStop index d)) = dec_protocol d"
  by (simp_all add: decodeBlockStart_def decodeBlockDelta_def decodeBlockStop_def case_prod_unfold Let_def)

lemma decodeMessages_protocol: "dec_protocol (snd (decodeMessages input d)) = dec_protocol d"
  unfolding decodeMessages_def by (intro protocol_intros) (simp_all add: decodeBlock_protocol)

lemma decodeItem_protocol:
  "dec_protocol (snd (decodeItemAdded s d)) = dec_protocol d"
  "dec_protocol (snd (decodeItemDone s' d)) = dec_protocol d"
  "dec_protocol (snd (decodeResponseEnd s'' d)) = dec_protocol d"
  by (simp_all add: decodeItemAdded_def decodeItemDone_def decodeResponseEnd_def case_prod_unfold Let_def)

lemma decodeResponses_protocol: "dec_protocol (snd (decodeResponses input d)) = dec_protocol d"
  unfolding decodeResponses_def by (intro protocol_intros) (simp_all add: decodeItem_protocol events_of_def)

lemma ag_begin_protocol [simp]: "dec_protocol (snd (ag_begin rand document d)) = dec_protocol d"
  by (simp add: ag_begin_def case_prod_unfold Let_def)

lemma decodeAntigravity_protocol: "dec_protocol (snd (decodeAntigravity rand now data d)) = dec_protocol d"
  unfolding decodeAntigravity_def
  by (auto simp: Let_def case_prod_unfold set_antigravity_def intro!: orFail_protocol split: sum.splits)

lemma Decode_protocol: "dec_protocol (snd (Decode rand now input d)) = dec_protocol d"
  by (simp add: Decode_def decodeChat_protocol decodeMessages_protocol decodeResponses_protocol decodeAntigravity_protocol)


section \<open>Decoding, then encoding\<close>

fun timed :: "(nat \<Rightarrow> nat \<Rightarrow> int) \<Rightarrow> nat \<Rightarrow> stream_event list \<Rightarrow> ((nat \<Rightarrow> int) \<times> stream_event) list" where
  "timed clk i [] = []"
| "timed clk i (ev # evs) = (clk i, ev) # timed clk (Suc i) evs"

lemma map_snd_timed [simp]: "map snd (timed clk i evs) = evs"
  by (induction evs arbitrary: i) simp_all

lemma convert_events_encode_all:
  "convert_events clk i evs (out, e) = (out', e') \<Longrightarrow>
   \<exists>fs. co_frames out' = co_frames out @ fs \<and> encode_all (timed clk i evs) e = (fs, e') \<and>
     (co_done out' \<longleftrightarrow> co_done out \<or> StreamDone \<in> set evs)"
proof (induction evs arbitrary: i out e)
  case Nil
  then show ?case by simp
next
  case (Cons ev evs)
  obtain fs e1 where enc: "Encode (clk i) ev e = (fs, e1)" by (metis surj_pair)
  let ?out1 = "\<lparr>co_frames = co_frames out @ fs, co_semantic = (co_semantic out \<or> semantic_event ev fs),
     co_done = (co_done out \<or> ev = StreamDone)\<rparr>"
  have "convert_events clk (Suc i) evs (?out1, e1) = (out', e')"
    using Cons.prems enc by (simp add: convert_event_def)
  then obtain gs where gs: "co_frames out' = co_frames ?out1 @ gs" "encode_all (timed clk (Suc i) evs) e1 = (gs, e')"
    "co_done out' \<longleftrightarrow> co_done ?out1 \<or> StreamDone \<in> set evs"
    using Cons.IH by blast
  show ?case
  proof (intro exI conjI)
    show "co_frames out' = co_frames out @ (fs @ gs)" using gs(1) by simp
    show "encode_all (timed clk i (ev # evs)) e = (fs @ gs, e')" using enc gs(2) by (simp add: after_def)
    show "co_done out' \<longleftrightarrow> co_done out \<or> StreamDone \<in> set (ev # evs)" using gs(3) by auto
  qed
qed

lemma encode_all_target: "enc_inv e \<Longrightarrow> enc_target (snd (encode_all evs e)) = enc_target e"
  using targets.logs_encode_all_free [of e evs] by (simp add: targets.logs_def)

lemma account_done: "account b ev = StreamDone \<longleftrightarrow> ev = StreamDone"
  by (cases ev) (simp_all add: account_def)

lemma Convert_ok:
  assumes "Convert rand now clk input c = (Inr out, c')"
  shows "\<exists>evs. Decode rand now input (cv_decoder c) = (Inr evs, cv_decoder c') \<and>
    encode_all (timed clk 0 (map (account (recomputes c)) evs)) (cv_encoder c) = (co_frames out, cv_encoder c') \<and>
    (co_done out \<longleftrightarrow> StreamDone \<in> set evs)"
proof -
  obtain evs d where dec: "Decode rand now input (cv_decoder c) = (Inr evs, d)"
    using assms by (auto simp: Convert_def case_prod_unfold Let_def prod_eq_iff split: sum.splits)
  obtain out1 e where r: "convert_events clk 0 (map (account (recomputes c)) evs) (nothing_converted, cv_encoder c) = (out1, e)"
    by (metis surj_pair)
  have "out1 = out" "cv_decoder c' = d" "cv_encoder c' = e"
    using assms dec r by (auto simp: Convert_def)
  moreover have "StreamDone \<in> account b ` set evs \<longleftrightarrow> StreamDone \<in> set evs" for b
    using account_done [of b] by (metis (no_types, lifting) imageE image_eqI)
  ultimately show ?thesis
    using convert_events_encode_all [OF r] dec by (simp add: nothing_converted_def)
qed

lemma recomputes_stays:
  assumes "Convert rand now clk input c = (Inr out, c')" and "enc_inv (cv_encoder c)"
  shows "recomputes c' = recomputes c" and "enc_inv (cv_encoder c')"
proof -
  obtain evs where d: "Decode rand now input (cv_decoder c) = (Inr evs, cv_decoder c')"
    and e: "encode_all (timed clk 0 (map (account (recomputes c)) evs)) (cv_encoder c) = (co_frames out, cv_encoder c')"
    using Convert_ok [OF assms(1)] by blast
  show "recomputes c' = recomputes c"
    using Decode_protocol [of rand now input "cv_decoder c"] encode_all_target [OF assms(2)] d e
    by (metis recomputes_def snd_conv)
  show "enc_inv (cv_encoder c')" using encode_all_inv [OF assms(2)] e by (metis snd_conv)
qed

lemma convert_all_Cons:
  assumes "convert_all rand now ((clk, input) # ins) c = (Inr outs, c')"
  shows "\<exists>out c1 outs'. Convert rand now clk input c = (Inr out, c1) \<and>
    convert_all rand now ins c1 = (Inr outs', c') \<and> outs = out # outs'"
proof -
  obtain r c1 where r: "Convert rand now clk input c = (r, c1)" by (metis surj_pair)
  obtain r' c2 where r': "convert_all rand now ins c1 = (r', c2)" by (metis surj_pair)
  from assms r r' show ?thesis by (cases r; cases r') auto
qed

text \<open>
  The converter is the decoder followed by the encoder: what it sends is what the encoder makes of
  the decoded events, each with the readings of the clock of its own call.
\<close>

lemma convert_all_pipeline:
  "convert_all rand now ins c = (Inr outs, c') \<Longrightarrow> enc_inv (cv_encoder c) \<Longrightarrow>
   \<exists>evs steps. decode_all rand now (map snd ins) (cv_decoder c) = (Inr evs, cv_decoder c') \<and>
     map snd steps = map (account (recomputes c)) evs \<and>
     encode_all steps (cv_encoder c) = (concat (map co_frames outs), cv_encoder c') \<and>
     (list_ex co_done outs \<longleftrightarrow> StreamDone \<in> set evs)"
proof (induction ins arbitrary: c outs)
  case Nil
  then show ?case by (auto intro!: exI [of _ "[]"])
next
  case (Cons x ins)
  obtain clk input where x: "x = (clk, input)" by (cases x)
  obtain out c1 outs' where out: "Convert rand now clk input c = (Inr out, c1)"
    and rest: "convert_all rand now ins c1 = (Inr outs', c')" and outs: "outs = out # outs'"
    using convert_all_Cons [OF Cons.prems(1) [unfolded x]] by blast
  obtain evs1 where d: "Decode rand now input (cv_decoder c) = (Inr evs1, cv_decoder c1)"
    and e: "encode_all (timed clk 0 (map (account (recomputes c)) evs1)) (cv_encoder c) = (co_frames out, cv_encoder c1)"
    and fin: "co_done out \<longleftrightarrow> StreamDone \<in> set evs1"
    using Convert_ok [OF out] by blast
  note stays = recomputes_stays [OF out Cons.prems(2)]
  obtain evs steps where IH: "decode_all rand now (map snd ins) (cv_decoder c1) = (Inr evs, cv_decoder c')"
    "map snd steps = map (account (recomputes c1)) evs"
    "encode_all steps (cv_encoder c1) = (concat (map co_frames outs'), cv_encoder c')"
    "list_ex co_done outs' \<longleftrightarrow> StreamDone \<in> set evs"
    using Cons.IH [OF rest stays(2)] by blast
  show ?case
  proof (intro exI conjI)
    show "decode_all rand now (map snd (x # ins)) (cv_decoder c) = (Inr (evs1 @ evs), cv_decoder c')"
      using d IH(1) x by simp
    let ?steps = "timed clk 0 (map (account (recomputes c)) evs1) @ steps"
    show "map snd ?steps = map (account (recomputes c)) (evs1 @ evs)"
      using IH(2) stays(1) by simp
    show "encode_all ?steps (cv_encoder c) = (concat (map co_frames outs), cv_encoder c')"
      using e IH(3) outs by (simp add: encode_all_append after_def)
    show "list_ex co_done outs \<longleftrightarrow> StreamDone \<in> set (evs1 @ evs)"
      using fin IH(4) outs by simp
  qed
qed


section \<open>Content is flagged\<close>

lemma unflagged_event:
  assumes "enc_inv e" and "\<not> semantic_event ev (fst (Encode clk ev e))"
  shows "concat (map frame_pieces (fst (Encode clk ev e))) = []"
proof (cases "enc_done e \<or> ev = StreamDone")
  case True
  then show ?thesis by (auto simp: Encode_def simp del: concat_eq_Nil_conv)
next
  case False
  then show ?thesis using Encode_pieces [OF assms(1), of ev clk] assms(2)
    by (cases ev) (auto simp: semantic_event_def split: option.splits if_splits simp del: concat_eq_Nil_conv)
qed

lemma unflagged_events:
  assumes "convert_events clk i evs (out, e) = (out', e')" and "enc_inv e" and "\<not> co_semantic out'"
    and "concat (map frame_pieces (co_frames out)) = []"
  shows "concat (map frame_pieces (co_frames out')) = [] \<and> \<not> co_semantic out"
  using assms
proof (induction evs arbitrary: i out e)
  case Nil
  then show ?case by simp
next
  case (Cons ev evs)
  obtain fs e1 where enc: "Encode (clk i) ev e = (fs, e1)" by (metis surj_pair)
  let ?out1 = "\<lparr>co_frames = co_frames out @ fs, co_semantic = (co_semantic out \<or> semantic_event ev fs),
     co_done = (co_done out \<or> ev = StreamDone)\<rparr>"
  have step: "convert_events clk (Suc i) evs (?out1, e1) = (out', e')"
    using Cons.prems(1) enc by (simp add: convert_event_def)
  have flags: "co_semantic u \<Longrightarrow> co_semantic (fst (convert_events clk j xs (u, v)))" for j xs u v
    by (induction xs arbitrary: j u v) (simp_all add: convert_event_def case_prod_unfold Let_def)
  have "\<not> co_semantic ?out1" using flags [of ?out1] step Cons.prems(3) by (metis fst_conv)
  then have "\<not> semantic_event ev fs" and "\<not> co_semantic out" by simp_all
  moreover from this have "concat (map frame_pieces fs) = []"
    using unflagged_event [OF Cons.prems(2), of ev "clk i"] enc by simp
  moreover have "enc_inv e1" using Encode_inv [OF Cons.prems(2), of "clk i" ev] enc by simp
  ultimately show ?case using Cons.IH [OF step] Cons.prems(3,4) by simp
qed

lemma unflagged_call:
  assumes "Convert rand now clk input c = (Inr out, c')" and "enc_inv (cv_encoder c)" and "\<not> co_semantic out"
  shows "concat (map frame_pieces (co_frames out)) = []"
proof -
  obtain evs where "Decode rand now input (cv_decoder c) = (Inr evs, cv_decoder c')"
    using Convert_ok [OF assms(1)] by blast
  then have "fst (convert_events clk 0 (map (account (recomputes c)) evs) (nothing_converted, cv_encoder c)) = out"
    using assms(1) by (auto simp: Convert_def case_prod_unfold Let_def)
  then obtain e where "convert_events clk 0 (map (account (recomputes c)) evs) (nothing_converted, cv_encoder c) = (out, e)"
    by (metis prod.collapse)
  from unflagged_events [OF this assms(2,3)] show ?thesis by (simp add: nothing_converted_def)
qed

lemma unflagged_stream:
  "convert_all rand now ins c = (Inr outs, c') \<Longrightarrow> enc_inv (cv_encoder c) \<Longrightarrow> out \<in> set outs \<Longrightarrow>
   \<not> co_semantic out \<Longrightarrow> concat (map frame_pieces (co_frames out)) = []"
proof (induction ins arbitrary: c outs)
  case Nil
  then show ?case by simp
next
  case (Cons x ins)
  obtain clk input where x: "x = (clk, input)" by (cases x)
  obtain out1 c1 outs' where "Convert rand now clk input c = (Inr out1, c1)"
    "convert_all rand now ins c1 = (Inr outs', c')" "outs = out1 # outs'"
    using convert_all_Cons [OF Cons.prems(1) [unfolded x]] by blast
  then show ?case
    using Cons.IH [of c1 outs'] recomputes_stays(2) Cons.prems(2-4) unflagged_call by auto
qed

text \<open>A converter as the gateway sets it up.\<close>

lemma NewStreamConverter_ok:
  assumes "NewStreamConverter created from to model = Inr c"
  obtains target where "map_of stream_targets to = Some target"
    and "c = \<lparr>cv_decoder = newStreamDecoder from, cv_encoder = newStreamEncoder target model created\<rparr>"
  using assms by (auto simp: NewStreamConverter_def split: if_splits option.splits)

lemma omit_usage_inv: "enc_inv (e\<lparr>enc_omit_usage := b\<rparr>) = enc_inv e"
proof -
  have "next_index (e\<lparr>enc_omit_usage := b\<rparr>) = next_index e" by (cases "enc_target e") (simp_all add: next_index_def)
  then show ?thesis by (simp add: enc_inv_def block_indices_def)
qed

lemma NewStreamConverter_encoder:
  assumes "NewStreamConverter created from to model = Inr c"
  shows "enc_inv (cv_encoder (SetChatUsage enabled c))" and "\<not> enc_done (cv_encoder (SetChatUsage enabled c))"
proof -
  obtain target where c: "c = \<lparr>cv_decoder = newStreamDecoder from, cv_encoder = newStreamEncoder target model created\<rparr>"
    using NewStreamConverter_ok [OF assms] .
  show "enc_inv (cv_encoder (SetChatUsage enabled c))"
    using newStreamEncoder_inv by (simp add: c SetChatUsage_def omit_usage_inv)
  show "\<not> enc_done (cv_encoder (SetChatUsage enabled c))"
    by (simp add: c SetChatUsage_def newStreamEncoder_def)
qed

lemma account_pieces [simp]: "event_pieces e (account b ev) = event_pieces e ev"
  by (cases ev) (simp_all add: account_def)

end
