(* ===== verification/AntigravityLaws.thy ===== *)
theory AntigravityLaws
  imports StreamConvert
begin

text \<open>
  The Antigravity decoder with a tool store: a tool call leaves the decoder only after the turn
  that contains it has been stored. \<open>held\<close> says that every tool call among the events so far is
  among the calls of the state; the steps of the decoder keep it.
\<close>

section \<open>Invariants of the outcomes\<close>

lemma orElse_invariant:
  "P (snd r) \<Longrightarrow> (\<And>s. P s \<Longrightarrow> P (snd (f s))) \<Longrightarrow> P (snd (orElse r f))"
  by (cases "fst r") (simp_all add: orElse_def)

lemma foldS_invariant:
  "P s \<Longrightarrow> (\<And>x s. P s \<Longrightarrow> P (snd (f x s))) \<Longrightarrow> P (snd (foldS f xs s))"
  by (induction xs arbitrary: s) (simp_all add: orElse_invariant)

lemma orElse_Inr: "orElse r f = (Inr u, s) \<longleftrightarrow> (\<exists>v. fst r = Inr v) \<and> f (snd r) = (Inr u, s)"
  by (cases r; cases "fst r") (auto simp: orElse_def)

lemma if_outcome: "(b \<Longrightarrow> P (snd x)) \<Longrightarrow> (\<not> b \<Longrightarrow> P (snd y)) \<Longrightarrow> P (snd (if b then x else y))"
  by simp

section \<open>Calls are held back\<close>

definition started_ids :: "stream_event list \<Rightarrow> string set" where
  "started_ids evs = {i. \<exists>k n. StreamToolStart k i n \<in> set evs}"

lemma started_ids_simps [simp]:
  "started_ids [] = {}" "started_ids (xs @ ys) = started_ids xs \<union> started_ids ys"
  "started_ids (ev # evs) = (case ev of StreamToolStart k i n \<Rightarrow> {i} | _ \<Rightarrow> {}) \<union> started_ids evs"
  by (auto simp: started_ids_def split: stream_event.splits)

definition held :: "(ag_turn \<Rightarrow> go_error option) option \<Rightarrow> ag_turn list \<Rightarrow> stream_event list \<times> ag_state \<Rightarrow> bool" where
  "held save saved es \<longleftrightarrow> ag_save (snd es) = save \<and> ag_saved (snd es) = saved \<and>
     started_ids (ag_pending (snd es)) \<union> started_ids (fst es) \<subseteq> call_id ` set (ag_calls (snd es))"

lemma held_call: "held save saved es \<Longrightarrow> held save saved (snd (ag_call_step rand call es))"
  by (auto simp: held_def ag_call_step_def add_block_def draw_id_def Let_def case_prod_unfold)

lemma held_text: "held save saved es \<Longrightarrow> held save saved (ag_text_step part es)"
  by (auto simp: held_def ag_text_step_def add_block_def case_prod_unfold)

lemma held_part: "held save saved es \<Longrightarrow> held save saved (snd (ag_part_step rand part es))"
proof -
  assume h: "held save saved es"
  let ?s = "(snd es)\<lparr>ag_parts := ag_parts (snd es) @ [agp_raw part]\<rparr>"
  define es1 where "es1 = (fst es, if agp_signature part \<noteq> [] then ?s\<lparr>ag_signed := True\<rparr> else ?s)"
  have "held save saved (fst es, ?s)" "held save saved es1" using h by (simp_all add: held_def es1_def)
  moreover from this have "held save saved (snd (case agp_call part of None \<Rightarrow> (Inr (), es1) | Some call \<Rightarrow> ag_call_step rand call es1))"
    by (simp add: held_call split: option.split)
  then have "held save saved (snd (orElse (case agp_call part of None \<Rightarrow> (Inr (), es1) | Some call \<Rightarrow> ag_call_step rand call es1)
      (\<lambda>es. (Inr (), ag_text_step part es))))"
    by (rule orElse_invariant) (simp add: held_text)
  ultimately show ?thesis
    unfolding ag_part_step_def case_prod_unfold Let_def es1_def [symmetric]
    by (intro if_outcome [where P = "held save saved"]) simp_all
qed

lemma held_finish: "held save saved es \<Longrightarrow> held save saved (snd (ag_finish_step reason es))"
proof -
  assume h: "held save saved es"
  then have "held save saved (fst es @ [StreamFinish x], (set_stop y (snd es))\<lparr>ag_done := True\<rparr>)" for x y
    by (simp add: held_def set_stop_def)
  with h show ?thesis
    unfolding ag_finish_step_def case_prod_unfold
    by (intro if_outcome [where P = "held save saved"]) (simp_all only: snd_conv prod.collapse)
qed

lemma held_candidate: "held save saved es \<Longrightarrow> held save saved (snd (ag_candidate_step rand c es))"
proof -
  assume h: "held save saved es"
  then have "held save saved (snd (foldS (ag_part_step rand) (agn_parts c) es))"
    by (rule foldS_invariant) (rule held_part)
  then have "held save saved (snd (orElse (foldS (ag_part_step rand) (agn_parts c) es) (ag_finish_step (agn_finish c))))"
    by (rule orElse_invariant) (rule held_finish)
  with h show ?thesis by (simp add: ag_candidate_step_def)
qed

lemma held_usage: "held save saved es \<Longrightarrow> held save saved (snd (ag_usage_step raw es))"
  by (auto simp: held_def ag_usage_step_def case_prod_unfold Let_def split: sum.splits)

text \<open>What the turns that the store has accepted contain.\<close>

definition stored_ids :: "(ag_turn \<Rightarrow> go_error option) \<Rightarrow> ag_turn list \<Rightarrow> string set" where
  "stored_ids save saved = {i. \<exists>turn \<in> set saved. save turn = None \<and> i \<in> call_id ` set (agt_calls turn)}"

lemma stored_ids_append [simp]: "stored_ids save (xs @ ys) = stored_ids save xs \<union> stored_ids save ys"
  by (auto simp: stored_ids_def)

text \<open>Between two documents: the events held back belong to calls of the state.\<close>

definition store_inv :: "(ag_turn \<Rightarrow> go_error option) \<Rightarrow> ag_state \<Rightarrow> bool" where
  "store_inv save s \<longleftrightarrow> held (Some save) (ag_saved s) ([], s)"

lemma held_store_inv: "held (Some save) saved es \<Longrightarrow> store_inv save (snd es)"
  by (auto simp: store_inv_def held_def)

lemma save_turn_keeps:
  "ag_save_turn s = (r, s') \<Longrightarrow> (\<exists>more. ag_saved s' = ag_saved s @ more) \<and> ag_pending s' = ag_pending s \<and>
    ag_calls s' = ag_calls s \<and> ag_save s' = ag_save s \<and> ag_done s' = ag_done s"
  by (auto simp: ag_save_turn_def Let_def split: option.splits if_splits)

lemma save_turn_stores:
  "ag_save_turn s = (Inr u, s') \<Longrightarrow> ag_save s = Some save \<Longrightarrow> call_id ` set (ag_calls s') \<subseteq> stored_ids save (ag_saved s')"
  by (auto simp: ag_save_turn_def Let_def stored_ids_def split: option.splits if_splits)

lemma held_end: "held save saved es \<Longrightarrow> \<exists>more. held save (saved @ more) (snd (ag_end_step es))"
proof -
  assume h: "held save saved es"
  obtain r s' where r: "ag_save_turn (snd es) = (r, s')" by (metis surj_pair)
  from save_turn_keeps [OF r] h have "\<exists>more. held save (saved @ more) (fst es, s') \<and> held save (saved @ more) (fst es @ [StreamDone], s')"
    by (auto simp: held_def)
  moreover have "\<exists>more. held save (saved @ more) es" using h by (intro exI [of _ "[]"]) simp
  ultimately show ?thesis
    by (cases "ag_done (snd es)"; cases r) (auto simp: ag_end_step_def case_prod_unfold Let_def r)
qed

text \<open>What a document with its end lets out.\<close>

lemma end_step_stores:
  assumes "held (Some save) saved es" and "ag_end_step es = (Inr u, es')"
  shows "started_ids (fst (ag_hold es')) \<subseteq> stored_ids save (ag_saved (snd (ag_hold es')))"
proof -
  obtain more where h: "held (Some save) (saved @ more) es'" using held_end [OF assms(1)] assms(2) by auto
  show ?thesis
  proof (cases "ag_calls (snd es') = [] \<or> \<not> ag_done (snd es')")
    case True
    with h show ?thesis by (auto simp: held_def ag_hold_def case_prod_unfold)
  next
    case False
    obtain r s' where r: "ag_save_turn (snd es) = (r, s')" by (metis surj_pair)
    have "ag_done (snd es)" using False assms(2) by (cases "ag_done (snd es)") (auto simp: ag_end_step_def case_prod_unfold)
    with assms(2) r have "r = Inr ()" "es' = (fst es @ [StreamDone], s')"
      by (cases r; auto simp: ag_end_step_def case_prod_unfold Let_def)+
    moreover have "ag_save (snd es) = Some save" using assms(1) by (simp add: held_def)
    ultimately have "call_id ` set (ag_calls (snd es')) \<subseteq> stored_ids save (ag_saved (snd es'))"
      using save_turn_stores r by simp
    moreover have "started_ids (fst (ag_hold es')) = started_ids (ag_pending (snd es')) \<union> started_ids (fst es')"
      using h False by (simp add: held_def ag_hold_def case_prod_unfold)
    moreover have "started_ids (ag_pending (snd es')) \<union> started_ids (fst es') \<subseteq> call_id ` set (ag_calls (snd es'))"
      using h by (simp add: held_def)
    moreover have "ag_saved (snd (ag_hold es')) = ag_saved (snd es')" by (simp add: ag_hold_def case_prod_unfold)
    ultimately show ?thesis by (metis (no_types, lifting) subset_trans)
  qed
qed

lemma hold_store_inv: "held (Some save) saved es \<Longrightarrow> store_inv save (snd (ag_hold es))"
  by (auto simp: store_inv_def held_def ag_hold_def case_prod_unfold)

section \<open>The decoder with a tool store\<close>

lemma store_inv_more:
  "store_inv save (s\<lparr>ag_response := x\<rparr>) = store_inv save s" "store_inv save (s\<lparr>ag_draws := n\<rparr>) = store_inv save s"
  by (simp_all add: store_inv_def held_def)

lemma held_fresh: "store_inv save s \<Longrightarrow> started_ids evs = {} \<Longrightarrow> held (Some save) (ag_saved s) (evs, s)"
  by (simp add: store_inv_def held_def)

lemma held_run:
  assumes "held (Some save) saved es"
  shows "\<exists>more. held (Some save) (saved @ more) (snd (ag_run rand document es))"
    and "ag_run rand document es = (Inr u, es') \<Longrightarrow> started_ids (fst (ag_hold es')) \<subseteq> stored_ids save (ag_saved (snd (ag_hold es')))"
proof -
  let ?c = "foldS (ag_candidate_step rand) (agx_candidates document) es" and ?u = "ag_usage_step (agx_usage document)"
  have "held (Some save) saved (snd ?c)" using assms by (rule foldS_invariant) (rule held_candidate)
  then have h: "held (Some save) saved (snd (orElse ?c ?u))" by (rule orElse_invariant) (rule held_usage)
  then have "\<exists>more. held (Some save) (saved @ more) (snd (orElse ?c ?u))" by (intro exI [of _ "[]"]) simp
  then show "\<exists>more. held (Some save) (saved @ more) (snd (ag_run rand document es))"
    using held_end [OF h] by (cases "fst (orElse ?c ?u)") (simp_all add: ag_run_def orElse_def [of "orElse ?c ?u"])
  assume "ag_run rand document es = (Inr u, es')"
  then have "ag_end_step (snd (orElse ?c ?u)) = (Inr u, es')" by (simp add: ag_run_def orElse_Inr)
  with h show "started_ids (fst (ag_hold es')) \<subseteq> stored_ids save (ag_saved (snd (ag_hold es')))"
    by (rule end_step_stores)
qed

lemma hold_saved [simp]: "ag_saved (snd (ag_hold es)) = ag_saved (snd es)"
  by (simp add: ag_hold_def case_prod_unfold)

text \<open>A decoder after some documents: nothing stored is lost and nothing started is missing.\<close>

definition stores :: "(ag_turn \<Rightarrow> go_error option) \<Rightarrow> stream_decoder \<Rightarrow> decode_result \<Rightarrow> bool" where
  "stores save d res \<longleftrightarrow> store_inv save (dec_antigravity (snd res)) \<and>
     stored_ids save (ag_saved (dec_antigravity d)) \<subseteq> stored_ids save (ag_saved (dec_antigravity (snd res))) \<and>
     (\<forall>evs. fst res = Inr evs \<longrightarrow> started_ids evs \<subseteq> stored_ids save (ag_saved (dec_antigravity (snd res))))"

lemma stores_error: "store_inv save (dec_antigravity d') \<Longrightarrow> ag_saved (dec_antigravity d') = ag_saved (dec_antigravity d) \<Longrightarrow>
   stores save d (Inl e, d')"
  by (simp add: stores_def)

lemma begin_keeps:
  assumes "ag_begin rand document d = (events, d')" and "store_inv save (dec_antigravity d)"
  shows "store_inv save (dec_antigravity d') \<and> ag_saved (dec_antigravity d') = ag_saved (dec_antigravity d) \<and> started_ids events = {}"
  using assms by (auto simp: ag_begin_def store_inv_more draw_id_def Let_def split: if_splits)

lemma decodeAntigravity_stores:
  assumes "store_inv save (dec_antigravity d)"
  shows "stores save d (decodeAntigravity rand now data d)"
proof (cases "decodeAntigravityDocument now data")
  case (Inl e)
  then show ?thesis using assms by (simp add: decodeAntigravity_def orFail_def stores_error)
next
  case (Inr document)
  obtain events d1 where b: "ag_begin rand document d = (events, d1)" by (metis surj_pair)
  obtain x es where run: "ag_run rand document (events, dec_antigravity d1) = (x, es)" by (metis surj_pair)
  note d1 = begin_keeps [OF b assms]
  then have h: "held (Some save) (ag_saved (dec_antigravity d)) (events, dec_antigravity d1)"
    using held_fresh [of save "dec_antigravity d1" events] by simp
  obtain more where es: "held (Some save) (ag_saved (dec_antigravity d) @ more) es" using held_run(1) [OF h, of rand document] run by auto
  have saved: "ag_saved (snd es) = ag_saved (dec_antigravity d) @ more" using es by (simp add: held_def)
  have run_stores: "stores save d (case x of Inl e \<Rightarrow> (Inl e, set_antigravity es d1)
     | Inr _ \<Rightarrow> (Inr (fst (ag_hold es)), set_antigravity (ag_hold es) d1))"
  proof (cases x)
    case (Inl e)
    then show ?thesis using held_store_inv [OF es] saved by (simp add: stores_def set_antigravity_def)
  next
    case (Inr u)
    then show ?thesis using hold_store_inv [OF es] saved held_run(2) [OF h run [unfolded Inr]]
      by (simp add: stores_def set_antigravity_def)
  qed
  show ?thesis
    using assms d1 run_stores by (simp add: decodeAntigravity_def orFail_def Inr b run stores_error)
qed

lemma decode_all_stores:
  "dec_protocol d = Antigravity \<Longrightarrow> store_inv save (dec_antigravity d) \<Longrightarrow> stores save d (decode_all rand now ins d)"
proof (induction ins arbitrary: d)
  case Nil
  then show ?case by (simp add: stores_def)
next
  case (Cons input ins)
  obtain r d1 where r: "Decode rand now input d = (r, d1)" by (metis surj_pair)
  obtain r' d2 where r': "decode_all rand now ins d1 = (r', d2)" by (metis surj_pair)
  have "stores save d (Decode rand now input d)"
    using Cons.prems decodeAntigravity_stores [OF Cons.prems(2)]
    by (simp add: Decode_def stores_def Chat_def Messages_def Responses_def Antigravity_def)
  moreover have "dec_protocol d1 = Antigravity" using Decode_protocol [of rand now input d] r Cons.prems(1) by simp
  ultimately have s: "stores save d (r, d1)" and "stores save d1 (r', d2)"
    using Cons.IH [of d1] r r' by (simp_all add: stores_def)
  then show ?case
    by (cases r; cases r') (auto simp: r r' stores_def)
qed

end
