(* ===== verification/UsageExtract.thy ===== *)
theory UsageExtract
  imports AntigravityReply Sse
begin

text \<open>
  The token counts of an answer as the request log reads them, from a document or from the events
  of a stream (\<^verbatim>\<open>ExtractUsage\<close> in internal/protocol/usage.go). \<^verbatim>\<open>json.Unmarshal\<close> of the inner
  object into the map that holds the outer one adds its members to it, and \<^verbatim>\<open>null\<close> empties the map.
\<close>

definition inner_member :: "string \<Rightarrow> string option" where
  "inner_member source = (if source = Responses then Some ''response'' else if source = Messages then Some ''message'' else None)"

definition usage_members :: "string \<Rightarrow> members \<Rightarrow> go_error + members" where
  "usage_members source value =
     (case inner_member source of
        None \<Rightarrow> Inr value
      | Some name \<Rightarrow>
          (case entry name value of
             None \<Rightarrow> Inr value
           | Some j \<Rightarrow> if j = JNull then Inr [] else bindE (okE (dec_map j)) (\<lambda>more. Inr (value @ more))))"

definition decode_usage :: "string \<Rightarrow> json \<Rightarrow> go_error + usage" where
  "decode_usage source j =
     (if source = Chat then okE (dec_struct chat_usage_struct j)
      else if source = Responses then okE (dec_struct responses_usage_struct j)
      else if source = Messages then okE (dec_struct messages_stream_usage_struct j)
      else Inl (Errorf ''unsupported usage protocol'' []))"

definition extractDocumentUsage :: "instant \<Rightarrow> string \<Rightarrow> string \<Rightarrow> go_error + usage \<times> raw_message" where
  "extractDocumentUsage now body source =
     (if source = Antigravity then
        bindE (decodeAntigravityDocument now body) (\<lambda>document.
        bindE (antigravityUsage (agx_usage document)) (\<lambda>u. Inr (u, agx_usage document)))
      else
        bindE (unmarshal_text body) (\<lambda>j.
        bindE (okE (dec_map j)) (\<lambda>value.
        bindE (usage_members source value) (\<lambda>value'.
        let raw = entry ''usage'' value' in
        if raw_absent raw then Inr (no_usage, None)
        else bindE (decode_usage source (the raw)) (\<lambda>u. Inr (u, raw))))))"

definition with_total :: "usage \<Rightarrow> usage" where
  "with_total u = (if total_tokens u = None then u\<lparr>total_tokens := total_of u\<rparr> else u)"

definition usage_event :: "instant \<Rightarrow> string \<Rightarrow> sse_event \<Rightarrow> usage \<Rightarrow> go_error + usage" where
  "usage_event now source event result =
     (let data = trim_space (sse_data event) in
      if data \<noteq> [] \<and> data \<noteq> ''[DONE]''
      then bindE (extractDocumentUsage now (sse_data event) source) (\<lambda>(u, _). Inr (mergeExtractedUsage result u))
      else Inr result)"

definition ExtractUsage :: "instant \<Rightarrow> string \<Rightarrow> string \<Rightarrow> bool \<Rightarrow> go_error + usage \<times> string" where
  "ExtractUsage now body source stream =
     (if \<not> stream then
        bindE (extractDocumentUsage now body source) (\<lambda>(u, raw). Inr (with_total u, raw_text raw))
      else
        bindE (foldE (usage_event now source) (fst (read_all EndOfFile body)) no_usage) (\<lambda>result.
        let result' = with_total result in
        if \<not> usagePresent result' then Inr (no_usage, [])
        else Inr (result', print_json (marshal (GMap (usageMap result'))))))"

end
