(* ===== verification/UsageLaws.thy ===== *)
theory UsageLaws
  imports UsageExtract
begin

text \<open>
  The two ways in which the program reads the usage of a document agree: as a part of the answer
  (\<open>DecodeResponse\<close>) and for the request log (\<open>ExtractUsage\<close>).
\<close>

text \<open>A member that occurs at most once up to letter case, under exactly this name.\<close>

definition plain_member :: "string \<Rightarrow> members \<Rightarrow> bool" where
  "plain_member k kvs \<longleftrightarrow> fields_of k kvs = (case entry k kvs of None \<Rightarrow> [] | Some j \<Rightarrow> [j])"

lemma f_struct_plain:
  assumes "plain_member k kvs" and "f_struct dec k kvs = (x, True)"
  shows "if raw_absent (entry k kvs) then dec [] = (x, True) else dec_struct dec (the (entry k kvs)) = (x, True)"
proof (cases "entry k kvs")
  case None
  then show ?thesis using assms by (simp add: plain_member_def f_struct_def case_prod_unfold Let_def prod_eq_iff)
next
  case (Some j)
  then show ?thesis using assms
    by (cases j) (auto simp: plain_member_def f_struct_def dec_struct_def case_prod_unfold Let_def prod_eq_iff raw_absent_def)
qed

lemma usage_structs_empty:
  "chat_usage_struct [] = (no_usage, True)" "responses_usage_struct [] = (no_usage, True)"
  "messages_stream_usage_struct [] = (no_usage, True)" "messages_usage_struct [] = (no_usage, True)"
  by (simp_all add: chat_usage_struct_def responses_usage_struct_def messages_stream_usage_struct_def
      messages_usage_struct_def field_def fields_of_def f_struct_def no_usage_def)

lemma messages_usage_without_thinking:
  "messages_usage_struct kvs = (u, True) \<Longrightarrow> messages_stream_usage_struct kvs = (u\<lparr>reasoning_tokens := None\<rparr>, True)"
proof -
  assume u: "messages_usage_struct kvs = (u, True)"
  obtain v ok where v: "messages_stream_usage_struct kvs = (v, ok)" by (metis surj_pair)
  have "reasoning_tokens v = None"
    using v by (auto simp: messages_stream_usage_struct_def Let_def case_prod_unfold)
  with u v show ?thesis by (auto simp: messages_usage_struct_def Let_def case_prod_unfold)
qed

definition answer_usage :: "string \<Rightarrow> members \<Rightarrow> usage decoded" where
  "answer_usage p kvs =
     (if p = Chat then f_struct chat_usage_struct ''usage'' kvs
      else if p = Responses then f_struct responses_usage_struct ''usage'' kvs
      else f_struct messages_usage_struct ''usage'' kvs)"

lemma DecodeResponse_usage:
  assumes "parse_json body = Some (JObj kvs)" and "p \<in> {Chat, Responses, Messages}" and "DecodeResponse body p = Inr r"
  shows "\<exists>u. answer_usage p kvs = (u, True) \<and> resp_usage r = (if p = Messages then u\<lparr>total_tokens := total_of u\<rparr> else u)"
proof -
  have body: "unmarshal_text body = Inr (JObj kvs)" by (simp add: unmarshal_text_def assms(1))
  have names: "Chat \<noteq> Responses" "Chat \<noteq> Messages" "Responses \<noteq> Messages" by (simp_all add: Chat_def Responses_def Messages_def)
  consider "p = Chat" | "p = Responses" | "p = Messages" using assms(2) by blast
  then show ?thesis
  proof cases
    case 1
    then have "decodeChatResponse (JObj kvs) = Inr r" using assms(3) body by (simp add: DecodeResponse_def)
    then show ?thesis using 1 names
      by (auto simp: decodeChatResponse_def answer_usage_def bindE_eq_Inr okE_eq_Inr chat_response_struct_def
          case_prod_unfold Let_def prod_eq_iff split: list.splits)
  next
    case 2
    then have "decodeResponsesResponse (JObj kvs) = Inr r" using assms(3) body names by (simp add: DecodeResponse_def)
    then show ?thesis using 2 names
      by (auto simp: decodeResponsesResponse_def answer_usage_def bindE_eq_Inr okE_eq_Inr responses_response_struct_def
          case_prod_unfold Let_def prod_eq_iff)
  next
    case 3
    then have "decodeMessagesResponse (JObj kvs) = Inr r" using assms(3) body names by (simp add: DecodeResponse_def)
    then show ?thesis using 3 names
      by (auto simp: decodeMessagesResponse_def answer_usage_def bindE_eq_Inr okE_eq_Inr messages_response_struct_def
          case_prod_unfold Let_def prod_eq_iff)
  qed
qed

lemma extract_plain:
  assumes "parse_json body = Some (JObj kvs)" and "p \<noteq> Antigravity"
    and "\<And>n. inner_member p = Some n \<Longrightarrow> entry n kvs = None"
  shows "extractDocumentUsage now body p =
    (if raw_absent (entry ''usage'' kvs) then Inr (no_usage, None)
     else bindE (decode_usage p (the (entry ''usage'' kvs))) (\<lambda>u. Inr (u, entry ''usage'' kvs)))"
proof -
  have "unmarshal_text body = Inr (JObj kvs)" by (simp add: unmarshal_text_def assms(1))
  moreover have "usage_members p kvs = Inr kvs"
    using assms(3) by (auto simp: usage_members_def split: option.splits)
  ultimately show ?thesis using assms(2) by (simp add: extractDocumentUsage_def Let_def)
qed

lemma extracted_document:
  assumes "parse_json body = Some (JObj kvs)" and "p \<in> {Chat, Responses, Messages}" and "plain_member ''usage'' kvs"
    and "\<And>n. inner_member p = Some n \<Longrightarrow> entry n kvs = None" and "answer_usage p kvs = (u, True)"
  shows "\<exists>raw. extractDocumentUsage now body p = Inr (if p = Messages then u\<lparr>reasoning_tokens := None\<rparr> else u, raw)"
proof -
  have names: "Chat \<noteq> Responses" "Chat \<noteq> Messages" "Responses \<noteq> Messages" "p \<noteq> Antigravity"
    using assms(2) by (auto simp: Chat_def Responses_def Messages_def Antigravity_def)
  note ex = extract_plain [OF assms(1) names(4) assms(4), of now]
  define S where "S = (if p = Chat then chat_usage_struct else if p = Responses then responses_usage_struct else messages_usage_struct)"
  have "f_struct S ''usage'' kvs = (u, True)" using assms(5) by (simp add: answer_usage_def S_def split: if_splits)
  note f = f_struct_plain [OF assms(3) this]
  show ?thesis
  proof (cases "raw_absent (entry ''usage'' kvs)")
    case True
    with f have "S [] = (u, True)" by simp
    then have "u = no_usage" by (simp add: S_def usage_structs_empty split: if_splits)
    with ex True show ?thesis by (simp add: no_usage_def)
  next
    case False
    obtain j where j: "entry ''usage'' kvs = Some j" using False by (cases "entry ''usage'' kvs") auto
    with f False have s: "dec_struct S j = (u, True)" by simp
    have "decode_usage p j = Inr (if p = Messages then u\<lparr>reasoning_tokens := None\<rparr> else u)"
    proof (cases "p = Messages")
      case True
      then have "dec_struct messages_stream_usage_struct j = (u\<lparr>reasoning_tokens := None\<rparr>, True)"
        using s names messages_usage_without_thinking
        by (auto simp: S_def dec_struct_def case_prod_unfold Let_def prod_eq_iff)
      with True names show ?thesis by (simp add: decode_usage_def)
    next
      case False
      with s assms(2) names show ?thesis by (auto simp: decode_usage_def S_def split: if_splits)
    qed
    with ex False j show ?thesis by simp
  qed
qed

end
