(* ===== verification/GoStrings.thy ===== *)
theory GoStrings
  imports GoText
begin

text \<open>More of package \<^verbatim>\<open>strings\<close>: searching a text.\<close>

fun contains_text :: "string \<Rightarrow> string \<Rightarrow> bool" where
  "contains_text [] sub \<longleftrightarrow> sub = []"
| "contains_text (c # s) sub \<longleftrightarrow> has_prefix (c # s) sub \<or> contains_text s sub"

lemma contains_text_iff: "contains_text s sub \<longleftrightarrow> (\<exists>a b. s = a @ sub @ b)"
proof (induction s)
  case Nil
  then show ?case by auto
next
  case (Cons c s)
  have "(\<exists>a b. c # s = a @ sub @ b) \<longleftrightarrow> (\<exists>b. c # s = sub @ b) \<or> (\<exists>a b. s = a @ sub @ b)" (is "?l \<longleftrightarrow> ?r")
  proof
    assume ?l
    then obtain a b where "c # s = a @ sub @ b" by blast
    then show ?r by (cases a) auto
  next
    assume ?r
    then show ?l by (metis append.left_neutral append_Cons)
  qed
  then show ?case using Cons by (simp add: has_prefix_iff)
qed

text \<open>The position of the last element with a property.\<close>

definition last_index :: "('a \<Rightarrow> bool) \<Rightarrow> 'a list \<Rightarrow> nat option" where
  "last_index p xs = (case dropWhile (\<lambda>x. \<not> p x) (rev xs) of [] \<Rightarrow> None | _ # ys \<Rightarrow> Some (length ys))"

lemma last_index_Nil [simp]: "last_index p [] = None"
  by (simp add: last_index_def)

lemma last_index_snoc [simp]:
  "last_index p (xs @ [x]) = (if p x then Some (length xs) else last_index p xs)"
  by (simp add: last_index_def)

lemma last_index_None: "last_index p xs = None \<longleftrightarrow> (\<forall>x \<in> set xs. \<not> p x)"
  by (induction xs rule: rev_induct) auto

lemma last_index_Some:
  "last_index p xs = Some i \<Longrightarrow> i < length xs \<and> p (xs ! i) \<and> (\<forall>j. i < j \<longrightarrow> j < length xs \<longrightarrow> \<not> p (xs ! j))"
proof (induction xs rule: rev_induct)
  case Nil
  then show ?case by simp
next
  case (snoc x xs)
  then show ?case by (auto simp: nth_append less_Suc_eq split: if_splits)
qed

end
