(* ===== verification/StreamSummary.thy ===== *)
theory StreamSummary
  imports StreamDecode GoStrings
begin

text \<open>
  The summary of a recorded stream for the request log (internal/protocol/stream_summary.go).
  The warnings are constructors for the texts of the code; decoding goes on after an event that
  cannot be decoded, with the decoder as that event left it.
\<close>

datatype summary_warning =
    EmptyBody
  | UnsupportedProtocol string
  | NotServerSentEvents
  | EventNotDecoded nat go_error
  | NothingRecognized
  | NotEnded
  | ToolNeverStarted string
  | RedactedThinking
  | ThinkingSignature

record summary_block =
  sm_type :: string
  sm_index :: int
  sm_content :: string
  sm_call_id :: string
  sm_name :: string
  sm_arguments :: string
  sm_valid :: bool
  sm_complete :: bool

definition new_block :: "string \<Rightarrow> int \<Rightarrow> string \<Rightarrow> string \<Rightarrow> summary_block" where
  "new_block kind index call name =
     \<lparr>sm_type = kind, sm_index = index, sm_content = [], sm_call_id = call, sm_name = name, sm_arguments = [],
      sm_valid = False, sm_complete = False\<rparr>"

record stream_summary =
  su_status :: string
  su_completed :: bool
  su_stop :: "string option"
  su_blocks :: "summary_block list"
  su_warnings :: "summary_warning list"

definition new_summary :: stream_summary where
  "new_summary = \<lparr>su_status = ''unavailable'', su_completed = False, su_stop = None, su_blocks = [], su_warnings = []\<rparr>"

record summary_builder =
  bu_result :: stream_summary
  bu_recognized :: bool

definition looksLikeSSE :: "string \<Rightarrow> bool" where
  "looksLikeSSE body \<longleftrightarrow> has_prefix body ''data:'' \<or> contains_text body (LF # ''data:'') \<or>
     has_prefix body ''event:'' \<or> contains_text body (LF # ''event:'')"

definition validStreamProtocol :: "string \<Rightarrow> bool" where
  "validStreamProtocol source \<longleftrightarrow> source \<in> {Chat, Responses, Messages, Antigravity}"

section \<open>Blocks\<close>

text \<open>Change the last block with a property, or a new one behind all others.\<close>

definition update_last ::
    "(summary_block \<Rightarrow> bool) \<Rightarrow> (summary_block \<Rightarrow> summary_block) \<Rightarrow> summary_block \<Rightarrow> summary_block list \<Rightarrow> summary_block list" where
  "update_last p f new blocks = (case last_index p blocks of
       Some i \<Rightarrow> blocks[i := f (blocks ! i)]
     | None \<Rightarrow> blocks @ [f new])"

definition is_block :: "string \<Rightarrow> int \<Rightarrow> summary_block \<Rightarrow> bool" where
  "is_block kind index b \<longleftrightarrow> sm_type b = kind \<and> sm_index b = index"

definition is_tool :: "int \<Rightarrow> string \<Rightarrow> summary_block \<Rightarrow> bool" where
  "is_tool index call b \<longleftrightarrow> sm_type b = ''tool_call'' \<and> sm_index b = index \<and> \<not> sm_complete b \<and> (call = [] \<or> sm_call_id b = call)"

definition add_content :: "string \<Rightarrow> summary_block \<Rightarrow> summary_block" where
  "add_content delta b = b\<lparr>sm_content := sm_content b @ delta\<rparr>"

definition add_arguments :: "string \<Rightarrow> summary_block \<Rightarrow> summary_block" where
  "add_arguments delta b = b\<lparr>sm_arguments := sm_arguments b @ delta\<rparr>"

definition add_warning :: "summary_warning \<Rightarrow> stream_summary \<Rightarrow> stream_summary" where
  "add_warning w s = s\<lparr>su_warnings := su_warnings s @ [w]\<rparr>"

definition summary_add :: "stream_event \<Rightarrow> stream_summary \<Rightarrow> stream_summary" where
  "summary_add event s = (case event of
       StreamText index delta \<Rightarrow>
         s\<lparr>su_blocks := update_last (is_block ''text'' index) (add_content delta) (new_block ''text'' index [] []) (su_blocks s)\<rparr>
     | StreamReasoning index delta \<Rightarrow>
         s\<lparr>su_blocks := update_last (is_block ''reasoning'' index) (add_content delta) (new_block ''reasoning'' index [] []) (su_blocks s)\<rparr>
     | StreamToolStart index i name \<Rightarrow> s\<lparr>su_blocks := su_blocks s @ [new_block ''tool_call'' index i name]\<rparr>
     | StreamToolDelta index i delta \<Rightarrow>
         s\<lparr>su_blocks := update_last (is_tool index i) (add_arguments delta) (new_block ''tool_call'' index i []) (su_blocks s)\<rparr>
     | StreamToolEnd index i \<Rightarrow>
         (case last_index (is_tool index i) (su_blocks s) of
            None \<Rightarrow> add_warning (ToolNeverStarted i) s
          | Some k \<Rightarrow> s\<lparr>su_blocks := (su_blocks s)[k := (su_blocks s ! k)\<lparr>sm_complete := True\<rparr>]\<rparr>)
     | StreamFinish reason \<Rightarrow> if reason \<noteq> [] then s\<lparr>su_stop := Some reason\<rparr> else s
     | StreamDone \<Rightarrow> s\<lparr>su_completed := True\<rparr>
     | _ \<Rightarrow> s)"

section \<open>Warnings\<close>

definition warn :: "summary_warning \<Rightarrow> stream_summary \<Rightarrow> stream_summary" where
  "warn w s = (if w \<in> set (su_warnings s) then s else add_warning w s)"

definition protected_struct :: "members \<Rightarrow> (string \<times> string \<times> string) decoded" where
  "protected_struct kvs =
     (let (t, ok1) = f_string ''type'' kvs; (block, ok2) = f_struct (f_string ''type'') ''content_block'' kvs;
          (delta, ok3) = f_struct (f_string ''type'') ''delta'' kvs
      in ((t, block, delta), ok1 \<and> ok2 \<and> ok3))"

definition warnProtectedContent :: "sse_event \<Rightarrow> stream_summary \<Rightarrow> stream_summary" where
  "warnProtectedContent event s =
     (case bindE (unmarshal_text (sse_data event)) (\<lambda>j. okE (dec_struct protected_struct j)) of
        Inl _ \<Rightarrow> s
      | Inr (t, block, delta) \<Rightarrow>
          (let kind = (if t = [] then sse_name event else t);
               s1 = (if kind = ''content_block_start'' \<and> block = ''redacted_thinking'' then warn RedactedThinking s else s)
           in if kind = ''content_block_delta'' \<and> delta = ''signature_delta'' then warn ThinkingSignature s1 else s1))"

section \<open>The loop over the events\<close>

record summary_loop =
  lp_decoder :: stream_decoder
  lp_builder :: summary_builder
  lp_number :: nat

definition summary_event :: "(nat \<Rightarrow> string) \<Rightarrow> instant \<Rightarrow> sse_event \<Rightarrow> summary_loop \<Rightarrow> summary_loop" where
  "summary_event rand now event s =
     (if sse_raw event \<noteq> [] \<and> (trim_space (sse_data event) \<noteq> [] \<or> sse_name event \<noteq> []) then
        let n = lp_number s + 1; b = lp_builder s; r = warnProtectedContent event (bu_result b);
            (decoded, d) = Decode rand now event (lp_decoder s);
            b' = (case decoded of
                Inl e \<Rightarrow> b\<lparr>bu_result := add_warning (EventNotDecoded n e) r\<rparr>
              | Inr evs \<Rightarrow> if evs = [] then b\<lparr>bu_result := r\<rparr>
                  else \<lparr>bu_result = fold summary_add evs r, bu_recognized = True\<rparr>)
        in \<lparr>lp_decoder = d, lp_builder = b', lp_number = n\<rparr>
      else s)"

definition check_arguments :: "summary_block \<Rightarrow> summary_block" where
  "check_arguments b =
     (if sm_type b \<noteq> ''tool_call'' then b
      else b\<lparr>sm_valid := (sm_arguments b = [] \<or> parse_json (sm_arguments b) \<noteq> None)\<rparr>)"

definition summary_finish :: "summary_builder \<Rightarrow> stream_summary" where
  "summary_finish b =
     (let s = bu_result b in
      if \<not> bu_recognized b then (if su_warnings s = [] then add_warning NothingRecognized s else s)
      else (let s1 = (if \<not> su_completed s then add_warning NotEnded s else s);
                s2 = s1\<lparr>su_blocks := map check_arguments (su_blocks s1)\<rparr>
            in s2\<lparr>su_status := if su_warnings s2 = [] then ''ok'' else ''partial''\<rparr>))"

definition SummarizeStream :: "(nat \<Rightarrow> string) \<Rightarrow> instant \<Rightarrow> string \<Rightarrow> string \<Rightarrow> stream_summary" where
  "SummarizeStream rand now body source =
     (if trim_space body = [] then add_warning EmptyBody new_summary
      else if \<not> validStreamProtocol source then add_warning (UnsupportedProtocol source) new_summary
      else if \<not> looksLikeSSE body then add_warning NotServerSentEvents new_summary
      else summary_finish (lp_builder (fold (summary_event rand now) (fst (read_all EndOfFile body))
             \<lparr>lp_decoder = newStreamDecoder source, lp_builder = \<lparr>bu_result = new_summary, bu_recognized = False\<rparr>,
              lp_number = 0\<rparr>)))"

end
