(* ===== verification/SummaryLaws.thy ===== *)
theory SummaryLaws
  imports StreamSummary StreamConvert
begin

text \<open>
  What the summary of a recorded stream says about the stream: its blocks hold the content of the
  decoded events, the arguments of each tool included, and its status is \<^verbatim>\<open>ok\<close> only if every event was decoded and the stream ended.
\<close>

section \<open>Content of the blocks\<close>

definition content_of :: "string \<Rightarrow> int \<Rightarrow> summary_block list \<Rightarrow> string" where
  "content_of kind index blocks = concat (map sm_content (filter (is_block kind index) blocks))"

definition single :: "string \<Rightarrow> int \<Rightarrow> summary_block list \<Rightarrow> bool" where
  "single kind index blocks \<longleftrightarrow> length (filter (is_block kind index) blocks) \<le> 1"

lemma filter_update_other:
  assumes "i < length xs" and "\<not> p (xs ! i)" and "\<not> p y"
  shows "filter p (xs[i := y]) = filter p xs"
  using assms by (subst (2) id_take_nth_drop [OF assms(1)]) (simp add: upd_conv_take_nth_drop)

lemma filter_update_same:
  assumes "i < length xs" and "p (xs ! i)" and "p y"
  shows "filter p (xs[i := y]) = filter p (take i xs) @ y # filter p (drop (Suc i) xs)"
    and "filter p xs = filter p (take i xs) @ xs ! i # filter p (drop (Suc i) xs)"
proof -
  show "filter p (xs[i := y]) = filter p (take i xs) @ y # filter p (drop (Suc i) xs)"
    using assms by (simp add: upd_conv_take_nth_drop)
  have "filter p xs = filter p (take i xs @ xs ! i # drop (Suc i) xs)"
    using id_take_nth_drop [OF assms(1)] by simp
  then show "filter p xs = filter p (take i xs) @ xs ! i # filter p (drop (Suc i) xs)"
    using assms(2) by simp
qed

lemma add_content_block [simp]:
  "is_block kind index (add_content delta b) = is_block kind index b" "sm_content (add_content delta b) = sm_content b @ delta"
  "is_block kind index (new_block kind' index' c n) \<longleftrightarrow> kind' = kind \<and> index' = index" "sm_content (new_block kind' index' c n) = []"
  by (simp_all add: is_block_def add_content_def new_block_def)

lemma update_last_same:
  assumes "single kind index blocks"
  shows "content_of kind index (update_last (is_block kind index) (add_content delta) (new_block kind index [] []) blocks) =
      content_of kind index blocks @ delta"
    and "single kind index (update_last (is_block kind index) (add_content delta) (new_block kind index [] []) blocks)"
proof -
  let ?p = "is_block kind index"
  have "content_of kind index (update_last ?p (add_content delta) (new_block kind index [] []) blocks) =
      content_of kind index blocks @ delta \<and> single kind index (update_last ?p (add_content delta) (new_block kind index [] []) blocks)"
  proof (cases "last_index ?p blocks")
    case None
    then have "filter ?p blocks = []" by (simp add: last_index_None filter_empty_conv)
    with None show ?thesis by (simp add: update_last_def content_of_def single_def)
  next
    case (Some i)
    then have i: "i < length blocks" "?p (blocks ! i)" using last_index_Some by blast+
    note f = filter_update_same [where p = ?p, OF i, of "add_content delta (blocks ! i)"]
    have "filter ?p (take i blocks) = []" "filter ?p (drop (Suc i) blocks) = []"
      using assms f(2) i(2) by (simp_all add: single_def del: filter_empty_conv)
    with f i Some show ?thesis by (simp add: update_last_def content_of_def single_def)
  qed
  then show "content_of kind index (update_last ?p (add_content delta) (new_block kind index [] []) blocks) =
      content_of kind index blocks @ delta"
    and "single kind index (update_last ?p (add_content delta) (new_block kind index [] []) blocks)" by simp_all
qed

text \<open>A change of a block that is not a block of this kind and index.\<close>

lemma update_last_other:
  assumes "\<And>b. p b \<Longrightarrow> \<not> is_block kind index b" and "\<And>b. \<not> is_block kind index b \<Longrightarrow> \<not> is_block kind index (f b)"
    and "\<not> is_block kind index new"
  shows "filter (is_block kind index) (update_last p f new blocks) = filter (is_block kind index) blocks"
  using assms last_index_Some [of p blocks]
  by (auto simp: update_last_def filter_update_other split: option.splits)

text \<open>What the events contribute to a kind of block.\<close>

fun deltas :: "string \<Rightarrow> int \<Rightarrow> stream_event \<Rightarrow> string" where
  "deltas kind index (StreamText i delta) = (if kind = ''text'' \<and> i = index then delta else [])"
| "deltas kind index (StreamReasoning i delta) = (if kind = ''reasoning'' \<and> i = index then delta else [])"
| "deltas kind index _ = []"

lemma summary_add_content:
  assumes "kind \<in> {''text'', ''reasoning''}" and "single kind index (su_blocks s)"
  shows "content_of kind index (su_blocks (summary_add ev s)) = content_of kind index (su_blocks s) @ deltas kind index ev \<and>
    single kind index (su_blocks (summary_add ev s))"
proof -
  have kind: "kind \<noteq> ''tool_call''" using assms(1) by auto
  have same: "?thesis" if "filter (is_block kind index) (su_blocks (summary_add ev s)) = filter (is_block kind index) (su_blocks s)"
    "deltas kind index ev = []"
    using that assms(2) by (simp add: content_of_def single_def)
  show ?thesis
  proof (cases ev)
    case (StreamText i delta)
    show ?thesis
    proof (cases "kind = ''text'' \<and> i = index")
      case True
      then show ?thesis using update_last_same [OF assms(2), of delta] StreamText by (simp add: summary_add_def)
    next
      case False
      then show ?thesis using StreamText
        by (intro same) (auto simp: summary_add_def is_block_def new_block_def add_content_def intro!: update_last_other)
    qed
  next
    case (StreamReasoning i delta)
    show ?thesis
    proof (cases "kind = ''reasoning'' \<and> i = index")
      case True
      then show ?thesis using update_last_same [OF assms(2), of delta] StreamReasoning by (simp add: summary_add_def)
    next
      case False
      then show ?thesis using StreamReasoning
        by (intro same) (auto simp: summary_add_def is_block_def new_block_def add_content_def intro!: update_last_other)
    qed
  next
    case (StreamToolStart i c n)
    then show ?thesis using kind by (intro same) (simp_all add: summary_add_def)
  next
    case (StreamToolDelta i c delta)
    then show ?thesis using kind
      by (intro same) (auto simp: summary_add_def is_block_def is_tool_def new_block_def add_arguments_def intro!: update_last_other)
  next
    case (StreamToolEnd i c)
    have "filter (is_block kind index) (xs[k := (xs ! k)\<lparr>sm_complete := True\<rparr>]) = filter (is_block kind index) xs"
      if "last_index (is_tool i c) xs = Some k" for xs k
      using last_index_Some [OF that] kind by (intro filter_update_other) (auto simp: is_tool_def is_block_def)
    with StreamToolEnd show ?thesis
      by (intro same) (simp_all add: summary_add_def add_warning_def split: option.split)
  qed (use same in \<open>simp_all add: summary_add_def\<close>)
qed

lemma fold_summary_content:
  assumes "kind \<in> {''text'', ''reasoning''}"
  shows "single kind index (su_blocks s) \<Longrightarrow>
    content_of kind index (su_blocks (fold summary_add evs s)) = content_of kind index (su_blocks s) @ concat (map (deltas kind index) evs) \<and>
    single kind index (su_blocks (fold summary_add evs s))"
proof (induction evs arbitrary: s)
  case Nil
  then show ?case by simp
next
  case (Cons ev evs)
  then show ?case using summary_add_content [OF assms Cons.prems, of ev] by simp
qed

section \<open>Arguments of tool calls\<close>

text \<open>
  The owner of an event is the position of the block it belongs to: the block of a tool call has its
  index, its call id if the event has one, and exactly the fragments of the events it owns.
\<close>

definition tool_fragment :: "stream_event \<Rightarrow> string" where
  "tool_fragment ev = (case ev of StreamToolDelta i c delta \<Rightarrow> delta | _ \<Rightarrow> [])"

definition starts_tool :: "stream_event \<Rightarrow> bool" where
  "starts_tool ev \<longleftrightarrow> (case ev of StreamToolStart i c n \<Rightarrow> True | _ \<Rightarrow> False)"

definition tool_event :: "stream_event \<Rightarrow> bool" where
  "tool_event ev \<longleftrightarrow> (case ev of StreamToolStart i c n \<Rightarrow> True | StreamToolDelta i c delta \<Rightarrow> True | _ \<Rightarrow> False)"

definition belongs :: "stream_event \<Rightarrow> summary_block \<Rightarrow> bool" where
  "belongs ev b \<longleftrightarrow> (case ev of
       StreamToolStart i c n \<Rightarrow> sm_type b = ''tool_call'' \<and> sm_index b = i \<and> sm_call_id b = c \<and> sm_name b = n
     | StreamToolDelta i c delta \<Rightarrow> sm_type b = ''tool_call'' \<and> sm_index b = i \<and> (c = [] \<or> sm_call_id b = c)
     | _ \<Rightarrow> True)"

definition arguments_shown :: "stream_event list \<Rightarrow> nat list \<Rightarrow> summary_block list \<Rightarrow> bool" where
  "arguments_shown evs owners blocks \<longleftrightarrow> length owners = length evs
     \<and> (\<forall>k < length blocks. sm_arguments (blocks ! k) = concat (map (\<lambda>(ev, j). if j = k then tool_fragment ev else []) (zip evs owners)))
     \<and> (\<forall>(ev, j) \<in> set (zip evs owners). tool_event ev \<longrightarrow> j < length blocks \<and> belongs ev (blocks ! j))
     \<and> distinct (map snd (filter (starts_tool \<circ> fst) (zip evs owners)))"

definition same_identity :: "summary_block \<Rightarrow> summary_block \<Rightarrow> bool" where
  "same_identity b b' \<longleftrightarrow> sm_type b' = sm_type b \<and> sm_index b' = sm_index b \<and> sm_call_id b' = sm_call_id b \<and> sm_name b' = sm_name b"

lemma belongs_same: "same_identity b b' \<Longrightarrow> belongs ev b' = belongs ev b"
  by (auto simp: same_identity_def belongs_def split: stream_event.splits)

lemma fragment_unless_tool: "\<not> tool_event ev \<Longrightarrow> tool_fragment ev = []"
  by (auto simp: tool_event_def tool_fragment_def split: stream_event.splits)

lemma shown_change:
  assumes "arguments_shown evs owners blocks" and "i < length blocks" and "same_identity (blocks ! i) b'"
    and "sm_arguments b' = sm_arguments (blocks ! i) @ tool_fragment ev" and "tool_event ev \<Longrightarrow> belongs ev b'" and "\<not> starts_tool ev"
  shows "arguments_shown (evs @ [ev]) (owners @ [i]) (blocks[i := b'])"
proof -
  have same: "belongs e b' = belongs e (blocks ! i)" for e
    by (rule belongs_same [OF assms(3)])
  with assms(1,2,4-6) show ?thesis
    unfolding arguments_shown_def by (auto simp: nth_list_update split: prod.splits)
qed

lemma shown_append:
  assumes "arguments_shown evs owners blocks" and "sm_arguments b' = tool_fragment ev" and "tool_event ev \<Longrightarrow> belongs ev b'"
  shows "arguments_shown (evs @ [ev]) (owners @ [length blocks]) (blocks @ [b'])"
proof -
  have fresh: "(if j = length blocks then tool_fragment e else []) = []" if "(e, j) \<in> set (zip evs owners)" for e j
    using assms(1) that fragment_unless_tool [of e] by (auto simp: arguments_shown_def)
  then have none: "concat (map (\<lambda>(ev, j). if j = length blocks then tool_fragment ev else []) (zip evs owners)) = []"
    by (auto simp: concat_eq_Nil_conv)
  have "length blocks \<notin> snd ` set (filter (starts_tool \<circ> fst) (zip evs owners))"
    using assms(1) by (fastforce simp: arguments_shown_def starts_tool_def tool_event_def split: stream_event.splits)
  with assms none show ?thesis
    unfolding arguments_shown_def by (auto simp: nth_append less_Suc_eq)
qed

lemma shown_nothing:
  "arguments_shown evs owners blocks \<Longrightarrow> \<not> tool_event ev \<Longrightarrow> arguments_shown (evs @ [ev]) (owners @ [0]) blocks"
  using fragment_unless_tool [of ev]
  by (auto simp: arguments_shown_def starts_tool_def tool_event_def split: stream_event.splits)

lemma shown_update_last:
  assumes "arguments_shown evs owners blocks" and "\<not> starts_tool ev" and "\<And>b. same_identity b (f b)"
    and "\<And>b. sm_arguments (f b) = sm_arguments b @ tool_fragment ev" and "sm_arguments new = []"
    and "\<And>b. p b \<Longrightarrow> belongs ev b" and "belongs ev new"
  shows "\<exists>owners. arguments_shown (evs @ [ev]) owners (update_last p f new blocks)"
proof (cases "last_index p blocks")
  case None
  have "belongs ev (f new)" using belongs_same [OF assms(3)] assms(7) by simp
  with shown_append [OF assms(1), of "f new" ev] assms(4,5) None show ?thesis by (auto simp: update_last_def)
next
  case (Some i)
  then have i: "i < length blocks" "p (blocks ! i)" using last_index_Some by blast+
  have "belongs ev (f (blocks ! i))" using belongs_same [OF assms(3)] assms(6) i(2) by simp
  with shown_change [OF assms(1) i(1) assms(3,4)] assms(2) Some show ?thesis by (auto simp: update_last_def)
qed

lemma summary_add_shown:
  assumes "arguments_shown evs owners (su_blocks s)"
  shows "\<exists>owners. arguments_shown (evs @ [ev]) owners (su_blocks (summary_add ev s))"
proof (cases ev)
  case (StreamToolStart i c n)
  with shown_append [OF assms, of "new_block ''tool_call'' i c n" ev] show ?thesis
    by (auto simp: summary_add_def new_block_def tool_fragment_def belongs_def)
next
  case (StreamToolEnd i c)
  show ?thesis
  proof (cases "last_index (is_tool i c) (su_blocks s)")
    case None
    with shown_nothing [OF assms, of ev] StreamToolEnd show ?thesis
      by (auto simp: summary_add_def add_warning_def tool_event_def)
  next
    case (Some k)
    then have "k < length (su_blocks s)" using last_index_Some by blast
    from shown_change [OF assms this, of "(su_blocks s ! k)\<lparr>sm_complete := True\<rparr>" ev] Some StreamToolEnd show ?thesis
      by (auto simp: summary_add_def same_identity_def tool_fragment_def tool_event_def starts_tool_def)
  qed
next
  case (StreamText i delta)
  then show ?thesis
    unfolding summary_add_def
    by (auto intro!: shown_update_last [OF assms] simp: starts_tool_def same_identity_def add_content_def tool_fragment_def new_block_def belongs_def)
next
  case (StreamReasoning i delta)
  then show ?thesis
    unfolding summary_add_def
    by (auto intro!: shown_update_last [OF assms] simp: starts_tool_def same_identity_def add_content_def tool_fragment_def new_block_def belongs_def)
next
  case (StreamToolDelta i c delta)
  then show ?thesis
    unfolding summary_add_def
    by (auto intro!: shown_update_last [OF assms] simp: starts_tool_def same_identity_def add_arguments_def tool_fragment_def new_block_def belongs_def is_tool_def)
qed (use shown_nothing [OF assms, of ev] in \<open>auto simp: summary_add_def tool_event_def\<close>)

lemma fold_summary_shown: "su_blocks s = [] \<Longrightarrow> \<exists>owners. arguments_shown evs owners (su_blocks (fold summary_add evs s))"
proof (induction evs rule: rev_induct)
  case (snoc ev evs)
  then show ?case using summary_add_shown by fastforce
qed (simp add: arguments_shown_def)

section \<open>The loop\<close>

lemma warn_keeps [simp]:
  "su_blocks (add_warning w s) = su_blocks s" "su_blocks (warn w s) = su_blocks s" "su_completed (add_warning w s) = su_completed s"
  "su_completed (warn w s) = su_completed s" "su_warnings (add_warning w s) = su_warnings s @ [w]"
  by (simp_all add: warn_def add_warning_def)

lemma warnProtected_keeps [simp]:
  "su_blocks (warnProtectedContent event s) = su_blocks s" "su_completed (warnProtectedContent event s) = su_completed s"
  by (auto simp: warnProtectedContent_def Let_def split: sum.split)

lemma warnings_grow:
  "su_warnings (warn w s) = [] \<Longrightarrow> su_warnings s = []" "su_warnings (warnProtectedContent event s) = [] \<Longrightarrow> su_warnings s = []"
  "su_warnings (summary_add ev s) = [] \<Longrightarrow> su_warnings s = []"
  "su_warnings (fold summary_add evs s) = [] \<Longrightarrow> su_warnings s = []"
proof -
  show warn: "su_warnings (warn w s) = [] \<Longrightarrow> su_warnings s = []" for w s
    by (simp add: warn_def split: if_splits)
  show "su_warnings (warnProtectedContent event s) = [] \<Longrightarrow> su_warnings s = []"
    by (auto simp: warnProtectedContent_def Let_def dest: warn split: sum.splits if_splits)
  show add: "su_warnings (summary_add ev s) = [] \<Longrightarrow> su_warnings s = []" for ev s
    by (cases ev) (simp_all add: summary_add_def split: option.splits if_splits)
  show "su_warnings (fold summary_add evs s) = [] \<Longrightarrow> su_warnings s = []"
    by (induction evs arbitrary: s) (auto dest: add)
qed

lemma summary_completed: "su_completed (fold summary_add evs s) \<longleftrightarrow> su_completed s \<or> StreamDone \<in> set evs"
proof (induction evs arbitrary: s)
  case (Cons ev evs)
  have "su_completed (summary_add ev s) \<longleftrightarrow> su_completed s \<or> ev = StreamDone"
    by (cases ev) (simp_all add: summary_add_def split: option.splits)
  with Cons show ?case by auto
qed simp

lemma summary_blocks_cong: "su_blocks s = su_blocks t \<Longrightarrow> su_blocks (fold summary_add evs s) = su_blocks (fold summary_add evs t)"
proof (induction evs arbitrary: s t)
  case (Cons ev evs)
  have "su_blocks (summary_add ev s) = su_blocks (summary_add ev t)"
    using Cons.prems by (cases ev) (simp_all add: summary_add_def split: option.splits)
  from Cons.IH [OF this] show ?case by simp
qed simp

definition loop_blocks :: "summary_loop \<Rightarrow> summary_block list" where
  "loop_blocks s = su_blocks (bu_result (lp_builder s))"

definition loop_warnings :: "summary_loop \<Rightarrow> summary_warning list" where
  "loop_warnings s = su_warnings (bu_result (lp_builder s))"

definition loop_completed :: "summary_loop \<Rightarrow> bool" where
  "loop_completed s = su_completed (bu_result (lp_builder s))"

text \<open>One event: it is skipped only if there is nothing to decode.\<close>

lemma summary_event_skip:
  assumes "Decode rand now event (lp_decoder s) = (r, d)" and "trim_space (sse_data event) = []"
  shows "r = Inr []" and "d = lp_decoder s"
  using assms by (simp_all add: Decode_def)

lemma summary_event_step:
  assumes dec: "Decode rand now event (lp_decoder s) = (r, d)" and raw: "sse_raw event \<noteq> []"
  shows "lp_decoder (summary_event rand now event s) = d"
    and "r = Inr evs \<Longrightarrow> loop_blocks (summary_event rand now event s) = su_blocks (fold summary_add evs (bu_result (lp_builder s)))"
    and "r = Inr evs \<Longrightarrow> loop_completed (summary_event rand now event s) \<longleftrightarrow> loop_completed s \<or> StreamDone \<in> set evs"
    and "loop_warnings (summary_event rand now event s) = [] \<Longrightarrow> loop_warnings s = [] \<and> (\<exists>evs. r = Inr evs)"
proof -
  let ?s' = "summary_event rand now event s"
  have blocks: "su_blocks (fold summary_add evs (warnProtectedContent event b)) = su_blocks (fold summary_add evs b)" for evs b
    by (rule summary_blocks_cong) simp
  have "lp_decoder ?s' = d \<and>
    (\<forall>evs. r = Inr evs \<longrightarrow> loop_blocks ?s' = su_blocks (fold summary_add evs (bu_result (lp_builder s))) \<and>
      (loop_completed ?s' \<longleftrightarrow> loop_completed s \<or> StreamDone \<in> set evs)) \<and>
    (loop_warnings ?s' = [] \<longrightarrow> loop_warnings s = [] \<and> (\<exists>evs. r = Inr evs))"
  proof (cases "trim_space (sse_data event) \<noteq> [] \<or> sse_name event \<noteq> []")
    case False
    then have "?s' = s" by (simp add: summary_event_def)
    with False summary_event_skip [OF dec] show ?thesis by (simp add: loop_blocks_def)
  next
    case True
    show ?thesis
    proof (cases r)
      case (Inl e)
      then show ?thesis using True raw dec
        by (simp add: summary_event_def Let_def loop_blocks_def loop_completed_def loop_warnings_def)
    next
      case (Inr evs)
      then show ?thesis using True raw dec
        by (auto simp: summary_event_def Let_def loop_blocks_def loop_completed_def loop_warnings_def blocks summary_completed
            dest: warnings_grow)
    qed
  qed
  then show "lp_decoder ?s' = d"
    and "r = Inr evs \<Longrightarrow> loop_blocks ?s' = su_blocks (fold summary_add evs (bu_result (lp_builder s)))"
    and "r = Inr evs \<Longrightarrow> loop_completed ?s' \<longleftrightarrow> loop_completed s \<or> StreamDone \<in> set evs"
    and "loop_warnings ?s' = [] \<Longrightarrow> loop_warnings s = [] \<and> (\<exists>evs. r = Inr evs)"
    by blast+
qed

text \<open>All events.\<close>

fun readable_events :: "(nat \<Rightarrow> string) \<Rightarrow> instant \<Rightarrow> sse_event list \<Rightarrow> stream_decoder \<Rightarrow> stream_event list" where
  "readable_events rand now [] d = []"
| "readable_events rand now (event # events) d =
     (case Decode rand now event d of
        (Inl e, d') \<Rightarrow> readable_events rand now events d'
      | (Inr evs, d') \<Rightarrow> evs @ readable_events rand now events d')"

lemma summary_event_failed:
  assumes "Decode rand now event (lp_decoder s) = (Inl e, d)" and "sse_raw event \<noteq> []"
  shows "loop_blocks (summary_event rand now event s) = loop_blocks s"
  using assms by (simp add: summary_event_def Let_def loop_blocks_def)

lemma summary_loop_blocks:
  "\<forall>event \<in> set ins. sse_raw event \<noteq> [] \<Longrightarrow> su_blocks t = loop_blocks s \<Longrightarrow>
    loop_blocks (fold (summary_event rand now) ins s) = su_blocks (fold summary_add (readable_events rand now ins (lp_decoder s)) t)"
proof (induction ins arbitrary: s t)
  case Nil
  then show ?case by simp
next
  case (Cons event ins)
  obtain r d where dec: "Decode rand now event (lp_decoder s) = (r, d)" by (metis surj_pair)
  have raw: "sse_raw event \<noteq> []" and raws: "\<forall>event \<in> set ins. sse_raw event \<noteq> []" using Cons.prems(1) by simp_all
  let ?s = "summary_event rand now event s"
  note step = summary_event_step [OF dec raw]
  show ?case
  proof (cases r)
    case (Inl e)
    with dec raw Cons.prems(2) have "su_blocks t = loop_blocks ?s" using summary_event_failed by simp
    from Cons.IH [OF raws this] step(1) dec Inl show ?thesis by simp
  next
    case (Inr evs)
    have "su_blocks (fold summary_add evs t) = loop_blocks ?s"
      unfolding step(2) [OF Inr] by (rule summary_blocks_cong) (simp add: Cons.prems(2) loop_blocks_def)
    from Cons.IH [OF raws this] step(1) dec Inr show ?thesis by simp
  qed
qed

lemma loop_warnings_fold: "\<forall>event \<in> set ins. sse_raw event \<noteq> [] \<Longrightarrow>
    loop_warnings (fold (summary_event rand now) ins s) = [] \<Longrightarrow> loop_warnings s = []"
proof (induction ins arbitrary: s)
  case (Cons event ins)
  obtain r d1 where dec: "Decode rand now event (lp_decoder s) = (r, d1)" by (metis surj_pair)
  show ?case using Cons summary_event_step(4) [OF dec] by simp
qed simp

lemma summary_loop_clean:
  "\<forall>event \<in> set ins. sse_raw event \<noteq> [] \<Longrightarrow> loop_warnings (fold (summary_event rand now) ins s) = [] \<Longrightarrow>
   \<exists>evs. decode_all rand now ins (lp_decoder s) = (Inr evs, lp_decoder (fold (summary_event rand now) ins s)) \<and>
    (loop_completed (fold (summary_event rand now) ins s) \<longleftrightarrow> loop_completed s \<or> StreamDone \<in> set evs)"
proof (induction ins arbitrary: s)
  case Nil
  then show ?case by simp
next
  case (Cons event ins)
  obtain r d1 where dec: "Decode rand now event (lp_decoder s) = (r, d1)" by (metis surj_pair)
  have raw: "sse_raw event \<noteq> []" and raws: "\<forall>event \<in> set ins. sse_raw event \<noteq> []" using Cons.prems(1) by simp_all
  let ?s = "summary_event rand now event s"
  have clean: "loop_warnings (fold (summary_event rand now) ins ?s) = []" using Cons.prems(2) by simp
  note step = summary_event_step [OF dec raw]
  obtain evs1 where r: "r = Inr evs1" using step(4) loop_warnings_fold [OF raws clean] by blast
  obtain evs2 where "decode_all rand now ins d1 = (Inr evs2, lp_decoder (fold (summary_event rand now) ins ?s))"
    "loop_completed (fold (summary_event rand now) ins ?s) \<longleftrightarrow> loop_completed ?s \<or> StreamDone \<in> set evs2"
    using Cons.IH [OF raws clean] step(1) by auto
  then show ?case using dec r step(3) [OF r] by auto
qed

lemma read_all_raw: "\<forall>event \<in> set (fst (read_all fin s)). sse_raw event \<noteq> []"
proof (induction fin s rule: read_all.induct)
  case (1 fin s)
  show ?case
  proof (cases "ReadSSEEvent fin s")
    case (Inl e)
    then show ?thesis by (subst read_all.simps) simp
  next
    case (Inr p)
    obtain ev rest where p: "p = (ev, rest)" by (cases p)
    have "sse_raw ev \<noteq> []" using Inr p read_loop_progress [of fin s "[]"] by (simp add: ReadSSEEvent_def)
    with "1" [OF Inr [unfolded p] refl] Inr p show ?thesis
      by (subst read_all.simps) (simp add: case_prod_unfold Let_def)
  qed
qed

lemma finish_content [simp]: "content_of kind index (su_blocks (summary_finish b)) = content_of kind index (su_blocks (bu_result b))"
proof -
  have "filter (is_block kind index) (map check_arguments bs) = map check_arguments (filter (is_block kind index) bs)" for bs
    by (induction bs) (simp_all add: is_block_def check_arguments_def)
  moreover have "sm_content \<circ> check_arguments = sm_content"
    by (simp add: check_arguments_def fun_eq_iff)
  ultimately show ?thesis by (simp add: summary_finish_def content_of_def Let_def)
qed

lemma finish_shown [simp]: "arguments_shown evs owners (su_blocks (summary_finish b)) = arguments_shown evs owners (su_blocks (bu_result b))"
proof -
  have "belongs ev (check_arguments x) = belongs ev x" "sm_arguments (check_arguments x) = sm_arguments x" for ev x
    by (auto simp: check_arguments_def belongs_def split: stream_event.splits)
  then have "arguments_shown evs owners (map check_arguments bs) = arguments_shown evs owners bs" for bs
    by (auto simp: arguments_shown_def)
  then show ?thesis by (simp add: summary_finish_def Let_def add_warning_def)
qed

text \<open>The status is decided at the end only.\<close>

lemma summary_event_status [simp]:
  "su_status (bu_result (lp_builder (summary_event rand now event s))) = su_status (bu_result (lp_builder s))"
proof -
  have warn: "su_status (add_warning w t) = su_status t" "su_status (warn w t) = su_status t" for w t
    by (simp_all add: warn_def add_warning_def)
  have "su_status (summary_add ev t) = su_status t" for ev t
    by (cases ev) (simp_all add: summary_add_def warn split: option.split)
  then have "su_status (fold summary_add evs t) = su_status t" for evs t
    by (induction evs arbitrary: t) simp_all
  moreover have "su_status (warnProtectedContent event t) = su_status t" for t
    by (auto simp: warnProtectedContent_def warn Let_def split: sum.split)
  ultimately show ?thesis
    by (simp add: summary_event_def warn Let_def case_prod_unfold split: sum.split)
qed

end
