(* ===== verification/ConverterSpec.thy ===== *)
theory ConverterSpec
  imports AntigravityLaws UsageLaws SummaryLaws
begin

text \<open>
  What the stream converter, the Antigravity decoder, the usage reader and the stream summary
  promise the gateway.
\<close>

section \<open>Samples\<close>

definition data_event :: "string \<Rightarrow> sse_event" where
  "data_event data = \<lparr>sse_name = [], sse_data = data, sse_raw = data\<rparr>"

definition chat_chunks :: "((nat \<Rightarrow> nat \<Rightarrow> int) \<times> sse_event) list" where
  "chat_chunks = map (\<lambda>data. (\<lambda>_ n. 1000 + int n, data_event data))
     [print_json (JObj [(''id'', JStr ''x''), (''choices'', JArr [JObj [(''delta'', JObj [(''content'', JStr ''hi'')])]])]),
      ''[DONE]'']"

definition chat_to_messages :: stream_converter where
  "chat_to_messages = \<lparr>cv_decoder = newStreamDecoder Chat, cv_encoder = newStreamEncoder ToMessages ''m'' 0\<rparr>"

lemma chat_to_messages_new: "NewStreamConverter 0 Chat Messages ''m'' = Inr chat_to_messages"
  by (simp add: NewStreamConverter_def stream_targets_def chat_to_messages_def Chat_def Messages_def Responses_def)

lemma account_done': "StreamDone \<in> account b ` X \<longleftrightarrow> StreamDone \<in> X"
  using account_done [of b] by (metis (no_types, lifting) imageE image_eqI)

lemma map_single: "map f xs = [y] \<Longrightarrow> x \<in> set xs \<Longrightarrow> f x = y"
  by auto

section \<open>The converter\<close>

text \<open>
  C13. A whole stream through the converter keeps its content: what the client's frames carry is
  the text, reasoning and arguments of the events decoded from the upstream, in order.
\<close>

theorem converted_stream_content:
  assumes "NewStreamConverter created from to model = Inr c0"
    and "convert_all rand now ins (SetChatUsage enabled c0) = (Inr outs, c)"
    and "decode_all rand now (map snd ins) (cv_decoder c0) = (Inr (evs @ [StreamDone]), d)" and "StreamDone \<notin> set evs"
  shows "concat (map frame_pieces (concat (map co_frames outs))) = concat (map (event_pieces (cv_encoder c)) evs)"
proof -
  let ?c0 = "SetChatUsage enabled c0"
  note enc = NewStreamConverter_encoder [OF assms(1), of enabled]
  have "cv_decoder ?c0 = cv_decoder c0" by (simp add: SetChatUsage_def)
  moreover obtain evs' steps where "decode_all rand now (map snd ins) (cv_decoder ?c0) = (Inr evs', cv_decoder c)"
    and steps': "map snd steps = map (account (recomputes ?c0)) evs'"
    and run: "encode_all steps (cv_encoder ?c0) = (concat (map co_frames outs), cv_encoder c)"
    using convert_all_pipeline [OF assms(2) enc(1)] by (elim exE conjE) (rule that)
  ultimately have "evs' = evs @ [StreamDone]" using assms(3) by (simp only: prod.inject sum.inject)
  then have steps: "map snd steps = map (account (recomputes ?c0)) evs @ [StreamDone]"
    using steps' by (simp add: account_def)
  obtain steps' clk where s: "steps = steps' @ [(clk, StreamDone)]" "map snd steps' = map (account (recomputes ?c0)) evs"
    using steps by (cases steps rule: rev_cases) auto
  have "StreamDone \<notin> set (map snd steps')"
    unfolding s(2) using assms(4) by (simp add: account_done')
  note p = stream_pieces [OF enc this, of clk]
  have "map (event_pieces (cv_encoder c)) (map snd steps') = map (event_pieces (cv_encoder c)) evs"
    by (simp only: s(2) map_map comp_def account_pieces)
  with p run show ?thesis by (simp only: s(1) fst_conv snd_conv)
qed

definition chat_run :: "(go_error + converted list) \<times> stream_converter" where
  "chat_run = convert_all (\<lambda>_. ''r'') 0 chat_chunks (SetChatUsage True chat_to_messages)"

lemma chat_run_ok: "convert_all (\<lambda>_. ''r'') 0 chat_chunks (SetChatUsage True chat_to_messages) = (Inr (projr (fst chat_run)), snd chat_run)"
proof -
  have "is_ok (fst chat_run)" by code_simp
  then show ?thesis unfolding chat_run_def [symmetric] by (cases "fst chat_run") (auto simp: prod_eq_iff)
qed

theorem converted_stream_witness:
  "concat (map frame_pieces (concat (map co_frames (projr (fst chat_run))))) = [TextPiece ''hi'']"
proof -
  define r where "r = decode_all (\<lambda>_. ''r'') 0 (map snd chat_chunks) (cv_decoder chat_to_messages)"
  have "fst r = Inr ([StreamStart ''x'' [], StreamText 0 ''hi''] @ [StreamDone])" unfolding r_def by code_simp
  then have "r = (Inr ([StreamStart ''x'' [], StreamText 0 ''hi''] @ [StreamDone]), snd r)" by (simp add: prod_eq_iff)
  from converted_stream_content [OF chat_to_messages_new chat_run_ok this [unfolded r_def]] show ?thesis by simp
qed

text \<open>
  Nothing of the answer reaches the client unnoticed: a call of the converter that does not
  report content produces only frames that carry none. The gateway relies on it when it
  decides whether a failed attempt may still be repeated with another key.
\<close>

theorem unflagged_output_empty:
  assumes "NewStreamConverter created from to model = Inr c0"
    and "convert_all rand now ins (SetChatUsage enabled c0) = (Inr outs, c)"
    and "out \<in> set outs" and "\<not> co_semantic out"
  shows "concat (map frame_pieces (co_frames out)) = []"
  by (rule unflagged_stream [OF assms(2) _ assms(3,4)]) (rule NewStreamConverter_encoder(1) [OF assms(1)])

section \<open>Antigravity\<close>

definition tool_document :: string where
  "tool_document = print_json (JObj [(''candidates'', JArr [JObj [(''content'', JObj [(''parts'', JArr
     [JObj [(''functionCall'', JObj [(''name'', JStr ''f'')])]])]), (''finishReason'', JStr ''STOP'')]])])"

definition from_antigravity :: stream_converter where
  "from_antigravity = \<lparr>cv_decoder = newStreamDecoder Antigravity, cv_encoder = newStreamEncoder ToChat ''m'' 0\<rparr>"

lemma from_antigravity_new: "NewStreamConverter 0 Antigravity Chat ''m'' = Inr from_antigravity"
  by (simp add: NewStreamConverter_def stream_targets_def from_antigravity_def Chat_def Messages_def Responses_def Antigravity_def)

text \<open>
  C14. With a tool store, a tool call of Antigravity leaves the decoder only after the store has
  accepted the turn that contains the call, however the upstream splits its answer.
\<close>

theorem tools_stored_first:
  assumes "NewStreamConverter created Antigravity to model = Inr c0"
    and "decode_all rand now ins (cv_decoder (SetAntigravityToolStore save c0)) = (Inr evs, d)"
    and "StreamToolStart k i n \<in> set evs"
  shows "\<exists>turn \<in> set (ag_saved (dec_antigravity d)). save turn = None \<and> i \<in> call_id ` set (agt_calls turn)"
proof -
  obtain target where c: "c0 = \<lparr>cv_decoder = newStreamDecoder Antigravity, cv_encoder = newStreamEncoder target model created\<rparr>"
    using NewStreamConverter_ok [OF assms(1)] .
  let ?d = "cv_decoder (SetAntigravityToolStore save c0)"
  have "dec_protocol ?d = Antigravity" "store_inv save (dec_antigravity ?d)"
    by (simp_all add: c SetAntigravityToolStore_def newStreamDecoder_def store_inv_def held_def new_ag_state_def)
  then have "stores save ?d (decode_all rand now ins ?d)" by (rule decode_all_stores)
  then have "i \<in> stored_ids save (ag_saved (dec_antigravity d))"
    using assms(2,3) by (auto simp: stores_def started_ids_def)
  then show ?thesis by (auto simp: stored_ids_def)
qed

theorem tools_stored_witness:
  "\<exists>turn :: ag_turn. agt_upstream_ids turn = [[]] \<and> call_id ` set (agt_calls turn) = {''call_ag_r''}"
proof -
  define r where "r = decode_all (\<lambda>_. ''r'') 0 [data_event tool_document] (cv_decoder (SetAntigravityToolStore (\<lambda>_. None) from_antigravity))"
  let ?evs = "[StreamStart ''agy_r'' [], StreamToolStart 0 ''call_ag_r'' ''f'', StreamToolDelta 0 ''call_ag_r'' ''{}'',
      StreamToolEnd 0 ''call_ag_r'', StreamFinish ''tool_calls'', StreamDone]"
  let ?turns = "\<lambda>d. map (\<lambda>t. (agt_upstream_ids t, map call_id (agt_calls t))) (ag_saved (dec_antigravity d))"
  have "case r of (evs, d) \<Rightarrow> evs = Inr ?evs \<and> ?turns d = [([[]], [''call_ag_r''])]" unfolding r_def by code_simp
  then have d: "fst r = Inr ?evs" and s: "?turns (snd r) = [([[]], [''call_ag_r''])]"
    by (simp_all add: case_prod_unfold)
  obtain evs d' where r: "r = (Inr evs, d')" using d by (metis prod.collapse)
  with d have "StreamToolStart 0 ''call_ag_r'' ''f'' \<in> set evs" by simp
  from tools_stored_first [OF from_antigravity_new r [unfolded r_def] this] obtain turn
    where t: "turn \<in> set (ag_saved (dec_antigravity d'))" by blast
  have "map (\<lambda>t. (agt_upstream_ids t, map call_id (agt_calls t))) (ag_saved (dec_antigravity d')) = [([[]], [''call_ag_r''])]"
    using s by (simp only: r snd_conv)
  from map_single [OF this t] have ids: "agt_upstream_ids turn = [[]]" "map call_id (agt_calls turn) = [''call_ag_r'']"
    by (simp_all only: prod.inject)
  from arg_cong [OF ids(2), of set] have "call_id ` set (agt_calls turn) = {''call_ag_r''}" by (simp only: list.set_map list.set)
  with ids(1) have "agt_upstream_ids turn = [[]] \<and> call_id ` set (agt_calls turn) = {''call_ag_r''}" by (rule conjI)
  then show ?thesis by (rule exI [where x = turn])
qed

section \<open>Counters of Antigravity\<close>

lemma field_ptr_int_range:
  assumes "field (dec_ptr dec_int 0) None k kvs = (Some i, ok)"
  shows "in_int64 i"
proof -
  have step: "pred_option in_int64 (fst (dec_ptr dec_int 0 cur j))" if "pred_option in_int64 cur" for cur j
    using that by (cases j; cases cur) (auto simp: dec_ptr_def parse_int64_def in_int64_def Let_def split: option.splits if_splits)
  have "pred_option in_int64 (fst (foldl (\<lambda>(cur, ok) j. let (x, ok') = dec_ptr dec_int 0 cur j in (x, ok \<and> ok')) (cur, b) js))"
    if "pred_option in_int64 cur" for js cur b
    using that by (induction js arbitrary: cur b) (auto simp: Let_def case_prod_unfold step)
  from this [of None True "fields_of k kvs"] assms show ?thesis by (simp add: field_def)
qed

text \<open>
  The usage of Antigravity counts the cached tokens within the input. The recomputed input
  for protocols that count them apart is exact and never negative, for every usage object the
  gateway accepts.
\<close>

theorem accounting_exact:
  assumes "antigravityUsage raw = Inr u" and "input_tokens u = Some i" and "cache_read_tokens u = Some c"
  shows "input_tokens (AntigravityAccountingUsage u) = Some (i - c) \<and> 0 \<le> i - c \<and> i - c \<le> i"
proof -
  obtain j where j: "raw = Some j" "j \<noteq> JNull" using assms(1,2) by (cases raw) (auto simp: antigravityUsage_def no_usage_def split: if_splits)
  then obtain v where v: "dec_struct ag_usage_struct j = (v, True)"
    using assms(1) by (auto simp: antigravityUsage_def bindE_eq_Inr okE_eq_Inr)
  have kvs: "fst v = fst (f_ptr_int ''promptTokenCount'' (fst (struct_members j)))"
    using v by (auto simp: dec_struct_def ag_usage_struct_def case_prod_unfold Let_def prod_eq_iff)
  have u: "fst v = Some i" "fst (snd v) = Some c" "\<not> negative (Some c)" "c \<le> i"
    using assms j v by (auto simp: antigravityUsage_def case_prod_unfold Let_def split: if_splits option.splits)
  have "in_int64 i" using kvs u(1) by (intro field_ptr_int_range [where k = "''promptTokenCount''"]) (auto simp: prod_eq_iff)
  then have "wrap64 (i - c) = i - c" using u(3,4) by (auto simp: wrap64_def in_int64_def negative_def)
  then show ?thesis using assms(2,3) u(3,4) by (simp add: AntigravityAccountingUsage_def negative_def)
qed

text \<open>
  A quota error never sends the gateway into the past: the time at which an Antigravity key is
  expected to recover is not before the time at which the error was received.
\<close>

theorem recovery_not_before:
  assumes "ClassifyError body status now = Upstream s c m (Some t)"
  shows "now \<le> t"
proof -
  have step: "case snd (ag_detail_step now d x) of None \<Rightarrow> True | Some t \<Rightarrow> now \<le> t"
    if "case snd x of None \<Rightarrow> True | Some t \<Rightarrow> now \<le> t" for d x
    using that by (auto simp: ag_detail_step_def case_prod_unfold Let_def split: option.splits if_splits)
  have "case snd (fold (ag_detail_step now) ds x) of None \<Rightarrow> True | Some t \<Rightarrow> now \<le> t"
    if "case snd x of None \<Rightarrow> True | Some t \<Rightarrow> now \<le> t" for ds x
    using that by (induction ds arbitrary: x) (simp_all add: step)
  note later = this [of "(c0, None)" for c0]
  from assms show ?thesis
    unfolding ClassifyError_def
    by (auto simp: Let_def case_prod_unfold split: option.splits prod.splits bool.splits)
      (metis (no_types, lifting) later option.case(1) option.simps(5) snd_conv)+
qed

section \<open>Usage\<close>

text \<open>
  C15. For a document with at most one member that decodes as \<^verbatim>\<open>usage\<close>, written just so, and without
  an inner \<^verbatim>\<open>response\<close> or \<^verbatim>\<open>message\<close>, the usage the request log extracts is the usage of the decoded
  answer with its total filled in; of a Messages answer it is all but the thinking tokens, which the
  decoder of answers reads and the extraction does not.
\<close>

theorem extracted_usage_agrees:
  assumes "parse_json body = Some (JObj kvs)" and "p \<in> {Chat, Responses, Messages}" and "plain_member ''usage'' kvs"
    and "inner_member p = None \<or> entry (the (inner_member p)) kvs = None" and "DecodeResponse body p = Inr r"
  shows "\<exists>raw. ExtractUsage now body p False =
    Inr (if p = Messages then (resp_usage r)\<lparr>reasoning_tokens := None\<rparr> else with_total (resp_usage r), raw)"
proof -
  obtain u where u: "answer_usage p kvs = (u, True)"
    and r: "resp_usage r = (if p = Messages then u\<lparr>total_tokens := total_of u\<rparr> else u)"
    using DecodeResponse_usage [OF assms(1,2,5)] by blast
  have inner: "\<And>n. inner_member p = Some n \<Longrightarrow> entry n kvs = None" using assms(4) by auto
  obtain raw where ex: "extractDocumentUsage now body p = Inr (if p = Messages then u\<lparr>reasoning_tokens := None\<rparr> else u, raw)"
    using extracted_document [OF assms(1-3) inner u, of now] by blast
  have "total_tokens u = None" if "p = Messages"
    using u that by (auto simp: answer_usage_def f_struct_def messages_usage_struct_def messages_stream_usage_struct_def
        Chat_def Responses_def Messages_def case_prod_unfold Let_def)
  then show ?thesis using r by (auto simp: ExtractUsage_def ex with_total_def total_of_def)
qed

definition usage_sample :: members where
  "usage_sample = [(''choices'', JArr [JObj [(''message'', JObj [(''content'', JStr ''hi'')])]]),
     (''usage'', JObj [(''prompt_tokens'', JNum ''3''), (''completion_tokens'', JNum ''4'')])]"

theorem extracted_usage_witness:
  "\<exists>u raw. ExtractUsage 0 (print_json (JObj usage_sample)) Chat False = Inr (u, raw) \<and> total_tokens u = Some 7"
proof -
  let ?r = "DecodeResponse (print_json (JObj usage_sample)) Chat"
  have p: "parse_json (print_json (JObj usage_sample)) = Some (JObj usage_sample)" by code_simp
  have m: "plain_member ''usage'' usage_sample" "inner_member Chat = None \<or> entry (the (inner_member Chat)) usage_sample = None"
    by code_simp+
  have "is_ok ?r" by code_simp
  then obtain r where r: "?r = Inr r" by (auto simp: is_ok_iff)
  have t: "map_sum id (\<lambda>r. total_tokens (with_total (resp_usage r))) ?r = Inr (Some 7)" by code_simp
  then have "total_tokens (with_total (resp_usage r)) = Some 7" by (simp only: r map_sum.simps sum.inject)
  moreover obtain raw where "ExtractUsage 0 (print_json (JObj usage_sample)) Chat False =
      Inr (if Chat = Messages then (resp_usage r)\<lparr>reasoning_tokens := None\<rparr> else with_total (resp_usage r), raw)"
    using extracted_usage_agrees [OF p _ m r] by blast
  moreover have "Chat \<noteq> Messages" by (simp add: Chat_def Messages_def)
  ultimately show ?thesis by (simp only: if_False) (intro exI [of _ "with_total (resp_usage r)"] exI [of _ raw] conjI refl)
qed

section \<open>The summary of a stream\<close>

definition summary_inputs :: "string \<Rightarrow> sse_event list" where
  "summary_inputs body = fst (read_all EndOfFile body)"


definition sse_sample :: string where
  "sse_sample = sse_text [] (print_json (JObj [(''choices'', JArr [JObj [(''delta'', JObj [(''content'', JStr ''hel'')])]])])) @
     sse_text [] (print_json (JObj [(''choices'', JArr [JObj [(''delta'', JObj [(''content'', JStr ''lo'')])]])])) @
     sse_text [] ''[DONE]''"


text \<open>
  C17. A summary that is reported as complete is complete: with the status \<^verbatim>\<open>ok\<close> every event of the
  recorded stream was decoded and the stream ended as its protocol ends it.
\<close>

theorem summary_ok_sound:
  assumes "su_status (SummarizeStream rand now body source) = ''ok''"
  shows "\<exists>evs d. decode_all rand now (summary_inputs body) (newStreamDecoder source) = (Inr evs, d) \<and> StreamDone \<in> set evs"
proof -
  let ?s0 = "\<lparr>lp_decoder = newStreamDecoder source, lp_builder = \<lparr>bu_result = new_summary, bu_recognized = False\<rparr>, lp_number = 0\<rparr>"
  define s where "s = fold (summary_event rand now) (summary_inputs body) ?s0"
  have status: "su_status (add_warning w new_summary) \<noteq> ''ok''" for w by (simp add: add_warning_def new_summary_def)
  then have fin: "SummarizeStream rand now body source = summary_finish (lp_builder s)"
    using assms unfolding s_def summary_inputs_def by (auto simp: SummarizeStream_def split: if_splits)
  have kept: "su_status (bu_result (lp_builder (fold (summary_event rand now) ins u))) = su_status (bu_result (lp_builder u))" for ins u
    by (induction ins arbitrary: u) (simp_all add: summary_event_status)
  then have "su_status (bu_result (lp_builder s)) = ''unavailable''" by (simp add: s_def new_summary_def)
  then have "loop_warnings s = []" "loop_completed s"
    using assms fin by (auto simp: summary_finish_def Let_def loop_warnings_def loop_completed_def add_warning_def split: if_splits)
  then show ?thesis
    using summary_loop_clean [of "summary_inputs body" rand now ?s0] read_all_raw [of EndOfFile body]
    by (auto simp: s_def summary_inputs_def loop_completed_def new_summary_def)
qed

theorem summary_ok_witness:
  "\<exists>evs d. decode_all (\<lambda>_. []) 0 (summary_inputs sse_sample) (newStreamDecoder Chat) = (Inr evs, d) \<and> StreamDone \<in> set evs"
  by (rule summary_ok_sound) code_simp

end
