(* ===== verification/Database.thy ===== *)
theory Database
  imports GoTime GoDecode "HOL-Library.List_Lexorder" "HOL-Library.Char_ord"
begin

text \<open>
  The configuration database of the gateway (internal/store/migrations.go, SQLite): one row
  record per table, with the columns the code reads, a table as the list of its rows in rowid
  order with the counter of its AUTOINCREMENT column, and the statements the store runs on them.
  A JSON column holds the value its text encodes, a time column an instant; a \<^verbatim>\<open>NULL\<close>
  text that is read with \<^verbatim>\<open>COALESCE(c, '')\<close> is the empty text. SQLite compares time
  columns as texts: \<open>sql_after\<close> is that comparison.

  \<open>schema_ok\<close> collects the UNIQUE and REFERENCES clauses of the schema; a statement that
  would violate one of them fails and the transaction around it is rolled back, so that an
  operation returns \<open>Inl\<close> and leaves the database alone. Failures of the disk are not modelled.
\<close>

section \<open>Time columns\<close>

text \<open>
  \<^verbatim>\<open>formatTime\<close> writes a time with RFC3339Nano, which drops the trailing zeros of the
  fraction. Years 0 to 9999 have texts of fixed width up to the second, so that the texts of two
  times compare like their seconds first, and like the texts after the seconds when those agree
  (byte by byte, the order \<open><\<close> of strings).
\<close>

fun pad_digits :: "nat \<Rightarrow> int \<Rightarrow> string" where
  "pad_digits 0 n = []"
| "pad_digits (Suc w) n = pad_digits w (n div 10) @ [digit_char (nat (n mod 10))]"

definition trim_zeros :: "string \<Rightarrow> string" where
  "trim_zeros s = rev (dropWhile (\<lambda>c. c = CHR ''0'') (rev s))"

definition fraction_text :: "instant \<Rightarrow> string" where
  "fraction_text t =
     (let f = t mod second in
      if f = 0 then ''Z'' else CHR ''.'' # trim_zeros (pad_digits 9 f) @ ''Z'')"

definition sql_after :: "instant \<Rightarrow> instant \<Rightarrow> bool" where
  "sql_after a b \<longleftrightarrow> a div second > b div second
     \<or> a div second = b div second \<and> fraction_text b < fraction_text a"

lemma second_pos [simp]: "second > 0" by (simp add: second_def)

lemma sql_after_later: "a div second > b div second \<Longrightarrow> sql_after a b"
  by (simp add: sql_after_def)

lemma sql_after_whole_second: "a \<ge> b + second \<Longrightarrow> sql_after a b"
proof -
  assume "a \<ge> b + second"
  then have "(b + second) div second \<le> a div second" by (rule zdiv_mono1) simp
  then have "b div second + 1 \<le> a div second" by (simp add: second_def)
  then show ?thesis by (simp add: sql_after_def)
qed

lemma sql_after_bound: "sql_after a b \<Longrightarrow> b < a + second"
proof -
  assume "sql_after a b"
  then have le: "b div second \<le> a div second" by (auto simp: sql_after_def)
  have "b < (b div second) * second + second"
    using pos_mod_bound [OF second_pos, of b] div_mult_mod_eq [of b second] by linarith
  also have "\<dots> \<le> (a div second) * second + second" using le by (simp add: mult_right_mono second_def)
  also have "\<dots> \<le> a + second"
    using pos_mod_sign [OF second_pos, of a] div_mult_mod_eq [of a second] by linarith
  finally show ?thesis .
qed

section \<open>Tables\<close>

record 'r table =
  rows :: "'r list"
  last_id :: int

definition empty_table :: "'r table" where
  "empty_table = \<lparr>rows = [], last_id = 0\<rparr>"

text \<open>\<^verbatim>\<open>INSERT\<close>: the new row gets the next number of the table, which is never used again.\<close>

definition insert_row :: "(int \<Rightarrow> 'r) \<Rightarrow> 'r table \<Rightarrow> 'r table" where
  "insert_row f t = t\<lparr>rows := rows t @ [f (last_id t + 1)], last_id := last_id t + 1\<rparr>"

definition update_where :: "('r \<Rightarrow> bool) \<Rightarrow> ('r \<Rightarrow> 'r) \<Rightarrow> 'r table \<Rightarrow> 'r table" where
  "update_where P f t = t\<lparr>rows := map (\<lambda>r. if P r then f r else r) (rows t)\<rparr>"

definition delete_where :: "('r \<Rightarrow> bool) \<Rightarrow> 'r table \<Rightarrow> 'r table" where
  "delete_where P t = t\<lparr>rows := filter (\<lambda>r. \<not> P r) (rows t)\<rparr>"

definition select :: "('r \<Rightarrow> bool) \<Rightarrow> 'r table \<Rightarrow> 'r list" where
  "select P t = filter P (rows t)"

definition some_row :: "('r \<Rightarrow> bool) \<Rightarrow> 'r table \<Rightarrow> bool" where
  "some_row P t \<longleftrightarrow> (\<exists>r \<in> set (rows t). P r)"

text \<open>
  An upsert \<^verbatim>\<open>INSERT ... ON CONFLICT DO UPDATE\<close> on a key.
\<close>

definition upsert :: "('r \<Rightarrow> bool) \<Rightarrow> 'r \<Rightarrow> 'r table \<Rightarrow> 'r table" where
  "upsert same r t = (if some_row same t then update_where same (\<lambda>_. r) t else insert_row (\<lambda>_. r) t)"

lemma table_simps [simp]:
  "rows (insert_row f t) = rows t @ [f (last_id t + 1)]"
  "rows (update_where P g t) = map (\<lambda>r. if P r then g r else r) (rows t)"
  "rows (delete_where P t) = filter (\<lambda>r. \<not> P r) (rows t)"
  "last_id (insert_row f t) = last_id t + 1"
  "last_id (update_where P g t) = last_id t"
  "last_id (delete_where P t) = last_id t"
  "rows empty_table = []"
  by (simp_all add: insert_row_def update_where_def delete_where_def empty_table_def)

lemma set_select [simp]: "set (select P t) = {r \<in> set (rows t). P r}"
  by (auto simp: select_def)

section \<open>Rows\<close>

record provider_row =
  p_id :: int
  p_name :: string
  p_enabled :: bool
  p_kind :: string
  p_auth_type :: string
  p_auth_header :: string
  p_static_headers :: "(string \<times> string) list"
  p_quota_codes :: "string list"
  p_created_at :: instant
  p_archived :: "instant option"

record endpoint_row =
  e_provider :: int
  e_protocol :: string
  e_url :: string

record key_row =
  k_id :: int
  k_provider :: int
  k_name :: string
  k_secret :: string
  k_auth :: string
  k_file_name :: string
  k_oauth_user :: string
  k_oauth_account :: string
  k_access_expires :: "instant option"
  k_revision :: int
  k_position :: int
  k_enabled :: bool
  k_expires_at :: "instant option"
  k_status :: string
  k_reason :: string
  k_recover_at :: "instant option"
  k_last_used :: "instant option"
  k_archived :: "instant option"

record credential_row =
  c_key :: int
  c_subject :: string
  c_identity :: string
  c_credential :: string

record model_state_row =
  s_key :: int
  s_model :: string
  s_revision :: int
  s_reason :: string
  s_recover_at :: instant

record model_row =
  m_id :: int
  m_name :: string
  m_enabled :: bool
  m_created_at :: instant
  m_archived :: "instant option"

record candidate_row =
  d_id :: int
  d_model :: int
  d_provider :: int
  d_upstream_model :: string
  d_position :: int
  d_enabled :: bool
  d_default_max :: int
  d_max :: int
  d_revision :: int
  d_status :: string
  d_reason :: string
  d_archived :: "instant option"

record candidate_protocol =
  Protocol :: string
  Position :: int
  SupportsStream :: bool
  SupportsTools :: bool
  SupportsParallelTools :: bool
  EffortLevels :: "string list"
  SupportsStreamUsage :: bool

record protocol_row =
  q_candidate :: int
  q_protocol :: candidate_protocol

record access_key_row =
  a_id :: int
  a_name :: string
  a_secret :: string
  a_enabled :: bool
  a_expires_at :: "instant option"
  a_last_used :: "instant option"
  a_created_at :: instant
  a_archived :: "instant option"

record request_row =
  r_id :: string
  r_status :: string
  r_access_key :: "int option"
  r_model :: string

record attempt_row =
  t_id :: int
  t_request :: string
  t_position :: int
  t_provider :: int
  t_key :: int
  t_candidate :: int
  t_status :: string

record history_row =
  h_call :: string
  h_access_key :: "int option"
  h_provider :: int
  h_key :: int
  h_model :: string
  h_history :: string

record database =
  providers :: "provider_row table"
  provider_endpoints :: "endpoint_row table"
  upstream_keys :: "key_row table"
  antigravity_credentials :: "credential_row table"
  antigravity_model_states :: "model_state_row table"
  virtual_models :: "model_row table"
  model_candidates :: "candidate_row table"
  candidate_protocols :: "protocol_row table"
  access_keys :: "access_key_row table"
  requests :: "request_row table"
  attempts :: "attempt_row table"
  antigravity_tool_history :: "history_row table"

definition empty_database :: database where
  "empty_database = \<lparr>providers = empty_table, provider_endpoints = empty_table,
     upstream_keys = empty_table, antigravity_credentials = empty_table,
     antigravity_model_states = empty_table, virtual_models = empty_table,
     model_candidates = empty_table, candidate_protocols = empty_table,
     access_keys = empty_table, requests = empty_table, attempts = empty_table,
     antigravity_tool_history = empty_table\<rparr>"

section \<open>Constraints\<close>

definition unique :: "('r \<Rightarrow> 'k) \<Rightarrow> 'r table \<Rightarrow> bool" where
  "unique f t \<longleftrightarrow> distinct (map f (rows t))"

definition refers :: "('r \<Rightarrow> int) \<Rightarrow> 'r table \<Rightarrow> ('s \<Rightarrow> int) \<Rightarrow> 's table \<Rightarrow> bool" where
  "refers f t g u \<longleftrightarrow> (\<forall>r \<in> set (rows t). f r \<in> g ` set (rows u))"

definition refers_opt :: "('r \<Rightarrow> int option) \<Rightarrow> 'r table \<Rightarrow> ('s \<Rightarrow> int) \<Rightarrow> 's table \<Rightarrow> bool" where
  "refers_opt f t g u \<longleftrightarrow>
     (\<forall>r \<in> set (rows t). case f r of None \<Rightarrow> True | Some i \<Rightarrow> i \<in> g ` set (rows u))"

definition unique_columns :: "database \<Rightarrow> bool" where
  "unique_columns db \<longleftrightarrow>
     unique p_id (providers db) \<and> unique k_id (upstream_keys db) \<and> unique m_id (virtual_models db)
   \<and> unique d_id (model_candidates db) \<and> unique a_id (access_keys db) \<and> unique t_id (attempts db)
   \<and> unique p_name (providers db)
   \<and> unique (\<lambda>e. (e_provider e, e_protocol e)) (provider_endpoints db)
   \<and> unique (\<lambda>k. (k_provider k, k_position k)) (upstream_keys db)
   \<and> distinct (map (\<lambda>k. (k_oauth_user k, k_oauth_account k))
       (select (\<lambda>k. k_archived k = None \<and> k_oauth_user k \<noteq> []) (upstream_keys db)))
   \<and> unique c_key (antigravity_credentials db)
   \<and> unique c_subject (antigravity_credentials db)
   \<and> unique (\<lambda>s. (s_key s, s_model s)) (antigravity_model_states db)
   \<and> unique m_name (virtual_models db)
   \<and> unique (\<lambda>d. (d_model d, d_position d)) (model_candidates db)
   \<and> unique (\<lambda>q. (q_candidate q, Protocol (q_protocol q))) (candidate_protocols db)
   \<and> unique (\<lambda>q. (q_candidate q, Position (q_protocol q))) (candidate_protocols db)
   \<and> unique a_name (access_keys db)
   \<and> unique a_secret (access_keys db)
   \<and> unique r_id (requests db)
   \<and> unique (\<lambda>t. (t_request t, t_position t)) (attempts db)
   \<and> unique h_call (antigravity_tool_history db)"

definition foreign_keys :: "database \<Rightarrow> bool" where
  "foreign_keys db \<longleftrightarrow>
     refers e_provider (provider_endpoints db) p_id (providers db)
   \<and> refers k_provider (upstream_keys db) p_id (providers db)
   \<and> refers c_key (antigravity_credentials db) k_id (upstream_keys db)
   \<and> refers s_key (antigravity_model_states db) k_id (upstream_keys db)
   \<and> refers d_model (model_candidates db) m_id (virtual_models db)
   \<and> refers d_provider (model_candidates db) p_id (providers db)
   \<and> refers q_candidate (candidate_protocols db) d_id (model_candidates db)
   \<and> refers_opt r_access_key (requests db) a_id (access_keys db)
   \<and> (\<forall>t \<in> set (rows (attempts db)). t_request t \<in> r_id ` set (rows (requests db)))
   \<and> refers t_provider (attempts db) p_id (providers db)
   \<and> refers t_key (attempts db) k_id (upstream_keys db)
   \<and> refers t_candidate (attempts db) d_id (model_candidates db)
   \<and> refers_opt h_access_key (antigravity_tool_history db) a_id (access_keys db)
   \<and> refers h_provider (antigravity_tool_history db) p_id (providers db)
   \<and> refers h_key (antigravity_tool_history db) k_id (upstream_keys db)"

definition schema_ok :: "database \<Rightarrow> bool" where
  "schema_ok db \<longleftrightarrow> unique_columns db \<and> foreign_keys db"

section \<open>Statements\<close>

datatype store_error =
    NoRows
  | ConstraintFailed
  | Refused string
  | CredentialChanged
  | DuplicateOAuthAccount
  | ProviderInUse
  | NoRoute

definition exec :: "database \<Rightarrow> store_error + database" where
  "exec db = (if schema_ok db then Inr db else Inl ConstraintFailed)"

lemma exec_Inr: "exec db = Inr d \<longleftrightarrow> schema_ok db \<and> d = db"
  by (auto simp: exec_def)

lemma exec_InrE: "exec db = Inr d \<Longrightarrow> (schema_ok db \<Longrightarrow> d = db \<Longrightarrow> P) \<Longrightarrow> P"
  by (simp add: exec_Inr)

text \<open>\<^verbatim>\<open>QueryRow(...).Scan(...)\<close> of a query for one row.\<close>

definition query_row :: "('r \<Rightarrow> bool) \<Rightarrow> 'r table \<Rightarrow> store_error + 'r" where
  "query_row P t = (case select P t of [] \<Rightarrow> Inl NoRows | r # _ \<Rightarrow> Inr r)"

lemma query_row_Inr: "query_row P t = Inr r \<Longrightarrow> r \<in> set (rows t) \<and> P r"
proof -
  assume "query_row P t = Inr r"
  then obtain rs where "select P t = r # rs" by (auto simp: query_row_def split: list.splits)
  then have "r \<in> set (select P t)" by simp
  then show ?thesis by simp
qed

lemma query_row_Inl: "query_row P t = Inl e \<longleftrightarrow> e = NoRows \<and> (\<forall>r \<in> set (rows t). \<not> P r)"
  by (cases "select P t") (auto simp: query_row_def select_def filter_empty_conv filter_eq_Cons_iff)

text \<open>\<^verbatim>\<open>ORDER BY\<close> one integer column.\<close>

definition order_by :: "('r \<Rightarrow> int) \<Rightarrow> 'r list \<Rightarrow> 'r list" where
  "order_by f rs = sort_key f rs"

lemma set_order_by [simp]: "set (order_by f rs) = set rs"
  by (simp add: order_by_def)

end
