(* ===== verification/CatalogRead.thy ===== *)
theory CatalogRead
  imports Database Types GoStrings
begin

text \<open>
  The catalog of the store (internal/store/catalog.go), reading side: the structs
  \<^verbatim>\<open>Provider\<close>, \<^verbatim>\<open>UpstreamKey\<close>, \<^verbatim>\<open>VirtualModel\<close> and
  \<^verbatim>\<open>ModelCandidate\<close>, and the queries that fill them. The identity of an OAuth account,
  which is decoded from the credential only to be shown, is not part of \<open>upstream_key\<close>.
\<close>

definition ProviderGeneric :: string where "ProviderGeneric = ''generic''"
definition ProviderCodexOAuth :: string where "ProviderCodexOAuth = ''codex_oauth''"
definition ProviderAntigravityOAuth :: string where "ProviderAntigravityOAuth = ''antigravity_oauth''"

lemmas provider_kind_defs = ProviderGeneric_def ProviderCodexOAuth_def ProviderAntigravityOAuth_def

lemma provider_kind_distinct [simp]:
  "ProviderGeneric \<noteq> ProviderCodexOAuth" "ProviderGeneric \<noteq> ProviderAntigravityOAuth"
  "ProviderCodexOAuth \<noteq> ProviderGeneric" "ProviderCodexOAuth \<noteq> ProviderAntigravityOAuth"
  "ProviderAntigravityOAuth \<noteq> ProviderGeneric" "ProviderAntigravityOAuth \<noteq> ProviderCodexOAuth"
  by (simp_all add: provider_kind_defs)

section \<open>Structs\<close>

record upstream_key =
  key_id :: int
  key_name :: string
  key_secret :: string
  key_hint :: string
  key_position :: int
  key_enabled :: bool
  key_expires_at :: "instant option"
  key_status :: string
  key_reason :: string
  key_recover_at :: "instant option"
  key_last_used :: "instant option"
  key_file_name :: string
  key_access_expires :: "instant option"
  key_revision :: int

record provider =
  prov_kind :: string
  prov_id :: int
  prov_name :: string
  prov_enabled :: bool
  prov_auth_type :: string
  prov_auth_header :: string
  prov_static_headers :: "(string \<times> string) list"
  prov_quota_codes :: "string list"
  prov_endpoints :: "(string \<times> string) list"
  prov_keys :: "upstream_key list"
  prov_created_at :: instant

record provider_page =
  provider_items :: "provider list"
  provider_total :: nat
  provider_page_no :: int
  provider_page_size :: int

record provider_option =
  option_kind :: string
  option_id :: int
  option_name :: string
  option_enabled :: bool
  option_endpoints :: "(string \<times> string) list"

record model_candidate =
  cand_id :: int
  cand_provider_id :: int
  cand_provider_name :: string
  cand_upstream_model :: string
  cand_position :: int
  cand_enabled :: bool
  cand_default_max :: int
  cand_max :: int
  cand_status :: string
  cand_protocols :: "candidate_protocol list"
  cand_revision :: int

record virtual_model =
  vm_id :: int
  vm_name :: string
  vm_enabled :: bool
  vm_candidates :: "model_candidate list"
  vm_created_at :: instant

record model_page =
  model_items :: "virtual_model list"
  model_total :: nat
  model_page_no :: int
  model_page_size :: int

section \<open>Keys of a provider\<close>

text \<open>The ellipsis of a hint is U+2026.\<close>

definition secretHint :: "string \<Rightarrow> string" where
  "secretHint secret =
     (if length secret \<le> 8 then secret
      else take 4 secret @ [CHR 0xE2, CHR 0x80, CHR 0xA6] @ drop (length secret - 4) secret)"

definition scanUpstreamKey :: "bool \<Rightarrow> key_row \<Rightarrow> upstream_key" where
  "scanUpstreamKey includeSecret k =
     \<lparr>key_id = k_id k, key_name = k_name k,
      key_secret = (if includeSecret then k_secret k else []), key_hint = secretHint (k_secret k),
      key_position = k_position k, key_enabled = k_enabled k, key_expires_at = k_expires_at k,
      key_status = k_status k, key_reason = k_reason k, key_recover_at = k_recover_at k,
      key_last_used = k_last_used k, key_file_name = k_file_name k,
      key_access_expires = k_access_expires k, key_revision = k_revision k\<rparr>"

definition providerKeys :: "bool \<Rightarrow> database \<Rightarrow> int \<Rightarrow> upstream_key list" where
  "providerKeys includeSecret db pid =
     map (scanUpstreamKey includeSecret)
       (order_by k_position (select (\<lambda>k. k_provider k = pid \<and> k_archived k = None) (upstream_keys db)))"

definition providerEndpoints :: "database \<Rightarrow> int \<Rightarrow> (string \<times> string) list" where
  "providerEndpoints db pid =
     fold (\<lambda>e. put (e_protocol e) (e_url e)) (select (\<lambda>e. e_provider e = pid) (provider_endpoints db)) []"

definition scanProvider :: "provider_row \<Rightarrow> provider" where
  "scanProvider p =
     \<lparr>prov_kind = p_kind p, prov_id = p_id p, prov_name = p_name p, prov_enabled = p_enabled p,
      prov_auth_type = p_auth_type p, prov_auth_header = p_auth_header p,
      prov_static_headers = p_static_headers p, prov_quota_codes = p_quota_codes p,
      prov_endpoints = [], prov_keys = [], prov_created_at = p_created_at p\<rparr>"

definition hydrateProviders :: "bool \<Rightarrow> database \<Rightarrow> provider list \<Rightarrow> provider list" where
  "hydrateProviders includeSecrets db ps =
     map (\<lambda>p. p\<lparr>prov_endpoints := providerEndpoints db (prov_id p),
                prov_keys := providerKeys includeSecrets db (prov_id p)\<rparr>) ps"

definition providerByID :: "bool \<Rightarrow> database \<Rightarrow> int \<Rightarrow> store_error + provider" where
  "providerByID includeSecrets db pid =
     bindE (query_row (\<lambda>p. p_id p = pid \<and> p_archived p = None) (providers db)) (\<lambda>p.
       Inr ((scanProvider p)\<lparr>prov_endpoints := providerEndpoints db (p_id p),
                             prov_keys := providerKeys includeSecrets db (p_id p)\<rparr>))"

definition GetProvider :: "database \<Rightarrow> int \<Rightarrow> store_error + provider" where
  "GetProvider db pid =
     bindE (query_row (\<lambda>p. p_id p = pid \<and> p_archived p = None) (providers db)) (\<lambda>p.
       Inr (hd (hydrateProviders True db [scanProvider p])))"

definition ListProviders :: "database \<Rightarrow> provider list" where
  "ListProviders db = hydrateProviders True db
     (map scanProvider (rev (order_by p_id (select (\<lambda>p. p_archived p = None) (providers db)))))"

text \<open>\<^verbatim>\<open>LIMIT\<close> and \<^verbatim>\<open>OFFSET\<close>: a negative limit is no limit, a negative offset none.\<close>

definition sql_limit :: "int \<Rightarrow> int \<Rightarrow> 'r list \<Rightarrow> 'r list" where
  "sql_limit limit offset rs =
     (let rest = drop (nat offset) rs in if limit < 0 then rest else take (nat limit) rest)"

definition matches_name :: "string \<Rightarrow> string \<Rightarrow> bool" where
  "matches_name pattern name \<longleftrightarrow> pattern = [] \<or> contains_text name pattern"

definition matches_flag :: "bool option \<Rightarrow> bool \<Rightarrow> bool" where
  "matches_flag wanted flag \<longleftrightarrow> (case wanted of None \<Rightarrow> True | Some b \<Rightarrow> flag = b)"

definition ListProvidersPage ::
    "database \<Rightarrow> int \<Rightarrow> int \<Rightarrow> string \<Rightarrow> string \<Rightarrow> bool option \<Rightarrow> provider_page" where
  "ListProvidersPage db page pageSize name authType enabled =
     (let found = select (\<lambda>p. p_archived p = None \<and> matches_name name (p_name p)
              \<and> (authType = [] \<or> p_auth_type p = authType) \<and> matches_flag enabled (p_enabled p))
            (providers db)
      in \<lparr>provider_items = hydrateProviders True db (map scanProvider
            (sql_limit pageSize ((page - 1) * pageSize) (rev (order_by p_id found)))),
          provider_total = length found, provider_page_no = page, provider_page_size = pageSize\<rparr>)"

definition ListProviderOptions :: "database \<Rightarrow> provider_option list" where
  "ListProviderOptions db =
     map (\<lambda>p. \<lparr>option_kind = p_kind p, option_id = p_id p, option_name = p_name p,
                option_enabled = p_enabled p, option_endpoints = providerEndpoints db (p_id p)\<rparr>)
       (rev (order_by p_id (select (\<lambda>p. p_archived p = None) (providers db))))"

section \<open>Virtual models\<close>

definition scanVirtualModel :: "model_row \<Rightarrow> virtual_model" where
  "scanVirtualModel m =
     \<lparr>vm_id = m_id m, vm_name = m_name m, vm_enabled = m_enabled m, vm_candidates = [],
      vm_created_at = m_created_at m\<rparr>"

definition candidateProtocols :: "database \<Rightarrow> int \<Rightarrow> candidate_protocol list" where
  "candidateProtocols db cid =
     map q_protocol (order_by (\<lambda>q. Position (q_protocol q))
       (select (\<lambda>q. q_candidate q = cid) (candidate_protocols db)))"

text \<open>
  The candidates of a model in the order of their positions; the join drops a candidate without
  provider row, and shows the name of the provider whether it is archived or not.
\<close>

definition scanCandidate :: "database \<Rightarrow> candidate_row \<Rightarrow> model_candidate list" where
  "scanCandidate db d = map (\<lambda>p.
     \<lparr>cand_id = d_id d, cand_provider_id = d_provider d, cand_provider_name = p_name p,
      cand_upstream_model = d_upstream_model d, cand_position = d_position d,
      cand_enabled = d_enabled d, cand_default_max = d_default_max d, cand_max = d_max d,
      cand_status = d_status d, cand_protocols = candidateProtocols db (d_id d),
      cand_revision = d_revision d\<rparr>)
     (select (\<lambda>p. p_id p = d_provider d) (providers db))"

definition modelCandidates :: "database \<Rightarrow> int \<Rightarrow> model_candidate list" where
  "modelCandidates db mid =
     concat (map (scanCandidate db)
       (order_by d_position (select (\<lambda>d. d_model d = mid \<and> d_archived d = None) (model_candidates db))))"

definition hydrateVirtualModels :: "database \<Rightarrow> virtual_model list \<Rightarrow> virtual_model list" where
  "hydrateVirtualModels db ms = map (\<lambda>m. m\<lparr>vm_candidates := modelCandidates db (vm_id m)\<rparr>) ms"

definition GetVirtualModel :: "database \<Rightarrow> int \<Rightarrow> store_error + virtual_model" where
  "GetVirtualModel db mid =
     bindE (query_row (\<lambda>m. m_id m = mid \<and> m_archived m = None) (virtual_models db)) (\<lambda>m.
       Inr (hd (hydrateVirtualModels db [scanVirtualModel m])))"

definition ListVirtualModels :: "database \<Rightarrow> virtual_model list" where
  "ListVirtualModels db = hydrateVirtualModels db
     (map scanVirtualModel (sort_key m_name (select (\<lambda>m. m_archived m = None) (virtual_models db))))"

definition ListVirtualModelsPage ::
    "database \<Rightarrow> int \<Rightarrow> int \<Rightarrow> string \<Rightarrow> bool option \<Rightarrow> model_page" where
  "ListVirtualModelsPage db page pageSize name enabled =
     (let found = select (\<lambda>m. m_archived m = None \<and> matches_name name (m_name m)
              \<and> matches_flag enabled (m_enabled m)) (virtual_models db)
      in \<lparr>model_items = hydrateVirtualModels db (map scanVirtualModel
            (sql_limit pageSize ((page - 1) * pageSize) (sort_key m_name found))),
          model_total = length found, model_page_no = page, model_page_size = pageSize\<rparr>)"

definition VirtualModelName :: "database \<Rightarrow> int \<Rightarrow> store_error + string" where
  "VirtualModelName db mid =
     bindE (query_row (\<lambda>m. m_id m = mid \<and> m_archived m = None) (virtual_models db)) (\<lambda>m. Inr (m_name m))"

end
