(* ===== verification/Catalog.thy ===== *)
theory Catalog
  imports CatalogRead
begin

text \<open>
  The catalog of the store (internal/store/catalog.go), writing side: creating, changing, enabling
  and deleting providers and virtual models. An operation is its transaction: a function from the
  database to an error or the result with the new database, \<^verbatim>\<open>now\<close> the clock. The order of
  statements and checks is the code's; a loop over a Go map runs in the order of the list.
\<close>

record key_input =
  ki_id :: int
  ki_name :: string
  ki_secret :: string
  ki_expires_at :: "instant option"
  ki_enabled :: "bool option"

record provider_input =
  pi_kind :: string
  pi_name :: string
  pi_auth_type :: string
  pi_auth_header :: string
  pi_static_headers :: "(string \<times> string) list"
  pi_quota_codes :: "string list"
  pi_endpoints :: "(string \<times> string) list"
  pi_keys :: "key_input list"

record candidate_input =
  ci_id :: int
  ci_provider_id :: int
  ci_upstream_model :: string
  ci_default_max :: int
  ci_max :: int
  ci_protocols :: "candidate_protocol list"

record model_input =
  mi_name :: string
  mi_candidates :: "candidate_input list"

definition AntigravityEndpoint :: string where
  "AntigravityEndpoint =
     ''https://daily-cloudcode-pa.googleapis.com/v1internal:streamGenerateContent?alt=sse''"

definition CodexEndpoint :: string where
  "CodexEndpoint = ''https://chatgpt.com/backend-api/codex/responses''"

definition text_of :: "string \<Rightarrow> (string \<times> string) list \<Rightarrow> string" where
  "text_of k m = (case map_of m k of Some v \<Rightarrow> v | None \<Rightarrow> [])"

definition optionalBool :: "bool option \<Rightarrow> bool \<Rightarrow> bool" where
  "optionalBool value fallback = (case value of None \<Rightarrow> fallback | Some b \<Rightarrow> b)"

section \<open>Providers\<close>

definition normalizeProvider :: "provider_input \<Rightarrow> store_error + provider_input" where
  "normalizeProvider input0 =
     (let input = (if pi_kind input0 = [] then input0\<lparr>pi_kind := ProviderGeneric\<rparr> else input0) in
      if pi_kind input = ProviderGeneric then Inr input
      else if pi_kind input = ProviderAntigravityOAuth then
        bindE (guardE (pi_keys input \<noteq> [] \<or> pi_static_headers input \<noteq> [] \<or> pi_auth_header input \<noteq> []
               \<or> pi_auth_type input \<notin> {[], ''oauth''} \<or> pi_quota_codes input \<noteq> [])
              (Refused ''Antigravity OAuth takes no static authentication, keys or quota codes'')) (\<lambda>_.
        bindE (guardE (pi_endpoints input \<noteq> [] \<and> (length (pi_endpoints input) \<noteq> 1
               \<or> text_of Antigravity (pi_endpoints input) \<noteq> AntigravityEndpoint))
              (Refused ''the endpoint of Antigravity OAuth is fixed'')) (\<lambda>_.
        Inr (input\<lparr>pi_auth_type := ''oauth'', pi_static_headers := [], pi_quota_codes := [],
                   pi_endpoints := [(Antigravity, AntigravityEndpoint)]\<rparr>)))
      else if pi_kind input = ProviderCodexOAuth then
        bindE (guardE (pi_keys input \<noteq> [] \<or> pi_static_headers input \<noteq> [] \<or> pi_auth_header input \<noteq> []
               \<or> pi_auth_type input \<notin> {[], ''oauth''})
              (Refused ''Codex OAuth takes no static authentication or keys'')) (\<lambda>_.
        bindE (guardE (pi_endpoints input \<noteq> [] \<and> (length (pi_endpoints input) \<noteq> 1
               \<or> text_of Responses (pi_endpoints input) \<noteq> CodexEndpoint))
              (Refused ''the endpoint of Codex OAuth is fixed'')) (\<lambda>_.
        Inr (input\<lparr>pi_auth_type := ''oauth'', pi_static_headers := [],
                   pi_endpoints := [(Responses, CodexEndpoint)]\<rparr>)))
      else Inl (Refused ''invalid kind of provider''))"

text \<open>A name that only an archived row holds is freed by renaming that row.\<close>

definition archived_name :: "string \<Rightarrow> int \<Rightarrow> string" where
  "archived_name name i = name @ ''#archived-'' @ itoa i"

definition free_provider_name :: "string \<Rightarrow> database \<Rightarrow> store_error + database" where
  "free_provider_name name db = exec (db\<lparr>providers :=
     update_where (\<lambda>p. p_name p = name \<and> p_archived p \<noteq> None)
       (\<lambda>p. p\<lparr>p_name := archived_name (p_name p) (p_id p)\<rparr>) (providers db)\<rparr>)"

definition insert_provider :: "instant \<Rightarrow> provider_input \<Rightarrow> database \<Rightarrow> store_error + database" where
  "insert_provider now input db = exec (db\<lparr>providers := insert_row (\<lambda>i.
     \<lparr>p_id = i, p_name = pi_name input, p_enabled = True, p_kind = pi_kind input,
      p_auth_type = pi_auth_type input, p_auth_header = pi_auth_header input,
      p_static_headers = pi_static_headers input, p_quota_codes = pi_quota_codes input,
      p_created_at = now, p_archived = None\<rparr>) (providers db)\<rparr>)"

definition insert_endpoint :: "int \<Rightarrow> string \<times> string \<Rightarrow> database \<Rightarrow> store_error + database" where
  "insert_endpoint pid e db = exec (db\<lparr>provider_endpoints := insert_row (\<lambda>_.
     \<lparr>e_provider = pid, e_protocol = fst e, e_url = snd e\<rparr>) (provider_endpoints db)\<rparr>)"

definition new_key :: "int \<Rightarrow> key_input \<Rightarrow> int \<Rightarrow> bool \<Rightarrow> int \<Rightarrow> key_row" where
  "new_key pid key position enabled i =
     \<lparr>k_id = i, k_provider = pid, k_name = ki_name key, k_secret = ki_secret key, k_auth = [],
      k_file_name = [], k_oauth_user = [], k_oauth_account = [], k_access_expires = None,
      k_revision = 1, k_position = position, k_enabled = enabled, k_expires_at = ki_expires_at key,
      k_status = ''available'', k_reason = [], k_recover_at = None, k_last_used = None,
      k_archived = None\<rparr>"

definition insert_key :: "int \<Rightarrow> key_input \<Rightarrow> int \<Rightarrow> bool \<Rightarrow> database \<Rightarrow> store_error + database" where
  "insert_key pid key position enabled db = exec (db\<lparr>upstream_keys :=
     insert_row (new_key pid key position enabled) (upstream_keys db)\<rparr>)"

definition CreateProvider :: "instant \<Rightarrow> provider_input \<Rightarrow> database \<Rightarrow> store_error + provider \<times> database" where
  "CreateProvider now input0 db0 =
     bindE (normalizeProvider input0) (\<lambda>input.
     bindE (free_provider_name (pi_name input) db0) (\<lambda>db1.
     bindE (insert_provider now input db1) (\<lambda>db2.
     bindE (foldE (insert_endpoint (last_id (providers db2))) (pi_endpoints input) db2) (\<lambda>db3.
     bindE (foldE (\<lambda>(i, key). insert_key (last_id (providers db2)) key (int i) True)
             (enumerate 0 (pi_keys input)) db3) (\<lambda>db4.
     Inr (\<lparr>prov_kind = pi_kind input, prov_id = last_id (providers db2), prov_name = pi_name input,
            prov_enabled = True, prov_auth_type = pi_auth_type input,
            prov_auth_header = pi_auth_header input, prov_static_headers = pi_static_headers input,
            prov_quota_codes = pi_quota_codes input, prov_endpoints = pi_endpoints input,
            prov_keys = [], prov_created_at = now\<rparr>, db4))))))"

definition bump_keys :: "int \<Rightarrow> database \<Rightarrow> store_error + database" where
  "bump_keys pid db = exec (db\<lparr>upstream_keys :=
     update_where (\<lambda>k. k_provider k = pid \<and> k_archived k = None)
       (\<lambda>k. k\<lparr>k_revision := k_revision k + 1\<rparr>) (upstream_keys db)\<rparr>)"

definition active_provider :: "int \<Rightarrow> provider_row \<Rightarrow> bool" where
  "active_provider pid p \<longleftrightarrow> p_id p = pid \<and> p_archived p = None"

definition SetProviderEnabled :: "int \<Rightarrow> bool \<Rightarrow> database \<Rightarrow> store_error + database" where
  "SetProviderEnabled pid enabled db =
     bindE (exec (db\<lparr>providers := update_where (active_provider pid)
              (\<lambda>p. p\<lparr>p_enabled := enabled\<rparr>) (providers db)\<rparr>)) (\<lambda>db1.
     bindE (guardE (\<not> some_row (active_provider pid) (providers db)) NoRows) (\<lambda>_.
     bump_keys pid db1))"

text \<open>A candidate that serves requests now or may again: neither it nor its model is archived.\<close>

definition live_candidate :: "database \<Rightarrow> candidate_row \<Rightarrow> bool" where
  "live_candidate db d \<longleftrightarrow> d_archived d = None
     \<and> some_row (\<lambda>m. m_id m = d_model d \<and> m_archived m = None) (virtual_models db)"

definition providerUsedProtocols :: "database \<Rightarrow> int \<Rightarrow> string list" where
  "providerUsedProtocols db pid =
     map (\<lambda>q. Protocol (q_protocol q))
       (select (\<lambda>q. some_row (\<lambda>d. d_id d = q_candidate q \<and> d_provider d = pid \<and> live_candidate db d)
          (model_candidates db)) (candidate_protocols db))"

definition providerKeyIDs :: "database \<Rightarrow> int \<Rightarrow> int list" where
  "providerKeyIDs db pid = map k_id (select (\<lambda>k. k_provider k = pid \<and> k_archived k = None) (upstream_keys db))"

text \<open>One entry of the edited key list; the state is the set of keys not met yet and the database.\<close>

definition update_key :: "int \<Rightarrow> nat \<times> key_input \<Rightarrow> int list \<times> database \<Rightarrow> store_error + int list \<times> database" where
  "update_key pid item s =
     (let position = int (fst item); key = snd item; existing = fst s; db = snd s;
          enabled = optionalBool (ki_enabled key) True
      in if ki_id key = 0 then
           bindE (insert_key pid key position enabled db) (\<lambda>db1. Inr (existing, db1))
         else
           bindE (guardE (ki_id key \<notin> set existing) NoRows) (\<lambda>_.
           bindE (exec (db\<lparr>upstream_keys := update_where (\<lambda>k. k_id k = ki_id key) (\<lambda>k.
                let k1 = k\<lparr>k_name := ki_name key, k_position := position, k_enabled := enabled,
                           k_expires_at := ki_expires_at key, k_revision := k_revision k + 1\<rparr>
                in if ki_secret key = [] then k1
                   else k1\<lparr>k_secret := ki_secret key, k_status := ''available'', k_reason := [],
                           k_recover_at := None\<rparr>) (upstream_keys db)\<rparr>)) (\<lambda>db1.
           Inr (removeAll (ki_id key) existing, db1))))"

text \<open>Deleting keys cascades to the credentials, cooldowns and tool histories that refer to them.\<close>

definition delete_keys :: "(key_row \<Rightarrow> bool) \<Rightarrow> database \<Rightarrow> store_error + database" where
  "delete_keys P db =
     (let gone = k_id ` set (select P (upstream_keys db)) in
      exec (db\<lparr>upstream_keys := delete_where P (upstream_keys db),
               antigravity_credentials := delete_where (\<lambda>c. c_key c \<in> gone) (antigravity_credentials db),
               antigravity_model_states := delete_where (\<lambda>s. s_key s \<in> gone) (antigravity_model_states db),
               antigravity_tool_history := delete_where (\<lambda>h. h_key h \<in> gone) (antigravity_tool_history db)\<rparr>))"

definition drop_key :: "instant \<Rightarrow> int \<Rightarrow> database \<Rightarrow> store_error + database" where
  "drop_key now kid db =
     (if some_row (\<lambda>t. t_key t = kid) (attempts db)
      then exec (db\<lparr>upstream_keys := update_where (\<lambda>k. k_id k = kid)
             (\<lambda>k. k\<lparr>k_enabled := False, k_archived := Some now\<rparr>) (upstream_keys db)\<rparr>)
      else delete_keys (\<lambda>k. k_id k = kid) db)"

definition update_provider_row :: "int \<Rightarrow> provider_input \<Rightarrow> database \<Rightarrow> store_error + database" where
  "update_provider_row pid input db = exec (db\<lparr>providers := update_where (active_provider pid)
     (\<lambda>p. p\<lparr>p_name := pi_name input, p_auth_type := pi_auth_type input,
            p_auth_header := pi_auth_header input, p_static_headers := pi_static_headers input,
            p_quota_codes := pi_quota_codes input\<rparr>) (providers db)\<rparr>)"

definition replace_endpoints :: "int \<Rightarrow> (string \<times> string) list \<Rightarrow> database \<Rightarrow> store_error + database" where
  "replace_endpoints pid endpoints db =
     bindE (exec (db\<lparr>provider_endpoints := delete_where (\<lambda>e. e_provider e = pid) (provider_endpoints db)\<rparr>))
       (foldE (insert_endpoint pid) endpoints)"

definition replace_keys :: "instant \<Rightarrow> int \<Rightarrow> key_input list \<Rightarrow> database \<Rightarrow> store_error + database" where
  "replace_keys now pid keys db =
     bindE (exec (db\<lparr>upstream_keys := update_where (\<lambda>k. k_provider k = pid)
              (\<lambda>k. k\<lparr>k_position := - k_id k\<rparr>) (upstream_keys db)\<rparr>)) (\<lambda>db1.
     bindE (foldE (update_key pid) (enumerate 0 keys) (providerKeyIDs db pid, db1)) (\<lambda>(left, db2).
     foldE (drop_key now) left db2))"

definition UpdateProvider :: "instant \<Rightarrow> int \<Rightarrow> provider_input \<Rightarrow> database \<Rightarrow> store_error + database" where
  "UpdateProvider now pid input0 db0 =
     bindE (normalizeProvider input0) (\<lambda>input.
     bindE (query_row (active_provider pid) (providers db0)) (\<lambda>p.
     bindE (guardE (p_kind p \<noteq> pi_kind input) (Refused ''the kind of a provider cannot change'')) (\<lambda>_.
     bindE (free_provider_name (pi_name input) db0) (\<lambda>db1.
     bindE (update_provider_row pid input db1) (\<lambda>db2.
     bindE (guardE (\<exists>proto \<in> set (providerUsedProtocols db2 pid). text_of proto (pi_endpoints input) = [])
            (Refused ''the endpoint of a protocol is still used by model routes'')) (\<lambda>_.
     bindE (replace_endpoints pid (pi_endpoints input) db2) (\<lambda>db3.
     if p_kind p \<in> {ProviderCodexOAuth, ProviderAntigravityOAuth} then bump_keys pid db3
     else replace_keys now pid (pi_keys input) db3)))))))"

text \<open>The result tells whether the rows were archived or removed.\<close>

definition DeleteProvider :: "instant \<Rightarrow> int \<Rightarrow> database \<Rightarrow> store_error + bool \<times> database" where
  "DeleteProvider now pid db0 =
     bindE (guardE (\<not> some_row (active_provider pid) (providers db0)) NoRows) (\<lambda>_.
     bindE (guardE (some_row (\<lambda>d. d_provider d = pid \<and> live_candidate db0 d) (model_candidates db0))
            ProviderInUse) (\<lambda>_.
     let archived = (some_row (\<lambda>d. d_provider d = pid) (model_candidates db0)
                     \<or> some_row (\<lambda>t. t_provider t = pid) (attempts db0));
         own = k_id ` set (select (\<lambda>k. k_provider k = pid) (upstream_keys db0))
     in
     bindE (exec (db0\<lparr>antigravity_credentials :=
              delete_where (\<lambda>c. c_key c \<in> own) (antigravity_credentials db0)\<rparr>)) (\<lambda>db1.
     if archived then
       bindE (exec (db1\<lparr>providers := update_where (\<lambda>p. p_id p = pid)
                (\<lambda>p. p\<lparr>p_enabled := False, p_archived := Some now\<rparr>) (providers db1)\<rparr>)) (\<lambda>db2.
       bindE (exec (db2\<lparr>upstream_keys := update_where (\<lambda>k. k_provider k = pid \<and> k_archived k = None)
                (\<lambda>k. k\<lparr>k_enabled := False, k_auth := [], k_revision := k_revision k + 1,
                       k_archived := Some now\<rparr>) (upstream_keys db2)\<rparr>)) (\<lambda>db3.
       Inr (True, db3)))
     else
       bindE (exec (db1\<lparr>provider_endpoints :=
                delete_where (\<lambda>e. e_provider e = pid) (provider_endpoints db1)\<rparr>)) (\<lambda>db2.
       bindE (delete_keys (\<lambda>k. k_provider k = pid) db2) (\<lambda>db3.
       bindE (exec (db3\<lparr>providers := delete_where (\<lambda>p. p_id p = pid) (providers db3),
                antigravity_tool_history :=
                  delete_where (\<lambda>h. h_provider h = pid) (antigravity_tool_history db3)\<rparr>)) (\<lambda>db4.
       Inr (False, db4)))))))"

section \<open>Virtual models\<close>

definition validate_candidate :: "database \<Rightarrow> candidate_input \<Rightarrow> store_error + candidate_input" where
  "validate_candidate db c0 =
     bindE (query_row (active_provider (ci_provider_id c0)) (providers db)) (\<lambda>p.
     let c = (if p_kind p = ProviderCodexOAuth then c0\<lparr>ci_default_max := 0, ci_max := 0\<rparr> else c0) in
     bindE (guardE (p_kind p = ProviderAntigravityOAuth
              \<and> (ci_default_max c \<le> 0 \<or> ci_max c < ci_default_max c))
            (Refused ''invalid maximum of output tokens for Antigravity'')) (\<lambda>_.
     bindE (guardE (p_kind p = ProviderAntigravityOAuth
              \<and> (\<exists>q \<in> set (ci_protocols c). EffortLevels q \<noteq> []))
            (Refused ''Antigravity has no explicit reasoning effort'')) (\<lambda>_.
     bindE (guardE (\<exists>q \<in> set (ci_protocols c). \<not> some_row
              (\<lambda>e. e_provider e = ci_provider_id c \<and> e_protocol e = Protocol q) (provider_endpoints db))
            (Refused ''the provider has no endpoint for the protocol'')) (\<lambda>_.
     Inr c))))"

definition validateCandidateProtocols ::
    "database \<Rightarrow> candidate_input list \<Rightarrow> store_error + candidate_input list" where
  "validateCandidateProtocols db cs = mapE (\<lambda>_. validate_candidate db) cs"

definition free_model_name :: "string \<Rightarrow> database \<Rightarrow> store_error + database" where
  "free_model_name name db = exec (db\<lparr>virtual_models :=
     update_where (\<lambda>m. m_name m = name \<and> m_archived m \<noteq> None)
       (\<lambda>m. m\<lparr>m_name := archived_name (m_name m) (m_id m)\<rparr>) (virtual_models db)\<rparr>)"

definition insert_protocol :: "int \<Rightarrow> nat \<times> candidate_protocol \<Rightarrow> database \<Rightarrow> store_error + database" where
  "insert_protocol cid item db = exec (db\<lparr>candidate_protocols := insert_row (\<lambda>_.
     \<lparr>q_candidate = cid, q_protocol = (snd item)\<lparr>Position := int (fst item)\<rparr>\<rparr>)
     (candidate_protocols db)\<rparr>)"

definition insertCandidateProtocols ::
    "int \<Rightarrow> candidate_protocol list \<Rightarrow> database \<Rightarrow> store_error + database" where
  "insertCandidateProtocols cid qs = foldE (insert_protocol cid) (enumerate 0 qs)"

definition insert_candidate :: "int \<Rightarrow> nat \<Rightarrow> candidate_input \<Rightarrow> database \<Rightarrow> store_error + database" where
  "insert_candidate mid position c db = exec (db\<lparr>model_candidates := insert_row (\<lambda>i.
     \<lparr>d_id = i, d_model = mid, d_provider = ci_provider_id c, d_upstream_model = ci_upstream_model c,
      d_position = int position, d_enabled = True, d_default_max = ci_default_max c,
      d_max = ci_max c, d_revision = 1, d_status = ''available'', d_reason = [], d_archived = None\<rparr>)
     (model_candidates db)\<rparr>)"

definition CreateVirtualModel :: "instant \<Rightarrow> model_input \<Rightarrow> database \<Rightarrow> store_error + virtual_model \<times> database" where
  "CreateVirtualModel now input db0 =
     bindE (validateCandidateProtocols db0 (mi_candidates input)) (\<lambda>cs.
     bindE (free_model_name (mi_name input) db0) (\<lambda>db1.
     bindE (exec (db1\<lparr>virtual_models := insert_row (\<lambda>i. \<lparr>m_id = i, m_name = mi_name input,
              m_enabled = True, m_created_at = now, m_archived = None\<rparr>) (virtual_models db1)\<rparr>)) (\<lambda>db2.
     bindE (foldE (\<lambda>(position, c) db. bindE (insert_candidate (last_id (virtual_models db2)) position c db)
              (\<lambda>db'. insertCandidateProtocols (last_id (model_candidates db')) (ci_protocols c) db'))
            (enumerate 0 cs) db2) (\<lambda>db3.
     Inr (\<lparr>vm_id = last_id (virtual_models db2), vm_name = mi_name input, vm_enabled = True,
            vm_candidates = [], vm_created_at = now\<rparr>, db3)))))"

definition active_model :: "int \<Rightarrow> model_row \<Rightarrow> bool" where
  "active_model mid m \<longleftrightarrow> m_id m = mid \<and> m_archived m = None"

definition SetVirtualModelEnabled :: "int \<Rightarrow> bool \<Rightarrow> database \<Rightarrow> store_error + database" where
  "SetVirtualModelEnabled mid enabled db =
     bindE (exec (db\<lparr>virtual_models := update_where (active_model mid)
              (\<lambda>m. m\<lparr>m_enabled := enabled\<rparr>) (virtual_models db)\<rparr>)) (\<lambda>db1.
     bindE (guardE (\<not> some_row (active_model mid) (virtual_models db)) NoRows) (\<lambda>_. Inr db1))"

definition candidateIDs :: "database \<Rightarrow> int \<Rightarrow> int list" where
  "candidateIDs db mid = map d_id (select (\<lambda>d. d_model d = mid \<and> d_archived d = None) (model_candidates db))"

definition change_candidate :: "nat \<Rightarrow> candidate_input \<Rightarrow> database \<Rightarrow> store_error + database" where
  "change_candidate position c db = exec (db\<lparr>model_candidates := update_where (\<lambda>d. d_id d = ci_id c)
     (\<lambda>d. d\<lparr>d_provider := ci_provider_id c, d_upstream_model := ci_upstream_model c,
            d_position := int position, d_default_max := ci_default_max c, d_max := ci_max c,
            d_revision := d_revision d + 1, d_status := ''available'', d_reason := []\<rparr>)
     (model_candidates db)\<rparr>)"

definition delete_protocols :: "int \<Rightarrow> database \<Rightarrow> store_error + database" where
  "delete_protocols cid db = exec (db\<lparr>candidate_protocols :=
     delete_where (\<lambda>q. q_candidate q = cid) (candidate_protocols db)\<rparr>)"

definition update_candidate ::
    "int \<Rightarrow> nat \<times> candidate_input \<Rightarrow> int list \<times> database \<Rightarrow> store_error + int list \<times> database" where
  "update_candidate mid item s =
     (let position = fst item; c = snd item; existing = fst s; db = snd s in
      bindE (if ci_id c = 0 then
               bindE (insert_candidate mid position c db) (\<lambda>db1.
               Inr (last_id (model_candidates db1), existing, db1))
             else
               bindE (guardE (ci_id c \<notin> set existing) NoRows) (\<lambda>_.
               bindE (change_candidate position c db) (\<lambda>db1.
               Inr (ci_id c, removeAll (ci_id c) existing, db1))))
        (\<lambda>(cid, existing1, db1).
      bindE (delete_protocols cid db1) (\<lambda>db2.
      bindE (insertCandidateProtocols cid (ci_protocols c) db2) (\<lambda>db3.
      Inr (existing1, db3)))))"

definition drop_candidate :: "instant \<Rightarrow> int \<Rightarrow> database \<Rightarrow> store_error + database" where
  "drop_candidate now cid db =
     bindE (delete_protocols cid db) (\<lambda>db1.
     exec (db1\<lparr>model_candidates :=
       (if some_row (\<lambda>t. t_candidate t = cid) (attempts db1)
        then update_where (\<lambda>d. d_id d = cid) (\<lambda>d. d\<lparr>d_enabled := False, d_archived := Some now\<rparr>)
               (model_candidates db1)
        else delete_where (\<lambda>d. d_id d = cid) (model_candidates db1))\<rparr>))"

definition UpdateVirtualModel :: "instant \<Rightarrow> int \<Rightarrow> model_input \<Rightarrow> database \<Rightarrow> store_error + database" where
  "UpdateVirtualModel now mid input db0 =
     bindE (validateCandidateProtocols db0 (mi_candidates input)) (\<lambda>cs.
     bindE (free_model_name (mi_name input) db0) (\<lambda>db1.
     bindE (exec (db1\<lparr>virtual_models := update_where (active_model mid)
              (\<lambda>m. m\<lparr>m_name := mi_name input\<rparr>) (virtual_models db1)\<rparr>)) (\<lambda>db2.
     bindE (guardE (\<not> some_row (active_model mid) (virtual_models db1)) NoRows) (\<lambda>_.
     bindE (exec (db2\<lparr>model_candidates := update_where (\<lambda>d. d_model d = mid)
              (\<lambda>d. d\<lparr>d_position := - d_id d\<rparr>) (model_candidates db2)\<rparr>)) (\<lambda>db3.
     bindE (foldE (update_candidate mid) (enumerate 0 cs) (candidateIDs db2 mid, db3)) (\<lambda>(left, db4).
     foldE (drop_candidate now) left db4))))))"

definition DeleteVirtualModel :: "instant \<Rightarrow> int \<Rightarrow> database \<Rightarrow> store_error + bool \<times> database" where
  "DeleteVirtualModel now mid db0 =
     bindE (query_row (active_model mid) (virtual_models db0)) (\<lambda>m.
     let own = d_id ` set (select (\<lambda>d. d_model d = mid) (model_candidates db0));
         archived = (some_row (\<lambda>r. r_model r = m_name m) (requests db0)
                     \<or> some_row (\<lambda>t. t_candidate t \<in> own) (attempts db0))
     in
     if archived then
       bindE (exec (db0\<lparr>virtual_models := update_where (\<lambda>m. m_id m = mid)
                (\<lambda>m. m\<lparr>m_enabled := False, m_archived := Some now\<rparr>) (virtual_models db0)\<rparr>)) (\<lambda>db1.
       bindE (exec (db1\<lparr>model_candidates := update_where (\<lambda>d. d_model d = mid \<and> d_archived d = None)
                (\<lambda>d. d\<lparr>d_enabled := False, d_archived := Some now\<rparr>) (model_candidates db1)\<rparr>)) (\<lambda>db2.
       Inr (True, db2)))
     else
       bindE (exec (db0\<lparr>candidate_protocols :=
                delete_where (\<lambda>q. q_candidate q \<in> own) (candidate_protocols db0)\<rparr>)) (\<lambda>db1.
       bindE (exec (db1\<lparr>model_candidates :=
                delete_where (\<lambda>d. d_model d = mid) (model_candidates db1)\<rparr>)) (\<lambda>db2.
       bindE (exec (db2\<lparr>virtual_models := delete_where (\<lambda>m. m_id m = mid) (virtual_models db2)\<rparr>)) (\<lambda>db3.
       Inr (False, db3)))))"

end
