(* ===== verification/CatalogLaws.thy ===== *)
theory CatalogLaws
  imports Catalog
begin

text \<open>
  The invariant the catalog operations keep beyond the constraints of the schema: every live
  candidate points to a provider that is not archived, the provider has an endpoint for each of
  its protocols, and its limits and effort levels are the ones its kind of provider allows.
\<close>

section \<open>The invariant\<close>

definition limits_ok :: "string \<Rightarrow> int \<Rightarrow> int \<Rightarrow> bool" where
  "limits_ok kind dmax limit \<longleftrightarrow>
     (kind = ProviderAntigravityOAuth \<longrightarrow> 0 < dmax \<and> dmax \<le> limit)
   \<and> (kind = ProviderCodexOAuth \<longrightarrow> dmax = 0 \<and> limit = 0)"

definition has_endpoint :: "database \<Rightarrow> int \<Rightarrow> string \<Rightarrow> bool" where
  "has_endpoint db pid proto \<longleftrightarrow>
     some_row (\<lambda>e. e_provider e = pid \<and> e_protocol e = proto) (provider_endpoints db)"

definition protocol_ok :: "database \<Rightarrow> int \<Rightarrow> string \<Rightarrow> candidate_protocol \<Rightarrow> bool" where
  "protocol_ok db pid kind q \<longleftrightarrow>
     has_endpoint db pid (Protocol q) \<and> (kind = ProviderAntigravityOAuth \<longrightarrow> EffortLevels q = [])"

definition candidate_ok :: "database \<Rightarrow> candidate_row \<Rightarrow> bool" where
  "candidate_ok db d \<longleftrightarrow> (\<exists>p \<in> set (rows (providers db)).
     active_provider (d_provider d) p \<and> limits_ok (p_kind p) (d_default_max d) (d_max d)
   \<and> (\<forall>q \<in> set (rows (candidate_protocols db)). q_candidate q = d_id d \<longrightarrow>
        protocol_ok db (d_provider d) (p_kind p) (q_protocol q)))"

definition numbered :: "database \<Rightarrow> bool" where
  "numbered db \<longleftrightarrow> (\<forall>d \<in> set (rows (model_candidates db)). 0 < d_id d \<and> d_id d \<le> last_id (model_candidates db))
     \<and> (\<forall>m \<in> set (rows (virtual_models db)). 0 < m_id m \<and> m_id m \<le> last_id (virtual_models db))
     \<and> 0 \<le> last_id (model_candidates db) \<and> 0 \<le> last_id (virtual_models db)"

definition live_ok :: "database \<Rightarrow> bool" where
  "live_ok db \<longleftrightarrow> (\<forall>d \<in> set (rows (model_candidates db)). live_candidate db d \<longrightarrow> candidate_ok db d)"

definition catalog_ok :: "database \<Rightarrow> bool" where
  "catalog_ok db \<longleftrightarrow> schema_ok db \<and> numbered db \<and> live_ok db"

lemma live_okI:
  "(\<And>d. d \<in> set (rows (model_candidates db)) \<Longrightarrow> live_candidate db d \<Longrightarrow> candidate_ok db d) \<Longrightarrow> live_ok db"
  by (simp add: live_ok_def)

lemma candidate_okE:
  assumes "candidate_ok db d"
  obtains p where "p \<in> set (rows (providers db))" and "active_provider (d_provider d) p"
    and "limits_ok (p_kind p) (d_default_max d) (d_max d)"
    and "\<And>q. q \<in> set (rows (candidate_protocols db)) \<Longrightarrow> q_candidate q = d_id d \<Longrightarrow>
         protocol_ok db (d_provider d) (p_kind p) (q_protocol q)"
  using assms by (auto simp: candidate_ok_def)

section \<open>Steps that only weaken the catalog\<close>

text \<open>
  \<open>keeps_providers\<close>: every provider that is not archived stays, with its kind. \<open>fewer_live\<close>:
  every live candidate was live before, with the same data.
\<close>

definition keeps_providers :: "database \<Rightarrow> database \<Rightarrow> bool" where
  "keeps_providers db db' \<longleftrightarrow> (\<forall>p \<in> set (rows (providers db)). p_archived p = None \<longrightarrow>
     (\<exists>p' \<in> set (rows (providers db')). p_archived p' = None \<and> p_id p' = p_id p \<and> p_kind p' = p_kind p))"

definition same_candidate :: "candidate_row \<Rightarrow> candidate_row \<Rightarrow> bool" where
  "same_candidate d d' \<longleftrightarrow> d_id d' = d_id d \<and> d_model d' = d_model d \<and> d_provider d' = d_provider d
     \<and> d_default_max d' = d_default_max d \<and> d_max d' = d_max d"

definition fewer_live :: "database \<Rightarrow> database \<Rightarrow> bool" where
  "fewer_live db db' \<longleftrightarrow>
     (\<forall>d' \<in> set (rows (model_candidates db')). live_candidate db' d' \<longrightarrow>
        (\<exists>d \<in> set (rows (model_candidates db)). live_candidate db d \<and> same_candidate d d'))"

definition fewer_protocols :: "database \<Rightarrow> database \<Rightarrow> bool" where
  "fewer_protocols db db' \<longleftrightarrow>
     set (rows (candidate_protocols db')) \<subseteq> set (rows (candidate_protocols db))"

lemma same_candidate_refl [simp]: "same_candidate d d"
  by (simp add: same_candidate_def)

lemma keeps_providers_refl [simp]: "providers db' = providers db \<Longrightarrow> keeps_providers db db'"
  by (auto simp: keeps_providers_def)

lemma fewer_live_refl [simp]:
  "model_candidates db' = model_candidates db \<Longrightarrow> virtual_models db' = virtual_models db \<Longrightarrow> fewer_live db db'"
  by (auto simp: fewer_live_def live_candidate_def intro!: bexI)

lemma fewer_protocols_refl [simp]:
  "candidate_protocols db' = candidate_protocols db \<Longrightarrow> fewer_protocols db db'"
  by (simp add: fewer_protocols_def)

lemma numbered_same:
  "model_candidates db' = model_candidates db \<Longrightarrow> virtual_models db' = virtual_models db \<Longrightarrow>
   numbered db' = numbered db"
  by (simp add: numbered_def)

theorem catalog_ok_weaker:
  assumes ok: "catalog_ok db" and "schema_ok db'"
    and "keeps_providers db db'" and live: "fewer_live db db'" and "fewer_protocols db db'"
    and "numbered db'"
    and endpoints: "\<And>d q. d \<in> set (rows (model_candidates db)) \<Longrightarrow> live_candidate db d \<Longrightarrow>
        q \<in> set (rows (candidate_protocols db)) \<Longrightarrow> q_candidate q = d_id d \<Longrightarrow>
        has_endpoint db (d_provider d) (Protocol (q_protocol q)) \<Longrightarrow>
        has_endpoint db' (d_provider d) (Protocol (q_protocol q))"
  shows "catalog_ok db'"
proof -
  have "live_ok db'"
  proof (rule live_okI)
    fix d' assume d': "d' \<in> set (rows (model_candidates db'))" "live_candidate db' d'"
    with live obtain d where d: "d \<in> set (rows (model_candidates db))" "live_candidate db d"
      and same: "same_candidate d d'"
      by (auto simp: fewer_live_def)
    with ok have "candidate_ok db d" by (simp add: catalog_ok_def live_ok_def)
    then obtain p where p: "p \<in> set (rows (providers db))" "active_provider (d_provider d) p"
      "limits_ok (p_kind p) (d_default_max d) (d_max d)"
      and qs: "\<And>q. q \<in> set (rows (candidate_protocols db)) \<Longrightarrow> q_candidate q = d_id d \<Longrightarrow>
         protocol_ok db (d_provider d) (p_kind p) (q_protocol q)"
      by (rule candidate_okE) blast
    from p(1,2) \<open>keeps_providers db db'\<close> obtain p' where "p' \<in> set (rows (providers db'))"
      "active_provider (d_provider d) p'" "p_kind p' = p_kind p"
      by (auto simp: keeps_providers_def active_provider_def)
    moreover have "\<forall>q \<in> set (rows (candidate_protocols db')). q_candidate q = d_id d \<longrightarrow>
        protocol_ok db' (d_provider d) (p_kind p) (q_protocol q)"
      using qs endpoints [OF d] \<open>fewer_protocols db db'\<close> unfolding protocol_ok_def fewer_protocols_def by blast
    ultimately show "candidate_ok db' d'"
      using p(3) same by (auto simp: candidate_ok_def same_candidate_def)
  qed
  with \<open>schema_ok db'\<close> \<open>numbered db'\<close> show ?thesis by (simp add: catalog_ok_def)
qed

lemma has_endpoint_same: "provider_endpoints db' = provider_endpoints db \<Longrightarrow> has_endpoint db' = has_endpoint db"
  by (simp add: has_endpoint_def fun_eq_iff)

text \<open>Statements that touch none of the five tables of the invariant.\<close>

definition same_catalog :: "database \<Rightarrow> database \<Rightarrow> bool" where
  "same_catalog db db' \<longleftrightarrow> providers db' = providers db \<and> provider_endpoints db' = provider_endpoints db
     \<and> virtual_models db' = virtual_models db \<and> model_candidates db' = model_candidates db
     \<and> candidate_protocols db' = candidate_protocols db"

lemma catalog_ok_same: "catalog_ok db \<Longrightarrow> schema_ok db' \<Longrightarrow> same_catalog db db' \<Longrightarrow> catalog_ok db'"
  by (rule catalog_ok_weaker [where db = db]) (auto simp: same_catalog_def has_endpoint_def catalog_ok_def numbered_def)

end
