(* ===== verification/CatalogInvariant.thy ===== *)
theory CatalogInvariant
  imports CatalogLaws
begin

text \<open>
  Every operation of the catalog keeps the invariant \<open>catalog_ok\<close>.
\<close>

named_theorems catalog_keeps \<open>operations that keep the invariant of the catalog\<close>

lemma catalog_ok_schema: "catalog_ok db \<Longrightarrow> schema_ok db"
  by (simp add: catalog_ok_def)

section \<open>Statements on keys and credentials\<close>

lemma catalog_ok_exec:
  "catalog_ok db \<Longrightarrow> exec db' = Inr d \<Longrightarrow> same_catalog db db' \<Longrightarrow> catalog_ok d"
  by (auto simp: exec_Inr intro: catalog_ok_same)

lemma insert_key_keeps [catalog_keeps]:
  "catalog_ok db \<Longrightarrow> insert_key pid key position enabled db = Inr d \<Longrightarrow> catalog_ok d"
  unfolding insert_key_def by (erule (1) catalog_ok_exec) (simp add: same_catalog_def)

lemma bump_keys_keeps [catalog_keeps]: "catalog_ok db \<Longrightarrow> bump_keys pid db = Inr d \<Longrightarrow> catalog_ok d"
  unfolding bump_keys_def by (erule (1) catalog_ok_exec) (simp add: same_catalog_def)

lemma delete_keys_keeps [catalog_keeps]: "catalog_ok db \<Longrightarrow> delete_keys P db = Inr d \<Longrightarrow> catalog_ok d"
  unfolding delete_keys_def Let_def by (erule (1) catalog_ok_exec) (simp add: same_catalog_def)

lemma drop_key_keeps [catalog_keeps]:
  assumes ok: "catalog_ok db" and run: "drop_key now kid db = Inr d"
  shows "catalog_ok d"
proof (cases "some_row (\<lambda>t. t_key t = kid) (attempts db)")
  case True
  with run ok show ?thesis
    by (auto simp: drop_key_def same_catalog_def elim: catalog_ok_exec)
next
  case False
  with run ok show ?thesis by (simp add: drop_key_def delete_keys_keeps)
qed

lemma update_key_keeps [catalog_keeps]:
  assumes "catalog_ok (snd s)" and "update_key pid item s = Inr s'"
  shows "catalog_ok (snd s')"
  using assms
  by (auto simp: update_key_def Let_def split: if_splits elim!: bindE_InrE
      intro: insert_key_keeps elim: catalog_ok_exec [where db = "snd s"] simp: same_catalog_def)

lemma drop_keys_keep: "catalog_ok db \<Longrightarrow> foldE (drop_key now) ids db = Inr d \<Longrightarrow> catalog_ok d"
  by (erule foldE_invariant [where P = catalog_ok, rotated]) (auto intro: drop_key_keeps)

lemma replace_keys_keeps [catalog_keeps]:
  assumes ok: "catalog_ok db" and run: "replace_keys now pid keys db = Inr d"
  shows "catalog_ok d"
proof -
  from run obtain db1 left db2
    where positions: "exec (db\<lparr>upstream_keys := update_where (\<lambda>k. k_provider k = pid)
              (\<lambda>k. k\<lparr>k_position := - k_id k\<rparr>) (upstream_keys db)\<rparr>) = Inr db1"
      and edited: "foldE (update_key pid) (enumerate 0 keys) (providerKeyIDs db pid, db1) = Inr (left, db2)"
      and dropped: "foldE (drop_key now) left db2 = Inr d"
    by (auto simp: replace_keys_def elim!: bindE_InrE)
  from ok positions have "catalog_ok db1"
    by (rule catalog_ok_exec) (simp add: same_catalog_def)
  then have "catalog_ok (snd (providerKeyIDs db pid, db1))" by simp
  with edited have "catalog_ok (snd (left, db2))"
    by (rule foldE_invariant [where P = "\<lambda>s. catalog_ok (snd s)"]) (auto intro: update_key_keeps)
  with dropped show ?thesis by (auto intro: drop_keys_keep)
qed

section \<open>Statements on providers and endpoints\<close>

lemma catalog_ok_providers:
  assumes "catalog_ok db" and "exec (db\<lparr>providers := t\<rparr>) = Inr d"
    and "\<And>p. p \<in> set (rows (providers db)) \<Longrightarrow> p_archived p = None \<Longrightarrow>
         \<exists>p' \<in> set (rows t). p_archived p' = None \<and> p_id p' = p_id p \<and> p_kind p' = p_kind p"
  shows "catalog_ok d"
  using assms
  by (intro catalog_ok_weaker [where db = db and db' = d])
    (auto simp: exec_Inr keeps_providers_def has_endpoint_def catalog_ok_def numbered_def)

lemma update_provider_rows_keep:
  assumes "catalog_ok db" and "exec (db\<lparr>providers := update_where P f (providers db)\<rparr>) = Inr d"
    and "\<And>p. P p \<Longrightarrow> p_archived p = None \<Longrightarrow>
         p_archived (f p) = None \<and> p_id (f p) = p_id p \<and> p_kind (f p) = p_kind p"
  shows "catalog_ok d"
  using assms(1,2)
proof (rule catalog_ok_providers)
  fix p assume "p \<in> set (rows (providers db))" and "p_archived p = None"
  then show "\<exists>p' \<in> set (rows (update_where P f (providers db))).
      p_archived p' = None \<and> p_id p' = p_id p \<and> p_kind p' = p_kind p"
    using assms(3) [of p] by (intro bexI [where x = "if P p then f p else p"]) auto
qed

lemma free_provider_name_keeps [catalog_keeps]:
  "catalog_ok db \<Longrightarrow> free_provider_name name db = Inr d \<Longrightarrow> catalog_ok d"
  unfolding free_provider_name_def by (erule (1) update_provider_rows_keep) simp

lemma update_provider_row_keeps [catalog_keeps]:
  "catalog_ok db \<Longrightarrow> update_provider_row pid input db = Inr d \<Longrightarrow> catalog_ok d"
  unfolding update_provider_row_def by (erule (1) update_provider_rows_keep) simp

lemma insert_provider_keeps [catalog_keeps]:
  "catalog_ok db \<Longrightarrow> insert_provider now input db = Inr d \<Longrightarrow> catalog_ok d"
  unfolding insert_provider_def by (erule (1) catalog_ok_providers) auto

lemma catalog_ok_endpoints:
  assumes "catalog_ok db" and "schema_ok (db\<lparr>provider_endpoints := t\<rparr>)"
    and "\<And>d q e. d \<in> set (rows (model_candidates db)) \<Longrightarrow> live_candidate db d \<Longrightarrow>
        q \<in> set (rows (candidate_protocols db)) \<Longrightarrow> q_candidate q = d_id d \<Longrightarrow>
        e \<in> set (rows (provider_endpoints db)) \<Longrightarrow>
        e_provider e = d_provider d \<Longrightarrow> e_protocol e = Protocol (q_protocol q) \<Longrightarrow>
        \<exists>e' \<in> set (rows t). e_provider e' = d_provider d \<and> e_protocol e' = Protocol (q_protocol q)"
  shows "catalog_ok (db\<lparr>provider_endpoints := t\<rparr>)"
  using assms(1,2)
  by (rule catalog_ok_weaker)
    (use assms(1,3) in \<open>auto simp: has_endpoint_def some_row_def catalog_ok_def numbered_def\<close>)

lemma insert_endpoint_keeps [catalog_keeps]:
  "catalog_ok db \<Longrightarrow> insert_endpoint pid e db = Inr d \<Longrightarrow> catalog_ok d"
  by (auto simp: insert_endpoint_def exec_Inr intro!: catalog_ok_endpoints)

lemma insert_endpoints:
  assumes "foldE (insert_endpoint pid) es db = Inr d" and "schema_ok db"
  shows "\<exists>t. d = db\<lparr>provider_endpoints := t\<rparr> \<and> schema_ok d \<and>
     set (rows t) = set (rows (provider_endpoints db))
       \<union> (\<lambda>e. \<lparr>e_provider = pid, e_protocol = fst e, e_url = snd e\<rparr>) ` set es"
  using assms
proof (induction es arbitrary: db)
  case Nil
  then show ?case by (intro exI [where x = "provider_endpoints db"]) auto
next
  case (Cons e es)
  then obtain db1 where db1: "insert_endpoint pid e db = Inr db1"
    and rest: "foldE (insert_endpoint pid) es db1 = Inr d"
    by (auto elim: bindE_InrE)
  then have "schema_ok db1" by (simp add: insert_endpoint_def exec_Inr)
  from Cons.IH [OF rest this] obtain t where "d = db1\<lparr>provider_endpoints := t\<rparr>" "schema_ok d"
    "set (rows t) = set (rows (provider_endpoints db1))
       \<union> (\<lambda>e. \<lparr>e_provider = pid, e_protocol = fst e, e_url = snd e\<rparr>) ` set es"
    by blast
  then show ?case using db1
    by (intro exI [where x = t]) (auto simp: insert_endpoint_def exec_Inr)
qed

lemma replace_endpoints_keeps:
  assumes ok: "catalog_ok db"
    and used: "\<forall>proto \<in> set (providerUsedProtocols db pid). text_of proto endpoints \<noteq> []"
    and run: "replace_endpoints pid endpoints db = Inr d"
  shows "catalog_ok d"
proof -
  define others where "others = delete_where (\<lambda>e. e_provider e = pid) (provider_endpoints db)"
  from run obtain "schema_ok (db\<lparr>provider_endpoints := others\<rparr>)"
    and "foldE (insert_endpoint pid) endpoints (db\<lparr>provider_endpoints := others\<rparr>) = Inr d"
    by (auto simp: replace_endpoints_def exec_Inr others_def elim!: bindE_InrE)
  then obtain t where d: "d = db\<lparr>provider_endpoints := t\<rparr>" and schema: "schema_ok d"
    and t: "set (rows t) = set (rows others)
       \<union> (\<lambda>e. \<lparr>e_provider = pid, e_protocol = fst e, e_url = snd e\<rparr>) ` set endpoints"
    using insert_endpoints by fastforce
  show ?thesis unfolding d
  proof (rule catalog_ok_endpoints [OF ok])
    show "schema_ok (db\<lparr>provider_endpoints := t\<rparr>)" using schema d by simp
  next
    fix c q e
    assume live: "c \<in> set (rows (model_candidates db))" "live_candidate db c"
      "q \<in> set (rows (candidate_protocols db))" "q_candidate q = d_id c"
      and e: "e \<in> set (rows (provider_endpoints db))" "e_provider e = d_provider c"
        "e_protocol e = Protocol (q_protocol q)"
    show "\<exists>e' \<in> set (rows t). e_provider e' = d_provider c \<and> e_protocol e' = Protocol (q_protocol q)"
    proof (cases "d_provider c = pid")
      case True
      with live have "Protocol (q_protocol q) \<in> set (providerUsedProtocols db pid)"
        by (auto simp: providerUsedProtocols_def some_row_def intro!: rev_image_eqI [where x = q] bexI [where x = c])
      with used obtain url where "(Protocol (q_protocol q), url) \<in> set endpoints"
        by (fastforce simp: text_of_def split: option.splits dest: map_of_SomeD)
      then have "\<lparr>e_provider = pid, e_protocol = Protocol (q_protocol q), e_url = url\<rparr> \<in> set (rows t)"
        unfolding t by force
      with True show ?thesis by force
    next
      case False
      with e have "e \<in> set (rows others)" by (auto simp: others_def)
      with e t show ?thesis by auto
    qed
  qed
qed

section \<open>Operations on providers\<close>

lemma CreateProvider_keeps [catalog_keeps]:
  assumes ok: "catalog_ok db" and run: "CreateProvider now input db = Inr (p, d)"
  shows "catalog_ok d"
proof -
  from run obtain i db1 db2 db3
    where free: "free_provider_name (pi_name i) db = Inr db1" and new: "insert_provider now i db1 = Inr db2"
      and es: "foldE (insert_endpoint (last_id (providers db2))) (pi_endpoints i) db2 = Inr db3"
      and ks: "foldE (\<lambda>(n, key). insert_key (last_id (providers db2)) key (int n) True)
             (enumerate 0 (pi_keys i)) db3 = Inr d"
    by (auto simp: CreateProvider_def elim!: bindE_InrE)
  from free_provider_name_keeps [OF ok free] new have "catalog_ok db2" by (rule insert_provider_keeps)
  with es have "catalog_ok db3"
    by (rule foldE_invariant [where P = catalog_ok]) (auto intro: insert_endpoint_keeps)
  with ks show ?thesis
    by (rule foldE_invariant [where P = catalog_ok]) (auto intro: insert_key_keeps)
qed

lemma SetProviderEnabled_keeps [catalog_keeps]:
  assumes ok: "catalog_ok db" and run: "SetProviderEnabled pid enabled db = Inr d"
  shows "catalog_ok d"
proof -
  from run obtain db1 where row: "exec (db\<lparr>providers := update_where (active_provider pid)
      (\<lambda>p. p\<lparr>p_enabled := enabled\<rparr>) (providers db)\<rparr>) = Inr db1" and bump: "bump_keys pid db1 = Inr d"
    by (auto simp: SetProviderEnabled_def elim!: bindE_InrE)
  have "catalog_ok db1" by (rule update_provider_rows_keep [OF ok row]) simp
  then show ?thesis using bump by (rule bump_keys_keeps)
qed

lemma UpdateProvider_keeps [catalog_keeps]:
  assumes ok: "catalog_ok db" and run: "UpdateProvider now pid input db = Inr d"
  shows "catalog_ok d"
proof -
  from run obtain i kind db1 db2 db3
    where free: "free_provider_name (pi_name i) db = Inr db1"
      and row: "update_provider_row pid i db1 = Inr db2"
      and used: "\<forall>proto \<in> set (providerUsedProtocols db2 pid). text_of proto (pi_endpoints i) \<noteq> []"
      and es: "replace_endpoints pid (pi_endpoints i) db2 = Inr db3"
      and last: "(if kind \<in> {ProviderCodexOAuth, ProviderAntigravityOAuth} then bump_keys pid db3
         else replace_keys now pid (pi_keys i) db3) = Inr d"
    by (auto simp: UpdateProvider_def elim!: bindE_InrE)
  from free_provider_name_keeps [OF ok free] row have "catalog_ok db2" by (rule update_provider_row_keeps)
  from replace_endpoints_keeps [OF this used es] have "catalog_ok db3" .
  with last show ?thesis by (auto split: if_splits intro: bump_keys_keeps replace_keys_keeps)
qed

section \<open>Candidates\<close>

definition validated :: "database \<Rightarrow> candidate_input \<Rightarrow> bool" where
  "validated db c \<longleftrightarrow> (\<exists>p \<in> set (rows (providers db)).
     active_provider (ci_provider_id c) p \<and> limits_ok (p_kind p) (ci_default_max c) (ci_max c)
   \<and> (\<forall>q \<in> set (ci_protocols c). protocol_ok db (ci_provider_id c) (p_kind p) q))"

lemma validate_candidate_validated:
  assumes "validate_candidate db c = Inr c'"
  shows "validated db c'"
proof -
  from assms obtain p where p: "query_row (active_provider (ci_provider_id c)) (providers db) = Inr p"
    and c': "c' = (if p_kind p = ProviderCodexOAuth then c\<lparr>ci_default_max := 0, ci_max := 0\<rparr> else c)"
    and limits: "\<not> (p_kind p = ProviderAntigravityOAuth \<and> (ci_default_max c' \<le> 0 \<or> ci_max c' < ci_default_max c'))"
    and efforts: "\<not> (p_kind p = ProviderAntigravityOAuth \<and> (\<exists>q \<in> set (ci_protocols c'). EffortLevels q \<noteq> []))"
    and ends: "\<not> (\<exists>q \<in> set (ci_protocols c'). \<not> some_row
       (\<lambda>e. e_provider e = ci_provider_id c' \<and> e_protocol e = Protocol q) (provider_endpoints db))"
    unfolding validate_candidate_def Let_def by (elim bindE_InrE) simp
  from query_row_Inr [OF p] c' limits efforts ends show ?thesis
    unfolding validated_def
    by (intro bexI [where x = p]) (auto simp: limits_ok_def protocol_ok_def has_endpoint_def)
qed

lemma validateCandidateProtocols_validated:
  "validateCandidateProtocols db cs = Inr cs' \<Longrightarrow> \<forall>c \<in> set cs'. validated db c"
  unfolding validateCandidateProtocols_def
  by (erule mapE_from_all) (rule validate_candidate_validated)

lemma validated_same:
  "providers db' = providers db \<Longrightarrow> provider_endpoints db' = provider_endpoints db \<Longrightarrow>
   validated db' c = validated db c"
  by (simp add: validated_def protocol_ok_def has_endpoint_def)

text \<open>The rows a candidate's protocols are written as.\<close>

definition row_of :: "int \<Rightarrow> candidate_protocol list \<Rightarrow> protocol_row \<Rightarrow> bool" where
  "row_of cid qs r \<longleftrightarrow> q_candidate r = cid
     \<and> (\<exists>q \<in> set qs. Protocol (q_protocol r) = Protocol q \<and> EffortLevels (q_protocol r) = EffortLevels q)"

lemma insert_protocols:
  assumes "foldE (insert_protocol cid) (enumerate n qs) db = Inr d" and "schema_ok db"
  shows "\<exists>t. d = db\<lparr>candidate_protocols := t\<rparr> \<and> schema_ok d \<and>
     (\<forall>r \<in> set (rows t). r \<in> set (rows (candidate_protocols db)) \<or> row_of cid qs r)"
  using assms
proof (induction qs arbitrary: n db)
  case Nil
  then show ?case by (intro exI [where x = "candidate_protocols db"]) auto
next
  case (Cons q qs)
  then obtain db1 where db1: "insert_protocol cid (n, q) db = Inr db1"
    and rest: "foldE (insert_protocol cid) (enumerate (Suc n) qs) db1 = Inr d"
    by (auto elim: bindE_InrE)
  then have "schema_ok db1" by (simp add: insert_protocol_def exec_Inr)
  from Cons.IH [OF rest this] obtain t where "d = db1\<lparr>candidate_protocols := t\<rparr>" "schema_ok d"
    "\<forall>r \<in> set (rows t). r \<in> set (rows (candidate_protocols db1)) \<or> row_of cid qs r"
    by blast
  then show ?case using db1
    by (intro exI [where x = t]) (fastforce simp: insert_protocol_def exec_Inr row_of_def)
qed

lemma put_candidate:
  assumes ok: "catalog_ok db" and c: "validated db c" and d: "schema_ok d" "numbered d"
    and same: "providers d = providers db" "provider_endpoints d = provider_endpoints db"
      "virtual_models d = virtual_models db"
    and cands: "\<And>r. r \<in> set (rows (model_candidates d)) \<Longrightarrow>
        r \<in> set (rows (model_candidates db)) \<and> d_id r \<noteq> cid \<or>
        d_id r = cid \<and> d_provider r = ci_provider_id c \<and> d_default_max r = ci_default_max c \<and> d_max r = ci_max c"
    and protos: "\<And>r. r \<in> set (rows (candidate_protocols d)) \<Longrightarrow>
        r \<in> set (rows (candidate_protocols db)) \<and> q_candidate r \<noteq> cid \<or> row_of cid (ci_protocols c) r"
  shows "catalog_ok d"
proof -
  have "candidate_ok d r" if r: "r \<in> set (rows (model_candidates d))" "live_candidate d r" for r
    using cands [OF r(1)]
  proof
    assume old: "r \<in> set (rows (model_candidates db)) \<and> d_id r \<noteq> cid"
    with r same have "live_candidate db r" by (simp add: live_candidate_def)
    with old ok have "candidate_ok db r" by (simp add: catalog_ok_def live_ok_def)
    then show ?thesis
      unfolding candidate_ok_def protocol_ok_def has_endpoint_def same
      using protos old by (fastforce simp: row_of_def)
  next
    assume new: "d_id r = cid \<and> d_provider r = ci_provider_id c \<and> d_default_max r = ci_default_max c \<and> d_max r = ci_max c"
    with c protos show ?thesis
      unfolding candidate_ok_def validated_def protocol_ok_def has_endpoint_def same row_of_def by fastforce
  qed
  with d show ?thesis by (simp add: catalog_ok_def live_ok_def)
qed

text \<open>The protocols of a number no candidate has yet.\<close>

lemma new_candidate_protocols:
  "catalog_ok db \<Longrightarrow> r \<in> set (rows (candidate_protocols db)) \<Longrightarrow>
   q_candidate r \<noteq> last_id (model_candidates db) + 1"
  by (fastforce simp: catalog_ok_def schema_ok_def foreign_keys_def refers_def numbered_def)

lemma new_candidate_number:
  "catalog_ok db \<Longrightarrow> r \<in> set (rows (model_candidates db)) \<Longrightarrow> d_id r \<noteq> last_id (model_candidates db) + 1"
  by (fastforce simp: catalog_ok_def numbered_def)

lemma insert_candidate_keeps:
  assumes ok: "catalog_ok db" and c: "validated db c"
    and ins: "insert_candidate mid position c db = Inr db1"
    and protos: "insertCandidateProtocols (last_id (model_candidates db1)) (ci_protocols c) db2 = Inr d"
    and db2: "db2 = db1\<lparr>candidate_protocols := t\<rparr>" "set (rows t) \<subseteq> set (rows (candidate_protocols db))"
      "schema_ok db2"
  shows "catalog_ok d" and "providers d = providers db" and "provider_endpoints d = provider_endpoints db"
    and "virtual_models d = virtual_models db"
proof -
  have cid: "last_id (model_candidates db1) = last_id (model_candidates db) + 1"
    and db1: "providers db1 = providers db" "provider_endpoints db1 = provider_endpoints db"
      "virtual_models db1 = virtual_models db" "candidate_protocols db1 = candidate_protocols db"
    and cands: "\<And>r. r \<in> set (rows (model_candidates db1)) \<Longrightarrow> r \<in> set (rows (model_candidates db)) \<or>
        d_id r = last_id (model_candidates db) + 1 \<and> d_provider r = ci_provider_id c
        \<and> d_default_max r = ci_default_max c \<and> d_max r = ci_max c"
    using ins by (auto simp: insert_candidate_def exec_Inr)
  obtain u where d: "d = db2\<lparr>candidate_protocols := u\<rparr>" "schema_ok d"
    and u: "\<forall>r \<in> set (rows u). r \<in> set (rows t) \<or> row_of (last_id (model_candidates db) + 1) (ci_protocols c) r"
    using insert_protocols [OF protos [unfolded insertCandidateProtocols_def] db2(3)]
    by (auto simp: db2(1) cid)
  show same: "providers d = providers db" "provider_endpoints d = provider_endpoints db"
    "virtual_models d = virtual_models db" by (simp_all add: d(1) db2(1) db1)
  have "numbered d"
    using ok cands cid unfolding catalog_ok_def numbered_def by (fastforce simp: d(1) db2(1) db1)
  show "catalog_ok d"
  proof (rule put_candidate [OF ok c d(2) \<open>numbered d\<close> same])
    fix r assume "r \<in> set (rows (model_candidates d))"
    then have "r \<in> set (rows (model_candidates db1))" by (simp add: d(1) db2(1))
    from cands [OF this] new_candidate_number [OF ok]
    show "r \<in> set (rows (model_candidates db)) \<and> d_id r \<noteq> last_id (model_candidates db) + 1 \<or>
        d_id r = last_id (model_candidates db) + 1 \<and> d_provider r = ci_provider_id c
        \<and> d_default_max r = ci_default_max c \<and> d_max r = ci_max c" by blast
  next
    fix r assume "r \<in> set (rows (candidate_protocols d))"
    with u db2(2) have "r \<in> set (rows (candidate_protocols db)) \<or>
        row_of (last_id (model_candidates db) + 1) (ci_protocols c) r" by (auto simp: d(1))
    with new_candidate_protocols [OF ok]
    show "r \<in> set (rows (candidate_protocols db)) \<and> q_candidate r \<noteq> last_id (model_candidates db) + 1 \<or>
        row_of (last_id (model_candidates db) + 1) (ci_protocols c) r" by blast
  qed
qed

lemma delete_protocols_Inr:
  "delete_protocols cid db = Inr d \<Longrightarrow> schema_ok d \<and>
   d = db\<lparr>candidate_protocols := delete_where (\<lambda>q. q_candidate q = cid) (candidate_protocols db)\<rparr>"
  by (simp add: delete_protocols_def exec_Inr)

lemma change_candidate_keeps:
  assumes ok: "catalog_ok db" and c: "validated db c"
    and change: "change_candidate position c db = Inr db1" and del: "delete_protocols (ci_id c) db1 = Inr db2"
    and protos: "insertCandidateProtocols (ci_id c) (ci_protocols c) db2 = Inr d"
  shows "catalog_ok d" and "providers d = providers db" and "provider_endpoints d = provider_endpoints db"
    and "virtual_models d = virtual_models db"
proof -
  note db2 = delete_protocols_Inr [OF del]
  have db1: "providers db1 = providers db" "provider_endpoints db1 = provider_endpoints db"
      "virtual_models db1 = virtual_models db" "candidate_protocols db1 = candidate_protocols db"
    and cands: "\<And>r. r \<in> set (rows (model_candidates db1)) \<Longrightarrow>
        r \<in> set (rows (model_candidates db)) \<and> d_id r \<noteq> ci_id c \<or>
        d_id r = ci_id c \<and> d_provider r = ci_provider_id c
        \<and> d_default_max r = ci_default_max c \<and> d_max r = ci_max c"
    and ids: "d_id ` set (rows (model_candidates db1)) \<subseteq> d_id ` set (rows (model_candidates db))"
    and last: "last_id (model_candidates db1) = last_id (model_candidates db)"
    using change by (auto simp: change_candidate_def exec_Inr intro: rev_image_eqI)
  obtain u where d: "d = db2\<lparr>candidate_protocols := u\<rparr>" "schema_ok d"
    and u: "\<forall>r \<in> set (rows u). r \<in> set (rows (candidate_protocols db2)) \<or> row_of (ci_id c) (ci_protocols c) r"
    using insert_protocols [OF protos [unfolded insertCandidateProtocols_def]] db2 by blast
  show same: "providers d = providers db" "provider_endpoints d = provider_endpoints db"
    "virtual_models d = virtual_models db" using db2 by (simp_all add: d(1) db1)
  have cands_d: "model_candidates d = model_candidates db1" using db2 by (simp add: d(1))
  have "numbered d"
    using ok ids last unfolding catalog_ok_def numbered_def cands_d same by (fastforce simp: image_subset_iff)
  then show "catalog_ok d"
  proof (rule put_candidate [OF ok c d(2) _ same])
    fix r assume "r \<in> set (rows (model_candidates d))"
    then show "r \<in> set (rows (model_candidates db)) \<and> d_id r \<noteq> ci_id c \<or>
        d_id r = ci_id c \<and> d_provider r = ci_provider_id c
        \<and> d_default_max r = ci_default_max c \<and> d_max r = ci_max c"
      unfolding cands_d by (rule cands)
  next
    fix r assume "r \<in> set (rows (candidate_protocols d))"
    then show "r \<in> set (rows (candidate_protocols db)) \<and> q_candidate r \<noteq> ci_id c \<or>
        row_of (ci_id c) (ci_protocols c) r"
      using u db2 by (auto simp: d(1) db1)
  qed
qed

definition same_resources :: "database \<Rightarrow> database \<Rightarrow> bool" where
  "same_resources db db' \<longleftrightarrow> providers db' = providers db \<and> provider_endpoints db' = provider_endpoints db"

lemma update_candidate_keeps:
  assumes ok: "catalog_ok (snd s)" and c: "validated (snd s) (snd item)"
    and run: "update_candidate mid item s = Inr s'"
  shows "catalog_ok (snd s')" and "same_resources (snd s) (snd s')"
proof -
  have "catalog_ok (snd s') \<and> same_resources (snd s) (snd s')"
  proof (cases "ci_id (snd item) = 0")
    case True
    with run obtain db1 db2 where ins: "insert_candidate mid (fst item) (snd item) (snd s) = Inr db1"
      and del: "delete_protocols (last_id (model_candidates db1)) db1 = Inr db2"
      and protos: "insertCandidateProtocols (last_id (model_candidates db1)) (ci_protocols (snd item)) db2 = Inr (snd s')"
      by (auto simp: update_candidate_def Let_def elim!: bindE_InrE)
    have "candidate_protocols db1 = candidate_protocols (snd s)"
      using ins by (auto simp: insert_candidate_def exec_Inr)
    then have fewer: "set (rows (delete_where (\<lambda>q. q_candidate q = last_id (model_candidates db1)) (candidate_protocols db1)))
      \<subseteq> set (rows (candidate_protocols (snd s)))" by auto
    have db2: "db2 = db1\<lparr>candidate_protocols :=
        delete_where (\<lambda>q. q_candidate q = last_id (model_candidates db1)) (candidate_protocols db1)\<rparr>"
      "schema_ok db2" using delete_protocols_Inr [OF del] by blast+
    from insert_candidate_keeps [OF ok c ins protos db2(1) fewer db2(2)] show ?thesis
      by (simp add: same_resources_def)
  next
    case False
    with run obtain db1 db2 where "change_candidate (fst item) (snd item) (snd s) = Inr db1"
      and "delete_protocols (ci_id (snd item)) db1 = Inr db2"
      and "insertCandidateProtocols (ci_id (snd item)) (ci_protocols (snd item)) db2 = Inr (snd s')"
      by (auto simp: update_candidate_def Let_def elim!: bindE_InrE)
    from change_candidate_keeps [OF ok c this] show ?thesis by (simp add: same_resources_def)
  qed
  then show "catalog_ok (snd s')" and "same_resources (snd s) (snd s')" by simp_all
qed

lemma catalog_ok_candidates:
  assumes ok: "catalog_ok db" and "schema_ok (db\<lparr>model_candidates := t\<rparr>)"
    and last: "last_id t = last_id (model_candidates db)"
    and same: "\<And>r. r \<in> set (rows t) \<Longrightarrow> \<exists>d \<in> set (rows (model_candidates db)). same_candidate d r
        \<and> (d_archived r = None \<longrightarrow> d_archived d = None)"
  shows "catalog_ok (db\<lparr>model_candidates := t\<rparr>)"
  using assms(1,2)
proof (rule catalog_ok_weaker)
  show "fewer_live db (db\<lparr>model_candidates := t\<rparr>)"
    unfolding fewer_live_def live_candidate_def using same by (fastforce simp: same_candidate_def)
  show "numbered (db\<lparr>model_candidates := t\<rparr>)"
    using ok last same unfolding catalog_ok_def numbered_def by (fastforce simp: same_candidate_def)
qed (simp_all add: has_endpoint_def)

lemma update_candidate_rows_keep:
  assumes ok: "catalog_ok db" and run: "exec (db\<lparr>model_candidates := update_where P f (model_candidates db)\<rparr>) = Inr d"
    and f: "\<And>c. same_candidate c (f c)" "\<And>c. d_archived (f c) = None \<Longrightarrow> d_archived c = None"
  shows "catalog_ok d"
proof -
  from run have schema: "schema_ok (db\<lparr>model_candidates := update_where P f (model_candidates db)\<rparr>)"
    and d: "d = db\<lparr>model_candidates := update_where P f (model_candidates db)\<rparr>" by (simp_all add: exec_Inr)
  show ?thesis unfolding d using ok schema
  proof (rule catalog_ok_candidates)
    fix r assume "r \<in> set (rows (update_where P f (model_candidates db)))"
    then obtain c where "c \<in> set (rows (model_candidates db))" "r = (if P c then f c else c)" by auto
    with f show "\<exists>c \<in> set (rows (model_candidates db)). same_candidate c r
        \<and> (d_archived r = None \<longrightarrow> d_archived c = None)" by (intro bexI [where x = c]) auto
  qed simp
qed

lemma delete_candidate_rows_keep:
  "catalog_ok db \<Longrightarrow> exec (db\<lparr>model_candidates := delete_where P (model_candidates db)\<rparr>) = Inr d \<Longrightarrow> catalog_ok d"
  by (auto simp: exec_Inr intro!: catalog_ok_candidates intro: same_candidate_refl)

lemma catalog_ok_protocols:
  assumes "catalog_ok db" and "schema_ok (db\<lparr>candidate_protocols := t\<rparr>)"
    and "set (rows t) \<subseteq> set (rows (candidate_protocols db))"
  shows "catalog_ok (db\<lparr>candidate_protocols := t\<rparr>)"
  using assms(1,2)
  by (rule catalog_ok_weaker)
    (use assms(1,3) in \<open>auto simp: fewer_protocols_def has_endpoint_def catalog_ok_def numbered_def\<close>)

lemma delete_protocols_keeps: "catalog_ok db \<Longrightarrow> delete_protocols cid db = Inr d \<Longrightarrow> catalog_ok d"
  by (drule delete_protocols_Inr) (auto intro!: catalog_ok_protocols)

lemma drop_candidate_keeps:
  assumes ok: "catalog_ok db" and run: "drop_candidate now cid db = Inr d"
  shows "catalog_ok d"
proof -
  from run obtain db1 where del: "delete_protocols cid db = Inr db1" and d: "schema_ok d"
    "d = db1\<lparr>model_candidates :=
       (if some_row (\<lambda>t. t_candidate t = cid) (attempts db1)
        then update_where (\<lambda>d. d_id d = cid) (\<lambda>d. d\<lparr>d_enabled := False, d_archived := Some now\<rparr>)
               (model_candidates db1)
        else delete_where (\<lambda>d. d_id d = cid) (model_candidates db1))\<rparr>"
    by (auto simp: drop_candidate_def exec_Inr elim!: bindE_InrE)
  from ok del have "catalog_ok db1" by (rule delete_protocols_keeps)
  then show ?thesis
    using d(1) unfolding d(2)
    by (rule catalog_ok_candidates) (auto simp: same_candidate_def split: if_splits)
qed

section \<open>Operations on virtual models\<close>

lemma catalog_ok_models:
  assumes ok: "catalog_ok db" and "schema_ok (db\<lparr>virtual_models := t\<rparr>)"
    and number: "\<And>m. m \<in> set (rows t) \<Longrightarrow> 0 < m_id m \<and> m_id m \<le> last_id t" "0 \<le> last_id t"
    and live: "\<And>d m. d \<in> set (rows (model_candidates db)) \<Longrightarrow> d_archived d = None \<Longrightarrow> m \<in> set (rows t) \<Longrightarrow>
        m_id m = d_model d \<Longrightarrow> m_archived m = None \<Longrightarrow>
        some_row (\<lambda>m. m_id m = d_model d \<and> m_archived m = None) (virtual_models db)"
  shows "catalog_ok (db\<lparr>virtual_models := t\<rparr>)"
  using assms(1,2)
proof (rule catalog_ok_weaker)
  show "fewer_live db (db\<lparr>virtual_models := t\<rparr>)"
    using live by (fastforce simp: fewer_live_def live_candidate_def some_row_def)
  show "numbered (db\<lparr>virtual_models := t\<rparr>)"
    using ok number unfolding catalog_ok_def numbered_def by simp
qed (simp_all add: has_endpoint_def)

lemma update_model_rows_keep:
  assumes ok: "catalog_ok db" and "exec (db\<lparr>virtual_models := update_where P f (virtual_models db)\<rparr>) = Inr d"
    and f: "\<And>m. m_id (f m) = m_id m" "\<And>m. P m \<Longrightarrow> m_archived (f m) = None \<Longrightarrow> m_archived m = None"
  shows "catalog_ok d"
proof -
  from assms(2) have schema: "schema_ok (db\<lparr>virtual_models := update_where P f (virtual_models db)\<rparr>)"
    and d: "d = db\<lparr>virtual_models := update_where P f (virtual_models db)\<rparr>"
    by (simp_all add: exec_Inr)
  show ?thesis unfolding d using ok schema
    by (rule catalog_ok_models)
      (use ok f in \<open>auto simp: catalog_ok_def numbered_def some_row_def split: if_splits\<close>)
qed

lemma free_model_name_keeps [catalog_keeps]:
  "catalog_ok db \<Longrightarrow> free_model_name name db = Inr d \<Longrightarrow> catalog_ok d"
  unfolding free_model_name_def by (erule (1) update_model_rows_keep) simp_all

lemma SetVirtualModelEnabled_keeps [catalog_keeps]:
  assumes ok: "catalog_ok db" and run: "SetVirtualModelEnabled mid enabled db = Inr d"
  shows "catalog_ok d"
proof -
  from run have "exec (db\<lparr>virtual_models := update_where (active_model mid)
      (\<lambda>m. m\<lparr>m_enabled := enabled\<rparr>) (virtual_models db)\<rparr>) = Inr d"
    by (auto simp: SetVirtualModelEnabled_def elim!: bindE_InrE)
  then show ?thesis by (rule update_model_rows_keep [OF ok]) simp_all
qed

lemma insert_candidates_keep:
  assumes run: "foldE (\<lambda>(position, c) db. bindE (insert_candidate mid position c db)
              (\<lambda>db'. insertCandidateProtocols (last_id (model_candidates db')) (ci_protocols c) db')) items db = Inr d"
    and ok: "catalog_ok db" and cs: "\<forall>c \<in> snd ` set items. validated db c"
  shows "catalog_ok d"
proof -
  have "catalog_ok d \<and> same_resources db d"
    using run
  proof (rule foldE_invariant [where P = "\<lambda>d. catalog_ok d \<and> same_resources db d"])
    show "catalog_ok db \<and> same_resources db db" using ok by (simp add: same_resources_def)
  next
    fix item s t
    assume "item \<in> set items" and s: "catalog_ok s \<and> same_resources db s"
      and "(case item of (position, c) \<Rightarrow> \<lambda>db. bindE (insert_candidate mid position c db)
              (\<lambda>db'. insertCandidateProtocols (last_id (model_candidates db')) (ci_protocols c) db')) s = Inr t"
    then obtain position c s' where item: "item = (position, c)"
      and ins: "insert_candidate mid position c s = Inr s'"
      and protos: "insertCandidateProtocols (last_id (model_candidates s')) (ci_protocols c) s' = Inr t"
      by (auto elim!: bindE_InrE split: prod.splits)
    have s': "s' = s'\<lparr>candidate_protocols := candidate_protocols s\<rparr>" "schema_ok s'"
      using ins by (simp_all add: insert_candidate_def exec_Inr)
    have "validated s c" using cs \<open>item \<in> set items\<close> s item
      by (subst validated_same) (force simp: same_resources_def)+
    from insert_candidate_keeps [OF _ this ins protos s'(1) subset_refl s'(2)] s
    show "catalog_ok t \<and> same_resources db t" by (simp add: same_resources_def)
  qed
  then show ?thesis by simp
qed

lemma insert_model_keeps:
  assumes ok: "catalog_ok db"
    and ins: "exec (db\<lparr>virtual_models := insert_row f (virtual_models db)\<rparr>) = Inr d"
    and f: "\<And>i. m_id (f i) = i"
  shows "catalog_ok d"
proof -
  from ins have schema: "schema_ok (db\<lparr>virtual_models := insert_row f (virtual_models db)\<rparr>)"
    and d: "d = db\<lparr>virtual_models := insert_row f (virtual_models db)\<rparr>" by (simp_all add: exec_Inr)
  have "\<forall>c \<in> set (rows (model_candidates db)). d_model c \<noteq> last_id (virtual_models db) + 1"
    using ok by (fastforce simp: catalog_ok_def schema_ok_def foreign_keys_def refers_def numbered_def)
  with ok f show ?thesis
    unfolding d by (intro catalog_ok_models [OF ok schema]) (auto simp: catalog_ok_def numbered_def some_row_def)
qed

lemma CreateVirtualModel_keeps [catalog_keeps]:
  assumes ok: "catalog_ok db" and run: "CreateVirtualModel now input db = Inr (m, d)"
  shows "catalog_ok d"
proof -
  from run obtain cs db1 db2 where valid: "validateCandidateProtocols db (mi_candidates input) = Inr cs"
    and free: "free_model_name (mi_name input) db = Inr db1"
    and new: "exec (db1\<lparr>virtual_models := insert_row (\<lambda>i. \<lparr>m_id = i, m_name = mi_name input,
              m_enabled = True, m_created_at = now, m_archived = None\<rparr>) (virtual_models db1)\<rparr>) = Inr db2"
    and cands: "foldE (\<lambda>(position, c) db. bindE (insert_candidate (last_id (virtual_models db2)) position c db)
              (\<lambda>db'. insertCandidateProtocols (last_id (model_candidates db')) (ci_protocols c) db'))
            (enumerate 0 cs) db2 = Inr d"
    by (auto simp: CreateVirtualModel_def elim!: bindE_InrE)
  from free_model_name_keeps [OF ok free] new have "catalog_ok db2"
    by (rule insert_model_keeps) simp
  moreover have same: "providers db2 = providers db" "provider_endpoints db2 = provider_endpoints db"
    using free new by (simp_all add: free_model_name_def exec_Inr)
  have "\<forall>c \<in> snd ` set (enumerate 0 cs). validated db2 c"
    using validateCandidateProtocols_validated [OF valid]
    by (auto simp: validated_same [OF same] in_set_enumerate_eq)
  ultimately show ?thesis by (rule insert_candidates_keep [OF cands])
qed

lemma update_candidates_keep:
  assumes run: "foldE (update_candidate mid) items s = Inr s'" and ok: "catalog_ok (snd s)"
    and cs: "\<forall>c \<in> snd ` set items. validated (snd s) c"
  shows "catalog_ok (snd s')"
proof -
  have "catalog_ok (snd s') \<and> same_resources (snd s) (snd s')"
    using run
  proof (rule foldE_invariant [where P = "\<lambda>u. catalog_ok (snd u) \<and> same_resources (snd s) (snd u)"])
    show "catalog_ok (snd s) \<and> same_resources (snd s) (snd s)" using ok by (simp add: same_resources_def)
  next
    fix item u v
    assume item: "item \<in> set items" and u: "catalog_ok (snd u) \<and> same_resources (snd s) (snd u)"
      and step: "update_candidate mid item u = Inr v"
    have "validated (snd u) (snd item)" using cs item u
      by (subst validated_same) (auto simp: same_resources_def)
    from update_candidate_keeps [OF _ this step] u
    show "catalog_ok (snd v) \<and> same_resources (snd s) (snd v)" by (simp add: same_resources_def)
  qed
  then show ?thesis by simp
qed

lemma UpdateVirtualModel_keeps [catalog_keeps]:
  assumes ok: "catalog_ok db" and run: "UpdateVirtualModel now mid input db = Inr d"
  shows "catalog_ok d"
proof -
  from run obtain cs db1 db2 db3 left db4
    where valid: "validateCandidateProtocols db (mi_candidates input) = Inr cs"
      and free: "free_model_name (mi_name input) db = Inr db1"
      and name: "exec (db1\<lparr>virtual_models := update_where (active_model mid)
              (\<lambda>m. m\<lparr>m_name := mi_name input\<rparr>) (virtual_models db1)\<rparr>) = Inr db2"
      and positions: "exec (db2\<lparr>model_candidates := update_where (\<lambda>d. d_model d = mid)
              (\<lambda>d. d\<lparr>d_position := - d_id d\<rparr>) (model_candidates db2)\<rparr>) = Inr db3"
      and cands: "foldE (update_candidate mid) (enumerate 0 cs) (candidateIDs db2 mid, db3) = Inr (left, db4)"
      and dropped: "foldE (drop_candidate now) left db4 = Inr d"
    by (auto simp: UpdateVirtualModel_def elim!: bindE_InrE)
  from free_model_name_keeps [OF ok free] name have "catalog_ok db2"
    by (rule update_model_rows_keep) simp_all
  from update_candidate_rows_keep [OF this positions]
  have ok3: "catalog_ok (snd (candidateIDs db2 mid, db3))" by (simp add: same_candidate_def)
  have same: "providers db3 = providers db" "provider_endpoints db3 = provider_endpoints db"
    using free name positions by (simp_all add: free_model_name_def exec_Inr)
  have "\<forall>c \<in> snd ` set (enumerate 0 cs). validated (snd (candidateIDs db2 mid, db3)) c"
    using validateCandidateProtocols_validated [OF valid]
    by (auto simp: validated_same [OF same] in_set_enumerate_eq)
  from update_candidates_keep [OF cands ok3 this] have "catalog_ok db4" by simp
  with dropped show ?thesis
    by (rule foldE_invariant [where P = catalog_ok]) (auto intro: drop_candidate_keeps)
qed

lemma DeleteVirtualModel_keeps [catalog_keeps]:
  assumes ok: "catalog_ok db" and run: "DeleteVirtualModel now mid db = Inr (archived, d)"
  shows "catalog_ok d"
proof (cases archived)
  case True
  with run obtain db1 where model: "exec (db\<lparr>virtual_models := update_where (\<lambda>m. m_id m = mid)
                (\<lambda>m. m\<lparr>m_enabled := False, m_archived := Some now\<rparr>) (virtual_models db)\<rparr>) = Inr db1"
    and cands: "exec (db1\<lparr>model_candidates := update_where (\<lambda>d. d_model d = mid \<and> d_archived d = None)
                (\<lambda>d. d\<lparr>d_enabled := False, d_archived := Some now\<rparr>) (model_candidates db1)\<rparr>) = Inr d"
    by (auto simp: DeleteVirtualModel_def Let_def split: if_splits elim!: bindE_InrE)
  from ok model have "catalog_ok db1" by (rule update_model_rows_keep) simp_all
  from update_candidate_rows_keep [OF this cands] show ?thesis by (simp add: same_candidate_def)
next
  case False
  with run obtain own db1 db2 where protos: "exec (db\<lparr>candidate_protocols :=
                delete_where (\<lambda>q. q_candidate q \<in> own) (candidate_protocols db)\<rparr>) = Inr db1"
    and cands: "exec (db1\<lparr>model_candidates :=
                delete_where (\<lambda>d. d_model d = mid) (model_candidates db1)\<rparr>) = Inr db2"
    and model: "exec (db2\<lparr>virtual_models := delete_where (\<lambda>m. m_id m = mid) (virtual_models db2)\<rparr>) = Inr d"
    by (auto simp: DeleteVirtualModel_def Let_def split: if_splits elim!: bindE_InrE)
  from ok protos have "catalog_ok db1" by (auto simp: exec_Inr intro!: catalog_ok_protocols)
  from delete_candidate_rows_keep [OF this cands] have ok2: "catalog_ok db2" .
  with model show ?thesis
    by (auto simp: exec_Inr some_row_def catalog_ok_def [of db2] numbered_def intro!: catalog_ok_models)
qed

lemma DeleteProvider_keeps [catalog_keeps]:
  assumes ok: "catalog_ok db" and run: "DeleteProvider now pid db = Inr (archived, d)"
  shows "catalog_ok d"
proof -
  define gone where "gone db' \<longleftrightarrow> providers db' = providers db \<and> model_candidates db' = model_candidates db
     \<and> virtual_models db' = virtual_models db \<and> candidate_protocols db' = candidate_protocols db" for db'
  from run have unused: "\<And>c. c \<in> set (rows (model_candidates db)) \<Longrightarrow> live_candidate db c \<Longrightarrow> d_provider c \<noteq> pid"
    by (auto simp: DeleteProvider_def Let_def some_row_def elim!: bindE_InrE)
  have weaker: "catalog_ok d" if "schema_ok d" "model_candidates d = model_candidates db"
      "virtual_models d = virtual_models db" "candidate_protocols d = candidate_protocols db"
      "\<And>p. p \<in> set (rows (providers db)) \<Longrightarrow> p_id p \<noteq> pid \<Longrightarrow> p \<in> set (rows (providers d))"
      "\<And>e. e \<in> set (rows (provider_endpoints db)) \<Longrightarrow> e_provider e \<noteq> pid \<Longrightarrow> e \<in> set (rows (provider_endpoints d))"
  proof -
    have "candidate_ok d c" if c: "c \<in> set (rows (model_candidates db))" "live_candidate db c" for c
      using ok c unused [OF c] \<open>candidate_protocols d = candidate_protocols db\<close> that
        \<open>\<And>p. p \<in> set (rows (providers db)) \<Longrightarrow> p_id p \<noteq> pid \<Longrightarrow> p \<in> set (rows (providers d))\<close>
        \<open>\<And>e. e \<in> set (rows (provider_endpoints db)) \<Longrightarrow> e_provider e \<noteq> pid \<Longrightarrow> e \<in> set (rows (provider_endpoints d))\<close>
      unfolding catalog_ok_def live_ok_def candidate_ok_def protocol_ok_def has_endpoint_def some_row_def
        active_provider_def by fastforce
    with that ok show ?thesis by (simp add: catalog_ok_def live_ok_def live_candidate_def numbered_def)
  qed
  show ?thesis
    using run
    by (intro weaker)
      (auto simp: DeleteProvider_def delete_keys_def Let_def exec_Inr split: if_splits elim!: bindE_InrE)
qed

end
