(* ===== verification/Rfc3339.thy ===== *)
theory Rfc3339
  imports Database
begin

text \<open>
  Dates of package \<^verbatim>\<open>time\<close>: the proleptic Gregorian calendar, reading a time of a JSON
  document (\<^verbatim>\<open>Time.UnmarshalJSON\<close>, strict RFC 3339) and writing one (\<^verbatim>\<open>formatTime\<close>,
  RFC3339Nano in UTC). An instant is the number of nanoseconds since 1970-01-01T00:00:00Z.
\<close>

definition days_from_civil :: "int \<Rightarrow> int \<Rightarrow> int \<Rightarrow> int" where
  "days_from_civil y m d =
     (let y' = (if m \<le> 2 then y - 1 else y); era = y' div 400; yoe = y' mod 400;
          doy = (153 * (m + (if m > 2 then - 3 else 9)) + 2) div 5 + d - 1;
          doe = yoe * 365 + yoe div 4 - yoe div 100 + doy
      in era * 146097 + doe - 719468)"

definition civil_from_days :: "int \<Rightarrow> int \<times> int \<times> int" where
  "civil_from_days n =
     (let z = n + 719468; era = z div 146097; doe = z mod 146097;
          yoe = (doe - doe div 1460 + doe div 36524 - doe div 146096) div 365;
          doy = doe - (365 * yoe + yoe div 4 - yoe div 100); mp = (5 * doy + 2) div 153;
          d = doy - (153 * mp + 2) div 5 + 1; m = (if mp < 10 then mp + 3 else mp - 9)
      in (yoe + era * 400 + (if m \<le> 2 then 1 else 0), m, d))"

definition leap_year :: "int \<Rightarrow> bool" where
  "leap_year y \<longleftrightarrow> y mod 4 = 0 \<and> (y mod 100 \<noteq> 0 \<or> y mod 400 = 0)"

definition days_in_month :: "int \<Rightarrow> int \<Rightarrow> int" where
  "days_in_month y m = (if m = 2 then (if leap_year y then 29 else 28)
     else if m \<in> {4, 6, 9, 11} then 30 else 31)"

definition digits_value :: "string \<Rightarrow> int" where
  "digits_value s = foldl (\<lambda>n c. 10 * n + int (digit_val c)) 0 s"

text \<open>Exactly \<^verbatim>\<open>n\<close> digits at the start of the text.\<close>

definition take_digits :: "nat \<Rightarrow> string \<Rightarrow> (int \<times> string) option" where
  "take_digits n s = (if length (take n s) = n \<and> list_all is_digit (take n s)
     then Some (digits_value (take n s), drop n s) else None)"

definition take_char :: "char \<Rightarrow> string \<Rightarrow> string option" where
  "take_char c s = (case s of [] \<Rightarrow> None | a # r \<Rightarrow> if a = c then Some r else None)"

definition parse_fraction :: "string \<Rightarrow> (int \<times> string) option" where
  "parse_fraction s = (case s of
       c # r \<Rightarrow> if c = CHR ''.'' then
           (let f = takeWhile is_digit r in
            if f = [] then None
            else Some (digits_value (take 9 (f @ replicate 9 CHR ''0'')), dropWhile is_digit r))
         else Some (0, s)
     | [] \<Rightarrow> Some (0, s))"

definition parse_zone :: "string \<Rightarrow> int option" where
  "parse_zone s = (case s of [] \<Rightarrow> None | c # r \<Rightarrow>
     if c = CHR ''Z'' then (if r = [] then Some 0 else None)
     else if c = CHR ''+'' \<or> c = CHR ''-'' then
       Option.bind (take_digits 2 r) (\<lambda>(h, r1).
       Option.bind (take_char (CHR '':'') r1) (\<lambda>r2.
       Option.bind (take_digits 2 r2) (\<lambda>(m, r3).
       if r3 = [] \<and> h < 24 \<and> m < 60
       then Some ((if c = CHR ''+'' then 1 else - 1) * (h * 3600 + m * 60)) else None)))
     else None)"

definition parse_rfc3339 :: "string \<Rightarrow> instant option" where
  "parse_rfc3339 s =
     Option.bind (take_digits 4 s) (\<lambda>(year, s1). Option.bind (take_char (CHR ''-'') s1) (\<lambda>s2.
     Option.bind (take_digits 2 s2) (\<lambda>(month, s3). Option.bind (take_char (CHR ''-'') s3) (\<lambda>s4.
     Option.bind (take_digits 2 s4) (\<lambda>(day, s5). Option.bind (take_char (CHR ''T'') s5) (\<lambda>s6.
     Option.bind (take_digits 2 s6) (\<lambda>(hh, s7). Option.bind (take_char (CHR '':'') s7) (\<lambda>s8.
     Option.bind (take_digits 2 s8) (\<lambda>(mm, s9). Option.bind (take_char (CHR '':'') s9) (\<lambda>s10.
     Option.bind (take_digits 2 s10) (\<lambda>(ss, s11). Option.bind (parse_fraction s11) (\<lambda>(ns, s12).
     Option.bind (parse_zone s12) (\<lambda>zone.
     if 1 \<le> month \<and> month \<le> 12 \<and> 1 \<le> day \<and> day \<le> days_in_month year month
        \<and> hh < 24 \<and> mm < 60 \<and> ss < 60
     then Some ((days_from_civil year month day * 86400 + hh * 3600 + mm * 60 + ss - zone) * second + ns)
     else None)))))))))))))"

definition formatTime :: "instant \<Rightarrow> string" where
  "formatTime t =
     (let secs = t div second; (y, m, d) = civil_from_days (secs div 86400); r = secs mod 86400 in
      pad_digits 4 y @ ''-'' @ pad_digits 2 m @ ''-'' @ pad_digits 2 d @ ''T''
      @ pad_digits 2 (r div 3600) @ '':'' @ pad_digits 2 (r div 60 mod 60) @ '':'' @ pad_digits 2 (r mod 60)
      @ fraction_text t)"

text \<open>A \<^verbatim>\<open>*time.Time\<close> field.\<close>

fun dec_time :: "instant \<Rightarrow> json \<Rightarrow> instant decoded" where
  "dec_time x JNull = (x, True)"
| "dec_time x (JStr s) = (case parse_rfc3339 s of Some t \<Rightarrow> (t, True) | None \<Rightarrow> (x, False))"
| "dec_time x _ = (x, False)"

abbreviation f_ptr_time :: "string \<Rightarrow> members \<Rightarrow> instant option decoded" where
  "f_ptr_time k \<equiv> field (dec_ptr dec_time 0) None k"

end
