(* ===== verification/CodexAuth.thy ===== *)
theory CodexAuth
  imports Rfc3339 GoEncode
begin

text \<open>
  Credentials of Codex accounts (internal/codex/auth.go and the answer of the token endpoint in
  internal/codex/oauth.go): reading an auth.json, the identity in its tokens, and the document
  after a refresh. Splitting and decoding a JWT is the library golang-jwt: the parameter \<open>jwt\<close>
  gives the claims of a token and its \<^verbatim>\<open>exp\<close> claim when that is a valid time.
\<close>

type_synonym jwt_parser = "string \<Rightarrow> (members \<times> instant option) option"

record tokens =
  IDToken :: string
  AccessToken :: string
  RefreshToken :: string
  TokenAccountID :: string

record identity =
  UserID :: string
  AccountID :: string
  Email :: string
  Plan :: string

record auth =
  auth_tokens :: tokens
  auth_identity :: identity
  auth_expires_at :: instant
  auth_last_refresh :: "instant option"
  auth_raw :: members

definition tokens_struct :: "members \<Rightarrow> tokens decoded" where
  "tokens_struct kvs =
     (let (i, ok1) = f_string ''id_token'' kvs; (a, ok2) = f_string ''access_token'' kvs;
          (r, ok3) = f_string ''refresh_token'' kvs; (c, ok4) = f_string ''account_id'' kvs
      in (\<lparr>IDToken = i, AccessToken = a, RefreshToken = r, TokenAccountID = c\<rparr>, ok1 \<and> ok2 \<and> ok3 \<and> ok4))"

text \<open>Type assertions on decoded claims: a value of another type counts as absent.\<close>

definition claim_text :: "members \<Rightarrow> string \<Rightarrow> string" where
  "claim_text m k = (case entry k m of Some (JStr s) \<Rightarrow> s | _ \<Rightarrow> [])"

definition claim_map :: "members \<Rightarrow> string \<Rightarrow> members" where
  "claim_map m k = (case entry k m of Some (JObj kvs) \<Rightarrow> kvs | _ \<Rightarrow> [])"

definition first_text :: "string list \<Rightarrow> string" where
  "first_text ss = (case dropWhile (\<lambda>s. s = []) ss of [] \<Rightarrow> [] | s # _ \<Rightarrow> s)"

definition tokenMetadata :: "jwt_parser \<Rightarrow> string \<Rightarrow> go_error + identity \<times> instant option" where
  "tokenMetadata jwt token = (case jwt token of
       None \<Rightarrow> Inl (Errorf ''invalid token'' [])
     | Some (claims, exp) \<Rightarrow>
         (let account = claim_map claims ''https://api.openai.com/auth'';
              i = \<lparr>UserID = first_text [claim_text account ''chatgpt_user_id'', claim_text account ''user_id'',
                     claim_text claims ''sub''],
                   AccountID = claim_text account ''chatgpt_account_id'',
                   Email = first_text [claim_text claims ''email'',
                     claim_text (claim_map claims ''https://api.openai.com/profile'') ''email''],
                   Plan = claim_text account ''chatgpt_plan_type''\<rparr>
          in bindE (guardE (UserID i = [] \<or> AccountID i = []) (Errorf ''token without user or workspace'' [])) (\<lambda>_.
             bindE (guardE (entry ''chatgpt_account_is_fedramp'' account = Some (JBool True))
               (Errorf ''FedRAMP workspaces are not supported'' [])) (\<lambda>_.
             Inr (i, exp)))))"

definition auth_file_struct ::
    "members \<Rightarrow> (string \<times> string option \<times> tokens \<times> instant option) decoded" where
  "auth_file_struct kvs =
     (let (mode, ok1) = f_string ''auth_mode'' kvs; (key, ok2) = f_ptr_string ''OPENAI_API_KEY'' kvs;
          (toks, ok3) = f_struct tokens_struct ''tokens'' kvs; (refresh, ok4) = f_ptr_time ''last_refresh'' kvs
      in ((mode, key, toks, refresh), ok1 \<and> ok2 \<and> ok3 \<and> ok4))"

definition ParseAuth :: "jwt_parser \<Rightarrow> string \<Rightarrow> go_error + auth" where
  "ParseAuth jwt data =
     bindE (case parse_json data of None \<Rightarrow> Inl JsonError | Some j \<Rightarrow> Inr j) (\<lambda>j.
     bindE (wrapE ''invalid auth.json'' (dec_struct auth_file_struct j)) (\<lambda>(mode, key, toks, refresh).
     bindE (guardE (mode \<notin> {[], ''chatgpt''} \<or> key \<notin> {None, Some []})
       (Errorf ''only auth.json of ChatGPT OAuth is supported'' [])) (\<lambda>_.
     bindE (guardE (trim_space (IDToken toks) = [] \<or> trim_space (AccessToken toks) = []
         \<or> trim_space (RefreshToken toks) = [])
       (Errorf ''auth.json without the necessary tokens'' [])) (\<lambda>_.
     bindE (tokenMetadata jwt (IDToken toks)) (\<lambda>(ident, _).
     bindE (tokenMetadata jwt (AccessToken toks)) (\<lambda>(acc, exp).
     bindE (guardE (UserID acc \<noteq> UserID ident \<or> AccountID acc \<noteq> AccountID ident
         \<or> TokenAccountID toks \<noteq> [] \<and> TokenAccountID toks \<noteq> AccountID ident)
       (Errorf ''user or workspace do not match'' [])) (\<lambda>_.
     case exp of
       None \<Rightarrow> Inl (Errorf ''access token without valid expiry'' [])
     | Some t \<Rightarrow> Inr \<lparr>auth_tokens = toks, auth_identity = ident, auth_expires_at = t,
         auth_last_refresh = refresh, auth_raw = fst (dec_map j)\<rparr>)))))))"

definition tokens_map :: "tokens \<Rightarrow> gmap" where
  "tokens_map t = [(''id_token'', GStr (IDToken t)), (''access_token'', GStr (AccessToken t)),
     (''refresh_token'', GStr (RefreshToken t)), (''account_id'', GStr (TokenAccountID t))]"

text \<open>A decoded map that is changed and marshalled again.\<close>

definition raw_map :: "members \<Rightarrow> gmap" where
  "raw_map kvs = fold (\<lambda>kv. put (fst kv) (GRaw (snd kv))) kvs []"

text \<open>
  The document with new tokens. The members of the old token object stay, the new ones replace
  theirs; a document without an object of tokens is an error.
\<close>

definition Refreshed :: "auth \<Rightarrow> tokens \<Rightarrow> instant \<Rightarrow> go_error + string" where
  "Refreshed a toks now =
     bindE (okE (unm dec_map [] (entry ''tokens'' (auth_raw a)))) (\<lambda>old.
     let fields = fold (\<lambda>kv. put (fst kv) (snd kv)) (tokens_map toks) (raw_map old);
         doc = put ''last_refresh'' (GStr (formatTime now))
           (put ''tokens'' (GMap fields) (raw_map (auth_raw a)))
     in Inr (print_json (marshal (GMap doc))))"

section \<open>The answer of the token endpoint\<close>

datatype refresh_error =
    RefreshError int string bool
  | RefreshFailed go_error

definition code_struct :: "members \<Rightarrow> (string \<times> string) decoded" where
  "code_struct kvs = (let (c, ok1) = f_string ''code'' kvs; (t, ok2) = f_string ''type'' kvs
      in ((c, t), ok1 \<and> ok2))"

definition error_struct :: "members \<Rightarrow> (raw_message \<times> string) decoded" where
  "error_struct kvs = (let (e, ok1) = f_raw ''error'' kvs; (c, ok2) = f_string ''code'' kvs
      in ((e, c), ok1 \<and> ok2))"

definition permanent_codes :: "string list" where
  "permanent_codes = [''refresh_token_expired'', ''refresh_token_reused'',
     ''refresh_token_invalidated'', ''invalid_grant'']"

definition refresh_failure :: "int \<Rightarrow> string \<Rightarrow> refresh_error" where
  "refresh_failure status data =
     (case okE (case parse_json data of None \<Rightarrow> ((None, []), False) | Some j \<Rightarrow> dec_struct error_struct j) of
        Inl _ \<Rightarrow> RefreshError status ''invalid_response'' False
      | Inr (err, outer) \<Rightarrow>
          (case (case err of
                   None \<Rightarrow> Inr []
                 | Some (JStr s) \<Rightarrow> Inr s
                 | Some j \<Rightarrow> bindE (okE (dec_struct code_struct j)) (\<lambda>(c, t). Inr (if c = [] then t else c))) of
             Inl _ \<Rightarrow> RefreshError status ''invalid_response'' False
           | Inr inner \<Rightarrow>
               (let code = (if inner = [] then outer else inner); permanent = (code \<in> set permanent_codes)
                in RefreshError status (if permanent then code else ''temporary_error'') permanent)))"

text \<open>
  What a refresh makes of the status and the body of the answer; \<open>now\<close> is the time it arrived.
\<close>

definition refresh_answer ::
    "jwt_parser \<Rightarrow> auth \<Rightarrow> instant \<Rightarrow> int \<Rightarrow> string \<Rightarrow> refresh_error + string" where
  "refresh_answer jwt old now status data =
     (if status < 200 \<or> status \<ge> 300 then Inl (refresh_failure status data)
      else case okE (case parse_json data of
               None \<Rightarrow> (\<lparr>IDToken = [], AccessToken = [], RefreshToken = [], TokenAccountID = []\<rparr>, False)
             | Some j \<Rightarrow> dec_struct tokens_struct j) of
          Inl _ \<Rightarrow> Inl (RefreshFailed (Errorf ''invalid answer to the refresh'' []))
        | Inr t \<Rightarrow>
            if AccessToken t = [] then Inl (RefreshFailed (Errorf ''answer without access token'' []))
            else
              (let t' = t\<lparr>IDToken := (if IDToken t = [] then IDToken (auth_tokens old) else IDToken t),
                          RefreshToken := (if RefreshToken t = [] then RefreshToken (auth_tokens old) else RefreshToken t),
                          TokenAccountID := AccountID (auth_identity old)\<rparr>
               in case bindE (Refreshed old t' now) (\<lambda>updated.
                       bindE (ParseAuth jwt updated) (\<lambda>a.
                       bindE (guardE (UserID (auth_identity a) \<noteq> UserID (auth_identity old)
                                \<or> AccountID (auth_identity a) \<noteq> AccountID (auth_identity old))
                              (Errorf ''user or workspace changed by the refresh'' [])) (\<lambda>_. Inr updated))) of
                    Inl e \<Rightarrow> Inl (RefreshFailed e) | Inr updated \<Rightarrow> Inr updated))"

lemma refresh_keeps_identity:
  assumes "refresh_answer jwt old now status data = Inr updated"
  obtains a where "ParseAuth jwt updated = Inr a" and "UserID (auth_identity a) = UserID (auth_identity old)"
    and "AccountID (auth_identity a) = AccountID (auth_identity old)"
  using assms
  by (auto simp: refresh_answer_def Let_def split: if_splits sum.splits elim!: bindE_InrE)

lemma parsed_tokens_one_identity:
  assumes "ParseAuth jwt data = Inr a"
  obtains i e where "tokenMetadata jwt (AccessToken (auth_tokens a)) = Inr (i, Some e)"
    and "UserID i = UserID (auth_identity a)" and "AccountID i = AccountID (auth_identity a)"
    and "UserID i \<noteq> []" and "AccountID i \<noteq> []" and "auth_expires_at a = e"
proof -
  from assms obtain i e where meta: "tokenMetadata jwt (AccessToken (auth_tokens a)) = Inr (i, Some e)"
    and "UserID i = UserID (auth_identity a)" "AccountID i = AccountID (auth_identity a)" "auth_expires_at a = e"
    unfolding ParseAuth_def by (auto split: option.splits elim!: bindE_InrE)
  moreover from meta have "UserID i \<noteq> []" "AccountID i \<noteq> []"
    by (auto simp: tokenMetadata_def Let_def split: option.splits elim!: bindE_InrE)
  ultimately show ?thesis using that by blast
qed

end
