(* ===== verification/Credentials.thy ===== *)
theory Credentials
  imports Catalog CodexAuth
begin

text \<open>
  The credentials and the runtime state of upstream keys (internal/store/oauth_credentials.go,
  antigravity.go, oauth_relogin.go and the marking operations of routing.go). Every change of a
  credential is guarded by the revision the caller has read: a stale writer changes no row.
  \<open>now\<close> is the clock.
\<close>

section \<open>Availability\<close>

text \<open>\<^verbatim>\<open>KeyAvailable\<close> on the columns it reads.\<close>

definition available_at :: "instant \<Rightarrow> bool \<Rightarrow> string \<Rightarrow> instant option \<Rightarrow> instant option \<Rightarrow> bool" where
  "available_at now enabled status recover expires \<longleftrightarrow>
     enabled \<and> status \<noteq> ''auth_invalid''
   \<and> \<not> (status = ''quota_exhausted'' \<and> (case recover of None \<Rightarrow> True | Some r \<Rightarrow> now < r))
   \<and> \<not> (case expires of None \<Rightarrow> False | Some e \<Rightarrow> now > e)
   \<and> \<not> (status = ''rate_limited'' \<and> (case recover of None \<Rightarrow> False | Some r \<Rightarrow> now < r))"

definition KeyAvailable :: "instant \<Rightarrow> upstream_key \<Rightarrow> bool" where
  "KeyAvailable now k =
     available_at now (key_enabled k) (key_status k) (key_recover_at k) (key_expires_at k)"

section \<open>Marking\<close>

definition set_status :: "string \<Rightarrow> string \<Rightarrow> instant option \<Rightarrow> key_row \<Rightarrow> key_row" where
  "set_status status reason recover k = k\<lparr>k_status := status, k_reason := reason, k_recover_at := recover\<rparr>"

definition MarkUpstreamKey ::
    "int \<Rightarrow> string \<Rightarrow> string \<Rightarrow> instant option \<Rightarrow> database \<Rightarrow> store_error + database" where
  "MarkUpstreamKey kid status reason recover db = exec (db\<lparr>upstream_keys :=
     update_where (\<lambda>k. k_id k = kid \<and> k_archived k = None) (set_status status reason recover)
       (upstream_keys db)\<rparr>)"

definition enabled_provider :: "database \<Rightarrow> int \<Rightarrow> bool" where
  "enabled_provider db pid \<longleftrightarrow>
     some_row (\<lambda>p. p_id p = pid \<and> p_enabled p \<and> p_archived p = None) (providers db)"

text \<open>The row a writer that has read revision \<open>revn\<close> of the key may change.\<close>

definition current_key :: "database \<Rightarrow> int \<Rightarrow> int \<Rightarrow> key_row \<Rightarrow> bool" where
  "current_key db kid revn k \<longleftrightarrow> k_id k = kid \<and> k_revision k = revn \<and> k_archived k = None \<and> k_enabled k
     \<and> enabled_provider db (k_provider k)"

definition MarkUpstreamKeyRevision ::
    "int \<Rightarrow> int \<Rightarrow> string \<Rightarrow> string \<Rightarrow> instant option \<Rightarrow> database \<Rightarrow> store_error + database" where
  "MarkUpstreamKeyRevision kid revn status reason recover db = exec (db\<lparr>upstream_keys :=
     update_where (current_key db kid revn) (set_status status reason recover) (upstream_keys db)\<rparr>)"

text \<open>The administrator's reset, refused for an account whose login has become invalid.\<close>

definition resettable :: "database \<Rightarrow> int \<Rightarrow> key_row \<Rightarrow> bool" where
  "resettable db kid k \<longleftrightarrow> k_id k = kid \<and> k_archived k = None
     \<and> \<not> ((k_auth k \<noteq> [] \<or> some_row (\<lambda>c. c_key c = k_id k) (antigravity_credentials db))
          \<and> k_status k = ''auth_invalid'')"

definition ResetUpstreamKeyRuntime :: "int \<Rightarrow> database \<Rightarrow> store_error + database" where
  "ResetUpstreamKeyRuntime kid db =
     bindE (exec (db\<lparr>upstream_keys := update_where (resettable db kid)
              (\<lambda>k. (set_status ''available'' [] None k)\<lparr>k_revision := k_revision k + 1\<rparr>)
              (upstream_keys db)\<rparr>)) (\<lambda>db1.
     bindE (guardE (\<not> some_row (resettable db kid) (upstream_keys db)) NoRows) (\<lambda>_. Inr db1))"

definition MarkModelCandidate :: "int \<Rightarrow> int \<Rightarrow> string \<Rightarrow> string \<Rightarrow> database \<Rightarrow> store_error + database" where
  "MarkModelCandidate cid revn status reason db = exec (db\<lparr>model_candidates :=
     update_where (\<lambda>d. d_id d = cid \<and> d_revision d = revn)
       (\<lambda>d. d\<lparr>d_status := status, d_reason := reason\<rparr>) (model_candidates db)\<rparr>)"

definition touch_key_row :: "instant \<Rightarrow> int \<Rightarrow> database \<Rightarrow> store_error + database" where
  "touch_key_row now kid db = exec (db\<lparr>upstream_keys :=
     update_where (\<lambda>k. k_id k = kid) (\<lambda>k. k\<lparr>k_last_used := Some now\<rparr>) (upstream_keys db)\<rparr>)"

definition SetUpstreamKeyEnabled :: "int \<Rightarrow> bool \<Rightarrow> database \<Rightarrow> store_error + database" where
  "SetUpstreamKeyEnabled kid enabled db =
     bindE (exec (db\<lparr>upstream_keys := update_where (\<lambda>k. k_id k = kid \<and> k_archived k = None)
              (\<lambda>k. k\<lparr>k_enabled := enabled, k_revision := k_revision k + 1\<rparr>) (upstream_keys db)\<rparr>)) (\<lambda>db1.
     bindE (guardE (\<not> some_row (\<lambda>k. k_id k = kid \<and> k_archived k = None) (upstream_keys db)) NoRows) (\<lambda>_.
     Inr db1))"

section \<open>Codex accounts\<close>

definition max_position :: "database \<Rightarrow> int \<Rightarrow> int" where
  "max_position db pid = fold max (map k_position (select (\<lambda>k. k_provider k = pid) (upstream_keys db))) (- 1)"

definition parseE :: "go_error + 'a \<Rightarrow> store_error + 'a" where
  "parseE r = (case r of Inl _ \<Rightarrow> Inl (Refused ''invalid credential document'') | Inr a \<Rightarrow> Inr a)"

definition ImportOAuthCredential ::
    "jwt_parser \<Rightarrow> int \<Rightarrow> string \<Rightarrow> string \<Rightarrow> database \<Rightarrow> store_error + int \<times> database" where
  "ImportOAuthCredential jwt pid fileName data db =
     bindE (parseE (ParseAuth jwt data)) (\<lambda>a.
     bindE (query_row (active_provider pid) (providers db)) (\<lambda>p.
     bindE (guardE (p_kind p \<noteq> ProviderCodexOAuth) (Refused ''the provider takes no OAuth files'')) (\<lambda>_.
     bindE (guardE (some_row (\<lambda>k. k_oauth_user k = UserID (auth_identity a)
              \<and> k_oauth_account k = AccountID (auth_identity a) \<and> k_archived k = None) (upstream_keys db))
            DuplicateOAuthAccount) (\<lambda>_.
     bindE (exec (db\<lparr>upstream_keys := insert_row (\<lambda>i.
              \<lparr>k_id = i, k_provider = pid, k_name = fileName, k_secret = [], k_auth = data,
               k_file_name = fileName, k_oauth_user = UserID (auth_identity a),
               k_oauth_account = AccountID (auth_identity a), k_access_expires = Some (auth_expires_at a),
               k_revision = 1, k_position = max_position db pid + 1, k_enabled = True, k_expires_at = None,
               k_status = ''available'', k_reason = [], k_recover_at = None, k_last_used = None,
               k_archived = None\<rparr>) (upstream_keys db)\<rparr>)) (\<lambda>db1.
     Inr (last_id (upstream_keys db1), db1))))))"

text \<open>
  Reading the credential for an attempt: the key and its provider have to be usable now; the
  result carries the revision a later write has to name.
\<close>

definition readable_key :: "database \<Rightarrow> string \<Rightarrow> int \<Rightarrow> key_row \<Rightarrow> bool" where
  "readable_key db kind kid k \<longleftrightarrow> k_id k = kid \<and> k_archived k = None
     \<and> some_row (\<lambda>p. p_id p = k_provider k \<and> p_archived p = None \<and> p_kind p = kind) (providers db)"

definition usable_key :: "instant \<Rightarrow> database \<Rightarrow> string \<Rightarrow> key_row \<Rightarrow> bool" where
  "usable_key now db kind k \<longleftrightarrow>
     some_row (\<lambda>p. p_id p = k_provider k \<and> p_archived p = None \<and> p_kind p = kind \<and> p_enabled p) (providers db)
   \<and> available_at now (k_enabled k) (k_status k) (k_recover_at k) None"

definition OAuthCredential ::
    "jwt_parser \<Rightarrow> instant \<Rightarrow> int \<Rightarrow> database \<Rightarrow> store_error + auth \<times> int" where
  "OAuthCredential jwt now kid db =
     bindE (query_row (readable_key db ProviderCodexOAuth kid) (upstream_keys db)) (\<lambda>k.
     bindE (guardE (\<not> usable_key now db ProviderCodexOAuth k) CredentialChanged) (\<lambda>_.
     bindE (parseE (ParseAuth jwt (k_auth k))) (\<lambda>a. Inr (a, k_revision k))))"

definition store_auth :: "auth \<Rightarrow> string \<Rightarrow> key_row \<Rightarrow> key_row" where
  "store_auth a data k = (set_status ''available'' [] None k)\<lparr>k_auth := data,
     k_access_expires := Some (auth_expires_at a), k_revision := k_revision k + 1\<rparr>"

definition own_identity :: "auth \<Rightarrow> key_row \<Rightarrow> bool" where
  "own_identity a k \<longleftrightarrow> k_oauth_user k = UserID (auth_identity a) \<and> k_oauth_account k = AccountID (auth_identity a)"

definition SaveOAuthCredential :: "jwt_parser \<Rightarrow> int \<Rightarrow> int \<Rightarrow> string \<Rightarrow> database \<Rightarrow> store_error + database" where
  "SaveOAuthCredential jwt kid revn data db =
     bindE (parseE (ParseAuth jwt data)) (\<lambda>a.
     let writable = (\<lambda>k. current_key db kid revn k \<and> own_identity a k) in
     bindE (exec (db\<lparr>upstream_keys := update_where writable (store_auth a data) (upstream_keys db)\<rparr>)) (\<lambda>db1.
     bindE (guardE (\<not> some_row writable (upstream_keys db)) CredentialChanged) (\<lambda>_. Inr db1)))"

definition ReplaceOAuthCredential ::
    "jwt_parser \<Rightarrow> int \<Rightarrow> int \<Rightarrow> int \<Rightarrow> string \<Rightarrow> database \<Rightarrow> store_error + database" where
  "ReplaceOAuthCredential jwt pid kid revn data db =
     bindE (parseE (ParseAuth jwt data)) (\<lambda>a.
     let writable = (\<lambda>k. readable_key db ProviderCodexOAuth kid k \<and> k_provider k = pid
           \<and> k_revision k = revn \<and> own_identity a k) in
     bindE (exec (db\<lparr>upstream_keys := update_where writable (store_auth a data) (upstream_keys db)\<rparr>)) (\<lambda>db1.
     bindE (guardE (\<not> some_row writable (upstream_keys db)) CredentialChanged) (\<lambda>_. Inr db1)))"

definition DeleteOAuthCredential :: "instant \<Rightarrow> int \<Rightarrow> int \<Rightarrow> database \<Rightarrow> store_error + database" where
  "DeleteOAuthCredential now pid kid db =
     bindE (query_row (\<lambda>k. k_id k = kid \<and> k_provider k = pid \<and> k_archived k = None
              \<and> some_row (active_provider pid) (providers db)) (upstream_keys db)) (\<lambda>_.
     bindE (query_row (active_provider pid) (providers db)) (\<lambda>p.
     bindE (guardE (p_kind p \<notin> {ProviderCodexOAuth, ProviderAntigravityOAuth})
            (Refused ''the provider takes no OAuth files'')) (\<lambda>_.
     bindE (exec (db\<lparr>antigravity_credentials :=
              delete_where (\<lambda>c. c_key c = kid) (antigravity_credentials db)\<rparr>)) (\<lambda>db1.
     bindE (exec (db1\<lparr>antigravity_model_states :=
              delete_where (\<lambda>s. s_key s = kid) (antigravity_model_states db1)\<rparr>)) (\<lambda>db2.
     exec (db2\<lparr>upstream_keys := update_where (\<lambda>k. k_id k = kid)
       (\<lambda>k. k\<lparr>k_enabled := False, k_auth := [], k_revision := k_revision k + 1,
              k_archived := Some now\<rparr>) (upstream_keys db2)\<rparr>))))))"

section \<open>Antigravity accounts\<close>

record ag_credential =
  Subject :: string
  AgEmail :: string
  ProjectID :: string
  ClientID :: string
  AgAccessToken :: string
  AgRefreshToken :: string
  ExpiresAt :: "instant option"
  LastRefresh :: instant

text \<open>
  The two documents of a credential, the metadata and the whole; the zero time is an absent
  expiry. The documents are kept as the value they encode.
\<close>

definition credential_complete :: "ag_credential \<Rightarrow> bool" where
  "credential_complete c \<longleftrightarrow> Subject c \<noteq> [] \<and> AgEmail c \<noteq> [] \<and> ProjectID c \<noteq> [] \<and> ClientID c \<noteq> []
     \<and> AgAccessToken c \<noteq> [] \<and> AgRefreshToken c \<noteq> [] \<and> ExpiresAt c \<noteq> None"

definition identity_members :: "ag_credential \<Rightarrow> members" where
  "identity_members c = [(''subject'', JStr (Subject c)), (''email'', JStr (AgEmail c)),
     (''project_id'', JStr (ProjectID c))]"

definition secret_members :: "ag_credential \<Rightarrow> members" where
  "secret_members c = [(''client_id'', JStr (ClientID c)), (''access_token'', JStr (AgAccessToken c)),
     (''refresh_token'', JStr (AgRefreshToken c)),
     (''expires_at'', JStr (formatTime (case ExpiresAt c of Some t \<Rightarrow> t | None \<Rightarrow> 0)))]"

definition refresh_members :: "ag_credential \<Rightarrow> members" where
  "refresh_members c = [(''last_refresh'', JStr (formatTime (LastRefresh c)))]"

definition credentialDocuments :: "ag_credential \<Rightarrow> store_error + string \<times> string" where
  "credentialDocuments c =
     bindE (guardE (\<not> credential_complete c) (Refused ''incomplete Antigravity credential'')) (\<lambda>_.
     Inr (print_json (JObj (identity_members c @ refresh_members c)),
          print_json (JObj (identity_members c @ secret_members c @ refresh_members c))))"

definition ImportAntigravityCredential ::
    "int \<Rightarrow> string \<Rightarrow> ag_credential \<Rightarrow> database \<Rightarrow> store_error + int \<times> database" where
  "ImportAntigravityCredential pid fileName c db =
     bindE (credentialDocuments c) (\<lambda>(metadata, data).
     bindE (query_row (active_provider pid) (providers db)) (\<lambda>p.
     bindE (guardE (p_kind p \<noteq> ProviderAntigravityOAuth) (Refused ''not an Antigravity provider'')) (\<lambda>_.
     bindE (guardE (some_row (\<lambda>r. c_subject r = Subject c) (antigravity_credentials db))
            DuplicateOAuthAccount) (\<lambda>_.
     bindE (exec (db\<lparr>upstream_keys := insert_row (\<lambda>i.
              \<lparr>k_id = i, k_provider = pid, k_name = AgEmail c, k_secret = [], k_auth = [],
               k_file_name = fileName, k_oauth_user = [], k_oauth_account = [],
               k_access_expires = ExpiresAt c, k_revision = 1, k_position = max_position db pid + 1,
               k_enabled = True, k_expires_at = None, k_status = ''available'', k_reason = [],
               k_recover_at = None, k_last_used = None, k_archived = None\<rparr>) (upstream_keys db)\<rparr>)) (\<lambda>db1.
     bindE (exec (db1\<lparr>antigravity_credentials := insert_row (\<lambda>_.
              \<lparr>c_key = last_id (upstream_keys db1), c_subject = Subject c, c_identity = metadata,
               c_credential = data\<rparr>) (antigravity_credentials db1)\<rparr>)) (\<lambda>db2.
     Inr (last_id (upstream_keys db1), db2)))))))"

text \<open>The stored document and its revision.\<close>

definition AntigravityCredential :: "instant \<Rightarrow> int \<Rightarrow> database \<Rightarrow> store_error + string \<times> int" where
  "AntigravityCredential now kid db =
     bindE (query_row (\<lambda>k. readable_key db ProviderAntigravityOAuth kid k
              \<and> some_row (\<lambda>c. c_key c = k_id k) (antigravity_credentials db)) (upstream_keys db)) (\<lambda>k.
     bindE (query_row (\<lambda>c. c_key c = k_id k) (antigravity_credentials db)) (\<lambda>c.
     bindE (guardE (\<not> usable_key now db ProviderAntigravityOAuth k) CredentialChanged) (\<lambda>_.
     Inr (c_credential c, k_revision k))))"

definition write_documents :: "int \<Rightarrow> string \<Rightarrow> string \<Rightarrow> database \<Rightarrow> store_error + database" where
  "write_documents kid metadata data db = exec (db\<lparr>antigravity_credentials :=
     update_where (\<lambda>r. c_key r = kid) (\<lambda>r. r\<lparr>c_identity := metadata, c_credential := data\<rparr>)
       (antigravity_credentials db)\<rparr>)"

text \<open>A refresh keeps the cooldowns of the models: their rows move on to the new revision.\<close>

definition SaveAntigravityCredential :: "int \<Rightarrow> int \<Rightarrow> ag_credential \<Rightarrow> database \<Rightarrow> store_error + database" where
  "SaveAntigravityCredential kid revn c db =
     bindE (credentialDocuments c) (\<lambda>(metadata, data).
     let writable = (\<lambda>k. k_id k = kid \<and> k_revision k = revn \<and> k_enabled k \<and> k_archived k = None
           \<and> some_row (\<lambda>p. p_id p = k_provider k \<and> p_kind p = ProviderAntigravityOAuth \<and> p_enabled p
                \<and> p_archived p = None) (providers db)
           \<and> some_row (\<lambda>r. c_key r = k_id k \<and> c_subject r = Subject c) (antigravity_credentials db)) in
     bindE (exec (db\<lparr>upstream_keys := update_where writable
              (\<lambda>k. k\<lparr>k_access_expires := ExpiresAt c, k_revision := k_revision k + 1\<rparr>)
              (upstream_keys db)\<rparr>)) (\<lambda>db1.
     bindE (guardE (\<not> some_row writable (upstream_keys db)) CredentialChanged) (\<lambda>_.
     bindE (write_documents kid metadata data db1) (\<lambda>db2.
     exec (db2\<lparr>antigravity_model_states := update_where (\<lambda>s. s_key s = kid \<and> s_revision s = revn)
       (\<lambda>s. s\<lparr>s_revision := revn + 1\<rparr>) (antigravity_model_states db2)\<rparr>)))))"

text \<open>A new login for the same person and project clears the cooldowns.\<close>

definition project_of :: "string \<Rightarrow> string" where
  "project_of doc = (case parse_json doc of
       Some (JObj kvs) \<Rightarrow> claim_text kvs ''project_id'' | _ \<Rightarrow> [])"

definition ReplaceAntigravityCredential ::
    "int \<Rightarrow> int \<Rightarrow> int \<Rightarrow> ag_credential \<Rightarrow> database \<Rightarrow> store_error + database" where
  "ReplaceAntigravityCredential pid kid revn c db =
     bindE (credentialDocuments c) (\<lambda>(metadata, data).
     let writable = (\<lambda>k. readable_key db ProviderAntigravityOAuth kid k \<and> k_provider k = pid
           \<and> k_revision k = revn
           \<and> some_row (\<lambda>r. c_key r = k_id k \<and> c_subject r = Subject c
                \<and> project_of (c_identity r) = ProjectID c) (antigravity_credentials db)) in
     bindE (exec (db\<lparr>upstream_keys := update_where writable
              (\<lambda>k. (set_status ''available'' [] None k)\<lparr>k_access_expires := ExpiresAt c,
                     k_revision := k_revision k + 1\<rparr>) (upstream_keys db)\<rparr>)) (\<lambda>db1.
     bindE (guardE (\<not> some_row writable (upstream_keys db)) CredentialChanged) (\<lambda>_.
     bindE (write_documents kid metadata data db1) (\<lambda>db2.
     exec (db2\<lparr>antigravity_model_states := delete_where (\<lambda>s. s_key s = kid)
       (antigravity_model_states db2)\<rparr>)))))"

definition MarkAntigravityModel ::
    "int \<Rightarrow> int \<Rightarrow> string \<Rightarrow> string \<Rightarrow> instant \<Rightarrow> database \<Rightarrow> store_error + database" where
  "MarkAntigravityModel kid revn model reason recover db =
     (if some_row (current_key db kid revn) (upstream_keys db)
      then exec (db\<lparr>antigravity_model_states := upsert (\<lambda>s. s_key s = kid \<and> s_model s = model)
             \<lparr>s_key = kid, s_model = model, s_revision = revn, s_reason = reason, s_recover_at = recover\<rparr>
             (antigravity_model_states db)\<rparr>)
      else Inr db)"

definition antigravityModelAvailable :: "instant \<Rightarrow> int \<Rightarrow> int \<Rightarrow> string \<Rightarrow> database \<Rightarrow> bool" where
  "antigravityModelAvailable now kid revn model db \<longleftrightarrow>
     \<not> some_row (\<lambda>s. s_key s = kid \<and> s_model s = model \<and> s_revision s = revn \<and> sql_after (s_recover_at s) now)
       (antigravity_model_states db)"

end
