(* ===== verification/Routing.thy ===== *)
theory Routing
  imports Credentials "HOL-Library.Option_ord"
begin

text \<open>
  The choice of routes (internal/store/routing.go): the templates of a request, one per candidate
  and key or one that says why a candidate cannot serve, and the decisions made from them at the
  time of the request. The reasons, which the program words in Chinese, are constructors.
\<close>

record routing_requirements =
  rq_model :: string
  rq_protocol :: string
  rq_stream :: bool
  rq_tools :: bool
  rq_parallel :: bool
  rq_effort :: string
  rq_candidate :: int
  rq_upstream_protocol :: string

datatype mismatch =
    WrongProtocol
  | NoStream
  | NoTools
  | NoParallelTools
  | NoEffort string

datatype reason =
    NoReason
  | ModelDisabled
  | CandidateUnavailable string
  | CandidateDisabled
  | NoEligibleProtocol "(string \<times> mismatch list) list"
  | ProviderDisabled
  | EndpointMissing
  | KeysMissing
  | KeyUnavailable string
  | KeyDisabled
  | KeyExpired
  | ModelCooling
  | CandidateCooling
  | Eligible

record resolved_route =
  SkipReason :: reason
  VirtualModel :: string
  CandidateID :: int
  CandidateRevision :: int
  UpstreamModel :: string
  DefaultMaxOutputTokens :: int
  MaxOutputTokens :: int
  UpstreamProtocol :: string
  UpstreamEndpoint :: string
  Provider :: provider
  Key :: upstream_key
  ProtocolConfig :: candidate_protocol

record route_decision =
  dec_candidate :: int
  dec_revision :: int
  dec_provider :: string
  dec_model :: string
  dec_protocol :: string
  dec_key_id :: int
  dec_key_name :: string
  dec_reason :: reason
  dec_recover_at :: "instant option"

text \<open>The zero values of the structs.\<close>

definition no_key :: upstream_key where
  "no_key = \<lparr>key_id = 0, key_name = [], key_secret = [], key_hint = [], key_position = 0,
     key_enabled = False, key_expires_at = None, key_status = [], key_reason = [],
     key_recover_at = None, key_last_used = None, key_file_name = [], key_access_expires = None,
     key_revision = 0\<rparr>"

definition no_provider :: provider where
  "no_provider = \<lparr>prov_kind = [], prov_id = 0, prov_name = [], prov_enabled = False,
     prov_auth_type = [], prov_auth_header = [], prov_static_headers = [], prov_quota_codes = [],
     prov_endpoints = [], prov_keys = [], prov_created_at = 0\<rparr>"

definition no_protocol :: candidate_protocol where
  "no_protocol = \<lparr>Protocol = [], Position = 0, SupportsStream = False, SupportsTools = False,
     SupportsParallelTools = False, EffortLevels = [], SupportsStreamUsage = False\<rparr>"

definition no_route :: resolved_route where
  "no_route = \<lparr>SkipReason = NoReason, VirtualModel = [], CandidateID = 0, CandidateRevision = 0,
     UpstreamModel = [], DefaultMaxOutputTokens = 0, MaxOutputTokens = 0, UpstreamProtocol = [],
     UpstreamEndpoint = [], Provider = no_provider, Key = no_key, ProtocolConfig = no_protocol\<rparr>"

section \<open>The protocol of a candidate\<close>

definition protocolMismatch :: "candidate_protocol \<Rightarrow> routing_requirements \<Rightarrow> mismatch list" where
  "protocolMismatch p r =
     (if rq_upstream_protocol r \<noteq> [] \<and> Protocol p \<noteq> rq_upstream_protocol r then [WrongProtocol] else [])
     @ (if rq_stream r \<and> \<not> SupportsStream p then [NoStream] else [])
     @ (if rq_tools r \<and> \<not> SupportsTools p then [NoTools] else [])
     @ (if rq_parallel r \<and> \<not> SupportsParallelTools p then [NoParallelTools] else [])
     @ (if rq_effort r \<noteq> [] \<and> rq_effort r \<notin> set (EffortLevels p) then [NoEffort (rq_effort r)] else [])"

definition chooseProtocol ::
    "candidate_protocol list \<Rightarrow> routing_requirements \<Rightarrow> candidate_protocol option" where
  "chooseProtocol ps r =
     (let eligible = filter (\<lambda>p. protocolMismatch p r = []) ps in
      case filter (\<lambda>p. Protocol p = rq_protocol r) eligible of
        p # _ \<Rightarrow> Some p
      | [] \<Rightarrow> (case eligible of p # _ \<Rightarrow> Some p | [] \<Rightarrow> None))"

text \<open>Least recently used first, never used before all; keys used at the same time keep their order.\<close>

definition sortKeysByUsage :: "upstream_key list \<Rightarrow> upstream_key list" where
  "sortKeysByUsage ks = sort_key key_last_used ks"

section \<open>Templates\<close>

definition blocked_route :: "model_candidate \<Rightarrow> reason \<Rightarrow> resolved_route" where
  "blocked_route c why = no_route\<lparr>CandidateID := cand_id c, CandidateRevision := cand_revision c,
     UpstreamModel := cand_upstream_model c,
     Provider := no_provider\<lparr>prov_name := cand_provider_name c\<rparr>, SkipReason := why\<rparr>"

definition key_route ::
    "routing_requirements \<Rightarrow> model_candidate \<Rightarrow> candidate_protocol \<Rightarrow> string \<Rightarrow> provider \<Rightarrow> upstream_key \<Rightarrow> resolved_route"
  where
  "key_route r c p endpoint prov k =
     \<lparr>SkipReason = NoReason, VirtualModel = rq_model r, CandidateID = cand_id c,
      CandidateRevision = cand_revision c, UpstreamModel = cand_upstream_model c,
      DefaultMaxOutputTokens = cand_default_max c, MaxOutputTokens = cand_max c,
      UpstreamProtocol = Protocol p, UpstreamEndpoint = endpoint, Provider = prov, Key = k,
      ProtocolConfig = p\<rparr>"

definition candidate_routes ::
    "database \<Rightarrow> routing_requirements \<Rightarrow> model_candidate \<Rightarrow> store_error + resolved_route list" where
  "candidate_routes db r c =
     (if rq_candidate r \<noteq> 0 \<and> cand_id c \<noteq> rq_candidate r then Inr []
      else if \<not> cand_enabled c \<or> cand_status c \<noteq> ''available'' then
        Inr [blocked_route c (if cand_enabled c then CandidateUnavailable (cand_status c) else CandidateDisabled)]
      else case chooseProtocol (cand_protocols c) r of
          None \<Rightarrow> Inr [blocked_route c (NoEligibleProtocol
            (map (\<lambda>p. (Protocol p, protocolMismatch p r)) (cand_protocols c)))]
        | Some p \<Rightarrow>
            bindE (providerByID True db (cand_provider_id c)) (\<lambda>prov0.
            let endpoint = text_of (Protocol p) (prov_endpoints prov0);
                prov = prov0\<lparr>prov_keys := sortKeysByUsage (prov_keys prov0)\<rparr>
            in Inr (if \<not> prov_enabled prov0 then [blocked_route c ProviderDisabled]
                    else if endpoint = [] then [blocked_route c EndpointMissing]
                    else if prov_keys prov = [] then [blocked_route c KeysMissing]
                    else map (key_route r c p endpoint prov) (prov_keys prov))))"

definition loadRouteTemplates :: "routing_requirements \<Rightarrow> database \<Rightarrow> store_error + resolved_route list" where
  "loadRouteTemplates r db =
     bindE (query_row (\<lambda>m. m_name m = rq_model r \<and> m_archived m = None) (virtual_models db)) (\<lambda>m.
     if \<not> m_enabled m then Inr [no_route\<lparr>SkipReason := ModelDisabled\<rparr>]
     else bindE (mapE (\<lambda>_. candidate_routes db r) (modelCandidates db (m_id m))) (\<lambda>rs. Inr (concat rs)))"

definition loadEnabledModelNames :: "database \<Rightarrow> string list" where
  "loadEnabledModelNames db =
     sort (map m_name (select (\<lambda>m. m_enabled m \<and> m_archived m = None) (virtual_models db)))"

section \<open>Decisions\<close>

definition route_reason :: "instant \<Rightarrow> database \<Rightarrow> resolved_route \<Rightarrow> reason" where
  "route_reason now db route =
     (let k = Key route in
      if SkipReason route \<noteq> NoReason then SkipReason route
      else if \<not> KeyAvailable now k then
        (if \<not> key_enabled k then KeyDisabled
         else if (case key_expires_at k of None \<Rightarrow> False | Some e \<Rightarrow> now > e) then KeyExpired
         else KeyUnavailable (key_status k))
      else if UpstreamProtocol route = Antigravity
           \<and> \<not> antigravityModelAvailable now (key_id k) (key_revision k) (UpstreamModel route) db
        then ModelCooling
      else Eligible)"

definition decide :: "instant \<Rightarrow> database \<Rightarrow> resolved_route \<Rightarrow> route_decision" where
  "decide now db route =
     \<lparr>dec_candidate = CandidateID route, dec_revision = CandidateRevision route,
      dec_provider = prov_name (Provider route), dec_model = UpstreamModel route,
      dec_protocol = UpstreamProtocol route, dec_key_id = key_id (Key route),
      dec_key_name = key_name (Key route), dec_reason = route_reason now db route,
      dec_recover_at = key_recover_at (Key route)\<rparr>"

definition ResolveRoutesExplained ::
    "instant \<Rightarrow> database \<Rightarrow> store_error + resolved_route list \<Rightarrow>
     (store_error + resolved_route list) \<times> route_decision list" where
  "ResolveRoutesExplained now db templates = (case templates of
       Inl e \<Rightarrow> (Inl e, [])
     | Inr ts \<Rightarrow>
         (let routes = filter (\<lambda>t. route_reason now db t = Eligible) ts in
          (if routes = [] then Inl NoRoute else Inr routes, map (decide now db) ts)))"

end
