(* ===== verification/AccessKeys.thy ===== *)
theory AccessKeys
  imports Catalog
begin

text \<open>
  The access keys of the clients (internal/store/access_keys.go, replay.go): creating, changing,
  deleting, listing and the check a request passes. The random part of a new secret is a
  parameter, \<open>now\<close> the clock.
\<close>

record access_key =
  ak_id :: int
  ak_name :: string
  ak_secret :: string
  ak_hint :: string
  ak_enabled :: bool
  ak_expires_at :: "instant option"
  ak_last_used :: "instant option"
  ak_created_at :: instant

record access_key_page =
  ak_items :: "access_key list"
  ak_total :: nat
  ak_page :: int
  ak_page_size :: int

record access_key_option =
  ako_id :: int
  ako_name :: string
  ako_enabled :: bool
  ako_archived :: bool

definition scanAccessKey :: "access_key_row \<Rightarrow> access_key" where
  "scanAccessKey a =
     \<lparr>ak_id = a_id a, ak_name = a_name a, ak_secret = a_secret a, ak_hint = secretHint (a_secret a),
      ak_enabled = a_enabled a, ak_expires_at = a_expires_at a, ak_last_used = a_last_used a,
      ak_created_at = a_created_at a\<rparr>"

section \<open>Lists\<close>

definition ListAccessKeyOptions :: "database \<Rightarrow> access_key_option list" where
  "ListAccessKeyOptions db =
     map (\<lambda>a. \<lparr>ako_id = a_id a, ako_name = a_name a, ako_enabled = a_enabled a,
                ako_archived = (a_archived a \<noteq> None)\<rparr>) (rev (order_by a_id (rows (access_keys db))))"

definition ListAccessKeys :: "database \<Rightarrow> access_key list" where
  "ListAccessKeys db =
     map scanAccessKey (rev (order_by a_id (select (\<lambda>a. a_archived a = None) (access_keys db))))"

definition ListAccessKeysPage ::
    "database \<Rightarrow> int \<Rightarrow> int \<Rightarrow> string \<Rightarrow> bool option \<Rightarrow> access_key_page" where
  "ListAccessKeysPage db page pageSize name enabled =
     (let found = select (\<lambda>a. a_archived a = None \<and> matches_name name (a_name a)
              \<and> matches_flag enabled (a_enabled a)) (access_keys db)
      in \<lparr>ak_items = map scanAccessKey (sql_limit pageSize ((page - 1) * pageSize) (rev (order_by a_id found))),
          ak_total = length found, ak_page = page, ak_page_size = pageSize\<rparr>)"

section \<open>Changes\<close>

definition CreateAccessKey ::
    "string \<Rightarrow> instant \<Rightarrow> string \<Rightarrow> instant option \<Rightarrow> database \<Rightarrow> store_error + access_key \<times> database" where
  "CreateAccessKey token now name expires db =
     (let secret = ''mc_'' @ token in
      bindE (exec (db\<lparr>access_keys := update_where (\<lambda>a. a_name a = name \<and> a_archived a \<noteq> None)
               (\<lambda>a. a\<lparr>a_name := archived_name (a_name a) (a_id a)\<rparr>) (access_keys db)\<rparr>)) (\<lambda>db1.
      bindE (exec (db1\<lparr>access_keys := insert_row (\<lambda>i. \<lparr>a_id = i, a_name = name, a_secret = secret,
               a_enabled = True, a_expires_at = expires, a_last_used = None, a_created_at = now,
               a_archived = None\<rparr>) (access_keys db1)\<rparr>)) (\<lambda>db2.
      Inr (\<lparr>ak_id = last_id (access_keys db2), ak_name = name, ak_secret = secret,
             ak_hint = secretHint secret, ak_enabled = True, ak_expires_at = expires,
             ak_last_used = None, ak_created_at = now\<rparr>, db2))))"

definition active_key :: "int \<Rightarrow> access_key_row \<Rightarrow> bool" where
  "active_key i a \<longleftrightarrow> a_id a = i \<and> a_archived a = None"

definition SetAccessKeyEnabled :: "int \<Rightarrow> bool \<Rightarrow> database \<Rightarrow> store_error + database" where
  "SetAccessKeyEnabled i enabled db =
     bindE (exec (db\<lparr>access_keys := update_where (active_key i) (\<lambda>a. a\<lparr>a_enabled := enabled\<rparr>)
              (access_keys db)\<rparr>)) (\<lambda>db1.
     bindE (guardE (\<not> some_row (active_key i) (access_keys db)) NoRows) (\<lambda>_. Inr db1))"

definition UpdateAccessKey ::
    "int \<Rightarrow> string \<Rightarrow> instant option \<Rightarrow> bool \<Rightarrow> database \<Rightarrow> store_error + database" where
  "UpdateAccessKey i name expires enabled db =
     bindE (exec (db\<lparr>access_keys := update_where (active_key i)
              (\<lambda>a. a\<lparr>a_name := name, a_expires_at := expires, a_enabled := enabled\<rparr>)
              (access_keys db)\<rparr>)) (\<lambda>db1.
     bindE (guardE (\<not> some_row (active_key i) (access_keys db)) NoRows) (\<lambda>_. Inr db1))"

text \<open>A key that requests refer to is archived, another removed with its tool histories.\<close>

definition DeleteAccessKey :: "instant \<Rightarrow> int \<Rightarrow> database \<Rightarrow> store_error + bool \<times> database" where
  "DeleteAccessKey now i db =
     bindE (guardE (\<not> some_row (active_key i) (access_keys db)) NoRows) (\<lambda>_.
     if some_row (\<lambda>r. r_access_key r = Some i) (requests db) then
       bindE (exec (db\<lparr>access_keys := update_where (\<lambda>a. a_id a = i)
                (\<lambda>a. a\<lparr>a_name := archived_name (a_name a) (a_id a), a_enabled := False,
                       a_archived := Some now\<rparr>) (access_keys db)\<rparr>)) (\<lambda>db1. Inr (True, db1))
     else
       bindE (exec (db\<lparr>access_keys := delete_where (\<lambda>a. a_id a = i) (access_keys db),
                antigravity_tool_history := delete_where (\<lambda>h. h_access_key h = Some i)
                  (antigravity_tool_history db)\<rparr>)) (\<lambda>db1. Inr (False, db1)))"

definition touch_access_key :: "instant \<Rightarrow> int \<Rightarrow> database \<Rightarrow> store_error + database" where
  "touch_access_key now i db = exec (db\<lparr>access_keys :=
     update_where (\<lambda>a. a_id a = i) (\<lambda>a. a\<lparr>a_last_used := Some now\<rparr>) (access_keys db)\<rparr>)"

section \<open>The check of a request\<close>

definition loadAccessKey :: "string \<Rightarrow> database \<Rightarrow> store_error + access_key" where
  "loadAccessKey secret db =
     bindE (query_row (\<lambda>a. a_secret a = secret \<and> a_archived a = None) (access_keys db)) (\<lambda>a.
     Inr (scanAccessKey a))"

datatype auth_error = UnknownKey store_error | KeyIsDisabled | KeyIsExpired

text \<open>The decision on the key that was found, in the cache or in the database.\<close>

definition admit :: "instant \<Rightarrow> access_key \<Rightarrow> auth_error + access_key" where
  "admit now k =
     (if \<not> ak_enabled k then Inl KeyIsDisabled
      else if (case ak_expires_at k of None \<Rightarrow> False | Some e \<Rightarrow> now > e) then Inl KeyIsExpired
      else Inr (k\<lparr>ak_last_used := Some now\<rparr>))"

definition ReplayAccessKey :: "instant \<Rightarrow> request_row \<Rightarrow> database \<Rightarrow> store_error + int option" where
  "ReplayAccessKey now req db = (case r_access_key req of
       None \<Rightarrow> Inr None
     | Some i \<Rightarrow>
         bindE (query_row (\<lambda>a. a_id a = i) (access_keys db)) (\<lambda>a.
         bindE (guardE (\<not> a_enabled a \<or> a_archived a \<noteq> None
             \<or> (case a_expires_at a of None \<Rightarrow> False | Some e \<Rightarrow> \<not> now < e))
           (Refused ''the access key is disabled, archived or expired'')) (\<lambda>_. Inr (Some i))))"

text \<open>
  A key a client may use now: the contract the whole store has to keep, whatever it caches.
\<close>

definition may_use :: "instant \<Rightarrow> database \<Rightarrow> string \<Rightarrow> bool" where
  "may_use now db secret \<longleftrightarrow> (\<exists>a \<in> set (rows (access_keys db)).
     a_secret a = secret \<and> a_archived a = None \<and> a_enabled a
   \<and> (case a_expires_at a of None \<Rightarrow> True | Some e \<Rightarrow> now \<le> e))"

text \<open>A right answer for a secret: the fields of its row, except the time of last use.\<close>

definition right_key :: "database \<Rightarrow> string \<Rightarrow> access_key \<Rightarrow> bool" where
  "right_key db secret k \<longleftrightarrow> (\<exists>a \<in> set (rows (access_keys db)).
     a_secret a = secret \<and> a_archived a = None
   \<and> (scanAccessKey a)\<lparr>ak_last_used := None\<rparr> = k\<lparr>ak_last_used := None\<rparr>)"

lemma loaded_key_right: "loadAccessKey secret db = Inr k \<Longrightarrow> right_key db secret k"
  by (auto simp: loadAccessKey_def right_key_def elim!: bindE_InrE dest!: query_row_Inr)

lemma admitted_key_may_be_used:
  assumes "right_key db secret k" and "admit now k = Inr k'"
  shows "may_use now db secret"
proof -
  from assms(1) obtain a where a: "a \<in> set (rows (access_keys db))" "a_secret a = secret" "a_archived a = None"
    and same: "(scanAccessKey a)\<lparr>ak_last_used := None\<rparr> = k\<lparr>ak_last_used := None\<rparr>"
    by (auto simp: right_key_def)
  have "a_enabled a = ak_enabled k" "a_expires_at a = ak_expires_at k"
    using arg_cong [OF same, of ak_enabled] arg_cong [OF same, of ak_expires_at]
    by (simp_all add: scanAccessKey_def)
  with a assms(2) show ?thesis
    by (auto simp: may_use_def admit_def split: if_splits option.splits intro!: bexI [where x = a])
qed

text \<open>What the changes promise: after them the key cannot be used.\<close>

lemma disabled_key:
  assumes "SetAccessKeyEnabled i False db = Inr db'"
  shows "\<forall>a \<in> set (rows (access_keys db')). active_key i a \<longrightarrow> \<not> a_enabled a"
proof -
  from assms have "db' = db\<lparr>access_keys := update_where (active_key i) (\<lambda>a. a\<lparr>a_enabled := False\<rparr>) (access_keys db)\<rparr>"
    by (auto simp: SetAccessKeyEnabled_def exec_Inr elim!: bindE_InrE)
  then show ?thesis by (simp add: ball_Un)
qed

lemma deleted_key:
  assumes "DeleteAccessKey now i db = Inr (archived, db')"
  shows "\<forall>a \<in> set (rows (access_keys db')). \<not> active_key i a"
proof -
  from assms have "access_keys db' = update_where (\<lambda>a. a_id a = i)
                (\<lambda>a. a\<lparr>a_name := archived_name (a_name a) (a_id a), a_enabled := False,
                       a_archived := Some now\<rparr>) (access_keys db)
      \<or> access_keys db' = delete_where (\<lambda>a. a_id a = i) (access_keys db)"
    by (auto simp: DeleteAccessKey_def exec_Inr split: if_splits elim!: bindE_InrE)
  then show ?thesis by (elim disjE; simp add: active_key_def ball_Un)
qed

end
