(* ===== verification/VersionedCache.thy ===== *)
theory VersionedCache
  imports Main
begin

text \<open>
  The way the store caches what it reads from the database (internal/store/routing.go,
  access_keys.go and \<^verbatim>\<open>invalidateConfig\<close> of store.go), as a step relation over the points
  where goroutines meet. A reader that misses takes the load mutex, looks again and notes the
  configuration version (\<open>Begin\<close>), queries the database, and stores its answer only if the
  version has not changed (\<open>Finish\<close>). An update commits and later invalidates: the version grows
  and the cache is emptied. A load is several queries, so that an update that commits while it
  runs may leave it with any answer (\<open>torn\<close>).

  \<open>right db k v\<close> says that \<open>v\<close> is a right answer for \<open>k\<close>. An update that keeps every right answer
  right is \<open>Silent\<close>; its invalidation, if it has one, empties the cache (\<open>Clear\<close>) or only moves
  the version (\<open>Bump\<close>, \<^verbatim>\<open>invalidateRoutes\<close> as the other caches see it).
\<close>

record ('k, 'v) loading =
  loading_key :: 'k
  loading_version :: nat
  torn :: bool

record ('d, 'k, 'v) cached =
  database_now :: 'd
  version :: nat
  cache :: "'k \<Rightarrow> 'v option"
  in_flight :: nat
  loader :: "('k, 'v) loading option"

definition tear :: "('k, 'v) loading option \<Rightarrow> ('k, 'v) loading option" where
  "tear = map_option (\<lambda>l. l\<lparr>torn := True\<rparr>)"

inductive cache_step ::
    "('d \<Rightarrow> 'k \<Rightarrow> 'v \<Rightarrow> bool) \<Rightarrow> ('d \<Rightarrow> 'd \<Rightarrow> bool) \<Rightarrow> ('d, 'k, 'v) cached \<Rightarrow> ('d, 'k, 'v) cached \<Rightarrow> bool"
  for right silent where
  Begin: "loader s = None \<Longrightarrow> cache s k = None \<Longrightarrow>
     cache_step right silent s
       (s\<lparr>loader := Some \<lparr>loading_key = k, loading_version = version s, torn = False\<rparr>\<rparr>)"
| Finish: "loader s = Some l \<Longrightarrow> torn l \<or> right (database_now s) (loading_key l) v \<Longrightarrow>
     cache_step right silent s
       (s\<lparr>loader := None,
          cache := (if loading_version l = version s then (cache s)(loading_key l \<mapsto> v) else cache s)\<rparr>)"
| Abandon: "cache_step right silent s (s\<lparr>loader := None\<rparr>)"
| Commit: "cache_step right silent s
     (s\<lparr>database_now := d, in_flight := in_flight s + 1, loader := tear (loader s)\<rparr>)"
| Invalidate: "in_flight s > 0 \<Longrightarrow> cache_step right silent s
     (s\<lparr>version := version s + 1, cache := Map.empty, in_flight := in_flight s - 1\<rparr>)"
| Silent: "silent (database_now s) d \<Longrightarrow> cache_step right silent s (s\<lparr>database_now := d\<rparr>)"
| Clear: "cache_step right silent s (s\<lparr>version := version s + 1, cache := Map.empty\<rparr>)"
| Bump: "cache_step right silent s (s\<lparr>version := version s + 1\<rparr>)"

inductive_cases cache_stepE: "cache_step right silent s s'"

definition started :: "'d \<Rightarrow> ('d, 'k, 'v) cached" where
  "started d = \<lparr>database_now = d, version = 0, cache = Map.empty, in_flight = 0, loader = None\<rparr>"

definition cache_reachable ::
    "('d \<Rightarrow> 'k \<Rightarrow> 'v \<Rightarrow> bool) \<Rightarrow> ('d \<Rightarrow> 'd \<Rightarrow> bool) \<Rightarrow> ('d, 'k, 'v) cached \<Rightarrow> bool" where
  "cache_reachable right silent s \<longleftrightarrow> (\<exists>d. (cache_step right silent)\<^sup>*\<^sup>* (started d) s)"

text \<open>
  What holds in every reachable state: when no update is in flight, every cached answer is right;
  a torn load whose version is still current has its update in flight.
\<close>

definition coherent :: "('d \<Rightarrow> 'k \<Rightarrow> 'v \<Rightarrow> bool) \<Rightarrow> ('d, 'k, 'v) cached \<Rightarrow> bool" where
  "coherent right s \<longleftrightarrow>
     (in_flight s = 0 \<longrightarrow> (\<forall>k v. cache s k = Some v \<longrightarrow> right (database_now s) k v))
   \<and> (\<forall>l. loader s = Some l \<longrightarrow> loading_version l \<le> version s
        \<and> (torn l \<and> loading_version l = version s \<longrightarrow> in_flight s > 0))"

text \<open>The law a provider of right answers promises: a silent update keeps them right.\<close>

locale versioned_cache =
  fixes right :: "'d \<Rightarrow> 'k \<Rightarrow> 'v \<Rightarrow> bool" and silent :: "'d \<Rightarrow> 'd \<Rightarrow> bool"
  assumes silent_right: "silent d d' \<Longrightarrow> right d k v \<Longrightarrow> right d' k v"
begin

lemma step_coherent:
  assumes "cache_step right silent s s'" and "coherent right s"
  shows "coherent right s'"
  using assms
proof (induction rule: cache_step.induct)
  case (Finish s l v)
  then show ?case by (auto simp: coherent_def)
next
  case (Commit s d)
  then show ?case by (auto simp: coherent_def tear_def)
next
  case (Silent s d)
  then show ?case by (auto simp: coherent_def intro: silent_right)
qed (auto simp: coherent_def)

lemma reachable_coherent: "cache_reachable right silent s \<Longrightarrow> coherent right s"
proof -
  assume "cache_reachable right silent s"
  then obtain d where "(cache_step right silent)\<^sup>*\<^sup>* (started d) s" by (auto simp: cache_reachable_def)
  then show ?thesis
  proof (induction rule: rtranclp_induct)
    case base
    show ?case by (simp add: started_def coherent_def)
  next
    case (step y z)
    then show ?case by (blast intro: step_coherent)
  qed
qed

text \<open>
  So an answer is right whenever every update has returned: one from the cache, and one from
  a load no update committed into.
\<close>

lemma hit_right:
  "cache_reachable right silent s \<Longrightarrow> in_flight s = 0 \<Longrightarrow> cache s k = Some v \<Longrightarrow> right (database_now s) k v"
  using reachable_coherent by (auto simp: coherent_def)

text \<open>And the cache fills: when a load can answer, the reader's two steps leave it cached.\<close>

lemma cache_fills:
  assumes "loader s = None" and "cache s k = None" and "right (database_now s) k v"
  shows "\<exists>s'. (cache_step right silent)\<^sup>*\<^sup>* s s' \<and> cache s' k = Some v \<and> database_now s' = database_now s
     \<and> in_flight s' = in_flight s"
proof -
  define l where "l = \<lparr>loading_key = k, loading_version = version s, torn = False\<rparr>"
  have "cache_step right silent s (s\<lparr>loader := Some l\<rparr>)"
    unfolding l_def by (rule cache_step.Begin) (use assms in simp_all)
  moreover have "cache_step right silent (s\<lparr>loader := Some l\<rparr>)
      (s\<lparr>loader := None, cache := (cache s)(k \<mapsto> v)\<rparr>)"
    using cache_step.Finish [where s = "s\<lparr>loader := Some l\<rparr>" and l = l and v = v and right = right and silent = silent]
      assms(3) by (simp add: l_def)
  ultimately have "(cache_step right silent)\<^sup>*\<^sup>* s (s\<lparr>loader := None, cache := (cache s)(k \<mapsto> v)\<rparr>)"
    by (meson converse_rtranclp_into_rtranclp r_into_rtranclp)
  then show ?thesis
    by (intro exI [where x = "s\<lparr>loader := None, cache := (cache s)(k \<mapsto> v)\<rparr>"]) simp
qed

end

end
