(* ===== verification/StoreCache.thy ===== *)
theory StoreCache
  imports Routing AccessKeys VersionedCache
begin

text \<open>
  The store (internal/store/store.go): the database with the caches over it. The operations here
  are run one after the other; what happens when they overlap is \<open>VersionedCache\<close>, which
  is interpreted at the end for the three caches.
\<close>

record store =
  store_db :: database
  config_version :: nat
  route_cache :: "routing_requirements \<Rightarrow> resolved_route list option"
  access_key_cache :: "string \<Rightarrow> access_key option"
  names_cache :: "string list option"
  touches :: "string \<times> int \<Rightarrow> instant option"

definition open_store :: "database \<Rightarrow> store" where
  "open_store db = \<lparr>store_db = db, config_version = 0, route_cache = Map.empty,
     access_key_cache = Map.empty, names_cache = None, touches = Map.empty\<rparr>"

definition invalidateConfig :: "store \<Rightarrow> store" where
  "invalidateConfig s = s\<lparr>config_version := config_version s + 1, route_cache := Map.empty,
     access_key_cache := Map.empty, names_cache := None, touches := Map.empty\<rparr>"

definition invalidateRoutes :: "store \<Rightarrow> store" where
  "invalidateRoutes s = s\<lparr>config_version := config_version s + 1, route_cache := Map.empty\<rparr>"

text \<open>A configuration change: its transaction, and the invalidation when it has committed.\<close>

definition updating :: "(database \<Rightarrow> store_error + 'r \<times> database) \<Rightarrow> store \<Rightarrow> (store_error + 'r) \<times> store" where
  "updating f s = (case f (store_db s) of
       Inl e \<Rightarrow> (Inl e, s)
     | Inr (r, d) \<Rightarrow> (Inr r, invalidateConfig (s\<lparr>store_db := d\<rparr>)))"

definition updating_routes :: "(database \<Rightarrow> store_error + database) \<Rightarrow> store \<Rightarrow> (store_error + unit) \<times> store" where
  "updating_routes f s = (case f (store_db s) of
       Inl e \<Rightarrow> (Inl e, s)
     | Inr d \<Rightarrow> (Inr (), invalidateRoutes (s\<lparr>store_db := d\<rparr>)))"

text \<open>
  Times of use are written at most once a minute per key; a failed write is forgotten, so that
  the next use tries again.
\<close>

definition minute :: int where "minute = 60 * second"

definition touchConfig ::
    "string \<Rightarrow> int \<Rightarrow> instant \<Rightarrow> (store \<Rightarrow> (store_error + unit) \<times> store) \<Rightarrow> store \<Rightarrow> (store_error + unit) \<times> store"
  where
  "touchConfig kind i now update s =
     (if (case touches s (kind, i) of None \<Rightarrow> False | Some t \<Rightarrow> now - t < minute) then (Inr (), s)
      else case update (s\<lparr>touches := (touches s)((kind, i) \<mapsto> now)\<rparr>) of
          (Inl e, s') \<Rightarrow> (Inl e, s'\<lparr>touches := (touches s')((kind, i) := None)\<rparr>)
        | (Inr u, s') \<Rightarrow> (Inr u, s'))"

definition TouchUpstreamKey :: "instant \<Rightarrow> int \<Rightarrow> store \<Rightarrow> (store_error + unit) \<times> store" where
  "TouchUpstreamKey now kid = touchConfig ''upstream_key'' kid now (updating_routes (touch_key_row now kid))"

section \<open>Reading through the caches\<close>

definition cachedRouteTemplates ::
    "routing_requirements \<Rightarrow> store \<Rightarrow> (store_error + resolved_route list) \<times> store" where
  "cachedRouteTemplates r s = (case route_cache s r of
       Some ts \<Rightarrow> (Inr ts, s)
     | None \<Rightarrow> (case loadRouteTemplates r (store_db s) of
         Inl e \<Rightarrow> (Inl e, s)
       | Inr ts \<Rightarrow> (Inr ts, s\<lparr>route_cache := (route_cache s)(r \<mapsto> ts)\<rparr>)))"

definition ResolveRoutes ::
    "instant \<Rightarrow> routing_requirements \<Rightarrow> store \<Rightarrow>
     ((store_error + resolved_route list) \<times> route_decision list) \<times> store" where
  "ResolveRoutes now r s =
     (let (ts, s') = cachedRouteTemplates r s in (ResolveRoutesExplained now (store_db s) ts, s'))"

definition EnabledModelNames :: "store \<Rightarrow> string list \<times> store" where
  "EnabledModelNames s = (case names_cache s of
       Some ns \<Rightarrow> (ns, s)
     | None \<Rightarrow> (let ns = loadEnabledModelNames (store_db s) in (ns, s\<lparr>names_cache := Some ns\<rparr>)))"

definition cachedAccessKey :: "string \<Rightarrow> store \<Rightarrow> (store_error + access_key) \<times> store" where
  "cachedAccessKey secret s = (case access_key_cache s secret of
       Some k \<Rightarrow> (Inr k, s)
     | None \<Rightarrow> (case loadAccessKey secret (store_db s) of
         Inl e \<Rightarrow> (Inl e, s)
       | Inr k \<Rightarrow> (Inr k, s\<lparr>access_key_cache := (access_key_cache s)(secret \<mapsto> k)\<rparr>)))"

definition write_access_touch :: "instant \<Rightarrow> int \<Rightarrow> store \<Rightarrow> (store_error + unit) \<times> store" where
  "write_access_touch now i s = (case touch_access_key now i (store_db s) of
       Inl e \<Rightarrow> (Inl e, s) | Inr d \<Rightarrow> (Inr (), s\<lparr>store_db := d\<rparr>))"

definition AuthenticateAccessKey :: "instant \<Rightarrow> string \<Rightarrow> store \<Rightarrow> (auth_error + access_key) \<times> store" where
  "AuthenticateAccessKey now secret s =
     (case cachedAccessKey secret s of
        (Inl e, s1) \<Rightarrow> (Inl (UnknownKey e), s1)
      | (Inr k, s1) \<Rightarrow> (case admit now k of
          Inl e \<Rightarrow> (Inl e, s1)
        | Inr k' \<Rightarrow> (case touchConfig ''access_key'' (ak_id k) now (write_access_touch now (ak_id k)) s1 of
            (Inl e, s2) \<Rightarrow> (Inl (UnknownKey e), s2)
          | (Inr _, s2) \<Rightarrow> (Inr k', s2))))"

section \<open>The three caches\<close>

definition right_routes :: "database \<Rightarrow> routing_requirements \<Rightarrow> resolved_route list \<Rightarrow> bool" where
  "right_routes db r ts \<longleftrightarrow> loadRouteTemplates r db = Inr ts"

definition right_names :: "database \<Rightarrow> unit \<Rightarrow> string list \<Rightarrow> bool" where
  "right_names db u ns \<longleftrightarrow> ns = loadEnabledModelNames db"

text \<open>
  Updates that do not change what a cache holds: for routes those that leave the tables of the
  configuration alone, for names those that leave the virtual models alone, for access keys those
  that change at most the times of last use.
\<close>

definition silent_routes :: "database \<Rightarrow> database \<Rightarrow> bool" where
  "silent_routes d d' \<longleftrightarrow> providers d' = providers d \<and> provider_endpoints d' = provider_endpoints d
     \<and> upstream_keys d' = upstream_keys d \<and> virtual_models d' = virtual_models d
     \<and> model_candidates d' = model_candidates d \<and> candidate_protocols d' = candidate_protocols d"

definition silent_names :: "database \<Rightarrow> database \<Rightarrow> bool" where
  "silent_names d d' \<longleftrightarrow> virtual_models d' = virtual_models d"

definition silent_keys :: "database \<Rightarrow> database \<Rightarrow> bool" where
  "silent_keys d d' \<longleftrightarrow> map (\<lambda>a. a\<lparr>a_last_used := None\<rparr>) (rows (access_keys d'))
     = map (\<lambda>a. a\<lparr>a_last_used := None\<rparr>) (rows (access_keys d))"

lemma load_routes_same:
  assumes "silent_routes d d'"
  shows "loadRouteTemplates r d' = loadRouteTemplates r d"
proof -
  have same: "providers d' = providers d" "provider_endpoints d' = provider_endpoints d"
     "upstream_keys d' = upstream_keys d" "virtual_models d' = virtual_models d"
     "model_candidates d' = model_candidates d" "candidate_protocols d' = candidate_protocols d"
    using assms by (simp_all add: silent_routes_def)
  have "providerByID True d' = providerByID True d"
    by (simp add: fun_eq_iff providerByID_def providerEndpoints_def providerKeys_def same)
  then have routes: "candidate_routes d' r = candidate_routes d r"
    by (simp only: candidate_routes_def [abs_def])
  have candidates: "modelCandidates d' = modelCandidates d"
    by (simp add: fun_eq_iff modelCandidates_def scanCandidate_def [abs_def] candidateProtocols_def same)
  show ?thesis unfolding loadRouteTemplates_def same routes candidates by (rule refl)
qed

interpretation route_caching: versioned_cache right_routes silent_routes
  by unfold_locales (simp add: right_routes_def load_routes_same)

interpretation name_caching: versioned_cache right_names silent_names
  by unfold_locales (simp add: right_names_def silent_names_def loadEnabledModelNames_def)

lemma scan_last_used:
  "a\<lparr>a_last_used := None\<rparr> = b\<lparr>a_last_used := None\<rparr> \<Longrightarrow>
   (scanAccessKey a)\<lparr>ak_last_used := None\<rparr> = (scanAccessKey b)\<lparr>ak_last_used := None\<rparr>
   \<and> a_secret a = a_secret b \<and> a_archived a = a_archived b"
  by (cases a; cases b) (simp add: scanAccessKey_def)

interpretation key_caching: versioned_cache right_key silent_keys
proof
  fix d d' secret k
  assume silent: "silent_keys d d'" and right: "right_key d secret k"
  then obtain a where a: "a \<in> set (rows (access_keys d))" "a_secret a = secret" "a_archived a = None"
    "(scanAccessKey a)\<lparr>ak_last_used := None\<rparr> = k\<lparr>ak_last_used := None\<rparr>"
    by (auto simp: right_key_def)
  have "(\<lambda>a. a\<lparr>a_last_used := None\<rparr>) ` set (rows (access_keys d'))
      = (\<lambda>a. a\<lparr>a_last_used := None\<rparr>) ` set (rows (access_keys d))"
    using silent unfolding silent_keys_def by (metis set_map)
  with a(1) obtain b where "b \<in> set (rows (access_keys d'))" "b\<lparr>a_last_used := None\<rparr> = a\<lparr>a_last_used := None\<rparr>"
    by (metis (no_types, lifting) image_iff)
  with a(2-4) scan_last_used [of b a] show "right_key d' secret k"
    unfolding right_key_def by (intro bexI [where x = b]) simp_all
qed

section \<open>Updates that are silent for the access keys\<close>

lemma touch_access_key_silent: "touch_access_key now i d = Inr d' \<Longrightarrow> silent_keys d d'"
  by (auto simp: touch_access_key_def exec_Inr silent_keys_def)

lemma silent_keys_same: "access_keys d' = access_keys d \<Longrightarrow> silent_keys d d'"
  by (simp add: silent_keys_def)

lemma mark_key_silent: "MarkUpstreamKeyRevision kid revn status why recover d = Inr d' \<Longrightarrow> silent_keys d d'"
  by (auto simp: MarkUpstreamKeyRevision_def exec_Inr intro: silent_keys_same)

lemma touch_key_silent: "touch_key_row now kid d = Inr d' \<Longrightarrow> silent_keys d d' \<and> silent_names d d'"
  by (auto simp: touch_key_row_def exec_Inr silent_names_def intro: silent_keys_same)

lemma save_credential_silent: "SaveOAuthCredential jwt kid revn data d = Inr d' \<Longrightarrow> silent_keys d d' \<and> silent_names d d'"
  by (auto simp: SaveOAuthCredential_def Let_def exec_Inr silent_names_def elim!: bindE_InrE intro: silent_keys_same)

end
