(* ===== verification/StoreOps.thy ===== *)
theory StoreOps
  imports CatalogInvariant StoreCache
begin

text \<open>
  All changes of the configuration database as one step relation, and what every state they
  reach has: the invariant of the catalog, and no lost update of a credential. Each operation comes
  with the invalidation of the caches that follows its commit in the source.
\<close>

section \<open>Operations on keys and credentials keep the catalog\<close>

lemma exec_same_catalog:
  "catalog_ok db \<Longrightarrow> exec db' = Inr d \<Longrightarrow> same_catalog db db' \<Longrightarrow> catalog_ok d"
  by (rule catalog_ok_exec)

lemma same_catalog_updates [simp]:
  "same_catalog db (db\<lparr>upstream_keys := t\<rparr>)"
  "same_catalog db (db\<lparr>access_keys := u\<rparr>)"
  "same_catalog db (db\<lparr>access_keys := u, antigravity_tool_history := h\<rparr>)"
  "same_catalog db (db\<lparr>antigravity_credentials := c\<rparr>)"
  "same_catalog db (db\<lparr>antigravity_model_states := m\<rparr>)"
  by (simp_all add: same_catalog_def)

lemma exec_tables:
  "catalog_ok db \<Longrightarrow> exec (db\<lparr>upstream_keys := t\<rparr>) = Inr d \<Longrightarrow> catalog_ok d"
  "catalog_ok db \<Longrightarrow> exec (db\<lparr>access_keys := u\<rparr>) = Inr d \<Longrightarrow> catalog_ok d"
  "catalog_ok db \<Longrightarrow> exec (db\<lparr>antigravity_credentials := c\<rparr>) = Inr d \<Longrightarrow> catalog_ok d"
  "catalog_ok db \<Longrightarrow> exec (db\<lparr>antigravity_model_states := m\<rparr>) = Inr d \<Longrightarrow> catalog_ok d"
  by (auto intro: exec_same_catalog)

lemma credential_ops_keep [catalog_keeps]:
  assumes ok: "catalog_ok db"
  shows "MarkUpstreamKey kid status why recover db = Inr d \<Longrightarrow> catalog_ok d"
    and "MarkUpstreamKeyRevision kid revn status why recover db = Inr d \<Longrightarrow> catalog_ok d"
    and "ResetUpstreamKeyRuntime kid db = Inr d \<Longrightarrow> catalog_ok d"
    and "touch_key_row now kid db = Inr d \<Longrightarrow> catalog_ok d"
    and "SetUpstreamKeyEnabled kid enabled db = Inr d \<Longrightarrow> catalog_ok d"
    and "ImportOAuthCredential jwt pid name data db = Inr (i, d) \<Longrightarrow> catalog_ok d"
    and "SaveOAuthCredential jwt kid revn data db = Inr d \<Longrightarrow> catalog_ok d"
    and "ReplaceOAuthCredential jwt pid kid revn data db = Inr d \<Longrightarrow> catalog_ok d"
    and "MarkAntigravityModel kid revn model why until db = Inr d \<Longrightarrow> catalog_ok d"
  using ok
  by (auto simp: MarkUpstreamKey_def MarkUpstreamKeyRevision_def ResetUpstreamKeyRuntime_def touch_key_row_def
      SetUpstreamKeyEnabled_def ImportOAuthCredential_def SaveOAuthCredential_def ReplaceOAuthCredential_def
      MarkAntigravityModel_def Let_def split: if_splits elim!: bindE_InrE intro: exec_same_catalog)

lemma MarkModelCandidate_keeps [catalog_keeps]:
  "catalog_ok db \<Longrightarrow> MarkModelCandidate cid revn status why db = Inr d \<Longrightarrow> catalog_ok d"
  unfolding MarkModelCandidate_def
  by (erule (1) update_candidate_rows_keep) (simp_all add: same_candidate_def)

lemma account_ops_keep [catalog_keeps]:
  assumes ok: "catalog_ok db"
  shows "DeleteOAuthCredential now pid kid db = Inr d \<Longrightarrow> catalog_ok d"
    and "ImportAntigravityCredential pid name c db = Inr (i, d) \<Longrightarrow> catalog_ok d"
    and "SaveAntigravityCredential kid revn c db = Inr d \<Longrightarrow> catalog_ok d"
    and "ReplaceAntigravityCredential pid kid revn c db = Inr d \<Longrightarrow> catalog_ok d"
proof -
  assume "DeleteOAuthCredential now pid kid db = Inr d"
  then obtain db1 db2 t u v where credentials: "exec (db\<lparr>antigravity_credentials := t\<rparr>) = Inr db1"
    and states: "exec (db1\<lparr>antigravity_model_states := u\<rparr>) = Inr db2"
    and keys: "exec (db2\<lparr>upstream_keys := v\<rparr>) = Inr d"
    unfolding DeleteOAuthCredential_def by (elim bindE_InrE) simp
  from exec_tables(3) [OF ok credentials] have "catalog_ok db1" .
  from exec_tables(4) [OF this states] have "catalog_ok db2" .
  from exec_tables(1) [OF this keys] show "catalog_ok d" .
next
  assume "ImportAntigravityCredential pid name c db = Inr (i, d)"
  then obtain db1 t u where "exec (db\<lparr>upstream_keys := t\<rparr>) = Inr db1"
    and "exec (db1\<lparr>antigravity_credentials := u\<rparr>) = Inr d"
    by (auto simp: ImportAntigravityCredential_def elim!: bindE_InrE)
  with ok show "catalog_ok d" by (blast intro: exec_tables)
next
  assume "SaveAntigravityCredential kid revn c db = Inr d"
  then obtain db1 db2 t u v where "exec (db\<lparr>upstream_keys := t\<rparr>) = Inr db1"
    and "exec (db1\<lparr>antigravity_credentials := u\<rparr>) = Inr db2"
    and "exec (db2\<lparr>antigravity_model_states := v\<rparr>) = Inr d"
    by (auto simp: SaveAntigravityCredential_def write_documents_def Let_def elim!: bindE_InrE)
  with ok show "catalog_ok d" by (blast intro: exec_tables)
next
  assume "ReplaceAntigravityCredential pid kid revn c db = Inr d"
  then obtain db1 db2 t u v where "exec (db\<lparr>upstream_keys := t\<rparr>) = Inr db1"
    and "exec (db1\<lparr>antigravity_credentials := u\<rparr>) = Inr db2"
    and "exec (db2\<lparr>antigravity_model_states := v\<rparr>) = Inr d"
    by (auto simp: ReplaceAntigravityCredential_def write_documents_def Let_def elim!: bindE_InrE)
  with ok show "catalog_ok d" by (blast intro: exec_tables)
qed

lemma access_key_ops_keep [catalog_keeps]:
  assumes ok: "catalog_ok db"
  shows "CreateAccessKey token now name expires db = Inr (k, d) \<Longrightarrow> catalog_ok d"
    and "SetAccessKeyEnabled i enabled db = Inr d \<Longrightarrow> catalog_ok d"
    and "UpdateAccessKey i name expires enabled db = Inr d \<Longrightarrow> catalog_ok d"
    and "DeleteAccessKey now i db = Inr (archived, d) \<Longrightarrow> catalog_ok d"
    and "touch_access_key now i db = Inr d \<Longrightarrow> catalog_ok d"
proof -
  assume "CreateAccessKey token now name expires db = Inr (k, d)"
  then obtain db1 t u where "exec (db\<lparr>access_keys := t\<rparr>) = Inr db1" "exec (db1\<lparr>access_keys := u\<rparr>) = Inr d"
    by (auto simp: CreateAccessKey_def Let_def elim!: bindE_InrE)
  with ok show "catalog_ok d" by (blast intro: exec_tables)
qed (use ok in \<open>auto simp: SetAccessKeyEnabled_def UpdateAccessKey_def DeleteAccessKey_def touch_access_key_def
      split: if_splits elim!: bindE_InrE intro: exec_same_catalog\<close>)

section \<open>Operations\<close>

text \<open>
  An operation of the store as its callers see it: its transaction, and the caches it invalidates
  when that has committed, given the database it started from. \<^verbatim>\<open>invalidateConfig\<close> empties all
  caches, \<^verbatim>\<open>invalidateRoutes\<close> that of the routes.
\<close>

datatype invalidation = AllCaches | RouteCache | NoCache

record operation =
  op_commit :: "database \<Rightarrow> store_error + database"
  op_after :: "database \<Rightarrow> invalidation"

definition database_of :: "(database \<Rightarrow> store_error + 'r \<times> database) \<Rightarrow> database \<Rightarrow> store_error + database" where
  "database_of f db = bindE (f db) (\<lambda>(_, d). Inr d)"

definition CreateProvider_op where
  "CreateProvider_op now input = \<lparr>op_commit = database_of (CreateProvider now input), op_after = (\<lambda>_. AllCaches)\<rparr>"

definition UpdateProvider_op where
  "UpdateProvider_op now pid input = \<lparr>op_commit = UpdateProvider now pid input, op_after = (\<lambda>_. AllCaches)\<rparr>"

definition SetProviderEnabled_op where
  "SetProviderEnabled_op pid enabled = \<lparr>op_commit = SetProviderEnabled pid enabled, op_after = (\<lambda>_. AllCaches)\<rparr>"

definition DeleteProvider_op where
  "DeleteProvider_op now pid = \<lparr>op_commit = database_of (DeleteProvider now pid), op_after = (\<lambda>_. AllCaches)\<rparr>"

definition CreateVirtualModel_op where
  "CreateVirtualModel_op now m = \<lparr>op_commit = database_of (CreateVirtualModel now m), op_after = (\<lambda>_. AllCaches)\<rparr>"

definition UpdateVirtualModel_op where
  "UpdateVirtualModel_op now mid m = \<lparr>op_commit = UpdateVirtualModel now mid m, op_after = (\<lambda>_. AllCaches)\<rparr>"

definition SetVirtualModelEnabled_op where
  "SetVirtualModelEnabled_op mid enabled = \<lparr>op_commit = SetVirtualModelEnabled mid enabled, op_after = (\<lambda>_. AllCaches)\<rparr>"

definition DeleteVirtualModel_op where
  "DeleteVirtualModel_op now mid = \<lparr>op_commit = database_of (DeleteVirtualModel now mid), op_after = (\<lambda>_. AllCaches)\<rparr>"

definition MarkUpstreamKey_op where
  "MarkUpstreamKey_op kid status why recover = \<lparr>op_commit = MarkUpstreamKey kid status why recover, op_after = (\<lambda>_. AllCaches)\<rparr>"

definition MarkUpstreamKeyRevision_op where
  "MarkUpstreamKeyRevision_op kid revn status why recover = \<lparr>op_commit = MarkUpstreamKeyRevision kid revn status why recover,
     op_after = (\<lambda>_. RouteCache)\<rparr>"

definition ResetUpstreamKeyRuntime_op where
  "ResetUpstreamKeyRuntime_op kid = \<lparr>op_commit = ResetUpstreamKeyRuntime kid, op_after = (\<lambda>_. AllCaches)\<rparr>"

definition TouchUpstreamKey_op where
  "TouchUpstreamKey_op now kid = \<lparr>op_commit = touch_key_row now kid, op_after = (\<lambda>_. RouteCache)\<rparr>"

definition SetUpstreamKeyEnabled_op where
  "SetUpstreamKeyEnabled_op kid enabled = \<lparr>op_commit = SetUpstreamKeyEnabled kid enabled, op_after = (\<lambda>_. AllCaches)\<rparr>"

definition MarkModelCandidate_op where
  "MarkModelCandidate_op cid revn status why = \<lparr>op_commit = MarkModelCandidate cid revn status why,
     op_after = (\<lambda>db. if some_row (\<lambda>d. d_id d = cid \<and> d_revision d = revn) (model_candidates db) then AllCaches else NoCache)\<rparr>"

definition ImportOAuthCredential_op where
  "ImportOAuthCredential_op jwt pid name data = \<lparr>op_commit = database_of (ImportOAuthCredential jwt pid name data),
     op_after = (\<lambda>_. AllCaches)\<rparr>"

definition SaveOAuthCredential_op where
  "SaveOAuthCredential_op jwt kid revn data = \<lparr>op_commit = SaveOAuthCredential jwt kid revn data, op_after = (\<lambda>_. RouteCache)\<rparr>"

definition ReplaceOAuthCredential_op where
  "ReplaceOAuthCredential_op jwt pid kid revn data = \<lparr>op_commit = ReplaceOAuthCredential jwt pid kid revn data,
     op_after = (\<lambda>_. AllCaches)\<rparr>"

definition DeleteOAuthCredential_op where
  "DeleteOAuthCredential_op now pid kid = \<lparr>op_commit = DeleteOAuthCredential now pid kid, op_after = (\<lambda>_. AllCaches)\<rparr>"

definition ImportAntigravityCredential_op where
  "ImportAntigravityCredential_op pid name c = \<lparr>op_commit = database_of (ImportAntigravityCredential pid name c),
     op_after = (\<lambda>_. AllCaches)\<rparr>"

definition SaveAntigravityCredential_op where
  "SaveAntigravityCredential_op kid revn c = \<lparr>op_commit = SaveAntigravityCredential kid revn c, op_after = (\<lambda>_. AllCaches)\<rparr>"

definition ReplaceAntigravityCredential_op where
  "ReplaceAntigravityCredential_op pid kid revn c = \<lparr>op_commit = ReplaceAntigravityCredential pid kid revn c,
     op_after = (\<lambda>_. AllCaches)\<rparr>"

definition MarkAntigravityModel_op where
  "MarkAntigravityModel_op kid revn model why until = \<lparr>op_commit = MarkAntigravityModel kid revn model why until,
     op_after = (\<lambda>_. NoCache)\<rparr>"

definition CreateAccessKey_op where
  "CreateAccessKey_op token now name expires = \<lparr>op_commit = database_of (CreateAccessKey token now name expires),
     op_after = (\<lambda>_. AllCaches)\<rparr>"

definition SetAccessKeyEnabled_op where
  "SetAccessKeyEnabled_op i enabled = \<lparr>op_commit = SetAccessKeyEnabled i enabled, op_after = (\<lambda>_. AllCaches)\<rparr>"

definition UpdateAccessKey_op where
  "UpdateAccessKey_op i name expires enabled = \<lparr>op_commit = UpdateAccessKey i name expires enabled, op_after = (\<lambda>_. AllCaches)\<rparr>"

definition DeleteAccessKey_op where
  "DeleteAccessKey_op now i = \<lparr>op_commit = database_of (DeleteAccessKey now i), op_after = (\<lambda>_. AllCaches)\<rparr>"

definition TouchAccessKey_op where
  "TouchAccessKey_op now i = \<lparr>op_commit = touch_access_key now i, op_after = (\<lambda>_. NoCache)\<rparr>"

lemmas operation_defs =
  CreateProvider_op_def UpdateProvider_op_def SetProviderEnabled_op_def DeleteProvider_op_def
  CreateVirtualModel_op_def UpdateVirtualModel_op_def SetVirtualModelEnabled_op_def DeleteVirtualModel_op_def
  MarkUpstreamKey_op_def MarkUpstreamKeyRevision_op_def ResetUpstreamKeyRuntime_op_def
  TouchUpstreamKey_op_def SetUpstreamKeyEnabled_op_def MarkModelCandidate_op_def ImportOAuthCredential_op_def
  SaveOAuthCredential_op_def ReplaceOAuthCredential_op_def DeleteOAuthCredential_op_def
  ImportAntigravityCredential_op_def SaveAntigravityCredential_op_def ReplaceAntigravityCredential_op_def
  MarkAntigravityModel_op_def CreateAccessKey_op_def SetAccessKeyEnabled_op_def UpdateAccessKey_op_def
  DeleteAccessKey_op_def TouchAccessKey_op_def

lemma operation_pair [intro]: "f db = Inr (x, d) \<Longrightarrow> database_of f db = Inr d"
  by (simp add: database_of_def)

lemma database_of_InrE: "database_of f db = Inr d \<Longrightarrow> (\<And>x. f db = Inr (x, d) \<Longrightarrow> P) \<Longrightarrow> P"
  by (auto simp: database_of_def elim!: bindE_InrE)

inductive store_operation :: "jwt_parser \<Rightarrow> operation \<Rightarrow> bool" for jwt where
  "store_operation jwt (CreateProvider_op now input)"
| "store_operation jwt (UpdateProvider_op now pid input)"
| "store_operation jwt (SetProviderEnabled_op pid enabled)"
| "store_operation jwt (DeleteProvider_op now pid)"
| "store_operation jwt (CreateVirtualModel_op now m)"
| "store_operation jwt (UpdateVirtualModel_op now mid m)"
| "store_operation jwt (SetVirtualModelEnabled_op mid enabled)"
| "store_operation jwt (DeleteVirtualModel_op now mid)"
| "store_operation jwt (MarkUpstreamKey_op kid status why recover)"
| "store_operation jwt (MarkUpstreamKeyRevision_op kid revn status why recover)"
| "store_operation jwt (ResetUpstreamKeyRuntime_op kid)"
| "store_operation jwt (TouchUpstreamKey_op now kid)"
| "store_operation jwt (SetUpstreamKeyEnabled_op kid enabled)"
| "store_operation jwt (MarkModelCandidate_op cid revn status why)"
| "store_operation jwt (ImportOAuthCredential_op jwt pid name data)"
| "store_operation jwt (SaveOAuthCredential_op jwt kid revn data)"
| "store_operation jwt (ReplaceOAuthCredential_op jwt pid kid revn data)"
| "store_operation jwt (DeleteOAuthCredential_op now pid kid)"
| "store_operation jwt (ImportAntigravityCredential_op pid name c)"
| "store_operation jwt (SaveAntigravityCredential_op kid revn c)"
| "store_operation jwt (ReplaceAntigravityCredential_op pid kid revn c)"
| "store_operation jwt (MarkAntigravityModel_op kid revn model why until)"
| "store_operation jwt (CreateAccessKey_op token now name expires)"
| "store_operation jwt (SetAccessKeyEnabled_op i enabled)"
| "store_operation jwt (UpdateAccessKey_op i name expires enabled)"
| "store_operation jwt (DeleteAccessKey_op now i)"
| "store_operation jwt (TouchAccessKey_op now i)"

text \<open>A change of the database is an operation that commits.\<close>

definition store_step :: "jwt_parser \<Rightarrow> database \<Rightarrow> database \<Rightarrow> bool" where
  "store_step jwt db d \<longleftrightarrow> (\<exists>c. store_operation jwt c \<and> op_commit c db = Inr d)"

lemma store_stepI: "store_operation jwt c \<Longrightarrow> op_commit c db = Inr d \<Longrightarrow> store_step jwt db d"
  by (auto simp: store_step_def)

lemma store_step_pair:
  assumes "f db = Inr (x, d)" and "store_operation jwt c" and "op_commit c = database_of f"
  shows "store_step jwt db d"
  using assms by (intro store_stepI [of jwt c]) (simp_all add: database_of_def)

lemma operation_keeps: "store_operation jwt c \<Longrightarrow> op_commit c db = Inr d \<Longrightarrow> catalog_ok db \<Longrightarrow> catalog_ok d"
  by (induction rule: store_operation.induct; simp add: operation_defs; (erule database_of_InrE)?;
      erule (1) catalog_keeps [rotated])

lemma store_step_keeps: "store_step jwt db d \<Longrightarrow> catalog_ok db \<Longrightarrow> catalog_ok d"
  by (auto simp: store_step_def intro: operation_keeps)

definition store_reachable :: "jwt_parser \<Rightarrow> database \<Rightarrow> bool" where
  "store_reachable jwt db \<longleftrightarrow> (store_step jwt)\<^sup>*\<^sup>* empty_database db"

lemma empty_database_ok: "catalog_ok empty_database"
  by (simp add: catalog_ok_def schema_ok_def unique_columns_def foreign_keys_def unique_def refers_def
      refers_opt_def select_def numbered_def live_ok_def empty_database_def empty_table_def)

lemma store_reachable_ok: "store_reachable jwt db \<Longrightarrow> catalog_ok db"
  unfolding store_reachable_def
  by (induction rule: rtranclp_induct) (auto intro: empty_database_ok store_step_keeps)

section \<open>Ids and revisions of keys\<close>

text \<open>
  How the keys of two tables relate when operations lead from the first to the second: ids are given
  out once, in increasing order, and the revision of a key never goes back.
\<close>

definition keys_after :: "key_row table \<Rightarrow> key_row table \<Rightarrow> bool" where
  "keys_after t t' \<longleftrightarrow> last_id t \<le> last_id t' \<and> (\<forall>k' \<in> set (rows t'). k_id k' \<le> last_id t'
     \<and> (last_id t < k_id k' \<or> (\<exists>k \<in> set (rows t). k_id k = k_id k' \<and> k_revision k \<le> k_revision k')))"

lemma keys_after_refl: "(\<forall>k \<in> set (rows t). k_id k \<le> last_id t) \<Longrightarrow> keys_after t t"
  by (auto simp: keys_after_def)

lemma keys_after_trans: "keys_after t u \<Longrightarrow> keys_after u v \<Longrightarrow> keys_after t v"
  by (fastforce simp: keys_after_def)

lemma keys_after_update:
  "keys_after t u \<Longrightarrow> (\<And>k. k_id (f k) = k_id k \<and> k_revision k \<le> k_revision (f k)) \<Longrightarrow> keys_after t (update_where P f u)"
  by (rule keys_after_trans, assumption) (auto simp: keys_after_def intro: bexI)

lemma keys_after_delete: "keys_after t u \<Longrightarrow> keys_after t (delete_where P u)"
  by (auto simp: keys_after_def)

lemma keys_after_insert: "keys_after t u \<Longrightarrow> (\<And>i. k_id (f i) = i) \<Longrightarrow> keys_after t (insert_row f u)"
  by (auto simp: keys_after_def)

lemmas keys_after_intros = keys_after_update keys_after_delete keys_after_insert

abbreviation keys_later :: "key_row table \<Rightarrow> database \<Rightarrow> bool" where
  "keys_later t db \<equiv> keys_after t (upstream_keys db)"

text \<open>A loop that keeps the keys later keeps them later.\<close>

lemma foldE_later:
  assumes "foldE f xs s = Inr s'" and "keys_later t (g s)"
    and "\<And>x s s'. keys_later t (g s) \<Longrightarrow> f x s = Inr s' \<Longrightarrow> keys_later t (g s')"
  shows "keys_later t (g s')"
  by (rule foldE_invariant [OF assms(1), where P = "\<lambda>s. keys_later t (g s)"]) (use assms(2,3) in blast)+

named_theorems keys_later

lemma provider_steps_later [keys_later]:
  assumes t: "keys_later t db"
  shows "free_provider_name name db = Inr d \<Longrightarrow> keys_later t d"
    and "insert_provider now input db = Inr d \<Longrightarrow> keys_later t d"
    and "insert_endpoint pid e db = Inr d \<Longrightarrow> keys_later t d"
    and "insert_key pid key position enabled db = Inr d \<Longrightarrow> keys_later t d"
    and "bump_keys pid db = Inr d \<Longrightarrow> keys_later t d"
    and "delete_keys P db = Inr d \<Longrightarrow> keys_later t d"
    and "drop_key now kid db = Inr d \<Longrightarrow> keys_later t d"
    and "update_provider_row pid input db = Inr d \<Longrightarrow> keys_later t d"
  using t by (auto simp: free_provider_name_def insert_provider_def insert_endpoint_def insert_key_def bump_keys_def
      delete_keys_def drop_key_def update_provider_row_def exec_Inr Let_def new_key_def split: if_splits intro!: keys_after_intros)

lemma update_key_later:
  assumes t: "keys_later t (snd s)" and run: "update_key pid item s = Inr s'"
  shows "keys_later t (snd s')"
proof (cases "ki_id (snd item) = 0")
  case True
  with run obtain d where "insert_key pid (snd item) (int (fst item)) (optionalBool (ki_enabled (snd item)) True) (snd s) = Inr d"
    "snd s' = d" by (auto simp: update_key_def Let_def elim!: bindE_InrE)
  with provider_steps_later(4) [OF t] show ?thesis by simp
next
  case False
  with run obtain f where "upstream_keys (snd s') = update_where (\<lambda>k. k_id k = ki_id (snd item)) f (upstream_keys (snd s))"
    "\<And>k. k_id (f k) = k_id k \<and> k_revision k \<le> k_revision (f k)"
    by (auto simp: update_key_def Let_def exec_Inr elim!: bindE_InrE)
  with keys_after_update [OF t] show ?thesis by simp
qed

lemma replace_endpoints_later [keys_later]:
  assumes t: "keys_later t db" and run: "replace_endpoints pid es db = Inr d"
  shows "keys_later t d"
proof -
  from run obtain db1 where "exec (db\<lparr>provider_endpoints := delete_where (\<lambda>e. e_provider e = pid) (provider_endpoints db)\<rparr>) = Inr db1"
    and loop: "foldE (insert_endpoint pid) es db1 = Inr d"
    unfolding replace_endpoints_def by (elim bindE_InrE)
  with t have "keys_later t db1" by (auto simp: exec_Inr)
  with foldE_later [OF loop, of t "\<lambda>x. x"] provider_steps_later(3) show ?thesis by blast
qed

lemma replace_keys_later [keys_later]:
  assumes "keys_later t db" and "replace_keys now pid keys db = Inr d"
  shows "keys_later t d"
proof -
  from assms(2) obtain db1 left db2 where moved: "exec (db\<lparr>upstream_keys := update_where (\<lambda>k. k_provider k = pid)
              (\<lambda>k. k\<lparr>k_position := - k_id k\<rparr>) (upstream_keys db)\<rparr>) = Inr db1"
      and edited: "foldE (update_key pid) (enumerate 0 keys) (providerKeyIDs db pid, db1) = Inr (left, db2)"
      and dropped: "foldE (drop_key now) left db2 = Inr d"
    unfolding replace_keys_def by (elim bindE_InrE) auto
  from moved have "upstream_keys db1 = update_where (\<lambda>k. k_provider k = pid)
              (\<lambda>k. k\<lparr>k_position := - k_id k\<rparr>) (upstream_keys db)" by (auto simp: exec_Inr)
  with keys_after_update [OF assms(1)] have "keys_later t db1" by simp
  with foldE_later [OF edited, of t snd] update_key_later have "keys_later t db2" by simp
  with foldE_later [OF dropped, of t "\<lambda>x. x"] provider_steps_later(7) show ?thesis by blast
qed

lemma CreateProvider_later [keys_later]:
  assumes t: "keys_later t db" and run: "CreateProvider now input db = Inr (p, d)"
  shows "keys_later t d"
proof -
  from run obtain input' db1 db2 db3 where "free_provider_name (pi_name input') db = Inr db1"
    "insert_provider now input' db1 = Inr db2"
    and endpoints: "foldE (insert_endpoint (last_id (providers db2))) (pi_endpoints input') db2 = Inr db3"
    and keys: "foldE (\<lambda>(i, key). insert_key (last_id (providers db2)) key (int i) True) (enumerate 0 (pi_keys input')) db3 = Inr d"
    unfolding CreateProvider_def by (elim bindE_InrE) auto
  with provider_steps_later(1,2) t have "keys_later t db2" by blast
  with foldE_later [OF endpoints, of t "\<lambda>x. x"] provider_steps_later(3) have "keys_later t db3" by blast
  with foldE_later [OF keys, of t "\<lambda>x. x"] provider_steps_later(4) show ?thesis by (auto simp: case_prod_unfold)
qed

lemma UpdateProvider_later [keys_later]:
  assumes t: "keys_later t db" and run: "UpdateProvider now pid input db = Inr d"
  shows "keys_later t d"
proof -
  from run obtain input' db1 db2 db3 where "free_provider_name (pi_name input') db = Inr db1"
    "update_provider_row pid input' db1 = Inr db2" "replace_endpoints pid (pi_endpoints input') db2 = Inr db3"
    and "bump_keys pid db3 = Inr d \<or> replace_keys now pid (pi_keys input') db3 = Inr d"
    unfolding UpdateProvider_def by (elim bindE_InrE) (auto split: if_splits)
  with t show ?thesis using provider_steps_later(1,5,8) replace_endpoints_later replace_keys_later by metis
qed

lemma SetProviderEnabled_later [keys_later]:
  assumes t: "keys_later t db" and run: "SetProviderEnabled pid enabled db = Inr d"
  shows "keys_later t d"
proof -
  from run obtain db1 where "exec (db\<lparr>providers := update_where (active_provider pid)
              (\<lambda>p. p\<lparr>p_enabled := enabled\<rparr>) (providers db)\<rparr>) = Inr db1" "bump_keys pid db1 = Inr d"
    unfolding SetProviderEnabled_def by (elim bindE_InrE)
  with t show ?thesis using provider_steps_later(5) [of t db1] by (auto simp: exec_Inr)
qed

lemma DeleteProvider_later [keys_later]:
  assumes t: "keys_later t db" and run: "DeleteProvider now pid db = Inr (archived, d)"
  shows "keys_later t d"
proof (cases archived)
  case True
  with run have "\<exists>f P. upstream_keys d = update_where P f (upstream_keys db)
      \<and> (\<forall>k. k_id (f k) = k_id k \<and> k_revision k \<le> k_revision (f k))"
    by (fastforce simp: DeleteProvider_def Let_def exec_Inr split: if_splits elim!: bindE_InrE)
  with keys_after_update [OF t] show ?thesis by auto
next
  case False
  with run have "\<exists>P. upstream_keys d = delete_where P (upstream_keys db)"
    by (fastforce simp: DeleteProvider_def delete_keys_def Let_def exec_Inr split: if_splits elim!: bindE_InrE)
  with keys_after_delete [OF t] show ?thesis by auto
qed

lemma model_steps_later [keys_later]:
  assumes t: "keys_later t db"
  shows "free_model_name name db = Inr d \<Longrightarrow> keys_later t d"
    and "insert_candidate mid position c db = Inr d \<Longrightarrow> keys_later t d"
    and "change_candidate position c db = Inr d \<Longrightarrow> keys_later t d"
    and "delete_protocols cid db = Inr d \<Longrightarrow> keys_later t d"
    and "insert_protocol cid item db = Inr d \<Longrightarrow> keys_later t d"
    and "SetVirtualModelEnabled mid enabled db = Inr d \<Longrightarrow> keys_later t d"
    and "DeleteVirtualModel now mid db = Inr (archived, d) \<Longrightarrow> keys_later t d"
    and "MarkModelCandidate cid revn status why db = Inr d \<Longrightarrow> keys_later t d"
  using t by (auto simp: free_model_name_def insert_candidate_def change_candidate_def delete_protocols_def insert_protocol_def
      SetVirtualModelEnabled_def DeleteVirtualModel_def MarkModelCandidate_def exec_Inr Let_def split: if_splits elim!: bindE_InrE)

lemma protocols_later: "keys_later t db \<Longrightarrow> insertCandidateProtocols cid qs db = Inr d \<Longrightarrow> keys_later t d"
  unfolding insertCandidateProtocols_def
  using foldE_later [of "insert_protocol cid" "enumerate 0 qs" db d t "\<lambda>x. x"] model_steps_later(5) by blast

lemma drop_candidate_later: "keys_later t db \<Longrightarrow> drop_candidate now cid db = Inr d \<Longrightarrow> keys_later t d"
  by (auto simp: drop_candidate_def exec_Inr elim!: bindE_InrE dest: model_steps_later(4))

lemma update_candidate_later:
  assumes t: "keys_later t (snd s)" and run: "update_candidate mid item s = Inr s'"
  shows "keys_later t (snd s')"
proof -
  from run obtain cid db1 db2 where "insert_candidate mid (fst item) (snd item) (snd s) = Inr db1
      \<or> change_candidate (fst item) (snd item) (snd s) = Inr db1"
    "delete_protocols cid db1 = Inr db2" "insertCandidateProtocols cid (ci_protocols (snd item)) db2 = Inr (snd s')"
    unfolding update_candidate_def Let_def by (elim bindE_InrE) (auto split: if_splits elim!: bindE_InrE, blast+)
  with t show ?thesis using model_steps_later(2-4) protocols_later by metis
qed

lemma CreateVirtualModel_later [keys_later]:
  assumes t: "keys_later t db" and run: "CreateVirtualModel now m db = Inr (vm, d)"
  shows "keys_later t d"
proof -
  from run obtain cs db1 db2 where "free_model_name (mi_name m) db = Inr db1"
    and inserted: "exec (db1\<lparr>virtual_models := insert_row (\<lambda>i. \<lparr>m_id = i, m_name = mi_name m,
              m_enabled = True, m_created_at = now, m_archived = None\<rparr>) (virtual_models db1)\<rparr>) = Inr db2"
    and loop: "foldE (\<lambda>(position, c) db. bindE (insert_candidate (last_id (virtual_models db2)) position c db)
              (\<lambda>db'. insertCandidateProtocols (last_id (model_candidates db')) (ci_protocols c) db'))
            (enumerate 0 cs) db2 = Inr d"
    unfolding CreateVirtualModel_def by (elim bindE_InrE) auto
  from model_steps_later(1) [OF t this(1)] inserted have "keys_later t db2" by (auto simp: exec_Inr)
  moreover have "keys_later t d2" if "keys_later t d1"
    and "bindE (insert_candidate mid position c d1) (\<lambda>db'. insertCandidateProtocols (last_id (model_candidates db')) (ci_protocols c) db') = Inr d2"
    for mid position c d1 d2
    using that(2) model_steps_later(2) [OF that(1)] protocols_later by (elim bindE_InrE) blast
  ultimately show ?thesis using foldE_later [OF loop, of t "\<lambda>x. x"] by (simp add: case_prod_unfold)
qed

lemma UpdateVirtualModel_later [keys_later]:
  assumes t: "keys_later t db" and run: "UpdateVirtualModel now mid m db = Inr d"
  shows "keys_later t d"
proof -
  from run obtain cs db1 db2 db3 left db4 where "free_model_name (mi_name m) db = Inr db1"
    and moved: "exec (db1\<lparr>virtual_models := update_where (active_model mid)
              (\<lambda>x. x\<lparr>m_name := mi_name m\<rparr>) (virtual_models db1)\<rparr>) = Inr db2"
      "exec (db2\<lparr>model_candidates := update_where (\<lambda>d. d_model d = mid)
              (\<lambda>d. d\<lparr>d_position := - d_id d\<rparr>) (model_candidates db2)\<rparr>) = Inr db3"
    and edited: "foldE (update_candidate mid) (enumerate 0 cs) (candidateIDs db2 mid, db3) = Inr (left, db4)"
    and dropped: "foldE (drop_candidate now) left db4 = Inr d"
    unfolding UpdateVirtualModel_def by (elim bindE_InrE) (auto elim!: bindE_InrE)
  from model_steps_later(1) [OF t this(1)] moved have "keys_later t db3" by (auto simp: exec_Inr)
  with foldE_later [OF edited, of t snd] update_candidate_later have "keys_later t db4" by simp
  with foldE_later [OF dropped, of t "\<lambda>x. x"] drop_candidate_later show ?thesis by blast
qed

lemma key_ops_later [keys_later]:
  assumes t: "keys_later t db"
  shows "MarkUpstreamKey kid status why recover db = Inr d \<Longrightarrow> keys_later t d"
    and "MarkUpstreamKeyRevision kid revn status why recover db = Inr d \<Longrightarrow> keys_later t d"
    and "ResetUpstreamKeyRuntime kid db = Inr d \<Longrightarrow> keys_later t d"
    and "touch_key_row now kid db = Inr d \<Longrightarrow> keys_later t d"
    and "SetUpstreamKeyEnabled kid enabled db = Inr d \<Longrightarrow> keys_later t d"
    and "ImportOAuthCredential jwt pid name data db = Inr (i, d) \<Longrightarrow> keys_later t d"
    and "SaveOAuthCredential jwt kid revn data db = Inr d \<Longrightarrow> keys_later t d"
    and "ReplaceOAuthCredential jwt pid kid revn data db = Inr d \<Longrightarrow> keys_later t d"
    and "DeleteOAuthCredential now pid kid db = Inr d \<Longrightarrow> keys_later t d"
    and "ImportAntigravityCredential pid name c db = Inr (i, d) \<Longrightarrow> keys_later t d"
    and "SaveAntigravityCredential kid revn c db = Inr d \<Longrightarrow> keys_later t d"
    and "ReplaceAntigravityCredential pid kid revn c db = Inr d \<Longrightarrow> keys_later t d"
    and "MarkAntigravityModel kid revn model why until db = Inr d \<Longrightarrow> keys_later t d"
  using t by (auto simp: MarkUpstreamKey_def MarkUpstreamKeyRevision_def ResetUpstreamKeyRuntime_def touch_key_row_def
      SetUpstreamKeyEnabled_def ImportOAuthCredential_def SaveOAuthCredential_def ReplaceOAuthCredential_def
      DeleteOAuthCredential_def ImportAntigravityCredential_def SaveAntigravityCredential_def
      ReplaceAntigravityCredential_def MarkAntigravityModel_def write_documents_def set_status_def store_auth_def
      Let_def exec_Inr split: if_splits elim!: bindE_InrE intro!: keys_after_intros)

lemma access_ops_later [keys_later]:
  assumes t: "keys_later t db"
  shows "CreateAccessKey token now name expires db = Inr (k, d) \<Longrightarrow> keys_later t d"
    and "SetAccessKeyEnabled i enabled db = Inr d \<Longrightarrow> keys_later t d"
    and "UpdateAccessKey i name expires enabled db = Inr d \<Longrightarrow> keys_later t d"
    and "DeleteAccessKey now i db = Inr (archived, d) \<Longrightarrow> keys_later t d"
    and "touch_access_key now i db = Inr d \<Longrightarrow> keys_later t d"
  using t by (auto simp: CreateAccessKey_def SetAccessKeyEnabled_def UpdateAccessKey_def DeleteAccessKey_def
      touch_access_key_def Let_def exec_Inr split: if_splits elim!: bindE_InrE)

lemma operation_later: "store_operation jwt c \<Longrightarrow> op_commit c db = Inr d \<Longrightarrow> keys_later t db \<Longrightarrow> keys_later t d"
  by (induction rule: store_operation.induct; simp add: operation_defs; (erule database_of_InrE)?;
      erule (1) keys_later [rotated])

lemma store_step_later: "store_step jwt db d \<Longrightarrow> keys_later t db \<Longrightarrow> keys_later t d"
  by (auto simp: store_step_def intro: operation_later)

lemma store_steps_later: "(store_step jwt)\<^sup>*\<^sup>* db d \<Longrightarrow> keys_later t db \<Longrightarrow> keys_later t d"
  by (induction rule: rtranclp_induct) (auto intro: store_step_later)

lemma reachable_keys_numbered: "store_reachable jwt db \<Longrightarrow> keys_after (upstream_keys db) (upstream_keys db)"
proof -
  assume "store_reachable jwt db"
  then have "keys_later (upstream_keys empty_database) db"
    unfolding store_reachable_def by (rule store_steps_later) (simp add: empty_database_def empty_table_def keys_after_def)
  then show ?thesis by (auto simp: keys_after_def)
qed

section \<open>Operations that overlap with readers\<close>

text \<open>
  Readers of one cache and operations of the store, interleaved at the points where they meet: a
  reader that missed begins, ends with what it read or without an answer; an operation commits, and
  what it does to the cache follows later, as \<open>op_after\<close> says. \<open>clears\<close> tells which invalidations
  empty this cache; the others only move the version. \<open>in_flight\<close> counts the operations that have
  committed and have still to empty the cache.
\<close>

inductive run_step ::
    "jwt_parser \<Rightarrow> (database \<Rightarrow> 'k \<Rightarrow> 'v \<Rightarrow> bool) \<Rightarrow> (invalidation \<Rightarrow> bool) \<Rightarrow>
     (database, 'k, 'v) cached \<Rightarrow> (database, 'k, 'v) cached \<Rightarrow> bool"
  for jwt right clears where
  Reads: "loader s = None \<Longrightarrow> cache s k = None \<Longrightarrow>
     run_step jwt right clears s (s\<lparr>loader := Some \<lparr>loading_key = k, loading_version = version s, torn = False\<rparr>\<rparr>)"
| Stores: "loader s = Some l \<Longrightarrow> torn l \<or> right (database_now s) (loading_key l) v \<Longrightarrow>
     run_step jwt right clears s (s\<lparr>loader := None,
        cache := (if loading_version l = version s then (cache s)(loading_key l \<mapsto> v) else cache s)\<rparr>)"
| Fails: "run_step jwt right clears s (s\<lparr>loader := None\<rparr>)"
| Commits: "store_operation jwt c \<Longrightarrow> op_commit c (database_now s) = Inr d \<Longrightarrow>
     run_step jwt right clears s
       (if clears (op_after c (database_now s))
        then s\<lparr>database_now := d, in_flight := in_flight s + 1, loader := tear (loader s)\<rparr>
        else s\<lparr>database_now := d\<rparr>)"
| Empties: "in_flight s > 0 \<Longrightarrow> run_step jwt right clears s
     (s\<lparr>version := version s + 1, cache := Map.empty, in_flight := in_flight s - 1\<rparr>)"
| Moves: "run_step jwt right clears s (s\<lparr>version := version s + 1\<rparr>)"

definition run_reachable ::
    "jwt_parser \<Rightarrow> (database \<Rightarrow> 'k \<Rightarrow> 'v \<Rightarrow> bool) \<Rightarrow> (invalidation \<Rightarrow> bool) \<Rightarrow> (database, 'k, 'v) cached \<Rightarrow> bool" where
  "run_reachable jwt right clears s \<longleftrightarrow> (\<exists>d. (run_step jwt right clears)\<^sup>*\<^sup>* (started d) s)"

lemma run_step_refines:
  assumes "run_step jwt right clears s s'"
    and "\<And>c db d. store_operation jwt c \<Longrightarrow> op_commit c db = Inr d \<Longrightarrow> \<not> clears (op_after c db) \<Longrightarrow> silent db d"
  shows "cache_step right silent s s'"
  using assms(1)
proof (induction rule: run_step.induct)
  case (Commits c s d)
  then show ?case using assms(2) cache_step.Commit [where right = right and silent = silent and s = s and d = d]
    by (auto intro: cache_step.Silent)
qed (rule cache_step.intros; assumption)+

lemma run_reachable_refines:
  assumes "run_reachable jwt right clears s"
    and "\<And>c db d. store_operation jwt c \<Longrightarrow> op_commit c db = Inr d \<Longrightarrow> \<not> clears (op_after c db) \<Longrightarrow> silent db d"
  shows "cache_reachable right silent s"
proof -
  have "(run_step jwt right clears)\<^sup>*\<^sup>* x y \<Longrightarrow> (cache_step right silent)\<^sup>*\<^sup>* x y" for x y
    by (induction rule: rtranclp_induct) (auto intro: rtranclp.rtrancl_into_rtrancl run_step_refines [OF _ assms(2)])
  with assms(1) show ?thesis by (auto simp: run_reachable_def cache_reachable_def)
qed

text \<open>Which operations of the store do without an invalidation: those that change nothing a cache holds.\<close>

lemma unchanged_candidates: "\<not> some_row P t \<Longrightarrow> update_where P f t = t"
  by (auto simp: some_row_def update_where_def map_idI)

lemma operation_silent_keys:
  "store_operation jwt c \<Longrightarrow> op_commit c db = Inr d \<Longrightarrow> op_after c db \<noteq> AllCaches \<Longrightarrow> silent_keys db d"
  by (induction rule: store_operation.induct)
    (auto simp: operation_defs MarkModelCandidate_def MarkAntigravityModel_def exec_Inr unchanged_candidates
      intro: silent_keys_same dest: touch_access_key_silent mark_key_silent touch_key_silent save_credential_silent split: if_splits)

lemma operation_silent_names:
  "store_operation jwt c \<Longrightarrow> op_commit c db = Inr d \<Longrightarrow> op_after c db \<noteq> AllCaches \<Longrightarrow> silent_names db d"
  by (induction rule: store_operation.induct)
    (auto simp: operation_defs MarkModelCandidate_def MarkAntigravityModel_def MarkUpstreamKeyRevision_def touch_access_key_def
      silent_names_def exec_Inr unchanged_candidates dest: touch_key_silent save_credential_silent split: if_splits)

lemma operation_silent_routes:
  "store_operation jwt c \<Longrightarrow> op_commit c db = Inr d \<Longrightarrow> op_after c db = NoCache \<Longrightarrow> silent_routes db d"
  by (induction rule: store_operation.induct)
    (auto simp: operation_defs MarkModelCandidate_def MarkAntigravityModel_def touch_access_key_def silent_routes_def
      exec_Inr unchanged_candidates split: if_splits)

lemma keys_run_coherent:
  "run_reachable jwt right_key (\<lambda>i. i = AllCaches) s \<Longrightarrow> cache_reachable right_key silent_keys s"
  by (rule run_reachable_refines) (auto intro: operation_silent_keys)

lemma names_run_coherent:
  "run_reachable jwt right_names (\<lambda>i. i = AllCaches) s \<Longrightarrow> cache_reachable right_names silent_names s"
  by (rule run_reachable_refines) (auto intro: operation_silent_names)

lemma routes_run_coherent:
  "run_reachable jwt right_routes (\<lambda>i. i \<noteq> NoCache) s \<Longrightarrow> cache_reachable right_routes silent_routes s"
  by (rule run_reachable_refines) (auto intro: operation_silent_routes)

end
