(* ===== verification/RoutingLaws.thy ===== *)
theory RoutingLaws
  imports StoreOps
begin

text \<open>
  What the choice of routes promises, stated over the rows of the database: every route serves
  the request, every candidate and key that can serve it is among the routes, and they come in
  the order of the candidates' positions, the keys of a candidate by their last use.
\<close>

section \<open>The protocol\<close>

definition capable :: "candidate_protocol \<Rightarrow> routing_requirements \<Rightarrow> bool" where
  "capable p r \<longleftrightarrow> (rq_upstream_protocol r = [] \<or> Protocol p = rq_upstream_protocol r)
     \<and> (rq_stream r \<longrightarrow> SupportsStream p) \<and> (rq_tools r \<longrightarrow> SupportsTools p)
     \<and> (rq_parallel r \<longrightarrow> SupportsParallelTools p)
     \<and> (rq_effort r = [] \<or> rq_effort r \<in> set (EffortLevels p))"

lemma no_mismatch_iff: "protocolMismatch p r = [] \<longleftrightarrow> capable p r"
  by (auto simp: protocolMismatch_def capable_def)

lemma chooseProtocol_Some:
  assumes "chooseProtocol ps r = Some p"
  shows "p \<in> set ps" and "capable p r"
    and "\<exists>q \<in> set ps. capable q r \<and> Protocol q = rq_protocol r \<Longrightarrow> Protocol p = rq_protocol r"
proof -
  define eligible where "eligible = filter (\<lambda>p. protocolMismatch p r = []) ps"
  have mem: "q \<in> set eligible \<longleftrightarrow> q \<in> set ps \<and> capable q r" for q
    by (auto simp: eligible_def no_mismatch_iff)
  define native where "native = filter (\<lambda>p. Protocol p = rq_protocol r) eligible"
  have choice: "chooseProtocol ps r = (case native of p # _ \<Rightarrow> Some p
      | [] \<Rightarrow> (case eligible of p # _ \<Rightarrow> Some p | [] \<Rightarrow> None))"
    by (simp only: chooseProtocol_def Let_def eligible_def native_def)
  have p: "p \<in> set eligible \<and> (native \<noteq> [] \<longrightarrow> Protocol p = rq_protocol r)"
  proof (cases native)
    case Nil
    with assms choice show ?thesis by (cases eligible) auto
  next
    case (Cons q qs)
    with assms choice have "p = q" by simp
    moreover from Cons have "q \<in> set native" by simp
    ultimately show ?thesis by (auto simp: native_def)
  qed
  then show "p \<in> set ps" and "capable p r" by (simp_all add: mem)
  assume "\<exists>q \<in> set ps. capable q r \<and> Protocol q = rq_protocol r"
  then have "native \<noteq> []" by (auto simp: native_def mem filter_empty_conv)
  with p show "Protocol p = rq_protocol r" by simp
qed

lemma chooseProtocol_None: "chooseProtocol ps r = None \<longleftrightarrow> (\<forall>p \<in> set ps. \<not> capable p r)"
proof -
  define eligible where "eligible = filter (\<lambda>p. protocolMismatch p r = []) ps"
  have "chooseProtocol ps r = None \<longleftrightarrow> eligible = []"
    by (auto simp: chooseProtocol_def Let_def eligible_def [symmetric] split: list.splits)
  then show ?thesis by (auto simp: eligible_def filter_empty_conv no_mismatch_iff)
qed

section \<open>Order\<close>

lemma sorted_wrt_concat_map:
  assumes "sorted_wrt R xs" and "\<And>x. x \<in> set xs \<Longrightarrow> sorted_wrt Q (f x)"
    and "\<And>x y a b. x \<in> set xs \<Longrightarrow> y \<in> set xs \<Longrightarrow> R x y \<Longrightarrow> a \<in> set (f x) \<Longrightarrow> b \<in> set (f y) \<Longrightarrow> Q a b"
  shows "sorted_wrt Q (concat (map f xs))"
  using assms
proof (induction xs)
  case Nil
  then show ?case by simp
next
  case (Cons x xs)
  have "sorted_wrt Q (concat (map f xs))"
  proof (rule Cons.IH)
    show "sorted_wrt R xs" using Cons.prems(1) by simp
    show "sorted_wrt Q (f y)" if "y \<in> set xs" for y using Cons.prems(2) that by simp
    show "Q a b" if "y \<in> set xs" "z \<in> set xs" "R y z" "a \<in> set (f y)" "b \<in> set (f z)" for y z a b
      using that by (intro Cons.prems(3) [of y z a b]) simp_all
  qed
  moreover have "sorted_wrt Q (f x)" using Cons.prems(2) by simp
  moreover have "\<forall>a \<in> set (f x). \<forall>b \<in> set (concat (map f xs)). Q a b"
  proof (intro ballI)
    fix a b assume a: "a \<in> set (f x)" and "b \<in> set (concat (map f xs))"
    then obtain y where y: "y \<in> set xs" "b \<in> set (f y)" by auto
    with Cons.prems(1) have "R x y" by simp
    with a y show "Q a b" by (intro Cons.prems(3) [of x y a b]) simp_all
  qed
  ultimately show ?case by (simp add: sorted_wrt_append)
qed

lemma distinct_sorted_wrt: "distinct (map f xs) \<Longrightarrow> sorted_wrt (\<lambda>a b. f a \<noteq> f b) xs"
  by (induction xs) auto

lemma sorted_wrt_both: "sorted_wrt P xs \<Longrightarrow> sorted_wrt Q xs \<Longrightarrow> sorted_wrt (\<lambda>a b. P a b \<and> Q a b) xs"
  by (induction xs) auto

lemma sorted_wrt_keys: "sorted_wrt (\<lambda>a b. key_last_used a \<le> key_last_used b) (sortKeysByUsage ks)"
  using sorted_sort_key [of key_last_used ks] by (simp add: sortKeysByUsage_def sorted_map)

lemma set_sortKeys [simp]: "set (sortKeysByUsage ks) = set ks"
  by (simp add: sortKeysByUsage_def)

section \<open>The candidates of a model\<close>

definition provider_row_of :: "database \<Rightarrow> int \<Rightarrow> provider_row" where
  "provider_row_of db pid = hd (select (\<lambda>p. p_id p = pid) (providers db))"

definition candidate_view :: "database \<Rightarrow> candidate_row \<Rightarrow> model_candidate" where
  "candidate_view db d =
     \<lparr>cand_id = d_id d, cand_provider_id = d_provider d,
      cand_provider_name = p_name (provider_row_of db (d_provider d)),
      cand_upstream_model = d_upstream_model d, cand_position = d_position d,
      cand_enabled = d_enabled d, cand_default_max = d_default_max d, cand_max = d_max d,
      cand_status = d_status d, cand_protocols = candidateProtocols db (d_id d),
      cand_revision = d_revision d\<rparr>"

lemma distinct_filter_one:
  "distinct (map f xs) \<Longrightarrow> x \<in> set xs \<Longrightarrow> filter (\<lambda>y. f y = f x) xs = [x]"
proof (induction xs)
  case Nil
  then show ?case by simp
next
  case (Cons a xs)
  show ?case
  proof (cases "a = x")
    case True
    with Cons.prems have "filter (\<lambda>y. f y = f x) xs = []" unfolding filter_empty_conv by (auto intro: rev_image_eqI)
    with True show ?thesis by simp
  next
    case False
    with Cons.prems have "f a \<noteq> f x" by auto
    with False Cons show ?thesis by simp
  qed
qed

lemma select_one:
  assumes "unique f t" and "x \<in> set (rows t)"
  shows "select (\<lambda>y. f y = f x) t = [x]"
  using distinct_filter_one [of f "rows t" x] assms by (simp add: unique_def select_def)

lemma query_row_one:
  assumes "unique f t" and "x \<in> set (rows t)" and "P x" and "\<And>y. P y \<Longrightarrow> f y = f x"
  shows "query_row P t = Inr x"
proof -
  have "filter P (rows t) = filter P (filter (\<lambda>y. f y = f x) (rows t))"
    by (rule sym, simp only: filter_filter) (rule filter_cong, use assms(4) in auto)
  also have "filter (\<lambda>y. f y = f x) (rows t) = [x]" using select_one [OF assms(1,2)] by (simp add: select_def)
  finally show ?thesis using assms(3) by (simp add: query_row_def select_def)
qed

lemma catalog_unique:
  assumes "catalog_ok db"
  shows "unique p_id (providers db)" and "unique d_id (model_candidates db)"
    and "unique m_name (virtual_models db)" and "unique m_id (virtual_models db)"
    and "unique k_id (upstream_keys db)"
  using assms by (simp_all add: catalog_ok_def schema_ok_def unique_columns_def)

lemma provider_of_row:
  assumes "catalog_ok db" and "p \<in> set (rows (providers db))"
  shows "provider_row_of db (p_id p) = p"
  using select_one [OF catalog_unique(1) [OF assms(1)] assms(2)] by (simp add: provider_row_of_def)

lemma scanCandidate_view:
  assumes ok: "catalog_ok db" and d: "d \<in> set (rows (model_candidates db))"
  shows "scanCandidate db d = [candidate_view db d]"
proof -
  from ok d obtain p where p: "p \<in> set (rows (providers db))" "p_id p = d_provider d"
    by (fastforce simp: catalog_ok_def schema_ok_def foreign_keys_def refers_def)
  with select_one [OF catalog_unique(1) [OF ok] p(1)] provider_of_row [OF ok p(1)]
  show ?thesis by (simp add: scanCandidate_def candidate_view_def)
qed

definition model_rows :: "database \<Rightarrow> int \<Rightarrow> candidate_row list" where
  "model_rows db mid =
     order_by d_position (select (\<lambda>d. d_model d = mid \<and> d_archived d = None) (model_candidates db))"

lemma set_model_rows [simp]:
  "d \<in> set (model_rows db mid) \<longleftrightarrow> d \<in> set (rows (model_candidates db)) \<and> d_model d = mid \<and> d_archived d = None"
  by (auto simp: model_rows_def)

lemma modelCandidates_view:
  assumes ok: "catalog_ok db"
  shows "modelCandidates db mid = map (candidate_view db) (model_rows db mid)"
proof -
  have "map (scanCandidate db) (model_rows db mid) = map (\<lambda>d. [candidate_view db d]) (model_rows db mid)"
    by (rule map_cong) (auto simp: scanCandidate_view [OF ok])
  moreover have "concat (map (\<lambda>d. [candidate_view db d]) ds) = map (candidate_view db) ds" for ds
    by (induction ds) simp_all
  ultimately show ?thesis by (simp only: modelCandidates_def model_rows_def [symmetric])
qed

lemma model_rows_sorted:
  assumes ok: "catalog_ok db"
  shows "sorted_wrt (\<lambda>a b. d_position a \<le> d_position b \<and> d_id a \<noteq> d_id b) (model_rows db mid)"
proof -
  have "sorted (map d_position (model_rows db mid))" by (simp add: model_rows_def order_by_def)
  then have "sorted_wrt (\<lambda>a b. d_position a \<le> d_position b) (model_rows db mid)"
    by (simp add: sorted_map)
  moreover have "distinct (map d_id (filter (\<lambda>d. d_model d = mid \<and> d_archived d = None) (rows (model_candidates db))))"
    using catalog_unique(2) [OF ok] by (simp add: unique_def distinct_map_filter)
  then have "distinct (map d_id (model_rows db mid))"
    by (auto simp: model_rows_def order_by_def select_def distinct_map)
  ultimately show ?thesis by (intro sorted_wrt_both distinct_sorted_wrt)
qed

section \<open>Endpoints\<close>

lemma map_of_fold_put:
  "map_of (fold (\<lambda>e. put (f e) (g e)) es m) k = Some v \<Longrightarrow>
   map_of m k = Some v \<or> (\<exists>e \<in> set es. f e = k \<and> g e = v)"
  by (induction es arbitrary: m) (fastforce split: if_splits)+

lemma map_of_fold_put_None:
  "map_of (fold (\<lambda>e. put (f e) (g e)) es m) k = None \<longleftrightarrow> map_of m k = None \<and> k \<notin> f ` set es"
  by (induction es arbitrary: m) auto

lemma endpoint_row:
  assumes "text_of proto (providerEndpoints db pid) = url" and "url \<noteq> []"
  shows "\<exists>e \<in> set (rows (provider_endpoints db)). e_provider e = pid \<and> e_protocol e = proto \<and> e_url e = url"
proof -
  from assms have "map_of (providerEndpoints db pid) proto = Some url"
    by (auto simp: text_of_def split: option.splits)
  from map_of_fold_put [OF this [unfolded providerEndpoints_def]] show ?thesis by auto
qed

lemma endpoint_found:
  assumes "has_endpoint db pid proto"
    and "\<forall>e \<in> set (rows (provider_endpoints db)). e_provider e = pid \<longrightarrow> e_url e \<noteq> []"
  shows "text_of proto (providerEndpoints db pid) \<noteq> []"
proof -
  have "map_of (providerEndpoints db pid) proto \<noteq> None"
    using assms(1) unfolding providerEndpoints_def map_of_fold_put_None
    by (auto simp: has_endpoint_def some_row_def)
  then obtain url where url: "map_of (providerEndpoints db pid) proto = Some url" by blast
  with map_of_fold_put [OF url [unfolded providerEndpoints_def]] assms(2) show ?thesis
    by (auto simp: text_of_def)
qed

section \<open>Templates\<close>

lemma blocked_reason [simp]: "SkipReason (blocked_route c why) = why"
  by (simp add: blocked_route_def)

lemma candidate_routes_usable:
  assumes "candidate_routes db r c = Inr xs" and "x \<in> set xs" and "SkipReason x = NoReason"
  obtains p prov k where "chooseProtocol (cand_protocols c) r = Some p"
    and "providerByID True db (cand_provider_id c) = Inr prov" and "prov_enabled prov"
    and "text_of (Protocol p) (prov_endpoints prov) \<noteq> []" and "k \<in> set (prov_keys prov)"
    and "x = key_route r c p (text_of (Protocol p) (prov_endpoints prov))
           (prov\<lparr>prov_keys := sortKeysByUsage (prov_keys prov)\<rparr>) k"
    and "cand_enabled c" and "cand_status c = ''available''" and "rq_candidate r \<in> {0, cand_id c}"
  using assms
  by (auto simp: candidate_routes_def Let_def split: if_splits option.splits elim!: bindE_InrE)

lemma providerByID_row:
  assumes "providerByID True db pid = Inr prov"
  obtains p where "p \<in> set (rows (providers db))" and "active_provider pid p"
    and "prov = (scanProvider p)\<lparr>prov_endpoints := providerEndpoints db pid,
                prov_keys := providerKeys True db pid\<rparr>"
  using assms by (auto simp: providerByID_def active_provider_def dest!: query_row_Inr elim!: bindE_InrE)

lemma providerByID_live:
  assumes ok: "catalog_ok db" and p: "p \<in> set (rows (providers db))" "active_provider pid p"
  shows "providerByID True db pid = Inr ((scanProvider p)\<lparr>prov_endpoints := providerEndpoints db pid,
                prov_keys := providerKeys True db pid\<rparr>)"
proof -
  have "query_row (\<lambda>p. p_id p = pid \<and> p_archived p = None) (providers db) = Inr p"
    by (rule query_row_one [where f = p_id]) (use catalog_unique(1) [OF ok] p in \<open>auto simp: active_provider_def\<close>)
  with p(2) show ?thesis by (simp add: providerByID_def active_provider_def)
qed

lemma set_providerKeys: "k \<in> set (providerKeys True db pid) \<longleftrightarrow>
    (\<exists>row \<in> set (rows (upstream_keys db)). k_provider row = pid \<and> k_archived row = None \<and> k = scanUpstreamKey True row)"
  by (auto simp: providerKeys_def)

definition model_active :: "database \<Rightarrow> string \<Rightarrow> model_row \<Rightarrow> bool" where
  "model_active db name m \<longleftrightarrow> m \<in> set (rows (virtual_models db)) \<and> m_name m = name \<and> m_archived m = None"

lemma query_model:
  assumes "catalog_ok db" and "model_active db name m"
  shows "query_row (\<lambda>m. m_name m = name \<and> m_archived m = None) (virtual_models db) = Inr m"
  by (rule query_row_one [where f = m_name])
    (use assms catalog_unique(3) [OF assms(1)] in \<open>auto simp: model_active_def\<close>)

text \<open>On a catalog that is well formed, reading the templates of a model that exists never fails.\<close>

lemma candidate_routes_total:
  assumes ok: "catalog_ok db" and d: "d \<in> set (model_rows db (m_id m))" and m: "model_active db name m"
  shows "\<exists>xs. candidate_routes db r (candidate_view db d) = Inr xs"
proof -
  from d m have "live_candidate db d" by (auto simp: live_candidate_def some_row_def model_active_def)
  with ok d have "candidate_ok db d" by (simp add: catalog_ok_def live_ok_def)
  then obtain p where "p \<in> set (rows (providers db))" "active_provider (d_provider d) p"
    by (rule candidate_okE) blast
  from providerByID_live [OF ok this] show ?thesis
    by (auto simp: candidate_routes_def candidate_view_def Let_def split: option.splits)
qed

lemma templates_total:
  assumes ok: "catalog_ok db" and m: "model_active db (rq_model r) m" and on: "m_enabled m"
  shows "loadRouteTemplates r db
     = Inr (concat (map (\<lambda>d. projr (candidate_routes db r (candidate_view db d))) (model_rows db (m_id m))))"
proof -
  define h where "h c = projr (candidate_routes db r c)" for c
  have each: "candidate_routes db r (candidate_view db d) = Inr (h (candidate_view db d))"
    if "d \<in> set (model_rows db (m_id m))" for d
    using candidate_routes_total [OF ok that m, of r] by (auto simp: h_def)
  have "mapE (\<lambda>_. candidate_routes db r) (map (candidate_view db) (model_rows db (m_id m)))
      = Inr (map h (map (candidate_view db) (model_rows db (m_id m))))"
    by (rule mapE_from_cong_Inr) (use each in auto)
  then show ?thesis
    using on by (simp add: loadRouteTemplates_def query_model [OF ok m] modelCandidates_view [OF ok] h_def comp_def)
qed

section \<open>Soundness, completeness and order of the routes\<close>

text \<open>What a route of a request is, in terms of the rows it comes from.\<close>

definition model_allows :: "database \<Rightarrow> routing_requirements \<Rightarrow> candidate_row \<Rightarrow> bool" where
  "model_allows db r d \<longleftrightarrow> d \<in> set (rows (model_candidates db)) \<and> d_archived d = None
     \<and> d_enabled d \<and> d_status d = ''available'' \<and> rq_candidate r \<in> {0, d_id d}
     \<and> (\<exists>m. model_active db (rq_model r) m \<and> m_enabled m \<and> d_model d = m_id m)"

definition key_serves :: "instant \<Rightarrow> database \<Rightarrow> candidate_row \<Rightarrow> key_row \<Rightarrow> bool" where
  "key_serves now db d k \<longleftrightarrow> k \<in> set (rows (upstream_keys db)) \<and> k_provider k = d_provider d
     \<and> k_archived k = None
     \<and> available_at now (k_enabled k) (k_status k) (k_recover_at k) (k_expires_at k)
     \<and> some_row (\<lambda>p. p_id p = d_provider d \<and> p_archived p = None \<and> p_enabled p) (providers db)"

definition protocol_serves :: "database \<Rightarrow> routing_requirements \<Rightarrow> candidate_row \<Rightarrow> candidate_protocol \<Rightarrow> bool" where
  "protocol_serves db r d p \<longleftrightarrow> p \<in> set (candidateProtocols db (d_id d)) \<and> capable p r
     \<and> ((\<exists>q \<in> set (candidateProtocols db (d_id d)). capable q r \<and> Protocol q = rq_protocol r)
          \<longrightarrow> Protocol p = rq_protocol r)"

definition serves ::
    "instant \<Rightarrow> database \<Rightarrow> routing_requirements \<Rightarrow> candidate_row \<Rightarrow> key_row \<Rightarrow> resolved_route \<Rightarrow> bool" where
  "serves now db r d k x \<longleftrightarrow> model_allows db r d \<and> key_serves now db d k
     \<and> protocol_serves db r d (ProtocolConfig x) \<and> UpstreamProtocol x = Protocol (ProtocolConfig x)
     \<and> VirtualModel x = rq_model r \<and> CandidateID x = d_id d \<and> CandidateRevision x = d_revision d
     \<and> UpstreamModel x = d_upstream_model d \<and> Key x = scanUpstreamKey True k
     \<and> UpstreamEndpoint x \<noteq> []
     \<and> (\<exists>e \<in> set (rows (provider_endpoints db)). e_provider e = d_provider d
          \<and> e_protocol e = UpstreamProtocol x \<and> e_url e = UpstreamEndpoint x)
     \<and> (UpstreamProtocol x = Antigravity \<longrightarrow>
          antigravityModelAvailable now (k_id k) (k_revision k) (d_upstream_model d) db)"

lemma scanUpstreamKey_simps [simp]:
  "key_id (scanUpstreamKey b k) = k_id k" "key_revision (scanUpstreamKey b k) = k_revision k"
  "key_last_used (scanUpstreamKey b k) = k_last_used k"
  "KeyAvailable now (scanUpstreamKey b k) =
     available_at now (k_enabled k) (k_status k) (k_recover_at k) (k_expires_at k)"
  by (simp_all add: scanUpstreamKey_def KeyAvailable_def)

lemma eligible_iff:
  "route_reason now db x = Eligible \<longleftrightarrow> SkipReason x \<in> {NoReason, Eligible} \<and>
     (SkipReason x = NoReason \<longrightarrow> KeyAvailable now (Key x)
      \<and> (UpstreamProtocol x = Antigravity \<longrightarrow>
          antigravityModelAvailable now (key_id (Key x)) (key_revision (Key x)) (UpstreamModel x) db))"
  by (simp add: route_reason_def Let_def)

lemma candidate_routes_reasons:
  "candidate_routes db r c = Inr xs \<Longrightarrow> x \<in> set xs \<Longrightarrow> SkipReason x \<noteq> Eligible \<and> CandidateID x = cand_id c"
  by (auto simp: candidate_routes_def Let_def blocked_route_def key_route_def split: if_splits option.splits
      elim!: bindE_InrE)

lemma route_serves:
  assumes d: "d \<in> set (model_rows db (m_id m))" and m: "model_active db (rq_model r) m" "m_enabled m"
    and xs: "candidate_routes db r (candidate_view db d) = Inr xs" "x \<in> set xs"
    and ok: "route_reason now db x = Eligible"
  shows "\<exists>k. serves now db r d k x"
proof -
  from candidate_routes_reasons [OF xs] ok have "SkipReason x = NoReason" by (simp add: eligible_iff)
  with xs obtain p prov key
    where p: "chooseProtocol (candidateProtocols db (d_id d)) r = Some p"
      and prov: "providerByID True db (d_provider d) = Inr prov" "prov_enabled prov"
      and url: "text_of (Protocol p) (prov_endpoints prov) \<noteq> []"
      and key: "key \<in> set (prov_keys prov)"
      and x: "x = key_route r (candidate_view db d) p (text_of (Protocol p) (prov_endpoints prov))
           (prov\<lparr>prov_keys := sortKeysByUsage (prov_keys prov)\<rparr>) key"
      and d': "d_enabled d" "d_status d = ''available''" "rq_candidate r \<in> {0, d_id d}"
    by (rule candidate_routes_usable) (simp add: candidate_view_def)
  from prov(1) obtain row where row: "row \<in> set (rows (providers db))" "active_provider (d_provider d) row"
    and prov': "prov = (scanProvider row)\<lparr>prov_endpoints := providerEndpoints db (d_provider d),
                prov_keys := providerKeys True db (d_provider d)\<rparr>"
    by (rule providerByID_row)
  from key obtain k where k: "k \<in> set (rows (upstream_keys db))" "k_provider k = d_provider d" "k_archived k = None"
    "key = scanUpstreamKey True k"
    by (auto simp: prov' set_providerKeys)
  have "model_allows db r d" using d m d' by (auto simp: model_allows_def)
  moreover have "key_serves now db d k"
    using k row prov(2) ok x by (auto simp: key_serves_def eligible_iff key_route_def prov' scanProvider_def
        active_provider_def some_row_def)
  moreover have "protocol_serves db r d p" using chooseProtocol_Some [OF p] by (auto simp: protocol_serves_def)
  moreover have "\<exists>e \<in> set (rows (provider_endpoints db)). e_provider e = d_provider d
      \<and> e_protocol e = Protocol p \<and> e_url e = text_of (Protocol p) (prov_endpoints prov)"
    using url by (intro endpoint_row) (simp_all add: prov')
  ultimately have "serves now db r d k x"
    using url ok by (simp add: serves_def x key_route_def candidate_view_def k(4) eligible_iff)
  then show ?thesis ..
qed

definition routes_of :: "instant \<Rightarrow> database \<Rightarrow> routing_requirements \<Rightarrow> resolved_route list" where
  "routes_of now db r = (case fst (ResolveRoutesExplained now db (loadRouteTemplates r db)) of
       Inl _ \<Rightarrow> [] | Inr xs \<Rightarrow> xs)"

lemma routes_of_eq:
  assumes ok: "catalog_ok db" and m: "model_active db (rq_model r) m" and on: "m_enabled m"
  shows "routes_of now db r = concat (map (\<lambda>d. filter (\<lambda>x. route_reason now db x = Eligible)
      (projr (candidate_routes db r (candidate_view db d)))) (model_rows db (m_id m)))"
  using templates_total [OF ok m on]
  by (simp add: routes_of_def ResolveRoutesExplained_def Let_def filter_concat comp_def)

lemma routes_of_off:
  assumes "\<not> (\<exists>m. model_active db (rq_model r) m \<and> m_enabled m)"
  shows "routes_of now db r = []"
proof (cases "query_row (\<lambda>m. m_name m = rq_model r \<and> m_archived m = None) (virtual_models db)")
  case (Inl e)
  then show ?thesis by (simp add: routes_of_def ResolveRoutesExplained_def loadRouteTemplates_def)
next
  case (Inr m)
  from query_row_Inr [OF Inr] assms have "\<not> m_enabled m" by (auto simp: model_active_def)
  with Inr show ?thesis
    by (simp add: routes_of_def ResolveRoutesExplained_def loadRouteTemplates_def Let_def route_reason_def)
qed

lemma routes_sound:
  assumes ok: "catalog_ok db" and x: "x \<in> set (routes_of now db r)"
  shows "\<exists>d k. serves now db r d k x"
proof -
  from x routes_of_off [of db r now] obtain m where m: "model_active db (rq_model r) m" "m_enabled m" by force
  with x ok obtain d where d: "d \<in> set (model_rows db (m_id m))"
    and x': "x \<in> set (projr (candidate_routes db r (candidate_view db d)))" "route_reason now db x = Eligible"
    unfolding routes_of_eq [OF ok m] by auto
  from candidate_routes_total [OF ok d m(1), of r] obtain xs
    where "candidate_routes db r (candidate_view db d) = Inr xs" by blast
  with route_serves [OF d m this _ x'(2)] x'(1) show ?thesis by auto
qed

text \<open>
  A candidate and a key that can serve. The endpoints of the provider have to be there, which
  the catalog guarantees, and not to be empty, which it does not.
\<close>

definition can_serve :: "instant \<Rightarrow> database \<Rightarrow> routing_requirements \<Rightarrow> candidate_row \<Rightarrow> key_row \<Rightarrow> bool" where
  "can_serve now db r d k \<longleftrightarrow> model_allows db r d \<and> key_serves now db d k
     \<and> (\<exists>p \<in> set (candidateProtocols db (d_id d)). capable p r)
     \<and> (\<forall>e \<in> set (rows (provider_endpoints db)). e_provider e = d_provider d \<longrightarrow> e_url e \<noteq> [])
     \<and> antigravityModelAvailable now (k_id k) (k_revision k) (d_upstream_model d) db"

lemma set_candidateProtocols: "q \<in> set (candidateProtocols db cid) \<longleftrightarrow>
    (\<exists>row \<in> set (rows (candidate_protocols db)). q_candidate row = cid \<and> q = q_protocol row)"
  by (auto simp: candidateProtocols_def)

lemma routes_complete:
  assumes ok: "catalog_ok db" and can: "can_serve now db r d k"
  shows "\<exists>x \<in> set (routes_of now db r). CandidateID x = d_id d \<and> key_id (Key x) = k_id k"
proof -
  from can obtain m where m: "model_active db (rq_model r) m" "m_enabled m" "d_model d = m_id m"
    and d: "d \<in> set (model_rows db (m_id m))" "d_enabled d" "d_status d = ''available''" "rq_candidate r \<in> {0, d_id d}"
    by (auto simp: can_serve_def model_allows_def)
  from d m have live: "live_candidate db d"
    by (auto simp: live_candidate_def some_row_def model_active_def)
  with ok d have cand: "candidate_ok db d" by (simp add: catalog_ok_def live_ok_def)
  then obtain row where row: "row \<in> set (rows (providers db))" "active_provider (d_provider d) row"
    and protos: "\<And>q. q \<in> set (rows (candidate_protocols db)) \<Longrightarrow> q_candidate q = d_id d \<Longrightarrow>
         protocol_ok db (d_provider d) (p_kind row) (q_protocol q)"
    by (rule candidate_okE) blast
  from can obtain row' where "row' \<in> set (rows (providers db))" "p_id row' = d_provider d" "p_enabled row'"
    by (auto simp: can_serve_def key_serves_def some_row_def)
  then have "p_enabled row"
    using row provider_of_row [OF ok row(1)] provider_of_row [OF ok, of row'] by (simp add: active_provider_def)
  obtain p where p: "chooseProtocol (candidateProtocols db (d_id d)) r = Some p"
    using can chooseProtocol_None [of "candidateProtocols db (d_id d)" r]
    by (cases "chooseProtocol (candidateProtocols db (d_id d)) r") (auto simp: can_serve_def)
  then have "has_endpoint db (d_provider d) (Protocol p)"
    using chooseProtocol_Some(1) [OF p] protos by (auto simp: set_candidateProtocols protocol_ok_def)
  then have url: "text_of (Protocol p) (providerEndpoints db (d_provider d)) \<noteq> []"
    using can by (intro endpoint_found) (auto simp: can_serve_def)
  define prov where "prov = (scanProvider row)\<lparr>prov_endpoints := providerEndpoints db (d_provider d),
                prov_keys := providerKeys True db (d_provider d)\<rparr>"
  define x where "x = key_route r (candidate_view db d) p (text_of (Protocol p) (prov_endpoints prov))
           (prov\<lparr>prov_keys := sortKeysByUsage (prov_keys prov)\<rparr>) (scanUpstreamKey True k)"
  have key: "scanUpstreamKey True k \<in> set (prov_keys prov)"
    using can by (auto simp: prov_def set_providerKeys can_serve_def key_serves_def)
  have routes: "candidate_routes db r (candidate_view db d) = Inr (map (key_route r (candidate_view db d) p
       (text_of (Protocol p) (prov_endpoints prov)) (prov\<lparr>prov_keys := sortKeysByUsage (prov_keys prov)\<rparr>))
       (sortKeysByUsage (prov_keys prov)))"
  proof -
    have lookup: "providerByID True db (d_provider d) = Inr prov"
      using providerByID_live [OF ok row] by (simp add: prov_def)
    have "prov_enabled prov" using \<open>p_enabled row\<close> by (simp add: prov_def scanProvider_def)
    moreover have "text_of (Protocol p) (prov_endpoints prov) \<noteq> []" using url by (simp add: prov_def)
    moreover have "sortKeysByUsage (prov_keys prov) \<noteq> []"
      using key set_sortKeys [of "prov_keys prov"] by (metis list.set(1) empty_iff)
    moreover have "\<not> (rq_candidate r \<noteq> 0 \<and> d_id d \<noteq> rq_candidate r)" using d(4) by auto
    ultimately show ?thesis
      using d(2,3) p lookup by (simp add: candidate_routes_def candidate_view_def Let_def)
  qed
  have reason: "route_reason now db x = Eligible"
    using can by (auto simp: eligible_iff x_def key_route_def candidate_view_def can_serve_def key_serves_def)
  have "x \<in> set (projr (candidate_routes db r (candidate_view db d)))"
    unfolding routes x_def sum.sel set_map set_sortKeys using key by (rule imageI)
  with reason have "x \<in> set (filter (\<lambda>x. route_reason now db x = Eligible)
      (projr (candidate_routes db r (candidate_view db d))))" by simp
  with d(1) have "x \<in> set (routes_of now db r)"
    unfolding routes_of_eq [OF ok m(1,2)] set_concat set_map by blast
  then show ?thesis by (rule rev_bexI) (simp add: x_def key_route_def candidate_view_def)
qed

definition position_of :: "database \<Rightarrow> int \<Rightarrow> int" where
  "position_of db cid = d_position (hd (select (\<lambda>d. d_id d = cid) (model_candidates db)))"

lemma candidate_routes_sorted:
  assumes "candidate_routes db r c = Inr xs"
  shows "sorted_wrt (\<lambda>a b. key_last_used (Key a) \<le> key_last_used (Key b)) xs"
  using assms
  by (auto simp: candidate_routes_def Let_def sorted_wrt_map key_route_def sorted_wrt_keys
      split: if_splits option.splits elim!: bindE_InrE)

lemma routes_sorted:
  assumes ok: "catalog_ok db"
  shows "sorted_wrt (\<lambda>a b. position_of db (CandidateID a) \<le> position_of db (CandidateID b)
      \<and> (CandidateID a = CandidateID b \<longrightarrow> key_last_used (Key a) \<le> key_last_used (Key b))) (routes_of now db r)"
proof (cases "\<exists>m. model_active db (rq_model r) m \<and> m_enabled m")
  case False
  then show ?thesis by (simp add: routes_of_off)
next
  case True
  then obtain m where m: "model_active db (rq_model r) m" "m_enabled m" by blast
  have ids: "x \<in> set (projr (candidate_routes db r (candidate_view db d))) \<Longrightarrow>
      CandidateID x = d_id d \<and> position_of db (d_id d) = d_position d"
    if d: "d \<in> set (model_rows db (m_id m))" for d x
  proof -
    assume x: "x \<in> set (projr (candidate_routes db r (candidate_view db d)))"
    from candidate_routes_total [OF ok d m(1), of r] obtain xs
      where xs: "candidate_routes db r (candidate_view db d) = Inr xs" by blast
    with x candidate_routes_reasons [OF xs] select_one [OF catalog_unique(2) [OF ok], of d] d
    show ?thesis by (auto simp: candidate_view_def position_of_def)
  qed
  show ?thesis unfolding routes_of_eq [OF ok m]
  proof (rule sorted_wrt_concat_map [OF model_rows_sorted [OF ok]])
    fix d assume d: "d \<in> set (model_rows db (m_id m))"
    from candidate_routes_total [OF ok d m(1), of r] obtain xs
      where xs: "candidate_routes db r (candidate_view db d) = Inr xs" by blast
    have "sorted_wrt (\<lambda>a b. key_last_used (Key a) \<le> key_last_used (Key b))
        (filter (\<lambda>x. route_reason now db x = Eligible) xs)"
      by (rule sorted_wrt_filter) (rule candidate_routes_sorted [OF xs])
    then show "sorted_wrt (\<lambda>a b. position_of db (CandidateID a) \<le> position_of db (CandidateID b)
      \<and> (CandidateID a = CandidateID b \<longrightarrow> key_last_used (Key a) \<le> key_last_used (Key b)))
      (filter (\<lambda>x. route_reason now db x = Eligible) (projr (candidate_routes db r (candidate_view db d))))"
      using ids [OF d] xs by (auto elim!: sorted_wrt_mono_rel [rotated])
  qed (use ids in auto)
qed

end
