(* ===== verification/StoreSpec.thy ===== *)
theory StoreSpec
  imports RoutingLaws
begin

text \<open>
  The properties of the store: its catalog stays well formed, a revoked access key is not
  accepted, the routes of a request are the ones that serve it and in order, a stale writer of a
  credential changes nothing, and how exact the cooldown of a model is.
\<close>

lemma update_where_none: "\<forall>r \<in> set (rows t). \<not> P r \<Longrightarrow> update_where P f t = t"
  by (simp add: update_where_def map_idI)

lemma store_steps: "(store_step jwt)\<^sup>*\<^sup>* empty_database db \<Longrightarrow> store_step jwt db d \<Longrightarrow> (store_step jwt)\<^sup>*\<^sup>* empty_database d"
  by (rule rtranclp.rtrancl_into_rtrancl)

section \<open>A small configuration\<close>

text \<open>One provider with two keys and one model with one candidate, built by the operations.\<close>

definition demo_provider :: provider_input where
  "demo_provider = \<lparr>pi_kind = [], pi_name = ''p'', pi_auth_type = ''bearer'', pi_auth_header = [],
     pi_static_headers = [], pi_quota_codes = [], pi_endpoints = [(Chat, ''https://u'')],
     pi_keys = [\<lparr>ki_id = 0, ki_name = ''a'', ki_secret = ''s1'', ki_expires_at = None, ki_enabled = None\<rparr>,
                \<lparr>ki_id = 0, ki_name = ''b'', ki_secret = ''s2'', ki_expires_at = None, ki_enabled = None\<rparr>]\<rparr>"

definition demo_model :: model_input where
  "demo_model = \<lparr>mi_name = ''m'', mi_candidates = [\<lparr>ci_id = 0, ci_provider_id = 1, ci_upstream_model = ''real'',
     ci_default_max = 0, ci_max = 0, ci_protocols = [\<lparr>Protocol = Chat, Position = 0, SupportsStream = True,
       SupportsTools = False, SupportsParallelTools = False, EffortLevels = [], SupportsStreamUsage = False\<rparr>]\<rparr>]\<rparr>"

definition demo_request :: routing_requirements where
  "demo_request = \<lparr>rq_model = ''m'', rq_protocol = Messages, rq_stream = True, rq_tools = False,
     rq_parallel = False, rq_effort = [], rq_candidate = 0, rq_upstream_protocol = []\<rparr>"

definition demo_database :: database where
  "demo_database = snd (projr (CreateVirtualModel 0 demo_model (snd (projr (CreateProvider 0 demo_provider empty_database)))))"

lemma demo_reachable: "store_reachable jwt demo_database"
proof -
  define r where "r = CreateProvider 0 demo_provider empty_database"
  define q where "q = CreateVirtualModel 0 demo_model (snd (projr r))"
  have "is_ok r" unfolding r_def by code_simp
  then have "CreateProvider 0 demo_provider empty_database = Inr (fst (projr r), snd (projr r))"
    by (simp add: r_def is_ok_projr)
  then have 1: "store_step jwt empty_database (snd (projr r))"
    by (rule store_step_pair [OF _ store_operation.intros(1)]) (simp add: operation_defs)
  have "is_ok q" unfolding q_def r_def by code_simp
  then have "CreateVirtualModel 0 demo_model (snd (projr r)) = Inr (fst (projr q), snd (projr q))"
    by (simp add: q_def is_ok_projr)
  then have 2: "store_step jwt (snd (projr r)) (snd (projr q))"
    by (rule store_step_pair [OF _ store_operation.intros(5)]) (simp add: operation_defs)
  have "demo_database = snd (projr q)" by (simp add: demo_database_def q_def r_def)
  with store_steps [OF store_steps [OF rtranclp.rtrancl_refl 1] 2] show ?thesis
    by (simp add: store_reachable_def)
qed

section \<open>The catalog\<close>

text \<open>
  C18. In every database the operations of the store can produce, the constraints of the schema
  hold and every live candidate is served by a provider that is not archived, has an endpoint for
  each protocol of the candidate, and allows the candidate's limits and effort levels. So reading
  the templates of an enabled model never fails.
\<close>

theorem catalog_well_formed:
  assumes "store_reachable jwt db"
  shows "schema_ok db
     \<and> (\<forall>d \<in> set (rows (model_candidates db)). live_candidate db d \<longrightarrow> candidate_ok db d)
     \<and> (\<forall>(r :: routing_requirements) m. model_active db (rq_model r) m \<longrightarrow> is_ok (loadRouteTemplates r db))"
proof (intro conjI allI impI)
  note ok = store_reachable_ok [OF assms]
  from ok show "schema_ok db" by (simp add: catalog_ok_def)
  from ok show "\<forall>d \<in> set (rows (model_candidates db)). live_candidate db d \<longrightarrow> candidate_ok db d"
    by (simp add: catalog_ok_def live_ok_def)
  fix r :: routing_requirements and m assume m: "model_active db (rq_model r) m"
  show "is_ok (loadRouteTemplates r db)"
  proof (cases "m_enabled m")
    case True
    with templates_total [OF ok m] show ?thesis by simp
  next
    case False
    with query_model [OF ok m] show ?thesis by (simp add: loadRouteTemplates_def)
  qed
qed

theorem catalog_well_formed_witness:
  "schema_ok demo_database \<and> rows (model_candidates demo_database) \<noteq> []"
proof
  show "schema_ok demo_database" using catalog_well_formed [OF demo_reachable [of "\<lambda>_. None"]] by simp
  show "rows (model_candidates demo_database) \<noteq> []" by code_simp
qed

section \<open>Access keys\<close>

text \<open>
  C19. Whatever the interleaving of requests with operations of the store, each of which commits and
  then invalidates the caches its code invalidates: once every operation has returned, a secret is
  accepted only if the database, as it is now, has an enabled key with that secret that is neither
  deleted nor expired; whether the key came from the cache or not.
\<close>

theorem revoked_key_refused:
  assumes "run_reachable jwt right_key (\<lambda>i. i = AllCaches) s" and "in_flight s = 0"
    and "cache s secret = Some k \<or> loadAccessKey secret (database_now s) = Inr k"
    and "admit now k = Inr k'"
  shows "may_use now (database_now s) secret"
  using assms key_caching.hit_right [OF keys_run_coherent [OF assms(1)] assms(2)] loaded_key_right [of secret "database_now s"]
  by (blast intro: admitted_key_may_be_used)

definition demo_secret_database :: database where
  "demo_secret_database = snd (projr (CreateAccessKey ''t'' 0 ''n'' None empty_database))"

text \<open>A key is created, the caches are emptied, a reader loads the key: the state after it.\<close>

definition demo_reader :: "access_key \<Rightarrow> (database, string, access_key) cached" where
  "demo_reader k = \<lparr>database_now = demo_secret_database, version = 1, cache = [''mc_t'' \<mapsto> k], in_flight = 0, loader = None\<rparr>"

lemma demo_reader_reachable:
  assumes "loadAccessKey ''mc_t'' demo_secret_database = Inr k"
  shows "run_reachable jwt right_key (\<lambda>i. i = AllCaches) (demo_reader k)"
proof -
  let ?run = "run_step jwt right_key (\<lambda>i. i = AllCaches)"
  let ?s1 = "(started empty_database)\<lparr>database_now := demo_secret_database, in_flight := 1\<rparr>"
  let ?s2 = "(started demo_secret_database)\<lparr>version := 1\<rparr>"
  have "is_ok (CreateAccessKey ''t'' 0 ''n'' None empty_database)" by code_simp
  then obtain key where created: "CreateAccessKey ''t'' 0 ''n'' None empty_database = Inr (key, demo_secret_database)"
    by (metis is_ok_projr demo_secret_database_def prod.collapse)
  let ?c = "CreateAccessKey_op ''t'' 0 ''n'' None"
  have commit: "op_commit ?c (database_now (started empty_database)) = Inr demo_secret_database"
    by (simp add: CreateAccessKey_op_def database_of_def created started_def)
  have after: "op_after ?c x = AllCaches" for x by (simp add: CreateAccessKey_op_def)
  have "?run (started empty_database) ?s1"
    using run_step.Commits [where right = right_key and clears = "\<lambda>i. i = AllCaches", OF store_operation.intros(23) commit]
    by (simp add: after) (simp add: started_def tear_def)
  moreover have "?run ?s1 ?s2"
    using run_step.Empties [where jwt = jwt and right = right_key and clears = "\<lambda>i. i = AllCaches" and s = ?s1] by (simp add: started_def)
  moreover have "?run ?s2 (?s2\<lparr>loader := Some \<lparr>loading_key = ''mc_t'', loading_version = 1, torn = False\<rparr>\<rparr>)"
    using run_step.Reads [where jwt = jwt and right = right_key and clears = "\<lambda>i. i = AllCaches" and s = ?s2 and k = "''mc_t''"]
    by (simp add: started_def)
  moreover have "?run (?s2\<lparr>loader := Some \<lparr>loading_key = ''mc_t'', loading_version = 1, torn = False\<rparr>\<rparr>) (demo_reader k)"
    using run_step.Stores [where jwt = jwt and right = right_key and clears = "\<lambda>i. i = AllCaches" and v = k
        and l = "\<lparr>loading_key = ''mc_t'', loading_version = 1, torn = False\<rparr>"
        and s = "?s2\<lparr>loader := Some \<lparr>loading_key = ''mc_t'', loading_version = 1, torn = False\<rparr>\<rparr>"] loaded_key_right [OF assms]
    by (simp add: started_def demo_reader_def)
  ultimately show ?thesis
    unfolding run_reachable_def by (meson converse_rtranclp_into_rtranclp r_into_rtranclp)
qed

theorem revoked_key_refused_witness: "may_use 5 demo_secret_database ''mc_t''"
proof -
  define k where "k = projr (loadAccessKey ''mc_t'' demo_secret_database)"
  have "is_ok (loadAccessKey ''mc_t'' demo_secret_database)" by code_simp
  then have k: "loadAccessKey ''mc_t'' demo_secret_database = Inr k" by (simp add: k_def is_ok_projr)
  have "is_ok (admit 5 k)" unfolding k_def by code_simp
  then have "admit 5 k = Inr (projr (admit 5 k))" by (rule is_ok_projr)
  from revoked_key_refused [OF demo_reader_reachable [OF k] _ _ this, of "''mc_t''"] show ?thesis by (simp add: demo_reader_def)
qed

section \<open>Routes\<close>

text \<open>
  C20. The routes of a request in a database of the store: each one serves it (an enabled model,
  candidate, provider and key, a protocol capable of everything the request asks for, the client's
  own protocol when one such is capable, a configured endpoint, no cooldown); every candidate and
  key that can serve it is among them; they come in the order of the candidates' positions, and
  the keys of a candidate with the longest unused first.
\<close>

theorem routes_exact:
  assumes "store_reachable jwt db"
  shows "(\<forall>x \<in> set (routes_of now db r). \<exists>d k. serves now db r d k x)
     \<and> (\<forall>d k. can_serve now db r d k \<longrightarrow>
          (\<exists>x \<in> set (routes_of now db r). CandidateID x = d_id d \<and> key_id (Key x) = k_id k))
     \<and> sorted_wrt (\<lambda>a b. position_of db (CandidateID a) \<le> position_of db (CandidateID b)
          \<and> (CandidateID a = CandidateID b \<longrightarrow> key_last_used (Key a) \<le> key_last_used (Key b)))
         (routes_of now db r)"
  using store_reachable_ok [OF assms] routes_sound routes_complete routes_sorted by blast

theorem routes_exact_witness:
  "map (\<lambda>x. (CandidateID x, key_id (Key x))) (routes_of 7 demo_database demo_request) = [(1, 1), (1, 2)]
   \<and> (\<exists>x xs d k. routes_of 7 demo_database demo_request = x # xs \<and> serves 7 demo_database demo_request d k x)"
proof
  show two: "map (\<lambda>x. (CandidateID x, key_id (Key x))) (routes_of 7 demo_database demo_request) = [(1, 1), (1, 2)]"
    by code_simp
  then obtain x xs where "routes_of 7 demo_database demo_request = x # xs" by (cases "routes_of 7 demo_database demo_request") auto
  with routes_exact [OF demo_reachable [of "\<lambda>_. None"], of 7 demo_request]
  show "\<exists>x xs d k. routes_of 7 demo_database demo_request = x # xs \<and> serves 7 demo_database demo_request d k x" by auto
qed

section \<open>Credentials\<close>

text \<open>The operations that replace the credential of key \<open>kid\<close>, read at revision \<open>revn\<close>.\<close>

definition credential_written :: "jwt_parser \<Rightarrow> int \<Rightarrow> int \<Rightarrow> database \<Rightarrow> database \<Rightarrow> bool" where
  "credential_written jwt kid revn db d \<longleftrightarrow>
     (\<exists>data. SaveOAuthCredential jwt kid revn data db = Inr d)
   \<or> (\<exists>pid data. ReplaceOAuthCredential jwt pid kid revn data db = Inr d)
   \<or> (\<exists>c. SaveAntigravityCredential kid revn c db = Inr d)
   \<or> (\<exists>pid c. ReplaceAntigravityCredential pid kid revn c db = Inr d)"

lemma credential_written_keys:
  assumes "credential_written jwt kid revn db d"
  shows "\<exists>P f. upstream_keys d = update_where P f (upstream_keys db) \<and> some_row P (upstream_keys db)
     \<and> (\<forall>k. P k \<longrightarrow> k_id k = kid \<and> k_revision k = revn) \<and> (\<forall>k. k_id (f k) = k_id k \<and> k_revision (f k) = k_revision k + 1)"
  using assms unfolding credential_written_def
proof (elim disjE exE)
  fix data
  assume "SaveOAuthCredential jwt kid revn data db = Inr d"
  then obtain a where "upstream_keys d = update_where (\<lambda>k. current_key db kid revn k \<and> own_identity a k) (store_auth a data) (upstream_keys db)"
    "some_row (\<lambda>k. current_key db kid revn k \<and> own_identity a k) (upstream_keys db)"
    by (auto simp: SaveOAuthCredential_def Let_def exec_Inr elim!: bindE_InrE)
  then show ?thesis
    by (intro exI [of _ "\<lambda>k. current_key db kid revn k \<and> own_identity a k"] exI [of _ "store_auth a data"])
      (simp add: current_key_def store_auth_def set_status_def)
next
  fix pid data
  assume "ReplaceOAuthCredential jwt pid kid revn data db = Inr d"
  then obtain a where "upstream_keys d = update_where (\<lambda>k. readable_key db ProviderCodexOAuth kid k \<and> k_provider k = pid
      \<and> k_revision k = revn \<and> own_identity a k) (store_auth a data) (upstream_keys db)"
    "some_row (\<lambda>k. readable_key db ProviderCodexOAuth kid k \<and> k_provider k = pid \<and> k_revision k = revn \<and> own_identity a k) (upstream_keys db)"
    by (auto simp: ReplaceOAuthCredential_def Let_def exec_Inr elim!: bindE_InrE)
  then show ?thesis
    by (intro exI [of _ "\<lambda>k. readable_key db ProviderCodexOAuth kid k \<and> k_provider k = pid \<and> k_revision k = revn \<and> own_identity a k"]
        exI [of _ "store_auth a data"]) (simp add: readable_key_def store_auth_def set_status_def)
next
  fix c
  assume run: "SaveAntigravityCredential kid revn c db = Inr d"
  let ?P = "\<lambda>k. k_id k = kid \<and> k_revision k = revn \<and> k_enabled k \<and> k_archived k = None
     \<and> some_row (\<lambda>p. p_id p = k_provider k \<and> p_kind p = ProviderAntigravityOAuth \<and> p_enabled p \<and> p_archived p = None) (providers db)
     \<and> some_row (\<lambda>r. c_key r = k_id k \<and> c_subject r = Subject c) (antigravity_credentials db)"
  let ?f = "\<lambda>k. k\<lparr>k_access_expires := ExpiresAt c, k_revision := k_revision k + 1\<rparr>"
  from run have "upstream_keys d = update_where ?P ?f (upstream_keys db)" "some_row ?P (upstream_keys db)"
    by (auto simp: SaveAntigravityCredential_def write_documents_def Let_def exec_Inr elim!: bindE_InrE)
  then show ?thesis by (intro exI [of _ ?P] exI [of _ ?f]) simp
next
  fix pid c
  assume run: "ReplaceAntigravityCredential pid kid revn c db = Inr d"
  let ?P = "\<lambda>k. readable_key db ProviderAntigravityOAuth kid k \<and> k_provider k = pid \<and> k_revision k = revn
     \<and> some_row (\<lambda>r. c_key r = k_id k \<and> c_subject r = Subject c \<and> project_of (c_identity r) = ProjectID c) (antigravity_credentials db)"
  let ?f = "\<lambda>k. (set_status ''available'' [] None k)\<lparr>k_access_expires := ExpiresAt c, k_revision := k_revision k + 1\<rparr>"
  from run have "upstream_keys d = update_where ?P ?f (upstream_keys db)" "some_row ?P (upstream_keys db)"
    by (auto simp: ReplaceAntigravityCredential_def write_documents_def Let_def exec_Inr elim!: bindE_InrE)
  then show ?thesis by (intro exI [of _ ?P] exI [of _ ?f]) (simp add: readable_key_def set_status_def)
qed

text \<open>After that, and after whatever follows, no key has this id and still this revision.\<close>

lemma no_current_row:
  assumes ok: "store_reachable jwt db" and written: "credential_written jwt kid revn db db1"
    and later: "(store_step jwt)\<^sup>*\<^sup>* db1 db2" and k: "k \<in> set (rows (upstream_keys db2))" "k_id k = kid"
  shows "revn < k_revision k"
proof -
  from credential_written_keys [OF written] obtain P f where db1: "upstream_keys db1 = update_where P f (upstream_keys db)"
    and "some_row P (upstream_keys db)" and P: "\<And>k. P k \<Longrightarrow> k_id k = kid \<and> k_revision k = revn"
    and f: "\<And>k. k_id (f k) = k_id k \<and> k_revision (f k) = k_revision k + 1" by blast
  then obtain w where w: "w \<in> set (rows (upstream_keys db))" "P w" by (auto simp: some_row_def)
  have only: "x = w" if "x \<in> set (rows (upstream_keys db))" "k_id x = kid" for x
    using select_one [OF catalog_unique(5) [OF store_reachable_ok [OF ok]] w(1)] that P [OF w(2)]
    by (metis (mono_tags, lifting) empty_iff insert_iff list.set(1) list.set(2) mem_Collect_eq set_select)
  from reachable_keys_numbered [OF ok] have numbered: "\<forall>x \<in> set (rows (upstream_keys db)). k_id x \<le> last_id (upstream_keys db)"
    by (simp add: keys_after_def)
  have newer: "revn < k_revision x" if "x \<in> set (rows (upstream_keys db1))" "k_id x = kid" for x
    using that only w(2) P [OF w(2)] f by (auto simp: db1 split: if_splits)
  have "keys_later (upstream_keys db1) db1"
    using numbered f by (intro keys_after_refl) (auto simp: db1)
  from store_steps_later [OF later this] k have "last_id (upstream_keys db1) < kid
      \<or> (\<exists>x \<in> set (rows (upstream_keys db1)). k_id x = kid \<and> k_revision x \<le> k_revision k)" by (auto simp: keys_after_def)
  moreover have "kid \<le> last_id (upstream_keys db1)" using numbered w(1) P [OF w(2)] by (auto simp: db1)
  ultimately show ?thesis using newer by fastforce
qed

lemma credential_written_reaches: "credential_written jwt kid revn db d \<Longrightarrow> store_step jwt db d"
  unfolding credential_written_def
  by (elim disjE exE; rule store_stepI [OF store_operation.intros(16)] store_stepI [OF store_operation.intros(17)]
      store_stepI [OF store_operation.intros(20)] store_stepI [OF store_operation.intros(21)]; simp add: operation_defs)

text \<open>
  C21. Once the credential of an account has been replaced, by a refresh or a new login, of Codex or
  of Antigravity, a writer that read the account before is refused, now and after any further
  operations of the store: it can replace no credential, and what it learnt about the key or one of
  its models is not recorded.
\<close>

theorem stale_credential_refused:
  assumes "store_reachable jwt db" and "credential_written jwt kid revn db db1" and "(store_step jwt)\<^sup>*\<^sup>* db1 db2"
  shows "\<not> credential_written jwt kid revn db2 db3
     \<and> MarkUpstreamKeyRevision kid revn status why recover db2 = Inr db2
     \<and> MarkAntigravityModel kid revn model why until db2 = Inr db2"
proof -
  have none: "\<not> (k_id k = kid \<and> k_revision k = revn)" if "k \<in> set (rows (upstream_keys db2))" for k
    using no_current_row [OF assms that] by auto
  have "\<not> credential_written jwt kid revn db2 db3"
  proof
    assume "credential_written jwt kid revn db2 db3"
    from credential_written_keys [OF this] none show False by (auto simp: some_row_def)
  qed
  moreover have "store_reachable jwt db2"
    using assms(1,3) credential_written_reaches [OF assms(2)]
    unfolding store_reachable_def by (meson rtranclp.rtrancl_into_rtrancl rtranclp_trans)
  then have "schema_ok db2" using store_reachable_ok by (simp add: catalog_ok_def)
  moreover from none have "\<forall>k \<in> set (rows (upstream_keys db2)). \<not> current_key db2 kid revn k" by (auto simp: current_key_def)
  ultimately show ?thesis
    by (simp add: MarkUpstreamKeyRevision_def MarkAntigravityModel_def update_where_none some_row_def exec_def)
qed

definition demo_jwt :: jwt_parser where
  "demo_jwt token = Some ([(''https://api.openai.com/auth'',
     JObj [(''chatgpt_user_id'', JStr ''u''), (''chatgpt_account_id'', JStr ''w'')])], Some 100)"

definition demo_auth :: string where
  "demo_auth = print_json (JObj [(''tokens'', JObj [(''id_token'', JStr ''i''),
     (''access_token'', JStr ''a''), (''refresh_token'', JStr ''r'')])])"

definition demo_codex :: provider_input where
  "demo_codex = demo_provider\<lparr>pi_kind := ProviderCodexOAuth, pi_auth_type := [], pi_endpoints := [], pi_keys := []\<rparr>"

definition demo_created :: database where
  "demo_created = empty_database\<lparr>
     providers := \<lparr>rows = [\<lparr>p_id = 1, p_name = ''p'', p_enabled = True, p_kind = ProviderCodexOAuth, p_auth_type = ''oauth'',
       p_auth_header = [], p_static_headers = [], p_quota_codes = [], p_created_at = 0, p_archived = None\<rparr>], last_id = 1\<rparr>,
     provider_endpoints := \<lparr>rows = [\<lparr>e_provider = 1, e_protocol = Responses,
       e_url = ''https://chatgpt.com/backend-api/codex/responses''\<rparr>], last_id = 1\<rparr>\<rparr>"

definition demo_accounts :: database where
  "demo_accounts = demo_created\<lparr>upstream_keys := \<lparr>rows = [\<lparr>k_id = 1, k_provider = 1, k_name = ''f'', k_secret = [],
     k_auth = demo_auth, k_file_name = ''f'', k_oauth_user = ''u'', k_oauth_account = ''w'', k_access_expires = Some 100,
     k_revision = 1, k_position = 0, k_enabled = True, k_expires_at = None, k_status = ''available'', k_reason = [],
     k_recover_at = None, k_last_used = None, k_archived = None\<rparr>], last_id = 1\<rparr>\<rparr>"

lemma demo_accounts_reachable: "store_reachable demo_jwt demo_accounts"
proof -
  have "case CreateProvider 0 demo_codex empty_database of Inr (i, d) \<Rightarrow> d = demo_created | _ \<Rightarrow> False" by code_simp
  then obtain i where "CreateProvider 0 demo_codex empty_database = Inr (i, demo_created)" by (auto split: sum.splits)
  then have 1: "store_step demo_jwt empty_database demo_created"
    by (rule store_step_pair [OF _ store_operation.intros(1)]) (simp add: operation_defs)
  have "case ImportOAuthCredential demo_jwt 1 ''f'' demo_auth demo_created of Inr (i, d) \<Rightarrow> d = demo_accounts | _ \<Rightarrow> False"
    by code_simp
  then obtain i where "ImportOAuthCredential demo_jwt 1 ''f'' demo_auth demo_created = Inr (i, demo_accounts)"
    by (auto split: sum.splits)
  then have 2: "store_step demo_jwt demo_created demo_accounts"
    by (rule store_step_pair [OF _ store_operation.intros(15)]) (simp add: operation_defs)
  from store_steps [OF store_steps [OF rtranclp.rtrancl_refl 1] 2] show ?thesis
    by (simp add: store_reachable_def)
qed

theorem stale_credential_refused_witness:
  "\<not> is_ok (SaveOAuthCredential demo_jwt 1 1 demo_auth (projr (SetUpstreamKeyEnabled 1 False (projr (SaveOAuthCredential demo_jwt 1 1 demo_auth demo_accounts)))))"
proof -
  define db1 where "db1 = projr (SaveOAuthCredential demo_jwt 1 1 demo_auth demo_accounts)"
  define db2 where "db2 = projr (SetUpstreamKeyEnabled 1 False db1)"
  have "is_ok (SaveOAuthCredential demo_jwt 1 1 demo_auth demo_accounts)
      \<and> is_ok (SetUpstreamKeyEnabled 1 False (projr (SaveOAuthCredential demo_jwt 1 1 demo_auth demo_accounts)))" by code_simp
  then have "SaveOAuthCredential demo_jwt 1 1 demo_auth demo_accounts = Inr db1" and disabled: "SetUpstreamKeyEnabled 1 False db1 = Inr db2"
    by (simp_all add: db1_def db2_def is_ok_projr)
  then have saved: "credential_written demo_jwt 1 1 demo_accounts db1" unfolding credential_written_def by blast
  have "store_step demo_jwt db1 db2"
    by (rule store_stepI [OF store_operation.intros(13) [of _ 1 False]]) (simp add: operation_defs disabled)
  from stale_credential_refused [OF demo_accounts_reachable saved r_into_rtranclp [where r = "store_step demo_jwt", OF this]]
  have "SaveOAuthCredential demo_jwt 1 1 demo_auth db2 \<noteq> Inr db3" for db3 by (auto simp: credential_written_def)
  then show ?thesis by (auto simp: is_ok_iff db2_def db1_def)
qed

section \<open>Cooldowns\<close>

text \<open>
  C22. The cooldown of an Antigravity model is decided by comparing times as texts. It holds at
  least until one second before its end and is over one second after it; within that second
  the answer follows the texts, which do not order like the times they stand for.
\<close>

theorem cooldown_error_below_second:
  assumes "schema_ok db" and "s \<in> set (rows (antigravity_model_states db))"
  shows "(now + second \<le> s_recover_at s \<longrightarrow>
        \<not> antigravityModelAvailable now (s_key s) (s_revision s) (s_model s) db)
     \<and> (s_recover_at s + second \<le> now \<longrightarrow>
        antigravityModelAvailable now (s_key s) (s_revision s) (s_model s) db)"
proof -
  have "unique (\<lambda>s. (s_key s, s_model s)) (antigravity_model_states db)"
    using assms(1) by (simp add: schema_ok_def unique_columns_def)
  from select_one [OF this assms(2)]
  have only: "t = s" if "t \<in> set (rows (antigravity_model_states db))" "s_key t = s_key s" "s_model t = s_model s" for t
    using that by (metis (mono_tags, lifting) empty_iff insert_iff list.set(1) list.set(2) mem_Collect_eq set_select)
  show ?thesis
    using assms(2) only sql_after_whole_second [of now "s_recover_at s"] sql_after_bound [of "s_recover_at s" now]
    by (fastforce simp: antigravityModelAvailable_def some_row_def)
qed

definition demo_cooldown :: model_state_row where
  "demo_cooldown = \<lparr>s_key = 1, s_model = ''g'', s_revision = 1, s_reason = ''x'', s_recover_at = 30 * second\<rparr>"

definition demo_cooling :: database where
  "demo_cooling = demo_accounts\<lparr>antigravity_model_states := \<lparr>rows = [demo_cooldown], last_id = 1\<rparr>\<rparr>"

lemma demo_cooling_marked: "MarkAntigravityModel 1 1 ''g'' ''x'' (30 * second) demo_accounts = Inr demo_cooling"
  by code_simp

text \<open>Half a second after its end the cooldown still holds: the text of the end is the greater one.\<close>

theorem cooldown_error_witness:
  "antigravityModelAvailable (31 * second) 1 1 ''g'' demo_cooling
   \<and> \<not> antigravityModelAvailable (29 * second) 1 1 ''g'' demo_cooling
   \<and> \<not> antigravityModelAvailable (30 * second + second div 2) 1 1 ''g'' demo_cooling"
proof -
  have "schema_ok demo_cooling" "demo_cooldown \<in> set (rows (antigravity_model_states demo_cooling))"
    by (code_simp, simp add: demo_cooling_def)
  note cooling = cooldown_error_below_second [OF this]
  show ?thesis using cooling [of "31 * second"] cooling [of "29 * second"]
    by (intro conjI) (simp_all add: demo_cooldown_def second_def, code_simp)
qed

end
