(* ===== verification/Breaker.thy ===== *)
theory Breaker
  imports Routing
begin

text \<open>
  The cooldown of candidates (\<^verbatim>\<open>candidateReady\<close>, \<^verbatim>\<open>candidateFailed\<close> and
  \<^verbatim>\<open>candidateSucceeded\<close> of internal/gateway/handler.go, the overview of
  internal/gateway/diagnostics.go). Every operation holds the mutex from its first read to its last
  write, so it is one function of the map and the time. The zero time of \<^verbatim>\<open>cooldownUntil\<close> is
  \<open>None\<close>.
\<close>

record candidate_failure =
  cf_revision :: int
  cf_count :: nat
  cf_cooldown :: "instant option"
  cf_probing :: bool

type_synonym breaker = "int \<Rightarrow> candidate_failure option"

definition fresh_failure :: "int \<Rightarrow> candidate_failure" where
  "fresh_failure revn = \<lparr>cf_revision = revn, cf_count = 0, cf_cooldown = None, cf_probing = False\<rparr>"

text \<open>Reading a key that is not in the map gives the zero struct.\<close>

definition state_of :: "breaker \<Rightarrow> int \<Rightarrow> candidate_failure" where
  "state_of b cid = (case b cid of None \<Rightarrow> fresh_failure 0 | Some st \<Rightarrow> st)"

definition cooldown_time :: int where "cooldown_time = 30 * second"

section \<open>Operations\<close>

definition candidateReady :: "instant \<Rightarrow> int \<Rightarrow> int \<Rightarrow> breaker \<Rightarrow> bool \<times> breaker" where
  "candidateReady now cid revn b =
     (let st = state_of b cid in
      if b cid = None \<or> cf_revision st < revn then (True, b(cid := None))
      else if revn < cf_revision st then (True, b)
      else (case cf_cooldown st of
          None \<Rightarrow> (True, b)
        | Some until \<Rightarrow>
            if now < until \<or> cf_probing st then (False, b)
            else (True, b(cid \<mapsto> st\<lparr>cf_probing := True\<rparr>))))"

definition candidateFailed :: "instant \<Rightarrow> int \<Rightarrow> int \<Rightarrow> breaker \<Rightarrow> breaker" where
  "candidateFailed now cid revn b =
     (let st = state_of b cid in
      if revn < cf_revision st then b
      else (let st = (if cf_revision st < revn then fresh_failure revn else st);
                st = st\<lparr>cf_count := cf_count st + 1\<rparr>;
                st = (if 3 \<le> cf_count st then st\<lparr>cf_cooldown := Some (now + cooldown_time), cf_probing := False\<rparr> else st)
            in b(cid \<mapsto> st)))"

definition candidateSucceeded :: "int \<Rightarrow> int \<Rightarrow> breaker \<Rightarrow> breaker" where
  "candidateSucceeded cid revn b = (if cf_revision (state_of b cid) = revn then b(cid := None) else b)"

text \<open>The overview of the candidates that are cooling, and the correction of a route decision.\<close>

definition cooling :: "breaker \<Rightarrow> (int \<times> candidate_failure) set" where
  "cooling b = {(cid, st). b cid = Some st \<and> cf_cooldown st \<noteq> None}"

definition routeCooldown :: "instant \<Rightarrow> breaker \<Rightarrow> route_decision \<Rightarrow> route_decision" where
  "routeCooldown now b d =
     (let st = state_of b (dec_candidate d) in
      if dec_reason d = Eligible \<and> cf_revision st = dec_revision d
         \<and> (cf_probing st \<or> (case cf_cooldown st of None \<Rightarrow> False | Some until \<Rightarrow> now < until))
      then d\<lparr>dec_reason := CandidateCooling, dec_recover_at := cf_cooldown st\<rparr> else d)"

definition routeCooldowns :: "instant \<Rightarrow> breaker \<Rightarrow> route_decision list \<Rightarrow> route_decision list" where
  "routeCooldowns now b = map (routeCooldown now b)"

section \<open>Runs\<close>

text \<open>The operations of concurrent requests in the order in which they get the mutex, on a clock that does not go back.\<close>

inductive breaker_reachable :: "instant \<Rightarrow> breaker \<Rightarrow> bool" where
  start: "breaker_reachable now (\<lambda>_. None)"
| wait: "breaker_reachable now b \<Longrightarrow> now \<le> later \<Longrightarrow> breaker_reachable later b"
| ready: "breaker_reachable now b \<Longrightarrow> breaker_reachable now (snd (candidateReady now cid revn b))"
| failed: "breaker_reachable now b \<Longrightarrow> breaker_reachable now (candidateFailed now cid revn b)"
| succeeded: "breaker_reachable now b \<Longrightarrow> breaker_reachable now (candidateSucceeded cid revn b)"

text \<open>
  A candidate has a cooldown exactly from its third failure on, the cooldown ends within thirty
  seconds, and a probe is under way only after its end.
\<close>

definition failure_ok :: "instant \<Rightarrow> candidate_failure \<Rightarrow> bool" where
  "failure_ok now st \<longleftrightarrow> 0 < cf_count st \<and> (cf_cooldown st \<noteq> None \<longleftrightarrow> 3 \<le> cf_count st)
     \<and> (\<forall>until. cf_cooldown st = Some until \<longrightarrow> until \<le> now + cooldown_time \<and> (cf_probing st \<longrightarrow> until \<le> now))
     \<and> (cf_probing st \<longrightarrow> cf_cooldown st \<noteq> None)"

definition breaker_ok :: "instant \<Rightarrow> breaker \<Rightarrow> bool" where
  "breaker_ok now b \<longleftrightarrow> (\<forall>cid st. b cid = Some st \<longrightarrow> failure_ok now st)"

lemmas breaker_ops = candidateReady_def candidateFailed_def candidateSucceeded_def Let_def

lemma fresh_failure_simps [simp]:
  "cf_revision (fresh_failure r) = r" "cf_count (fresh_failure r) = 0"
  "cf_cooldown (fresh_failure r) = None" "\<not> cf_probing (fresh_failure r)"
  by (simp_all add: fresh_failure_def)

lemma state_of_simps [simp]:
  "b cid = Some st \<Longrightarrow> state_of b cid = st" "b cid = None \<Longrightarrow> state_of b cid = fresh_failure 0"
  by (simp_all add: state_of_def)

lemma breaker_ok_upd: "breaker_ok now b \<Longrightarrow> failure_ok now st \<Longrightarrow> breaker_ok now (b(cid \<mapsto> st))"
  by (simp add: breaker_ok_def)

lemma breaker_ok_drop: "breaker_ok now b \<Longrightarrow> breaker_ok now (b(cid := None))"
  by (simp add: breaker_ok_def)

lemma ready_ok: "breaker_ok now b \<Longrightarrow> breaker_ok now (snd (candidateReady now cid revn b))"
proof (cases "b cid")
  case None
  then show "breaker_ok now b \<Longrightarrow> ?thesis" by (simp add: candidateReady_def breaker_ok_drop)
next
  case (Some st)
  assume ok: "breaker_ok now b"
  with Some have "failure_ok now st" by (simp add: breaker_ok_def)
  then have "\<not> now < until \<Longrightarrow> cf_cooldown st = Some until \<Longrightarrow> failure_ok now (st\<lparr>cf_probing := True\<rparr>)" for until
    by (simp add: failure_ok_def)
  with ok Some show ?thesis
    by (auto simp: candidateReady_def breaker_ok_drop intro!: breaker_ok_upd split: option.splits)
qed

lemma failed_ok:
  assumes "breaker_ok now b"
  shows "breaker_ok now (candidateFailed now cid revn b)"
proof (cases "b cid")
  case None
  then show ?thesis
    by (auto simp: breaker_ops assms intro!: breaker_ok_upd [OF assms]) (auto simp: failure_ok_def)
next
  case (Some st)
  with assms have "failure_ok now st" by (simp add: breaker_ok_def)
  with Some show ?thesis
    by (auto simp: breaker_ops assms cooldown_time_def intro!: breaker_ok_upd [OF assms])
      (auto simp: failure_ok_def cooldown_time_def second_def)
qed

lemma succeeded_ok: "breaker_ok now b \<Longrightarrow> breaker_ok now (candidateSucceeded cid revn b)"
  by (simp add: candidateSucceeded_def breaker_ok_drop)

lemma breaker_reachable_ok: "breaker_reachable now b \<Longrightarrow> breaker_ok now b"
proof (induction rule: breaker_reachable.induct)
  case (start now)
  then show ?case by (simp add: breaker_ok_def)
next
  case (wait now b later)
  then show ?case by (fastforce simp: breaker_ok_def failure_ok_def)
qed (auto intro: ready_ok failed_ok succeeded_ok)

section \<open>Probes\<close>

text \<open>The answers to requests that ask for a candidate one after the other.\<close>

fun ready_answers :: "instant list \<Rightarrow> int \<Rightarrow> int \<Rightarrow> breaker \<Rightarrow> bool list" where
  "ready_answers [] cid revn b = []"
| "ready_answers (t # ts) cid revn b =
     (let (r, b') = candidateReady t cid revn b in r # ready_answers ts cid revn b')"

lemma probing_blocks:
  "b cid = Some st \<Longrightarrow> cf_revision st = revn \<Longrightarrow> cf_cooldown st \<noteq> None \<Longrightarrow> cf_probing st \<Longrightarrow>
   candidateReady t cid revn b = (False, b)"
  by (auto simp: candidateReady_def)

lemma probing_blocks_all:
  assumes "b cid = Some st" "cf_revision st = revn" "cf_cooldown st \<noteq> None" "cf_probing st"
  shows "ready_answers ts cid revn b = replicate (length ts) False"
  using assms by (induction ts) (auto simp: probing_blocks)

text \<open>A candidate that is cooling answers one request after the end of the cooldown, and no other.\<close>

lemma cooling_answers:
  assumes "b cid = Some st" "cf_revision st = revn" "cf_cooldown st = Some until" "\<not> cf_probing st"
  shows "ready_answers ts cid revn b =
     replicate (length (takeWhile (\<lambda>t. t < until) ts)) False
     @ (case dropWhile (\<lambda>t. t < until) ts of [] \<Rightarrow> [] | _ # later \<Rightarrow> True # replicate (length later) False)"
proof (induction ts)
  case Nil
  then show ?case by simp
next
  case (Cons t ts)
  show ?case
  proof (cases "t < until")
    case True
    with assms have "candidateReady t cid revn b = (False, b)" by (simp add: candidateReady_def)
    with True Cons show ?thesis by simp
  next
    case False
    let ?b = "b(cid \<mapsto> st\<lparr>cf_probing := True\<rparr>)"
    from False assms have "candidateReady t cid revn b = (True, ?b)" by (simp add: candidateReady_def)
    moreover have "ready_answers ts cid revn ?b = replicate (length ts) False"
      by (rule probing_blocks_all [where st = "st\<lparr>cf_probing := True\<rparr>"]) (use assms in simp_all)
    ultimately show ?thesis using False by simp
  qed
qed

end
