(* ===== verification/GoHttp.thy ===== *)
theory GoHttp
  imports GoText Prelude
begin

text \<open>
  \<^verbatim>\<open>http.Header\<close>: a map from names in canonical form to lists of values, as an association list.
\<close>

type_synonym header = "(string \<times> string list) list"

definition upper_char :: "char \<Rightarrow> char" where
  "upper_char c = (if 97 \<le> (of_char c :: nat) \<and> of_char c \<le> (122 :: nat) then char_of (of_char c - 32 :: nat) else c)"

definition token_char :: "char \<Rightarrow> bool" where
  "token_char c \<longleftrightarrow> is_digit c \<or> (let n = of_char c :: nat in 65 \<le> n \<and> n \<le> 90 \<or> 97 \<le> n \<and> n \<le> 122)
     \<or> c \<in> set (''!#$%&*+-.^_|~'' @ [CHR 0x27, CHR 0x60])"

fun canonical_from :: "bool \<Rightarrow> string \<Rightarrow> string" where
  "canonical_from upper [] = []"
| "canonical_from upper (c # s) =
     (if upper then upper_char c else lower_char c) # canonical_from (c = CHR ''-'') s"

text \<open>\<^verbatim>\<open>textproto.CanonicalMIMEHeaderKey\<close>: a name with a character that is no token stays as it is.\<close>

definition canonical :: "string \<Rightarrow> string" where
  "canonical s = (if list_all token_char s then canonical_from True s else s)"

definition header_values :: "header \<Rightarrow> string \<Rightarrow> string list" where
  "header_values h k = (case map_of h (canonical k) of Some vs \<Rightarrow> vs | None \<Rightarrow> [])"

definition header_get :: "header \<Rightarrow> string \<Rightarrow> string" where
  "header_get h k = (case header_values h k of [] \<Rightarrow> [] | v # _ \<Rightarrow> v)"

definition header_set :: "string \<Rightarrow> string \<Rightarrow> header \<Rightarrow> header" where
  "header_set k v h = put (canonical k) [v] h"

definition header_add :: "string \<Rightarrow> string \<Rightarrow> header \<Rightarrow> header" where
  "header_add k v h = put (canonical k) (header_values h k @ [v]) h"

definition header_del :: "string \<Rightarrow> header \<Rightarrow> header" where
  "header_del k h = AList.delete (canonical k) h"

text \<open>A header as the HTTP server hands it out: every name once and in canonical form.\<close>

definition wf_header :: "header \<Rightarrow> bool" where
  "wf_header h \<longleftrightarrow> distinct (map fst h) \<and> (\<forall>k \<in> fst ` set h. canonical k = k)"

lemma header_values_set [simp]:
  "header_values (header_set k v h) n = (if canonical n = canonical k then [v] else header_values h n)"
  by (simp add: header_values_def header_set_def)

lemma header_values_add [simp]:
  "header_values (header_add k v h) n =
     (if canonical n = canonical k then header_values h n @ [v] else header_values h n)"
  by (simp add: header_values_def header_add_def)

lemma map_of_AList_delete: "map_of (AList.delete k m) n = (if n = k then None else map_of m n)"
  by (simp add: delete_conv')

lemma header_values_del [simp]:
  "header_values (header_del k h) n = (if canonical n = canonical k then [] else header_values h n)"
  by (simp add: header_values_def header_del_def map_of_AList_delete)

lemma header_values_empty [simp]: "header_values [] n = []"
  by (simp add: header_values_def)

lemma header_values_add_all:
  "header_values (fold (header_add k) vs h) n =
     (if canonical n = canonical k then header_values h n @ vs else header_values h n)"
  by (induction vs arbitrary: h) auto

lemma header_values_set_all:
  assumes "canonical n \<notin> canonical ` fst ` set kvs"
  shows "header_values (fold (\<lambda>(k, v). header_set k v) kvs h) n = header_values h n"
  using assms by (induction kvs arbitrary: h) auto

end
