(* ===== verification/GatewayHeaders.thy ===== *)
theory GatewayHeaders
  imports GoHttp Routing
begin

text \<open>
  The header handling of the gateway (internal/gateway/handler.go, \<^verbatim>\<open>ApplyHeaders\<close> of
  internal/codex/request.go and internal/antigravity/oauth.go): which headers of a client reach an
  upstream, which credentials are put in, which headers of an answer reach the client, and how a
  client's own credentials are read.
\<close>

section \<open>Names\<close>

definition hopByHop :: "string \<Rightarrow> bool" where
  "hopByHop name \<longleftrightarrow> to_lower name \<in> {''connection'', ''keep-alive'', ''proxy-authenticate'',
     ''proxy-authorization'', ''te'', ''trailer'', ''transfer-encoding'', ''upgrade''}"

text \<open>The headers that describe the way from the client to the gateway.\<close>

definition inbound_chain :: "string \<Rightarrow> bool" where
  "inbound_chain name \<longleftrightarrow> (let name = to_lower name in
     hopByHop name \<or> name = ''forwarded'' \<or> name = ''x-real-ip'' \<or> name = ''cdn-loop''
     \<or> has_prefix name ''x-forwarded-'' \<or> has_prefix name ''cf-'')"

section \<open>Towards the upstream\<close>

definition copy_headers :: "(string \<Rightarrow> bool) \<Rightarrow> header \<Rightarrow> header \<Rightarrow> header" where
  "copy_headers skip source destination =
     fold (\<lambda>(key, vals) h. if skip key then h else fold (header_add key) vals h) source destination"

definition copyRequestHeaders :: "header \<Rightarrow> header \<Rightarrow> header" where
  "copyRequestHeaders source destination =
     header_del ''Accept-Encoding'' (header_del ''Content-Length'' (copy_headers inbound_chain source destination))"

definition source_headers :: "string list" where
  "source_headers = [''anthropic-version'', ''anthropic-beta'', ''openai-beta'', ''openai-organization'']"

definition stripSourceProtocolHeaders :: "header \<Rightarrow> header" where
  "stripSourceProtocolHeaders h =
     header_set ''Content-Type'' ''application/json'' (fold header_del source_headers h)"

definition set_all :: "(string \<times> string) list \<Rightarrow> header \<Rightarrow> header" where
  "set_all kvs h = fold (\<lambda>(k, v). header_set k v) kvs h"

definition applyProviderHeaders :: "provider \<Rightarrow> string \<Rightarrow> header \<Rightarrow> header" where
  "applyProviderHeaders p secret h =
     (let h = header_del ''x-api-key'' (header_del ''Authorization'' h);
          h = (if prov_auth_type p = ''bearer'' then header_set ''Authorization'' (''Bearer '' @ secret) h
               else if prov_auth_type p = ''x-api-key'' then header_set ''x-api-key'' secret h
               else if prov_auth_type p = ''custom'' then header_set (prov_auth_header p) secret h
               else h)
      in set_all (prov_static_headers p) h)"

text \<open>The headers of a request to a generic provider, as \<^verbatim>\<open>generateAuthorized\<close> builds them.\<close>

definition protocol_headers :: "string \<Rightarrow> string \<Rightarrow> header \<Rightarrow> header" where
  "protocol_headers upstream inbound h =
     (if upstream \<noteq> inbound then
        (let h = stripSourceProtocolHeaders h in
         if upstream = Messages \<and> header_get h ''anthropic-version'' = []
         then header_set ''anthropic-version'' ''2023-06-01'' h else h)
      else h)"

definition upstream_headers :: "resolved_route \<Rightarrow> string \<Rightarrow> header \<Rightarrow> header" where
  "upstream_headers route inbound client =
     applyProviderHeaders (Provider route) (key_secret (Key route))
       (protocol_headers (UpstreamProtocol route) inbound (copyRequestHeaders client []))"

text \<open>Codex: the service tier of the body is part of a routing hint.\<close>

definition service_tier :: "string \<Rightarrow> string" where
  "service_tier body = (case parse_json body of
       None \<Rightarrow> []
     | Some j \<Rightarrow> (let (tier, ok) = dec_struct (f_string ''service_tier'') j in if ok then tier else []))"

definition codex_ApplyHeaders :: "auth \<Rightarrow> string \<Rightarrow> string \<Rightarrow> header \<Rightarrow> header" where
  "codex_ApplyHeaders a model body h =
     (let h = fold header_del [''x-api-key'', ''anthropic-version'', ''anthropic-beta''] h;
          h = set_all
            [(''Authorization'', ''Bearer '' @ AccessToken (auth_tokens a)),
             (''ChatGPT-Account-ID'', AccountID (auth_identity a)),
             (''Content-Type'', ''application/json''), (''Accept'', ''text/event-stream''),
             (''Originator'', ''codex_cli_rs''), (''User-Agent'', ''model-confluence'')] h;
          tier = service_tier body
      in header_set ''X-Codex-Routing-Hint''
           (''model='' @ model @ (if tier \<noteq> [] then '';tier='' @ tier else [])) h)"

definition codex_headers :: "resolved_route \<Rightarrow> auth \<Rightarrow> string \<Rightarrow> string \<Rightarrow> header \<Rightarrow> header" where
  "codex_headers route a body inbound client =
     codex_ApplyHeaders a (UpstreamModel route) body
       (protocol_headers (UpstreamProtocol route) inbound (copyRequestHeaders client []))"

definition antigravity_ApplyHeaders :: "string \<Rightarrow> header \<Rightarrow> header" where
  "antigravity_ApplyHeaders access_token h =
     set_all [(''Authorization'', ''Bearer '' @ access_token), (''Content-Type'', ''application/json''),
              (''Accept'', ''text/event-stream''), (''User-Agent'', ''antigravity'')]
       (header_del ''Cookie'' (header_del ''x-api-key'' h))"

section \<open>Towards the client\<close>

definition copyResponseHeaders :: "header \<Rightarrow> header \<Rightarrow> header" where
  "copyResponseHeaders source destination = copy_headers hopByHop source destination"

section \<open>The client's credentials\<close>

datatype secret_result = ConflictingSecrets | MissingSecret | Secret string

definition client_secret :: "header \<Rightarrow> secret_result" where
  "client_secret h =
     (let authorization = header_get h ''Authorization'';
          bearer = (if has_prefix authorization ''Bearer '' then trim_space (trim_prefix authorization ''Bearer '') else []);
          apiKey = trim_space (header_get h ''x-api-key'')
      in if bearer \<noteq> [] \<and> apiKey \<noteq> [] \<and> bearer \<noteq> apiKey then ConflictingSecrets
         else (let secret = (if bearer = [] then apiKey else bearer) in
           if secret = [] then MissingSecret else Secret secret))"

definition protocolFromPath :: "string \<Rightarrow> string" where
  "protocolFromPath path =
     (if has_suffix path ''/responses'' then Responses
      else if has_suffix path ''/messages'' then Messages else Chat)"

section \<open>What a copied header holds\<close>

lemma copy_headers_values:
  assumes "wf_header source"
  shows "header_values (copy_headers skip source destination) n =
     header_values destination n
     @ (if canonical n \<in> fst ` set source \<and> \<not> skip (canonical n) then header_values source n else [])"
proof -
  have *: "distinct (map fst s) \<Longrightarrow> (\<forall>k \<in> fst ` set s. canonical k = k) \<Longrightarrow>
    header_values (fold (\<lambda>(key, vals) h. if skip key then h else fold (header_add key) vals h) s d) n =
    header_values d n @ (case map_of s (canonical n) of
       Some vs \<Rightarrow> if skip (canonical n) then [] else vs | None \<Rightarrow> [])" for s d
  proof (induction s arbitrary: d)
    case Nil
    then show ?case by simp
  next
    case (Cons kv s)
    moreover have "canonical n = fst kv \<Longrightarrow> map_of s (fst kv) = None"
      using Cons.prems by (simp add: map_of_eq_None_iff)
    ultimately show ?case
      by (cases kv) (auto simp: header_values_add_all split: option.splits)
  qed
  show ?thesis
  proof (cases "map_of source (canonical n)")
    case None
    with assms * [of source destination] show ?thesis
      by (auto simp: copy_headers_def wf_header_def map_of_eq_None_iff)
  next
    case (Some vs)
    then have "canonical n \<in> fst ` set source" by (metis map_of_SomeD fst_conv imageI)
    with Some assms * [of source destination] show ?thesis
      by (simp add: copy_headers_def wf_header_def header_values_def)
  qed
qed

lemma header_values_absent: "canonical n \<notin> fst ` set h \<Longrightarrow> header_values h n = []"
  by (simp add: header_values_def map_of_eq_None_iff option.case_eq_if)

lemma copied_request_values:
  assumes "wf_header client"
  shows "header_values (copyRequestHeaders client []) n =
     (if canonical n \<in> {''Content-Length'', ''Accept-Encoding''} \<or> inbound_chain (canonical n) then []
      else header_values client n)"
proof -
  have names: "canonical ''Content-Length'' = ''Content-Length''" "canonical ''Accept-Encoding'' = ''Accept-Encoding''"
    by code_simp+
  show ?thesis
    using assms header_values_absent [of n client]
    by (simp add: copyRequestHeaders_def copy_headers_values names)
qed

lemma copied_response_values:
  assumes "wf_header upstream"
  shows "header_values (copyResponseHeaders upstream h) n =
     header_values h n @ (if hopByHop (canonical n) then [] else header_values upstream n)"
  using assms header_values_absent [of n upstream]
  by (simp add: copyResponseHeaders_def copy_headers_values)

lemma set_all_values:
  assumes "canonical n \<notin> canonical ` fst ` set kvs"
  shows "header_values (set_all kvs h) n = header_values h n"
  using header_values_set_all [OF assms] by (simp add: set_all_def)

lemma header_values_del_all:
  "header_values (fold header_del ks h) n = (if canonical n \<in> canonical ` set ks then [] else header_values h n)"
  by (induction ks arbitrary: h) auto

end
