(* ===== verification/GatewayBody.thy ===== *)
theory GatewayBody
  imports GatewayHeaders StreamConvert StoreCache
begin

text \<open>
  The bodies that pass through the gateway (internal/gateway/handler.go and
  internal/gateway/codex.go): what the gateway reads from a request, the members it rewrites, and
  what it learns from the answer of an upstream that refuses a request.
\<close>

definition body_map :: "string \<Rightarrow> go_error + members" where
  "body_map body = bindE (unmarshal_text body) (\<lambda>j. okE (dec_map j))"

section \<open>Reading a request\<close>

record request_metadata =
  meta_model :: string
  meta_stream :: bool
  meta_tools :: bool
  meta_parallel :: bool
  meta_effort :: string

definition effort_of :: "members \<Rightarrow> string \<Rightarrow> string" where
  "effort_of raw protocol =
     (if protocol = Responses then fst (unm (dec_struct (f_string ''effort'')) [] (entry ''reasoning'' raw))
      else if protocol = Messages then fst (unm (dec_struct (f_string ''effort'')) [] (entry ''output_config'' raw))
      else fst (unm_string (entry ''reasoning_effort'' raw)))"

definition inspectRequest :: "string \<Rightarrow> string \<Rightarrow> go_error + request_metadata" where
  "inspectRequest body protocol =
     bindE (body_map body) (\<lambda>raw.
     let (model, ok) = unm_string (entry ''model'' raw) in
     bindE (guardE (\<not> ok \<or> model = []) (Errorf ''model must not be empty'' [])) (\<lambda>_.
     Inr \<lparr>meta_model = model, meta_stream = fst (unm_bool (entry ''stream'' raw)),
          meta_tools = (fst (unm_slice (dec_raw None) (entry ''tools'' raw)) \<noteq> []),
          meta_parallel = fst (unm_bool (entry ''parallel_tool_calls'' raw)),
          meta_effort = effort_of raw protocol\<rparr>))"

definition include_usage_struct :: "members \<Rightarrow> bool decoded" where
  "include_usage_struct = f_struct (f_bool ''include_usage'') ''stream_options''"

definition clientWantsStreamUsage :: "string \<Rightarrow> bool" where
  "clientWantsStreamUsage body = (case unmarshal_text body of
       Inl e \<Rightarrow> False
     | Inr j \<Rightarrow> (let (include, ok) = dec_struct include_usage_struct j in ok \<and> include))"

section \<open>Rewriting\<close>

text \<open>A decoded map with one entry set, marshalled again. JSON \<^verbatim>\<open>null\<close> is the nil map.\<close>

definition set_member :: "string \<Rightarrow> gval \<Rightarrow> members \<Rightarrow> string" where
  "set_member k v kvs = print_json (marshal (GMap (put k v (raw_map kvs))))"

definition rewriteModel :: "string \<Rightarrow> string \<Rightarrow> go_error + string" where
  "rewriteModel body model =
     bindE (unmarshal_text body) (\<lambda>j. bindE (okE (dec_map j)) (\<lambda>kvs.
     Inr (if j = JNull then body else set_member ''model'' (GStr model) kvs)))"

text \<open>Values of type \<^verbatim>\<open>any\<close>: objects become maps at every depth. Numbers keep their literal.\<close>

function any_value :: "json \<Rightarrow> gval" where
  "any_value JNull = GNil"
| "any_value (JBool b) = GBool b"
| "any_value (JNum l) = GFloat l"
| "any_value (JStr s) = GStr s"
| "any_value (JArr js) = GArr (map any_value js)"
| "any_value (JObj kvs) = GMap (fold (\<lambda>kv. put (fst kv) (snd kv)) (map (\<lambda>kv. (fst kv, any_value (snd kv))) kvs) [])"
  by pat_completeness auto
termination
proof (relation "measure size")
  fix kvs :: members and kv
  assume "kv \<in> set kvs"
  then have "size (snd kv) < Suc (size_list (size_prod (\<lambda>x. 0) size) kvs)"
    by (induction kvs) (auto simp: less_Suc_eq_le)
  then show "(snd kv, JObj kvs) \<in> measure size" by simp
qed (auto simp: less_Suc_eq_le size_list_estimation')

definition any_members :: "members \<Rightarrow> gmap" where
  "any_members kvs = fold (\<lambda>kv. put (fst kv) (any_value (snd kv))) kvs []"

text \<open>
  Asking a Chat upstream for the usage of a stream. For the body \<^verbatim>\<open>null\<close> the assignment to the
  nil map panics; the bodies it is called with are objects.
\<close>

definition includeStreamUsage :: "string \<Rightarrow> go_error + string" where
  "includeStreamUsage body =
     bindE (unmarshal_text body) (\<lambda>j. bindE (okE (dec_map j)) (\<lambda>kvs.
     bindE (case entry ''stream_options'' kvs of None \<Rightarrow> Inr [] | Some opts \<Rightarrow> okE (dec_map opts)) (\<lambda>options.
     if j = JNull then Inl (Errorf ''assignment to entry in nil map'' [])
     else Inr (set_member ''stream_options'' (GMap (put ''include_usage'' (GBool True) (any_members options))) kvs))))"

text \<open>A line of a stream that is passed on in the client's own protocol.\<close>

definition rewriteSSEModel :: "string \<Rightarrow> string \<Rightarrow> string" where
  "rewriteSSEModel line model =
     (let trimmed = trim_space line in
      if \<not> has_prefix trimmed ''data:'' then line
      else (let data = trim_space (trim_prefix trimmed ''data:'') in
        if data = ''[DONE]'' then line
        else (case rewriteModel data model of Inl e \<Rightarrow> line | Inr rewritten \<Rightarrow> ''data: '' @ rewritten @ [LF])))"

definition quoted :: "string \<Rightarrow> string" where
  "quoted name = DQ # name @ [DQ]"

definition semanticSSELine :: "string \<Rightarrow> bool" where
  "semanticSSELine line \<longleftrightarrow>
     contains_text line (quoted ''content'') \<and> \<not> contains_text line (quoted ''content'' @ '':'' @ quoted [])
     \<or> contains_text line (quoted ''tool_calls'') \<or> contains_text line (quoted ''function_call'')
     \<or> contains_text line (quoted ''content_block_delta'') \<or> contains_text line (quoted ''output_text.delta'')"

text \<open>The frame of a Chat stream with the usage, which has no choices, is taken out for clients that did not ask for it.\<close>

definition withoutChatUsage :: "string list \<Rightarrow> string list" where
  "withoutChatUsage chunks =
     filter (\<lambda>c. \<not> (contains_text c (quoted ''choices'' @ '':[]'') \<and> contains_text c (quoted ''usage'' @ '':''))) chunks"

section \<open>Errors of an upstream\<close>

definition error_code_struct :: "members \<Rightarrow> (string \<times> string \<times> string \<times> string) decoded" where
  "error_code_struct kvs =
     (let ((code, kind), ok1) = f_struct code_struct ''error'' kvs; ((code', kind'), ok2) = code_struct kvs
      in ((code, kind, code', kind'), ok1 \<and> ok2))"

definition extractErrorCode :: "string \<Rightarrow> string" where
  "extractErrorCode body = (case unmarshal_text body of
       Inl e \<Rightarrow> []
     | Inr j \<Rightarrow> (let ((a, b, c, d), ok) = dec_struct error_code_struct j in
         if \<not> ok then []
         else (case dropWhile (\<lambda>v. v = [] \<or> v = ''error'') [a, b, c, d] of [] \<Rightarrow> [] | v # _ \<Rightarrow> v)))"

text \<open>The ellipsis is U+2026.\<close>

definition errorBodySnippet :: "string \<Rightarrow> string" where
  "errorBodySnippet body = (let snippet = trim_space body in
     if 200 < length snippet then take 200 snippet @ [CHR 0xE2, CHR 0x80, CHR 0xA6] else snippet)"

definition shouldTryNextKey :: "int \<Rightarrow> bool" where
  "shouldTryNextKey status \<longleftrightarrow> status = 401 \<or> status = 403 \<or> status = 402 \<or> status = 429"

text \<open>\<^verbatim>\<open>http.ParseTime\<close> reads the three date formats of HTTP: the parameter \<open>parse_time\<close>.\<close>

definition parseRetryAfter :: "(string \<Rightarrow> instant option) \<Rightarrow> string \<Rightarrow> instant \<Rightarrow> instant option" where
  "parseRetryAfter parse_time value now =
     (case parse_duration (value @ ''s'') of
        Some d \<Rightarrow> if 0 \<le> d then Some (now + d)
                  else (case parse_time value of None \<Rightarrow> None | Some t \<Rightarrow> if t < now then None else Some t)
      | None \<Rightarrow> (case parse_time value of None \<Rightarrow> None | Some t \<Rightarrow> if t < now then None else Some t))"

text \<open>What becomes of the key a generic upstream refused: status, reason and time of recovery.\<close>

definition key_mark ::
    "(string \<Rightarrow> instant option) \<Rightarrow> instant \<Rightarrow> provider \<Rightarrow> int \<Rightarrow> string \<Rightarrow> header \<Rightarrow>
     (string \<times> string \<times> instant option) option" where
  "key_mark parse_time now p status body h =
     (let code = extractErrorCode body; quota = Some (''quota_exhausted'', code, None) in
      if status = 401 then Some (''auth_invalid'', body, None)
      else if status = 402 then (if code \<in> set (prov_quota_codes p) then quota else None)
      else if status \<noteq> 429 then None
      else if code \<in> set (prov_quota_codes p) then quota
      else Some (''rate_limited'', code, Some (case parseRetryAfter parse_time (header_get h ''Retry-After'') now of
             Some t \<Rightarrow> t | None \<Rightarrow> now + 60 * second)))"

definition mark_key ::
    "resolved_route \<Rightarrow> (string \<times> string \<times> instant option) option \<Rightarrow> store \<Rightarrow> (store_error + unit) \<times> store" where
  "mark_key route mark s = (case mark of
       None \<Rightarrow> (Inr (), s)
     | Some (status, reason, recover) \<Rightarrow>
         updating_routes (MarkUpstreamKeyRevision (key_id (Key route)) (key_revision (Key route)) status reason recover) s)"

definition updateKeyAfterError ::
    "(string \<Rightarrow> instant option) \<Rightarrow> instant \<Rightarrow> resolved_route \<Rightarrow> int \<Rightarrow> string \<Rightarrow> header \<Rightarrow> store \<Rightarrow> store" where
  "updateKeyAfterError parse_time now route status body h s =
     snd (mark_key route (key_mark parse_time now (Provider route) status body h) s)"

text \<open>For a Codex account, from the classified error (status, code, time of recovery).\<close>

definition codex_mark ::
    "(string \<Rightarrow> instant option) \<Rightarrow> instant \<Rightarrow> provider \<Rightarrow> int \<Rightarrow> string \<Rightarrow> instant option \<Rightarrow> header \<Rightarrow>
     (string \<times> string \<times> instant option) option" where
  "codex_mark parse_time now p status code recover h =
     (if status = 401 then Some (''auth_invalid'', code, recover)
      else if code = ''usage_limit_reached'' \<or> (status = 402 \<or> status = 429) \<and> code \<in> set (prov_quota_codes p)
      then Some (''quota_exhausted'', code, recover)
      else if status = 429 then
        Some (''rate_limited'', code, Some (case parseRetryAfter parse_time (header_get h ''Retry-After'') now of
          Some t \<Rightarrow> t | None \<Rightarrow> now + 60 * second))
      else None)"

definition updateCodexKeyAfterError ::
    "(string \<Rightarrow> instant option) \<Rightarrow> instant \<Rightarrow> resolved_route \<Rightarrow> int \<Rightarrow> string \<Rightarrow> instant option \<Rightarrow> header \<Rightarrow> store \<Rightarrow>
     (store_error + unit) \<times> store" where
  "updateCodexKeyAfterError parse_time now route status code recover h s =
     mark_key route (codex_mark parse_time now (Provider route) status code recover h) s"

section \<open>Waiting\<close>

text \<open>The wait before the next attempt; \<open>rand n\<close> is a random number below \<open>n\<close>.\<close>

definition retryBackoff :: "(int \<Rightarrow> int) \<Rightarrow> nat \<Rightarrow> int" where
  "retryBackoff rand retryIndex =
     (let limit = min (((\<lambda>d. 2 * d) ^^ min retryIndex 5) (100 * millisecond)) (2 * second); floor = limit div 2
      in floor + rand (limit - floor + 1))"

section \<open>The model list of a provider\<close>

definition modelsEndpointSuffixes :: "string list" where
  "modelsEndpointSuffixes = [''/chat/completions'', ''/responses'', ''/messages'']"

definition endpoint_of :: "provider \<Rightarrow> string \<Rightarrow> string" where
  "endpoint_of p name = (case map_of (prov_endpoints p) name of None \<Rightarrow> [] | Some url \<Rightarrow> url)"

definition providerModelsEndpoint :: "provider \<Rightarrow> string \<times> bool" where
  "providerModelsEndpoint p =
     (case filter (\<lambda>name. endpoint_of p name \<noteq> []) [Chat, Responses, Messages] of
        [] \<Rightarrow> ([], False)
      | name # _ \<Rightarrow> (fold (\<lambda>suffix url. trim_suffix url suffix) modelsEndpointSuffixes (endpoint_of p name) @ ''/models'',
                     name = Messages))"

definition model_id_struct :: "members \<Rightarrow> string decoded" where
  "model_id_struct = f_string ''id''"

definition models_struct :: "members \<Rightarrow> string list decoded" where
  "models_struct = f_slice (dec_struct model_id_struct) ''data''"

datatype models_error = UpstreamUnauthorized int | UpstreamStatus int string | InvalidModels

text \<open>The answer of the model endpoint: the names in order, empty names left out.\<close>

definition models_answer :: "int \<Rightarrow> string \<Rightarrow> models_error + string list" where
  "models_answer status body =
     (if status = 401 \<or> status = 403 then Inl (UpstreamUnauthorized status)
      else if status \<noteq> 200 then Inl (UpstreamStatus status (errorBodySnippet body))
      else case bindE (unmarshal_text body) (\<lambda>j. okE (dec_struct models_struct j)) of
          Inl e \<Rightarrow> Inl InvalidModels
        | Inr ids \<Rightarrow> Inr (sort (filter (\<lambda>i. i \<noteq> []) ids)))"

end
