(* ===== verification/CodexRequest.thy ===== *)
theory CodexRequest
  imports CodexAuth EncodeRequest "HOL-Library.List_Lexorder"
begin

text \<open>
  Requests to the Codex backend (\<^verbatim>\<open>PrepareRequest\<close> of internal/codex/request.go): fields the backend
  does not take are dropped and reported, requests that depend on stored state are refused, the
  rest is converted to Responses and brought into the form the backend asks for.
\<close>

definition ignoredFields :: "string list" where
  "ignoredFields = [''max_tokens'', ''max_completion_tokens'', ''max_output_tokens'', ''temperature'', ''top_p'',
     ''truncation'', ''user'', ''prompt_cache_options'', ''prompt_cache_retention'', ''safety_identifier'',
     ''stream_options'']"

text \<open>The decoded object: every name once, in the order of its first member.\<close>

definition object_map :: "members \<Rightarrow> members" where
  "object_map kvs = fold (\<lambda>kv. put (fst kv) (snd kv)) kvs []"

definition object_text :: "members \<Rightarrow> string" where
  "object_text m = print_json (marshal (GMap (map (\<lambda>kv. (fst kv, GRaw (snd kv))) m)))"

definition strip_field :: "string \<Rightarrow> members \<times> string list \<Rightarrow> members \<times> string list" where
  "strip_field name = (\<lambda>(raw, ignored).
     if map_of raw name = None then (raw, ignored)
     else (AList.delete name raw, List.insert (''$.'' @ name) ignored))"

definition strip :: "members \<times> string list \<Rightarrow> members \<times> string list" where
  "strip = fold strip_field ignoredFields"

definition check_state :: "members \<Rightarrow> go_error + unit" where
  "check_state raw = bindE (mapE (\<lambda>_ name.
       guardE (\<not> raw_absent (map_of raw name) \<and> map_of raw name \<noteq> Some (JStr []))
         (Errorf ''Codex does not support $.%s'' [name])) [''previous_response_id'', ''conversation'']) (\<lambda>_.
     bindE (mapE (\<lambda>_ name.
       if raw_absent (map_of raw name) then Inr ()
       else (let (enabled, ok) = unm_bool (map_of raw name) in
         bindE (guardE (\<not> ok) (Errorf ''$.%s must be a boolean'' [name])) (\<lambda>_.
         guardE enabled (Errorf ''Codex does not support $.%s=true'' [name])))) [''background'', ''store'']) (\<lambda>_.
     Inr ()))"

text \<open>A text as input is one message of the user; messages of the system become the developer's.\<close>

definition text_input :: "string \<Rightarrow> json" where
  "text_input s = JArr [marshal (GMap [(''type'', GStr ''message''), (''role'', GStr ''user''),
     (''content'', GArr [GMap [(''type'', GStr ''input_text''), (''text'', GStr s)]])])]"

fun system_item :: "json \<Rightarrow> bool" where
  "system_item (JObj kvs) \<longleftrightarrow> entry ''role'' kvs = Some (JStr ''system'')"
| "system_item _ = False"

fun developer_item :: "json \<Rightarrow> gval" where
  "developer_item (JObj kvs) =
     (let m = raw_map kvs in GMap (if system_item (JObj kvs) then put ''role'' (GRaw (JStr ''developer'')) m else m))"
| "developer_item j = GRaw j"

definition codex_input :: "raw_message \<Rightarrow> go_error + json" where
  "codex_input raw =
     (let raw = (case raw of Some (JStr s) \<Rightarrow> Some (text_input s) | _ \<Rightarrow> raw) in
      case raw of
        Some (JArr items) \<Rightarrow>
          (if list_all (\<lambda>j. snd (dec_map j)) items then
             Inr (if list_ex system_item items then marshal (GArr (map developer_item items)) else JArr items)
           else Inl (Errorf ''Codex $.input must be a string or an array'' []))
      | _ \<Rightarrow> Inl (Errorf ''Codex $.input must be a string or an array'' []))"

definition PrepareRequest :: "string \<Rightarrow> string \<Rightarrow> string \<Rightarrow> go_error + string \<times> string list" where
  "PrepareRequest body source model =
     bindE (unmarshal_text body) (\<lambda>j. bindE (okE (dec_map j)) (\<lambda>kvs.
     let raw = object_map kvs in
     bindE (check_state raw) (\<lambda>_.
     let (raw, ignored) = strip (raw, []) in
     bindE (if source = Responses then Inr (raw, ignored)
            else bindE (ConvertRequest (if j = JNull then print_json JNull else object_text raw) source Responses model 0) (\<lambda>converted.
                 bindE (unmarshal_text converted) (\<lambda>j'. bindE (okE (dec_map j')) (\<lambda>kvs'.
                 Inr (strip (object_map kvs', ignored)))))) (\<lambda>(raw, ignored).
     bindE (codex_input (map_of raw ''input'')) (\<lambda>input.
     let raw = put ''input'' input raw;
         raw = (if raw_absent (map_of raw ''instructions'') then put ''instructions'' (JStr []) raw else raw);
         raw = put ''store'' (JBool False) (put ''stream'' (JBool True) (put ''model'' (JStr model) raw))
     in Inr (object_text raw, sort ignored))))))"

section \<open>What a prepared request holds\<close>

lemma map_of_deleted [simp]: "map_of (AList.delete k m) n = (if n = k then None else map_of m n)"
  by (simp add: delete_conv')

lemma strip_fields_map_of:
  "map_of (fst (fold strip_field fs (m, ig))) k = (if k \<in> set fs then None else map_of m k)"
proof (induction fs arbitrary: m ig)
  case Nil
  then show ?case by simp
next
  case (Cons f fs)
  then show ?case by (auto simp: strip_field_def)
qed

lemma strip_map_of: "map_of (fst (strip s)) k = (if k \<in> set ignoredFields then None else map_of (fst s) k)"
  using strip_fields_map_of [of ignoredFields "fst s" "snd s" k] by (simp add: strip_def)

lemma strip_fields_ignored:
  "set (snd (fold strip_field fs (m, ig))) = set ig \<union> {''$.'' @ f | f. f \<in> set fs \<and> map_of m f \<noteq> None}"
proof (induction fs arbitrary: m ig)
  case Nil
  then show ?case by simp
next
  case (Cons f fs)
  show ?case
  proof (cases "map_of m f")
    case None
    then show ?thesis using Cons by (auto simp: strip_field_def)
  next
    case (Some j)
    then show ?thesis using Cons [of "AList.delete f m"] by (auto simp: strip_field_def)
  qed
qed

end
