(* ===== verification/CodexStream.thy ===== *)
theory CodexStream
  imports CodexRequest Sse AntigravityReply
begin

text \<open>
  Answers of the Codex backend (internal/codex/stream.go): the classification of errors and the
  reader of a stream, which puts the model name the client asked for into every event, collects
  the finished items, and keeps the final response.
\<close>

section \<open>Errors\<close>

record codex_error =
  ce_code :: string
  ce_type :: string
  ce_message :: string
  ce_resets_at :: int
  ce_resets_in :: "int option"
  ce_error :: raw_message

definition codex_error_struct :: "members \<Rightarrow> codex_error decoded" where
  "codex_error_struct kvs =
     (let (code, ok1) = f_string ''code'' kvs; (kind, ok2) = f_string ''type'' kvs; (message, ok3) = f_string ''message'' kvs;
          (resets, ok4) = f_int ''resets_at'' kvs; (within, ok5) = f_ptr_int ''resets_in_seconds'' kvs;
          (err, ok6) = f_raw ''error'' kvs
      in (\<lparr>ce_code = code, ce_type = kind, ce_message = message, ce_resets_at = resets, ce_resets_in = within, ce_error = err\<rparr>,
          ok1 \<and> ok2 \<and> ok3 \<and> ok4 \<and> ok5 \<and> ok6))"

definition status_of_code :: "string \<Rightarrow> int \<Rightarrow> int" where
  "status_of_code code status =
     (if code \<in> {''unauthorized'', ''authentication_error'', ''invalid_api_key'', ''token_expired''} then 401
      else if code \<in> {''permission_error'', ''forbidden'', ''permission_denied''} then 403
      else if code \<in> {''usage_limit_reached'', ''rate_limit_error'', ''rate_limit_exceeded''} then 429
      else if code \<in> {''model_not_found'', ''model_not_supported'', ''not_found_error''} then 404
      else if code \<in> {''invalid_request_error'', ''bad_request_error''} then 400
      else status)"

definition codex_recovery :: "codex_error \<Rightarrow> string \<Rightarrow> instant \<Rightarrow> instant option" where
  "codex_recovery e code now =
     (if code \<noteq> ''usage_limit_reached'' then None
      else if 0 < ce_resets_at e then Some (ce_resets_at e * second)
      else (case ce_resets_in e of
          Some s \<Rightarrow> if 0 \<le> s then Some (now + wrap64 (s * second)) else None
        | None \<Rightarrow> None))"

text \<open>An object under \<^verbatim>\<open>error\<close> is decoded over the fields of the document.\<close>

definition codex_ClassifyError :: "string \<Rightarrow> int \<Rightarrow> instant \<Rightarrow> go_error" where
  "codex_ClassifyError body status now =
     (case bindE (unmarshal_text body) (\<lambda>j. bindE (okE (dec_struct codex_error_struct j)) (\<lambda>e. Inr (fst (struct_members j), e))) of
        Inl _ \<Rightarrow> Upstream status ''invalid_response'' ''malformed upstream error'' None
      | Inr (kvs, e) \<Rightarrow>
          (case (case ce_error e of
                   Some (JObj inner) \<Rightarrow>
                     (if snd (codex_error_struct inner) then Some (fst (codex_error_struct (kvs @ inner))) else None)
                 | _ \<Rightarrow> Some e) of
             None \<Rightarrow> Upstream status ''invalid_response'' [] None
           | Some e \<Rightarrow>
               (let code = (if ce_code e = [] then ce_type e else ce_code e)
                in Upstream (status_of_code code status) code (ce_message e) (codex_recovery e code now))))"

section \<open>The stream\<close>

record codex_stream =
  cs_items :: "(int \<times> json) list"
  cs_response :: string
  cs_done :: bool

definition new_codex_stream :: codex_stream where
  "new_codex_stream = \<lparr>cs_items = [], cs_response = [], cs_done = False\<rparr>"

definition codex_item_struct :: "members \<Rightarrow> (string \<times> string list) decoded" where
  "codex_item_struct kvs =
     (let (kind, ok1) = f_string ''type'' kvs; (call, ok2) = f_string ''call_id'' kvs;
          (parts, ok3) = f_slice (dec_struct (f_string ''text'')) ''content'' kvs
      in ((call, parts), ok1 \<and> ok2 \<and> ok3))"

definition delta_kinds :: "string list" where
  "delta_kinds = [''response.output_text.delta'', ''response.reasoning_summary_text.delta'',
     ''response.reasoning_text.delta'', ''response.function_call_arguments.delta'',
     ''response.custom_tool_call_input.delta'']"

definition error_document :: "raw_message \<Rightarrow> string" where
  "error_document raw = print_json (marshal (GMap [(''error'', (case raw of None \<Rightarrow> GNil | Some j \<Rightarrow> GRaw j))]))"

definition codex_kind :: "sse_event \<Rightarrow> members \<Rightarrow> go_error + string" where
  "codex_kind event payload =
     bindE (case map_of payload ''type'' of None \<Rightarrow> Inr (sse_name event) | Some v \<Rightarrow> okE (dec_string [] v)) (\<lambda>kind.
     bindE (guardE (kind = []) (Errorf ''Codex SSE without event type'' [])) (\<lambda>_. Inr kind))"

text \<open>The failure an event reports.\<close>

definition codex_failure :: "instant \<Rightarrow> string \<Rightarrow> sse_event \<Rightarrow> members \<Rightarrow> go_error option" where
  "codex_failure now kind event payload =
     (if kind = ''error'' then Some (codex_ClassifyError (sse_data event) 502 now)
      else if kind = ''response.failed'' then
        Some (case okE (unm dec_map [] (map_of payload ''response'')) of
            Inl e \<Rightarrow> e
          | Inr response \<Rightarrow> codex_ClassifyError (error_document (entry ''error'' response)) 502 now)
      else None)"

text \<open>A delta, and an item that is added or done: does it show something to the client?\<close>

definition codex_delta :: "members \<Rightarrow> go_error + bool" where
  "codex_delta payload = bindE (okE (unm_string (map_of payload ''delta''))) (\<lambda>delta. Inr (delta \<noteq> []))"

definition codex_item :: "string \<Rightarrow> members \<Rightarrow> codex_stream \<Rightarrow> (go_error + bool) \<times> codex_stream" where
  "codex_item kind payload s =
     (case okE (unm (dec_struct codex_item_struct) ([], []) (map_of payload ''item'')) of
        Inl e \<Rightarrow> (Inl e, s)
      | Inr (call, parts) \<Rightarrow>
          (let semantic = (call \<noteq> [] \<or> list_ex (\<lambda>t. t \<noteq> []) parts) in
           if kind = ''response.output_item.done'' then
             (case okE (unm (dec_int 0) 0 (map_of payload ''output_index'')) of
                Inl e \<Rightarrow> (Inl e, s)
              | Inr index \<Rightarrow> (Inr semantic, s\<lparr>cs_items := put index (the (map_of payload ''item'')) (cs_items s)\<rparr>))
           else (Inr semantic, s)))"

text \<open>The end of a response. An output that is missing is put together from the items.\<close>

definition final_output :: "raw_message \<Rightarrow> (int \<times> json) list \<Rightarrow> go_error + json option" where
  "final_output raw items =
     bindE (case raw of
         None \<Rightarrow> Inr None | Some JNull \<Rightarrow> Inr None | Some (JArr js) \<Rightarrow> Inr (Some js) | _ \<Rightarrow> Inl JsonError) (\<lambda>output.
     Inr (if (output = None \<or> output = Some []) \<and> items \<noteq> [] then Some (JArr (map snd (sort_key fst items)))
          else if output = None then Some (JArr []) else None))"

definition check_final :: "instant \<Rightarrow> string \<Rightarrow> members \<Rightarrow> go_error + unit" where
  "check_final now kind response =
     bindE (okE (unm_string (map_of response ''status''))) (\<lambda>status.
     bindE (guardE (kind = ''response.completed'' \<and> status \<noteq> ''completed''
            \<or> kind = ''response.incomplete'' \<and> status \<noteq> ''incomplete'') (Errorf ''Codex final status does not match'' [])) (\<lambda>_.
     let err = map_of response ''error'' in
     bindE (guardE (\<not> raw_absent err) (codex_ClassifyError (error_document err) 502 now)) (\<lambda>_.
     if kind = ''response.incomplete'' then
       bindE (okE (unm (dec_struct (f_string ''reason'')) [] (map_of response ''incomplete_details''))) (\<lambda>reason.
       guardE (reason \<noteq> ''max_output_tokens'' \<and> reason \<noteq> ''content_filter'')
         (Errorf ''Codex response not complete: %s'' [reason]))
     else Inr ())))"

definition object_json :: "members \<Rightarrow> json" where
  "object_json m = marshal (GMap (map (\<lambda>kv. (fst kv, GRaw (snd kv))) m))"

definition codex_final ::
    "instant \<Rightarrow> string \<Rightarrow> string \<Rightarrow> members \<Rightarrow> codex_stream \<Rightarrow> go_error + members \<times> codex_stream" where
  "codex_final now model kind payload s =
     bindE (case map_of payload ''response'' of
         Some (JObj kvs) \<Rightarrow> Inr (object_map kvs)
       | _ \<Rightarrow> Inl (Errorf ''Codex final event without response'' [])) (\<lambda>response.
     bindE (check_final now kind response) (\<lambda>_.
     bindE (final_output (map_of response ''output'') (cs_items s)) (\<lambda>output.
     let response = (case output of None \<Rightarrow> response | Some j \<Rightarrow> put ''output'' j response);
         document = object_json (put ''model'' (JStr model) response)
     in Inr (put ''response'' document payload, s\<lparr>cs_response := print_json document, cs_done := True\<rparr>))))"

text \<open>The response inside any other event gets the client's model name.\<close>

definition rename_response :: "string \<Rightarrow> members \<Rightarrow> go_error + members" where
  "rename_response model payload = (case map_of payload ''response'' of
       None \<Rightarrow> Inr payload
     | Some JNull \<Rightarrow> Inr payload
     | Some (JObj kvs) \<Rightarrow> Inr (put ''response'' (object_json (put ''model'' (JStr model) (object_map kvs))) payload)
     | _ \<Rightarrow> Inl JsonError)"

definition rewritten_event :: "string \<Rightarrow> sse_event \<Rightarrow> members \<Rightarrow> sse_event" where
  "rewritten_event model event payload =
     (let payload = (if map_of payload ''model'' = None then payload else put ''model'' (JStr model) payload);
          data = print_json (object_json payload)
      in event\<lparr>sse_data := data,
               sse_raw := (if sse_name event \<noteq> [] then ''event: '' @ sse_name event @ [LF] else [])
                  @ ''data: '' @ data @ [LF, LF]\<rparr>)"

definition final_kind :: "string \<Rightarrow> bool" where
  "final_kind kind \<longleftrightarrow> kind = ''response.completed'' \<or> kind = ''response.incomplete''"

definition Consume ::
    "instant \<Rightarrow> string \<Rightarrow> sse_event \<Rightarrow> codex_stream \<Rightarrow> (go_error + sse_event \<times> bool) \<times> codex_stream" where
  "Consume now model event s =
     (if trim_space (sse_data event) = [] then (Inr (event, False), s)
      else if cs_done s then (Inl (Errorf ''Codex event after the end'' []), s)
      else case bindE (unmarshal_text (sse_data event)) (\<lambda>j. bindE (okE (dec_map j)) (\<lambda>kvs.
                let payload = object_map kvs in
                bindE (codex_kind event payload) (\<lambda>kind. Inr (kind, payload)))) of
          Inl e \<Rightarrow> (Inl e, s)
        | Inr (kind, payload) \<Rightarrow>
            (case codex_failure now kind event payload of
               Some e \<Rightarrow> (Inl e, s)
             | None \<Rightarrow>
                 if final_kind kind then
                   (case codex_final now model kind payload s of
                      Inl e \<Rightarrow> (Inl e, s)
                    | Inr (payload', s') \<Rightarrow> (Inr (rewritten_event model event payload', False), s'))
                 else
                   (let (shown, s') =
                       (if kind \<in> set delta_kinds then (codex_delta payload, s)
                        else if kind = ''response.output_item.added'' \<or> kind = ''response.output_item.done''
                        then codex_item kind payload s
                        else (Inr False, s))
                    in (bindE shown (\<lambda>semantic. bindE (rename_response model payload) (\<lambda>payload'.
                          Inr (rewritten_event model event payload', semantic))), s'))))"

text \<open>The events of a stream until the end or an error.\<close>

fun consume_all :: "instant \<Rightarrow> string \<Rightarrow> sse_event list \<Rightarrow> codex_stream \<Rightarrow> (go_error + (sse_event \<times> bool) list) \<times> codex_stream" where
  "consume_all now model [] s = (Inr [], s)"
| "consume_all now model (event # events) s =
     (case Consume now model event s of
        (Inl e, s') \<Rightarrow> (Inl e, s')
      | (Inr out, s') \<Rightarrow> (let (r, s'') = consume_all now model events s' in (map_sum id ((#) out) r, s'')))"

end
