(* ===== verification/RouteLoop.thy ===== *)
theory RouteLoop
  imports Breaker GatewayBody CodexStream
begin

text \<open>
  The loop of \<^verbatim>\<open>generateAuthorized\<close> (internal/gateway/handler.go) over the routes of a request,
  with \<^verbatim>\<open>attemptAntigravity\<close> and \<^verbatim>\<open>antigravityFailure\<close> (internal/gateway/antigravity.go). One
  pass of the loop is a function of what the world does during it (an \<open>attempt\<close>: the time, whether
  the log takes the routing event, how the upstream answers, whether the client waits for the next
  try) and of the state that the loop carries. The position counts the calls of an upstream that
  were logged.
\<close>

section \<open>What happens during one pass\<close>

text \<open>
  How the proxy of an answer ends: the client has its answer; the request is recorded already as
  cancelled, or as failed with an error after something was sent; or the answer is not valid and the
  request is not recorded, with or without something sent to the client.
\<close>

datatype relay = Delivered | Recorded "go_error option" | Broken bool go_error

text \<open>
  The outcome of a call of a generic or Codex upstream. \<open>Refuse\<close> is an error before the call, with
  its status and code. The flags of \<open>NoCredential\<close>, \<open>NoAnswer\<close> and \<open>NoBody\<close> say that the client has
  gone. An answer carries the revision of the credential it was made with, whether that credential
  was refreshed for it, and the headers.
\<close>

datatype answer =
    Refuse int string
  | NoCredential bool
  | NoAnswer bool
  | NoBody bool
  | Refused int bool int string header
  | Accepted int bool header relay

text \<open>
  The outcome of a call of Antigravity; \<open>AgClientGone\<close> says whether the upstream was called, \<open>AgRefused\<close>
  and \<open>AgAccepted\<close> carry the revision of the credential, whether it was refreshed, and the headers.
\<close>

datatype ag_answer =
    AgRefuse int
  | AgClientGone bool
  | AgNoCredential
  | AgLogFailed
  | AgNoAnswer
  | AgRefused int bool go_error header
  | AgAccepted int bool header relay

record attempt =
  at_now :: instant
  at_logged :: bool
  at_answer :: answer
  at_ag_answer :: ag_answer
  at_waited :: bool

section \<open>The state of the loop\<close>

record routing_event =
  ev_candidate :: int
  ev_key :: int
  ev_skipped :: bool

record serving =
  sv_index :: nat
  sv_position :: nat
  sv_waits :: nat
  sv_oauth :: "int \<Rightarrow> int"
  sv_invalid :: bool
  sv_breaker :: breaker
  sv_store :: store
  sv_events :: "routing_event list"

text \<open>How a request ends: answered, recorded by a proxy, given up by the client, or an error.\<close>

datatype final = Answered | ProxyRecorded | Abandoned | Failed int string

definition first_serving :: "breaker \<Rightarrow> store \<Rightarrow> serving" where
  "first_serving b s = \<lparr>sv_index = 0, sv_position = 0, sv_waits = 0, sv_oauth = (\<lambda>_. 0), sv_invalid = False,
     sv_breaker = b, sv_store = s, sv_events = []\<rparr>"

section \<open>Steps\<close>

text \<open>The index of the last route of the candidate at hand.\<close>

function skipCandidate :: "resolved_route list \<Rightarrow> nat \<Rightarrow> int \<Rightarrow> nat" where
  "skipCandidate routes index cid =
     (if index + 1 < length routes \<and> CandidateID (routes ! (index + 1)) = cid
      then skipCandidate routes (index + 1) cid else index)"
  by pat_completeness auto
termination by (relation "measure (\<lambda>(routes, index, cid). length routes - index)") auto

declare skipCandidate.simps [simp del]

type_synonym control = "serving + (final \<times> serving)"

definition next_route :: "nat \<Rightarrow> serving \<Rightarrow> control" where
  "next_route index s = Inl (s\<lparr>sv_index := index + 1\<rparr>)"

text \<open>\<^verbatim>\<open>waitBeforeRetry\<close> and the next pass.\<close>

definition wait_next :: "resolved_route list \<Rightarrow> attempt \<Rightarrow> nat \<Rightarrow> serving \<Rightarrow> control" where
  "wait_next routes a index s =
     (if index + 1 < length routes then
        (let s = s\<lparr>sv_waits := sv_waits s + 1\<rparr> in
         if at_waited a then next_route index s else Inr (Abandoned, s))
      else next_route index s)"

definition finish_with :: "final \<Rightarrow> serving \<Rightarrow> control" where
  "finish_with f s = Inr (f, s)"

text \<open>The same route again, with the revision that was rejected.\<close>

definition retry_oauth :: "resolved_route \<Rightarrow> int \<Rightarrow> serving \<Rightarrow> control" where
  "retry_oauth route revn s = Inl (s\<lparr>sv_oauth := (sv_oauth s)(key_id (Key route) := revn)\<rparr>)"

definition report_ready :: "resolved_route \<Rightarrow> serving \<Rightarrow> serving" where
  "report_ready route s = s\<lparr>sv_breaker := candidateSucceeded (CandidateID route) (CandidateRevision route) (sv_breaker s)\<rparr>"

definition report_failed :: "attempt \<Rightarrow> resolved_route \<Rightarrow> serving \<Rightarrow> serving" where
  "report_failed a route s =
     s\<lparr>sv_breaker := candidateFailed (at_now a) (CandidateID route) (CandidateRevision route) (sv_breaker s)\<rparr>"

text \<open>\<^verbatim>\<open>MarkModelCandidate\<close>: the caches are dropped when a row has changed.\<close>

definition mark_candidate :: "resolved_route \<Rightarrow> string \<Rightarrow> store \<Rightarrow> (store_error + unit) \<times> store" where
  "mark_candidate route reason s =
     (case MarkModelCandidate (CandidateID route) (CandidateRevision route) ''config_error'' reason (store_db s) of
        Inl e \<Rightarrow> (Inl e, s)
      | Inr d \<Rightarrow> (Inr (),
          (if some_row (\<lambda>d. d_id d = CandidateID route \<and> d_revision d = CandidateRevision route) (model_candidates (store_db s))
           then invalidateConfig (s\<lparr>store_db := d\<rparr>) else s\<lparr>store_db := d\<rparr>)))"

definition on_store :: "(store \<Rightarrow> (store_error + unit) \<times> store) \<Rightarrow> serving \<Rightarrow> (store_error + unit) \<times> serving" where
  "on_store f s = (let (r, st) = f (sv_store s) in (r, s\<lparr>sv_store := st\<rparr>))"

text \<open>The route with the revision of the credential that was used.\<close>

definition with_revision :: "resolved_route \<Rightarrow> int \<Rightarrow> resolved_route" where
  "with_revision route revn = route\<lparr>Key := (Key route)\<lparr>key_revision := revn\<rparr>\<rparr>"

definition missing_model :: "string \<Rightarrow> bool" where
  "missing_model code \<longleftrightarrow> code = ''model_not_found'' \<or> code = ''model_not_supported''"

subsection \<open>An upstream that refuses\<close>

definition refused ::
    "(string \<Rightarrow> instant option) \<Rightarrow> resolved_route list \<Rightarrow> bool \<Rightarrow> attempt \<Rightarrow> resolved_route \<Rightarrow> int \<Rightarrow> bool \<Rightarrow> int \<Rightarrow> string \<Rightarrow>
     header \<Rightarrow> serving \<Rightarrow> control" where
  "refused parse_time routes codex a route revn refreshed status body h s =
     (let last_index = skipCandidate routes (sv_index s) (CandidateID route); code = extractErrorCode body in
      if codex \<and> status = 401 \<and> \<not> refreshed \<and> sv_oauth s (key_id (Key route)) = 0 then retry_oauth route revn s
      else (let (r, s) = (if codex then
                (case codex_ClassifyError body status (at_now a) of
                   Upstream st c m recover \<Rightarrow> on_store (updateCodexKeyAfterError parse_time (at_now a) route st c recover h) s
                 | _ \<Rightarrow> (Inr (), s))
              else (Inr (), s))
        in case r of
          Inl e \<Rightarrow> finish_with (Failed 500 ''gateway_error'') s
        | Inr _ \<Rightarrow>
            if missing_model code then
              wait_next routes a last_index (report_ready route (snd (on_store (mark_candidate route code) s)))
            else if shouldTryNextKey status then
              (let s = report_ready route s;
                   s = (if codex then s else s\<lparr>sv_store := updateKeyAfterError parse_time (at_now a) route status body h (sv_store s)\<rparr>)
               in wait_next routes a (sv_index s) s)
            else if 500 \<le> status then wait_next routes a last_index (report_failed a route s)
            else finish_with (Failed status ''upstream_error'') (report_ready route s)))"

subsection \<open>An upstream that accepts\<close>

text \<open>A Codex stream that fails after its first content counts against the key and the candidate.\<close>

definition codex_recorded ::
    "(string \<Rightarrow> instant option) \<Rightarrow> bool \<Rightarrow> attempt \<Rightarrow> resolved_route \<Rightarrow> header \<Rightarrow> go_error option \<Rightarrow> serving \<Rightarrow> serving" where
  "codex_recorded parse_time codex a route h failure s =
     (case failure of
        None \<Rightarrow> s
      | Some err \<Rightarrow>
          if \<not> codex then s
          else report_failed a route (case err of
              Upstream status code m recover \<Rightarrow>
                snd (on_store (updateCodexKeyAfterError parse_time (at_now a) route status code recover h) s)
            | _ \<Rightarrow> s))"

text \<open>An error inside the stream of a Codex answer of which nothing has been sent.\<close>

definition codex_broken ::
    "(string \<Rightarrow> instant option) \<Rightarrow> resolved_route list \<Rightarrow> attempt \<Rightarrow> resolved_route \<Rightarrow> int \<Rightarrow> bool \<Rightarrow> int \<Rightarrow> string \<Rightarrow>
     instant option \<Rightarrow> header \<Rightarrow> serving \<Rightarrow> control" where
  "codex_broken parse_time routes a route revn refreshed status code recover h s =
     (let last_index = skipCandidate routes (sv_index s) (CandidateID route) in
      if status = 401 \<and> \<not> refreshed \<and> sv_oauth s (key_id (Key route)) = 0 then retry_oauth route revn s
      else (let (r, s) = on_store (updateCodexKeyAfterError parse_time (at_now a) route status code recover h) s in
        case r of
          Inl e \<Rightarrow> finish_with (Failed 500 ''gateway_error'') s
        | Inr _ \<Rightarrow>
            if missing_model code then
              (let (r, s) = on_store (mark_candidate route code) s in
               case r of
                 Inl e \<Rightarrow> finish_with (Failed 500 ''gateway_error'') s
               | Inr _ \<Rightarrow> wait_next routes a last_index (report_failed a route s))
            else if shouldTryNextKey status then wait_next routes a (sv_index s) (report_ready route s)
            else if status < 500 then finish_with (Failed status ''upstream_error'') s
            else wait_next routes a last_index (report_failed a route s)))"

definition accepted ::
    "(string \<Rightarrow> instant option) \<Rightarrow> resolved_route list \<Rightarrow> bool \<Rightarrow> attempt \<Rightarrow> resolved_route \<Rightarrow> int \<Rightarrow> bool \<Rightarrow>
     header \<Rightarrow> relay \<Rightarrow> serving \<Rightarrow> control" where
  "accepted parse_time routes codex a route revn refreshed h relay s =
     (let s = snd (on_store (TouchUpstreamKey (at_now a) (key_id (Key route))) s);
          last_index = skipCandidate routes (sv_index s) (CandidateID route)
      in case relay of
        Recorded failure \<Rightarrow> finish_with ProxyRecorded (codex_recorded parse_time codex a route h failure s)
      | Delivered \<Rightarrow>
          if codex then (let (r, s) = on_store (mark_key route (Some (''available'', [], None))) s in
            case r of Inl e \<Rightarrow> finish_with ProxyRecorded s | Inr _ \<Rightarrow> finish_with Answered (report_ready route s))
          else finish_with Answered (report_ready route s)
      | Broken committed err \<Rightarrow>
          (let s = s\<lparr>sv_invalid := True\<rparr> in
           if \<not> codex then wait_next routes a last_index s
           else if committed then finish_with (Failed 502 ''upstream_error'') s
           else (case err of
               Upstream status code m recover \<Rightarrow> codex_broken parse_time routes a route revn refreshed status code recover h s
             | _ \<Rightarrow> wait_next routes a last_index (report_failed a route s))))"

definition call_upstream ::
    "(string \<Rightarrow> instant option) \<Rightarrow> resolved_route list \<Rightarrow> attempt \<Rightarrow> resolved_route \<Rightarrow> serving \<Rightarrow> control" where
  "call_upstream parse_time routes a route s =
     (let codex = (prov_kind (Provider route) = ProviderCodexOAuth);
          called = s\<lparr>sv_position := sv_position s + 1\<rparr>;
          with_key = (\<lambda>revn. if codex then with_revision route revn else route)
      in case at_answer a of
        Refuse status code \<Rightarrow> finish_with (Failed status code) s
      | NoCredential gone \<Rightarrow>
          if gone then finish_with Abandoned s else next_route (sv_index s) (s\<lparr>sv_invalid := True\<rparr>)
      | NoAnswer gone \<Rightarrow>
          if gone then finish_with Abandoned called
          else wait_next routes a (skipCandidate routes (sv_index s) (CandidateID route)) (report_failed a route called)
      | NoBody gone \<Rightarrow>
          if codex \<and> gone then finish_with Abandoned called else wait_next routes a (sv_index s) called
      | Refused revn refreshed status body h \<Rightarrow>
          refused parse_time routes codex a (with_key revn) revn refreshed status body h called
      | Accepted revn refreshed h relay \<Rightarrow>
          accepted parse_time routes codex a (with_key revn) revn refreshed h relay called)"

section \<open>Antigravity\<close>

record ag_result =
  agr_final :: "final option"
  agr_status :: int
  agr_next_key :: bool
  agr_retry :: int

definition ag_error :: ag_result where
  "ag_error = \<lparr>agr_final = None, agr_status = 0, agr_next_key = False, agr_retry = 0\<rparr>"

definition mark_model :: "resolved_route \<Rightarrow> string \<Rightarrow> instant \<Rightarrow> store \<Rightarrow> (store_error + unit) \<times> store" where
  "mark_model route code until s =
     (case MarkAntigravityModel (key_id (Key route)) (key_revision (Key route)) (UpstreamModel route) code until (store_db s) of
        Inl e \<Rightarrow> (Inl e, s) | Inr d \<Rightarrow> (Inr (), s\<lparr>store_db := d\<rparr>))"

definition ag_missing_model :: "string \<Rightarrow> bool" where
  "ag_missing_model code \<longleftrightarrow> code = ''MODEL_NOT_FOUND'' \<or> code = ''MODEL_NOT_SUPPORTED''"

definition antigravityFailure ::
    "(string \<Rightarrow> instant option) \<Rightarrow> instant \<Rightarrow> resolved_route \<Rightarrow> int \<Rightarrow> string \<Rightarrow> instant option \<Rightarrow> header \<Rightarrow>
     bool \<Rightarrow> int \<Rightarrow> store \<Rightarrow> ag_result \<times> store" where
  "antigravityFailure parse_time now route status code recover h refreshed rejected s =
     (if status = 401 \<and> \<not> refreshed \<and> rejected = 0 then (ag_error\<lparr>agr_retry := key_revision (Key route)\<rparr>, s)
      else (let (r, s) =
          (if status = 401 then mark_key route (Some (''auth_invalid'', code, None)) s
           else if status = 429 then
             mark_model route code (case recover of
                 Some t \<Rightarrow> t
               | None \<Rightarrow> (case parseRetryAfter parse_time (header_get h ''Retry-After'') now of
                     Some t \<Rightarrow> t | None \<Rightarrow> now + 60 * second)) s
           else if ag_missing_model code then mark_candidate route code s
           else (Inr (), s))
        in case r of
          Inl e \<Rightarrow> (ag_error\<lparr>agr_status := 500\<rparr>, s)
        | Inr _ \<Rightarrow>
            if shouldTryNextKey status then (ag_error\<lparr>agr_next_key := True\<rparr>, s)
            else if ag_missing_model code \<or> 500 \<le> status then (ag_error, s)
            else (ag_error\<lparr>agr_status := status\<rparr>, s)))"

definition ag_failure ::
    "(string \<Rightarrow> instant option) \<Rightarrow> attempt \<Rightarrow> resolved_route \<Rightarrow> go_error \<Rightarrow> header \<Rightarrow> bool \<Rightarrow> int \<Rightarrow> serving \<Rightarrow> ag_result \<times> serving" where
  "ag_failure parse_time a route err h refreshed rejected s =
     (case err of
        Upstream status code m recover \<Rightarrow>
          (let (r, st) = antigravityFailure parse_time (at_now a) route status code recover h refreshed rejected (sv_store s)
           in (r, s\<lparr>sv_store := st\<rparr>))
      | _ \<Rightarrow> (ag_error, s))"

definition attemptAntigravity ::
    "(string \<Rightarrow> instant option) \<Rightarrow> attempt \<Rightarrow> resolved_route \<Rightarrow> serving \<Rightarrow> ag_result \<times> serving" where
  "attemptAntigravity parse_time a route s =
     (let rejected = sv_oauth s (key_id (Key route)); called = s\<lparr>sv_position := sv_position s + 1\<rparr> in
      case at_ag_answer a of
        AgRefuse status \<Rightarrow> (ag_error\<lparr>agr_status := status\<rparr>, s)
      | AgClientGone c \<Rightarrow> (ag_error\<lparr>agr_final := Some Abandoned\<rparr>, if c then called else s)
      | AgNoCredential \<Rightarrow> (ag_error\<lparr>agr_next_key := True\<rparr>, s)
      | AgLogFailed \<Rightarrow> (ag_error\<lparr>agr_status := 500\<rparr>, called)
      | AgNoAnswer \<Rightarrow> (ag_error, called)
      | AgRefused revn refreshed err h \<Rightarrow> ag_failure parse_time a (with_revision route revn) err h refreshed rejected called
      | AgAccepted revn refreshed h relay \<Rightarrow>
          (let route = with_revision route revn;
               s = snd (on_store (TouchUpstreamKey (at_now a) (key_id (Key route))) called) in
           case relay of
             Delivered \<Rightarrow> (ag_error\<lparr>agr_final := Some Answered\<rparr>, report_ready route s)
           | Recorded failure \<Rightarrow> (ag_error\<lparr>agr_final := Some ProxyRecorded\<rparr>,
               (case failure of None \<Rightarrow> s | Some err \<Rightarrow> snd (ag_failure parse_time a route err h True revn s)))
           | Broken committed err \<Rightarrow> ag_failure parse_time a route err h refreshed rejected s))"

definition call_antigravity ::
    "(string \<Rightarrow> instant option) \<Rightarrow> resolved_route list \<Rightarrow> attempt \<Rightarrow> resolved_route \<Rightarrow> serving \<Rightarrow> control" where
  "call_antigravity parse_time routes a route s =
     (let (r, s) = attemptAntigravity parse_time a route s in
      case agr_final r of
        Some f \<Rightarrow> finish_with f s
      | None \<Rightarrow>
          if agr_status r \<noteq> 0 then finish_with (Failed (agr_status r) ''antigravity_error'') s
          else (let s = s\<lparr>sv_invalid := True\<rparr> in
            if agr_retry r \<noteq> 0 then retry_oauth route (agr_retry r) s
            else if agr_next_key r then wait_next routes a (sv_index s) (report_ready route s)
            else wait_next routes a (skipCandidate routes (sv_index s) (CandidateID route)) (report_failed a route s)))"

section \<open>The loop\<close>

definition first_of_candidate :: "resolved_route list \<Rightarrow> nat \<Rightarrow> bool" where
  "first_of_candidate routes index \<longleftrightarrow>
     index = 0 \<or> CandidateID (routes ! (index - 1)) \<noteq> CandidateID (routes ! index)"

definition log_event :: "attempt \<Rightarrow> resolved_route \<Rightarrow> bool \<Rightarrow> serving \<Rightarrow> serving" where
  "log_event a route skipped s =
     (if at_logged a then s\<lparr>sv_events := sv_events s
        @ [\<lparr>ev_candidate = CandidateID route, ev_key = key_id (Key route), ev_skipped = skipped\<rparr>]\<rparr> else s)"

definition loop_end :: "serving \<Rightarrow> final" where
  "loop_end s = (if sv_invalid s then Failed 502 ''invalid_upstream_response'' else Failed 503 ''upstream_unavailable'')"

definition loop_pass ::
    "(string \<Rightarrow> instant option) \<Rightarrow> resolved_route list \<Rightarrow> attempt \<Rightarrow> serving \<Rightarrow> control" where
  "loop_pass parse_time routes a s =
     (if length routes \<le> sv_index s then finish_with (loop_end s) s
      else (let route = routes ! sv_index s;
                (ready, b) = (if first_of_candidate routes (sv_index s)
                  then candidateReady (at_now a) (CandidateID route) (CandidateRevision route) (sv_breaker s)
                  else (True, sv_breaker s));
                s = log_event a route (\<not> ready) (s\<lparr>sv_breaker := b\<rparr>)
            in if \<not> at_logged a then finish_with (Failed 500 ''logging_error'') s
               else if \<not> ready then next_route (skipCandidate routes (sv_index s) (CandidateID route)) s
               else if prov_kind (Provider route) = ProviderAntigravityOAuth then call_antigravity parse_time routes a route s
               else call_upstream parse_time routes a route s))"

text \<open>The loop in a world that is given pass by pass. \<open>None\<close> would be a loop that does not end.\<close>

partial_function (option) route_loop ::
    "(string \<Rightarrow> instant option) \<Rightarrow> resolved_route list \<Rightarrow> (nat \<Rightarrow> attempt) \<Rightarrow> nat \<Rightarrow> serving \<Rightarrow> (final \<times> serving) option" where
  "route_loop parse_time routes world n s =
     (case loop_pass parse_time routes (world n) s of
        Inr r \<Rightarrow> Some r
      | Inl s' \<Rightarrow> route_loop parse_time routes world (n + 1) s')"

declare route_loop.simps [code]

end
