(* ===== verification/RouteLaws.thy ===== *)
theory RouteLaws
  imports RouteLoop
begin

text \<open>
  Laws of the route loop: every pass ends the request, goes on to a later route, or repeats the
  route once for an OAuth key that has not been retried yet. So the loop ends, the calls of an
  upstream are bounded, and the routing events are in the order of the routes.
\<close>

section \<open>What a pass keeps\<close>

text \<open>The part of the state only the loop's own control touches.\<close>

definition cursor :: "serving \<Rightarrow> nat \<times> nat \<times> (int \<Rightarrow> int) \<times> routing_event list" where
  "cursor s = (sv_index s, sv_position s, sv_oauth s, sv_events s)"

named_theorems cursor_simps \<open>steps that keep the cursor of the loop\<close>

lemma cursor_eq [cursor_simps]:
  "cursor s = cursor s' \<longleftrightarrow> sv_index s = sv_index s' \<and> sv_position s = sv_position s' \<and> sv_oauth s = sv_oauth s'
     \<and> sv_events s = sv_events s'"
  by (auto simp: cursor_def)

lemma report_cursor [cursor_simps]:
  "sv_index (report_ready r s) = sv_index s" "sv_index (report_failed a r s) = sv_index s"
  "sv_position (report_ready r s) = sv_position s" "sv_position (report_failed a r s) = sv_position s"
  "sv_oauth (report_ready r s) = sv_oauth s" "sv_oauth (report_failed a r s) = sv_oauth s"
  "sv_events (report_ready r s) = sv_events s" "sv_events (report_failed a r s) = sv_events s"
  by (simp_all add: report_ready_def report_failed_def)

lemma on_store_cursor [cursor_simps]:
  "sv_index (snd (on_store f s)) = sv_index s" "sv_position (snd (on_store f s)) = sv_position s"
  "sv_oauth (snd (on_store f s)) = sv_oauth s" "sv_events (snd (on_store f s)) = sv_events s"
  by (simp_all add: on_store_def split: prod.splits)

lemma codex_recorded_cursor [cursor_simps]:
  "sv_index (codex_recorded pt c a r h f s) = sv_index s" "sv_position (codex_recorded pt c a r h f s) = sv_position s"
  "sv_oauth (codex_recorded pt c a r h f s) = sv_oauth s" "sv_events (codex_recorded pt c a r h f s) = sv_events s"
  by (simp_all add: codex_recorded_def cursor_simps split: option.splits go_error.splits)

lemma ag_failure_cursor [cursor_simps]:
  "sv_index (snd (ag_failure pt a r e h rf rj s)) = sv_index s"
  "sv_position (snd (ag_failure pt a r e h rf rj s)) = sv_position s"
  "sv_oauth (snd (ag_failure pt a r e h rf rj s)) = sv_oauth s"
  "sv_events (snd (ag_failure pt a r e h rf rj s)) = sv_events s"
  by (simp_all add: ag_failure_def split: go_error.splits prod.splits)

lemma skipCandidate_ge: "i \<le> skipCandidate routes i cid"
proof (induction routes i cid rule: skipCandidate.induct)
  case (1 routes i cid)
  then show ?case by (subst skipCandidate.simps) auto
qed

lemma skipCandidate_less: "i < length routes \<Longrightarrow> skipCandidate routes i cid < length routes"
proof (induction routes i cid rule: skipCandidate.induct)
  case (1 routes i cid)
  then show ?case by (subst skipCandidate.simps) auto
qed

section \<open>One pass\<close>

definition key_at :: "resolved_route list \<Rightarrow> nat \<Rightarrow> int" where
  "key_at routes i = key_id (Key (routes ! i))"

definition forward :: "resolved_route list \<Rightarrow> serving \<Rightarrow> serving \<Rightarrow> bool" where
  "forward routes s s' \<longleftrightarrow> sv_position s' \<le> sv_position s + 1 \<and> sv_events s' = sv_events s
     \<and> (sv_oauth s' = sv_oauth s \<and> sv_index s < sv_index s'
        \<or> sv_oauth s (key_at routes (sv_index s)) = 0 \<and> sv_index s' = sv_index s
          \<and> (\<exists>revn. revn \<noteq> 0 \<and> sv_oauth s' = (sv_oauth s)(key_at routes (sv_index s) := revn)))"

text \<open>A control goes forward, and an end has called an upstream at most once more.\<close>

definition goes_forward :: "resolved_route list \<Rightarrow> serving \<Rightarrow> control \<Rightarrow> bool" where
  "goes_forward routes s c \<longleftrightarrow> (case c of
       Inl s' \<Rightarrow> forward routes s s'
     | Inr (f, s') \<Rightarrow> sv_position s' \<le> sv_position s + 1 \<and> sv_events s' = sv_events s)"

definition same_place :: "serving \<Rightarrow> serving \<Rightarrow> bool" where
  "same_place s t \<longleftrightarrow> sv_index t = sv_index s \<and> sv_oauth t = sv_oauth s \<and> sv_events t = sv_events s
     \<and> sv_position t \<le> sv_position s + 1"

lemma next_route_forward:
  "same_place s t \<Longrightarrow> sv_index s \<le> i \<Longrightarrow> goes_forward routes s (next_route i t)"
  by (simp add: goes_forward_def forward_def next_route_def same_place_def)

lemma wait_next_forward:
  "same_place s t \<Longrightarrow> sv_index s \<le> i \<Longrightarrow> goes_forward routes s (wait_next routes a i t)"
  by (simp add: goes_forward_def forward_def wait_next_def next_route_def same_place_def Let_def)

lemma finish_forward: "same_place s t \<Longrightarrow> goes_forward routes s (finish_with f t)"
  by (simp add: goes_forward_def finish_with_def same_place_def)

lemma retry_forward:
  "same_place s t \<Longrightarrow> key_id (Key route) = key_at routes (sv_index s) \<Longrightarrow>
   sv_oauth s (key_at routes (sv_index s)) = 0 \<Longrightarrow> revn \<noteq> 0 \<Longrightarrow> goes_forward routes s (retry_oauth route revn t)"
  by (auto simp: goes_forward_def forward_def retry_oauth_def same_place_def)

lemma same_place_simps [simp]:
  "same_place s (report_ready r t) = same_place s t" "same_place s (report_failed a r t) = same_place s t"
  "same_place s (snd (on_store f t)) = same_place s t" "same_place s (t\<lparr>sv_invalid := b\<rparr>) = same_place s t"
  "same_place s (t\<lparr>sv_store := st\<rparr>) = same_place s t" "same_place s (codex_recorded pt c a r h err t) = same_place s t"
  "same_place s (snd (ag_failure pt a r e h rf rj t)) = same_place s t"
  "same_place s s" "same_place s (s\<lparr>sv_position := sv_position s + 1\<rparr>)"
  by (simp_all add: same_place_def cursor_simps)

lemma same_place_on_store: "on_store f t = (r, u) \<Longrightarrow> same_place s u = same_place s t"
  using same_place_simps(3) [of s f t] by simp

lemmas forward_intros = next_route_forward wait_next_forward finish_forward retry_forward

text \<open>The revisions of the credentials that answers report.\<close>

definition revisions_known :: "attempt \<Rightarrow> bool" where
  "revisions_known a \<longleftrightarrow> (case at_answer a of
       Refused revn _ _ _ _ \<Rightarrow> revn \<noteq> 0 | Accepted revn _ _ _ \<Rightarrow> revn \<noteq> 0 | _ \<Rightarrow> True)"

lemma refused_forward:
  assumes "same_place s t" "key_id (Key route) = key_at routes (sv_index s)" "revn \<noteq> 0"
  shows "goes_forward routes s (refused pt routes codex a route revn refreshed status body h t)"
proof -
  have at: "sv_index t = sv_index s" "sv_oauth t = sv_oauth s" using assms(1) by (simp_all add: same_place_def)
  have last: "sv_index s \<le> skipCandidate routes (sv_index s) (CandidateID route)" by (rule skipCandidate_ge)
  let ?update = "if codex then
      (case codex_ClassifyError body status (at_now a) of
         Upstream st c m recover \<Rightarrow> on_store (updateCodexKeyAfterError pt (at_now a) route st c recover h) t
       | _ \<Rightarrow> (Inr (), t))
    else (Inr (), t)"
  obtain r u where ru: "?update = (r, u)" by (metis surj_pair)
  then have u: "same_place s u"
    using assms(1) by (auto simp: same_place_on_store split: if_splits go_error.splits)
  then have at': "sv_index u = sv_index s" by (simp add: same_place_def)
  show ?thesis
    unfolding refused_def Let_def ru prod.case
    using assms last u by (auto simp: at at' cursor_simps intro!: forward_intros split: sum.splits)
qed


lemma forward_on_store:
  assumes "same_place s t" "\<And>r u. same_place s u \<Longrightarrow> goes_forward routes s (k r u)"
  shows "goes_forward routes s (let (r, u) = on_store f t in k r u)"
  using assms by (auto simp: Let_def same_place_on_store split: prod.splits)

lemma same_place_cursor: "same_place s t \<Longrightarrow> sv_index t = sv_index s \<and> sv_oauth t = sv_oauth s"
  by (simp add: same_place_def)

lemma called_place [simp]: "same_place s (s\<lparr>sv_position := Suc (sv_position s)\<rparr>)"
  by (simp add: same_place_def)

lemma codex_broken_forward:
  assumes t: "same_place s t" and key: "key_id (Key route) = key_at routes (sv_index s)" "revn \<noteq> 0"
  shows "goes_forward routes s (codex_broken pt routes a route revn refreshed status code recover h t)"
proof -
  have last: "sv_index s \<le> skipCandidate routes (sv_index s) (CandidateID route)" by (rule skipCandidate_ge)
  obtain r u where u: "on_store (updateCodexKeyAfterError pt (at_now a) route status code recover h) t = (r, u)"
    by (metis surj_pair)
  then have su: "same_place s u" using t by (simp add: same_place_on_store)
  obtain r' w where w: "on_store (mark_candidate route code) u = (r', w)" by (metis surj_pair)
  then have sw: "same_place s w" using su by (simp add: same_place_on_store)
  note at = same_place_cursor [OF t] same_place_cursor [OF su]
  show ?thesis
    unfolding codex_broken_def Let_def u w prod.case
    using t su sw key last by (auto simp: at cursor_simps w intro!: forward_intros split: sum.splits)
qed

lemma accepted_forward:
  assumes t: "same_place s t" and key: "key_id (Key route) = key_at routes (sv_index s)" "revn \<noteq> 0"
  shows "goes_forward routes s (accepted pt routes codex a route revn refreshed h relay t)"
proof -
  define u where "u = snd (on_store (TouchUpstreamKey (at_now a) (key_id (Key route))) t)"
  have u: "same_place s u" using t by (simp add: u_def)
  obtain r w where w: "on_store (mark_key route (Some (''available'', [], None))) u = (r, w)" by (metis surj_pair)
  then have sw: "same_place s w" using u by (simp add: same_place_on_store)
  have last: "sv_index s \<le> skipCandidate routes (sv_index s) (CandidateID route)" by (rule skipCandidate_ge)
  have invalid: "same_place s (u\<lparr>sv_invalid := True\<rparr>)" using u by simp
  show ?thesis
    unfolding accepted_def Let_def u_def [symmetric] w prod.case
    using u sw invalid last same_place_cursor [OF u]
    by (cases relay) (auto intro!: forward_intros codex_broken_forward [OF invalid key] split: sum.splits go_error.splits)
qed

lemma call_upstream_forward:
  assumes "revisions_known a"
  shows "goes_forward routes s (call_upstream pt routes a (routes ! sv_index s) s)"
proof -
  let ?route = "routes ! sv_index s" let ?called = "s\<lparr>sv_position := sv_position s + 1\<rparr>"
  have keys: "key_id (Key ?route) = key_at routes (sv_index s)"
    "key_id (Key (with_revision ?route revn)) = key_at routes (sv_index s)" for revn
    by (simp_all add: key_at_def with_revision_def)
  have last: "sv_index s \<le> skipCandidate routes (sv_index s) cid" for cid by (rule skipCandidate_ge)
  have called: "same_place s ?called" by simp
  show ?thesis
    using assms last called
    by (cases "at_answer a")
      (auto simp: call_upstream_def revisions_known_def keys Let_def
        intro!: forward_intros refused_forward [OF called_place] accepted_forward [OF called_place])
qed

lemma attemptAntigravity_place: "same_place s (snd (attemptAntigravity pt a route s))"
proof (cases "at_ag_answer a")
  case (AgAccepted revn refreshed h relay)
  then show ?thesis by (cases relay) (simp_all add: attemptAntigravity_def Let_def split: option.splits)
qed (simp_all add: attemptAntigravity_def Let_def)

lemma antigravityFailure_retry:
  "agr_retry (fst (antigravityFailure pt now route st c rc h rf rj s)) \<noteq> 0 \<Longrightarrow> rj = 0"
  by (auto simp: antigravityFailure_def ag_error_def Let_def split: if_splits prod.splits sum.splits)

lemma ag_failure_retry: "agr_retry (fst (ag_failure pt a route e h rf rj s)) \<noteq> 0 \<Longrightarrow> rj = 0"
proof (cases e)
  case (Upstream st c m rc)
  then show "agr_retry (fst (ag_failure pt a route e h rf rj s)) \<noteq> 0 \<Longrightarrow> rj = 0"
    using antigravityFailure_retry [of pt "at_now a" route st c rc h rf rj "sv_store s"]
    by (simp add: ag_failure_def split: prod.splits)
qed (simp_all add: ag_failure_def ag_error_def)

lemma attemptAntigravity_retry:
  assumes "agr_retry (fst (attemptAntigravity pt a route s)) \<noteq> 0"
  shows "sv_oauth s (key_id (Key route)) = 0"
proof (cases "at_ag_answer a")
  case (AgRefused revn refreshed err h)
  with assms show ?thesis by (auto simp: attemptAntigravity_def Let_def dest: ag_failure_retry)
next
  case (AgAccepted revn refreshed h relay)
  with assms show ?thesis
    by (cases relay) (auto simp: attemptAntigravity_def Let_def ag_error_def dest: ag_failure_retry)
qed (use assms in \<open>simp_all add: attemptAntigravity_def Let_def ag_error_def\<close>)

lemma call_antigravity_forward: "goes_forward routes s (call_antigravity pt routes a (routes ! sv_index s) s)"
proof -
  let ?route = "routes ! sv_index s"
  obtain r t where rt: "attemptAntigravity pt a ?route s = (r, t)" by (metis surj_pair)
  have t: "same_place s t" using attemptAntigravity_place [of s pt a ?route] rt by simp
  then have place: "sv_index t = sv_index s" by (simp add: same_place_def)
  have retry: "agr_retry r \<noteq> 0 \<Longrightarrow> sv_oauth s (key_at routes (sv_index s)) = 0"
    using attemptAntigravity_retry [of pt a ?route s] rt by (simp add: key_at_def)
  have last: "sv_index s \<le> skipCandidate routes (sv_index s) (CandidateID ?route)" by (rule skipCandidate_ge)
  show ?thesis
    using t place retry last
    by (auto simp: call_antigravity_def rt Let_def key_at_def [symmetric] cursor_simps
        intro!: forward_intros split: option.splits)
qed

text \<open>A pass: one routing event for the route at hand, and then forward.\<close>

definition event_for :: "resolved_route list \<Rightarrow> nat \<Rightarrow> routing_event \<Rightarrow> bool" where
  "event_for routes i e \<longleftrightarrow> ev_candidate e = CandidateID (routes ! i) \<and> ev_key e = key_at routes i"

text \<open>What is still to be done: the routes ahead and the keys that have not been retried.\<close>

definition keys_of :: "resolved_route list \<Rightarrow> int set" where
  "keys_of routes = (\<lambda>r. key_id (Key r)) ` set routes"

definition budget :: "resolved_route list \<Rightarrow> serving \<Rightarrow> nat" where
  "budget routes s = (length routes - sv_index s) + card {k \<in> keys_of routes. sv_oauth s k = 0}"

lemma forward_budget:
  assumes "forward routes s s'" "sv_index s < length routes"
  shows "budget routes s' < budget routes s"
proof -
  let ?open = "\<lambda>s. {k \<in> keys_of routes. sv_oauth s k = 0}"
  have fin: "finite (keys_of routes)" by (simp add: keys_of_def)
  from assms(1) consider "sv_oauth s' = sv_oauth s" "sv_index s < sv_index s'"
    | revn where "sv_oauth s (key_at routes (sv_index s)) = 0" "sv_index s' = sv_index s" "revn \<noteq> 0"
        "sv_oauth s' = (sv_oauth s)(key_at routes (sv_index s) := revn)"
    by (auto simp: forward_def)
  then show ?thesis
  proof cases
    case 1
    with assms(2) show ?thesis by (simp add: budget_def)
  next
    case (2 revn)
    have "key_at routes (sv_index s) \<in> ?open s"
      using 2(1) assms(2) by (auto simp: key_at_def keys_of_def)
    moreover have "?open s' \<subseteq> ?open s" "key_at routes (sv_index s) \<notin> ?open s'"
      using 2 by (auto split: if_splits)
    ultimately have "?open s' \<subset> ?open s" by blast
    then have "card (?open s') < card (?open s)"
      by (rule psubset_card_mono [rotated]) (simp add: fin)
    with 2 show ?thesis by (simp add: budget_def)
  qed
qed

lemma loop_pass_cases:
  assumes "revisions_known a" "sv_index s < length routes"
  obtains e t where "goes_forward routes t (loop_pass pt routes a s)"
    "sv_index t = sv_index s" "sv_oauth t = sv_oauth s" "sv_position t = sv_position s"
    "sv_events t = sv_events s @ e" "e = [] \<or> (\<exists>x. e = [x] \<and> event_for routes (sv_index s) x)"
proof -
  let ?route = "routes ! sv_index s"
  obtain ready b where rb: "(if first_of_candidate routes (sv_index s)
      then candidateReady (at_now a) (CandidateID ?route) (CandidateRevision ?route) (sv_breaker s)
      else (True, sv_breaker s)) = (ready, b)" by (metis surj_pair)
  define t where "t = log_event a ?route (\<not> ready) (s\<lparr>sv_breaker := b\<rparr>)"
  have t: "sv_index t = sv_index s" "sv_oauth t = sv_oauth s" "sv_position t = sv_position s"
    by (simp_all add: t_def log_event_def)
  have e: "\<exists>e. sv_events t = sv_events s @ e \<and> (e = [] \<or> (\<exists>x. e = [x] \<and> event_for routes (sv_index s) x))"
    by (simp add: t_def log_event_def event_for_def key_at_def)
  have "goes_forward routes t (loop_pass pt routes a s)"
    using assms(2) call_antigravity_forward [of routes t pt a] call_upstream_forward [OF assms(1), of routes t pt]
      skipCandidate_ge [of "sv_index s" routes "CandidateID ?route"]
    unfolding loop_pass_def Let_def rb prod.case t_def [symmetric]
    by (auto simp: t intro!: finish_forward next_route_forward)
  with t e that show ?thesis by blast
qed

text \<open>The routes an events list belongs to.\<close>

definition events_of :: "resolved_route list \<Rightarrow> nat list \<Rightarrow> routing_event list \<Rightarrow> bool" where
  "events_of routes is es \<longleftrightarrow> sorted is \<and> set is \<subseteq> {..<length routes} \<and> list_all2 (event_for routes) is es"

lemma route_loop_ends:
  assumes "\<forall>n. revisions_known (world n)"
    and "events_of routes is (sv_events s)" "\<forall>i \<in> set is. i \<le> sv_index s"
  shows "\<exists>f s' js. route_loop pt routes world n s = Some (f, s') \<and> sv_position s' \<le> sv_position s + budget routes s
     \<and> events_of routes js (sv_events s')"
  using assms(2,3)
proof (induction "budget routes s" arbitrary: s n "is" rule: less_induct)
  case less
  show ?case
  proof (cases "sv_index s < length routes")
    case False
    then have "loop_pass pt routes (world n) s = Inr (loop_end s, s)"
      by (simp add: loop_pass_def finish_with_def)
    then have "route_loop pt routes world n s = Some (loop_end s, s)"
      by (subst route_loop.simps) simp
    with less.prems show ?thesis by auto
  next
    case True
    obtain e t where t: "goes_forward routes t (loop_pass pt routes (world n) s)"
      "sv_index t = sv_index s" "sv_oauth t = sv_oauth s" "sv_position t = sv_position s"
      "sv_events t = sv_events s @ e" "e = [] \<or> (\<exists>x. e = [x] \<and> event_for routes (sv_index s) x)"
      using loop_pass_cases [of "world n" s routes pt] assms(1) True by metis
    have "\<exists>js. events_of routes js (sv_events t) \<and> (\<forall>i \<in> set js. i \<le> sv_index s)"
    proof (cases "e = []")
      case True
      with t(5) less.prems show ?thesis by auto
    next
      case False
      with t(6) obtain x where "e = [x]" "event_for routes (sv_index s) x" by auto
      with t(5) less.prems \<open>sv_index s < length routes\<close> show ?thesis
        by (intro exI [of _ "is @ [sv_index s]"])
          (auto simp: events_of_def sorted_append list_all2_appendI)
    qed
    then obtain js where js: "events_of routes js (sv_events t)" "\<forall>i \<in> set js. i \<le> sv_index s" by blast
    have pos: "0 < budget routes s" using True by (simp add: budget_def)
    have same: "budget routes t = budget routes s" using t by (simp add: budget_def)
    show ?thesis
    proof (cases "loop_pass pt routes (world n) s")
      case (Inr r)
      then have "route_loop pt routes world n s = Some r" by (subst route_loop.simps) simp
      with Inr t(1,4) pos js show ?thesis by (cases r) (auto simp: goes_forward_def)
    next
      case (Inl s')
      with t(1) have fwd: "forward routes t s'" by (simp add: goes_forward_def)
      then have budget: "budget routes s' < budget routes s"
        using forward_budget [of routes t s'] True t(2) same by simp
      have ev: "sv_events s' = sv_events t" and p: "sv_position s' \<le> sv_position s + 1" and "sv_index s \<le> sv_index s'"
        using fwd t(2,4) by (auto simp: forward_def)
      with js have "\<forall>i \<in> set js. i \<le> sv_index s'" by fastforce
      from less.hyps [OF budget, of js "n + 1"] this js ev obtain f u ks where u:
        "route_loop pt routes world (n + 1) s' = Some (f, u)" "sv_position u \<le> sv_position s' + budget routes s'"
        "events_of routes ks (sv_events u)" by auto
      have "route_loop pt routes world n s = Some (f, u)"
        using Inl u(1) by (subst route_loop.simps) simp
      with u p budget show ?thesis by fastforce
    qed
  qed
qed

end
