(* ===== verification/Relay.thy ===== *)
theory Relay
  imports GatewayBody
begin

text \<open>
  Passing an answer on to the client (internal/gateway/stream_heartbeat.go and \<^verbatim>\<open>proxyStream\<close>,
  \<^verbatim>\<open>proxyBuffered\<close>, \<^verbatim>\<open>proxyPassthroughEvents\<close>, \<^verbatim>\<open>proxyConvertedEvents\<close>, \<^verbatim>\<open>writeError\<close> of
  internal/gateway/handler.go). The state is the \<^verbatim>\<open>ResponseWriter\<close> of the client together with the
  \<^verbatim>\<open>streamResponse\<close>. The connection takes \<open>dn_room\<close> more bytes before writing fails, or all when
  there is no such bound.

  A loop over a stream selects between the next line or event, the ticker and the end of the
  client's context. Its choices are a list of ticks; a list that ends before the loop does is a
  stream that is still running, with the result \<open>None\<close>.
\<close>

section \<open>The client\<close>

record downstream =
  dn_header :: header
  dn_sent :: "(int \<times> header) option"
  dn_received :: string
  dn_room :: "nat option"
  sr_committed :: bool
  sr_status :: int
  sr_body :: string

definition new_downstream :: "nat option \<Rightarrow> downstream" where
  "new_downstream room = \<lparr>dn_header = [], dn_sent = None, dn_received = [], dn_room = room,
     sr_committed = False, sr_status = 0, sr_body = []\<rparr>"

text \<open>\<^verbatim>\<open>WriteHeader\<close>: the header as it is then goes out; a second call has no effect.\<close>

definition write_header :: "int \<Rightarrow> downstream \<Rightarrow> downstream" where
  "write_header status d = (if dn_sent d = None then d\<lparr>dn_sent := Some (status, dn_header d)\<rparr> else d)"

text \<open>Writing to the connection: how many bytes it took.\<close>

definition room_for :: "downstream \<Rightarrow> string \<Rightarrow> nat" where
  "room_for d bytes = (case dn_room d of None \<Rightarrow> length bytes | Some n \<Rightarrow> min n (length bytes))"

definition write_bytes :: "string \<Rightarrow> downstream \<Rightarrow> bool \<times> downstream" where
  "write_bytes bytes d = (let n = room_for d bytes in
     (n = length bytes, d\<lparr>dn_received := dn_received d @ take n bytes, dn_room := map_option (\<lambda>r. r - n) (dn_room d)\<rparr>))"

definition set_header :: "string \<Rightarrow> string \<Rightarrow> downstream \<Rightarrow> downstream" where
  "set_header k v d = d\<lparr>dn_header := header_set k v (dn_header d)\<rparr>"

section \<open>The stream of an answer\<close>

definition Commit :: "int \<Rightarrow> downstream \<Rightarrow> downstream" where
  "Commit status d =
     (if sr_committed d then d else (write_header status d)\<lparr>sr_committed := True, sr_status := status\<rparr>)"

definition Write :: "string \<Rightarrow> downstream \<Rightarrow> bool \<times> downstream" where
  "Write body d = (let d = Commit 200 d; n = room_for d body; (ok, d') = write_bytes body d
     in (ok, d'\<lparr>sr_body := sr_body d' @ take n body\<rparr>))"

definition keep_alive :: string where
  "keep_alive = '': keep-alive'' @ [LF, LF]"

definition heartbeat_headers :: "downstream \<Rightarrow> downstream" where
  "heartbeat_headers d = set_header ''X-Accel-Buffering'' ''no'' (set_header ''Cache-Control'' ''no-cache''
     (set_header ''Content-Type'' ''text/event-stream; charset=utf-8'' d))"

definition WriteHeartbeat :: "downstream \<Rightarrow> bool \<times> downstream" where
  "WriteHeartbeat d = Write keep_alive (if sr_committed d then d else Commit 200 (heartbeat_headers d))"

definition error_payload :: "string \<Rightarrow> string \<Rightarrow> string \<Rightarrow> string \<Rightarrow> gval" where
  "error_payload inbound code message requestID =
     (if inbound = Messages then
        GMap [(''type'', GStr ''error''),
              (''error'', GMap [(''type'', GStr code), (''message'', GStr message)]), (''request_id'', GStr requestID)]
      else GMap [(''error'', GMap [(''message'', GStr message), (''type'', GStr code), (''code'', GStr code)]),
                 (''request_id'', GStr requestID)])"

definition error_frame :: "string \<Rightarrow> string \<Rightarrow> string \<Rightarrow> string \<Rightarrow> string" where
  "error_frame inbound code message requestID =
     (if inbound = Messages then encodeSSE ''error'' (error_payload Messages code message requestID)
      else if inbound = Responses then
        encodeSSE ''error'' (GMap [(''type'', GStr ''error''), (''code'', GStr code), (''message'', GStr message),
                                   (''param'', GNil), (''request_id'', GStr requestID)])
      else dataSSE (error_payload inbound code message requestID))"

definition WriteError :: "string \<Rightarrow> string \<Rightarrow> string \<Rightarrow> string \<Rightarrow> downstream \<Rightarrow> downstream" where
  "WriteError inbound code message requestID d = snd (Write (error_frame inbound code message requestID) d)"

text \<open>An error as a document of its own.\<close>

definition writeError :: "string \<Rightarrow> int \<Rightarrow> string \<Rightarrow> string \<Rightarrow> string \<Rightarrow> downstream \<Rightarrow> downstream" where
  "writeError inbound status code message requestID d =
     snd (write_bytes (print_json (marshal (error_payload inbound code message requestID)) @ [LF])
       (write_header status (set_header ''Content-Type'' ''application/json; charset=utf-8'' d)))"

text \<open>\<^verbatim>\<open>finishError\<close> of the loop: in a stream that has begun the error is an event.\<close>

definition finish_error :: "bool \<Rightarrow> string \<Rightarrow> int \<Rightarrow> string \<Rightarrow> string \<Rightarrow> string \<Rightarrow> downstream \<Rightarrow> downstream" where
  "finish_error streaming inbound status code message requestID d =
     (if streaming \<and> sr_committed d then WriteError inbound code message requestID d
      else writeError inbound status code message requestID d)"

section \<open>Loops\<close>

datatype tick = Arrive "nat \<Rightarrow> nat \<Rightarrow> int" | Beat | Cancel

datatype relay_status = RelayCompleted | RelayCancelled | RelayFailed go_error

record relayed =
  re_status :: relay_status
  re_committed :: bool
  re_log :: string
  re_content :: bool
  re_down :: downstream

definition stream_ended :: go_error where "stream_ended = Errorf ''upstream stream ended before completion'' []"
definition read_failed :: go_error where "read_failed = Errorf ''reading the upstream failed'' []"

subsection \<open>In the protocol of the client\<close>

text \<open>One line: the log has it as it came, the client with its model name.\<close>

definition pass_line :: "string \<Rightarrow> string \<Rightarrow> relayed \<Rightarrow> bool \<times> relayed" where
  "pass_line model line r =
     (if line = [] then (True, r)
      else (let client_line = rewriteSSEModel line model; (ok, d) = Write client_line (re_down r)
        in (ok, r\<lparr>re_log := re_log r @ line, re_content := (re_content r \<or> semanticSSELine client_line), re_down := d\<rparr>)))"

fun proxyPassthroughEvents :: "read_end \<Rightarrow> string \<Rightarrow> tick list \<Rightarrow> string \<Rightarrow> relayed \<Rightarrow> relayed option" where
  "proxyPassthroughEvents fin model [] s r = None"
| "proxyPassthroughEvents fin model (Cancel # ticks) s r = Some (r\<lparr>re_status := RelayCancelled\<rparr>)"
| "proxyPassthroughEvents fin model (Beat # ticks) s r =
     (let (ok, d) = WriteHeartbeat (re_down r); r = r\<lparr>re_down := d\<rparr> in
      if \<not> ok then Some (r\<lparr>re_status := RelayCancelled\<rparr>) else proxyPassthroughEvents fin model ticks s r)"
| "proxyPassthroughEvents fin model (Arrive clk # ticks) s r =
     (let (line, rest, more) = read_line s; (ok, r) = pass_line model line r in
      if \<not> ok then Some (r\<lparr>re_status := RelayCancelled\<rparr>)
      else if \<not> more then
        Some (r\<lparr>re_status := (if fin = EndOfFile then RelayCompleted else RelayFailed read_failed)\<rparr>)
      else proxyPassthroughEvents fin model ticks rest r)"

subsection \<open>Converted\<close>

definition begin_stream :: "int \<Rightarrow> header \<Rightarrow> downstream \<Rightarrow> downstream" where
  "begin_stream status h d =
     (if sr_committed d then d
      else Commit status (set_header ''Content-Type'' ''text/event-stream; charset=utf-8''
        (d\<lparr>dn_header := header_del ''Content-Length'' (copyResponseHeaders h (dn_header d))\<rparr>)))"

fun write_chunks :: "int \<Rightarrow> header \<Rightarrow> string list \<Rightarrow> relayed \<Rightarrow> bool \<times> relayed" where
  "write_chunks status h [] r = (True, r)"
| "write_chunks status h (chunk # chunks) r =
     (let (ok, d) = Write chunk (begin_stream status h (re_down r)); r = r\<lparr>re_down := d, re_committed := True\<rparr> in
      if ok then write_chunks status h chunks r else (False, r))"

fun proxyConvertedEvents ::
    "(nat \<Rightarrow> string) \<Rightarrow> instant \<Rightarrow> read_end \<Rightarrow> int \<Rightarrow> header \<Rightarrow> tick list \<Rightarrow> string \<Rightarrow> stream_converter \<Rightarrow> relayed \<Rightarrow>
     relayed option" where
  "proxyConvertedEvents rand now fin status h [] s c r = None"
| "proxyConvertedEvents rand now fin status h (Cancel # ticks) s c r = Some (r\<lparr>re_status := RelayCancelled\<rparr>)"
| "proxyConvertedEvents rand now fin status h (Beat # ticks) s c r =
     (let (ok, d) = WriteHeartbeat (re_down r); r = r\<lparr>re_down := d\<rparr> in
      if \<not> ok then Some (r\<lparr>re_status := RelayCancelled\<rparr>)
      else proxyConvertedEvents rand now fin status h ticks s c r)"
| "proxyConvertedEvents rand now fin status h (Arrive clk # ticks) s c r =
     (case ReadSSEEvent fin s of
        Inl e \<Rightarrow> Some (r\<lparr>re_status := RelayFailed (if e = EndOfFile then stream_ended else read_failed)\<rparr>)
      | Inr (event, rest) \<Rightarrow>
          (let r = r\<lparr>re_log := re_log r @ sse_raw event\<rparr>; (out, c') = Convert rand now clk event c in
           case out of
             Inl err \<Rightarrow> Some (r\<lparr>re_status := RelayFailed err\<rparr>)
           | Inr conv \<Rightarrow>
               (let (ok, r) = write_chunks status h (map frame_text (co_frames conv))
                      (r\<lparr>re_content := (re_content r \<or> co_semantic conv)\<rparr>) in
                if \<not> ok then Some (r\<lparr>re_status := RelayCancelled\<rparr>)
                else if co_done conv then Some (r\<lparr>re_status := RelayCompleted\<rparr>)
                else proxyConvertedEvents rand now fin status h ticks rest c' r)))"

section \<open>Whole answers\<close>

definition start_relay :: "downstream \<Rightarrow> relayed" where
  "start_relay d = \<lparr>re_status = RelayCompleted, re_committed = False, re_log = [], re_content = False, re_down = d\<rparr>"

text \<open>
  \<^verbatim>\<open>proxyStream\<close> up to the log: the loop for the pair of protocols. A failure after something was
  committed is told to the client, one before is returned to the caller.
\<close>

definition begin_passthrough :: "int \<Rightarrow> header \<Rightarrow> downstream \<Rightarrow> downstream" where
  "begin_passthrough status h d =
     (if sr_committed d then d
      else Commit status (d\<lparr>dn_header := header_del ''Content-Length'' (copyResponseHeaders h (dn_header d))\<rparr>))"

definition relay_stream ::
    "(nat \<Rightarrow> string) \<Rightarrow> instant \<Rightarrow> int \<Rightarrow> string \<Rightarrow> string \<Rightarrow> string \<Rightarrow> read_end \<Rightarrow> int \<Rightarrow> header \<Rightarrow> tick list \<Rightarrow> string \<Rightarrow>
     downstream \<Rightarrow> relayed option" where
  "relay_stream rand now created upstream inbound model fin status h ticks s d =
     (let d = set_header ''X-Accel-Buffering'' ''no'' d in
      if upstream = inbound then
        proxyPassthroughEvents fin model ticks s ((start_relay (begin_passthrough status h d))\<lparr>re_committed := True\<rparr>)
      else (case NewStreamConverter created upstream inbound model of
          Inl err \<Rightarrow> Some ((start_relay d)\<lparr>re_status := RelayFailed err\<rparr>)
        | Inr c \<Rightarrow> proxyConvertedEvents rand now fin status h ticks s c (start_relay d)))"

definition proxyStream ::
    "(nat \<Rightarrow> string) \<Rightarrow> instant \<Rightarrow> int \<Rightarrow> string \<Rightarrow> string \<Rightarrow> string \<Rightarrow> read_end \<Rightarrow> int \<Rightarrow> header \<Rightarrow> tick list \<Rightarrow> string \<Rightarrow>
     string \<Rightarrow> (go_error \<Rightarrow> string) \<Rightarrow> downstream \<Rightarrow> (go_error option \<times> downstream) option" where
  "proxyStream rand now created upstream inbound model fin status h ticks s requestID message d =
     (case relay_stream rand now created upstream inbound model fin status h ticks s d of
        None \<Rightarrow> None
      | Some r \<Rightarrow> Some (case re_status r of
            RelayFailed err \<Rightarrow>
              if \<not> re_committed r then (Some err, re_down r)
              else (None, WriteError inbound ''invalid_upstream_response'' (message err) requestID (re_down r))
          | _ \<Rightarrow> (None, re_down r)))"

text \<open>\<^verbatim>\<open>proxyBuffered\<close>: a document that cannot be read or converted leaves the client alone.\<close>

definition client_document ::
    "(nat \<Rightarrow> string) \<Rightarrow> (nat \<Rightarrow> int) \<Rightarrow> string \<Rightarrow> string \<Rightarrow> string \<Rightarrow> string \<Rightarrow> go_error + string" where
  "client_document rand clock upstream inbound model body =
     (if upstream = inbound then rewriteModel body model
      else ConvertResponse rand clock body upstream inbound model)"

definition proxyBuffered ::
    "(nat \<Rightarrow> string) \<Rightarrow> (nat \<Rightarrow> int) \<Rightarrow> string \<Rightarrow> string \<Rightarrow> string \<Rightarrow> (go_error + string) \<Rightarrow> int \<Rightarrow> header \<Rightarrow> downstream \<Rightarrow>
     (go_error + bool) \<times> downstream" where
  "proxyBuffered rand clock upstream inbound model body status h d =
     (case bindE body (client_document rand clock upstream inbound model) of
        Inl err \<Rightarrow> (Inl err, d)
      | Inr doc \<Rightarrow>
          (let (ok, d) = write_bytes doc (write_header status
                 (d\<lparr>dn_header := header_del ''Content-Length'' (copyResponseHeaders h (dn_header d))\<rparr>))
           in (Inr ok, d)))"

end
