(* ===== verification/RelayLaws.thy ===== *)
theory RelayLaws
  imports Relay
begin

text \<open>
  Laws of the proxies: what the client has received is what the log stores, a stream is passed on
  in pieces that are keep-alive comments or the frames of the converter, and a failure before the
  first frame leaves nothing else with the client.
\<close>

section \<open>Writing\<close>

text \<open>The body the log stores is what the connection took, and the status is the one that was sent.\<close>

definition in_step :: "downstream \<Rightarrow> bool" where
  "in_step d \<longleftrightarrow> sr_body d = dn_received d
     \<and> (if sr_committed d then map_option fst (dn_sent d) = Some (sr_status d) else dn_sent d = None \<and> dn_received d = [])"

lemma in_step_new: "in_step (new_downstream room)"
  by (simp add: in_step_def new_downstream_def)

lemma Commit_simps [simp]:
  "sr_committed (Commit st d)" "dn_received (Commit st d) = dn_received d" "sr_body (Commit st d) = sr_body d"
  "dn_room (Commit st d) = dn_room d" "dn_header (Commit st d) = dn_header d"
  by (simp_all add: Commit_def write_header_def)

lemma Commit_committed: "sr_committed d \<Longrightarrow> Commit st d = d"
  by (simp add: Commit_def)

lemma set_header_simps [simp]:
  "sr_committed (set_header k v d) = sr_committed d" "dn_received (set_header k v d) = dn_received d"
  "sr_body (set_header k v d) = sr_body d" "dn_sent (set_header k v d) = dn_sent d"
  "sr_status (set_header k v d) = sr_status d" "dn_room (set_header k v d) = dn_room d"
  by (simp_all add: set_header_def)

lemma heartbeat_headers_simps [simp]:
  "sr_committed (heartbeat_headers d) = sr_committed d" "dn_received (heartbeat_headers d) = dn_received d"
  "sr_body (heartbeat_headers d) = sr_body d" "dn_sent (heartbeat_headers d) = dn_sent d"
  "sr_status (heartbeat_headers d) = sr_status d"
  by (simp_all add: heartbeat_headers_def)

lemma in_step_Commit: "in_step d \<Longrightarrow> in_step (Commit st d)"
  by (auto simp: in_step_def Commit_def write_header_def)

lemma in_step_header:
  "in_step (set_header k v d) = in_step d" "in_step (heartbeat_headers d) = in_step d"
  "in_step (d\<lparr>dn_header := h\<rparr>) = in_step d"
  by (simp_all add: in_step_def)

lemma in_step_Write: "in_step d \<Longrightarrow> in_step (snd (Write b d))"
  using in_step_Commit [of d 200]
  by (simp add: Write_def write_bytes_def Let_def in_step_def)

lemma in_step_WriteHeartbeat: "in_step d \<Longrightarrow> in_step (snd (WriteHeartbeat d))"
  by (auto simp: WriteHeartbeat_def in_step_header intro!: in_step_Write in_step_Commit)

lemma in_step_WriteError: "in_step d \<Longrightarrow> in_step (WriteError inbound code message i d)"
  by (simp add: WriteError_def in_step_Write)

lemma in_step_begin: "in_step d \<Longrightarrow> in_step (begin_stream st h d)" "in_step d \<Longrightarrow> in_step (begin_passthrough st h d)"
  by (auto simp: begin_stream_def begin_passthrough_def in_step_header intro!: in_step_Commit)

lemma Write_received:
  assumes "Write b d = (True, d')"
  shows "dn_received d' = dn_received d @ b \<and> sr_committed d' \<and> (sr_committed d \<longrightarrow> dn_sent d' = dn_sent d)"
proof -
  from assms have n: "room_for (Commit 200 d) b = length b"
    by (auto simp: Write_def write_bytes_def Let_def)
  from assms have d': "d' = (snd (write_bytes b (Commit 200 d)))\<lparr>sr_body := sr_body d @ b\<rparr>"
    unfolding Write_def Let_def n by (auto simp: write_bytes_def Let_def n)
  show ?thesis
    unfolding d' write_bytes_def Let_def n by (auto simp: Commit_committed)
qed

lemma WriteHeartbeat_received:
  assumes "WriteHeartbeat d = (True, d')"
  shows "dn_received d' = dn_received d @ keep_alive \<and> sr_committed d' \<and> (sr_committed d \<longrightarrow> dn_sent d' = dn_sent d)"
  using Write_received [OF assms [unfolded WriteHeartbeat_def]] by (auto split: if_splits)

lemma begin_simps [simp]:
  "dn_received (begin_stream st h d) = dn_received d" "dn_received (begin_passthrough st h d) = dn_received d"
  by (simp_all add: begin_stream_def begin_passthrough_def)

section \<open>Pieces\<close>

text \<open>A piece is a keep-alive comment (marked) or a part of the answer.\<close>

type_synonym pieces = "(bool \<times> string) list"

definition answer_pieces :: "pieces \<Rightarrow> string list" where
  "answer_pieces ws = map snd (filter (\<lambda>w. \<not> fst w) ws)"

definition received_pieces :: "downstream \<Rightarrow> pieces \<Rightarrow> downstream \<Rightarrow> bool" where
  "received_pieces d ws d' \<longleftrightarrow> dn_received d' = dn_received d @ concat (map snd ws)
     \<and> (\<forall>w \<in> set ws. fst w \<longrightarrow> snd w = keep_alive)"

lemma answer_pieces_simps [simp]:
  "answer_pieces [] = []" "answer_pieces (ws @ vs) = answer_pieces ws @ answer_pieces vs"
  "answer_pieces ((True, w) # ws) = answer_pieces ws" "answer_pieces ((False, w) # ws) = w # answer_pieces ws"
  by (simp_all add: answer_pieces_def)

lemma received_Nil [simp]: "received_pieces d [] d"
  by (simp add: received_pieces_def)

lemma received_trans: "received_pieces d ws e \<Longrightarrow> received_pieces e vs f \<Longrightarrow> received_pieces d (ws @ vs) f"
  by (auto simp: received_pieces_def)

lemma received_beat: "WriteHeartbeat d = (True, e) \<Longrightarrow> received_pieces e ws f \<Longrightarrow> received_pieces d ((True, keep_alive) # ws) f"
  using WriteHeartbeat_received by (auto simp: received_pieces_def)

lemma only_keep_alive:
  assumes "received_pieces d ws d'" "answer_pieces ws = []"
  shows "dn_received d' = dn_received d @ concat (replicate (length ws) keep_alive)"
proof -
  from assms have "\<forall>w \<in> set ws. snd w = keep_alive"
    by (auto simp: received_pieces_def answer_pieces_def filter_empty_conv)
  then have "map snd ws = replicate (length ws) keep_alive"
    by (intro replicate_eqI) auto
  with assms(1) show ?thesis by (simp add: received_pieces_def)
qed

lemma write_chunks_pieces:
  "write_chunks st h chunks r = (True, r') \<Longrightarrow>
   received_pieces (re_down r) (map (Pair False) chunks) (re_down r') \<and> re_committed r' = (re_committed r \<or> chunks \<noteq> [])
   \<and> re_log r' = re_log r"
proof (induction chunks arbitrary: r)
  case Nil
  then show ?case by simp
next
  case (Cons chunk chunks)
  obtain ok d where w: "Write chunk (begin_stream st h (re_down r)) = (ok, d)" by (metis surj_pair)
  with Cons.prems have ok: "ok" and rest: "write_chunks st h chunks (r\<lparr>re_down := d, re_committed := True\<rparr>) = (True, r')"
    by (auto simp: Let_def split: if_splits)
  from w ok have "received_pieces (re_down r) [(False, chunk)] d"
    using Write_received by (fastforce simp: received_pieces_def)
  from received_trans [OF this] Cons.IH [OF rest] show ?case by auto
qed

lemma answer_pieces_chunks [simp]:
  "answer_pieces (map (Pair False) chunks) = chunks" "answer_pieces (map (Pair False \<circ> f) xs) = map f xs"
  by (induction chunks) (simp_all add: answer_pieces_def comp_def filter_map)

section \<open>A converted stream\<close>

text \<open>
  The account of a loop: the events that were converted, with the pieces the client got for them
  and, when the loop ended because an event could not be converted, the text of that event.
\<close>

definition frames_of :: "converted list \<Rightarrow> string list" where
  "frames_of outs = concat (map (\<lambda>out. map frame_text (co_frames out)) outs)"

lemma frames_of_simps [simp]: "frames_of [] = []" "frames_of (out # outs) = map frame_text (co_frames out) @ frames_of outs"
  by (simp_all add: frames_of_def)

definition raw_text_of :: "('x \<times> sse_event) list \<Rightarrow> string" where
  "raw_text_of inputs = concat (map (\<lambda>x. sse_raw (snd x)) inputs)"

lemma raw_text_of_simps [simp]:
  "raw_text_of [] = []" "raw_text_of (x # inputs) = sse_raw (snd x) @ raw_text_of inputs"
  by (simp_all add: raw_text_of_def)

record account =
  ac_pieces :: pieces
  ac_inputs :: "((nat \<Rightarrow> nat \<Rightarrow> int) \<times> sse_event) list"
  ac_outs :: "converted list"
  ac_end :: stream_converter
  ac_tail :: string
  ac_rest :: string

definition accounts_for ::
    "(nat \<Rightarrow> string) \<Rightarrow> instant \<Rightarrow> string \<Rightarrow> stream_converter \<Rightarrow> relayed \<Rightarrow> relayed \<Rightarrow> account \<Rightarrow> bool" where
  "accounts_for rand now s c r out a \<longleftrightarrow>
     received_pieces (re_down r) (ac_pieces a) (re_down out)
     \<and> convert_all rand now (ac_inputs a) c = (Inr (ac_outs a), ac_end a)
     \<and> answer_pieces (ac_pieces a) = frames_of (ac_outs a)
     \<and> re_committed out = (re_committed r \<or> frames_of (ac_outs a) \<noteq> [])
     \<and> re_log out = re_log r @ raw_text_of (ac_inputs a) @ ac_tail a
     \<and> s = raw_text_of (ac_inputs a) @ ac_tail a @ ac_rest a
     \<and> (re_status out = RelayCompleted \<longrightarrow> ac_tail a = [] \<and> ac_outs a \<noteq> [] \<and> co_done (last (ac_outs a)))"

lemma converted_run:
  assumes "proxyConvertedEvents rand now fin st h ticks s c r = Some out" "re_status out \<noteq> RelayCancelled"
  shows "\<exists>a. accounts_for rand now s c r out a"
  using assms
proof (induction rand now fin st h ticks s c r rule: proxyConvertedEvents.induct)
  case (1 rand now fin st h s c r)
  then show ?case by simp
next
  case (2 rand now fin st h ticks s c r)
  then show ?case by auto
next
  case (3 rand now fin st h ticks s c r)
  obtain ok d where w: "WriteHeartbeat (re_down r) = (ok, d)" by (metis surj_pair)
  with "3.prems" have ok: "ok" and run: "proxyConvertedEvents rand now fin st h ticks s c (r\<lparr>re_down := d\<rparr>) = Some out"
    by (auto simp: Let_def split: if_splits)
  from ok "3.IH" [OF refl w [symmetric] refl _ run "3.prems"(2)]
  obtain a where "accounts_for rand now s c (r\<lparr>re_down := d\<rparr>) out a" by blast
  with w ok have "accounts_for rand now s c r out (a\<lparr>ac_pieces := (True, keep_alive) # ac_pieces a\<rparr>)"
    by (auto simp: accounts_for_def received_beat)
  then show ?case by blast
next
  case (4 rand now fin st h clk ticks s c r)
  show ?case
  proof (cases "ReadSSEEvent fin s")
    case (Inl e)
    with "4.prems" have "accounts_for rand now s c r out
        \<lparr>ac_pieces = [], ac_inputs = [], ac_outs = [], ac_end = c, ac_tail = [], ac_rest = s\<rparr>"
      by (auto simp: accounts_for_def)
    then show ?thesis by blast
  next
    case (Inr x)
    then obtain event rest where read: "ReadSSEEvent fin s = Inr (event, rest)" by (cases x) auto
    have s: "s = sse_raw event @ rest" by (rule ReadSSEEvent_raw [OF read])
    obtain co c1 where conv: "Convert rand now clk event c = (co, c1)" by (metis surj_pair)
    show ?thesis
    proof (cases co)
      case err: (Inl err)
      have "accounts_for rand now s c r out
        \<lparr>ac_pieces = [], ac_inputs = [], ac_outs = [], ac_end = c, ac_tail = sse_raw event, ac_rest = rest\<rparr>"
        using "4.prems"(1) read conv err s by (auto simp: Let_def accounts_for_def)
      then show ?thesis by blast
    next
      case out1: (Inr conv1)
      let ?l = "r\<lparr>re_log := re_log r @ sse_raw event\<rparr>"
      let ?r = "?l\<lparr>re_content := (re_content ?l \<or> co_semantic conv1)\<rparr>"
      let ?chunks = "map frame_text (co_frames conv1)"
      obtain ok r1 where w: "write_chunks st h ?chunks ?r = (ok, r1)" by (metis surj_pair)
      with "4.prems" read conv out1 have ok: "ok" by (auto simp: Let_def split: if_splits)
      from write_chunks_pieces [OF w [unfolded eqTrueI [OF ok]]] have
        pieces: "received_pieces (re_down r) (map (Pair False) ?chunks) (re_down r1)"
        and r1: "re_committed r1 = (re_committed r \<or> ?chunks \<noteq> [])" "re_log r1 = re_log r @ sse_raw event" by auto
      show ?thesis
      proof (cases "co_done conv1")
        case True
        with "4.prems"(1) read conv out1 w ok have "out = r1\<lparr>re_status := RelayCompleted\<rparr>" by (auto simp: Let_def)
        with pieces r1 s True conv out1 have "accounts_for rand now s c r out
          \<lparr>ac_pieces = map (Pair False) ?chunks, ac_inputs = [(clk, event)], ac_outs = [conv1], ac_end = c1, ac_tail = [], ac_rest = rest\<rparr>"
          by (simp add: accounts_for_def)
        then show ?thesis by blast
      next
        case False
        with "4.prems"(1) read conv out1 w ok have run: "proxyConvertedEvents rand now fin st h ticks rest c1 r1 = Some out"
          by (auto simp: Let_def)
        from "4.IH" [OF read refl refl refl conv [symmetric] out1 refl w [symmetric] _ False run "4.prems"(2)] ok
        obtain a where a: "accounts_for rand now rest c1 r1 out a" by blast
        then have "received_pieces (re_down r) (map (Pair False) ?chunks @ ac_pieces a) (re_down out)"
          using received_trans [OF pieces] by (simp add: accounts_for_def)
        with a r1 s conv out1 have "accounts_for rand now s c r out (a\<lparr>ac_pieces := map (Pair False) ?chunks @ ac_pieces a,
            ac_inputs := (clk, event) # ac_inputs a, ac_outs := conv1 # ac_outs a\<rparr>)"
          by (auto simp: accounts_for_def)
        then show ?thesis by blast
      qed
    qed
  qed
qed


section \<open>A stream in the protocol of the client\<close>

lemma pass_line_pieces:
  assumes "pass_line model line r = (True, r')" "line \<noteq> []"
  shows "received_pieces (re_down r) [(False, rewriteSSEModel line model)] (re_down r')
     \<and> re_log r' = re_log r @ line \<and> re_committed r' = re_committed r"
proof -
  obtain ok d where w: "Write (rewriteSSEModel line model) (re_down r) = (ok, d)" by (metis surj_pair)
  with assms have ok and r': "r' = r\<lparr>re_log := re_log r @ line,
      re_content := (re_content r \<or> semanticSSELine (rewriteSSEModel line model)), re_down := d\<rparr>"
    by (auto simp: pass_line_def Let_def)
  with Write_received [of "rewriteSSEModel line model" "re_down r" d] w show ?thesis
    by (simp add: received_pieces_def)
qed

lemma read_line_shape:
  assumes "read_line s = (line, rest, again)"
  shows "LF \<notin> set (butlast line) \<and> (\<not> again \<longrightarrow> rest = []) \<and> (again \<longrightarrow> line \<noteq> [])"
proof -
  have "LF \<notin> set (takeWhile (\<lambda>c. c \<noteq> LF) s)" by (auto dest: set_takeWhileD)
  moreover from this have "LF \<notin> set (butlast (takeWhile (\<lambda>c. c \<noteq> LF) s))" by (blast dest: in_set_butlastD)
  ultimately show ?thesis using assms by (auto simp: read_line_def Let_def split: list.splits)
qed

lemma passthrough_run:
  assumes "proxyPassthroughEvents fin model ticks s r = Some out" "re_status out \<noteq> RelayCancelled"
  shows "\<exists>ws ls. received_pieces (re_down r) ws (re_down out) \<and> concat ls = s \<and> re_log out = re_log r @ s
     \<and> answer_pieces ws = map (\<lambda>l. rewriteSSEModel l model) ls \<and> (\<forall>l \<in> set ls. l \<noteq> [] \<and> LF \<notin> set (butlast l))
     \<and> re_committed out = re_committed r"
  using assms
proof (induction fin model ticks s r rule: proxyPassthroughEvents.induct)
  case (1 fin model s r)
  then show ?case by simp
next
  case (2 fin model ticks s r)
  then show ?case by auto
next
  case (3 fin model ticks s r)
  obtain ok d where w: "WriteHeartbeat (re_down r) = (ok, d)" by (metis surj_pair)
  with "3.prems" have ok: "ok" and run: "proxyPassthroughEvents fin model ticks s (r\<lparr>re_down := d\<rparr>) = Some out"
    by (auto simp: Let_def split: if_splits)
  from ok "3.IH" [OF refl w [symmetric] refl _ run "3.prems"(2)] obtain ws ls where
    "received_pieces d ws (re_down out)" "concat ls = s" "re_log out = re_log r @ s"
    "answer_pieces ws = map (\<lambda>l. rewriteSSEModel l model) ls" "\<forall>l \<in> set ls. l \<noteq> [] \<and> LF \<notin> set (butlast l)"
    "re_committed out = re_committed r" by auto
  moreover from this w ok have "received_pieces (re_down r) ((True, keep_alive) # ws) (re_down out)"
    by (simp add: received_beat)
  ultimately show ?case by (intro exI [of _ "(True, keep_alive) # ws"] exI [of _ ls]) simp
next
  case (4 fin model clk ticks s r)
  obtain line rest again where l: "read_line s = (line, rest, again)" by (metis surj_pair)
  have s: "s = line @ rest" by (rule read_line_split [OF l])
  obtain ok r1 where p: "pass_line model line r = (ok, r1)" by (metis surj_pair)
  with "4.prems" l have ok: "ok" by (auto simp: Let_def split: if_splits)
  have one: "line \<noteq> [] \<longrightarrow> LF \<notin> set (butlast line)" "\<not> again \<longrightarrow> rest = []" "again \<longrightarrow> line \<noteq> []"
    using read_line_shape [OF l] by auto
  show ?case
  proof (cases again)
    case False
    with "4.prems" l p ok have out: "re_down out = re_down r1" "re_log out = re_log r1" "re_committed out = re_committed r1"
      by (auto simp: Let_def)
    show ?thesis
    proof (cases "line = []")
      case True
      with p s one False out show ?thesis
        by (intro exI [of _ "[]"]) (auto simp: pass_line_def)
    next
      case nonempty: False
      from pass_line_pieces [OF p [unfolded eqTrueI [OF ok]] nonempty] out s one False nonempty show ?thesis
        by (intro exI [of _ "[(False, rewriteSSEModel line model)]"] exI [of _ "[line]"]) simp
    qed
  next
    case True
    with "4.prems"(1) l p ok have run: "proxyPassthroughEvents fin model ticks rest r1 = Some out" by (simp add: Let_def)
    from True one have nonempty: "line \<noteq> []" by simp
    from pass_line_pieces [OF p [unfolded eqTrueI [OF ok]] nonempty] have
      first: "received_pieces (re_down r) [(False, rewriteSSEModel line model)] (re_down r1)"
      and r1: "re_log r1 = re_log r @ line" "re_committed r1 = re_committed r" by auto
    from "4.IH" [OF refl l [symmetric] refl refl p [symmetric] _ _ run "4.prems"(2)] ok True obtain ws ls where
      ih: "received_pieces (re_down r1) ws (re_down out)" "concat ls = rest" "re_log out = re_log r1 @ rest"
        "answer_pieces ws = map (\<lambda>l. rewriteSSEModel l model) ls" "\<forall>l \<in> set ls. l \<noteq> [] \<and> LF \<notin> set (butlast l)"
        "re_committed out = re_committed r1" by auto
    from received_trans [OF first ih(1)] ih r1 s one nonempty show ?thesis
      by (intro exI [of _ "(False, rewriteSSEModel line model) # ws"] exI [of _ "line # ls"]) simp
  qed
qed

section \<open>Failures before the first frame\<close>

lemma frames_of_empty: "answer_pieces ws = frames_of outs \<Longrightarrow> frames_of outs = [] \<Longrightarrow> answer_pieces ws = []"
  by simp

lemma failed_relay:
  assumes "proxyStream rand now created upstream inbound model fin st h ticks s i message d = Some (Some err, d')"
  shows "upstream \<noteq> inbound \<and> (\<exists>n. dn_received d' = dn_received d @ concat (replicate n keep_alive))"
proof -
  let ?d = "set_header ''X-Accel-Buffering'' ''no'' d"
  from assms obtain r where r: "relay_stream rand now created upstream inbound model fin st h ticks s d = Some r"
    "re_status r = RelayFailed err" "\<not> re_committed r" "d' = re_down r"
    by (auto simp: proxyStream_def split: option.splits relay_status.splits if_splits)
  have different: "upstream \<noteq> inbound"
  proof
    assume "upstream = inbound"
    with r(1) have run: "proxyPassthroughEvents fin model ticks s
        ((start_relay (begin_passthrough st h ?d))\<lparr>re_committed := True\<rparr>) = Some r"
      by (simp add: relay_stream_def Let_def)
    from passthrough_run [OF run] r(2,3) show False by auto
  qed
  show ?thesis
  proof (cases "NewStreamConverter created upstream inbound model")
    case (Inl e)
    with r different have "re_down r = ?d" by (auto simp: relay_stream_def Let_def start_relay_def)
    with r(4) different show ?thesis by (intro conjI exI [of _ 0]) simp_all
  next
    case (Inr c)
    with r different have run: "proxyConvertedEvents rand now fin st h ticks s c (start_relay ?d) = Some r"
      by (simp add: relay_stream_def Let_def)
    from converted_run [OF run] r(2) obtain a where a: "accounts_for rand now s c (start_relay ?d) r a" by auto
    with r(3) have pieces: "received_pieces ?d (ac_pieces a) (re_down r)" "answer_pieces (ac_pieces a) = []"
      by (auto simp: accounts_for_def start_relay_def)
    from only_keep_alive [OF pieces] r(4) different show ?thesis by auto
  qed
qed

section \<open>The log follows the client\<close>

lemma write_chunks_in_step: "in_step (re_down r) \<Longrightarrow> in_step (re_down (snd (write_chunks st h chunks r)))"
proof (induction chunks arbitrary: r)
  case Nil
  then show ?case by simp
next
  case (Cons chunk chunks)
  obtain ok d where w: "Write chunk (begin_stream st h (re_down r)) = (ok, d)" by (metis surj_pair)
  have "in_step d" using in_step_Write [OF in_step_begin(1) [OF Cons.prems], of chunk st h] w by simp
  with w Cons.IH [of "r\<lparr>re_down := d, re_committed := True\<rparr>"] show ?case by (simp add: Let_def)
qed

lemma converted_in_step:
  "proxyConvertedEvents rand now fin st h ticks s c r = Some out \<Longrightarrow> in_step (re_down r) \<Longrightarrow> in_step (re_down out)"
proof (induction rand now fin st h ticks s c r rule: proxyConvertedEvents.induct)
  case (3 rand now fin st h ticks s c r)
  obtain ok d where w: "WriteHeartbeat (re_down r) = (ok, d)" by (metis surj_pair)
  with in_step_WriteHeartbeat [OF "3.prems"(2)] have d: "in_step d" by simp
  show ?case
  proof (cases ok)
    case True
    with "3.prems"(1) w "3.IH" [OF refl w [symmetric] refl] d show ?thesis by (simp add: Let_def)
  next
    case False
    with "3.prems"(1) w d show ?thesis by (auto simp: Let_def)
  qed
next
  case (4 rand now fin st h clk ticks s c r)
  show ?case
  proof (cases "ReadSSEEvent fin s")
    case (Inl e)
    with "4.prems" show ?thesis by auto
  next
    case (Inr x)
    then obtain event rest where read: "ReadSSEEvent fin s = Inr (event, rest)" by (cases x) auto
    obtain co c1 where conv: "Convert rand now clk event c = (co, c1)" by (metis surj_pair)
    show ?thesis
    proof (cases co)
      case (Inl err)
      with "4.prems" read conv show ?thesis by (auto simp: Let_def)
    next
      case out1: (Inr conv1)
      let ?l = "r\<lparr>re_log := re_log r @ sse_raw event\<rparr>"
      let ?r = "?l\<lparr>re_content := (re_content ?l \<or> co_semantic conv1)\<rparr>"
      obtain ok r1 where w: "write_chunks st h (map frame_text (co_frames conv1)) ?r = (ok, r1)" by (metis surj_pair)
      with write_chunks_in_step [of ?r st h "map frame_text (co_frames conv1)"] "4.prems"(2)
      have r1: "in_step (re_down r1)" by simp
      show ?thesis
      proof (cases "ok \<and> \<not> co_done conv1")
        case True
        with "4.prems"(1) read conv out1 w
        have run: "proxyConvertedEvents rand now fin st h ticks rest c1 r1 = Some out" by (auto simp: Let_def)
        from "4.IH" [OF read refl refl refl conv [symmetric] out1 refl w [symmetric] _ _ run r1] True show ?thesis by simp
      next
        case False
        with "4.prems"(1) read conv out1 w r1 show ?thesis by (auto simp: Let_def split: if_splits)
      qed
    qed
  qed
qed auto

lemma passthrough_in_step:
  "proxyPassthroughEvents fin model ticks s r = Some out \<Longrightarrow> in_step (re_down r) \<Longrightarrow> in_step (re_down out)"
proof (induction fin model ticks s r rule: proxyPassthroughEvents.induct)
  case (3 fin model ticks s r)
  obtain ok d where w: "WriteHeartbeat (re_down r) = (ok, d)" by (metis surj_pair)
  with in_step_WriteHeartbeat [OF "3.prems"(2)] have d: "in_step d" by simp
  show ?case
  proof (cases ok)
    case True
    with "3.prems"(1) w "3.IH" [OF refl w [symmetric] refl] d show ?thesis by (simp add: Let_def)
  next
    case False
    with "3.prems"(1) w d show ?thesis by (auto simp: Let_def)
  qed
next
  case (4 fin model clk ticks s r)
  obtain line rest again where l: "read_line s = (line, rest, again)" by (metis surj_pair)
  obtain ok r1 where p: "pass_line model line r = (ok, r1)" by (metis surj_pair)
  then have r1: "in_step (re_down r1)"
    using in_step_Write [OF "4.prems"(2), of "rewriteSSEModel line model"] "4.prems"(2)
    by (auto simp: pass_line_def Let_def split: if_splits prod.splits)
  show ?case
  proof (cases "ok \<and> again")
    case True
    with "4.prems"(1) l p have run: "proxyPassthroughEvents fin model ticks rest r1 = Some out" by (simp add: Let_def)
    from "4.IH" [OF refl l [symmetric] refl refl p [symmetric] _ _ run r1] True show ?thesis by simp
  next
    case False
    with "4.prems"(1) l p r1 show ?thesis by (auto simp: Let_def split: if_splits)
  qed
qed auto

lemma relay_stream_in_step:
  assumes "relay_stream rand now created upstream inbound model fin st h ticks s d = Some r" "in_step d"
  shows "in_step (re_down r)"
proof -
  have d: "in_step (set_header ''X-Accel-Buffering'' ''no'' d)" using assms(2) by (simp add: in_step_header)
  show ?thesis
    using assms(1) d passthrough_in_step converted_in_step in_step_begin(2) [OF d]
    by (fastforce simp: relay_stream_def start_relay_def Let_def split: if_splits sum.splits)
qed

lemma proxyStream_in_step:
  assumes "proxyStream rand now created upstream inbound model fin st h ticks s i message d = Some (res, d')" "in_step d"
  shows "in_step d'"
  using assms(1) relay_stream_in_step [OF _ assms(2)]
  by (auto simp: proxyStream_def in_step_WriteError split: option.splits relay_status.splits if_splits)

end
