(* ===== verification/GatewaySpec.thy ===== *)
theory GatewaySpec
  imports RouteLaws RelayLaws
begin

text \<open>The properties of the gateway.\<close>

section \<open>Headers\<close>

text \<open>
  The credential header of a provider, and what an upstream gets of the client's header \<open>n\<close>: nothing
  that belongs to the client's connection or its proxies; when the protocol changes, the headers of
  the client's protocol are replaced by those of the upstream's.
\<close>

definition provider_credential :: "provider \<Rightarrow> string \<Rightarrow> (string \<times> string) option" where
  "provider_credential p secret =
     (if prov_auth_type p = ''bearer'' then Some (''Authorization'', ''Bearer '' @ secret)
      else if prov_auth_type p = ''x-api-key'' then Some (''X-Api-Key'', secret)
      else if prov_auth_type p = ''custom'' then Some (canonical (prov_auth_header p), secret)
      else None)"

definition forwarded :: "string \<Rightarrow> string \<Rightarrow> header \<Rightarrow> string \<Rightarrow> string list" where
  "forwarded upstream inbound client n =
     (if upstream \<noteq> inbound \<and> canonical n = ''Content-Type'' then [''application/json'']
      else if upstream \<noteq> inbound \<and> upstream = Messages \<and> canonical n = ''Anthropic-Version'' then [''2023-06-01'']
      else if upstream \<noteq> inbound
        \<and> canonical n \<in> {''Anthropic-Version'', ''Anthropic-Beta'', ''Openai-Beta'', ''Openai-Organization''} then []
      else if canonical n \<in> {''Content-Length'', ''Accept-Encoding''} \<or> inbound_chain (canonical n) then []
      else header_values client n)"

lemma canonical_names:
  "canonical ''Authorization'' = ''Authorization''" "canonical ''x-api-key'' = ''X-Api-Key''"
  "canonical ''Content-Type'' = ''Content-Type''" "canonical ''anthropic-version'' = ''Anthropic-Version''"
  "canonical ''anthropic-beta'' = ''Anthropic-Beta''" "canonical ''openai-beta'' = ''Openai-Beta''"
  "canonical ''openai-organization'' = ''Openai-Organization''"
  by code_simp+

lemma applyProviderHeaders_values:
  assumes "canonical n \<notin> canonical ` fst ` set (prov_static_headers p)"
  shows "header_values (applyProviderHeaders p secret h) n =
     (case provider_credential p secret of
        Some (k, v) \<Rightarrow> if canonical n = k then [v] else if canonical n \<in> {''Authorization'', ''X-Api-Key''} then [] else header_values h n
      | None \<Rightarrow> if canonical n \<in> {''Authorization'', ''X-Api-Key''} then [] else header_values h n)"
  using set_all_values [OF assms]
  by (auto simp: applyProviderHeaders_def provider_credential_def Let_def canonical_names)

lemma set_all_own:
  "distinct (map (canonical \<circ> fst) kvs) \<Longrightarrow> (k, v) \<in> set kvs \<Longrightarrow> header_values (set_all kvs h) k = [v]"
proof (induction kvs arbitrary: h)
  case (Cons kv kvs)
  show ?case
  proof (cases "kv = (k, v)")
    case True
    with Cons.prems have "canonical k \<notin> canonical ` fst ` set kvs" by (auto simp: image_image)
    from set_all_values [OF this] True show ?thesis by (simp add: set_all_def)
  next
    case False
    with Cons.prems Cons.IH show ?thesis by (auto simp: set_all_def)
  qed
qed simp

lemma protocol_headers_values:
  "header_values (protocol_headers upstream inbound h) n =
     (if upstream = inbound then header_values h n
      else if canonical n = ''Content-Type'' then [''application/json'']
      else if canonical n = ''Anthropic-Version'' \<and> upstream = Messages then [''2023-06-01'']
      else if canonical n \<in> {''Anthropic-Version'', ''Anthropic-Beta'', ''Openai-Beta'', ''Openai-Organization''} then []
      else header_values h n)"
  by (auto simp: protocol_headers_def stripSourceProtocolHeaders_def source_headers_def Let_def header_get_def
      canonical_names header_values_del_all)

lemma copied_protocol_values:
  assumes "wf_header client"
  shows "header_values (protocol_headers upstream inbound (copyRequestHeaders client [])) n = forwarded upstream inbound client n"
  unfolding protocol_headers_values copied_request_values [OF assms] forwarded_def by simp

lemma codex_names:
  "canonical ''ChatGPT-Account-ID'' = ''Chatgpt-Account-Id''" "canonical ''Accept'' = ''Accept''"
  "canonical ''Originator'' = ''Originator''" "canonical ''User-Agent'' = ''User-Agent''"
  "canonical ''X-Codex-Routing-Hint'' = ''X-Codex-Routing-Hint''" "canonical ''Cookie'' = ''Cookie''"
  by code_simp+

text \<open>
  C23. What an upstream is sent. A generic provider gets its own static headers, the route's key in
  the header its kind of authentication names, no other \<^verbatim>\<open>Authorization\<close> or \<^verbatim>\<open>X-Api-Key\<close>, and of the
  client's headers what is forwarded with all values. Codex gets the account's token and id and the
  adapter's own headers, none of the client's keys or of the headers of Anthropic, and the forwarded
  rest. Antigravity, whose request starts without headers, gets the token and the adapter's headers
  only.
\<close>

theorem outbound_headers_exact:
  assumes "wf_header client"
  shows "(canonical n \<notin> canonical ` fst ` set (prov_static_headers (Provider route)) \<longrightarrow>
      header_values (upstream_headers route inbound client) n =
        (case provider_credential (Provider route) (key_secret (Key route)) of
           Some (k, v) \<Rightarrow> if canonical n = k then [v]
             else if canonical n \<in> {''Authorization'', ''X-Api-Key''} then [] else forwarded (UpstreamProtocol route) inbound client n
         | None \<Rightarrow> if canonical n \<in> {''Authorization'', ''X-Api-Key''} then [] else forwarded (UpstreamProtocol route) inbound client n))
    \<and> (distinct (map (canonical \<circ> fst) (prov_static_headers (Provider route))) \<longrightarrow>
      list_all (\<lambda>(k, v). header_values (upstream_headers route inbound client) k = [v]) (prov_static_headers (Provider route)))
    \<and> header_values (codex_headers route codex_auth body inbound client) n =
        (if canonical n = ''Authorization'' then [''Bearer '' @ AccessToken (auth_tokens codex_auth)]
         else if canonical n = ''Chatgpt-Account-Id'' then [AccountID (auth_identity codex_auth)]
         else if canonical n = ''Content-Type'' then [''application/json'']
         else if canonical n = ''Accept'' then [''text/event-stream'']
         else if canonical n = ''Originator'' then [''codex_cli_rs'']
         else if canonical n = ''User-Agent'' then [''model-confluence'']
         else if canonical n = ''X-Codex-Routing-Hint''
           then [''model='' @ UpstreamModel route @ (if service_tier body \<noteq> [] then '';tier='' @ service_tier body else [])]
         else if canonical n \<in> {''X-Api-Key'', ''Anthropic-Version'', ''Anthropic-Beta''} then []
         else forwarded (UpstreamProtocol route) inbound client n)
    \<and> header_values (antigravity_ApplyHeaders token []) n =
        (if canonical n = ''Authorization'' then [''Bearer '' @ token]
         else if canonical n = ''Content-Type'' then [''application/json'']
         else if canonical n = ''Accept'' then [''text/event-stream'']
         else if canonical n = ''User-Agent'' then [''antigravity''] else [])"
proof (intro conjI impI)
  assume "canonical n \<notin> canonical ` fst ` set (prov_static_headers (Provider route))"
  from applyProviderHeaders_values [OF this]
  show "header_values (upstream_headers route inbound client) n =
        (case provider_credential (Provider route) (key_secret (Key route)) of
           Some (k, v) \<Rightarrow> if canonical n = k then [v]
             else if canonical n \<in> {''Authorization'', ''X-Api-Key''} then [] else forwarded (UpstreamProtocol route) inbound client n
         | None \<Rightarrow> if canonical n \<in> {''Authorization'', ''X-Api-Key''} then [] else forwarded (UpstreamProtocol route) inbound client n)"
    by (simp only: upstream_headers_def copied_protocol_values [OF assms])
next
  assume "distinct (map (canonical \<circ> fst) (prov_static_headers (Provider route)))"
  from set_all_own [OF this]
  show "list_all (\<lambda>(k, v). header_values (upstream_headers route inbound client) k = [v]) (prov_static_headers (Provider route))"
    by (auto simp: list_all_iff upstream_headers_def applyProviderHeaders_def Let_def)
next
  show "header_values (codex_headers route codex_auth body inbound client) n =
        (if canonical n = ''Authorization'' then [''Bearer '' @ AccessToken (auth_tokens codex_auth)]
         else if canonical n = ''Chatgpt-Account-Id'' then [AccountID (auth_identity codex_auth)]
         else if canonical n = ''Content-Type'' then [''application/json'']
         else if canonical n = ''Accept'' then [''text/event-stream'']
         else if canonical n = ''Originator'' then [''codex_cli_rs'']
         else if canonical n = ''User-Agent'' then [''model-confluence'']
         else if canonical n = ''X-Codex-Routing-Hint''
           then [''model='' @ UpstreamModel route @ (if service_tier body \<noteq> [] then '';tier='' @ service_tier body else [])]
         else if canonical n \<in> {''X-Api-Key'', ''Anthropic-Version'', ''Anthropic-Beta''} then []
         else forwarded (UpstreamProtocol route) inbound client n)"
    by (simp add: codex_headers_def codex_ApplyHeaders_def set_all_def Let_def canonical_names codex_names
        copied_protocol_values [OF assms])
next
  show "header_values (antigravity_ApplyHeaders token []) n =
        (if canonical n = ''Authorization'' then [''Bearer '' @ token]
         else if canonical n = ''Content-Type'' then [''application/json'']
         else if canonical n = ''Accept'' then [''text/event-stream'']
         else if canonical n = ''User-Agent'' then [''antigravity''] else [])"
    by (simp add: antigravity_ApplyHeaders_def set_all_def canonical_names codex_names)
qed

definition demo_provider :: provider where
  "demo_provider = no_provider\<lparr>prov_auth_type := ''custom'', prov_auth_header := ''x-token'', prov_static_headers := [(''x-team'', ''blue'')]\<rparr>"

definition demo_route :: resolved_route where
  "demo_route = no_route\<lparr>UpstreamProtocol := Chat, Provider := demo_provider,
     Key := no_key\<lparr>key_secret := ''sk-up''\<rparr>\<rparr>"

definition demo_client :: header where
  "demo_client = [(''Authorization'', [''Bearer sk-client'']), (''X-Forwarded-For'', [''10.0.0.1'']),
     (''Anthropic-Version'', [''2023-06-01'']), (''X-Trace'', [''a'', ''b'']), (''X-Token'', [''forged''])]"

text \<open>A provider with a header of its own for the key.\<close>

theorem outbound_headers_witness:
  "map (header_values (upstream_headers demo_route Messages demo_client))
      [''x-trace'', ''X-Forwarded-For'', ''Anthropic-Version'', ''Authorization'', ''x-token'', ''x-team'']
    = [[''a'', ''b''], [], [], [], [''sk-up''], [''blue'']]"
proof -
  have client: "wf_header demo_client" by code_simp
  note exact = outbound_headers_exact [OF client, of _ demo_route Messages, THEN conjunct1, rule_format]
  have names: "canonical n \<notin> canonical ` fst ` set (prov_static_headers (Provider demo_route))"
    if "n \<in> {''x-trace'', ''X-Forwarded-For'', ''Anthropic-Version'', ''Authorization'', ''x-token''}" for n
  proof -
    have "list_all (\<lambda>n. canonical n \<notin> canonical ` fst ` set (prov_static_headers (Provider demo_route)))
        [''x-trace'', ''X-Forwarded-For'', ''Anthropic-Version'', ''Authorization'', ''x-token'']" by code_simp
    with that show ?thesis by auto
  qed
  have credential: "provider_credential (Provider demo_route) (key_secret (Key demo_route)) = Some (''X-Token'', ''sk-up'')"
    and upstream: "UpstreamProtocol demo_route = Chat" by code_simp+
  have sent: "map canonical [''x-trace'', ''X-Forwarded-For'', ''Anthropic-Version'', ''Authorization'', ''x-token'']
      = [''X-Trace'', ''X-Forwarded-For'', ''Anthropic-Version'', ''Authorization'', ''X-Token'']"
    "map (forwarded Chat Messages demo_client) [''x-trace'', ''X-Forwarded-For'', ''Anthropic-Version''] = [[''a'', ''b''], [], []]"
    by code_simp+
  have static: "distinct (map (canonical \<circ> fst) (prov_static_headers (Provider demo_route)))"
    "prov_static_headers (Provider demo_route) = [(''x-team'', ''blue'')]" by code_simp+
  from outbound_headers_exact [OF client, of _ demo_route Messages, THEN conjunct2, THEN conjunct1, rule_format, OF static(1)] static(2)
  have "header_values (upstream_headers demo_route Messages demo_client) ''x-team'' = [''blue'']" by simp
  moreover have "map (header_values (upstream_headers demo_route Messages demo_client))
      [''x-trace'', ''X-Forwarded-For'', ''Anthropic-Version'', ''Authorization'', ''x-token''] = [[''a'', ''b''], [], [], [], [''sk-up'']]"
    using sent by (simp add: exact [OF names] credential upstream)
  ultimately show ?thesis by simp
qed

section \<open>Cooldown of candidates\<close>

text \<open>
  C24. A candidate that is refused has failed at least three times in a row in its revision. Unless
  a probe is under way it is tried again at the latest thirty seconds later, and then by one
  request; a reported success admits everybody at once, a reported failure after another thirty
  seconds. A probe whose outcome is not reported refuses every later request.
\<close>

theorem refused_candidate_recovers:
  assumes "breaker_reachable now b" and "\<not> fst (candidateReady now cid revn b)"
  shows "\<exists>st until. b cid = Some st \<and> cf_revision st = revn \<and> 3 \<le> cf_count st
     \<and> cf_cooldown st = Some until \<and> until \<le> now + cooldown_time
     \<and> (\<forall>ts. ready_answers ts cid revn b =
          (if cf_probing st then replicate (length ts) False
           else replicate (length (takeWhile (\<lambda>t. t < until) ts)) False
             @ (case dropWhile (\<lambda>t. t < until) ts of [] \<Rightarrow> [] | _ # later \<Rightarrow> True # replicate (length later) False)))
     \<and> (\<forall>t. fst (candidateReady t cid revn (candidateSucceeded cid revn b)))
     \<and> (\<forall>t t'. fst (candidateReady t' cid revn (candidateFailed t cid revn b)) \<longleftrightarrow> t + cooldown_time \<le> t')"
proof -
  from assms(2) obtain st until where st: "b cid = Some st" "cf_revision st = revn" "cf_cooldown st = Some until"
    by (auto simp: candidateReady_def Let_def split: if_splits option.splits)
  moreover from breaker_reachable_ok [OF assms(1)] st have "failure_ok now st" by (simp add: breaker_ok_def)
  then have "3 \<le> cf_count st" "until \<le> now + cooldown_time" using st(3) by (auto simp: failure_ok_def)
  moreover from this st have "fst (candidateReady t' cid revn (candidateFailed t cid revn b)) \<longleftrightarrow> t + cooldown_time \<le> t'" for t t'
    by (auto simp: candidateFailed_def candidateReady_def Let_def)
  moreover from st have "fst (candidateReady t cid revn (candidateSucceeded cid revn b))" for t
    by (simp add: candidateSucceeded_def candidateReady_def)
  moreover have "ready_answers ts cid revn b =
          (if cf_probing st then replicate (length ts) False
           else replicate (length (takeWhile (\<lambda>t. t < until) ts)) False
             @ (case dropWhile (\<lambda>t. t < until) ts of [] \<Rightarrow> [] | _ # later \<Rightarrow> True # replicate (length later) False))" for ts
    using st probing_blocks_all [where b = b and cid = cid and st = st and revn = revn and ts = ts]
      cooling_answers [where b = b and cid = cid and st = st and revn = revn and ts = ts and until = until]
    by auto
  ultimately show ?thesis by blast
qed

definition demo_failed :: breaker where
  "demo_failed = candidateFailed 3 7 1 (candidateFailed 2 7 1 (candidateFailed 1 7 1 (\<lambda>_. None)))"

theorem refused_candidate_witness:
  "\<not> fst (candidateReady 3 7 1 demo_failed)
   \<and> ready_answers [4, 30 * second, 30 * second + 3, 31 * second] 7 1 demo_failed = [False, False, True, False]
   \<and> (\<forall>t. fst (candidateReady t 7 1 (candidateSucceeded 7 1 demo_failed)))"
proof -
  have "breaker_reachable 3 demo_failed"
    unfolding demo_failed_def
    by (rule breaker_reachable.failed, rule wait [where now = 2], rule breaker_reachable.failed,
        rule wait [where now = 1], rule breaker_reachable.failed, rule start) simp_all
  moreover have refused: "\<not> fst (candidateReady 3 7 1 demo_failed)" by code_simp
  ultimately obtain st until where st: "demo_failed 7 = Some st" "cf_cooldown st = Some until"
    and answers: "\<forall>ts. ready_answers ts 7 1 demo_failed =
          (if cf_probing st then replicate (length ts) False
           else replicate (length (takeWhile (\<lambda>t. t < until) ts)) False
             @ (case dropWhile (\<lambda>t. t < until) ts of [] \<Rightarrow> [] | _ # later \<Rightarrow> True # replicate (length later) False))"
    and success: "\<forall>t. fst (candidateReady t 7 1 (candidateSucceeded 7 1 demo_failed))"
    using refused_candidate_recovers [of 3 demo_failed 7 1] by blast
  have "map_option cf_cooldown (demo_failed 7) = Some (Some (30000000003 :: int))"
    "map_option cf_probing (demo_failed 7) = Some False" by code_simp+
  with st have "until = 30000000003" "\<not> cf_probing st" by simp_all
  with refused answers success show ?thesis by (simp add: second_def)
qed

end
