(* ===== verification/RelayAccounts.thy ===== *)
theory RelayAccounts
  imports RelayLaws RouteLoop UsageExtract
begin

text \<open>
  The proxies of account-based upstreams (\<^verbatim>\<open>proxyCodex\<close> in internal/gateway/codex.go and
  \<^verbatim>\<open>proxyAntigravity\<close> in internal/gateway/antigravity.go). Both read a stream whether or not the
  client asked for one, hold its first frames back until there is content, and end as a \<open>relay\<close>
  for the route loop. \<open>client_gone\<close> stands for the errors that count as cancelled.
\<close>

definition client_gone :: go_error where "client_gone = Errorf ''client gone'' []"
definition stream_cut :: go_error where "stream_cut = Errorf ''stream interrupted before its end'' []"

record account_run =
  ar_codex :: codex_stream
  ar_conv :: "stream_converter option"
  ar_pending :: string
  ar_log :: string
  ar_content :: bool
  ar_down :: downstream

text \<open>How an event was taken: go on, the stream is over, or an error (that of a client that has gone is marked).\<close>

datatype taken = GoOn | Over | Stop bool go_error

section \<open>Held frames\<close>

text \<open>The frames wait for content, the end or a stream that has begun; \<open>prepare\<close> sets the headers.\<close>

definition flush :: "(downstream \<Rightarrow> downstream) \<Rightarrow> bool \<Rightarrow> string list \<Rightarrow> taken \<Rightarrow> account_run \<Rightarrow> taken \<times> account_run" where
  "flush prepare semantic chunks next r =
     (let r = r\<lparr>ar_pending := ar_pending r @ concat chunks\<rparr> in
      if semantic \<or> next = Over \<or> sr_committed (ar_down r) then
        (let d = (if sr_committed (ar_down r) then ar_down r else prepare (ar_down r)); (ok, d) = Write (ar_pending r) d
         in (if ok then next else Stop True client_gone, r\<lparr>ar_pending := [], ar_down := d\<rparr>))
      else (next, r))"

definition beat :: "bool \<Rightarrow> account_run \<Rightarrow> taken \<times> account_run" where
  "beat streaming r =
     (if streaming \<and> sr_committed (ar_down r)
      then (let (ok, d) = WriteHeartbeat (ar_down r) in (if ok then GoOn else Stop True client_gone, r\<lparr>ar_down := d\<rparr>))
      else (GoOn, r))"

section \<open>Codex\<close>

definition codex_prepare :: "header \<Rightarrow> downstream \<Rightarrow> downstream" where
  "codex_prepare h d = set_header ''X-Accel-Buffering'' ''no'' (set_header ''Content-Type'' ''text/event-stream; charset=utf-8''
     (d\<lparr>dn_header := header_del ''Content-Length'' (copyResponseHeaders h (dn_header d))\<rparr>))"

definition codex_chunks ::
    "(nat \<Rightarrow> string) \<Rightarrow> instant \<Rightarrow> (nat \<Rightarrow> nat \<Rightarrow> int) \<Rightarrow> string \<Rightarrow> bool \<Rightarrow> sse_event \<Rightarrow> bool \<Rightarrow> stream_converter option \<Rightarrow>
     (go_error + string list \<times> bool) \<times> stream_converter option" where
  "codex_chunks rand now clk inbound include event semantic conv =
     (case conv of
        None \<Rightarrow> (Inr ([sse_raw event], semantic), None)
      | Some c \<Rightarrow>
          (let (out, c') = Convert rand now clk event c in
           (case out of
              Inl e \<Rightarrow> Inl e
            | Inr co \<Rightarrow> (let chunks = map frame_text (co_frames co) in
                Inr (if inbound = Chat \<and> \<not> include then withoutChatUsage chunks else chunks, co_semantic co)), Some c')))"

definition codex_event ::
    "(nat \<Rightarrow> string) \<Rightarrow> instant \<Rightarrow> (nat \<Rightarrow> nat \<Rightarrow> int) \<Rightarrow> string \<Rightarrow> string \<Rightarrow> bool \<Rightarrow> bool \<Rightarrow> header \<Rightarrow> sse_event \<Rightarrow> account_run \<Rightarrow>
     taken \<times> account_run" where
  "codex_event rand now clk model inbound include streaming h event r =
     (let (res, st) = Consume now model event (ar_codex r); r = r\<lparr>ar_codex := st\<rparr>; next = (if cs_done st then Over else GoOn) in
      case res of
        Inl e \<Rightarrow> (Stop False e, r)
      | Inr (ev, semantic) \<Rightarrow>
          (let r = r\<lparr>ar_content := (ar_content r \<or> semantic)\<rparr> in
           if \<not> streaming then (next, r)
           else (let (out, conv) = codex_chunks rand now clk inbound include ev semantic (ar_conv r); r = r\<lparr>ar_conv := conv\<rparr> in
             case out of
               Inl e \<Rightarrow> (Stop False e, r)
             | Inr (chunks, semantic) \<Rightarrow> flush (codex_prepare h) semantic chunks next r)))"

section \<open>Antigravity\<close>

definition ag_prepare :: "downstream \<Rightarrow> downstream" where
  "ag_prepare d = set_header ''Cache-Control'' ''no-cache'' (set_header ''X-Accel-Buffering'' ''no''
     (set_header ''Content-Type'' ''text/event-stream; charset=utf-8'' d))"

definition ag_event ::
    "(nat \<Rightarrow> string) \<Rightarrow> instant \<Rightarrow> (nat \<Rightarrow> nat \<Rightarrow> int) \<Rightarrow> bool \<Rightarrow> sse_event \<Rightarrow> account_run \<Rightarrow> taken \<times> account_run" where
  "ag_event rand now clk streaming event r =
     (case ar_conv r of
        None \<Rightarrow> (Stop False stream_cut, r)
      | Some c \<Rightarrow>
          (let (out, c') = Convert rand now clk event c; r = r\<lparr>ar_conv := Some c'\<rparr> in
           case out of
             Inl e \<Rightarrow> (Stop False e, r)
           | Inr co \<Rightarrow>
               (let r = r\<lparr>ar_content := (ar_content r \<or> co_semantic co)\<rparr>; next = (if co_done co then Over else GoOn) in
                if streaming then flush ag_prepare (co_semantic co) (map frame_text (co_frames co)) next r else (next, r))))"

section \<open>The loop\<close>

text \<open>\<open>take\<close> is what one event does. The result says why the loop ended.\<close>

fun account_loop ::
    "((nat \<Rightarrow> nat \<Rightarrow> int) \<Rightarrow> sse_event \<Rightarrow> account_run \<Rightarrow> taken \<times> account_run) \<Rightarrow> bool \<Rightarrow> read_end \<Rightarrow> tick list \<Rightarrow> string \<Rightarrow>
     account_run \<Rightarrow> (taken \<times> account_run) option" where
  "account_loop take_event streaming fin [] s r = None"
| "account_loop take_event streaming fin (Cancel # ticks) s r = Some (Stop True client_gone, r)"
| "account_loop take_event streaming fin (Beat # ticks) s r =
     (let (t, r) = beat streaming r in
      if t = GoOn then account_loop take_event streaming fin ticks s r else Some (t, r))"
| "account_loop take_event streaming fin (Arrive clk # ticks) s r =
     (case ReadSSEEvent fin s of
        Inl e \<Rightarrow> Some (Stop False (if e = EndOfFile then stream_cut else read_failed), r)
      | Inr (event, rest) \<Rightarrow>
          (let (t, r) = take_event clk event (r\<lparr>ar_log := ar_log r @ sse_raw event\<rparr>) in
           if t = GoOn then account_loop take_event streaming fin ticks rest r else Some (t, r)))"

definition start_run :: "stream_converter option \<Rightarrow> downstream \<Rightarrow> account_run" where
  "start_run conv d = \<lparr>ar_codex = new_codex_stream, ar_conv = conv, ar_pending = [], ar_log = [], ar_content = False, ar_down = d\<rparr>"

section \<open>The end of an answer\<close>

text \<open>
  The document for a client that did not ask for a stream, the \<open>relay\<close> and the client's side. An
  error before anything was sent goes back to the loop; one after it is told to the client.
\<close>

definition finish_account ::
    "string \<Rightarrow> string \<Rightarrow> (go_error \<Rightarrow> string) \<Rightarrow> bool \<Rightarrow> (account_run \<Rightarrow> go_error + string) \<Rightarrow> (downstream \<Rightarrow> downstream) \<Rightarrow>
     taken \<times> account_run \<Rightarrow> relay \<times> downstream" where
  "finish_account inbound requestID message streaming document prepare = (\<lambda>(t, r).
     let d = ar_down r in
     case t of
       Stop gone e \<Rightarrow>
         if gone then (Recorded None, d)
         else if streaming \<and> sr_committed d then (Recorded (Some e), WriteError inbound ''upstream_error'' (message e) requestID d)
         else (Broken False e, d)
     | _ \<Rightarrow>
         (case document r of
            Inl e \<Rightarrow>
              if streaming \<and> sr_committed d then (Recorded (Some e), WriteError inbound ''upstream_error'' (message e) requestID d)
              else (Broken False e, d)
          | Inr doc \<Rightarrow>
              if streaming then (Delivered, d)
              else (let (ok, d) = write_bytes doc (write_header 200 (prepare d)) in
                (if ok then Delivered else Recorded None, d))))"

definition json_header :: "downstream \<Rightarrow> downstream" where
  "json_header = set_header ''Content-Type'' ''application/json; charset=utf-8''"

definition codex_document ::
    "(nat \<Rightarrow> string) \<Rightarrow> (nat \<Rightarrow> int) \<Rightarrow> instant \<Rightarrow> string \<Rightarrow> string \<Rightarrow> bool \<Rightarrow> account_run \<Rightarrow> go_error + string" where
  "codex_document rand clock now inbound model streaming r =
     bindE (ExtractUsage now (ar_log r) Responses True) (\<lambda>_.
     if streaming then Inr []
     else if inbound = Responses then Inr (cs_response (ar_codex r))
     else ConvertResponse rand clock (cs_response (ar_codex r)) Responses inbound model)"

definition proxyCodex ::
    "(nat \<Rightarrow> string) \<Rightarrow> (nat \<Rightarrow> int) \<Rightarrow> instant \<Rightarrow> string \<Rightarrow> string \<Rightarrow> bool \<Rightarrow> bool \<Rightarrow> read_end \<Rightarrow> header \<Rightarrow> tick list \<Rightarrow> string \<Rightarrow>
     string \<Rightarrow> (go_error \<Rightarrow> string) \<Rightarrow> downstream \<Rightarrow> (relay \<times> downstream) option" where
  "proxyCodex rand clock now model inbound include streaming fin h ticks s requestID message d =
     (case (if streaming \<and> inbound \<noteq> Responses then map_sum id Some (NewStreamConverter (clock 0) Responses inbound model) else Inr None) of
        Inl e \<Rightarrow> Some (Broken False e, d)
      | Inr conv \<Rightarrow>
          map_option (finish_account inbound requestID message streaming (codex_document rand clock now inbound model streaming)
              (\<lambda>d. json_header (d\<lparr>dn_header := header_del ''Content-Length'' (copyResponseHeaders h (dn_header d))\<rparr>)))
            (account_loop (\<lambda>clk. codex_event rand now clk model inbound include streaming h) streaming fin ticks s (start_run conv d)))"

definition ag_document ::
    "(nat \<Rightarrow> string) \<Rightarrow> (nat \<Rightarrow> int) \<Rightarrow> string \<Rightarrow> string \<Rightarrow> bool \<Rightarrow> account_run \<Rightarrow> go_error + string" where
  "ag_document rand clock inbound model streaming r =
     (case ar_conv r of
        None \<Rightarrow> Inl stream_cut
      | Some c \<Rightarrow>
          (case AntigravityResponse c of
             (resp, Some e) \<Rightarrow> Inl e
           | (resp, None) \<Rightarrow>
               if streaming then Inr []
               else (let resp = resp\<lparr>resp_model := model\<rparr>;
                         resp = (if inbound = Messages
                           then resp\<lparr>resp_usage := AntigravityAccountingUsage (resp_usage resp)\<rparr> else resp)
                     in EncodeResponse rand clock resp inbound)))"

definition proxyAntigravity ::
    "(nat \<Rightarrow> string) \<Rightarrow> (nat \<Rightarrow> int) \<Rightarrow> instant \<Rightarrow> string \<Rightarrow> string \<Rightarrow> bool \<Rightarrow> bool \<Rightarrow> (ag_turn \<Rightarrow> go_error option) \<Rightarrow> read_end \<Rightarrow>
     tick list \<Rightarrow> string \<Rightarrow> string \<Rightarrow> (go_error \<Rightarrow> string) \<Rightarrow> downstream \<Rightarrow> (relay \<times> downstream) option" where
  "proxyAntigravity rand clock now model inbound include streaming save fin ticks s requestID message d =
     (case NewStreamConverter (clock 0) Antigravity inbound model of
        Inl e \<Rightarrow> Some (Broken False e, d)
      | Inr c \<Rightarrow>
          map_option (finish_account inbound requestID message streaming (ag_document rand clock inbound model streaming) json_header)
            (account_loop (\<lambda>clk. ag_event rand now clk streaming) streaming fin ticks s
               (start_run (Some (SetAntigravityToolStore save (SetChatUsage include c))) d)))"

section \<open>Nothing is sent before the content\<close>

definition untouched :: "downstream \<Rightarrow> downstream \<Rightarrow> bool" where
  "untouched d d' \<longleftrightarrow> \<not> sr_committed d' \<longrightarrow> dn_received d' = dn_received d \<and> \<not> sr_committed d"

lemma untouched_refl [simp]: "untouched d d"
  by (simp add: untouched_def)

lemma untouched_trans: "untouched d e \<Longrightarrow> untouched e f \<Longrightarrow> untouched d f"
  by (auto simp: untouched_def)

lemma Write_commits: "sr_committed (snd (Write b d))"
  by (simp add: Write_def write_bytes_def Let_def)

lemma untouched_Write: "Write b e = (ok, d') \<Longrightarrow> untouched d d'"
  using Write_commits [of b e] by (simp add: untouched_def)

lemma flush_untouched: "flush prepare semantic chunks next r = (t, r') \<Longrightarrow> untouched (ar_down r) (ar_down r')"
  by (auto simp: flush_def Let_def split: prod.splits if_splits dest: untouched_Write [where d = "ar_down r"])

lemma beat_untouched: "beat streaming r = (t, r') \<Longrightarrow> untouched (ar_down r) (ar_down r')"
  by (auto simp: beat_def WriteHeartbeat_def split: prod.splits if_splits dest: untouched_Write [where d = "ar_down r"])

lemma codex_event_untouched:
  "codex_event rand now clk model inbound include streaming h event r = (t, r') \<Longrightarrow> untouched (ar_down r) (ar_down r')"
  by (auto simp: codex_event_def Let_def split: prod.splits sum.splits if_splits dest!: flush_untouched)

lemma ag_event_untouched: "ag_event rand now clk streaming event r = (t, r') \<Longrightarrow> untouched (ar_down r) (ar_down r')"
  by (auto simp: ag_event_def Let_def split: prod.splits sum.splits option.splits if_splits dest!: flush_untouched)

lemma account_loop_untouched:
  assumes "\<And>clk event r t r'. take_event clk event r = (t, r') \<Longrightarrow> untouched (ar_down r) (ar_down r')"
    and "account_loop take_event streaming fin ticks s r = Some (t, r')"
  shows "untouched (ar_down r) (ar_down r')"
  using assms
proof (induction take_event streaming fin ticks s r rule: account_loop.induct)
  case (3 take_event streaming fin ticks s r)
  obtain u r1 where b: "beat streaming r = (u, r1)" by (rule prod.exhaust)
  note r1 = beat_untouched [OF b]
  show ?case
  proof (cases "u = GoOn")
    case True
    with 3 b have "untouched (ar_down r1) (ar_down r')" by auto
    with r1 show ?thesis by (rule untouched_trans)
  next
    case False
    with 3(3) b r1 show ?thesis by auto
  qed
next
  case (4 take_event streaming fin clk ticks s r)
  show ?case
  proof (cases "ReadSSEEvent fin s")
    case (Inl e)
    with 4(3) show ?thesis by auto
  next
    case (Inr x)
    then obtain event rest where read: "ReadSSEEvent fin s = Inr (event, rest)" by (cases x) auto
    obtain u r1 where t: "take_event clk event (r\<lparr>ar_log := ar_log r @ sse_raw event\<rparr>) = (u, r1)" by (rule prod.exhaust)
    from 4(2) [OF t] have r1: "untouched (ar_down r) (ar_down r1)" by simp
    show ?thesis
    proof (cases "u = GoOn")
      case True
      with 4(3) read t have run: "account_loop take_event streaming fin ticks rest r1 = Some (t, r')" by simp
      have "untouched (ar_down r1) (ar_down r')"
        by (rule 4(1) [OF read refl refl t [symmetric] True _ run]) (rule 4(2))
      with r1 show ?thesis by (rule untouched_trans)
    next
      case False
      with 4(3) read t r1 show ?thesis by auto
    qed
  qed
qed auto

lemma finish_broken:
  "finish_account inbound i message streaming document prepare (t, r) = (Broken c e, d) \<Longrightarrow>
   d = ar_down r \<and> \<not> c \<and> \<not> (streaming \<and> sr_committed d)"
  by (auto simp: finish_account_def Let_def split: taken.splits sum.splits if_splits prod.splits)

text \<open>A Codex or Antigravity answer that goes back to the loop has sent nothing in a stream.\<close>

lemma proxyCodex_untouched:
  assumes "proxyCodex rand clock now model inbound include True fin h ticks s i message d = Some (Broken c e, d')"
  shows "dn_received d' = dn_received d"
proof (cases "inbound = Responses")
  case True
  with assms obtain t r where run: "account_loop (\<lambda>clk. codex_event rand now clk model inbound include True h) True fin ticks s
      (start_run None d) = Some (t, r)" and "finish_account inbound i message True (codex_document rand clock now inbound model True)
      (\<lambda>d. json_header (d\<lparr>dn_header := header_del ''Content-Length'' (copyResponseHeaders h (dn_header d))\<rparr>)) (t, r) = (Broken c e, d')"
    by (auto simp: proxyCodex_def)
  from finish_broken [OF this(2)] account_loop_untouched [OF codex_event_untouched run] show ?thesis
    by (auto simp: untouched_def start_run_def)
next
  case False
  show ?thesis
  proof (cases "NewStreamConverter (clock 0) Responses inbound model")
    case (Inl err)
    with assms False show ?thesis by (simp add: proxyCodex_def)
  next
    case (Inr conv)
    with assms False obtain t r where run: "account_loop (\<lambda>clk. codex_event rand now clk model inbound include True h) True fin ticks s
        (start_run (Some conv) d) = Some (t, r)" and "finish_account inbound i message True (codex_document rand clock now inbound model True)
        (\<lambda>d. json_header (d\<lparr>dn_header := header_del ''Content-Length'' (copyResponseHeaders h (dn_header d))\<rparr>)) (t, r) = (Broken c e, d')"
      by (auto simp: proxyCodex_def)
    from finish_broken [OF this(2)] account_loop_untouched [OF codex_event_untouched run] show ?thesis
      by (auto simp: untouched_def start_run_def)
  qed
qed

lemma proxyAntigravity_untouched:
  assumes "proxyAntigravity rand clock now model inbound include True save fin ticks s i message d = Some (Broken c e, d')"
  shows "dn_received d' = dn_received d"
proof (cases "NewStreamConverter (clock 0) Antigravity inbound model")
  case (Inl err)
  with assms show ?thesis by (simp add: proxyAntigravity_def)
next
  case (Inr conv)
  let ?start = "start_run (Some (SetAntigravityToolStore save (SetChatUsage include conv))) d"
  from Inr assms obtain t r where run: "account_loop (\<lambda>clk. ag_event rand now clk True) True fin ticks s ?start = Some (t, r)"
    and "finish_account inbound i message True (ag_document rand clock inbound model True) json_header (t, r) = (Broken c e, d')"
    by (auto simp: proxyAntigravity_def)
  from finish_broken [OF this(2)] account_loop_untouched [OF ag_event_untouched run] show ?thesis
    by (auto simp: untouched_def start_run_def)
qed

text \<open>For a client that did not ask for a stream the loop writes nothing at all.\<close>

lemma account_loop_silent:
  assumes "\<And>clk event r t r'. take_event clk event r = (t, r') \<Longrightarrow> ar_down r' = ar_down r"
    and "account_loop take_event False fin ticks s r = Some (t, r')"
  shows "ar_down r' = ar_down r"
  using assms(2)
proof (induction ticks arbitrary: s r)
  case (Cons tick ticks)
  show ?case
  proof (cases tick)
    case (Arrive clk)
    with Cons.prems show ?thesis
      by (auto split: sum.splits prod.splits if_splits dest!: assms(1) Cons.IH)
  qed (use Cons in \<open>auto simp: beat_def\<close>)
qed simp

lemma codex_event_silent:
  "codex_event rand now clk model inbound include False h event r = (t, r') \<Longrightarrow> ar_down r' = ar_down r"
  by (auto simp: codex_event_def Let_def split: prod.splits sum.splits)

lemma ag_event_silent: "ag_event rand now clk False event r = (t, r') \<Longrightarrow> ar_down r' = ar_down r"
  by (auto simp: ag_event_def Let_def split: prod.splits sum.splits option.splits)

lemma proxyCodex_silent:
  "proxyCodex rand clock now model inbound include False fin h ticks s i message d = Some (Broken c e, d') \<Longrightarrow> d' = d"
  by (auto simp: proxyCodex_def start_run_def dest!: finish_broken account_loop_silent [OF codex_event_silent, rotated])

lemma proxyAntigravity_silent:
  "proxyAntigravity rand clock now model inbound include False save fin ticks s i message d = Some (Broken c e, d') \<Longrightarrow> d' = d"
  by (auto simp: proxyAntigravity_def start_run_def split: sum.splits
      dest!: finish_broken account_loop_silent [OF ag_event_silent, rotated])

end
