(* ===== verification/RelaySpec.thy ===== *)
theory RelaySpec
  imports RouteLaws RelayLaws RelayAccounts
begin

text \<open>The properties of the route loop and of the proxies.\<close>

section \<open>The loop over the routes\<close>

text \<open>
  C25. Serving a request ends, whatever the upstreams do, provided that the credentials they are
  called with have a revision: with at most as many calls as there are routes plus one retry for
  every key, and with routing events that follow the order of the routes.
\<close>

theorem serving_ends:
  assumes "\<forall>n. revisions_known (world n)"
  shows "\<exists>f s. route_loop parse_time routes world 0 (first_serving b st) = Some (f, s)
     \<and> sv_position s \<le> length routes + card (keys_of routes)
     \<and> (\<exists>is. sorted is \<and> set is \<subseteq> {..<length routes} \<and> list_all2 (event_for routes) is (sv_events s))"
proof -
  have "events_of routes [] (sv_events (first_serving b st))" "\<forall>i \<in> set []. i \<le> sv_index (first_serving b st)"
    by (simp_all add: events_of_def first_serving_def)
  from route_loop_ends [OF assms this, of parse_time 0] obtain f s js where
    "route_loop parse_time routes world 0 (first_serving b st) = Some (f, s)"
    "sv_position s \<le> sv_position (first_serving b st) + budget routes (first_serving b st)"
    "events_of routes js (sv_events s)" by blast
  moreover have "budget routes (first_serving b st) = length routes + card (keys_of routes)"
    by (simp add: budget_def first_serving_def)
  ultimately show ?thesis by (auto simp: first_serving_def events_of_def)
qed

definition codex_route :: "int \<Rightarrow> resolved_route" where
  "codex_route kid = no_route\<lparr>CandidateID := 7, CandidateRevision := 1,
     Provider := no_provider\<lparr>prov_kind := ProviderCodexOAuth\<rparr>, Key := no_key\<lparr>key_id := kid\<rparr>\<rparr>"

text \<open>Every call is refused with status 401: each key is retried once with a new token.\<close>

definition unauthorized :: "nat \<Rightarrow> attempt" where
  "unauthorized n = \<lparr>at_now = int n, at_logged = True, at_answer = Refused 1 False 401 ''{}'' [],
     at_ag_answer = AgNoAnswer, at_waited = True\<rparr>"

definition demo_serving :: "(final \<times> serving) option" where
  "demo_serving = route_loop (\<lambda>_. None) [codex_route 1, codex_route 2] unauthorized 0 (first_serving (\<lambda>_. None) (open_store empty_database))"

theorem serving_ends_witness:
  "map_option fst demo_serving = Some (Failed 503 ''upstream_unavailable'')
   \<and> map_option (\<lambda>r. sv_position (snd r)) demo_serving = Some 4
   \<and> (\<exists>f s. demo_serving = Some (f, s) \<and> sv_position s \<le> 4)"
proof (intro conjI)
  show "map_option fst demo_serving = Some (Failed 503 ''upstream_unavailable'')"
    "map_option (\<lambda>r. sv_position (snd r)) demo_serving = Some 4"
    by code_simp+
  have "\<forall>n. revisions_known (unauthorized n)" by (simp add: revisions_known_def unauthorized_def)
  from serving_ends [OF this, of "\<lambda>_. None" "[codex_route 1, codex_route 2]" "\<lambda>_. None" "open_store empty_database"]
  obtain f s where "demo_serving = Some (f, s)" "sv_position s \<le> 2 + card (keys_of [codex_route 1, codex_route 2])"
    unfolding demo_serving_def by auto
  note run = this
  have "keys_of [codex_route 1, codex_route 2] = {1, 2}" by (simp add: keys_of_def codex_route_def)
  with run(2) have "sv_position s \<le> 4" by simp
  with run(1) show "\<exists>f s. demo_serving = Some (f, s) \<and> sv_position s \<le> 4" by (intro exI conjI)
qed

section \<open>A stream that is passed on\<close>

text \<open>
  The JSON text of a line that carries data, and what the client must get for a line: one whose data
  is an object comes back as an object with the virtual model's name as its member \<open>model\<close> and every
  other member as it was; \<^verbatim>\<open>null\<close> stays \<^verbatim>\<open>null\<close>; any other line is not touched.
\<close>

definition line_data :: "string \<Rightarrow> string option" where
  "line_data line =
     (if has_prefix (trim_space line) ''data:'' then Some (trim_space (drop 5 (trim_space line))) else None)"

definition renamed_line :: "string \<Rightarrow> string \<Rightarrow> string \<Rightarrow> bool" where
  "renamed_line model line out \<longleftrightarrow>
     (case Option.bind (line_data line) parse_json of
        Some (JObj kvs) \<Rightarrow> (\<exists>text kvs'. out = ''data: '' @ text @ [LF] \<and> parse_json text = Some (JObj kvs')
          \<and> (\<forall>k. entry k kvs' = (if k = ''model'' then Some (JStr model) else entry k kvs)))
      | Some JNull \<Rightarrow> out = ''data: '' @ the (line_data line) @ [LF]
      | _ \<Rightarrow> out = line)"

lemma entry_raw_map: "map_option marshal (map_of (raw_map kvs) k) = entry k kvs"
proof (induction kvs rule: rev_induct)
  case (snoc kv kvs)
  then show ?case by (cases kv) (auto simp: raw_map_def entry_def)
qed (simp add: raw_map_def entry_def)

lemma raw_map_distinct: "distinct (map fst (raw_map kvs))"
  by (induction kvs rule: rev_induct) (auto simp: raw_map_def distinct_put)

lemma put_values: "\<forall>x \<in> set (map snd m). P x \<Longrightarrow> P v \<Longrightarrow> \<forall>x \<in> set (map snd (put k v m)). P x"
  by (induction m) auto

lemma done_no_json: "parse_json ''[DONE]'' = None"
  by code_simp

lemma raw_map_wf: "wf_members kvs \<Longrightarrow> \<forall>v \<in> set (map snd (raw_map kvs)). wf_json (marshal v)"
proof (induction kvs rule: rev_induct)
  case (snoc kv kvs)
  from snoc.prems snoc.IH have "\<forall>v \<in> set (map snd (raw_map kvs)). wf_json (marshal v)" "wf_json (marshal (GRaw (snd kv)))" by auto
  from put_values [of _ "\<lambda>v. wf_json (marshal v)", OF this] show ?case by (simp add: raw_map_def)
qed (simp add: raw_map_def)

lemma set_member_read:
  assumes "wf_members kvs"
  obtains kvs' where "parse_json (set_member ''model'' (GStr model) kvs) = Some (JObj kvs')"
    and "\<forall>k. entry k kvs' = (if k = ''model'' then Some (JStr model) else entry k kvs)"
proof -
  let ?m = "put ''model'' (GStr model) (raw_map kvs)"
  have "\<forall>kv \<in> set ?m. wf_json (marshal (snd kv))" using put_values [of _ "\<lambda>v. wf_json (marshal v)", OF raw_map_wf [OF assms], of "GStr model"] by auto
  then have "wf_json (JObj (marshal_members ?m))" by (auto simp: marshal_members_def list_all_iff)
  then have "parse_json (set_member ''model'' (GStr model) kvs) = Some (JObj (marshal_members ?m))"
    unfolding set_member_def marshal_GMap by (rule parse_json_print)
  moreover have "\<forall>k. entry k (marshal_members ?m) = (if k = ''model'' then Some (JStr model) else entry k kvs)"
    by (simp add: entry_marshal distinct_put raw_map_distinct entry_raw_map)
  ultimately show thesis by (rule that)
qed

lemma rewriteSSEModel_renamed: "renamed_line model line (rewriteSSEModel line model)"
proof (cases "line_data line")
  case None
  then show ?thesis by (auto simp: renamed_line_def line_data_def rewriteSSEModel_def Let_def split: if_splits)
next
  case (Some data)
  then have line: "has_prefix (trim_space line) ''data:''" "trim_space (trim_prefix (trim_space line) ''data:'') = data"
    by (auto simp: line_data_def trim_prefix_def eval_nat_numeral split: if_splits)
  show ?thesis
  proof (cases "parse_json data")
    case None
    with Some line show ?thesis
      by (auto simp: renamed_line_def rewriteSSEModel_def rewriteModel_def unmarshal_text_def Let_def)
  next
    case (Some j)
    have "data \<noteq> ''[DONE]''" using Some by (auto simp: done_no_json)
    with line Some have run: "rewriteSSEModel line model = (case rewriteModel data model of Inl e \<Rightarrow> line | Inr text \<Rightarrow> ''data: '' @ text @ [LF])"
      by (simp add: rewriteSSEModel_def Let_def)
    show ?thesis
    proof (cases j)
      case (JObj kvs)
      with Some have "wf_members kvs" by (auto dest: parse_json_wf)
      from set_member_read [OF this] obtain kvs' where "parse_json (set_member ''model'' (GStr model) kvs) = Some (JObj kvs')"
        "\<forall>k. entry k kvs' = (if k = ''model'' then Some (JStr model) else entry k kvs)" .
      with JObj Some \<open>line_data line = Some data\<close> show ?thesis
        unfolding run by (auto simp: renamed_line_def rewriteModel_def unmarshal_text_def okE_def dec_map_def)
    qed (use Some \<open>line_data line = Some data\<close> run in
        \<open>auto simp: renamed_line_def rewriteModel_def unmarshal_text_def okE_def dec_map_def\<close>)
  qed
qed

text \<open>
  C26. A stream that is passed on without a failure of the client: between keep-alive comments the
  client has received, in the same protocol, every line of the upstream, its own member \<open>model\<close> set
  to the virtual model's name and nothing else changed, so that a model's name inside another member
  (the response of a Responses event, the message of a Messages event) is the upstream's; otherwise
  the frames the converter gives for the events read so far, the last of which was the end. The log
  has the upstream's text byte for byte.
\<close>

theorem relayed_stream_exact:
  assumes "relay_stream rand now created upstream inbound model fin st h ticks s d = Some r"
    and "re_status r = RelayCompleted"
  shows "\<exists>ws. received_pieces d ws (re_down r)
     \<and> (if upstream = inbound then re_log r = s
          \<and> (\<exists>ls. concat ls = s \<and> (\<forall>l \<in> set ls. l \<noteq> [] \<and> LF \<notin> set (butlast l))
               \<and> list_all2 (renamed_line model) ls (answer_pieces ws))
        else (\<exists>c c' inputs outs rest. NewStreamConverter created upstream inbound model = Inr c
               \<and> convert_all rand now inputs c = (Inr outs, c') \<and> answer_pieces ws = frames_of outs
               \<and> outs \<noteq> [] \<and> co_done (last outs) \<and> re_log r = raw_text_of inputs \<and> s = re_log r @ rest))"
proof (cases "upstream = inbound")
  case True
  let ?r = "(start_relay (begin_passthrough st h (set_header ''X-Accel-Buffering'' ''no'' d)))\<lparr>re_committed := True\<rparr>"
  from assms(1) True have "proxyPassthroughEvents fin model ticks s ?r = Some r"
    by (simp add: relay_stream_def Let_def)
  from passthrough_run [OF this] assms(2) obtain ws ls where
    "received_pieces (re_down ?r) ws (re_down r)" "concat ls = s" "re_log r = s"
    "answer_pieces ws = map (\<lambda>l. rewriteSSEModel l model) ls" "\<forall>l \<in> set ls. l \<noteq> [] \<and> LF \<notin> set (butlast l)"
    by (auto simp: start_relay_def)
  moreover from this(1) have "received_pieces d ws (re_down r)"
    by (simp add: received_pieces_def start_relay_def)
  moreover have "list_all2 (renamed_line model) ls (map (\<lambda>l. rewriteSSEModel l model) ls)"
    by (simp add: list_all2_map2 rewriteSSEModel_renamed list.rel_refl)
  ultimately show ?thesis using True by (intro exI [of _ ws]) auto
next
  case False
  let ?r = "start_relay (set_header ''X-Accel-Buffering'' ''no'' d)"
  from assms False obtain c where c: "NewStreamConverter created upstream inbound model = Inr c"
    and "proxyConvertedEvents rand now fin st h ticks s c ?r = Some r"
    by (auto simp: relay_stream_def Let_def start_relay_def split: sum.splits)
  from converted_run [OF this(2)] assms(2) obtain a where a: "accounts_for rand now s c ?r r a" by auto
  with assms(2) have "received_pieces d (ac_pieces a) (re_down r)"
    "convert_all rand now (ac_inputs a) c = (Inr (ac_outs a), ac_end a)"
    "answer_pieces (ac_pieces a) = frames_of (ac_outs a)" "ac_outs a \<noteq> []" "co_done (last (ac_outs a))"
    "re_log r = raw_text_of (ac_inputs a)" "s = re_log r @ ac_rest a"
    by (simp_all add: accounts_for_def start_relay_def received_pieces_def)
  with c False show ?thesis by (intro exI [of _ "ac_pieces a"]) auto
qed

definition demo_stream :: string where
  "demo_stream = ''data: '' @ print_json (JObj [(''model'', JStr ''real'')]) @ [LF, LF]"

definition demo_relay :: "relayed option" where
  "demo_relay = relay_stream (\<lambda>_. ''r'') 0 0 Chat Chat ''virtual'' EndOfFile 200 [] [Arrive (\<lambda>_ _. 0), Beat, Arrive (\<lambda>_ _. 0), Arrive (\<lambda>_ _. 0)]
     demo_stream (new_downstream None)"

theorem relayed_stream_witness:
  "demo_relay \<noteq> None \<and> re_status (the demo_relay) = RelayCompleted
   \<and> dn_received (re_down (the demo_relay)) =
       ''data: '' @ print_json (JObj [(''model'', JStr ''virtual'')]) @ [LF] @ keep_alive @ [LF]
   \<and> (\<exists>ws. received_pieces (new_downstream None) ws (re_down (the demo_relay)) \<and> answer_pieces ws \<noteq> [])"
proof -
  have "map_option (\<lambda>r. re_status r = RelayCompleted \<and> dn_received (re_down r) =
       ''data: '' @ print_json (JObj [(''model'', JStr ''virtual'')]) @ [LF] @ keep_alive @ [LF]) demo_relay = Some True"
    by code_simp
  then obtain r where r: "demo_relay = Some r" "re_status r = RelayCompleted"
    "dn_received (re_down r) = ''data: '' @ print_json (JObj [(''model'', JStr ''virtual'')]) @ [LF] @ keep_alive @ [LF]"
    by (cases demo_relay) auto
  from relayed_stream_exact [OF r(1) [unfolded demo_relay_def] r(2)] obtain ws ls where
    ws: "received_pieces (new_downstream None) ws (re_down r)" "concat ls = demo_stream"
    "\<forall>l \<in> set ls. l \<noteq> [] \<and> LF \<notin> set (butlast l)" "list_all2 (renamed_line ''virtual'') ls (answer_pieces ws)"
    by auto
  have "ls \<noteq> []" using ws(2) by (auto simp: demo_stream_def)
  with ws(4) have "answer_pieces ws \<noteq> []" by auto
  with ws(1) show ?thesis unfolding r(1) option.sel r(3)
    by (intro conjI exI [of _ ws] r(2)) simp_all
qed

section \<open>Streams that fail\<close>

text \<open>An attempt that a proxy hands back to the loop as failed, with the client's side before and after.\<close>

inductive handed_back :: "downstream \<Rightarrow> downstream \<Rightarrow> bool" where
  stream: "proxyStream rand now created upstream inbound model fin st h ticks s i message d = Some (Some err, d') \<Longrightarrow> handed_back d d'"
| buffered: "proxyBuffered rand clock upstream inbound model body st h d = (Inl err, d') \<Longrightarrow> handed_back d d'"
| codex: "proxyCodex rand clock now model inbound include streaming fin h ticks s i message d = Some (Broken c err, d')
    \<Longrightarrow> handed_back d d'"
| antigravity: "proxyAntigravity rand clock now model inbound include streaming save fin ticks s i message d = Some (Broken c err, d')
    \<Longrightarrow> handed_back d d'"

text \<open>
  C27. Whatever the proxies of the four kinds of answer read, an attempt that is handed back as
  failed, so that the loop may try another route, has given the client nothing but keep-alive
  comments; so the answer of the next route is not mixed with parts of a failed one.
\<close>

theorem failed_attempt_leaves_no_trace:
  assumes "handed_back d d'"
  shows "\<exists>n. dn_received d' = dn_received d @ concat (replicate n keep_alive)"
proof -
  have nothing: "dn_received d' = dn_received d \<Longrightarrow> ?thesis" by (intro exI [of _ 0]) simp
  from assms show ?thesis
  proof cases
    case stream
    then show ?thesis using failed_relay by blast
  next
    case buffered
    then show ?thesis by (auto intro!: nothing simp: proxyBuffered_def split: sum.splits prod.splits)
  next
    case (codex _ _ _ _ _ _ streaming)
    then show ?thesis by (cases streaming) (auto intro!: nothing dest: proxyCodex_untouched proxyCodex_silent)
  next
    case (antigravity _ _ _ _ _ _ streaming)
    then show ?thesis by (cases streaming) (auto intro!: nothing dest: proxyAntigravity_untouched proxyAntigravity_silent)
  qed
qed

definition broken_run :: "(go_error option \<times> downstream) option" where
  "broken_run = proxyStream (\<lambda>_. ''r'') 0 0 Chat Messages ''virtual'' EndOfFile 200 [] [Beat, Arrive (\<lambda>_ _. 0)]
     (''data: {broken'' @ [LF, LF]) ''req_1'' (\<lambda>_. ''invalid'') (new_downstream None)"

theorem failed_attempt_witness:
  "\<exists>err d. broken_run = Some (Some err, d) \<and> dn_received d = keep_alive
     \<and> (\<exists>n. dn_received d = concat (replicate n keep_alive))"
proof -
  have "map_option (\<lambda>(res, d). res \<noteq> None \<and> dn_received d = keep_alive) broken_run = Some True" by code_simp
  then obtain err d where run: "broken_run = Some (Some err, d)" "dn_received d = keep_alive"
    by (cases broken_run) (auto split: prod.splits)
  from failed_attempt_leaves_no_trace [OF handed_back.stream [OF run(1) [unfolded broken_run_def]]]
  have "\<exists>n. dn_received d = concat (replicate n keep_alive)" by (simp add: new_downstream_def)
  with run show ?thesis by blast
qed

section \<open>Observations\<close>

text \<open>
  A keep-alive comment between the lines of an event ends the event: the client reads the name and
  the data as two events. Here the ticker fires after the first line.
\<close>

lemma heartbeat_splits_event:
  "map_option (\<lambda>r. map (\<lambda>ev. (sse_name ev, sse_data ev)) (fst (read_all EndOfFile (dn_received (re_down r)))))
     (relay_stream (\<lambda>_. ''r'') 0 0 Messages Messages ''m'' EndOfFile 200 [] [Arrive (\<lambda>_ _. 0), Beat, Arrive (\<lambda>_ _. 0), Arrive (\<lambda>_ _. 0), Arrive (\<lambda>_ _. 0)]
       (''event: ping'' @ [LF] @ ''data: []'' @ [LF, LF]) (new_downstream None))
   = Some [(''ping'', []), ([], ''[]'')]"
  by code_simp

text \<open>
  Passing on a line sets the member \<open>model\<close> of the event itself; the model inside a Responses or
  Messages event stays the upstream's.
\<close>

lemma nested_model_kept:
  "rewriteSSEModel (''data: '' @ print_json (JObj [(''response'', JObj [(''model'', JStr ''real'')])])) ''virtual'' =
   ''data: '' @ print_json (JObj [(''model'', JStr ''virtual''), (''response'', JObj [(''model'', JStr ''real'')])]) @ [LF]"
  by code_simp

end
