(* ===== verification/RequestLog.thy ===== *)
theory RequestLog
  imports Routing GoHttp GoStrings "HOL-Library.Product_Lexorder"
begin

text \<open>
  The log of requests and attempts (internal/store/logs.go, payload.go, request_routing.go,
  upstream_limits.go), what retention and clean-up take out of it (retention.go, storage.go), and
  the figures of the overview (performance.go). Each log row has all columns the store writes; the
  tables of \<open>database\<close> show the columns the configuration refers to (\<open>log_columns\<close>), so that a
  statement on the log meets the same constraints. \<open>gzip\<close> and \<open>gunzip\<close> are parameters. The body
  of a row is a byte string, where \<^verbatim>\<open>NULL\<close> reads as the empty one.
\<close>

section \<open>Rows\<close>

record token_columns =
  tc_input :: "int option"
  tc_cache_read :: "int option"
  tc_cache_write :: "int option"
  tc_output :: "int option"
  tc_reasoning :: "int option"
  tc_total :: "int option"

definition no_tokens :: token_columns where
  "no_tokens = \<lparr>tc_input = None, tc_cache_read = None, tc_cache_write = None, tc_output = None, tc_reasoning = None, tc_total = None\<rparr>"

record payload =
  pl_headers :: string
  pl_body :: string
  pl_encoding :: string

definition no_payload :: payload where
  "no_payload = \<lparr>pl_headers = [], pl_body = [], pl_encoding = ''identity''\<rparr>"

record log_request = request_row +
  lr_key_name :: string
  lr_upstream_model :: string
  lr_provider :: string
  lr_protocol :: string
  lr_endpoint :: string
  lr_stream :: bool
  lr_effort :: string
  lr_ip :: string
  lr_agent :: string
  lr_request :: payload
  lr_response :: payload
  lr_status_code :: "int option"
  lr_tokens :: token_columns
  lr_first_content :: "int option"
  lr_total_ms :: "int option"
  lr_error :: string
  lr_created :: instant
  lr_completed :: "instant option"
  lr_pruned :: "instant option"

record log_attempt = attempt_row +
  la_provider_name :: string
  la_key_name :: string
  la_model :: string
  la_protocol :: string
  la_endpoint :: string
  la_stream :: bool
  la_ignored :: "string list"
  la_request :: payload
  la_response :: payload
  la_status_code :: "int option"
  la_usage :: string
  la_first_byte :: "int option"
  la_first_content :: "int option"
  la_total_ms :: "int option"
  la_error :: string
  la_created :: instant
  la_completed :: "instant option"
  la_pruned :: "instant option"

record routing_event =
  re_candidate :: int
  re_key :: int
  re_action :: string

record routing_row =
  rr_request :: string
  rr_replay_of :: string
  rr_decisions :: "route_decision list"
  rr_events :: "routing_event list"

record security_row =
  se_id :: int
  se_type :: string
  se_ip :: string
  se_agent :: string
  se_endpoint :: string
  se_reason :: string
  se_created :: instant

record limit_row =
  ul_key :: int
  ul_model :: string
  ul_request :: string
  ul_observed :: instant
  ul_headers :: header

record cleanup_result =
  cl_mode :: string
  cl_count :: int
  cl_from :: instant
  cl_to :: instant
  cl_finished :: instant
  cl_error :: bool

record logs =
  lg_requests :: "log_request table"
  lg_attempts :: "log_attempt table"
  lg_routing :: "routing_row table"
  lg_security :: "security_row table"
  lg_limits :: "limit_row table"
  lg_cleanup :: "cleanup_result option"

section \<open>Statements\<close>

text \<open>The columns of the log the configuration sees, and a statement that the constraints let pass.\<close>

definition log_columns :: "logs \<Rightarrow> database \<Rightarrow> database" where
  "log_columns l db = db\<lparr>requests := \<lparr>rows = map request_row.truncate (rows (lg_requests l)), last_id = last_id (lg_requests l)\<rparr>,
     attempts := \<lparr>rows = map attempt_row.truncate (rows (lg_attempts l)), last_id = last_id (lg_attempts l)\<rparr>\<rparr>"

definition log_exec :: "database \<Rightarrow> logs \<Rightarrow> store_error + logs" where
  "log_exec db l = (if schema_ok (log_columns l db) \<and> (\<forall>r \<in> set (rows (lg_routing l)). rr_request r \<in> r_id ` set (rows (lg_requests l)))
     then Inr l else Inl ConstraintFailed)"

text \<open>Bodies of 4 KiB and more are compressed where that makes them shorter.\<close>

definition encodePayload :: "(string \<Rightarrow> string) \<Rightarrow> string \<Rightarrow> string \<times> string" where
  "encodePayload gzip body =
     (if length body < 4096 then (body, ''identity'')
      else if length (gzip body) \<ge> length body then (body, ''identity'')
      else (gzip body, ''gzip''))"

definition decodePayload :: "(string \<Rightarrow> string option) \<Rightarrow> string \<Rightarrow> string \<Rightarrow> string option" where
  "decodePayload gunzip body encoding =
     (if encoding = [] \<or> encoding = ''identity'' then Some body
      else if encoding = ''gzip'' then gunzip body else None)"

definition payload_of :: "(string \<Rightarrow> string) \<Rightarrow> string \<Rightarrow> string \<Rightarrow> payload" where
  "payload_of gzip headers body = (case encodePayload gzip body of (b, e) \<Rightarrow> \<lparr>pl_headers = headers, pl_body = b, pl_encoding = e\<rparr>)"

definition nullableInt :: "int \<Rightarrow> int option" where
  "nullableInt n = (if n = 0 then None else Some n)"

section \<open>Writing the log\<close>

record request_start =
  rs_id :: string
  rs_access_key :: "int option"
  rs_key_name :: string
  rs_model :: string
  rs_protocol :: string
  rs_endpoint :: string
  rs_stream :: bool
  rs_effort :: string
  rs_ip :: string
  rs_agent :: string
  rs_headers :: string
  rs_body :: string
  rs_created :: instant

definition StartRequest :: "(string \<Rightarrow> string) \<Rightarrow> request_start \<Rightarrow> database \<Rightarrow> logs \<Rightarrow> store_error + logs" where
  "StartRequest gzip i db l = log_exec db (l\<lparr>lg_requests := insert_row (\<lambda>_.
     \<lparr>r_id = rs_id i, r_status = ''in_progress'', r_access_key = rs_access_key i, r_model = rs_model i,
      lr_key_name = rs_key_name i, lr_upstream_model = [], lr_provider = [], lr_protocol = rs_protocol i, lr_endpoint = rs_endpoint i,
      lr_stream = rs_stream i, lr_effort = rs_effort i, lr_ip = rs_ip i, lr_agent = rs_agent i,
      lr_request = payload_of gzip (rs_headers i) (rs_body i), lr_response = no_payload, lr_status_code = None, lr_tokens = no_tokens,
      lr_first_content = None, lr_total_ms = None, lr_error = [], lr_created = rs_created i, lr_completed = None, lr_pruned = None\<rparr>)
     (lg_requests l)\<rparr>)"

record attempt_start =
  as_stream :: bool
  as_ignored :: "string list"
  as_request :: string
  as_position :: int
  as_provider :: int
  as_provider_name :: string
  as_key :: int
  as_key_name :: string
  as_candidate :: int
  as_model :: string
  as_protocol :: string
  as_endpoint :: string
  as_headers :: string
  as_body :: string
  as_created :: instant

definition StartAttempt :: "(string \<Rightarrow> string) \<Rightarrow> attempt_start \<Rightarrow> database \<Rightarrow> logs \<Rightarrow> store_error + int \<times> logs" where
  "StartAttempt gzip i db l =
     bindE (log_exec db (l\<lparr>lg_attempts := insert_row (\<lambda>id.
       \<lparr>t_id = id, t_request = as_request i, t_position = as_position i, t_provider = as_provider i, t_key = as_key i,
        t_candidate = as_candidate i, t_status = ''in_progress'', la_provider_name = as_provider_name i, la_key_name = as_key_name i,
        la_model = as_model i, la_protocol = as_protocol i, la_endpoint = as_endpoint i, la_stream = as_stream i, la_ignored = as_ignored i,
        la_request = payload_of gzip (as_headers i) (as_body i), la_response = no_payload, la_status_code = None, la_usage = [],
        la_first_byte = None, la_first_content = None, la_total_ms = None, la_error = [], la_created = as_created i,
        la_completed = None, la_pruned = None\<rparr>) (lg_attempts l)\<rparr>))
     (\<lambda>l. Inr (last_id (lg_attempts l), l))"

record attempt_result =
  ar_id :: int
  ar_status :: string
  ar_status_code :: int
  ar_headers :: string
  ar_body :: string
  ar_usage :: string
  ar_first_byte :: "int option"
  ar_first_content :: "int option"
  ar_total_ms :: int
  ar_error :: string
  ar_completed :: instant

definition CompleteAttempt :: "(string \<Rightarrow> string) \<Rightarrow> attempt_result \<Rightarrow> logs \<Rightarrow> logs" where
  "CompleteAttempt gzip r l = l\<lparr>lg_attempts := update_where (\<lambda>t. t_id t = ar_id r)
     (\<lambda>t. t\<lparr>t_status := ar_status r, la_status_code := nullableInt (ar_status_code r),
        la_response := payload_of gzip (ar_headers r) (ar_body r), la_usage := ar_usage r, la_first_byte := ar_first_byte r,
        la_first_content := ar_first_content r, la_total_ms := Some (ar_total_ms r), la_error := ar_error r,
        la_completed := Some (ar_completed r)\<rparr>) (lg_attempts l)\<rparr>"

record request_result =
  rd_id :: string
  rd_status :: string
  rd_status_code :: int
  rd_headers :: string
  rd_body :: string
  rd_tokens :: token_columns
  rd_first_content :: "int option"
  rd_total_ms :: int
  rd_error :: string
  rd_completed :: instant

text \<open>The last attempt of a request that satisfies \<open>P\<close>.\<close>

definition last_attempt :: "(log_attempt \<Rightarrow> bool) \<Rightarrow> string \<Rightarrow> logs \<Rightarrow> log_attempt option" where
  "last_attempt P i l =
     (case rev (order_by t_position (select (\<lambda>t. t_request t = i \<and> P t) (lg_attempts l))) of [] \<Rightarrow> None | t # _ \<Rightarrow> Some t)"

definition CompleteRequest :: "(string \<Rightarrow> string) \<Rightarrow> request_result \<Rightarrow> logs \<Rightarrow> logs" where
  "CompleteRequest gzip r l =
     (let final = last_attempt (\<lambda>t. t_status t = ''completed'') (rd_id r) l in
      l\<lparr>lg_requests := update_where (\<lambda>q. r_id q = rd_id r)
        (\<lambda>q. q\<lparr>r_status := rd_status r, lr_status_code := nullableInt (rd_status_code r),
           lr_response := payload_of gzip (rd_headers r) (rd_body r), lr_tokens := rd_tokens r,
           lr_first_content := rd_first_content r, lr_total_ms := Some (rd_total_ms r), lr_error := rd_error r,
           lr_completed := Some (rd_completed r),
           lr_upstream_model := (case final of None \<Rightarrow> [] | Some t \<Rightarrow> la_model t),
           lr_provider := (case final of None \<Rightarrow> [] | Some t \<Rightarrow> la_provider_name t)\<rparr>) (lg_requests l)\<rparr>)"

definition CreateSecurityEvent :: "instant \<Rightarrow> string \<Rightarrow> string \<Rightarrow> string \<Rightarrow> string \<Rightarrow> string \<Rightarrow> logs \<Rightarrow> logs" where
  "CreateSecurityEvent now event ip agent endpoint reason l = l\<lparr>lg_security := insert_row (\<lambda>id.
     \<lparr>se_id = id, se_type = event, se_ip = ip, se_agent = agent, se_endpoint = endpoint, se_reason = reason, se_created = now\<rparr>) (lg_security l)\<rparr>"

definition interrupted :: string where
  "interrupted = ''gateway exited before completion''"

definition CloseInterruptedRequests :: "instant \<Rightarrow> logs \<Rightarrow> nat \<times> logs" where
  "CloseInterruptedRequests now l =
     (length (select (\<lambda>q. r_status q = ''in_progress'') (lg_requests l)),
      l\<lparr>lg_attempts := update_where (\<lambda>t. t_status t = ''in_progress'')
          (\<lambda>t. t\<lparr>t_status := ''failed'', la_error := interrupted, la_completed := Some now\<rparr>) (lg_attempts l),
        lg_requests := update_where (\<lambda>q. r_status q = ''in_progress'')
          (\<lambda>q. q\<lparr>r_status := ''failed'', lr_error := interrupted, lr_completed := Some now\<rparr>) (lg_requests l)\<rparr>)"

section \<open>Routing of a request\<close>

definition SuccessfulRequestRoute :: "string \<Rightarrow> logs \<Rightarrow> store_error + int \<times> int" where
  "SuccessfulRequestRoute i l =
     (case last_attempt (\<lambda>t. t_status t = ''completed'' \<and> some_row (\<lambda>r. r_id r = t_request t \<and> r_status r = ''completed'') (lg_requests l)) i l of
        None \<Rightarrow> Inl NoRows
      | Some t \<Rightarrow> Inr (t_candidate t, t_key t))"

definition SaveRequestRouting :: "string \<Rightarrow> string \<Rightarrow> route_decision list \<Rightarrow> database \<Rightarrow> logs \<Rightarrow> store_error + logs" where
  "SaveRequestRouting i replay decisions db l = log_exec db (l\<lparr>lg_routing :=
     (if some_row (\<lambda>r. rr_request r = i) (lg_routing l)
      then update_where (\<lambda>r. rr_request r = i) (\<lambda>r. r\<lparr>rr_replay_of := replay, rr_decisions := decisions\<rparr>) (lg_routing l)
      else insert_row (\<lambda>_. \<lparr>rr_request = i, rr_replay_of = replay, rr_decisions = decisions, rr_events = []\<rparr>) (lg_routing l))\<rparr>)"

definition AddRoutingEvent :: "string \<Rightarrow> routing_event \<Rightarrow> logs \<Rightarrow> logs" where
  "AddRoutingEvent i e l = l\<lparr>lg_routing := update_where (\<lambda>r. rr_request r = i) (\<lambda>r. r\<lparr>rr_events := rr_events r @ [e]\<rparr>) (lg_routing l)\<rparr>"

section \<open>Limits of an upstream\<close>

definition limit_header :: "string \<Rightarrow> bool" where
  "limit_header name =
     (let lower = to_lower name in
      lower = ''retry-after'' \<or> has_prefix lower ''x-ratelimit-'' \<or> has_prefix lower ''ratelimit'' \<or> has_prefix lower ''anthropic-ratelimit-''
      \<or> has_prefix lower ''x-codex-'' \<and> (contains_text lower ''used-percent'' \<or> contains_text lower ''reset'' \<or> contains_text lower ''window''))"

definition ObserveUpstreamLimits :: "instant \<Rightarrow> resolved_route \<Rightarrow> string \<Rightarrow> header \<Rightarrow> database \<Rightarrow> logs \<Rightarrow> logs" where
  "ObserveUpstreamLimits now route request h db l =
     (let values = filter (\<lambda>(name, _). limit_header name) h in
      if values = [] then l
      else if \<not> some_row (\<lambda>k. k_id k = key_id (Key route) \<and> k_revision k = key_revision (Key route) \<and> k_archived k = None) (upstream_keys db) then l
      else l\<lparr>lg_limits := upsert (\<lambda>u. ul_key u = key_id (Key route) \<and> ul_model u = UpstreamModel route)
          \<lparr>ul_key = key_id (Key route), ul_model = UpstreamModel route, ul_request = request, ul_observed = now, ul_headers = values\<rparr> (lg_limits l)\<rparr>)"

text \<open>\<^verbatim>\<open>ORDER BY\<close> a time column compares its texts.\<close>

definition time_key :: "instant \<Rightarrow> int \<times> string" where
  "time_key t = (t div second, fraction_text t)"

definition UpstreamLimits :: "int \<Rightarrow> logs \<Rightarrow> limit_row list" where
  "UpstreamLimits key l = take 50 (rev (sort_key (\<lambda>u. time_key (ul_observed u)) (select (\<lambda>u. ul_key u = key) (lg_limits l))))"

end
