(* ===== verification/Retention.thy ===== *)
theory Retention
  imports RequestLog
begin

text \<open>
  What takes payloads and rows out of the log (\<^verbatim>\<open>PruneLogs\<close> of internal/store/retention.go,
  \<^verbatim>\<open>PreviewCleanup\<close> and \<^verbatim>\<open>CleanupLogs\<close> of internal/store/storage.go). Both work in batches of at most
  200 rows, each in its own transaction, until a batch is empty. The clock and whether the context
  is cancelled before the n-th batch are functions of the number of the batch.
\<close>

definition time_before :: "instant \<Rightarrow> instant \<Rightarrow> bool" where
  "time_before a b \<longleftrightarrow> sql_after b a"

definition prune_attempt :: "instant \<Rightarrow> log_attempt \<Rightarrow> log_attempt" where
  "prune_attempt at t = t\<lparr>la_request := no_payload, la_response := no_payload, la_error := [], la_pruned := Some at\<rparr>"

definition prune_request :: "instant \<Rightarrow> log_request \<Rightarrow> log_request" where
  "prune_request at q = q\<lparr>lr_request := no_payload, lr_response := no_payload, lr_error := [], lr_pruned := Some at\<rparr>"

definition batch_size :: nat where "batch_size = 200"

text \<open>The oldest rows that satisfy \<open>P\<close>, at most one batch of them.\<close>

definition batch :: "('r \<Rightarrow> bool) \<Rightarrow> ('r \<Rightarrow> instant) \<Rightarrow> 'r table \<Rightarrow> 'r list" where
  "batch P created t = take batch_size (sort_key (\<lambda>r. time_key (created r)) (select P t))"

section \<open>Retention\<close>

definition outdated :: "instant \<Rightarrow> log_request \<Rightarrow> bool" where
  "outdated before q \<longleftrightarrow> time_before (lr_created q) before \<and> r_status q \<noteq> ''in_progress'' \<and> lr_pruned q = None"

definition old_event :: "instant \<Rightarrow> security_row \<Rightarrow> bool" where
  "old_event before e \<longleftrightarrow> time_before (se_created e) before"

definition outdated_ids :: "instant \<Rightarrow> logs \<Rightarrow> string list" where
  "outdated_ids before l = map r_id (batch (outdated before) lr_created (lg_requests l))"

definition old_events :: "instant \<Rightarrow> logs \<Rightarrow> int list" where
  "old_events before l = map se_id (batch (old_event before) se_created (lg_security l))"

text \<open>One transaction: the rows it changes and deletes are counted.\<close>

definition prune_batch :: "instant \<Rightarrow> instant \<Rightarrow> logs \<Rightarrow> nat \<times> nat \<times> logs" where
  "prune_batch at before l =
     (let ids = outdated_ids before l; events = old_events before l in
      (length (select (\<lambda>q. r_id q \<in> set ids) (lg_requests l)),
       length (select (\<lambda>e. se_id e \<in> set events) (lg_security l)),
       l\<lparr>lg_attempts := update_where (\<lambda>t. la_pruned t = None \<and> t_request t \<in> set ids) (prune_attempt at) (lg_attempts l),
         lg_requests := update_where (\<lambda>q. r_id q \<in> set ids) (prune_request at) (lg_requests l),
         lg_security := delete_where (\<lambda>e. se_id e \<in> set events) (lg_security l)\<rparr>))"

definition save_cleanup :: "cleanup_result \<Rightarrow> logs \<Rightarrow> logs" where
  "save_cleanup c l = l\<lparr>lg_cleanup := Some c\<rparr>"

text \<open>The zero time, which the result of a retention run carries as its start.\<close>

definition zero_time :: instant where "zero_time = - 62135596800 * second"

definition remaining :: "instant \<Rightarrow> logs \<Rightarrow> nat" where
  "remaining before l = length (select (outdated before) (lg_requests l)) + length (select (old_event before) (lg_security l))"

lemma set_batch: "set (batch P created t) \<subseteq> {r \<in> set (rows t). P r}"
  using set_take_subset [of batch_size "sort_key (\<lambda>r. time_key (created r)) (select P t)"] by (auto simp: batch_def)

lemma batch_empty: "batch P created t = [] \<longleftrightarrow> select P t = []"
proof -
  have "sort_key f xs = [] \<longleftrightarrow> xs = []" for f :: "'r \<Rightarrow> int \<times> string" and xs by (metis length_0_conv length_sort)
  then show ?thesis by (simp add: batch_def batch_size_def)
qed

lemma length_filter_filter: "length (filter P (filter Q xs)) \<le> length (filter P xs)"
  by (induction xs) (auto simp: le_SucI)

lemma length_filter_le_pointwise: "(\<And>x. x \<in> set xs \<Longrightarrow> P (f x) \<Longrightarrow> P x) \<Longrightarrow> length (filter P (map f xs)) \<le> length (filter P xs)"
  by (induction xs) (auto simp: le_SucI)

lemma length_filter_less_pointwise:
  assumes "\<And>x. x \<in> set xs \<Longrightarrow> P (f x) \<Longrightarrow> P x" "x \<in> set xs" "P x" "\<not> P (f x)"
  shows "length (filter P (map f xs)) < length (filter P xs)"
  using assms
proof (induction xs)
  case (Cons y ys)
  have "length (filter P (map f ys)) \<le> length (filter P ys)" using Cons.prems(1) by (intro length_filter_le_pointwise) simp
  with Cons show ?case by (cases "x = y") (auto simp: less_Suc_eq_le)
qed simp

lemma length_filter_less_kept:
  assumes "\<And>x. Q x \<Longrightarrow> P x" "x \<in> set xs" "P x" "\<not> Q x"
  shows "length (filter Q xs) < length (filter P xs)"
  using assms
proof (induction xs)
  case (Cons y ys)
  have "length (filter Q ys) \<le> length (filter P ys)" using Cons.prems(1) by (induction ys) (auto simp: le_SucI)
  with Cons show ?case by (cases "x = y") (auto simp: less_Suc_eq_le)
qed simp

lemma prune_request_not_outdated [simp]: "\<not> outdated before (prune_request at q)"
  by (simp add: outdated_def prune_request_def)

lemma remaining_less:
  assumes "prune_batch at before l = (n, m, l')" "n \<noteq> 0 \<or> m \<noteq> 0"
  shows "remaining before l' < remaining before l"
proof -
  let ?ids = "set (outdated_ids before l)" and ?events = "set (old_events before l)"
  let ?reqs = "rows (lg_requests l)" and ?sec = "rows (lg_security l)"
  let ?prune = "\<lambda>q. if r_id q \<in> ?ids then prune_request at q else q"
  have l': "rows (lg_requests l') = map ?prune ?reqs" "rows (lg_security l') = filter (\<lambda>e. se_id e \<notin> ?events) ?sec"
    and n: "n = length (filter (\<lambda>q. r_id q \<in> ?ids) ?reqs)" and m: "m = length (filter (\<lambda>e. se_id e \<in> ?events) ?sec)"
    using assms(1) by (auto simp: prune_batch_def Let_def select_def)
  have le1: "length (filter (outdated before) (map ?prune ?reqs)) \<le> length (filter (outdated before) ?reqs)"
    by (rule length_filter_le_pointwise) (auto split: if_splits)
  have le2: "length (filter (old_event before) (filter (\<lambda>e. se_id e \<notin> ?events) ?sec)) \<le> length (filter (old_event before) ?sec)"
    by (rule length_filter_filter)
  show ?thesis
  proof (cases "n = 0")
    case False
    then have "?ids \<noteq> {}" unfolding n by auto
    then have "batch (outdated before) lr_created (lg_requests l) \<noteq> []" by (auto simp: outdated_ids_def)
    then obtain q where "q \<in> set (batch (outdated before) lr_created (lg_requests l))" using list.set_sel(1) by blast
    with set_batch have q: "q \<in> set ?reqs" "outdated before q" "r_id q \<in> ?ids" by (fastforce simp: outdated_ids_def)+
    have "length (filter (outdated before) (map ?prune ?reqs)) < length (filter (outdated before) ?reqs)"
      by (rule length_filter_less_pointwise [where x = q]) (auto simp: q split: if_splits)
    with le2 show ?thesis by (simp add: remaining_def select_def l')
  next
    case True
    with assms(2) have "?events \<noteq> {}" unfolding m by auto
    then have "batch (old_event before) se_created (lg_security l) \<noteq> []" by (auto simp: old_events_def)
    then obtain e where "e \<in> set (batch (old_event before) se_created (lg_security l))" using list.set_sel(1) by blast
    with set_batch have e: "e \<in> set ?sec" "old_event before e" "se_id e \<in> ?events" by (fastforce simp: old_events_def)+
    have "length (filter (old_event before) (filter (\<lambda>e. se_id e \<notin> ?events) ?sec)) < length (filter (old_event before) ?sec)"
      unfolding filter_filter by (rule length_filter_less_kept [where x = e]) (use e in auto)
    with le1 show ?thesis by (simp add: remaining_def select_def l')
  qed
qed

text \<open>The loop: \<open>Inl\<close> the count when the context is cancelled, \<open>Inr\<close> the count at the end.\<close>

function prune_loop :: "(nat \<Rightarrow> instant) \<Rightarrow> (nat \<Rightarrow> bool) \<Rightarrow> instant \<Rightarrow> nat \<Rightarrow> nat \<Rightarrow> logs \<Rightarrow> (nat + nat) \<times> logs" where
  "prune_loop clock cancelled before i count l =
     (if cancelled i then (Inl count, l)
      else (case prune_batch (clock i) before l of (n, m, l') \<Rightarrow>
        if n = 0 \<and> m = 0 then
          (Inr count, if count > 0
             then save_cleanup \<lparr>cl_mode = ''retention'', cl_count = int count, cl_from = zero_time, cl_to = before, cl_finished = clock (Suc i),
                    cl_error = False\<rparr> l' else l')
        else prune_loop clock cancelled before (Suc i) (count + n) l'))"
  by pat_completeness auto
termination
proof (relation "measure (\<lambda>(clock, cancelled, before, i, count, l). remaining before l)", goal_cases)
  case 2
  then show ?case by (auto dest!: sym [of "(_, _)"] intro: remaining_less)
qed simp

declare prune_loop.simps [simp del]

definition PruneLogs :: "(nat \<Rightarrow> instant) \<Rightarrow> (nat \<Rightarrow> bool) \<Rightarrow> instant \<Rightarrow> logs \<Rightarrow> (nat + nat) \<times> logs" where
  "PruneLogs clock cancelled before l = prune_loop clock cancelled before 0 0 l"

section \<open>Cleaning up on demand\<close>

definition cleanup_mode :: "string \<Rightarrow> bool" where
  "cleanup_mode mode \<longleftrightarrow> mode = ''prune'' \<or> mode = ''delete''"

definition cleanup_due :: "string \<Rightarrow> instant \<Rightarrow> instant \<Rightarrow> logs \<Rightarrow> log_request \<Rightarrow> bool" where
  "cleanup_due mode from_time to_time l q \<longleftrightarrow> \<not> time_before (lr_created q) from_time \<and> time_before (lr_created q) to_time
     \<and> r_status q \<noteq> ''in_progress'' \<and> \<not> some_row (\<lambda>t. t_request t = r_id q \<and> t_status t = ''in_progress'') (lg_attempts l)
     \<and> (mode = ''prune'' \<longrightarrow> lr_pruned q = None)"

definition PreviewCleanup :: "instant \<Rightarrow> instant \<Rightarrow> string \<Rightarrow> logs \<Rightarrow> nat option" where
  "PreviewCleanup from_time to_time mode l =
     (if cleanup_mode mode then Some (length (select (cleanup_due mode from_time to_time l) (lg_requests l))) else None)"

definition cleanup_ids :: "string \<Rightarrow> instant \<Rightarrow> instant \<Rightarrow> logs \<Rightarrow> string list" where
  "cleanup_ids mode from_time to_time l = map r_id (batch (cleanup_due mode from_time to_time l) lr_created (lg_requests l))"

text \<open>Deleting a request takes its attempts and its routing along.\<close>

definition delete_requests :: "string set \<Rightarrow> logs \<Rightarrow> logs" where
  "delete_requests ids l = l\<lparr>lg_requests := delete_where (\<lambda>q. r_id q \<in> ids) (lg_requests l),
     lg_attempts := delete_where (\<lambda>t. t_request t \<in> ids) (lg_attempts l),
     lg_routing := delete_where (\<lambda>r. rr_request r \<in> ids) (lg_routing l)\<rparr>"

definition prune_requests :: "instant \<Rightarrow> string set \<Rightarrow> logs \<Rightarrow> logs" where
  "prune_requests at ids l = l\<lparr>lg_attempts := update_where (\<lambda>t. t_request t \<in> ids) (prune_attempt at) (lg_attempts l),
     lg_requests := update_where (\<lambda>q. r_id q \<in> ids) (prune_request at) (lg_requests l)\<rparr>"

definition cleanup_batch :: "instant \<Rightarrow> string \<Rightarrow> string list \<Rightarrow> logs \<Rightarrow> logs" where
  "cleanup_batch at mode ids l = (if mode = ''delete'' then delete_requests (set ids) l else prune_requests at (set ids) l)"

lemma cleanup_due_delete:
  "r_id q \<notin> ids \<Longrightarrow> cleanup_due mode a b (delete_requests ids l) q = cleanup_due mode a b l q"
  by (auto simp: cleanup_due_def delete_requests_def some_row_def)

lemma prune_attempt_simps [simp]:
  "t_request (prune_attempt at t) = t_request t" "t_status (prune_attempt at t) = t_status t" "t_id (prune_attempt at t) = t_id t"
  "la_pruned (prune_attempt at t) = Some at" "prune_attempt at (prune_attempt at' t) = prune_attempt at t"
  by (simp_all add: prune_attempt_def)

lemma prune_request_simps [simp]:
  "r_id (prune_request at q) = r_id q" "r_status (prune_request at q) = r_status q" "lr_created (prune_request at q) = lr_created q"
  "lr_pruned (prune_request at q) = Some at" "prune_request at (prune_request at' q) = prune_request at q"
  by (simp_all add: prune_request_def)

lemma some_row_update: "(\<And>r. P (f r) = P r) \<Longrightarrow> some_row P (update_where Q f t) = some_row P t"
  unfolding some_row_def table_simps list.set_map bex_simps by (auto split: if_splits)

lemma cleanup_due_prune: "cleanup_due mode a b (prune_requests at ids l) q = cleanup_due mode a b l q"
  by (simp add: cleanup_due_def prune_requests_def some_row_update)

lemma cleanup_batch_less:
  assumes "cleanup_mode mode" "cleanup_ids mode a b l \<noteq> []"
  shows "length (select (cleanup_due mode a b (cleanup_batch at mode (cleanup_ids mode a b l) l)) (lg_requests (cleanup_batch at mode (cleanup_ids mode a b l) l)))
    < length (select (cleanup_due mode a b l) (lg_requests l))"
proof -
  let ?ids = "set (cleanup_ids mode a b l)" and ?due = "cleanup_due mode a b l"
  from assms(2) have "batch ?due lr_created (lg_requests l) \<noteq> []" by (auto simp: cleanup_ids_def)
  then obtain q where "q \<in> set (batch ?due lr_created (lg_requests l))" using list.set_sel(1) by blast
  with set_batch have q: "q \<in> set (rows (lg_requests l))" "?due q" "r_id q \<in> ?ids" by (fastforce simp: cleanup_ids_def)+
  show ?thesis
  proof (cases "mode = ''delete''")
    case True
    have "filter (cleanup_due mode a b (delete_requests ?ids l)) (filter (\<lambda>q. r_id q \<notin> ?ids) (rows (lg_requests l))) =
        filter (\<lambda>q. ?due q \<and> r_id q \<notin> ?ids) (rows (lg_requests l))"
      by (auto simp: filter_filter cleanup_due_delete intro: filter_cong)
    moreover have "length \<dots> < length (filter ?due (rows (lg_requests l)))"
      by (rule length_filter_less_kept [where x = q]) (use q in auto)
    ultimately show ?thesis using True by (simp add: cleanup_batch_def delete_requests_def select_def)
  next
    case False
    with assms(1) have prune: "mode = ''prune''" by (simp add: cleanup_mode_def)
    have due: "cleanup_due mode a b (prune_requests at ?ids l) = ?due" by (rule ext) (rule cleanup_due_prune)
    have no: "\<not> cleanup_due mode a b l (prune_request at q)" for q using prune by (simp add: cleanup_due_def)
    have "length (filter ?due (map (\<lambda>q. if r_id q \<in> ?ids then prune_request at q else q) (rows (lg_requests l))))
        < length (filter ?due (rows (lg_requests l)))"
      by (rule length_filter_less_pointwise [where x = q]) (use q no in \<open>auto split: if_splits\<close>)
    with False show ?thesis unfolding cleanup_batch_def by (simp add: due select_def) (simp add: prune_requests_def)
  qed
qed

text \<open>The loop: whether it ran to the end, and how many rows it has treated.\<close>

function cleanup_loop ::
    "(nat \<Rightarrow> instant) \<Rightarrow> (nat \<Rightarrow> bool) \<Rightarrow> string \<Rightarrow> instant \<Rightarrow> instant \<Rightarrow> nat \<Rightarrow> nat \<Rightarrow> logs \<Rightarrow> bool \<times> nat \<times> nat \<times> logs" where
  "cleanup_loop clock cancelled mode a b i count l =
     (if cancelled i then (False, i, count, l)
      else (let ids = cleanup_ids mode a b l in
        if ids = [] \<or> \<not> cleanup_mode mode then (True, i, count, l)
        else cleanup_loop clock cancelled mode a b (Suc i) (count + length ids) (cleanup_batch (clock i) mode ids l)))"
  by pat_completeness auto
termination
  by (relation "measure (\<lambda>(clock, cancelled, mode, a, b, i, count, l). length (select (cleanup_due mode a b l) (lg_requests l)))")
    (auto intro: cleanup_batch_less)

declare cleanup_loop.simps [simp del]

text \<open>The result is recorded whether the run ended or not; an unknown mode records nothing.\<close>

definition CleanupLogs ::
    "(nat \<Rightarrow> instant) \<Rightarrow> (nat \<Rightarrow> bool) \<Rightarrow> instant \<Rightarrow> instant \<Rightarrow> string \<Rightarrow> logs \<Rightarrow> cleanup_result option \<times> logs" where
  "CleanupLogs clock cancelled from_time to_time mode l =
     (if \<not> cleanup_mode mode then (None, l)
      else (case cleanup_loop clock cancelled mode from_time to_time 0 0 l of (ended, i, count, l') \<Rightarrow>
        (let result = \<lparr>cl_mode = mode, cl_count = int count, cl_from = from_time, cl_to = to_time, cl_finished = clock (Suc i),
               cl_error = \<not> ended\<rparr>
         in (Some result, save_cleanup result l'))))"

text \<open>
  What is left of the log after a retention run and after a clean-up, for any number of batches: a
  partial map \<open>T\<close> from the ids of requests to the time they were pruned at describes the outcome.
\<close>

section \<open>Pruned rows\<close>

definition pruned_request :: "(string \<Rightarrow> instant option) \<Rightarrow> log_request \<Rightarrow> log_request" where
  "pruned_request T q = (case T (r_id q) of None \<Rightarrow> q | Some at \<Rightarrow> prune_request at q)"

definition pruned_attempt :: "(string \<Rightarrow> instant option) \<Rightarrow> log_attempt \<Rightarrow> log_attempt" where
  "pruned_attempt T t = (case T (t_request t) of None \<Rightarrow> t | Some at \<Rightarrow> if la_pruned t = None then prune_attempt at t else t)"

definition also_at :: "string set \<Rightarrow> instant \<Rightarrow> (string \<Rightarrow> instant option) \<Rightarrow> string \<Rightarrow> instant option" where
  "also_at ids at T = (\<lambda>i. if i \<in> ids then Some at else T i)"

lemma dom_also_at [simp]: "dom (also_at ids at T) = ids \<union> dom T"
  by (auto simp: also_at_def dom_def split: if_splits)

lemma r_id_pruned [simp]: "r_id (pruned_request T q) = r_id q"
  by (auto simp: pruned_request_def split: option.splits)

lemma t_request_pruned [simp]: "t_request (pruned_attempt T t) = t_request t"
  by (auto simp: pruned_attempt_def split: option.splits)

lemma pruned_request_also:
  "ids \<inter> dom T = {} \<Longrightarrow>
     (if r_id q \<in> ids then prune_request at (pruned_request T q) else pruned_request T q) = pruned_request (also_at ids at T) q"
  by (auto simp: pruned_request_def also_at_def split: option.splits)

lemma pruned_attempt_also:
  assumes "ids \<inter> dom T = {}"
  shows "(if la_pruned (pruned_attempt T t) = None \<and> t_request t \<in> ids then prune_attempt at (pruned_attempt T t) else pruned_attempt T t)
    = pruned_attempt (also_at ids at T) t"
proof (cases "t_request t \<in> ids")
  case True
  with assms have "T (t_request t) = None" by auto
  with True show ?thesis by (simp add: pruned_attempt_def also_at_def)
qed (auto simp: pruned_attempt_def also_at_def)

text \<open>A log in the middle of a run that began with \<open>l0\<close>.\<close>

definition midway :: "instant \<Rightarrow> logs \<Rightarrow> (string \<Rightarrow> instant option) \<Rightarrow> int set \<Rightarrow> nat \<Rightarrow> logs \<Rightarrow> bool" where
  "midway before l0 T E count l \<longleftrightarrow>
     rows (lg_requests l) = map (pruned_request T) (rows (lg_requests l0))
   \<and> rows (lg_attempts l) = map (pruned_attempt T) (rows (lg_attempts l0))
   \<and> rows (lg_security l) = filter (\<lambda>e. se_id e \<notin> E) (rows (lg_security l0))
   \<and> lg_routing l = lg_routing l0
   \<and> dom T \<subseteq> r_id ` {q \<in> set (rows (lg_requests l0)). outdated before q}
   \<and> E \<subseteq> se_id ` {e \<in> set (rows (lg_security l0)). old_event before e}
   \<and> count = card (dom T)"

lemma midway_start: "midway before l Map.empty {} 0 l"
proof -
  have "pruned_request Map.empty = id" "pruned_attempt Map.empty = id"
    by (auto simp: pruned_request_def pruned_attempt_def fun_eq_iff)
  then show ?thesis by (simp add: midway_def)
qed

lemma midway_saved [simp]: "midway before l0 T E n (save_cleanup c l) = midway before l0 T E n l"
  by (simp add: midway_def save_cleanup_def)

lemma save_cleanup_tables [simp]:
  "lg_requests (save_cleanup c l) = lg_requests l" "lg_attempts (save_cleanup c l) = lg_attempts l"
  "lg_security (save_cleanup c l) = lg_security l" "lg_routing (save_cleanup c l) = lg_routing l"
  by (simp_all add: save_cleanup_def)

lemma outdated_pruned: "outdated before (pruned_request T q) \<longleftrightarrow> outdated before q \<and> r_id q \<notin> dom T"
  by (auto simp: pruned_request_def split: option.splits)

lemma distinct_length_filter: "distinct (map f xs) \<Longrightarrow> length (filter P xs) = card (f ` {x \<in> set xs. P x})"
proof -
  assume "distinct (map f xs)"
  then have "distinct (map f (filter P xs))" by (rule distinct_map_filter)
  from distinct_card [OF this] show ?thesis by simp
qed

lemma midway_step:
  assumes mid: "midway before l0 T E count l" and ids: "distinct (map r_id (rows (lg_requests l0)))"
    and run: "prune_batch at before l = (n, m, l')"
  shows "midway before l0 (also_at (set (outdated_ids before l)) at T) (E \<union> set (old_events before l)) (count + n) l'"
proof -
  let ?ids = "set (outdated_ids before l)" and ?events = "set (old_events before l)"
  note rows = mid [unfolded midway_def]
  have picked: "?ids \<subseteq> r_id ` {q \<in> set (rows (lg_requests l)). outdated before q}"
    using set_batch [of "outdated before" lr_created "lg_requests l"] by (auto simp: outdated_ids_def)
  have each: "\<exists>q \<in> set (rows (lg_requests l0)). i = r_id q \<and> outdated before q \<and> i \<notin> dom T" if "i \<in> ?ids" for i
    using picked that rows by (force simp: outdated_pruned)
  then have ids0: "?ids \<subseteq> r_id ` {q \<in> set (rows (lg_requests l0)). outdated before q}" and new: "?ids \<inter> dom T = {}"
    by blast+
  have n: "n = card ?ids"
  proof -
    have "n = length (filter (\<lambda>q. r_id q \<in> ?ids) (rows (lg_requests l0)))"
      using run rows by (auto simp: prune_batch_def Let_def select_def filter_map comp_def)
    also have "\<dots> = card (r_id ` {q \<in> set (rows (lg_requests l0)). r_id q \<in> ?ids})" by (rule distinct_length_filter [OF ids])
    also have "r_id ` {q \<in> set (rows (lg_requests l0)). r_id q \<in> ?ids} = ?ids" using ids0 by auto
    finally show ?thesis .
  qed
  have "finite (dom T)" by (rule finite_subset [of _ "r_id ` set (rows (lg_requests l0))"]) (use rows in auto)
  with new have "card (?ids \<union> dom T) = count + n" using rows by (simp add: card_Un_disjoint n)
  moreover have "?events \<subseteq> se_id ` {e \<in> set (rows (lg_security l)). old_event before e}"
    using set_batch [of "old_event before" se_created "lg_security l"] by (auto simp: old_events_def)
  then have "?events \<subseteq> se_id ` {e \<in> set (rows (lg_security l0)). old_event before e}" using rows by auto
  moreover have "rows (lg_requests l') = map (pruned_request (also_at ?ids at T)) (rows (lg_requests l0))"
    using run rows by (auto simp: prune_batch_def Let_def pruned_request_also [OF new])
  moreover have "rows (lg_attempts l') = map (pruned_attempt (also_at ?ids at T)) (rows (lg_attempts l0))"
    using run rows by (auto simp: prune_batch_def Let_def pruned_attempt_also [OF new])
  moreover have "rows (lg_security l') = filter (\<lambda>e. se_id e \<notin> E \<union> ?events) (rows (lg_security l0))" "lg_routing l' = lg_routing l0"
    using run rows by (auto simp: prune_batch_def Let_def intro!: filter_cong)
  moreover have "?ids \<union> dom T \<subseteq> r_id ` {q \<in> set (rows (lg_requests l0)). outdated before q}"
    "E \<subseteq> se_id ` {e \<in> set (rows (lg_security l0)). old_event before e}" "lg_routing l = lg_routing l0"
    using ids0 rows by auto
  ultimately show ?thesis unfolding midway_def dom_also_at by simp
qed

lemma batch_ids_empty:
  assumes "select (\<lambda>r. i r \<in> set (map i (batch P created t))) t = []"
  shows "select P t = []"
proof (rule ccontr)
  assume "select P t \<noteq> []"
  then have "batch P created t \<noteq> []" by (simp add: batch_empty)
  then obtain r where "r \<in> set (batch P created t)" using list.set_sel(1) by blast
  moreover with set_batch have "r \<in> set (rows t)" by fastforce
  ultimately show False using assms by (auto simp: select_def filter_empty_conv)
qed

lemma nothing_left:
  assumes "prune_batch at before l = (0, 0, l')"
  shows "select (outdated before) (lg_requests l) = [] \<and> select (old_event before) (lg_security l) = []"
proof
  from assms have none: "select (\<lambda>q. r_id q \<in> set (outdated_ids before l)) (lg_requests l) = []"
    "select (\<lambda>e. se_id e \<in> set (old_events before l)) (lg_security l) = []"
    unfolding prune_batch_def Let_def by simp_all
  show "select (outdated before) (lg_requests l) = []"
    using batch_ids_empty [OF none(1) [unfolded outdated_ids_def]] .
  show "select (old_event before) (lg_security l) = []"
    using batch_ids_empty [OF none(2) [unfolded old_events_def]] .
qed

lemma nothing_left_same:
  assumes "prune_batch at before l = (0, 0, l')"
  shows "l' = l"
proof -
  note nothing_left [OF assms]
  then have "batch (outdated before) lr_created (lg_requests l) = []" "batch (old_event before) se_created (lg_security l) = []"
    by (simp_all add: batch_empty)
  with assms show ?thesis
    by (auto simp: prune_batch_def Let_def outdated_ids_def old_events_def update_where_def delete_where_def)
qed

lemma prune_loop_midway:
  assumes "prune_loop clock cancelled before i count l = (r, l')" "midway before l0 T E count l" "distinct (map r_id (rows (lg_requests l0)))"
  shows "\<exists>T E. midway before l0 T E (case r of Inl n \<Rightarrow> n | Inr n \<Rightarrow> n) l'
    \<and> (is_ok r \<longrightarrow> select (outdated before) (lg_requests l') = [] \<and> select (old_event before) (lg_security l') = [])"
  using assms
proof (induction clock cancelled before i count l arbitrary: T E rule: prune_loop.induct)
  case (1 clock cancelled before i count l)
  obtain n m l1 where batch: "prune_batch (clock i) before l = (n, m, l1)" by (rule prod_cases3)
  consider "cancelled i" | "\<not> cancelled i" "n = 0" "m = 0" | "\<not> cancelled i" "n \<noteq> 0 \<or> m \<noteq> 0" by blast
  then show ?case
  proof cases
    case 1
    with "1.prems"(1) have "r = Inl count" "l' = l" by (auto simp: prune_loop.simps [of _ _ _ _ _ l])
    with "1.prems"(2) show ?thesis by auto
  next
    case 2
    with batch have "prune_batch (clock i) before l = (0, 0, l1)" by simp
    note same = nothing_left_same [OF this] and left = nothing_left [OF this]
    from "1.prems"(1) 2 batch same obtain c where "r = Inr count" "l' = l \<or> l' = save_cleanup c l"
      by (auto simp: prune_loop.simps [of _ _ _ _ _ l] split: if_splits)
    with left "1.prems"(2) have "midway before l0 T E (case r of Inl n \<Rightarrow> n | Inr n \<Rightarrow> n) l'"
      "select (outdated before) (lg_requests l') = [] \<and> select (old_event before) (lg_security l') = []" by auto
    then show ?thesis by blast
  next
    case 3
    with "1.prems"(1) batch have rest: "prune_loop clock cancelled before (Suc i) (count + n) l1 = (r, l')"
      by (auto simp: prune_loop.simps [of _ _ _ _ _ l])
    from "1.IH" [OF 3(1) batch [symmetric] refl _ rest midway_step [OF "1.prems"(2,3) batch] "1.prems"(3)] 3(2)
    show ?thesis by simp
  qed
qed

section \<open>A retention run\<close>

definition log_keys :: "logs \<Rightarrow> bool" where
  "log_keys l \<longleftrightarrow> distinct (map r_id (rows (lg_requests l))) \<and> distinct (map se_id (rows (lg_security l)))"

lemma midway_finished:
  assumes mid: "midway before l T E n l'" and keys: "log_keys l"
    and none: "select (outdated before) (lg_requests l') = []" "select (old_event before) (lg_security l') = []"
  shows "dom T = r_id ` {q \<in> set (rows (lg_requests l)). outdated before q}
    \<and> rows (lg_security l') = filter (\<lambda>e. \<not> old_event before e) (rows (lg_security l))
    \<and> n = length (select (outdated before) (lg_requests l))"
proof -
  note rows = mid [unfolded midway_def]
  have "r_id q \<in> dom T" if "q \<in> set (rows (lg_requests l))" "outdated before q" for q
    using none(1) rows that by (fastforce simp: select_def filter_empty_conv outdated_pruned)
  with rows have dom: "dom T = r_id ` {q \<in> set (rows (lg_requests l)). outdated before q}" by blast
  have "se_id e \<in> E \<longleftrightarrow> old_event before e" if e: "e \<in> set (rows (lg_security l))" for e
  proof
    assume "se_id e \<in> E"
    moreover have "E \<subseteq> se_id ` {e \<in> set (rows (lg_security l)). old_event before e}" using rows by blast
    ultimately obtain e' where "e' \<in> set (rows (lg_security l))" "se_id e' = se_id e" "old_event before e'" by force
    with keys e show "old_event before e" by (auto simp: log_keys_def distinct_map dest: inj_onD)
  next
    assume "old_event before e"
    with none(2) rows e show "se_id e \<in> E" by (auto simp: select_def filter_empty_conv)
  qed
  then have "filter (\<lambda>e. se_id e \<notin> E) (rows (lg_security l)) = filter (\<lambda>e. \<not> old_event before e) (rows (lg_security l))"
    by (intro filter_cong) auto
  with rows dom distinct_length_filter [of r_id "rows (lg_requests l)" "outdated before"] keys show ?thesis
    by (simp add: log_keys_def select_def)
qed

text \<open>
  C31. However large the log is and wherever the context ends a retention run, the run returns. It
  has then taken the headers, the bodies and the error of some outdated requests and of all their
  attempts, and changed no other request or attempt; the number it returns is the number of these
  requests. A run that is not cut off leaves nothing outdated behind: all finished requests that were
  created before the limit are pruned, the older security events are gone and the others are kept.
\<close>

theorem retention_complete:
  assumes "log_keys l"
  shows "\<exists>r l' T. PruneLogs clock cancelled before l = (r, l')
    \<and> rows (lg_requests l') = map (pruned_request T) (rows (lg_requests l))
    \<and> rows (lg_attempts l') = map (pruned_attempt T) (rows (lg_attempts l))
    \<and> dom T \<subseteq> r_id ` {q \<in> set (rows (lg_requests l)). outdated before q}
    \<and> card (dom T) = (case r of Inl n \<Rightarrow> n | Inr n \<Rightarrow> n)
    \<and> (is_ok r \<longrightarrow> dom T = r_id ` {q \<in> set (rows (lg_requests l)). outdated before q}
         \<and> r = Inr (length (select (outdated before) (lg_requests l)))
         \<and> rows (lg_security l') = filter (\<lambda>e. \<not> old_event before e) (rows (lg_security l)))
    \<and> ((\<forall>i. \<not> cancelled i) \<longrightarrow> is_ok r)"
proof -
  obtain r l' where run: "prune_loop clock cancelled before 0 0 l = (r, l')" by (rule prod.exhaust)
  have ids: "distinct (map r_id (rows (lg_requests l)))" using assms by (simp add: log_keys_def)
  from prune_loop_midway [OF run midway_start ids] obtain T E where
    mid: "midway before l T E (case r of Inl n \<Rightarrow> n | Inr n \<Rightarrow> n) l'"
    and none: "is_ok r \<longrightarrow> select (outdated before) (lg_requests l') = [] \<and> select (old_event before) (lg_security l') = []" by blast
  have ended: "is_ok (fst (prune_loop clock (\<lambda>_. False) before i n k))" for i n k
  proof (induction clock "\<lambda>_ :: nat. False" before i n k rule: prune_loop.induct)
    case (1 clock before i n k)
    then show ?case by (subst prune_loop.simps) (auto split: prod.split)
  qed
  from midway_finished [OF mid assms] none have "is_ok r \<longrightarrow> dom T = r_id ` {q \<in> set (rows (lg_requests l)). outdated before q}
      \<and> r = Inr (length (select (outdated before) (lg_requests l)))
      \<and> rows (lg_security l') = filter (\<lambda>e. \<not> old_event before e) (rows (lg_security l))"
    by (cases r) auto
  moreover have "is_ok r" if "\<forall>i. \<not> cancelled i"
  proof -
    from that have "cancelled = (\<lambda>_. False)" by auto
    with ended [of 0 0 l] run show ?thesis by simp
  qed
  moreover have "PruneLogs clock cancelled before l = (r, l')" using run by (simp add: PruneLogs_def)
  ultimately show ?thesis using mid unfolding midway_def by (intro exI [of _ r] exI [of _ l'] exI [of _ T]) auto
qed

definition demo_request :: "string \<Rightarrow> string \<Rightarrow> instant \<Rightarrow> log_request" where
  "demo_request i status created = \<lparr>r_id = i, r_status = status, r_access_key = None, r_model = ''m'', lr_key_name = [], lr_upstream_model = [],
     lr_provider = [], lr_protocol = Chat, lr_endpoint = [], lr_stream = False, lr_effort = [], lr_ip = [], lr_agent = [],
     lr_request = \<lparr>pl_headers = ''{}'', pl_body = ''body'', pl_encoding = ''identity''\<rparr>, lr_response = no_payload, lr_status_code = None,
     lr_tokens = no_tokens, lr_first_content = None, lr_total_ms = None, lr_error = [], lr_created = created, lr_completed = None, lr_pruned = None\<rparr>"

definition demo_log :: logs where
  "demo_log = \<lparr>lg_requests = \<lparr>rows = [demo_request ''a'' ''completed'' (5 * second), demo_request ''b'' ''in_progress'' (6 * second),
       demo_request ''c'' ''failed'' (30 * second)], last_id = 3\<rparr>, lg_attempts = empty_table, lg_routing = empty_table,
     lg_security = empty_table, lg_limits = empty_table, lg_cleanup = None\<rparr>"

theorem retention_complete_witness:
  "fst (PruneLogs (\<lambda>i. 100 * second) (\<lambda>_. False) (20 * second) demo_log) = Inr 1
   \<and> (\<exists>T. dom T = {''a''} \<and> rows (lg_requests (snd (PruneLogs (\<lambda>i. 100 * second) (\<lambda>_. False) (20 * second) demo_log))) =
        map (pruned_request T) (rows (lg_requests demo_log)))"
proof -
  have "log_keys demo_log" by code_simp
  from retention_complete [OF this, of "\<lambda>i. 100 * second" "\<lambda>_. False" "20 * second"] obtain r l' T where
    run: "PruneLogs (\<lambda>i. 100 * second) (\<lambda>_. False) (20 * second) demo_log = (r, l')"
    and T: "rows (lg_requests l') = map (pruned_request T) (rows (lg_requests demo_log))"
      "dom T = r_id ` {q \<in> set (rows (lg_requests demo_log)). outdated (20 * second) q}"
    and r: "r = Inr (length (select (outdated (20 * second)) (lg_requests demo_log)))" by auto
  have select: "map r_id (select (outdated (20 * second)) (lg_requests demo_log)) = [''a'']" by code_simp
  from arg_cong [OF this, of length] r have "r = Inr 1" by simp
  moreover from arg_cong [OF select, of set] T(2) have "dom T = {''a''}" by (simp add: Collect_conj_eq)
  ultimately show ?thesis unfolding run fst_conv snd_conv using T(1) by blast
qed

section \<open>A clean-up\<close>

definition emptied_attempt :: "(string \<Rightarrow> instant option) \<Rightarrow> log_attempt \<Rightarrow> log_attempt" where
  "emptied_attempt T t = (case T (t_request t) of None \<Rightarrow> t | Some at \<Rightarrow> prune_attempt at t)"

lemma emptied_attempt_simps [simp]:
  "t_request (emptied_attempt T t) = t_request t" "t_status (emptied_attempt T t) = t_status t"
  by (auto simp: emptied_attempt_def split: option.splits)

text \<open>The log after the requests of \<open>dom T\<close> were treated.\<close>

definition cleaned :: "string \<Rightarrow> (string \<Rightarrow> instant option) \<Rightarrow> logs \<Rightarrow> logs" where
  "cleaned mode T l =
     (if mode = ''delete'' then delete_requests (dom T) l
      else l\<lparr>lg_attempts := (lg_attempts l)\<lparr>rows := map (emptied_attempt T) (rows (lg_attempts l))\<rparr>,
             lg_requests := (lg_requests l)\<lparr>rows := map (pruned_request T) (rows (lg_requests l))\<rparr>\<rparr>)"

lemma cleaned_start: "cleaned mode Map.empty l = l"
proof -
  have "pruned_request Map.empty = id" "emptied_attempt Map.empty = id"
    by (auto simp: pruned_request_def emptied_attempt_def fun_eq_iff)
  then show ?thesis by (simp add: cleaned_def delete_requests_def delete_where_def)
qed

lemma cleaned_step:
  assumes "ids \<inter> dom T = {}" "set is = ids"
  shows "cleanup_batch at mode is (cleaned mode T l) = cleaned mode (also_at ids at T) l"
proof (cases "mode = ''delete''")
  case True
  with assms(2) show ?thesis
    by (simp add: cleanup_batch_def cleaned_def delete_requests_def delete_where_def filter_filter conj_commute)
next
  case False
  have "(if t_request (emptied_attempt T t) \<in> ids then prune_attempt at (emptied_attempt T t) else emptied_attempt T t)
      = emptied_attempt (also_at ids at T) t" for t
    using assms(1) by (auto simp: emptied_attempt_def also_at_def split: option.splits)
  moreover have "(if r_id (pruned_request T q) \<in> ids then prune_request at (pruned_request T q) else pruned_request T q)
      = pruned_request (also_at ids at T) q" for q
    using pruned_request_also [OF assms(1)] by simp
  ultimately show ?thesis using False assms(2)
    by (simp add: cleanup_batch_def cleaned_def prune_requests_def update_where_def)
qed

lemma cleanup_due_cleaned:
  "r_id q \<notin> dom T \<Longrightarrow> cleanup_due mode a b (cleaned mode T l) q = cleanup_due mode a b l q"
proof (cases "mode = ''delete''")
  case False
  then have "some_row (\<lambda>t. t_request t = r_id q \<and> t_status t = ''in_progress'') (lg_attempts (cleaned mode T l)) =
      some_row (\<lambda>t. t_request t = r_id q \<and> t_status t = ''in_progress'') (lg_attempts l)"
    unfolding some_row_def cleaned_def by simp
  then show ?thesis by (simp add: cleanup_due_def)
qed (simp add: cleaned_def cleanup_due_delete)

lemma cleaned_requests:
  assumes "cleanup_mode mode"
  shows "{q \<in> set (rows (lg_requests (cleaned mode T l))). cleanup_due mode a b (cleaned mode T l) q}
    = {q \<in> set (rows (lg_requests l)). r_id q \<notin> dom T \<and> cleanup_due mode a b l q}" (is "?A = ?B")
proof (cases "mode = ''delete''")
  case True
  then show ?thesis using cleanup_due_cleaned [of _ T mode a b l]
    by (auto simp: cleaned_def delete_requests_def)
next
  case False
  with assms have prune: "mode = ''prune''" by (simp add: cleanup_mode_def)
  have rows: "set (rows (lg_requests (cleaned mode T l))) = pruned_request T ` set (rows (lg_requests l))"
    using False by (simp add: cleaned_def)
  have same: "pruned_request T q = q" if "r_id q \<notin> dom T" for q using that by (simp add: pruned_request_def domIff)
  have gone: "r_id q \<notin> dom T" if "cleanup_due mode a b k (pruned_request T q)" for q k
    using that prune by (auto simp: pruned_request_def cleanup_due_def)
  show ?thesis
  proof (intro set_eqI iffI)
    fix q assume "q \<in> ?A"
    then obtain q0 where q0: "q0 \<in> set (rows (lg_requests l))" "q = pruned_request T q0" and due: "cleanup_due mode a b (cleaned mode T l) q"
      unfolding rows by blast
    from gone [OF due [unfolded q0(2)]] have "r_id q0 \<notin> dom T" .
    with q0 due same [OF this] cleanup_due_cleaned [OF this, of mode a b l] show "q \<in> ?B" by simp
  next
    fix q assume q: "q \<in> ?B"
    then have "r_id q \<notin> dom T" by simp
    from same [OF this] cleanup_due_cleaned [OF this, of mode a b l] q show "q \<in> ?A" unfolding rows by force
  qed
qed

lemma cleanup_loop_cleaned:
  assumes "cleanup_loop clock cancelled mode a b i n (cleaned mode T l) = (ended, j, m, l')"
    and "distinct (map r_id (rows (lg_requests l)))" "cleanup_mode mode"
    and "dom T \<subseteq> r_id ` {q \<in> set (rows (lg_requests l)). cleanup_due mode a b l q}" "n = card (dom T)"
  shows "\<exists>T. l' = cleaned mode T l \<and> m = card (dom T)
    \<and> dom T \<subseteq> r_id ` {q \<in> set (rows (lg_requests l)). cleanup_due mode a b l q}
    \<and> (ended \<longrightarrow> r_id ` {q \<in> set (rows (lg_requests l)). cleanup_due mode a b l q} \<subseteq> dom T)"
  using assms
proof (induction clock cancelled mode a b i n "cleaned mode T l" arbitrary: T rule: cleanup_loop.induct)
  case (1 clock cancelled mode a b i n T)
  let ?due = "{q \<in> set (rows (lg_requests l)). cleanup_due mode a b l q}" and ?now = "cleaned mode T l"
  let ?ids = "cleanup_ids mode a b ?now"
  note now = cleaned_requests [OF "1.prems"(3), of T l a b]
  consider "cancelled i" | "\<not> cancelled i" "?ids = []" | "\<not> cancelled i" "?ids \<noteq> []" by blast
  then show ?case
  proof cases
    case 1
    with "1.prems"(1) have "ended = False" "m = n" "l' = ?now" by (auto simp: cleanup_loop.simps [of _ _ _ _ _ _ _ ?now])
    with "1.prems"(4,5) show ?thesis by auto
  next
    case 2
    with "1.prems"(1) have res: "m = n" "l' = ?now" by (auto simp: cleanup_loop.simps [of _ _ _ _ _ _ _ ?now])
    from 2(2) have "select (cleanup_due mode a b ?now) (lg_requests ?now) = []" by (simp add: cleanup_ids_def batch_empty)
    then have "set (select (cleanup_due mode a b ?now) (lg_requests ?now)) = {}" by simp
    with now have "{q \<in> set (rows (lg_requests l)). r_id q \<notin> dom T \<and> cleanup_due mode a b l q} = {}" by simp
    then have "r_id ` ?due \<subseteq> dom T" by blast
    with res "1.prems"(4,5) show ?thesis by blast
  next
    case 3
    let ?T = "also_at (set ?ids) (clock i) T"
    have each: "\<exists>q \<in> ?due. r_id q = j \<and> j \<notin> dom T" if "j \<in> set ?ids" for j
    proof -
      from that obtain q where "q \<in> set (batch (cleanup_due mode a b ?now) lr_created (lg_requests ?now))" "r_id q = j"
        by (auto simp: cleanup_ids_def)
      with set_batch have "q \<in> {q \<in> set (rows (lg_requests ?now)). cleanup_due mode a b ?now q}" by fastforce
      with \<open>r_id q = j\<close> show ?thesis unfolding now by blast
    qed
    then have new: "set ?ids \<inter> dom T = {}" and picked: "set ?ids \<subseteq> r_id ` ?due" by blast+
    have distinct_now: "distinct (map r_id (rows (lg_requests ?now)))"
      using "1.prems"(2) by (auto simp: cleaned_def delete_requests_def comp_def distinct_map_filter)
    have "distinct ?ids"
      using distinct_now
      by (auto simp: cleanup_ids_def batch_def select_def distinct_map distinct_filter inj_on_def dest!: in_set_takeD)
    moreover have "finite (dom T)" by (rule finite_subset [OF "1.prems"(4)]) simp
    ultimately have count: "n + length ?ids = card (dom ?T)"
      using new "1.prems"(5) by (simp add: card_Un_disjoint distinct_card [symmetric])
    from 3 "1.prems"(1,3) have rest: "cleanup_loop clock cancelled mode a b (Suc i) (n + length ?ids)
        (cleaned mode ?T l) = (ended, j, m, l')"
      by (simp add: cleanup_loop.simps [of _ _ _ _ _ _ _ ?now] cleaned_step [OF new refl] Let_def)
    show ?thesis
      by (rule "1.hyps" [OF 3(1) refl _ cleaned_step [OF new refl] rest "1.prems"(2,3) _ count])
        (use 3(2) "1.prems"(3,4) picked in auto)
  qed
qed

text \<open>
  C32. A clean-up returns, wherever its context ends. It has then emptied (mode \<^verbatim>\<open>prune\<close>) or deleted,
  with their attempts and their routing (mode \<^verbatim>\<open>delete\<close>), some of the requests the preview counts,
  and changed nothing else; its count is the number of these requests. When it is not cut off, it has
  treated exactly the requests the preview counts, so that the preview tells the count in advance:
  a request that is in progress, or one of whose attempts is, keeps everything.
\<close>

theorem cleanup_exact:
  assumes "log_keys l" and "cleanup_mode mode"
  shows "\<exists>result T. CleanupLogs clock cancelled a b mode l = (Some result, save_cleanup result (cleaned mode T l))
    \<and> dom T \<subseteq> r_id ` {q \<in> set (rows (lg_requests l)). cleanup_due mode a b l q}
    \<and> cl_count result = int (card (dom T))
    \<and> (\<not> cl_error result \<longrightarrow> dom T = r_id ` {q \<in> set (rows (lg_requests l)). cleanup_due mode a b l q}
         \<and> PreviewCleanup a b mode l = Some (nat (cl_count result)))
    \<and> ((\<forall>i. \<not> cancelled i) \<longrightarrow> \<not> cl_error result)"
proof -
  obtain ended j n l' where run: "cleanup_loop clock cancelled mode a b 0 0 l = (ended, j, n, l')" by (rule prod_cases4)
  have keys: "distinct (map r_id (rows (lg_requests l)))" using assms(1) by (simp add: log_keys_def)
  from cleanup_loop_cleaned [of clock cancelled mode a b 0 0 Map.empty l, unfolded cleaned_start, OF run keys assms(2)]
  obtain T where T: "l' = cleaned mode T l" "n = card (dom T)" "dom T \<subseteq> r_id ` {q \<in> set (rows (lg_requests l)). cleanup_due mode a b l q}"
    "ended \<longrightarrow> r_id ` {q \<in> set (rows (lg_requests l)). cleanup_due mode a b l q} \<subseteq> dom T" by auto
  let ?result = "\<lparr>cl_mode = mode, cl_count = int n, cl_from = a, cl_to = b, cl_finished = clock (Suc j), cl_error = \<not> ended\<rparr>"
  have "fst (cleanup_loop clock (\<lambda>_. False) mode a b i c k)" for i c k
  proof (induction clock "\<lambda>_ :: nat. False" mode a b i c k rule: cleanup_loop.induct)
    case (1 clock mode a b i c k)
    then show ?case by (subst cleanup_loop.simps) (simp add: Let_def)
  qed
  from this [of 0 0 l] have ended: "ended" if "\<forall>i. \<not> cancelled i"
  proof -
    from that have "cancelled = (\<lambda>_. False)" by auto
    with \<open>fst (cleanup_loop clock (\<lambda>_. False) mode a b 0 0 l)\<close> run show ?thesis by simp
  qed
  have "CleanupLogs clock cancelled a b mode l = (Some ?result, save_cleanup ?result (cleaned mode T l))"
    using assms(2) run T(1) by (simp add: CleanupLogs_def Let_def)
  moreover have "PreviewCleanup a b mode l = Some n" if "ended"
  proof -
    from that T(3,4) have "dom T = r_id ` {q \<in> set (rows (lg_requests l)). cleanup_due mode a b l q}" by blast
    with T(2) distinct_length_filter [OF keys, of "cleanup_due mode a b l"] assms(2) show ?thesis
      by (simp add: PreviewCleanup_def select_def)
  qed
  ultimately show ?thesis using T ended by (intro exI [of _ ?result] exI [of _ T]) auto
qed

theorem cleanup_exact_witness:
  "\<exists>result T. CleanupLogs (\<lambda>i. 100 * second) (\<lambda>_. False) 0 (50 * second) ''delete'' demo_log
      = (Some result, save_cleanup result (cleaned ''delete'' T demo_log))
    \<and> cl_count result = 2 \<and> map r_id (rows (lg_requests (cleaned ''delete'' T demo_log))) = [''b'']"
proof -
  have "log_keys demo_log" "cleanup_mode ''delete''" by code_simp+
  from cleanup_exact [OF this, of "\<lambda>i. 100 * second" "\<lambda>_. False" 0 "50 * second"] obtain result T where
    run: "CleanupLogs (\<lambda>i. 100 * second) (\<lambda>_. False) 0 (50 * second) ''delete'' demo_log = (Some result, save_cleanup result (cleaned ''delete'' T demo_log))"
    and dom: "dom T = r_id ` {q \<in> set (rows (lg_requests demo_log)). cleanup_due ''delete'' 0 (50 * second) demo_log q}"
    and count: "cl_count result = int (card (dom T))" by auto
  have "map r_id (select (cleanup_due ''delete'' 0 (50 * second) demo_log) (lg_requests demo_log)) = [''a'', ''c'']" by code_simp
  from arg_cong [OF this, of set] have two: "dom T = {''a'', ''c''}" unfolding dom by simp
  have "rows (lg_requests (cleaned ''delete'' T demo_log)) = filter (\<lambda>q. r_id q \<notin> {''a'', ''c''}) (rows (lg_requests demo_log))"
    by (simp add: cleaned_def delete_requests_def two)
  then have "map r_id (rows (lg_requests (cleaned ''delete'' T demo_log))) = [''b'']"
    by (simp add: demo_log_def demo_request_def)
  moreover have "cl_count result = 2" unfolding count two by simp
  ultimately show ?thesis using run by (intro exI [of _ result] exI [of _ T] conjI)
qed

end
