(* ===== verification/LogRead.thy ===== *)
theory LogRead
  imports Retention AccessKeys
begin

text \<open>
  Reading the log: the list of requests with its filters and pages, one request with its attempts
  and its routing (internal/store/logs.go and request_routing.go), and the latencies of the overview
  (internal/store/performance.go). Rows created at the same time, whose order SQLite leaves open, come
  newest first.
\<close>

section \<open>The list of requests\<close>

record request_filters =
  rf_status :: string
  rf_provider :: string
  rf_virtual_model :: string
  rf_upstream_model :: string
  rf_inbound :: string
  rf_upstream :: string

definition no_filters :: request_filters where
  "no_filters = \<lparr>rf_status = [], rf_provider = [], rf_virtual_model = [], rf_upstream_model = [], rf_inbound = [], rf_upstream = []\<rparr>"

text \<open>An empty filter lets everything pass.\<close>

definition passes :: "string \<Rightarrow> string \<Rightarrow> bool" where
  "passes filter_text column_text \<longleftrightarrow> filter_text = [] \<or> column_text = filter_text"

definition created_within :: "instant \<Rightarrow> instant \<Rightarrow> log_request \<Rightarrow> bool" where
  "created_within from_time to_time q \<longleftrightarrow> \<not> time_before (lr_created q) from_time \<and> time_before (lr_created q) to_time"

definition attempt_passes :: "request_filters \<Rightarrow> log_request \<Rightarrow> logs \<Rightarrow> bool" where
  "attempt_passes f q l \<longleftrightarrow> rf_provider f = [] \<and> rf_upstream_model f = [] \<and> rf_upstream f = []
     \<or> some_row (\<lambda>t. t_request t = r_id q \<and> passes (rf_provider f) (la_provider_name t) \<and> passes (rf_upstream_model f) (la_model t)
         \<and> passes (rf_upstream f) (la_protocol t)) (lg_attempts l)"

definition listed :: "string \<Rightarrow> int option \<Rightarrow> instant \<Rightarrow> instant \<Rightarrow> request_filters \<Rightarrow> logs \<Rightarrow> log_request \<Rightarrow> bool" where
  "listed part access from_time to_time f l q \<longleftrightarrow> created_within from_time to_time q
     \<and> passes (rf_status f) (r_status q) \<and> passes (rf_virtual_model f) (r_model q) \<and> passes (rf_inbound f) (lr_protocol q)
     \<and> attempt_passes f q l \<and> (part \<noteq> [] \<longrightarrow> contains_text (r_id q) part)
     \<and> (case access of None \<Rightarrow> True | Some k \<Rightarrow> r_access_key q = Some k)"

record request_summary =
  qs_row :: log_request
  qs_upstream_protocol :: string
  qs_pruned :: bool

definition request_summary_of :: "logs \<Rightarrow> log_request \<Rightarrow> request_summary" where
  "request_summary_of l q = \<lparr>qs_row = q,
     qs_upstream_protocol = (case last_attempt (\<lambda>_. True) (r_id q) l of None \<Rightarrow> [] | Some t \<Rightarrow> la_protocol t),
     qs_pruned = (lr_pruned q \<noteq> None)\<rparr>"

record request_page =
  pg_items :: "request_summary list"
  pg_total :: nat
  pg_page :: int
  pg_size :: int

definition newest_first :: "log_request list \<Rightarrow> log_request list" where
  "newest_first qs = rev (sort_key (\<lambda>q. time_key (lr_created q)) qs)"

text \<open>\<^verbatim>\<open>LIMIT\<close> and \<^verbatim>\<open>OFFSET\<close> of SQLite: a negative limit is none, a negative offset is zero.\<close>

definition limit_offset :: "int \<Rightarrow> int \<Rightarrow> 'a list \<Rightarrow> 'a list" where
  "limit_offset n k xs = (if n < 0 then drop (nat k) xs else take (nat n) (drop (nat k) xs))"

definition ListRequests ::
    "int \<Rightarrow> int \<Rightarrow> string \<Rightarrow> int option \<Rightarrow> instant \<Rightarrow> instant \<Rightarrow> request_filters \<Rightarrow> logs \<Rightarrow> request_page" where
  "ListRequests page page_size part access from_time to_time f l =
     (let found = select (listed part access from_time to_time f l) (lg_requests l) in
      \<lparr>pg_items = map (request_summary_of l) (limit_offset page_size ((page - 1) * page_size) (newest_first found)),
       pg_total = length found, pg_page = page, pg_size = page_size\<rparr>)"

section \<open>One request\<close>

record attempt_detail =
  ad_row :: log_attempt
  ad_request_body :: string
  ad_response_body :: string

record request_detail =
  de_summary :: request_summary
  de_request_body :: string
  de_response_body :: string
  de_attempts :: "attempt_detail list"
  de_replay_of :: string
  de_decisions :: "route_decision list"
  de_events :: "routing_event list"

datatype read_error = NoSuchRequest | BadPayload

definition decoded_body :: "(string \<Rightarrow> string option) \<Rightarrow> payload \<Rightarrow> read_error + string" where
  "decoded_body gunzip p = (case decodePayload gunzip (pl_body p) (pl_encoding p) of None \<Rightarrow> Inl BadPayload | Some b \<Rightarrow> Inr b)"

definition attempt_detail_of :: "(string \<Rightarrow> string option) \<Rightarrow> log_attempt \<Rightarrow> read_error + attempt_detail" where
  "attempt_detail_of gunzip t =
     bindE (decoded_body gunzip (la_request t)) (\<lambda>request.
     bindE (decoded_body gunzip (la_response t)) (\<lambda>response.
     Inr \<lparr>ad_row = t, ad_request_body = request, ad_response_body = response\<rparr>))"

definition requestAttempts :: "(string \<Rightarrow> string option) \<Rightarrow> string \<Rightarrow> logs \<Rightarrow> read_error + attempt_detail list" where
  "requestAttempts gunzip i l =
     mapE (\<lambda>_. attempt_detail_of gunzip) (order_by t_position (select (\<lambda>t. t_request t = i) (lg_attempts l)))"

definition requestRouting :: "request_detail \<Rightarrow> logs \<Rightarrow> request_detail" where
  "requestRouting d l =
     (case query_row (\<lambda>r. rr_request r = r_id (qs_row (de_summary d))) (lg_routing l) of
        Inl e \<Rightarrow> d
      | Inr r \<Rightarrow> d\<lparr>de_replay_of := rr_replay_of r, de_decisions := rr_decisions r, de_events := rr_events r\<rparr>)"

definition RequestDetail :: "(string \<Rightarrow> string option) \<Rightarrow> string \<Rightarrow> logs \<Rightarrow> read_error + request_detail" where
  "RequestDetail gunzip i l =
     (case query_row (\<lambda>q. r_id q = i) (lg_requests l) of
        Inl e \<Rightarrow> Inl NoSuchRequest
      | Inr q \<Rightarrow>
          bindE (decoded_body gunzip (lr_request q)) (\<lambda>request.
          bindE (decoded_body gunzip (lr_response q)) (\<lambda>response.
          bindE (requestAttempts gunzip i l) (\<lambda>attempts.
          Inr (requestRouting \<lparr>de_summary = request_summary_of l q, de_request_body = request, de_response_body = response,
            de_attempts = attempts, de_replay_of = [], de_decisions = [], de_events = []\<rparr> l)))))"

section \<open>Latencies\<close>

record latency_stats =
  ls_p50 :: "int option"
  ls_p95 :: "int option"
  ls_count :: nat

text \<open>Row numbers count from one, in the order of the values.\<close>

definition nth_sample :: "int list \<Rightarrow> nat \<Rightarrow> int option" where
  "nth_sample xs n = (if n = 0 \<or> length xs < n then None else Some (sort xs ! (n - 1)))"

definition latency_of :: "int list \<Rightarrow> latency_stats" where
  "latency_of xs = \<lparr>ls_p50 = nth_sample xs ((length xs + 1) div 2), ls_p95 = nth_sample xs ((95 * length xs + 99) div 100), ls_count = length xs\<rparr>"

definition latency_samples :: "(log_request \<Rightarrow> int option) \<Rightarrow> instant \<Rightarrow> instant \<Rightarrow> logs \<Rightarrow> int list" where
  "latency_samples column from_time to_time l =
     List.map_filter column (select (\<lambda>q. created_within from_time to_time q \<and> r_status q = ''completed'') (lg_requests l))"

definition performanceLatencyStats :: "instant \<Rightarrow> instant \<Rightarrow> logs \<Rightarrow> latency_stats \<times> latency_stats" where
  "performanceLatencyStats from_time to_time l =
     (latency_of (latency_samples lr_first_content from_time to_time l), latency_of (latency_samples lr_total_ms from_time to_time l))"

record status_counts =
  sc_requests :: nat
  sc_completed :: nat
  sc_failed :: nat
  sc_cancelled :: nat
  sc_in_progress :: nat

definition status_counts_of :: "instant \<Rightarrow> instant \<Rightarrow> logs \<Rightarrow> status_counts" where
  "status_counts_of from_time to_time l =
     (let count = (\<lambda>status. length (select (\<lambda>q. created_within from_time to_time q \<and> r_status q = status) (lg_requests l))) in
      \<lparr>sc_requests = length (select (created_within from_time to_time) (lg_requests l)), sc_completed = count ''completed'',
       sc_failed = count ''failed'', sc_cancelled = count ''cancelled'', sc_in_progress = count ''in_progress''\<rparr>)"

text \<open>The requests that need attention: failed ones first, then cancelled ones, the slow ones before the fast ones.\<close>

definition attention_rank :: "log_request \<Rightarrow> int" where
  "attention_rank q = (if r_status q = ''failed'' then 0 else if r_status q = ''cancelled'' then 1 else 2)"

definition slowness :: "log_request \<Rightarrow> int" where
  "slowness q = (case lr_total_ms q of None \<Rightarrow> 0 | Some ms \<Rightarrow> ms)"

definition performanceAttentionRequests :: "instant \<Rightarrow> instant \<Rightarrow> logs \<Rightarrow> (log_request \<times> log_attempt option) list" where
  "performanceAttentionRequests from_time to_time l =
     (let found = newest_first (select (\<lambda>q. created_within from_time to_time q \<and> r_status q \<noteq> ''in_progress'') (lg_requests l));
          ordered = sort_key attention_rank (sort_key (\<lambda>q. - slowness q) found)
      in map (\<lambda>q. (q, last_attempt (\<lambda>_. True) (r_id q) l)) (take 8 ordered))"

record performance_overview =
  po_counts :: status_counts
  po_rate :: "(nat \<times> nat) option"
  po_first_content :: latency_stats
  po_total :: latency_stats
  po_attention :: "(log_request \<times> log_attempt option) list"

text \<open>The success rate as a fraction (a \<^verbatim>\<open>float64\<close> in the source), where any request has ended.\<close>

definition PerformanceOverview :: "instant \<Rightarrow> instant \<Rightarrow> logs \<Rightarrow> performance_overview" where
  "PerformanceOverview from_time to_time l =
     (let c = status_counts_of from_time to_time l; ended = sc_completed c + sc_failed c + sc_cancelled c;
          (first, total) = performanceLatencyStats from_time to_time l
      in \<lparr>po_counts = c, po_rate = (if ended > 0 then Some (sc_completed c, ended) else None), po_first_content = first, po_total = total,
          po_attention = performanceAttentionRequests from_time to_time l\<rparr>)"

section \<open>Laws\<close>

lemma length_newest [simp]: "length (newest_first qs) = length qs"
  by (simp add: newest_first_def)

lemma mset_newest: "set (newest_first qs) = set qs"
  by (simp add: newest_first_def)

text \<open>The pages, one after the other, are the whole list.\<close>

lemma pages_append: "concat (map (\<lambda>i. take s (drop (i * s) xs)) [0..<n]) = take (n * s) xs"
proof (induction n)
  case (Suc n)
  have "take (n * s) xs @ take s (drop (n * s) xs) = take (Suc n * s) xs"
    by (simp add: take_add [symmetric] add.commute)
  with Suc show ?case by simp
qed simp

text \<open>A percentile by rank: at least the share of the samples is not above it, and less than the share is below it.\<close>

lemma sorted_rank:
  assumes "0 < n" "n \<le> length xs"
  shows "n \<le> length (filter (\<lambda>x. x \<le> sort xs ! (n - 1)) xs) \<and> length (filter (\<lambda>x. x < sort xs ! (n - 1)) xs) < n"
proof -
  let ?ys = "sort xs" and ?v = "sort xs ! (n - 1)"
  have same: "length (filter P xs) = length (filter P ?ys)" for P
    by (simp add: filter_sort)
  have len: "n - 1 < length ?ys" using assms by simp
  have low: "\<forall>y \<in> set (take n ?ys). y \<le> ?v"
    by (auto simp: in_set_conv_nth intro!: sorted_nth_mono) (use assms in arith)+
  have high: "\<forall>y \<in> set (drop (n - 1) ?ys). ?v \<le> y"
    by (auto simp: in_set_conv_nth intro!: sorted_nth_mono) (use assms in arith)+
  have "filter (\<lambda>x. x \<le> ?v) (take n ?ys) = take n ?ys" using low by (simp add: filter_id_conv)
  moreover have "filter (\<lambda>x. x \<le> ?v) ?ys = filter (\<lambda>x. x \<le> ?v) (take n ?ys) @ filter (\<lambda>x. x \<le> ?v) (drop n ?ys)"
    by (metis append_take_drop_id filter_append)
  ultimately have "length (filter (\<lambda>x. x \<le> ?v) ?ys) = length (take n ?ys) + length (filter (\<lambda>x. x \<le> ?v) (drop n ?ys))"
    by (metis length_append)
  with assms have "n \<le> length (filter (\<lambda>x. x \<le> ?v) ?ys)" by simp
  moreover have "filter (\<lambda>x. x < ?v) (drop (n - 1) ?ys) = []" using high by (auto simp: filter_empty_conv)
  then have "length (filter (\<lambda>x. x < ?v) ?ys) \<le> length (take (n - 1) ?ys)"
    by (metis append_Nil2 append_take_drop_id filter_append length_filter_le)
  with assms have "length (filter (\<lambda>x. x < ?v) ?ys) < n" by simp
  ultimately show ?thesis by (simp add: same)
qed

text \<open>What the log promises to its readers.\<close>

section \<open>Payloads\<close>

lemma decoded_payload:
  assumes "\<forall>b. gunzip (gzip b) = Some b"
  shows "decoded_body gunzip (payload_of gzip headers body) = Inr body"
  using assms by (simp add: decoded_body_def decodePayload_def payload_of_def encodePayload_def)

lemma stored_payload_small: "length (pl_body (payload_of gzip headers body)) \<le> length body"
  by (simp add: payload_of_def encodePayload_def)

section \<open>The life of a request\<close>

lemma log_exec_Inr: "log_exec db l = Inr l' \<longleftrightarrow> l' = l \<and> schema_ok (log_columns l db)
    \<and> (\<forall>r \<in> set (rows (lg_routing l)). rr_request r \<in> r_id ` set (rows (lg_requests l)))"
  by (auto simp: log_exec_def)

lemma truncate_ids [simp]: "r_id (request_row.truncate q) = r_id q" "t_id (attempt_row.truncate t) = t_id t"
  "t_request (attempt_row.truncate t) = t_request t"
  by (simp_all add: request_row.truncate_def attempt_row.truncate_def)

lemma schema_columns:
  assumes "schema_ok (log_columns l db)"
  shows "distinct (map r_id (rows (lg_requests l)))" "distinct (map t_id (rows (lg_attempts l)))"
    "t_request ` set (rows (lg_attempts l)) \<subseteq> r_id ` set (rows (lg_requests l))"
  using assms by (auto simp: schema_ok_def unique_columns_def foreign_keys_def unique_def log_columns_def comp_def image_image)

definition one_attempt ::
    "(string \<Rightarrow> string) \<Rightarrow> request_start \<Rightarrow> attempt_start \<Rightarrow> attempt_result \<Rightarrow> request_result \<Rightarrow> database \<Rightarrow> logs \<Rightarrow> store_error + logs" where
  "one_attempt gzip i a ar r db l =
     bindE (StartRequest gzip i db l) (\<lambda>l.
     bindE (StartAttempt gzip a db l) (\<lambda>(aid, l).
     Inr (CompleteRequest gzip r (CompleteAttempt gzip (ar\<lparr>ar_id := aid\<rparr>) l))))"

lemma update_new:
  assumes "P x" "\<forall>y \<in> set xs. \<not> P y"
  shows "map (\<lambda>y. if P y then g y else y) (xs @ [x]) = xs @ [g x]"
  using assms by (auto intro: map_idI)

lemma select_new:
  assumes "P x" "\<forall>y \<in> set (rows t) - {x}. \<not> P y" "rows t = xs @ [x]" "x \<notin> set xs"
  shows "select P t = [x]"
  using assms by (auto simp: select_def filter_empty_conv)

text \<open>The rows of a request with one attempt are the last ones of their tables.\<close>

lemma one_attempt_rows:
  assumes "schema_ok (log_columns l db)" "as_request a = rs_id i" "rd_id r = rs_id i" "one_attempt gzip i a ar r db l = Inr l'"
  obtains q t where "rows (lg_requests l') = rows (lg_requests l) @ [q]" "rows (lg_attempts l') = rows (lg_attempts l) @ [t]"
    "rs_id i \<notin> r_id ` set (rows (lg_requests l))" "rs_id i \<notin> t_request ` set (rows (lg_attempts l))"
    "r_id q = rs_id i" "t_request t = rs_id i" "lr_request q = payload_of gzip (rs_headers i) (rs_body i)"
    "lr_response q = payload_of gzip (rd_headers r) (rd_body r)" "r_status q = rd_status r" "lr_tokens q = rd_tokens r"
    "la_request t = payload_of gzip (as_headers a) (as_body a)" "la_response t = payload_of gzip (ar_headers ar) (ar_body ar)"
    "la_protocol t = as_protocol a" "lr_upstream_model q = (if ar_status ar = ''completed'' then as_model a else [])"
    "lr_provider q = (if ar_status ar = ''completed'' then as_provider_name a else [])"
proof -
  from assms(4) obtain l1 l2 where l1: "StartRequest gzip i db l = Inr l1" and l2: "StartAttempt gzip a db l1 = Inr (last_id (lg_attempts l2), l2)"
    and l': "l' = CompleteRequest gzip r (CompleteAttempt gzip (ar\<lparr>ar_id := last_id (lg_attempts l2)\<rparr>) l2)"
    by (auto simp: one_attempt_def StartAttempt_def elim!: bindE_InrE)
  from l1 l2 obtain q0 t0 where r1: "rows (lg_requests l1) = rows (lg_requests l) @ [q0]" "lg_attempts l1 = lg_attempts l" "schema_ok (log_columns l1 db)"
    and q0: "r_id q0 = rs_id i" "lr_request q0 = payload_of gzip (rs_headers i) (rs_body i)"
    and r2: "rows (lg_attempts l2) = rows (lg_attempts l) @ [t0]" "lg_requests l2 = lg_requests l1" "schema_ok (log_columns l2 db)"
    and t0: "t_id t0 = last_id (lg_attempts l2)" "t_request t0 = rs_id i" "la_request t0 = payload_of gzip (as_headers a) (as_body a)"
      "la_protocol t0 = as_protocol a" "la_model t0 = as_model a" "la_provider_name t0 = as_provider_name a"
    using assms(2) by (auto simp: StartRequest_def StartAttempt_def log_exec_Inr elim!: bindE_InrE)
  have new: "rs_id i \<notin> r_id ` set (rows (lg_requests l))" using schema_columns(1) [OF r1(3)] q0(1) by (auto simp: r1(1))
  have old: "rs_id i \<notin> t_request ` set (rows (lg_attempts l))" using schema_columns(3) [OF assms(1)] new by blast
  have "t_id t0 \<notin> t_id ` set (rows (lg_attempts l))" using schema_columns(2) [OF r2(3)] by (simp add: r2(1))
  then have fresh: "\<forall>t \<in> set (rows (lg_attempts l)). t_id t \<noteq> t_id t0" by (metis imageI)
  let ?set = "\<lambda>t. t\<lparr>t_status := ar_status ar, la_status_code := nullableInt (ar_status_code ar),
        la_response := payload_of gzip (ar_headers ar) (ar_body ar), la_usage := ar_usage ar, la_first_byte := ar_first_byte ar,
        la_first_content := ar_first_content ar, la_total_ms := Some (ar_total_ms ar), la_error := ar_error ar,
        la_completed := Some (ar_completed ar)\<rparr>"
  let ?l3 = "CompleteAttempt gzip (ar\<lparr>ar_id := last_id (lg_attempts l2)\<rparr>) l2"
  have attempts: "rows (lg_attempts ?l3) = rows (lg_attempts l) @ [?set t0]"
    using update_new [of "\<lambda>t. t_id t = t_id t0" t0 "rows (lg_attempts l)" ?set] fresh
    by (simp add: CompleteAttempt_def r2(1) t0(1))
  have requests: "rows (lg_requests ?l3) = rows (lg_requests l) @ [q0]" by (simp add: CompleteAttempt_def r2(2) r1(1))
  have none: "\<forall>t \<in> set (rows (lg_attempts l)). t_request t \<noteq> rs_id i" using old by (metis imageI)
  have "filter (\<lambda>t. t_request t = rs_id i \<and> t_status t = ''completed'') (rows (lg_attempts ?l3)) =
      (if ar_status ar = ''completed'' then [?set t0] else [])"
    using none t0(2) by (auto simp: attempts filter_empty_conv)
  then have final: "last_attempt (\<lambda>t. t_status t = ''completed'') (rd_id r) ?l3 = (if ar_status ar = ''completed'' then Some (?set t0) else None)"
    by (simp add: last_attempt_def select_def assms(3) order_by_def)
  have la: "lg_attempts l' = lg_attempts ?l3" by (simp add: l' CompleteRequest_def Let_def)
  show thesis
  proof (rule that)
    show "rows (lg_attempts l') = rows (lg_attempts l) @ [?set t0]" using attempts by (simp add: la)
    let ?q = "\<lambda>q. q\<lparr>r_status := rd_status r, lr_status_code := nullableInt (rd_status_code r),
           lr_response := payload_of gzip (rd_headers r) (rd_body r), lr_tokens := rd_tokens r,
           lr_first_content := rd_first_content r, lr_total_ms := Some (rd_total_ms r), lr_error := rd_error r,
           lr_completed := Some (rd_completed r),
           lr_upstream_model := (case last_attempt (\<lambda>t. t_status t = ''completed'') (rd_id r) ?l3 of None \<Rightarrow> [] | Some t \<Rightarrow> la_model t),
           lr_provider := (case last_attempt (\<lambda>t. t_status t = ''completed'') (rd_id r) ?l3 of None \<Rightarrow> [] | Some t \<Rightarrow> la_provider_name t)\<rparr>"
    show "rows (lg_requests l') = rows (lg_requests l) @ [?q q0]"
    proof -
      have "\<forall>q \<in> set (rows (lg_requests l)). r_id q \<noteq> rs_id i" using new by (metis imageI)
      then have "map (\<lambda>q. if r_id q = rs_id i then g q else q) (rows (lg_requests l)) = rows (lg_requests l)" for g
        by (intro map_idI) auto
      then show ?thesis by (simp add: l' CompleteRequest_def Let_def assms(3) requests q0(1))
    qed
    show "lr_upstream_model (?q q0) = (if ar_status ar = ''completed'' then as_model a else [])"
      "lr_provider (?q q0) = (if ar_status ar = ''completed'' then as_provider_name a else [])"
      by (simp_all add: final t0)
  qed (simp_all add: q0 t0 new old)
qed

text \<open>
  C33. What is logged about a request is what is read later: the bodies of the request, of its answer
  and of the attempt come back byte by byte, compressed or not, the status and the tokens are those
  of the completion, and the model and the provider it is listed with are those of the attempt if it
  was completed.
\<close>

theorem logged_request_returns:
  assumes "\<forall>b. gunzip (gzip b) = Some b" and "schema_ok (log_columns l db)"
    and "as_request a = rs_id i" "rd_id r = rs_id i"
    and "one_attempt gzip i a ar r db l = Inr l'"
  shows "\<exists>d t. RequestDetail gunzip (rs_id i) l' = Inr d \<and> de_request_body d = rs_body i \<and> de_response_body d = rd_body r
    \<and> de_attempts d = [t] \<and> ad_request_body t = as_body a \<and> ad_response_body t = ar_body ar
    \<and> r_status (qs_row (de_summary d)) = rd_status r \<and> lr_tokens (qs_row (de_summary d)) = rd_tokens r
    \<and> qs_upstream_protocol (de_summary d) = as_protocol a
    \<and> lr_upstream_model (qs_row (de_summary d)) = (if ar_status ar = ''completed'' then as_model a else [])
    \<and> lr_provider (qs_row (de_summary d)) = (if ar_status ar = ''completed'' then as_provider_name a else [])"
proof -
  from one_attempt_rows [OF assms(2-5)] obtain q t where
    rows: "rows (lg_requests l') = rows (lg_requests l) @ [q]" "rows (lg_attempts l') = rows (lg_attempts l) @ [t]"
    and new: "rs_id i \<notin> r_id ` set (rows (lg_requests l))" "rs_id i \<notin> t_request ` set (rows (lg_attempts l))"
    and q: "r_id q = rs_id i" "lr_request q = payload_of gzip (rs_headers i) (rs_body i)"
      "lr_response q = payload_of gzip (rd_headers r) (rd_body r)" "r_status q = rd_status r" "lr_tokens q = rd_tokens r"
      "lr_upstream_model q = (if ar_status ar = ''completed'' then as_model a else [])"
      "lr_provider q = (if ar_status ar = ''completed'' then as_provider_name a else [])"
    and t: "t_request t = rs_id i" "la_request t = payload_of gzip (as_headers a) (as_body a)"
      "la_response t = payload_of gzip (ar_headers ar) (ar_body ar)" "la_protocol t = as_protocol a" .
  have old: "\<forall>q \<in> set (rows (lg_requests l)). r_id q \<noteq> rs_id i" "\<forall>t \<in> set (rows (lg_attempts l)). t_request t \<noteq> rs_id i"
    using new by (metis imageI)+
  have one_q: "select (\<lambda>q. r_id q = rs_id i) (lg_requests l') = [q]" using old(1) q(1) by (auto simp: select_def rows(1) filter_empty_conv)
  have one_t: "select (\<lambda>t. t_request t = rs_id i) (lg_attempts l') = [t]" using old(2) t(1) by (auto simp: select_def rows(2) filter_empty_conv)
  note body = decoded_payload [of gunzip gzip, OF assms(1)]
  have attempts: "requestAttempts gunzip (rs_id i) l' = Inr [\<lparr>ad_row = t, ad_request_body = as_body a, ad_response_body = ar_body ar\<rparr>]"
    by (simp add: requestAttempts_def one_t order_by_def attempt_detail_of_def t body)
  let ?d = "\<lparr>de_summary = request_summary_of l' q, de_request_body = rs_body i, de_response_body = rd_body r,
      de_attempts = [\<lparr>ad_row = t, ad_request_body = as_body a, ad_response_body = ar_body ar\<rparr>], de_replay_of = [], de_decisions = [], de_events = []\<rparr>"
  have "RequestDetail gunzip (rs_id i) l' = Inr (requestRouting ?d l')"
    by (simp add: RequestDetail_def query_row_def one_q q body attempts)
  moreover have "de_request_body (requestRouting ?d l') = rs_body i" "de_response_body (requestRouting ?d l') = rd_body r"
    "de_attempts (requestRouting ?d l') = de_attempts ?d" "de_summary (requestRouting ?d l') = request_summary_of l' q"
    by (auto simp: requestRouting_def split: sum.splits)
  moreover have "qs_upstream_protocol (request_summary_of l' q) = as_protocol a" "qs_row (request_summary_of l' q) = q"
    by (simp_all add: request_summary_of_def last_attempt_def q(1) one_t order_by_def t(4))
  ultimately show ?thesis using q by simp
qed

definition log_upstream :: provider_input where
  "log_upstream = \<lparr>pi_kind = [], pi_name = ''p'', pi_auth_type = ''bearer'', pi_auth_header = [],
     pi_static_headers = [], pi_quota_codes = [], pi_endpoints = [(Chat, ''https://u'')],
     pi_keys = [\<lparr>ki_id = 0, ki_name = ''a'', ki_secret = ''s1'', ki_expires_at = None, ki_enabled = None\<rparr>]\<rparr>"

definition log_model :: model_input where
  "log_model = \<lparr>mi_name = ''m'', mi_candidates = [\<lparr>ci_id = 0, ci_provider_id = 1, ci_upstream_model = ''real'',
     ci_default_max = 0, ci_max = 0, ci_protocols = [\<lparr>Protocol = Chat, Position = 0, SupportsStream = True,
       SupportsTools = False, SupportsParallelTools = False, EffortLevels = [], SupportsStreamUsage = False\<rparr>]\<rparr>]\<rparr>"

definition log_database :: database where
  "log_database = snd (projr (CreateVirtualModel 0 log_model (snd (projr (CreateProvider 0 log_upstream empty_database)))))"

definition empty_logs :: logs where
  "empty_logs = \<lparr>lg_requests = empty_table, lg_attempts = empty_table, lg_routing = empty_table, lg_security = empty_table,
     lg_limits = empty_table, lg_cleanup = None\<rparr>"

definition demo_start :: request_start where
  "demo_start = \<lparr>rs_id = ''req_1'', rs_access_key = None, rs_key_name = [], rs_model = ''m'', rs_protocol = Chat, rs_endpoint = [],
     rs_stream = False, rs_effort = [], rs_ip = [], rs_agent = [], rs_headers = [], rs_body = ''question'', rs_created = 5\<rparr>"

definition demo_try :: attempt_start where
  "demo_try = \<lparr>as_stream = False, as_ignored = [], as_request = ''req_1'', as_position = 0, as_provider = 1, as_provider_name = ''p'',
     as_key = 1, as_key_name = ''a'', as_candidate = 1, as_model = ''real'', as_protocol = Chat, as_endpoint = ''https://u'',
     as_headers = [], as_body = ''sent'', as_created = 6\<rparr>"

definition demo_answered :: attempt_result where
  "demo_answered = \<lparr>ar_id = 0, ar_status = ''completed'', ar_status_code = 200, ar_headers = [], ar_body = ''received'', ar_usage = [],
     ar_first_byte = None, ar_first_content = None, ar_total_ms = 3, ar_error = [], ar_completed = 9\<rparr>"

definition demo_result :: request_result where
  "demo_result = \<lparr>rd_id = ''req_1'', rd_status = ''completed'', rd_status_code = 200, rd_headers = [], rd_body = ''answer'',
     rd_tokens = no_tokens, rd_first_content = None, rd_total_ms = 4, rd_error = [], rd_completed = 9\<rparr>"

definition demo_logged :: "store_error + logs" where
  "demo_logged = one_attempt (\<lambda>b. b) demo_start demo_try demo_answered demo_result log_database empty_logs"

theorem logged_request_returns_witness:
  "\<exists>l d. demo_logged = Inr l \<and> RequestDetail Some ''req_1'' l = Inr d \<and> de_request_body d = ''question'' \<and> de_response_body d = ''answer''
     \<and> lr_upstream_model (qs_row (de_summary d)) = ''real''"
proof -
  have "schema_ok (log_columns empty_logs log_database)" by code_simp
  moreover have "is_ok demo_logged" by code_simp
  then obtain l where l: "demo_logged = Inr l" using is_ok_projr by blast
  moreover have "as_request demo_try = rs_id demo_start" "rd_id demo_result = rs_id demo_start"
    by (simp_all add: demo_try_def demo_start_def demo_result_def)
  ultimately have "\<exists>d t. RequestDetail Some (rs_id demo_start) l = Inr d \<and> de_request_body d = rs_body demo_start
      \<and> de_response_body d = rd_body demo_result
      \<and> lr_upstream_model (qs_row (de_summary d)) = (if ar_status demo_answered = ''completed'' then as_model demo_try else [])"
    using logged_request_returns [of Some "\<lambda>b. b" empty_logs log_database demo_try demo_start demo_result demo_answered l]
    unfolding demo_logged_def by blast
  then have "\<exists>d. RequestDetail Some ''req_1'' l = Inr d \<and> de_request_body d = ''question'' \<and> de_response_body d = ''answer''
     \<and> lr_upstream_model (qs_row (de_summary d)) = ''real''"
    by (simp add: demo_start_def demo_try_def demo_result_def demo_answered_def)
  with l show ?thesis by (intro exI [of _ l]) simp
qed

section \<open>Lists and figures\<close>

text \<open>
  The pages of a list, one after the other, are the whole list of the requests found, each once, the
  newest first; every page states their number.
\<close>

theorem pages_partition:
  assumes "0 < s"
  shows "concat (map (\<lambda>i. pg_items (ListRequests (int i + 1) (int s) part access a b f l)) [0..<n])
      = map (request_summary_of l) (take (n * s) (newest_first (select (listed part access a b f l) (lg_requests l))))
    \<and> pg_total (ListRequests page page_size part access a b f l) = length (select (listed part access a b f l) (lg_requests l))"
proof -
  let ?found = "newest_first (select (listed part access a b f l) (lg_requests l))"
  have "nat (int i * int s) = i * s" for i by (simp add: nat_mult_distrib)
  then have "pg_items (ListRequests (int i + 1) (int s) part access a b f l) = map (request_summary_of l) (take s (drop (i * s) ?found))" for i
    by (simp add: ListRequests_def limit_offset_def Let_def)
  then have "concat (map (\<lambda>i. pg_items (ListRequests (int i + 1) (int s) part access a b f l)) [0..<n])
      = map (request_summary_of l) (concat (map (\<lambda>i. take s (drop (i * s) ?found)) [0..<n]))"
    by (simp add: map_concat comp_def)
  then show ?thesis by (simp add: pages_append ListRequests_def Let_def)
qed

text \<open>The latency of rank 95 of 100 is the smallest value that at least 95 percent of the samples do not exceed.\<close>

theorem latency_percentile:
  assumes "xs \<noteq> []"
  shows "\<exists>v. ls_p95 (latency_of xs) = Some v \<and> 95 * length xs \<le> 100 * length (filter (\<lambda>x. x \<le> v) xs)
    \<and> 100 * length (filter (\<lambda>x. x < v) xs) < 95 * length xs"
proof -
  let ?n = "(95 * length xs + 99) div 100"
  from assms have n: "0 < ?n" "?n \<le> length xs" by (cases xs; simp)+
  from sorted_rank [OF n] have rank: "?n \<le> length (filter (\<lambda>x. x \<le> sort xs ! (?n - 1)) xs)"
    "length (filter (\<lambda>x. x < sort xs ! (?n - 1)) xs) < ?n" by auto
  then have "95 * length xs \<le> 100 * length (filter (\<lambda>x. x \<le> sort xs ! (?n - 1)) xs)"
    "100 * length (filter (\<lambda>x. x < sort xs ! (?n - 1)) xs) < 95 * length xs" by linarith+
  moreover have "ls_p95 (latency_of xs) = Some (sort xs ! (?n - 1))" using n by (simp add: latency_of_def nth_sample_def)
  ultimately show ?thesis by blast
qed

end
