(* ===== verification/OAuthLogin.thy ===== *)
theory OAuthLogin
  imports GoDecode GoTime
begin

text \<open>
  Sessions of a browser login (internal/oauthlogin/login.go). Every operation of the \<^verbatim>\<open>Manager\<close>
  holds its lock, so an execution is a sequence of operations; the exchange of the code runs between
  two of them. A flow stays in the list \<open>lm_flows\<close> after the manager has dropped it, since the
  goroutines of the flow still hold it; \<open>fl_listed\<close> says whether it is in the manager's map. The list
  also is the order in which the map is traversed. Parsing of URLs and queries, the random strings
  and the listening socket are arguments; \<open>ctx.Err()\<close> is that the flow was cancelled or its
  deadline has passed.
\<close>

section \<open>Flows\<close>

record flow =
  fl_id :: string
  fl_provider :: int
  fl_url :: string
  fl_redirect :: string
  fl_expires :: instant
  fl_status :: string
  fl_error :: string
  fl_account :: int
  fl_owner :: string
  fl_state :: string
  fl_verifier :: string
  fl_exchange :: bool
  fl_cancelled :: bool
  fl_issuer :: string
  fl_listed :: bool

record login_manager =
  lm_flows :: "flow list"
  lm_started :: "(string \<times> string) list"
  lm_saved :: "string list"

datatype login_error = Busy | SessionNotFound | AlreadyHandled | InvalidCallback | StateMismatch | IssuerMismatch | NoCode
  | BadRedirect | NoListener

definition Lifetime :: int where "Lifetime = 300 * second"

definition active :: "flow \<Rightarrow> bool" where
  "active f \<longleftrightarrow> fl_status f = ''pending'' \<or> fl_status f = ''exchanging''"

definition ctx_done :: "instant \<Rightarrow> flow \<Rightarrow> bool" where
  "ctx_done now f \<longleftrightarrow> fl_cancelled f \<or> fl_expires f \<le> now"

definition stale :: "instant \<Rightarrow> flow \<Rightarrow> bool" where
  "stale now f \<longleftrightarrow> fl_expires f + 60 * second < now"

definition finishLocked :: "string \<Rightarrow> string \<Rightarrow> int \<Rightarrow> flow \<Rightarrow> flow" where
  "finishLocked status message account f = f\<lparr>fl_status := status, fl_error := message, fl_account := account,
     fl_url := [], fl_state := [], fl_verifier := [], fl_exchange := False, fl_cancelled := True\<rparr>"

text \<open>Updating the flow with an id.\<close>

definition on_flow :: "string \<Rightarrow> (flow \<Rightarrow> flow) \<Rightarrow> login_manager \<Rightarrow> login_manager" where
  "on_flow i g m = m\<lparr>lm_flows := map (\<lambda>f. if fl_id f = i then g f else f) (lm_flows m)\<rparr>"

definition find_flow :: "string \<Rightarrow> login_manager \<Rightarrow> flow option" where
  "find_flow i m = find (\<lambda>f. fl_id f = i) (lm_flows m)"

text \<open>\<open>m.flows[id]\<close>\<close>

definition listed_flow :: "string \<Rightarrow> login_manager \<Rightarrow> flow option" where
  "listed_flow i m = (case find_flow i m of Some f \<Rightarrow> if fl_listed f then Some f else None | None \<Rightarrow> None)"

section \<open>Starting\<close>

text \<open>
  The scan of \<^verbatim>\<open>Start\<close>: stale flows are dropped until an active one of the same owner turns up.
\<close>

fun scan_flows :: "instant \<Rightarrow> string \<Rightarrow> flow list \<Rightarrow> bool \<times> flow list" where
  "scan_flows now owner [] = (False, [])"
| "scan_flows now owner (f # fs) =
     (if \<not> fl_listed f then apsnd (Cons f) (scan_flows now owner fs)
      else if stale now f then apsnd (Cons (f\<lparr>fl_listed := False\<rparr>)) (scan_flows now owner fs)
      else if fl_owner f = owner \<and> active f then (True, f # fs)
      else apsnd (Cons f) (scan_flows now owner fs))"

record url =
  u_scheme :: string
  u_host :: string
  u_hostname :: string
  u_port :: string
  u_path :: string
  u_user :: bool
  u_fragment :: string
  u_opaque :: string
  u_query :: string

record login_config =
  lc_redirect :: string
  lc_issuer :: string

definition loopback :: "url \<Rightarrow> bool" where
  "loopback u \<longleftrightarrow> u_scheme u = ''http'' \<and> u_hostname u = ''127.0.0.1'' \<and> u_port u \<noteq> []"

text \<open>
  \<open>fresh\<close> has the id, the state and the verifier, \<open>listener\<close> the redirect with the port that was
  taken and \<open>authorize\<close> the URL for the state.
\<close>

definition Start ::
    "(string \<Rightarrow> url option) \<Rightarrow> instant \<Rightarrow> string \<Rightarrow> int \<Rightarrow> login_config \<Rightarrow> string \<times> string \<times> string \<Rightarrow> string option \<Rightarrow>
     (string \<Rightarrow> string \<Rightarrow> string) \<Rightarrow> login_manager \<Rightarrow> (login_error + flow) \<times> login_manager" where
  "Start parse now owner provider config fresh listener authorize m =
     (let (busy, fs) = scan_flows now owner (lm_flows m); m = m\<lparr>lm_flows := fs\<rparr> in
      if busy then (Inl Busy, m)
      else case parse (lc_redirect config) of
          None \<Rightarrow> (Inl BadRedirect, m)
        | Some u \<Rightarrow>
            if \<not> loopback u then (Inl BadRedirect, m)
            else (case (fresh, listener) of
                (_, None) \<Rightarrow> (Inl NoListener, m)
              | ((i, state, verifier), Some redirect) \<Rightarrow>
                  (let f = \<lparr>fl_id = i, fl_provider = provider, fl_url = authorize state redirect, fl_redirect = redirect,
                         fl_expires = now + Lifetime, fl_status = ''pending'', fl_error = [], fl_account = 0, fl_owner = owner,
                         fl_state = state, fl_verifier = verifier, fl_exchange = True, fl_cancelled = False,
                         fl_issuer = lc_issuer config, fl_listed = True\<rparr>
                   in (Inr f, m\<lparr>lm_flows := fs @ [f]\<rparr>))))"

section \<open>The answer of the authorization server\<close>

type_synonym query = "string \<Rightarrow> string list"

definition query_get :: "query \<Rightarrow> string \<Rightarrow> string" where
  "query_get q k = (case q k of [] \<Rightarrow> [] | v # _ \<Rightarrow> v)"

text \<open>What \<^verbatim>\<open>acceptLocked\<close> does: an error, an end of the flow, or the exchange of a code.\<close>

datatype accepted_callback = Rejected login_error | Declined | ExchangeCode string

definition acceptLocked :: "instant \<Rightarrow> query \<Rightarrow> flow \<Rightarrow> accepted_callback \<times> flow" where
  "acceptLocked now q f =
     (if fl_status f \<noteq> ''pending'' \<or> ctx_done now f then (Rejected AlreadyHandled, f)
      else if length (q ''state'') \<noteq> 1 \<or> fl_state f = [] \<or> query_get q ''state'' \<noteq> fl_state f then (Rejected StateMismatch, f)
      else if length (q ''iss'') > 1 \<or> length (q ''error'') > 1 \<or> length (q ''code'') > 1 then (Rejected InvalidCallback, f)
      else if query_get q ''iss'' \<noteq> [] \<and> (fl_issuer f = [] \<or> query_get q ''iss'' \<noteq> fl_issuer f) then (Rejected IssuerMismatch, f)
      else if query_get q ''error'' \<noteq> [] then
        (if query_get q ''code'' \<noteq> [] then (Rejected InvalidCallback, f)
         else (Declined, finishLocked ''failed'' ''authorization was not completed'' 0 f))
      else if query_get q ''code'' = [] then (Rejected NoCode, f)
      else (ExchangeCode (query_get q ''code''), f\<lparr>fl_status := ''exchanging''\<rparr>))"

text \<open>An accepted code starts the exchange; \<open>lm_started\<close> remembers the flow and the code.\<close>

definition accept_flow :: "instant \<Rightarrow> query \<Rightarrow> flow \<Rightarrow> login_manager \<Rightarrow> accepted_callback \<times> login_manager" where
  "accept_flow now q f m =
     (let (r, f') = acceptLocked now q f; m = on_flow (fl_id f) (\<lambda>_. f') m in
      (r, case r of ExchangeCode code \<Rightarrow> m\<lparr>lm_started := lm_started m @ [(fl_id f, code)]\<rparr> | _ \<Rightarrow> m))"

text \<open>The callback on the loopback address, and the address pasted by the user.\<close>

definition callback :: "instant \<Rightarrow> query option \<Rightarrow> string \<Rightarrow> login_manager \<Rightarrow> (login_error + accepted_callback) \<times> login_manager" where
  "callback now q i m =
     (case (q, find_flow i m) of
        (Some q, Some f) \<Rightarrow> (let (r, m) = accept_flow now q f m in (case r of Rejected e \<Rightarrow> Inl e | _ \<Rightarrow> Inr r, m))
      | _ \<Rightarrow> (Inl InvalidCallback, m))"

definition same_callback :: "url \<Rightarrow> url \<Rightarrow> bool" where
  "same_callback u expected \<longleftrightarrow> u_scheme u = u_scheme expected \<and> u_host u = u_host expected \<and> u_path u = u_path expected
     \<and> \<not> u_user u \<and> u_fragment u = [] \<and> u_opaque u = []"

definition Submit ::
    "(string \<Rightarrow> url option) \<Rightarrow> (string \<Rightarrow> query option) \<Rightarrow> instant \<Rightarrow> string \<Rightarrow> int \<Rightarrow> string \<Rightarrow> string \<Rightarrow> login_manager \<Rightarrow>
     (login_error + flow) \<times> login_manager" where
  "Submit parse parse_query now owner provider i pasted m =
     (case listed_flow i m of
        None \<Rightarrow> (Inl SessionNotFound, m)
      | Some f \<Rightarrow>
          if fl_owner f \<noteq> owner \<or> fl_provider f \<noteq> provider \<or> stale now f then (Inl SessionNotFound, m)
          else (let pasted = trim_space pasted in
            if 16384 < length pasted then (Inl InvalidCallback, m)
            else case (parse pasted, parse (fl_redirect f)) of
                (Some u, Some expected) \<Rightarrow>
                  if \<not> same_callback u expected then (Inl InvalidCallback, m)
                  else (case parse_query (u_query u) of
                      None \<Rightarrow> (Inl InvalidCallback, m)
                    | Some q \<Rightarrow>
                        (let (r, m') = accept_flow now q f m in
                         (case r of Rejected e \<Rightarrow> Inl e
                          | _ \<Rightarrow> (case find_flow i m' of Some f' \<Rightarrow> Inr f' | None \<Rightarrow> Inl SessionNotFound), m')))
              | _ \<Rightarrow> (Inl InvalidCallback, m)))"

section \<open>The end of a flow\<close>

text \<open>
  \<^verbatim>\<open>complete\<close> after the exchange: \<open>result\<close> is its error or what saving the account gives. The saving
  runs under the lock, and only for a flow that is still active and in time.
\<close>

definition complete :: "instant \<Rightarrow> string + (string + int) \<Rightarrow> string \<Rightarrow> login_manager \<Rightarrow> login_manager" where
  "complete now result i m =
     (case find_flow i m of
        None \<Rightarrow> m
      | Some f \<Rightarrow>
          if \<not> active f then m
          else if ctx_done now f then on_flow i (finishLocked ''expired'' ''login timed out'' 0) m
          else (case result of
              Inl e \<Rightarrow> on_flow i (finishLocked ''failed'' e 0) m
            | Inr (Inl e) \<Rightarrow> (on_flow i (finishLocked ''failed'' e 0) m)\<lparr>lm_saved := lm_saved m @ [i]\<rparr>
            | Inr (Inr account) \<Rightarrow> (on_flow i (finishLocked ''succeeded'' [] account) m)\<lparr>lm_saved := lm_saved m @ [i]\<rparr>))"

text \<open>The goroutines of \<^verbatim>\<open>Start\<close>: the callback server stops, or the context ends.\<close>

definition server_stopped :: "string \<Rightarrow> login_manager \<Rightarrow> login_manager" where
  "server_stopped i m = on_flow i (\<lambda>f. if active f then finishLocked ''failed'' ''callback service stopped'' 0 f else f) m"

definition context_ended :: "instant \<Rightarrow> string \<Rightarrow> login_manager \<Rightarrow> login_manager" where
  "context_ended now i m = on_flow i (\<lambda>f. if ctx_done now f \<and> active f then finishLocked ''expired'' ''login timed out'' 0 f else f) m"

definition Get_login :: "instant \<Rightarrow> string \<Rightarrow> int \<Rightarrow> string \<Rightarrow> login_manager \<Rightarrow> flow option" where
  "Get_login now owner provider i m =
     (case listed_flow i m of
        None \<Rightarrow> None
      | Some f \<Rightarrow> if fl_owner f \<noteq> owner \<or> fl_provider f \<noteq> provider \<or> stale now f then None else Some f)"

definition cancel_active :: "flow \<Rightarrow> flow" where
  "cancel_active f = (if active f then finishLocked ''cancelled'' ''login cancelled'' 0 f else f)"

definition Cancel_login :: "string \<Rightarrow> int \<Rightarrow> string \<Rightarrow> login_manager \<Rightarrow> bool \<times> login_manager" where
  "Cancel_login owner provider i m =
     (case listed_flow i m of
        None \<Rightarrow> (False, m)
      | Some f \<Rightarrow> if fl_owner f \<noteq> owner \<or> fl_provider f \<noteq> provider then (False, m) else (True, on_flow i cancel_active m))"

definition CancelOwner :: "string \<Rightarrow> login_manager \<Rightarrow> login_manager" where
  "CancelOwner owner m = m\<lparr>lm_flows := map (\<lambda>f. if fl_listed f \<and> (owner = [] \<or> fl_owner f = owner) then cancel_active f else f) (lm_flows m)\<rparr>"

section \<open>Executions\<close>

inductive login_reachable :: "login_manager \<Rightarrow> bool" where
  new: "login_reachable \<lparr>lm_flows = [], lm_started = [], lm_saved = []\<rparr>"
| start: "login_reachable m \<Longrightarrow> i \<notin> fl_id ` set (lm_flows m) \<Longrightarrow>
    Start parse now owner provider config (i, state, verifier) listener authorize m = (r, m') \<Longrightarrow> login_reachable m'"
| callback: "login_reachable m \<Longrightarrow> callback now q i m = (a, m') \<Longrightarrow> login_reachable m'"
| submit: "login_reachable m \<Longrightarrow> Submit parse parse_query now owner provider i pasted m = (r, m') \<Longrightarrow> login_reachable m'"
| complete: "login_reachable m \<Longrightarrow> i \<in> fst ` set (lm_started m) \<Longrightarrow> login_reachable (complete now result i m)"
| stopped: "login_reachable m \<Longrightarrow> login_reachable (server_stopped i m)"
| ended: "login_reachable m \<Longrightarrow> login_reachable (context_ended now i m)"
| cancel: "login_reachable m \<Longrightarrow> Cancel_login owner provider i m = (b, m') \<Longrightarrow> login_reachable m'"
| cancel_owner: "login_reachable m \<Longrightarrow> login_reachable (CancelOwner owner m)"

section \<open>Invariants\<close>

definition wiped :: "flow \<Rightarrow> bool" where
  "wiped f \<longleftrightarrow> fl_url f = [] \<and> fl_state f = [] \<and> fl_verifier f = [] \<and> \<not> fl_exchange f"

definition flow_ok :: "string set \<Rightarrow> string set \<Rightarrow> flow \<Rightarrow> bool" where
  "flow_ok started saved f \<longleftrightarrow> (\<not> active f \<longrightarrow> wiped f) \<and> (fl_status f = ''pending'' \<longrightarrow> fl_id f \<notin> started)
     \<and> (active f \<longrightarrow> fl_id f \<notin> saved) \<and> (fl_status f = ''succeeded'' \<longrightarrow> fl_id f \<in> saved)"

definition alone :: "flow list \<Rightarrow> bool" where
  "alone fs \<longleftrightarrow> (\<forall>f \<in> set fs. \<forall>g \<in> set fs. fl_listed f \<and> fl_listed g \<and> active f \<and> active g \<and> fl_owner f = fl_owner g
     \<longrightarrow> fl_id f = fl_id g)"

definition login_ok :: "login_manager \<Rightarrow> bool" where
  "login_ok m \<longleftrightarrow> distinct (map fl_id (lm_flows m)) \<and> distinct (map fst (lm_started m)) \<and> distinct (lm_saved m)
     \<and> set (lm_saved m) \<subseteq> fst ` set (lm_started m) \<and> fst ` set (lm_started m) \<subseteq> fl_id ` set (lm_flows m)
     \<and> (\<forall>f \<in> set (lm_flows m). flow_ok (fst ` set (lm_started m)) (set (lm_saved m)) f) \<and> alone (lm_flows m)"

lemma finishLocked_simps [simp]:
  "fl_id (finishLocked st e a f) = fl_id f" "fl_owner (finishLocked st e a f) = fl_owner f"
  "fl_listed (finishLocked st e a f) = fl_listed f" "fl_status (finishLocked st e a f) = st"
  "wiped (finishLocked st e a f)"
  by (simp_all add: finishLocked_def wiped_def)

text \<open>What every operation but \<open>Start\<close> does to a flow at most; it keeps the flows alone.\<close>

definition keeps :: "flow \<Rightarrow> flow \<Rightarrow> bool" where
  "keeps f f' \<longleftrightarrow> fl_id f' = fl_id f \<and> fl_owner f' = fl_owner f \<and> (fl_listed f' \<longrightarrow> fl_listed f) \<and> (active f' \<longrightarrow> active f)"

lemma keeps_refl [simp]: "keeps f f"
  by (simp add: keeps_def)

lemma related_member: "list_all2 R xs ys \<Longrightarrow> y \<in> set ys \<Longrightarrow> \<exists>x \<in> set xs. R x y"
  by (induction xs ys rule: list_all2_induct) auto

lemma keeps_ids: "list_all2 keeps fs fs' \<Longrightarrow> map fl_id fs' = map fl_id fs"
  by (induction fs fs' rule: list_all2_induct) (auto simp: keeps_def)

lemma keeps_alone:
  assumes "list_all2 keeps fs fs'" "alone fs"
  shows "alone fs'"
  unfolding alone_def
proof (intro ballI impI)
  fix f' g' assume "f' \<in> set fs'" "g' \<in> set fs'"
    and both: "fl_listed f' \<and> fl_listed g' \<and> active f' \<and> active g' \<and> fl_owner f' = fl_owner g'"
  from related_member [OF assms(1) this(1)] related_member [OF assms(1) this(2)]
  obtain f g where "f \<in> set fs" "keeps f f'" "g \<in> set fs" "keeps g g'" by blast
  with both have "fl_id f = fl_id g" using assms(2) unfolding alone_def keeps_def by metis
  with \<open>keeps f f'\<close> \<open>keeps g g'\<close> show "fl_id f' = fl_id g'" by (simp add: keeps_def)
qed

text \<open>One rule for all of these operations.\<close>

lemma login_ok_update:
  assumes ok: "login_ok m"
    and started: "lm_started m' = lm_started m @ ss" "distinct (map fst ss)"
      "fst ` set ss \<subseteq> fl_id ` set (lm_flows m) - fst ` set (lm_started m)"
    and saved: "lm_saved m' = lm_saved m @ vs" "distinct vs" "set vs \<subseteq> fst ` set (lm_started m) - set (lm_saved m)"
    and flows: "list_all2 keeps (lm_flows m) (lm_flows m')"
    and each: "list_all2 (\<lambda>f f'. flow_ok (fst ` set (lm_started m)) (set (lm_saved m)) f \<longrightarrow>
      flow_ok (fst ` set (lm_started m) \<union> fst ` set ss) (set (lm_saved m) \<union> set vs) f') (lm_flows m) (lm_flows m')"
  shows "login_ok m'"
proof -
  note ids = keeps_ids [OF flows]
  then have set_ids: "fl_id ` set (lm_flows m') = fl_id ` set (lm_flows m)" by (metis set_map)
  have "\<forall>f \<in> set (lm_flows m'). flow_ok (fst ` set (lm_started m) \<union> fst ` set ss) (set (lm_saved m) \<union> set vs) f"
    using ok related_member [OF each] by (auto simp: login_ok_def)
  moreover have "alone (lm_flows m')" using ok keeps_alone [OF flows] by (simp add: login_ok_def)
  moreover have "distinct (map fst (lm_started m @ ss))" "distinct (lm_saved m @ vs)"
    using ok started saved by (auto simp: login_ok_def)
  moreover have "set (lm_saved m @ vs) \<subseteq> fst ` set (lm_started m @ ss)"
      "fst ` set (lm_started m @ ss) \<subseteq> fl_id ` set (lm_flows m')"
    unfolding set_ids using ok started saved by (auto simp: login_ok_def)
  ultimately show ?thesis
    using ok unfolding login_ok_def started(1) saved(1) ids by (simp add: image_Un)
qed

lemma related_map: "list_all2 R xs (map g xs) \<longleftrightarrow> (\<forall>x \<in> set xs. R x (g x))"
  by (induction xs) auto

lemma same_flow: "login_ok m \<Longrightarrow> f \<in> set (lm_flows m) \<Longrightarrow> g \<in> set (lm_flows m) \<Longrightarrow> fl_id g = fl_id f \<Longrightarrow> g = f"
  by (auto simp: login_ok_def distinct_map inj_on_def)

lemma find_flow_Some: "find_flow i m = Some f \<Longrightarrow> f \<in> set (lm_flows m) \<and> fl_id f = i"
  by (auto simp: find_flow_def find_Some_iff)

lemma listed_flow_Some: "listed_flow i m = Some f \<Longrightarrow> f \<in> set (lm_flows m) \<and> fl_id f = i"
  by (auto simp: listed_flow_def dest: find_flow_Some split: option.splits if_splits)

lemma active_finish [simp]: "active (finishLocked st e a f) \<longleftrightarrow> st = ''pending'' \<or> st = ''exchanging''"
  by (simp add: active_def)

text \<open>Ending flows: those of which \<open>P\<close> holds end in a state that is not active and not a success.\<close>

lemma login_ok_end:
  assumes "login_ok m" and "st \<notin> {''pending'', ''exchanging'', ''succeeded''}"
  shows "login_ok (m\<lparr>lm_flows := map (\<lambda>f. if P f then finishLocked st e a f else f) (lm_flows m)\<rparr>)"
  by (rule login_ok_update [OF assms(1), where ss = "[]" and vs = "[]"])
    (use assms(2) in \<open>auto simp: related_map keeps_def flow_ok_def\<close>)

lemma login_ok_accept:
  assumes ok: "login_ok m" and f: "f \<in> set (lm_flows m)" and run: "accept_flow now q f m = (r, m')"
  shows "login_ok m'"
proof -
  obtain r' f' where acc: "acceptLocked now q f = (r', f')" by (rule prod.exhaust)
  have this_flow: "g = f" if "g \<in> set (lm_flows m)" "fl_id g = fl_id f" for g using same_flow [OF ok f that] .
  show ?thesis
  proof (cases r')
    case (ExchangeCode code)
    with acc have f': "f' = f\<lparr>fl_status := ''exchanging''\<rparr>" and "fl_status f = ''pending''"
      by (auto simp: acceptLocked_def split: if_splits)
    moreover from ok f have "flow_ok (fst ` set (lm_started m)) (set (lm_saved m)) f" by (simp add: login_ok_def)
    ultimately have "fl_id f \<notin> fst ` set (lm_started m)" and "fl_id f \<notin> set (lm_saved m)" and "active f"
      by (auto simp: flow_ok_def active_def)
    with acc f' run ExchangeCode f show ?thesis
      by (intro login_ok_update [OF ok, where ss = "[(fl_id f, code)]" and vs = "[]"])
        (auto simp: accept_flow_def on_flow_def related_map keeps_def flow_ok_def active_def dest: this_flow)
  next
    case (Rejected e)
    with acc have f': "f' = f" by (auto simp: acceptLocked_def split: if_splits)
    have "map (\<lambda>g. if fl_id g = fl_id f then f else g) (lm_flows m) = lm_flows m"
      using this_flow by (intro map_idI) auto
    with acc run Rejected f' ok show ?thesis by (auto simp: accept_flow_def on_flow_def)
  next
    case Declined
    with acc have f': "f' = finishLocked ''failed'' ''authorization was not completed'' 0 f"
      by (auto simp: acceptLocked_def split: if_splits)
    have "map (\<lambda>g. if fl_id g = fl_id f then f' else g) (lm_flows m) =
        map (\<lambda>g. if fl_id g = fl_id f then finishLocked ''failed'' ''authorization was not completed'' 0 g else g) (lm_flows m)"
      using this_flow f' by (intro map_cong refl) auto
    with acc run Declined login_ok_end [OF ok, of "''failed''" "\<lambda>g. fl_id g = fl_id f" "''authorization was not completed''" 0]
    show ?thesis by (auto simp: accept_flow_def on_flow_def)
  qed
qed

lemma login_ok_complete:
  assumes ok: "login_ok m" and started: "i \<in> fst ` set (lm_started m)"
  shows "login_ok (complete now result i m)"
proof (cases "find_flow i m")
  case None
  with ok show ?thesis by (simp add: complete_def)
next
  case (Some f)
  from find_flow_Some [OF this] have f: "f \<in> set (lm_flows m)" "fl_id f = i" by auto
  show ?thesis
  proof (cases "active f \<and> \<not> ctx_done now f \<and> result \<noteq> Inl (projl result)")
    case False
    with Some have "complete now result i m = m \<or> (\<exists>st e. st \<in> {''expired'', ''failed''}
        \<and> complete now result i m = on_flow i (finishLocked st e 0) m)"
      by (cases result) (auto simp: complete_def)
    with ok login_ok_end [OF ok, where P = "\<lambda>f. fl_id f = i"] show ?thesis by (auto simp: on_flow_def)
  next
    case True
    then obtain res where res: "result = Inr res" by (cases result) auto
    define st where "st = (case res of Inl e \<Rightarrow> ''failed'' | Inr account \<Rightarrow> ''succeeded'')"
    define e where "e = (case res of Inl e \<Rightarrow> e | Inr account \<Rightarrow> [])"
    define a where "a = (case res of Inl e \<Rightarrow> 0 | Inr account \<Rightarrow> account)"
    have m': "complete now result i m = (on_flow i (finishLocked st e a) m)\<lparr>lm_saved := lm_saved m @ [i]\<rparr>"
      using True Some by (cases res) (auto simp: complete_def res st_def e_def a_def)
    have st: "st = ''failed'' \<or> st = ''succeeded''" by (cases res) (simp_all add: st_def)
    have "flow_ok (fst ` set (lm_started m)) (set (lm_saved m)) f" using ok f by (simp add: login_ok_def)
    with True f have unsaved: "i \<notin> set (lm_saved m)" by (simp add: flow_ok_def)
    show ?thesis
      unfolding m'
      by (rule login_ok_update [OF ok, where ss = "[]" and vs = "[i]"])
        (use started unsaved st in \<open>auto simp: on_flow_def related_map keeps_def flow_ok_def\<close>)
  qed
qed

lemma scan_flows_keeps: "scan_flows now owner fs = (b, fs') \<Longrightarrow> list_all2 (\<lambda>f f'. f' = f \<or> f' = f\<lparr>fl_listed := False\<rparr>) fs fs'"
proof (induction fs arbitrary: b fs')
  case (Cons f fs)
  obtain b1 fs1 where run: "scan_flows now owner fs = (b1, fs1)" by (rule prod.exhaust)
  from Cons.IH [OF run] Cons.prems run show ?case
    by (auto split: if_splits simp: list_all2_same)
qed simp

lemma scan_flows_free:
  "scan_flows now owner fs = (False, fs') \<Longrightarrow> f \<in> set fs' \<Longrightarrow> fl_listed f \<Longrightarrow> active f \<Longrightarrow> fl_owner f \<noteq> owner"
proof (induction fs arbitrary: fs')
  case (Cons g fs)
  obtain b1 fs1 where run: "scan_flows now owner fs = (b1, fs1)" by (rule prod.exhaust)
  with Cons.prems have "\<not> b1" by (auto split: if_splits)
  with Cons run show ?case by (auto split: if_splits)
qed simp

lemma login_ok_scan:
  assumes "login_ok m" "scan_flows now owner (lm_flows m) = (b, fs)"
  shows "login_ok (m\<lparr>lm_flows := fs\<rparr>)"
proof -
  have same: "active (f\<lparr>fl_listed := False\<rparr>) = active f" "wiped (f\<lparr>fl_listed := False\<rparr>) = wiped f" for f
    by (simp_all add: active_def wiped_def)
  then have same_ok: "flow_ok a b (f\<lparr>fl_listed := False\<rparr>) = flow_ok a b f" for a b f by (simp add: flow_ok_def)
  from same scan_flows_keeps [OF assms(2)] show ?thesis
    by (intro login_ok_update [OF assms(1), where ss = "[]" and vs = "[]"])
      (auto simp: keeps_def same_ok elim!: list_all2_mono)
qed

lemma login_ok_add:
  assumes ok: "login_ok m" and new: "fl_id f \<notin> fl_id ` set (lm_flows m)" "fl_status f = ''pending''"
    and free: "\<forall>g \<in> set (lm_flows m). fl_listed g \<and> active g \<longrightarrow> fl_owner g \<noteq> fl_owner f"
  shows "login_ok (m\<lparr>lm_flows := lm_flows m @ [f]\<rparr>)"
proof -
  from ok new(1) have "fl_id f \<notin> fst ` set (lm_started m)" "fl_id f \<notin> set (lm_saved m)" by (auto simp: login_ok_def)
  with new(2) have "flow_ok (fst ` set (lm_started m)) (set (lm_saved m)) f" by (simp add: flow_ok_def active_def)
  moreover have "alone (lm_flows m @ [f])" unfolding alone_def
  proof (intro ballI impI)
    fix g h assume "g \<in> set (lm_flows m @ [f])" "h \<in> set (lm_flows m @ [f])"
      and both: "fl_listed g \<and> fl_listed h \<and> active g \<and> active h \<and> fl_owner g = fl_owner h"
    then consider "g = f" "h = f" | "g = f" "h \<in> set (lm_flows m)" | "h = f" "g \<in> set (lm_flows m)"
      | "g \<in> set (lm_flows m)" "h \<in> set (lm_flows m)" by auto
    then show "fl_id g = fl_id h"
    proof cases
      case 4
      from ok have "alone (lm_flows m)" by (simp add: login_ok_def)
      with 4 both show ?thesis unfolding alone_def by blast
    qed (use free both in auto)
  qed
  ultimately show ?thesis using ok new(1) unfolding login_ok_def by simp blast
qed

lemma login_ok_Start:
  assumes ok: "login_ok m" and new: "i \<notin> fl_id ` set (lm_flows m)"
    and run: "Start parse now owner provider config (i, state, verifier) listener authorize m = (r, m')"
  shows "login_ok m'"
proof -
  obtain b fs where scan: "scan_flows now owner (lm_flows m) = (b, fs)" by (rule prod.exhaust)
  note ok1 = login_ok_scan [OF ok scan]
  have ids: "fl_id ` set fs = fl_id ` set (lm_flows m)"
  proof -
    have "list_all2 (\<lambda>f f'. fl_id f' = fl_id f) (lm_flows m) fs"
      using scan_flows_keeps [OF scan] by (rule list_all2_mono) auto
    then have "map fl_id fs = map fl_id (lm_flows m)" by (induction rule: list_all2_induct) auto
    then show ?thesis by (metis set_map)
  qed
  show ?thesis
  proof (cases "m' = m\<lparr>lm_flows := fs\<rparr>")
    case False
    with run scan obtain f where m': "m' = m\<lparr>lm_flows := fs @ [f]\<rparr>" and "\<not> b"
        and f: "fl_id f = i" "fl_status f = ''pending''" "fl_owner f = owner"
      by (auto simp: Start_def Let_def split: if_splits option.splits)
    from \<open>\<not> b\<close> scan have "scan_flows now owner (lm_flows m) = (False, fs)" by simp
    from scan_flows_free [OF this] have "\<forall>g \<in> set fs. fl_listed g \<and> active g \<longrightarrow> fl_owner g \<noteq> owner" by simp
    with login_ok_add [OF ok1, of f] f new ids show ?thesis by (simp add: m')
  qed (use ok1 in simp)
qed

lemma login_ok_end_if:
  assumes "login_ok m" and "st \<notin> {''pending'', ''exchanging'', ''succeeded''}"
    and "\<And>f. g f = (if P f then finishLocked st e a f else f)"
  shows "login_ok (m\<lparr>lm_flows := map g (lm_flows m)\<rparr>)"
proof -
  from assms(3) have "g = (\<lambda>f. if P f then finishLocked st e a f else f)" by blast
  with login_ok_end [OF assms(1,2)] show ?thesis by simp
qed

lemma login_reachable_ok: "login_reachable m \<Longrightarrow> login_ok m"
proof (induction rule: login_reachable.induct)
  case new
  then show ?case by (simp add: login_ok_def alone_def)
next
  case (start m i parse now owner provider config state verifier listener authorize r m')
  from login_ok_Start [OF start.IH start.hyps(2,3)] show ?case .
next
  case (callback m now q i a m')
  then show ?case
    by (auto simp: callback_def split: option.splits prod.splits dest!: find_flow_Some dest: login_ok_accept)
next
  case (submit m parse parse_query now owner provider i pasted r m')
  then show ?case
    by (auto simp: Submit_def Let_def split: option.splits prod.splits if_splits dest!: listed_flow_Some dest: login_ok_accept)
next
  case (complete m i now result)
  from login_ok_complete [OF complete.IH complete.hyps(2)] show ?case .
next
  case (stopped m i)
  show ?case unfolding server_stopped_def on_flow_def
    by (rule login_ok_end_if [OF stopped.IH, where st = "''failed''" and P = "\<lambda>f. fl_id f = i \<and> active f"]) auto
next
  case (ended m now i)
  show ?case unfolding context_ended_def on_flow_def
    by (rule login_ok_end_if [OF ended.IH, where st = "''expired''" and P = "\<lambda>f. fl_id f = i \<and> ctx_done now f \<and> active f"]) auto
next
  case (cancel m owner provider i b m')
  have "login_ok (on_flow i cancel_active m)" unfolding on_flow_def cancel_active_def
    by (rule login_ok_end_if [OF cancel.IH, where st = "''cancelled''" and P = "\<lambda>f. fl_id f = i \<and> active f"]) auto
  with cancel show ?case by (auto simp: Cancel_login_def split: option.splits if_splits)
next
  case (cancel_owner m owner)
  show ?case unfolding CancelOwner_def cancel_active_def
    by (rule login_ok_end_if [OF cancel_owner.IH, where st = "''cancelled''"
        and P = "\<lambda>f. fl_listed f \<and> (owner = [] \<or> fl_owner f = owner) \<and> active f"]) auto
qed

text \<open>
  C38. However the operations of a login session interleave: the exchange of a code is started at most
  once for each session and its result is saved at most once, after the exchange was started; a
  session is reported as succeeded only if it was saved; one that has ended holds neither its state
  nor its verifier any more; and an owner has at most one session at a time that can still end with
  an account. A code is accepted only from a callback that carries the session's state, before the
  deadline and while the session waits for it.
\<close>

theorem login_exchanged_once:
  assumes "login_reachable m"
  shows "distinct (map fst (lm_started m)) \<and> distinct (lm_saved m) \<and> set (lm_saved m) \<subseteq> fst ` set (lm_started m)
    \<and> (\<forall>f \<in> set (lm_flows m). (fl_status f = ''succeeded'' \<longrightarrow> fl_id f \<in> set (lm_saved m)) \<and> (\<not> active f \<longrightarrow> wiped f))
    \<and> alone (lm_flows m)
    \<and> (\<forall>now q f code f'. acceptLocked now q f = (ExchangeCode code, f') \<longrightarrow>
         fl_status f = ''pending'' \<and> now < fl_expires f \<and> \<not> fl_cancelled f \<and> q ''state'' = [fl_state f] \<and> q ''code'' = [code]
         \<and> fl_status f' = ''exchanging'')"
proof -
  have one: "\<not> length xs > 1 \<Longrightarrow> (case xs of [] \<Rightarrow> [] | v # _ \<Rightarrow> v) \<noteq> [] \<Longrightarrow> xs = [(case xs of [] \<Rightarrow> [] | v # _ \<Rightarrow> v)]"
    for xs :: "string list" by (cases xs) auto
  have accepted: "fl_status f = ''pending'' \<and> now < fl_expires f \<and> \<not> fl_cancelled f \<and> q ''state'' = [fl_state f] \<and> q ''code'' = [code]
      \<and> fl_status f' = ''exchanging''" if "acceptLocked now q f = (ExchangeCode code, f')" for now q f code f'
  proof -
    from that have facts: "fl_status f = ''pending''" "\<not> ctx_done now f" "length (q ''state'') = 1" "query_get q ''state'' = fl_state f"
        "\<not> length (q ''code'') > 1" "query_get q ''code'' \<noteq> []" "code = query_get q ''code''" "fl_status f' = ''exchanging''"
      by (auto simp: acceptLocked_def split: if_splits)
    from facts(3,4) have "q ''state'' = [fl_state f]" by (cases "q ''state''") (auto simp: query_get_def)
    moreover from one [OF facts(5)] facts(6,7) have "q ''code'' = [code]" by (simp add: query_get_def)
    ultimately show ?thesis using facts by (simp add: ctx_done_def)
  qed
  with login_reachable_ok [OF assms] show ?thesis by (auto simp: login_ok_def flow_ok_def)
qed

definition demo_url :: "string \<Rightarrow> url option" where
  "demo_url s = Some \<lparr>u_scheme = ''http'', u_host = ''127.0.0.1:1455'', u_hostname = ''127.0.0.1'', u_port = ''1455'',
     u_path = ''/auth'', u_user = False, u_fragment = [], u_opaque = [], u_query = []\<rparr>"

definition demo_answer :: query where
  "demo_answer = (\<lambda>_. [])(''state'' := [''s''], ''code'' := [''c''])"

definition demo_session :: login_manager where
  "demo_session = snd (Start demo_url 0 ''admin'' 1 \<lparr>lc_redirect = ''r'', lc_issuer = []\<rparr> (''i'', ''s'', ''v'') (Some ''r'') (\<lambda>_ _. ''u'')
     \<lparr>lm_flows = [], lm_started = [], lm_saved = []\<rparr>)"

definition demo_login :: login_manager where
  "demo_login = complete 2 (Inr (Inr 7)) ''i'' (snd (callback 1 (Some demo_answer) ''i'' demo_session))"

theorem login_exchanged_once_witness:
  "map fl_status (lm_flows demo_login) = [''succeeded''] \<and> lm_started demo_login = [(''i'', ''c'')] \<and> lm_saved demo_login = [''i'']
   \<and> alone (lm_flows demo_login) \<and> list_all wiped (lm_flows demo_login)"
proof -
  obtain r where "Start demo_url 0 ''admin'' 1 \<lparr>lc_redirect = ''r'', lc_issuer = []\<rparr> (''i'', ''s'', ''v'') (Some ''r'') (\<lambda>_ _. ''u'')
      \<lparr>lm_flows = [], lm_started = [], lm_saved = []\<rparr> = (r, demo_session)"
    by (simp add: demo_session_def prod_eq_iff)
  from login_reachable.start [OF login_reachable.new _ this] have 1: "login_reachable demo_session" by simp
  obtain a where "callback 1 (Some demo_answer) ''i'' demo_session = (a, snd (callback 1 (Some demo_answer) ''i'' demo_session))"
    by (simp add: prod_eq_iff)
  note 2 = login_reachable.callback [OF 1 this]
  have "''i'' \<in> fst ` set (lm_started (snd (callback 1 (Some demo_answer) ''i'' demo_session)))" by code_simp
  from login_reachable.complete [OF 2 this] have "login_reachable demo_login" by (simp add: demo_login_def)
  from login_exchanged_once [OF this] have "alone (lm_flows demo_login)"
      "\<forall>f \<in> set (lm_flows demo_login). \<not> active f \<longrightarrow> wiped f" by auto
  moreover have "map fl_status (lm_flows demo_login) = [''succeeded''] \<and> lm_started demo_login = [(''i'', ''c'')]
      \<and> lm_saved demo_login = [''i''] \<and> list_all (\<lambda>f. \<not> active f) (lm_flows demo_login)" by code_simp
  ultimately show ?thesis by (auto simp: list_all_iff)
qed

end
