(* ===== verification/AdminAccess.thy ===== *)
theory AdminAccess
  imports OAuthLogin GoHttp Retention
begin

text \<open>
  Who may use the administration (internal/admin/handler.go, limiter.go and oauth_login.go, the
  administrator and the sessions of internal/store/store.go, the address of a client of
  internal/httpx/httpx.go). Hashing of passwords, parsing of addresses and the random tokens are
  arguments; the two tables are lists of rows. Of the handlers behind the guards the clean-up of the
  logs (internal/admin/storage.go) is modelled, since it goes by the method of the request.
\<close>

section \<open>The address of a client\<close>

definition Resolve ::
    "(string \<Rightarrow> string option) \<Rightarrow> (string \<Rightarrow> 'ip option) \<Rightarrow> ('ip \<Rightarrow> string) \<Rightarrow> ('ip \<Rightarrow> bool) \<Rightarrow> string \<Rightarrow> header \<Rightarrow> string" where
  "Resolve split_host_port parse_ip show_ip trusted remote h =
     (let host = (case split_host_port remote of None \<Rightarrow> remote | Some host \<Rightarrow> host) in
      case parse_ip host of
        None \<Rightarrow> host
      | Some peer \<Rightarrow>
          if \<not> trusted peer then host
          else (let forwarded = header_get h ''X-Forwarded-For'' in
            if forwarded = [] then host
            else (case filter (\<lambda>ip. \<not> trusted ip) (List.map_filter (\<lambda>s. parse_ip (trim_space s)) (rev (split_on (CHR '','') forwarded))) of
                [] \<Rightarrow> host
              | ip # _ \<Rightarrow> show_ip ip)))"

section \<open>Failed logins\<close>

record login_attempt =
  at_count :: nat
  at_start :: instant

type_synonym limiter = "(string \<times> login_attempt) list"

definition window :: int where "window = 15 * 60 * second"

definition allowed :: "string \<Rightarrow> instant \<Rightarrow> limiter \<Rightarrow> bool \<times> limiter" where
  "allowed ip now l =
     (case map_of l ip of
        None \<Rightarrow> (True, AList.delete ip l)
      | Some a \<Rightarrow> if window \<le> now - at_start a then (True, AList.delete ip l) else (at_count a < 5, l))"

definition failed :: "string \<Rightarrow> instant \<Rightarrow> limiter \<Rightarrow> limiter" where
  "failed ip now l =
     (let a = (case map_of l ip of
          None \<Rightarrow> \<lparr>at_count = 0, at_start = now\<rparr>
        | Some a \<Rightarrow> if window \<le> now - at_start a then \<lparr>at_count = 0, at_start = now\<rparr> else a)
      in put ip (a\<lparr>at_count := at_count a + 1\<rparr>) l)"

definition reset_attempts :: "string \<Rightarrow> limiter \<Rightarrow> limiter" where
  "reset_attempts ip l = AList.delete ip l"

section \<open>The administrator and the sessions\<close>

record admin_session =
  as_token :: string
  as_created :: instant
  as_last_seen :: instant
  as_expires :: instant

record admin =
  ad_hash :: "string option"
  ad_sessions :: "admin_session list"
  ad_limiter :: limiter
  ad_logins :: login_manager

datatype admin_error = PasswordRequired | NotInitialized | HashFailed | SessionGone | TokenTaken

definition BootstrapAdmin :: "(string \<Rightarrow> string option) \<Rightarrow> string \<Rightarrow> admin \<Rightarrow> admin_error + admin" where
  "BootstrapAdmin bcrypt password s =
     (if ad_hash s \<noteq> None then Inr s
      else if password = [] then Inl PasswordRequired
      else (case bcrypt password of None \<Rightarrow> Inl HashFailed | Some hash \<Rightarrow> Inr (s\<lparr>ad_hash := Some hash\<rparr>)))"

definition CheckAdminPassword :: "(string \<Rightarrow> string \<Rightarrow> bool) \<Rightarrow> string \<Rightarrow> admin \<Rightarrow> bool" where
  "CheckAdminPassword verify password s = (case ad_hash s of None \<Rightarrow> False | Some hash \<Rightarrow> verify hash password)"

definition ResetAdminPassword :: "(string \<Rightarrow> string option) \<Rightarrow> string \<Rightarrow> admin \<Rightarrow> admin_error + admin" where
  "ResetAdminPassword bcrypt password s =
     (if password = [] then Inl PasswordRequired
      else (case bcrypt password of
          None \<Rightarrow> Inl HashFailed
        | Some hash \<Rightarrow> if ad_hash s = None then Inl NotInitialized else Inr (s\<lparr>ad_hash := Some hash, ad_sessions := []\<rparr>)))"

definition day :: int where "day = 24 * hour"

definition CreateSession :: "instant \<Rightarrow> string \<Rightarrow> admin \<Rightarrow> admin_error + admin_session \<times> admin" where
  "CreateSession now token s =
     (let session = \<lparr>as_token = token, as_created = now, as_last_seen = now, as_expires = now + 7 * day\<rparr> in
      if token \<in> as_token ` set (ad_sessions s) then Inl TokenTaken
      else Inr (session, s\<lparr>ad_sessions := ad_sessions s @ [session]\<rparr>))"

definition DeleteSession :: "string \<Rightarrow> admin \<Rightarrow> admin" where
  "DeleteSession token s = s\<lparr>ad_sessions := filter (\<lambda>r. as_token r \<noteq> token) (ad_sessions s)\<rparr>"

definition sessionTouchInterval :: int where "sessionTouchInterval = 5 * 60 * second"

definition ValidateSession :: "instant \<Rightarrow> string \<Rightarrow> admin \<Rightarrow> bool \<times> admin" where
  "ValidateSession now token s =
     (case find (\<lambda>r. as_token r = token) (ad_sessions s) of
        None \<Rightarrow> (False, s)
      | Some r \<Rightarrow>
          if as_expires r < now \<or> day < now - as_last_seen r then (False, DeleteSession token s)
          else if sessionTouchInterval \<le> now - as_last_seen r then
            (True, s\<lparr>ad_sessions := map (\<lambda>r. if as_token r = token then r\<lparr>as_last_seen := now\<rparr> else r) (ad_sessions s)\<rparr>)
          else (True, s))"

section \<open>Logging in and out\<close>

datatype admin_reply = Reply int string | LoggedIn string string | LoggedOut

text \<open>\<open>csrf = None\<close>: no second token could be made, and the session is taken back.\<close>

definition login ::
    "(string \<Rightarrow> string \<Rightarrow> bool) \<Rightarrow> instant \<Rightarrow> string \<Rightarrow> string option \<Rightarrow> string option \<Rightarrow> string option \<Rightarrow> admin \<Rightarrow> admin_reply \<times> admin" where
  "login verify now ip password token csrf s =
     (let (ok, l) = allowed ip now (ad_limiter s); s = s\<lparr>ad_limiter := l\<rparr> in
      if \<not> ok then (Reply 429 ''too many failed logins'', s)
      else case password of
          None \<Rightarrow> (Reply 400 ''invalid JSON'', s)
        | Some password \<Rightarrow>
            if \<not> CheckAdminPassword verify password s then
              (Reply 401 ''wrong password'', s\<lparr>ad_limiter := failed ip now (ad_limiter s)\<rparr>)
            else (case token of
                None \<Rightarrow> (Reply 500 ''no session'', s)
              | Some token \<Rightarrow>
                  (case CreateSession now token s of
                     Inl e \<Rightarrow> (Reply 500 ''no session'', s)
                   | Inr (session, s) \<Rightarrow>
                       (case csrf of
                          None \<Rightarrow> (Reply 500 ''no session'', DeleteSession token s)
                        | Some csrf \<Rightarrow> (LoggedIn token csrf, s\<lparr>ad_limiter := reset_attempts ip (ad_limiter s)\<rparr>)))))"

definition logout :: "string option \<Rightarrow> admin \<Rightarrow> admin_reply \<times> admin" where
  "logout cookie s =
     (LoggedOut, case cookie of
        None \<Rightarrow> s
      | Some token \<Rightarrow> DeleteSession token (s\<lparr>ad_logins := CancelOwner token (ad_logins s)\<rparr>))"

definition changePassword ::
    "(string \<Rightarrow> string \<Rightarrow> bool) \<Rightarrow> (string \<Rightarrow> string option) \<Rightarrow> (string \<times> string) option \<Rightarrow> admin \<Rightarrow> admin_reply \<times> admin" where
  "changePassword verify bcrypt input s =
     (case input of
        None \<Rightarrow> (Reply 400 ''invalid JSON'', s)
      | Some (current, new_password) \<Rightarrow>
          if length new_password < 12 then (Reply 400 ''the new password is too short'', s)
          else if \<not> CheckAdminPassword verify current s then (Reply 401 ''wrong password'', s)
          else (let s = s\<lparr>ad_logins := CancelOwner [] (ad_logins s)\<rparr> in
            case ResetAdminPassword bcrypt new_password s of
              Inl e \<Rightarrow> (Reply 500 ''the password was not changed'', s)
            | Inr s \<Rightarrow> (LoggedOut, s)))"

section \<open>The routes\<close>

datatype guard = Open | Session | SessionCsrf

definition admin_routes :: "(string \<times> string \<times> guard \<times> string) list" where
  "admin_routes =
    [(''POST'', ''/api/admin/routes/explain'', SessionCsrf, ''explainRoutes''),
     (''POST'', ''/api/admin/models/{id}/checks'', SessionCsrf, ''compatibility''),
     (''GET'', ''/api/admin/models/{id}/checks'', Session, ''compatibility''),
     (''POST'', ''/api/admin/requests/{id}/replay'', SessionCsrf, ''replay''),
     (''GET'', ''/api/admin/upstream-keys/{id}/limits'', Session, ''upstreamLimits''),
     (''GET'', ''/api/admin/storage'', Session, ''storageStatus''),
     (''GET'', ''/api/admin/storage/cleanup'', Session, ''cleanupLogs''),
     (''POST'', ''/api/admin/storage/cleanup'', SessionCsrf, ''cleanupLogs''),
     (''POST'', ''/api/admin/login'', Open, ''login''),
     (''GET'', ''/api/admin/session'', Session, ''session''),
     (''POST'', ''/api/admin/logout'', SessionCsrf, ''logout''),
     (''POST'', ''/api/admin/change-password'', SessionCsrf, ''changePassword''),
     (''GET'', ''/api/admin/overview'', Session, ''overview''),
     (''GET'', ''/api/admin/performance'', Session, ''performance''),
     (''GET'', ''/api/admin/health'', Session, ''health''),
     (''POST'', ''/api/admin/upstream-keys/{id}/reset-runtime'', SessionCsrf, ''resetUpstreamKeyRuntime''),
     (''PATCH'', ''/api/admin/upstream-keys/{id}'', SessionCsrf, ''SetUpstreamKeyEnabled''),
     (''POST'', ''/api/admin/providers/{id}/auth-files'', SessionCsrf, ''uploadAuthFile''),
     (''DELETE'', ''/api/admin/providers/{id}/auth-files/{key_id}'', SessionCsrf, ''deleteAuthFile''),
     (''POST'', ''/api/admin/providers/{id}/logins'', SessionCsrf, ''startProviderLogin''),
     (''GET'', ''/api/admin/providers/{id}/logins/{login_id}'', Session, ''providerLoginStatus''),
     (''DELETE'', ''/api/admin/providers/{id}/logins/{login_id}'', SessionCsrf, ''cancelProviderLogin''),
     (''POST'', ''/api/admin/providers/{id}/logins/{login_id}/callback'', SessionCsrf, ''submitProviderLogin''),
     (''GET'', ''/api/admin/costs'', Session, ''costs''),
     (''GET'', ''/api/admin/model-names'', Session, ''modelNames''),
     (''GET'', ''/api/admin/requests'', Session, ''listRequests''),
     (''GET'', ''/api/admin/requests/{id}'', Session, ''requestDetail''),
     (''GET'', ''/api/admin/access-keys'', Session, ''listAccessKeys''),
     (''GET'', ''/api/admin/access-key-options'', Session, ''listAccessKeyOptions''),
     (''POST'', ''/api/admin/access-keys'', SessionCsrf, ''createAccessKey''),
     (''PATCH'', ''/api/admin/access-keys/{id}'', SessionCsrf, ''updateAccessKey''),
     (''PUT'', ''/api/admin/access-keys/{id}'', SessionCsrf, ''editAccessKey''),
     (''DELETE'', ''/api/admin/access-keys/{id}'', SessionCsrf, ''deleteAccessKey''),
     (''GET'', ''/api/admin/providers'', Session, ''listProviders''),
     (''GET'', ''/api/admin/providers/{id}'', Session, ''getProvider''),
     (''GET'', ''/api/admin/provider-options'', Session, ''listProviderOptions''),
     (''GET'', ''/api/admin/providers/{id}/models'', Session, ''providerModels''),
     (''POST'', ''/api/admin/providers'', SessionCsrf, ''createProvider''),
     (''PATCH'', ''/api/admin/providers/{id}'', SessionCsrf, ''updateProvider''),
     (''PUT'', ''/api/admin/providers/{id}'', SessionCsrf, ''editProvider''),
     (''DELETE'', ''/api/admin/providers/{id}'', SessionCsrf, ''deleteProvider''),
     (''GET'', ''/api/admin/models'', Session, ''listModels''),
     (''GET'', ''/api/admin/models/{id}'', Session, ''getModel''),
     (''POST'', ''/api/admin/models'', SessionCsrf, ''createModel''),
     (''POST'', ''/api/admin/models/{id}/test'', SessionCsrf, ''testModel''),
     (''PATCH'', ''/api/admin/models/{id}'', SessionCsrf, ''updateModel''),
     (''PUT'', ''/api/admin/models/{id}'', SessionCsrf, ''editModel''),
     (''DELETE'', ''/api/admin/models/{id}'', SessionCsrf, ''deleteModel'')]"

text \<open>
  A pattern of the multiplexer with the method \<^verbatim>\<open>GET\<close> also matches the method \<^verbatim>\<open>HEAD\<close>.
\<close>

definition pattern_serves :: "string \<Rightarrow> string \<Rightarrow> bool" where
  "pattern_serves verb m \<longleftrightarrow> m = verb \<or> verb = ''GET'' \<and> m = ''HEAD''"

record admin_request =
  aq_method :: string
  aq_query :: "string \<Rightarrow> string"
  aq_session :: "string option"
  aq_csrf :: "string option"
  aq_header :: header

definition requireSession :: "instant \<Rightarrow> admin_request \<Rightarrow> admin \<Rightarrow> admin_reply option \<times> admin" where
  "requireSession now q s =
     (case aq_session q of
        None \<Rightarrow> (Some (Reply 401 ''not logged in''), s)
      | Some token \<Rightarrow> (let (ok, s) = ValidateSession now token s in
          (if ok then None else Some (Reply 401 ''the session has ended''), s)))"

definition requireCSRF :: "admin_request \<Rightarrow> admin_reply option" where
  "requireCSRF q =
     (case aq_csrf q of
        None \<Rightarrow> Some (Reply 403 ''CSRF check failed'')
      | Some token \<Rightarrow> if token = [] \<or> header_get (aq_header q) ''X-CSRF-Token'' \<noteq> token then Some (Reply 403 ''CSRF check failed'') else None)"

text \<open>
  Serving one request with the handler the route names: the refusal of a guard, or what the handler
  makes of the administrator, the sessions and the rest of the gateway's state.
\<close>

definition serve_admin ::
    "instant \<Rightarrow> guard \<Rightarrow> (admin_request \<Rightarrow> admin \<times> 'w \<Rightarrow> (admin_reply + 'r) \<times> admin \<times> 'w) \<Rightarrow> admin_request \<Rightarrow> admin \<times> 'w
      \<Rightarrow> (admin_reply + 'r) \<times> admin \<times> 'w" where
  "serve_admin now g handler q s =
     (case g of
        Open \<Rightarrow> handler q s
      | Session \<Rightarrow> (case requireSession now q (fst s) of (Some r, a) \<Rightarrow> (Inl r, a, snd s) | (None, a) \<Rightarrow> handler q (a, snd s))
      | SessionCsrf \<Rightarrow>
          (case requireSession now q (fst s) of
             (Some r, a) \<Rightarrow> (Inl r, a, snd s)
           | (None, a) \<Rightarrow> (case requireCSRF q of Some r \<Rightarrow> (Inl r, a, snd s) | None \<Rightarrow> handler q (a, snd s))))"

section \<open>The clean-up of the log\<close>

text \<open>\<open>parse_time\<close> reads a time in the layout RFC3339Nano; without both limits the range is today.\<close>

definition requestTimeRange :: "(string \<Rightarrow> instant option) \<Rightarrow> instant \<Rightarrow> (string \<Rightarrow> string) \<Rightarrow> string + instant \<times> instant" where
  "requestTimeRange parse_time now query =
     (let from_value = trim_space (query ''created_from''); to_value = trim_space (query ''created_to'') in
      if from_value = [] \<and> to_value = [] then (let today = now - now mod day in Inr (today, today + day))
      else if from_value = [] \<or> to_value = [] then Inl ''created_from and created_to must be given together''
      else (case parse_time from_value of
          None \<Rightarrow> Inl ''created_from is invalid''
        | Some a \<Rightarrow> (case parse_time to_value of
            None \<Rightarrow> Inl ''created_to is invalid''
          | Some b \<Rightarrow> if a < b then Inr (a, b) else Inl ''created_from must be before created_to'')))"

datatype cleanup_reply = Counted nat | Cleaned cleanup_result

text \<open>The preview and the clean-up share a handler, which goes by the method of the request.\<close>

definition cleanupLogs ::
    "(string \<Rightarrow> instant option) \<Rightarrow> instant \<Rightarrow> (nat \<Rightarrow> instant) \<Rightarrow> (nat \<Rightarrow> bool) \<Rightarrow> admin_request \<Rightarrow> admin \<times> logs
      \<Rightarrow> (admin_reply + cleanup_reply) \<times> admin \<times> logs" where
  "cleanupLogs parse_time now clock cancelled q s =
     (if aq_query q ''created_from'' = [] \<or> aq_query q ''created_to'' = [] then (Inl (Reply 400 ''the range is missing''), s)
      else (case requestTimeRange parse_time now (aq_query q) of
          Inl e \<Rightarrow> (Inl (Reply 400 e), s)
        | Inr (a, b) \<Rightarrow>
            (let mode = aq_query q ''mode'' in
             if mode \<noteq> ''prune'' \<and> mode \<noteq> ''delete'' then (Inl (Reply 400 ''the mode must be prune or delete''), s)
             else if aq_method q = ''GET'' then
               (case PreviewCleanup a b mode (snd s) of
                  None \<Rightarrow> (Inl (Reply 409 ''the preview failed''), s)
                | Some n \<Rightarrow> (Inr (Counted n), s))
             else (case CleanupLogs clock cancelled a b mode (snd s) of
                 (None, l) \<Rightarrow> (Inl (Reply 409 ''the clean-up failed''), fst s, l)
               | (Some result, l) \<Rightarrow>
                   (if cl_error result then Inl (Reply 409 ''the clean-up failed'') else Inr (Cleaned result), fst s, l)))))"

section \<open>Accounts of providers\<close>

text \<open>
  The login of an account belongs to the session of the administrator who started it; saving the
  account checks that session again. \<open>save\<close> is what the exchange returned.
\<close>

definition guarded_save :: "instant \<Rightarrow> string \<Rightarrow> string + int \<Rightarrow> admin \<Rightarrow> (string + int) \<times> admin" where
  "guarded_save now owner save s =
     (let (ok, s) = ValidateSession now owner s in (if ok then save else Inl ''the session of the administrator has ended'', s))"

definition complete_provider_login :: "instant \<Rightarrow> string + (string + int) \<Rightarrow> string \<Rightarrow> admin \<Rightarrow> admin" where
  "complete_provider_login now result i s =
     (case find_flow i (ad_logins s) of
        None \<Rightarrow> s
      | Some f \<Rightarrow>
          (case result of
             Inl e \<Rightarrow> s\<lparr>ad_logins := complete now result i (ad_logins s)\<rparr>
           | Inr save \<Rightarrow>
               if active f \<and> \<not> ctx_done now f then
                 (let (saved, s) = guarded_save now (fl_owner f) save s in s\<lparr>ad_logins := complete now (Inr saved) i (ad_logins s)\<rparr>)
               else s\<lparr>ad_logins := complete now result i (ad_logins s)\<rparr>))"

text \<open>What the guards, the sessions, the limit on failed logins and the client address promise.\<close>

section \<open>Guards\<close>

lemma find_in: "find P xs = Some x \<Longrightarrow> x \<in> set xs \<and> P x"
  by (induction xs) (auto split: if_splits)

lemma ValidateSession_True:
  assumes "ValidateSession now token s = (True, s')"
  obtains r where "r \<in> set (ad_sessions s)" "as_token r = token" "now \<le> as_expires r" "now \<le> as_last_seen r + day"
proof -
  from assms obtain r where found: "find (\<lambda>r. as_token r = token) (ad_sessions s) = Some r"
    and fresh: "\<not> as_expires r < now" "\<not> day < now - as_last_seen r"
    by (auto simp: ValidateSession_def split: option.splits if_splits)
  from find_in [OF found] fresh that [of r] show thesis by auto
qed

definition session_sent :: "instant \<Rightarrow> admin_request \<Rightarrow> admin \<Rightarrow> bool" where
  "session_sent now q s \<longleftrightarrow>
     (\<exists>r \<in> set (ad_sessions s). aq_session q = Some (as_token r) \<and> now \<le> as_expires r \<and> now \<le> as_last_seen r + day)"

definition csrf_sent :: "admin_request \<Rightarrow> bool" where
  "csrf_sent q \<longleftrightarrow> (\<exists>token. aq_csrf q = Some token \<and> token \<noteq> [] \<and> header_get (aq_header q) ''X-CSRF-Token'' = token)"

lemma requireCSRF_None: "requireCSRF q = None \<longleftrightarrow> csrf_sent q"
  by (auto simp: requireCSRF_def csrf_sent_def split: option.splits)

lemma requireSession_None: "requireSession now q s = (None, s') \<Longrightarrow> session_sent now q s"
  by (auto simp: requireSession_def session_sent_def split: option.splits prod.splits if_splits elim!: ValidateSession_True)

lemma serve_admin_guarded:
  assumes "g = SessionCsrf \<or> g = Session \<and> (aq_method q = ''GET'' \<or> aq_method q = ''HEAD'')"
    and "\<not> (\<forall>h1 h2. serve_admin now g h1 q s = serve_admin now g h2 q s)"
  shows "session_sent now q (fst s) \<and> (aq_method q = ''GET'' \<or> aq_method q = ''HEAD'' \<or> csrf_sent q)"
proof -
  obtain r a where guard: "requireSession now q (fst s) = (r, a)" by (rule prod.exhaust)
  with assms have "r = None" by (cases r) (auto simp: serve_admin_def)
  with guard have session: "session_sent now q (fst s)" by (auto intro: requireSession_None)
  from guard \<open>r = None\<close> assms(2) have "g = Session \<or> requireCSRF q = None \<or> g = Open"
    by (cases g; cases "requireCSRF q") (auto simp: serve_admin_def)
  with assms(1) session show ?thesis by (auto simp: requireCSRF_None)
qed

text \<open>
  C34. No operation of the administration but the login itself runs without a session: whatever the
  handler of a route would do, the reply and the state do not depend on it, unless the request
  carries the token of a session that exists, has not expired and was used within the last day. A
  request with a method other than \<^verbatim>\<open>GET\<close> and \<^verbatim>\<open>HEAD\<close> also needs the token of the second cookie in
  its header. A \<^verbatim>\<open>GET\<close> of the clean-up leaves the log as it is; a \<^verbatim>\<open>HEAD\<close>, which the same pattern
  serves, does not: with a session alone it runs the clean-up it describes.
\<close>

theorem admin_operations_guarded:
  assumes "(verb, path, g, name) \<in> set admin_routes" and "name \<noteq> ''login''" and "pattern_serves verb (aq_method q)"
  shows "((\<forall>h1 h2. serve_admin now g h1 q s = serve_admin now g h2 q s)
      \<or> session_sent now q (fst s) \<and> (aq_method q = ''GET'' \<or> aq_method q = ''HEAD'' \<or> csrf_sent q))
    \<and> (aq_method q = ''GET'' \<longrightarrow> snd (snd (serve_admin now g (cleanupLogs parse_time now clock cancelled) q (admin, log))) = log)
    \<and> (name = ''cleanupLogs'' \<and> aq_method q = ''HEAD'' \<and> fst (requireSession now q admin) = None
        \<and> aq_query q ''created_from'' \<noteq> [] \<and> aq_query q ''created_to'' \<noteq> []
        \<and> requestTimeRange parse_time now (aq_query q) = Inr (a, b) \<and> cleanup_mode (aq_query q ''mode'') \<longrightarrow>
        snd (snd (serve_admin now g (cleanupLogs parse_time now clock cancelled) q (admin, log)))
          = snd (CleanupLogs clock cancelled a b (aq_query q ''mode'') log))"
proof -
  have "list_all (\<lambda>(verb, path, g, name). name = ''login'' \<or> g = SessionCsrf \<and> verb \<noteq> ''GET'' \<and> verb \<noteq> ''HEAD'' \<or> g = Session \<and> verb = ''GET'') admin_routes"
    by code_simp
  with assms have g: "g = SessionCsrf \<and> aq_method q \<noteq> ''GET'' \<and> aq_method q \<noteq> ''HEAD''
      \<or> g = Session \<and> (aq_method q = ''GET'' \<or> aq_method q = ''HEAD'')"
    by (auto simp: list_all_iff pattern_serves_def)
  then have guarded: "(\<forall>h1 h2. serve_admin now g h1 q s = serve_admin now g h2 q s)
      \<or> session_sent now q (fst s) \<and> (aq_method q = ''GET'' \<or> aq_method q = ''HEAD'' \<or> csrf_sent q)"
    using serve_admin_guarded [of g q now s] by blast
  have reads: "snd (snd (serve_admin now g (cleanupLogs parse_time now clock cancelled) q (admin, log))) = log" if "aq_method q = ''GET''"
    using that g by (auto simp: serve_admin_def cleanupLogs_def Let_def split: prod.splits option.splits sum.splits)
  have cleans: "snd (snd (serve_admin now g (cleanupLogs parse_time now clock cancelled) q (admin, log)))
          = snd (CleanupLogs clock cancelled a b (aq_query q ''mode'') log)"
    if "aq_method q = ''HEAD''" "fst (requireSession now q admin) = None" "aq_query q ''created_from'' \<noteq> []" "aq_query q ''created_to'' \<noteq> []"
      "requestTimeRange parse_time now (aq_query q) = Inr (a, b)" "cleanup_mode (aq_query q ''mode'')"
    using that g
    by (auto simp: serve_admin_def cleanupLogs_def cleanup_mode_def Let_def split: prod.splits option.splits)
  from guarded reads cleans show ?thesis by blast
qed

section \<open>Sessions\<close>

datatype admin_event = Issued instant string | Used instant string | Ended string | PasswordSet

definition no_logins :: login_manager where
  "no_logins = \<lparr>lm_flows = [], lm_started = [], lm_saved = []\<rparr>"

definition validated :: "instant \<Rightarrow> string \<Rightarrow> bool \<Rightarrow> admin_event list" where
  "validated now token ok = (if ok then [Used now token] else [])"

definition issued :: "instant \<Rightarrow> admin_reply \<Rightarrow> admin_event list" where
  "issued now r = (case r of LoggedIn token csrf \<Rightarrow> [Issued now token] | _ \<Rightarrow> [])"

text \<open>
  The states of the administration with what has happened so far. Every request that needs a session
  and every account that is saved goes through \<open>ValidateSession\<close>; the logins of accounts are free.
\<close>

inductive admin_run ::
    "(string \<Rightarrow> string \<Rightarrow> bool) \<Rightarrow> (string \<Rightarrow> string option) \<Rightarrow> admin_event list \<Rightarrow> admin \<Rightarrow> bool"
  for verify bcrypt where
  start: "admin_run verify bcrypt [] \<lparr>ad_hash = None, ad_sessions = [], ad_limiter = [], ad_logins = no_logins\<rparr>"
| bootstrap: "admin_run verify bcrypt tr s \<Longrightarrow> BootstrapAdmin bcrypt password s = Inr s' \<Longrightarrow> admin_run verify bcrypt tr s'"
| login: "admin_run verify bcrypt tr s \<Longrightarrow> login verify now ip password token csrf s = (r, s') \<Longrightarrow>
    admin_run verify bcrypt (tr @ issued now r) s'"
| request: "admin_run verify bcrypt tr s \<Longrightarrow> ValidateSession now token s = (ok, s') \<Longrightarrow>
    admin_run verify bcrypt (tr @ validated now token ok) s'"
| logins: "admin_run verify bcrypt tr s \<Longrightarrow> admin_run verify bcrypt tr (s\<lparr>ad_logins := m\<rparr>)"
| logout: "admin_run verify bcrypt tr s \<Longrightarrow> logout (Some token) s = (r, s') \<Longrightarrow> admin_run verify bcrypt (tr @ [Ended token]) s'"
| changed: "admin_run verify bcrypt tr s \<Longrightarrow> changePassword verify bcrypt input s = (LoggedOut, s') \<Longrightarrow>
    admin_run verify bcrypt (tr @ [PasswordSet]) s'"

text \<open>What has happened for a row of the table of sessions.\<close>

definition earned :: "admin_event list \<Rightarrow> admin_session \<Rightarrow> bool" where
  "earned tr r \<longleftrightarrow> (\<exists>xs ys. tr = xs @ Issued (as_created r) (as_token r) # ys \<and> PasswordSet \<notin> set ys \<and> Ended (as_token r) \<notin> set ys
     \<and> as_expires r = as_created r + 7 * day
     \<and> (as_last_seen r = as_created r \<or> Used (as_last_seen r) (as_token r) \<in> set ys))"

lemma earned_later:
  "earned tr r \<Longrightarrow> PasswordSet \<notin> set es \<Longrightarrow> Ended (as_token r) \<notin> set es \<Longrightarrow> earned (tr @ es) r"
  unfolding earned_def by (elim exE conjE) (rule exI, rule exI, auto)

lemma earned_used: "earned tr r \<Longrightarrow> earned (tr @ [Used now (as_token r)]) (r\<lparr>as_last_seen := now\<rparr>)"
  unfolding earned_def by (elim exE conjE) (rule exI, rule exI, auto)

lemma earned_issued: "earned (tr @ [Issued now token]) \<lparr>as_token = token, as_created = now, as_last_seen = now, as_expires = now + 7 * day\<rparr>"
  unfolding earned_def by (rule exI [of _ tr], rule exI [of _ "[]"]) simp

lemma login_sessions:
  assumes "login verify now ip password token csrf s = (r, s')"
  shows "(\<exists>t c. r = LoggedIn t c \<and> t \<notin> as_token ` set (ad_sessions s)
      \<and> (\<exists>p hash. password = Some p \<and> ad_hash s = Some hash \<and> verify hash p)
      \<and> ad_sessions s' = ad_sessions s @ [\<lparr>as_token = t, as_created = now, as_last_seen = now, as_expires = now + 7 * day\<rparr>])
    \<or> issued now r = [] \<and> ad_sessions s' = ad_sessions s"
proof -
  have "filter (\<lambda>r. as_token r \<noteq> t) (ad_sessions s) = ad_sessions s" if "t \<notin> as_token ` set (ad_sessions s)" for t
    using that by (auto simp: filter_id_conv)
  with assms show ?thesis
    by (auto simp: login_def CreateSession_def CheckAdminPassword_def DeleteSession_def issued_def Let_def
        split: prod.splits if_splits option.splits)
qed

lemma admin_run_earned: "admin_run verify bcrypt tr s \<Longrightarrow> \<forall>r \<in> set (ad_sessions s). earned tr r"
proof (induction rule: admin_run.induct)
  case start
  then show ?case by simp
next
  case (bootstrap tr s password s')
  then show ?case by (auto simp: BootstrapAdmin_def split: if_splits option.splits)
next
  case (login tr s now ip password token csrf r s')
  from login_sessions [OF login.hyps(2)] show ?case
  proof (elim disjE exE conjE)
    fix t c assume "r = LoggedIn t c"
      and s': "ad_sessions s' = ad_sessions s @ [\<lparr>as_token = t, as_created = now, as_last_seen = now, as_expires = now + 7 * day\<rparr>]"
    then have "issued now r = [Issued now t]" by (simp add: issued_def)
    with login.IH earned_issued [of tr now t] show ?thesis by (auto simp: s' intro: earned_later)
  qed (use login.IH in simp)
next
  case (request tr s now token ok s')
  show ?case
  proof
    fix r' assume r': "r' \<in> set (ad_sessions s')"
    from request.hyps(2) r' consider "r' \<in> set (ad_sessions s)"
      | r where "r \<in> set (ad_sessions s)" "as_token r = token" "r' = r\<lparr>as_last_seen := now\<rparr>" "ok"
      by (auto simp: ValidateSession_def DeleteSession_def split: option.splits if_splits)
    then show "earned (tr @ validated now token ok) r'"
    proof cases
      case 1
      with request.IH show ?thesis by (auto simp: validated_def intro!: earned_later)
    next
      case 2
      with request.IH earned_used [of tr r now] show ?thesis by (simp add: validated_def)
    qed
  qed
next
  case (logins tr s m)
  then show ?case by simp
next
  case (logout tr s token r s')
  then show ?case by (auto simp: logout_def DeleteSession_def intro!: earned_later)
next
  case (changed tr s input s')
  then show ?case
    by (auto simp: changePassword_def ResetAdminPassword_def Let_def split: option.splits prod.splits if_splits sum.splits)
qed

text \<open>
  C35. A session is valid only if a login with the right password issued it at most seven days ago
  and after the last change of the password, nobody has logged it out, and it was issued or used
  within the last day; the login was within the limit of its address.
\<close>

theorem session_earned:
  assumes "admin_run verify bcrypt tr s"
  shows "(\<forall>now token s'. ValidateSession now token s = (True, s') \<longrightarrow>
      (\<exists>xs t0 ys. tr = xs @ Issued t0 token # ys \<and> PasswordSet \<notin> set ys \<and> Ended token \<notin> set ys \<and> now \<le> t0 + 7 * day
         \<and> (now \<le> t0 + day \<or> (\<exists>t. Used t token \<in> set ys \<and> now \<le> t + day))))
    \<and> (\<forall>now ip password token csrf t c s'. login verify now ip password token csrf s = (LoggedIn t c, s') \<longrightarrow>
         fst (allowed ip now (ad_limiter s)) \<and> (\<exists>p hash. password = Some p \<and> ad_hash s = Some hash \<and> verify hash p))"
proof (intro conjI allI impI)
  fix now token s' assume "ValidateSession now token s = (True, s')"
  then obtain r where r: "r \<in> set (ad_sessions s)" "as_token r = token" "now \<le> as_expires r" "now \<le> as_last_seen r + day"
    by (rule ValidateSession_True)
  with admin_run_earned [OF assms] obtain xs ys where "tr = xs @ Issued (as_created r) token # ys" "PasswordSet \<notin> set ys"
      "Ended token \<notin> set ys" "as_expires r = as_created r + 7 * day"
      "as_last_seen r = as_created r \<or> Used (as_last_seen r) token \<in> set ys"
    by (auto simp: earned_def)
  with r show "\<exists>xs t0 ys. tr = xs @ Issued t0 token # ys \<and> PasswordSet \<notin> set ys \<and> Ended token \<notin> set ys \<and> now \<le> t0 + 7 * day
      \<and> (now \<le> t0 + day \<or> (\<exists>t. Used t token \<in> set ys \<and> now \<le> t + day))"
    by (intro exI [of _ xs] exI [of _ "as_created r"] exI [of _ ys]) auto
next
  fix now ip password token csrf t c s' assume run: "login verify now ip password token csrf s = (LoggedIn t c, s')"
  from login_sessions [OF run] show "\<exists>p hash. password = Some p \<and> ad_hash s = Some hash \<and> verify hash p"
    by (auto simp: issued_def)
  from run show "fst (allowed ip now (ad_limiter s))" by (auto simp: login_def Let_def split: prod.splits if_splits)
qed

definition demo_hash :: "string \<Rightarrow> string option" where "demo_hash p = Some (''h'' @ p)"
definition demo_verify :: "string \<Rightarrow> string \<Rightarrow> bool" where "demo_verify h p \<longleftrightarrow> h = ''h'' @ p"

definition demo_fresh :: admin where
  "demo_fresh = \<lparr>ad_hash = Some ''hcorrect horse'', ad_sessions = [], ad_limiter = [], ad_logins = no_logins\<rparr>"

definition demo_admin :: admin where
  "demo_admin = snd (login demo_verify 0 ''ip'' (Some ''correct horse'') (Some ''t'') (Some ''c'') demo_fresh)"

definition demo_query :: "string \<Rightarrow> string" where
  "demo_query k = (if k = ''mode'' then ''delete'' else if k = ''created_from'' then ''0'' else if k = ''created_to'' then ''50'' else [])"

definition demo_send :: "string \<Rightarrow> string \<Rightarrow> admin_request" where
  "demo_send m csrf = \<lparr>aq_method = m, aq_query = demo_query, aq_session = Some ''t'', aq_csrf = Some ''c'',
     aq_header = [(''X-Csrf-Token'', [csrf])]\<rparr>"

definition demo_time :: "string \<Rightarrow> instant option" where
  "demo_time s = (if s = ''0'' then Some 0 else if s = ''50'' then Some (50 * second) else None)"

definition demo_clean :: "admin_request \<Rightarrow> admin \<times> logs \<Rightarrow> (admin_reply + cleanup_reply) \<times> admin \<times> logs" where
  "demo_clean = cleanupLogs demo_time 5 (\<lambda>i. 100 * second) (\<lambda>_. False)"

text \<open>
  The clean-up is refused to a \<^verbatim>\<open>POST\<close> with a wrong token and done for one with the right token; a
  \<^verbatim>\<open>GET\<close> counts, and a \<^verbatim>\<open>HEAD\<close> with a wrong token deletes.
\<close>

theorem admin_operations_guarded_witness:
  "snd (snd (serve_admin 5 SessionCsrf demo_clean (demo_send ''POST'' ''x'') (demo_admin, demo_log))) = demo_log
   \<and> session_sent 5 (demo_send ''POST'' ''c'') demo_admin \<and> csrf_sent (demo_send ''POST'' ''c'')
   \<and> snd (snd (serve_admin 5 Session demo_clean (demo_send ''GET'' ''x'') (demo_admin, demo_log))) = demo_log
   \<and> length (rows (lg_requests (snd (snd (serve_admin 5 Session demo_clean (demo_send ''HEAD'' ''x'') (demo_admin, demo_log))))))
       < length (rows (lg_requests demo_log))"
proof -
  have posts: "snd (snd (serve_admin 5 SessionCsrf demo_clean (demo_send ''POST'' ''x'') (demo_admin, demo_log))) = demo_log"
    by code_simp
  have refused: "fst (serve_admin 5 SessionCsrf demo_clean (demo_send ''POST'' ''c'') (demo_admin, demo_log))
      \<noteq> fst (serve_admin 5 SessionCsrf (\<lambda>q s. (Inl (Reply 500 []), s)) (demo_send ''POST'' ''c'') (demo_admin, demo_log))"
    by code_simp
  have routes: "(''POST'', ''/api/admin/storage/cleanup'', SessionCsrf, ''cleanupLogs'') \<in> set admin_routes"
      "(''GET'', ''/api/admin/storage/cleanup'', Session, ''cleanupLogs'') \<in> set admin_routes"
    by (simp_all add: admin_routes_def)
  have serves: "pattern_serves ''POST'' (aq_method (demo_send ''POST'' ''c''))"
      "pattern_serves ''GET'' (aq_method (demo_send ''GET'' ''x''))" "pattern_serves ''GET'' (aq_method (demo_send ''HEAD'' ''x''))"
    by code_simp+
  have name: "''cleanupLogs'' \<noteq> ''login''" by simp
  let ?q = "demo_send ''POST'' ''c''"
  have alike: "(\<forall>h1 h2 :: admin_request \<Rightarrow> admin \<times> logs \<Rightarrow> (admin_reply + cleanup_reply) \<times> admin \<times> logs.
        serve_admin 5 SessionCsrf h1 ?q (demo_admin, demo_log) = serve_admin 5 SessionCsrf h2 ?q (demo_admin, demo_log))
      \<or> session_sent 5 ?q (fst (demo_admin, demo_log)) \<and> (aq_method ?q = ''GET'' \<or> aq_method ?q = ''HEAD'' \<or> csrf_sent ?q)"
    by (rule conjunct1 [OF admin_operations_guarded [OF routes(1) name serves(1)]])
  have sent: "session_sent 5 ?q demo_admin \<and> csrf_sent ?q"
    using alike
  proof
    assume "\<forall>h1 h2 :: admin_request \<Rightarrow> admin \<times> logs \<Rightarrow> (admin_reply + cleanup_reply) \<times> admin \<times> logs.
        serve_admin 5 SessionCsrf h1 ?q (demo_admin, demo_log) = serve_admin 5 SessionCsrf h2 ?q (demo_admin, demo_log)"
    from this [rule_format, of demo_clean "\<lambda>q s. (Inl (Reply 500 []), s)"] refused show ?thesis by simp
  qed (simp add: demo_send_def)
  have gets: "snd (snd (serve_admin 5 Session demo_clean (demo_send ''GET'' ''x'') (demo_admin, demo_log))) = demo_log"
    unfolding demo_clean_def
    by (rule admin_operations_guarded [OF routes(2) name serves(2), THEN conjunct2, THEN conjunct1, rule_format]) (simp add: demo_send_def)
  have heads: "length (rows (lg_requests (snd (snd (serve_admin 5 Session demo_clean (demo_send ''HEAD'' ''x'') (demo_admin, demo_log)))))) = 1"
    by code_simp
  have "length (rows (lg_requests demo_log)) = 3" by code_simp
  with posts sent gets heads show ?thesis by simp
qed

theorem session_earned_witness:
  "\<exists>s. ad_sessions s \<noteq> [] \<and> fst (ValidateSession day ''t'' s) \<and> \<not> fst (ValidateSession (day + 1) ''t'' s)
     \<and> (\<exists>xs t0 ys. [Issued 0 ''t''] = xs @ Issued t0 ''t'' # ys \<and> day \<le> t0 + 7 * day)"
proof -
  define s0 where "s0 = \<lparr>ad_hash = None, ad_sessions = [], ad_limiter = [], ad_logins = no_logins\<rparr>"
  have "BootstrapAdmin demo_hash ''correct horse'' s0 = Inr demo_fresh"
    by (simp add: BootstrapAdmin_def demo_hash_def s0_def demo_fresh_def)
  from admin_run.bootstrap [OF admin_run.start [of demo_verify demo_hash, folded s0_def] this]
  have fresh: "admin_run demo_verify demo_hash [] demo_fresh" .
  have "login demo_verify 0 ''ip'' (Some ''correct horse'') (Some ''t'') (Some ''c'') demo_fresh = (LoggedIn ''t'' ''c'', demo_admin)"
    by code_simp
  from admin_run.login [OF fresh this] have run: "admin_run demo_verify demo_hash [Issued 0 ''t''] demo_admin" by (simp add: issued_def)
  have now: "fst (ValidateSession day ''t'' demo_admin)" "\<not> fst (ValidateSession (day + 1) ''t'' demo_admin)" "ad_sessions demo_admin \<noteq> []"
    by code_simp+
  then have "ValidateSession day ''t'' demo_admin = (True, snd (ValidateSession day ''t'' demo_admin))" by (simp add: prod_eq_iff)
  with session_earned [OF run] have "\<exists>xs t0 ys. [Issued 0 ''t''] = xs @ Issued t0 ''t'' # ys \<and> day \<le> t0 + 7 * day" by blast
  with now show ?thesis by blast
qed

section \<open>Failed logins\<close>

fun reply_status :: "admin_reply \<Rightarrow> int" where
  "reply_status (Reply status message) = status"
| "reply_status (LoggedIn token csrf) = 200"
| "reply_status LoggedOut = 204"

text \<open>The replies to the attempts of one address, one after the other.\<close>

fun login_replies :: "(string \<Rightarrow> string \<Rightarrow> bool) \<Rightarrow> string \<Rightarrow> (instant \<times> string) list \<Rightarrow> admin \<Rightarrow> int list" where
  "login_replies verify ip [] s = []"
| "login_replies verify ip ((now, p) # tries) s =
     (case login verify now ip (Some p) None None s of (r, s') \<Rightarrow> reply_status r # login_replies verify ip tries s')"

lemma put_self [simp]: "map_of (put k v m) k = Some v"
  by (induction m) auto

lemma limited_replies:
  assumes "map_of (ad_limiter s) ip = Some a" "t0 \<le> at_start a" "at_count a \<le> 5"
    and "\<forall>(t, p) \<in> set tries. t0 \<le> t \<and> t < t0 + window \<and> \<not> CheckAdminPassword verify p s"
  shows "login_replies verify ip tries s = replicate (min (5 - at_count a) (length tries)) 401 @ replicate (length tries - (5 - at_count a)) 429"
  using assms
proof (induction tries arbitrary: s a)
  case (Cons x tries)
  obtain t p where x: "x = (t, p)" by (rule prod.exhaust)
  from Cons.prems(2,4) x have early: "\<not> window \<le> t - at_start a" by auto
  have wrong: "\<not> CheckAdminPassword verify p s" using Cons.prems(4) x by auto
  show ?case
  proof (cases "at_count a < 5")
    case True
    let ?s = "s\<lparr>ad_limiter := put ip (a\<lparr>at_count := at_count a + 1\<rparr>) (ad_limiter s)\<rparr>"
    have "login verify t ip (Some p) None None s = (Reply 401 ''wrong password'', ?s)"
      using early wrong True Cons.prems(1) by (simp add: login_def allowed_def failed_def CheckAdminPassword_def Let_def)
    moreover have "login_replies verify ip tries ?s = replicate (min (5 - Suc (at_count a)) (length tries)) 401
        @ replicate (length tries - (5 - Suc (at_count a))) 429"
      using Cons.IH [of ?s "a\<lparr>at_count := at_count a + 1\<rparr>"] Cons.prems True by (simp add: CheckAdminPassword_def case_prod_unfold)
    moreover have "5 - at_count a = Suc (5 - Suc (at_count a))" using True by simp
    ultimately show ?thesis by (simp add: x)
  next
    case False
    with Cons.prems(3) have five: "at_count a = 5" by simp
    have "login verify t ip (Some p) None None s = (Reply 429 ''too many failed logins'', s)"
      using early five Cons.prems(1) by (simp add: login_def allowed_def Let_def)
    with Cons.IH [of s a] Cons.prems five x show ?thesis by simp
  qed
qed simp

lemma fresh_replies:
  assumes "map_of (ad_limiter s) ip = None"
    and "\<forall>(t, p) \<in> set tries. t0 \<le> t \<and> t < t0 + window \<and> \<not> CheckAdminPassword verify p s"
  shows "login_replies verify ip tries s = replicate (min 5 (length tries)) 401 @ replicate (length tries - 5) 429"
proof (cases tries)
  case (Cons x rest)
  obtain t p where x: "x = (t, p)" by (rule prod.exhaust)
  let ?a = "\<lparr>at_count = 1, at_start = t\<rparr>" and ?l = "AList.delete ip (ad_limiter s)"
  let ?s = "s\<lparr>ad_limiter := put ip ?a ?l\<rparr>"
  have "map_of ?l ip = None" by (simp add: AList.delete_conv')
  then have first: "login verify t ip (Some p) None None s = (Reply 401 ''wrong password'', ?s)"
    using assms Cons x by (simp add: login_def allowed_def failed_def CheckAdminPassword_def Let_def)
  have "login_replies verify ip rest ?s = replicate (min 4 (length rest)) 401 @ replicate (length rest - 4) 429"
    using limited_replies [of ?s ip ?a t0 rest verify] assms(2) Cons x by (simp add: CheckAdminPassword_def case_prod_unfold)
  with first show ?thesis by (simp add: Cons x)
qed simp

text \<open>Any stretch of fifteen minutes meets at most two windows of the limiter.\<close>

lemma wrong_login:
  assumes "login verify t ip (Some p) None None s = (r, s')" and "\<not> CheckAdminPassword verify p s"
  shows "CheckAdminPassword verify q s' = CheckAdminPassword verify q s"
    and "map_of (ad_limiter s) ip = Some a \<Longrightarrow> \<not> window \<le> t - at_start a \<Longrightarrow>
      map_of (ad_limiter s') ip = Some (a\<lparr>at_count := at_count a + (if at_count a < 5 then 1 else 0)\<rparr>)
      \<and> reply_status r = (if at_count a < 5 then 401 else 429)"
    and "map_of (ad_limiter s) ip = Some a \<Longrightarrow> window \<le> t - at_start a \<Longrightarrow>
      map_of (ad_limiter s') ip = Some \<lparr>at_count = 1, at_start = t\<rparr> \<and> reply_status r = 401"
  using assms
  by (auto simp: login_def allowed_def failed_def CheckAdminPassword_def AList.delete_conv' Let_def split: if_splits option.splits)

lemma two_windows:
  assumes "map_of (ad_limiter s) ip = Some a" and "at_count a \<le> 5"
    and "\<forall>(t, p) \<in> set tries. t0 \<le> t \<and> t < t0 + window \<and> \<not> CheckAdminPassword verify p s"
  shows "length (filter (\<lambda>r. r = 401) (login_replies verify ip tries s)) \<le> 10 - at_count a"
  using assms
proof (induction tries arbitrary: s a)
  case (Cons x tries)
  obtain t p where x: "x = (t, p)" by (rule prod.exhaust)
  obtain r s' where run: "login verify t ip (Some p) None None s = (r, s')" by (rule prod.exhaust)
  have wrong: "\<not> CheckAdminPassword verify p s" using Cons.prems(3) x by auto
  have rest: "\<forall>(t, p) \<in> set tries. t0 \<le> t \<and> t < t0 + window \<and> \<not> CheckAdminPassword verify p s'"
    using Cons.prems(3) wrong_login(1) [OF run wrong] by auto
  show ?case
  proof (cases "window \<le> t - at_start a")
    case True
    from wrong_login(3) [OF run wrong Cons.prems(1) True] have a: "map_of (ad_limiter s') ip = Some \<lparr>at_count = 1, at_start = t\<rparr>"
      and r: "reply_status r = 401" by simp_all
    have "t0 \<le> t" using Cons.prems(3) x by auto
    from limited_replies [OF a _ _ rest] this
    have "login_replies verify ip tries s' = replicate (min 4 (length tries)) 401 @ replicate (length tries - 4) 429" by simp
    with run r Cons.prems(2) show ?thesis by (simp add: x)
  next
    case False
    from wrong_login(2) [OF run wrong Cons.prems(1) False]
    have a: "map_of (ad_limiter s') ip = Some (a\<lparr>at_count := at_count a + (if at_count a < 5 then 1 else 0)\<rparr>)"
      and r: "reply_status r = (if at_count a < 5 then 401 else 429)" by simp_all
    from Cons.IH [OF a _ rest] Cons.prems(2) r run show ?thesis by (auto simp: x split: if_splits)
  qed
qed simp

text \<open>
  Attempts that overlap: \<open>Asked t\<close> is the question to the limiter, \<open>Refused t\<close> the end of the check of a
  wrong password that was let through at \<open>t\<close>. At most \<open>k\<close> checks run at a time; the state counts the
  attempts let through and those still being checked.
\<close>

datatype login_step = Asked instant | Refused instant

fun overlapping :: "nat \<Rightarrow> string \<Rightarrow> login_step list \<Rightarrow> nat \<times> nat \<times> limiter \<Rightarrow> (nat \<times> nat \<times> limiter) option" where
  "overlapping k ip [] x = Some x"
| "overlapping k ip (Asked t # steps) (n, m, l) =
     (let (ok, l) = allowed ip t l in
      if ok then if m < k then overlapping k ip steps (Suc n, Suc m, l) else None
      else overlapping k ip steps (n, m, l))"
| "overlapping k ip (Refused t # steps) (n, m, l) =
     (if m = 0 then None else overlapping k ip steps (n, m - 1, failed ip t l))"

fun step_time :: "login_step \<Rightarrow> instant" where
  "step_time (Asked t) = t"
| "step_time (Refused t) = t"

definition counted :: "string \<Rightarrow> instant \<Rightarrow> limiter \<Rightarrow> nat \<Rightarrow> bool" where
  "counted ip t0 l c \<longleftrightarrow> (case map_of l ip of None \<Rightarrow> c = 0 | Some a \<Rightarrow> at_count a = c \<and> t0 \<le> at_start a)"

lemma counted_steps:
  assumes "counted ip t0 l c" and "t0 \<le> t" and "t < t0 + window"
  shows "counted ip t0 (snd (allowed ip t l)) c" and "fst (allowed ip t l) = (c < 5)" and "counted ip t0 (failed ip t l) (Suc c)"
  using assms by (auto simp: counted_def allowed_def failed_def AList.delete_conv' Let_def split: option.splits)

lemma overlapping_bound:
  assumes "overlapping k ip steps (n, m, l) = Some (n', m', l')" and "\<forall>x \<in> set steps. t0 \<le> step_time x \<and> step_time x < t0 + window"
    and "counted ip t0 l c" and "n = c + m" and "m \<le> k" and "n \<le> 4 + k"
  shows "n' \<le> 4 + k"
  using assms
proof (induction k ip steps "(n, m, l)" arbitrary: n m l c rule: overlapping.induct)
  case (2 k ip t steps n m l)
  obtain ok l1 where one: "allowed ip t l = (ok, l1)" by (rule prod.exhaust)
  from counted_steps [OF 2(5), of t] 2(4) one have next_state: "counted ip t0 l1 c" "ok = (c < 5)" by auto
  show ?case
  proof (cases ok)
    case True
    with 2(3) one have "m < k" "overlapping k ip steps (Suc n, Suc m, l1) = Some (n', m', l')" by (auto split: if_splits)
    with 2(1) [OF one [symmetric] refl True] 2(4,6) next_state True show ?thesis by auto
  next
    case False
    with 2(3) one have "overlapping k ip steps (n, m, l1) = Some (n', m', l')" by simp
    with 2(2) [OF one [symmetric] refl False] 2(4,6,7,8) next_state show ?thesis by auto
  qed
next
  case (3 k ip t steps n m l)
  from counted_steps(3) [OF 3(4), of t] 3(3) have "counted ip t0 (failed ip t l) (Suc c)" by auto
  with 3(1) [of "Suc c"] 3(2,3,5,6,7) show ?case by (auto split: if_splits)
qed simp

text \<open>
  C36. From an address without earlier failures, of all wrong passwords that are tried one after the
  other within the fifteen minutes after the first of them exactly the first five are checked, and
  every later one is refused unseen. The windows do not slide: whatever the address has done before,
  any stretch of fifteen minutes sees at most ten checks. Where up to \<open>k\<close> attempts overlap, at most
  \<open>4 + k\<close> are let through in a window.
\<close>

theorem failed_logins_limited:
  assumes "\<forall>(t, p) \<in> set tries. t0 \<le> t \<and> t < t0 + window \<and> \<not> CheckAdminPassword verify p s"
  shows "(map_of (ad_limiter s) ip = None \<longrightarrow>
      login_replies verify ip tries s = replicate (min 5 (length tries)) 401 @ replicate (length tries - 5) 429)
    \<and> (\<forall>a. map_of (ad_limiter s) ip = Some a \<and> at_count a \<le> 5 \<longrightarrow>
        length (filter (\<lambda>r. r = 401) (login_replies verify ip tries s)) \<le> 10 - at_count a)
    \<and> (\<forall>k steps n m l'. map_of (ad_limiter s) ip = None \<and> overlapping k ip steps (0, 0, ad_limiter s) = Some (n, m, l')
        \<and> (\<forall>x \<in> set steps. t0 \<le> step_time x \<and> step_time x < t0 + window) \<longrightarrow> n \<le> 4 + k)"
proof (intro conjI impI allI)
  assume "map_of (ad_limiter s) ip = None"
  with assms show "login_replies verify ip tries s = replicate (min 5 (length tries)) 401 @ replicate (length tries - 5) 429"
    by (intro fresh_replies)
next
  fix a assume "map_of (ad_limiter s) ip = Some a \<and> at_count a \<le> 5"
  with assms show "length (filter (\<lambda>r. r = 401) (login_replies verify ip tries s)) \<le> 10 - at_count a"
    by (intro two_windows) auto
next
  fix k steps n m l'
  assume "map_of (ad_limiter s) ip = None \<and> overlapping k ip steps (0, 0, ad_limiter s) = Some (n, m, l')
      \<and> (\<forall>x \<in> set steps. t0 \<le> step_time x \<and> step_time x < t0 + window)"
  then show "n \<le> 4 + k" using overlapping_bound [of k ip steps 0 0 "ad_limiter s" n m l' t0 0] by (simp add: counted_def)
qed

text \<open>Seven guesses one after the other, and three overlapping ones after four failures.\<close>

theorem failed_logins_limited_witness:
  "login_replies demo_verify ''ip'' (map (\<lambda>i. (int i * second, ''guess'')) [0..<7]) demo_fresh = [401, 401, 401, 401, 401, 429, 429]
   \<and> map_option fst (overlapping 3 ''ip'' (concat (replicate 4 [Asked 0, Refused 0]) @ [Asked 1, Asked 1, Asked 1, Refused 1, Asked 2]) (0, 0, []))
       = Some 7 \<and> 7 \<le> 4 + (3 :: nat)"
proof -
  have fresh: "map_of (ad_limiter demo_fresh) ''ip'' = None" "ad_limiter demo_fresh = []" by (simp_all add: demo_fresh_def)
  have tries: "\<forall>(t, p) \<in> set (map (\<lambda>i. (int i * second, ''guess'')) [0..<7]).
      0 \<le> t \<and> t < 0 + window \<and> \<not> CheckAdminPassword demo_verify p demo_fresh"
    by (auto simp: window_def second_def CheckAdminPassword_def demo_fresh_def demo_verify_def)
  note limited = failed_logins_limited [OF tries, of "''ip''"]
  have one: "login_replies demo_verify ''ip'' (map (\<lambda>i. (int i * second, ''guess'')) [0..<7]) demo_fresh
      = replicate (min 5 7) 401 @ replicate (7 - 5) 429"
    using limited fresh(1) by simp
  define steps where "steps = concat (replicate 4 [Asked 0, Refused 0]) @ [Asked 1, Asked 1, Asked 1, Refused 1, Asked 2]"
  have seven: "map_option fst (overlapping 3 ''ip'' steps (0, 0, [])) = Some 7" unfolding steps_def by code_simp
  then obtain m l where run: "overlapping 3 ''ip'' steps (0, 0, []) = Some (7, m, l)" by auto
  have "\<forall>x \<in> set steps. 0 \<le> step_time x \<and> step_time x < 0 + window"
    by (simp add: steps_def window_def second_def numeral_eq_Suc)
  with limited [THEN conjunct2, THEN conjunct2, rule_format, of 3 steps 7 m l] run fresh have "7 \<le> 4 + (3 :: nat)" by simp
  with one seven show ?thesis unfolding steps_def by (simp add: eval_nat_numeral)
qed

section \<open>Addresses\<close>

lemma split_on_middle: "split_on c (s @ c # t) = split_on c s @ split_on c t"
  by (induction s) (auto split: list.splits)

text \<open>The host of the remote address, and what is left of the entries after the trusted proxies at the end.\<close>

definition remote_host :: "(string \<Rightarrow> string option) \<Rightarrow> string \<Rightarrow> string" where
  "remote_host split_host_port remote = (case split_host_port remote of None \<Rightarrow> remote | Some host \<Rightarrow> host)"

definition foreign_entry :: "(string \<Rightarrow> 'ip option) \<Rightarrow> ('ip \<Rightarrow> bool) \<Rightarrow> string \<Rightarrow> bool" where
  "foreign_entry parse_ip trusted e \<longleftrightarrow> (case parse_ip (trim_space e) of None \<Rightarrow> False | Some ip \<Rightarrow> \<not> trusted ip)"

lemma foreign_filter:
  "\<forall>e \<in> set es. \<not> foreign_entry parse_ip trusted e \<Longrightarrow>
    filter (\<lambda>ip. \<not> trusted ip) (List.map_filter (\<lambda>s. parse_ip (trim_space s)) es) = []"
  by (induction es) (auto simp: foreign_entry_def List.map_filter_simps split: option.splits)

text \<open>What is resolved behind a trusted proxy.\<close>

lemma Resolve_trusted:
  assumes "parse_ip (remote_host split_host_port remote) = Some peer" and "trusted peer"
  shows "Resolve split_host_port parse_ip show_ip trusted remote h =
     (case filter (foreign_entry parse_ip trusted)
         (rev (if header_get h ''X-Forwarded-For'' = [] then [] else split_on (CHR '','') (header_get h ''X-Forwarded-For''))) of
        [] \<Rightarrow> remote_host split_host_port remote
      | e # _ \<Rightarrow> show_ip (the (parse_ip (trim_space e))))"
proof -
  have "filter (\<lambda>ip. \<not> trusted ip) (List.map_filter (\<lambda>s. parse_ip (trim_space s)) es)
      = map (\<lambda>e. the (parse_ip (trim_space e))) (filter (foreign_entry parse_ip trusted) es)" for es
    by (induction es) (auto simp: foreign_entry_def List.map_filter_simps split: option.splits)
  with assms show ?thesis by (auto simp: Resolve_def remote_host_def Let_def split: list.splits option.splits)
qed

text \<open>
  C37. A client is known by the host of its connection, unless that host is a trusted proxy; then it
  is known by the last entry of the first line of \<^verbatim>\<open>X-Forwarded-For\<close> that is an address and is not a
  trusted proxy, and by the proxy's host if there is no such entry. So what the proxy appends to the
  line after a comma counts whatever the client wrote before it; but a proxy that adds a line of its
  own leaves the choice to the client, because only the first line is read.
\<close>

theorem client_address_exact:
  "(\<not> (\<exists>peer. parse_ip (remote_host split_host_port remote) = Some peer \<and> trusted peer) \<longrightarrow>
        Resolve split_host_port parse_ip show_ip trusted remote h = remote_host split_host_port remote)
    \<and> (\<forall>peer. parse_ip (remote_host split_host_port remote) = Some peer \<and> trusted peer \<longrightarrow>
        (\<forall>before e after ip. header_get h ''X-Forwarded-For'' \<noteq> []
            \<and> split_on (CHR '','') (header_get h ''X-Forwarded-For'') = before @ e # after
            \<and> parse_ip (trim_space e) = Some ip \<and> \<not> trusted ip \<and> \<not> list_ex (foreign_entry parse_ip trusted) after \<longrightarrow>
          Resolve split_host_port parse_ip show_ip trusted remote h = show_ip ip)
        \<and> (header_get h ''X-Forwarded-For'' = []
            \<or> \<not> list_ex (foreign_entry parse_ip trusted) (split_on (CHR '','') (header_get h ''X-Forwarded-For'')) \<longrightarrow>
          Resolve split_host_port parse_ip show_ip trusted remote h = remote_host split_host_port remote)
        \<and> (\<forall>forged added ip. header_get h ''X-Forwarded-For'' = forged @ CHR '','' # added \<and> CHR '','' \<notin> set added
            \<and> parse_ip (trim_space added) = Some ip \<and> \<not> trusted ip \<longrightarrow>
          Resolve split_host_port parse_ip show_ip trusted remote h = show_ip ip)
        \<and> (\<forall>forged added ip. h = [(''X-Forwarded-For'', forged # added)] \<and> forged \<noteq> [] \<and> CHR '','' \<notin> set forged
            \<and> parse_ip (trim_space forged) = Some ip \<and> \<not> trusted ip \<longrightarrow>
          Resolve split_host_port parse_ip show_ip trusted remote h = show_ip ip))"
proof (intro conjI impI allI)
  assume "\<not> (\<exists>peer. parse_ip (remote_host split_host_port remote) = Some peer \<and> trusted peer)"
  then show "Resolve split_host_port parse_ip show_ip trusted remote h = remote_host split_host_port remote"
    by (auto simp: Resolve_def remote_host_def Let_def split: option.splits)
next
  fix peer before e after ip
  assume "parse_ip (remote_host split_host_port remote) = Some peer \<and> trusted peer"
    and "header_get h ''X-Forwarded-For'' \<noteq> []
            \<and> split_on (CHR '','') (header_get h ''X-Forwarded-For'') = before @ e # after
            \<and> parse_ip (trim_space e) = Some ip \<and> \<not> trusted ip \<and> \<not> list_ex (foreign_entry parse_ip trusted) after"
  moreover from this have "filter (foreign_entry parse_ip trusted) (rev after) = []" by (auto simp: filter_empty_conv list_ex_iff)
  ultimately show "Resolve split_host_port parse_ip show_ip trusted remote h = show_ip ip"
    by (simp add: Resolve_trusted foreign_entry_def)
next
  fix peer
  assume "parse_ip (remote_host split_host_port remote) = Some peer \<and> trusted peer"
    and "header_get h ''X-Forwarded-For'' = []
        \<or> \<not> list_ex (foreign_entry parse_ip trusted) (split_on (CHR '','') (header_get h ''X-Forwarded-For''))"
  moreover from this have "filter (foreign_entry parse_ip trusted)
      (rev (if header_get h ''X-Forwarded-For'' = [] then [] else split_on (CHR '','') (header_get h ''X-Forwarded-For''))) = []"
    by (auto simp: filter_empty_conv list_ex_iff)
  ultimately show "Resolve split_host_port parse_ip show_ip trusted remote h = remote_host split_host_port remote"
    by (simp add: Resolve_trusted)
next
  fix peer forged added ip
  assume "parse_ip (remote_host split_host_port remote) = Some peer \<and> trusted peer"
    and "header_get h ''X-Forwarded-For'' = forged @ CHR '','' # added \<and> CHR '','' \<notin> set added
            \<and> parse_ip (trim_space added) = Some ip \<and> \<not> trusted ip"
  then show "Resolve split_host_port parse_ip show_ip trusted remote h = show_ip ip"
    by (simp add: Resolve_trusted split_on_middle foreign_entry_def)
next
  fix peer forged added ip
  assume "parse_ip (remote_host split_host_port remote) = Some peer \<and> trusted peer"
    and h: "h = [(''X-Forwarded-For'', forged # added)] \<and> forged \<noteq> [] \<and> CHR '','' \<notin> set forged
            \<and> parse_ip (trim_space forged) = Some ip \<and> \<not> trusted ip"
  moreover have "canonical ''X-Forwarded-For'' = ''X-Forwarded-For''" by code_simp
  with h have "header_get h ''X-Forwarded-For'' = forged" by (simp add: header_get_def header_values_def)
  ultimately show "Resolve split_host_port parse_ip show_ip trusted remote h = show_ip ip"
    by (simp add: Resolve_trusted foreign_entry_def)
qed

definition demo_parse_ip :: "string \<Rightarrow> string option" where
  "demo_parse_ip s = (if s = [] then None else Some s)"

definition demo_split_port :: "string \<Rightarrow> string option" where
  "demo_split_port s = (if CHR '':'' \<in> set s then Some (takeWhile (\<lambda>c. c \<noteq> CHR '':'') s) else None)"

theorem client_address_exact_witness:
  "Resolve demo_split_port demo_parse_ip (\<lambda>ip. ip) (\<lambda>ip. ip = ''10.0.0.1'') ''10.0.0.1:99'' [(''X-Forwarded-For'', [''6.6.6.6, 1.2.3.4''])] = ''1.2.3.4''
   \<and> Resolve demo_split_port demo_parse_ip (\<lambda>ip. ip) (\<lambda>ip. ip = ''10.0.0.1'') ''9.9.9.9:99'' [(''X-Forwarded-For'', [''6.6.6.6''])] = ''9.9.9.9''
   \<and> Resolve demo_split_port demo_parse_ip (\<lambda>ip. ip) (\<lambda>ip. ip = ''10.0.0.1'') ''10.0.0.1:99'' [(''X-Forwarded-For'', [''6.6.6.6'', ''1.2.3.4''])] = ''6.6.6.6''"
proof -
  note exact = client_address_exact [of demo_parse_ip demo_split_port _ "\<lambda>ip. ip = ''10.0.0.1''" "\<lambda>ip. ip"]
  have proxy: "demo_parse_ip (remote_host demo_split_port ''10.0.0.1:99'') = Some ''10.0.0.1'' \<and> ''10.0.0.1'' = ''10.0.0.1''" by code_simp
  have client: "demo_parse_ip (remote_host demo_split_port ''9.9.9.9:99'') = Some ''9.9.9.9''" "remote_host demo_split_port ''9.9.9.9:99'' = ''9.9.9.9''"
    by code_simp+
  have h: "header_get [(''X-Forwarded-For'', [''6.6.6.6, 1.2.3.4''])] ''X-Forwarded-For'' = ''6.6.6.6'' @ CHR '','' # '' 1.2.3.4''"
      "demo_parse_ip (trim_space '' 1.2.3.4'') = Some ''1.2.3.4''" "demo_parse_ip (trim_space ''6.6.6.6'') = Some ''6.6.6.6''" by code_simp+
  have "Resolve demo_split_port demo_parse_ip (\<lambda>ip. ip) (\<lambda>ip. ip = ''10.0.0.1'') ''10.0.0.1:99'' [(''X-Forwarded-For'', [''6.6.6.6, 1.2.3.4''])] = ''1.2.3.4''"
    using exact [THEN conjunct2, rule_format, OF proxy, THEN conjunct2, THEN conjunct2, THEN conjunct1, rule_format, of _ "''6.6.6.6''" "'' 1.2.3.4''"] h(1,2)
    by simp
  moreover have "Resolve demo_split_port demo_parse_ip (\<lambda>ip. ip) (\<lambda>ip. ip = ''10.0.0.1'') ''9.9.9.9:99'' [(''X-Forwarded-For'', [''6.6.6.6''])] = ''9.9.9.9''"
    using exact [THEN conjunct1, rule_format, of "''9.9.9.9:99''"] client by simp
  moreover have "Resolve demo_split_port demo_parse_ip (\<lambda>ip. ip) (\<lambda>ip. ip = ''10.0.0.1'') ''10.0.0.1:99'' [(''X-Forwarded-For'', [''6.6.6.6'', ''1.2.3.4''])] = ''6.6.6.6''"
    using exact [THEN conjunct2, rule_format, OF proxy, THEN conjunct2, THEN conjunct2, THEN conjunct2, rule_format,
        of _ "''6.6.6.6''" "[''1.2.3.4'']" "''6.6.6.6''"] h(3) by simp
  ultimately show ?thesis by blast
qed

end
