(* ===== verification/Compatibility.thy ===== *)
theory Compatibility
  imports EncodeRequest Response StreamSummary
begin

text \<open>
  The compatibility check of a model (\<^verbatim>\<open>CheckCompatibility\<close> of internal/gateway/compatibility.go): a
  conversation of one or three rounds that the gateway holds with one of its own models, as text, with
  one tool call a round or with two in parallel. What the gateway answers to the request of a round is
  the parameter \<open>run\<close>; the prompts are in English here.
\<close>

record check_input =
  ck_protocol :: string
  ck_upstream_protocol :: string
  ck_candidate :: int
  ck_scenario :: string
  ck_stream :: bool

datatype check_message = InvalidProtocol | InvalidScenario | NotEncoded go_error | TimedOut | BadStatus int string | NotRead
  | NotCompleted string | StreamBroken "summary_warning list" | DeltasIncomplete | NotDecoded go_error | NoTextReturned
  | BadToolCall | BadToolArguments | WrongNumber nat nat | Passed | Unfinished

record check_result =
  cr_passed :: bool
  cr_message :: check_message
  cr_requests :: "string list"
  cr_last :: "string \<times> string \<times> string"

text \<open>
  The answer to a request: status, body, id, whether the two minutes are over, and what the log says
  of it (status, error, and provider, model and protocol of the last attempt), if it can be read.
\<close>

record admin_answer =
  aw_status :: int
  aw_body :: string
  aw_id :: string
  aw_timeout :: bool
  aw_logged :: "(string \<times> string \<times> (string \<times> string \<times> string) option) option"

definition echo_tool :: tool where
  "echo_tool = \<lparr>tool_kind = ''function'', tool_name = ''mc_echo'', tool_description = ''returns value'',
     tool_parameters = Some (JObj [(''type'', JStr ''object''), (''properties'', JObj [(''value'', JObj [(''type'', JStr ''string'')])]),
       (''required'', JArr [JStr ''value'']), (''additionalProperties'', JBool False)]), tool_strict = None\<rparr>"

definition user_text :: "string \<Rightarrow> message" where
  "user_text s = message_of ''user'' [TextBlock s]"

definition tool_count :: "check_input \<Rightarrow> nat" where
  "tool_count input = (if ck_scenario input = ''parallel'' then 2 else 1)"

definition check_request :: "string \<Rightarrow> check_input \<Rightarrow> request" where
  "check_request model input =
     (let req = \<lparr>req_model = model, req_instructions = [], req_messages = [user_text ''Please answer mc_test_ok.''], req_tools = [],
            req_tool_choice = no_choice, req_stream = ck_stream input, req_parallel = False, req_parallel_set = False,
            req_max_output = Some 512, req_temperature = None, req_top_p = None, req_stop = [], req_effort = []\<rparr>
      in if ck_scenario input = ''text'' then req
         else req\<lparr>req_parallel := (ck_scenario input = ''parallel''), req_tools := [echo_tool],
                req_messages := [user_text ''Call mc_echo in this round with first and second, then wait for the results.'']\<rparr>)"

definition round_request :: "check_input \<Rightarrow> bool \<Rightarrow> request \<Rightarrow> request" where
  "round_request input is_last req =
     (if ck_scenario input = ''text'' then req
      else if is_last then req\<lparr>req_tool_choice := \<lparr>choice_mode = ''none'', choice_name = []\<rparr>,
             req_messages := req_messages req @ [user_text ''The test is done, answer mc_test_ok without a call.'']\<rparr>
      else req\<lparr>req_tool_choice := \<lparr>choice_mode = ''required'', choice_name = []\<rparr>\<rparr>)"

section \<open>The answer of a round\<close>

fun summary_blocks :: "summary_block list \<Rightarrow> check_message + block list" where
  "summary_blocks [] = Inr []"
| "summary_blocks (b # bs) =
     (if sm_type b = ''text'' then bindE (summary_blocks bs) (\<lambda>r. Inr (TextBlock (sm_content b) # r))
      else if sm_type b = ''tool_call'' then
        (if \<not> sm_valid b \<or> \<not> sm_complete b then Inl DeltasIncomplete
         else bindE (summary_blocks bs) (\<lambda>r. Inr (ToolCallBlock \<lparr>call_id = sm_call_id b, call_upstream_id = [], call_name = sm_name b,
               call_arguments = (case unmarshal_text (sm_arguments b) of Inl e \<Rightarrow> None | Inr j \<Rightarrow> Some j)\<rparr> # r)))
      else summary_blocks bs)"

definition answer_blocks :: "(nat \<Rightarrow> string) \<Rightarrow> instant \<Rightarrow> check_input \<Rightarrow> string \<Rightarrow> check_message + block list" where
  "answer_blocks rand now input body =
     (if ck_stream input then
        (let summary = SummarizeStream rand now body (ck_protocol input) in
         if \<not> su_completed summary \<or> su_status summary \<noteq> ''ok'' then Inl (StreamBroken (su_warnings summary))
         else summary_blocks (su_blocks summary))
      else (case DecodeResponse body (ck_protocol input) of Inl e \<Rightarrow> Inl (NotDecoded e) | Inr r \<Rightarrow> Inr (resp_blocks r)))"

definition echo_value :: "raw_message \<Rightarrow> string option" where
  "echo_value raw =
     (case raw of
        None \<Rightarrow> None
      | Some j \<Rightarrow> (case dec_struct (field (dec_ptr dec_string []) None ''value'') j of (v, ok) \<Rightarrow> if ok then v else None))"

text \<open>The calls of an answer and their results; \<open>seen\<close> holds the ids so far.\<close>

fun echo_calls :: "string list \<Rightarrow> block list \<Rightarrow> check_message + (block list \<times> block list)" where
  "echo_calls seen [] = Inr ([], [])"
| "echo_calls seen (ToolCallBlock call # bs) =
     (if call_name call \<noteq> ''mc_echo'' \<or> call_id call = [] \<or> call_id call \<in> set seen then Inl BadToolCall
      else (case echo_value (call_arguments call) of
          None \<Rightarrow> Inl BadToolArguments
        | Some v \<Rightarrow> bindE (echo_calls (call_id call # seen) bs) (\<lambda>(calls, outputs). Inr (ToolCallBlock call # calls,
              ToolResultBlock \<lparr>result_call_id = call_id call, result_content = v, result_is_error = False\<rparr> # outputs))))"
| "echo_calls seen (b # bs) = echo_calls seen bs"

definition has_text :: "block list \<Rightarrow> bool" where
  "has_text bs = list_ex (\<lambda>b. case b of TextBlock s \<Rightarrow> trim_space s \<noteq> [] | _ \<Rightarrow> False) bs"

section \<open>The rounds\<close>

definition failed_check :: "check_message \<Rightarrow> check_result \<Rightarrow> check_result" where
  "failed_check m res = res\<lparr>cr_message := m\<rparr>"

definition answered_round :: "admin_answer \<Rightarrow> check_result \<Rightarrow> check_message option \<times> check_result" where
  "answered_round a res =
     (let res = (if aw_id a = [] then res else res\<lparr>cr_requests := cr_requests res @ [aw_id a]\<rparr>) in
      if aw_timeout a then (Some TimedOut, res)
      else if aw_status a < 200 \<or> 300 \<le> aw_status a then (Some (BadStatus (aw_status a) (aw_id a)), res)
      else (case aw_logged a of
          None \<Rightarrow> (Some NotRead, res)
        | Some (status, error, tried) \<Rightarrow>
            if status \<noteq> ''completed'' then (Some (NotCompleted error), res)
            else (None, case tried of None \<Rightarrow> res | Some t \<Rightarrow> res\<lparr>cr_last := t\<rparr>)))"

definition next_request :: "bool \<Rightarrow> block list \<Rightarrow> block list \<Rightarrow> request \<Rightarrow> request" where
  "next_request is_first blocks outputs req = req\<lparr>req_messages := req_messages req @ [message_of ''assistant'' blocks, message_of ''user'' outputs]
     @ (if is_first then [user_text ''Call mc_echo again with third and fourth.''] else [])\<rparr>"

text \<open>\<open>n\<close> rounds are left; the next one has number \<open>k\<close>.\<close>

fun check_rounds ::
    "(nat \<Rightarrow> string \<Rightarrow> admin_answer) \<Rightarrow> (nat \<Rightarrow> string) \<Rightarrow> instant \<Rightarrow> check_input \<Rightarrow> nat \<Rightarrow> nat \<Rightarrow> request \<Rightarrow> check_result \<Rightarrow> check_result" where
  "check_rounds run rand now input 0 k req res = failed_check Unfinished res"
| "check_rounds run rand now input (Suc n) k req res =
     (let req = round_request input (n = 0) req in
      case EncodeRequest req (ck_protocol input) of
        Inl e \<Rightarrow> failed_check (NotEncoded e) res
      | Inr body \<Rightarrow>
          (case answered_round (run k body) res of
             (Some m, res) \<Rightarrow> failed_check m res
           | (None, res) \<Rightarrow>
               (case answer_blocks rand now input (aw_body (run k body)) of
                  Inl m \<Rightarrow> failed_check m res
                | Inr blocks \<Rightarrow>
                    if n = 0 then
                      (if has_text blocks then res\<lparr>cr_passed := True, cr_message := Passed\<rparr> else failed_check NoTextReturned res)
                    else (case echo_calls [] blocks of
                        Inl m \<Rightarrow> failed_check m res
                      | Inr (calls, outputs) \<Rightarrow>
                          if length calls \<noteq> tool_count input then failed_check (WrongNumber (tool_count input) (length calls)) res
                          else check_rounds run rand now input n (Suc k) (next_request (k = 0) blocks outputs req) res))))"

definition check_length :: "check_input \<Rightarrow> nat" where
  "check_length input = (if ck_scenario input = ''text'' then 1 else 3)"

definition CheckCompatibility ::
    "(nat \<Rightarrow> string \<Rightarrow> admin_answer) \<Rightarrow> (nat \<Rightarrow> string) \<Rightarrow> instant \<Rightarrow> string \<Rightarrow> check_input \<Rightarrow> check_result" where
  "CheckCompatibility run rand now model input =
     (let res = \<lparr>cr_passed = False, cr_message = Unfinished, cr_requests = [], cr_last = ([], [], [])\<rparr> in
      if ck_protocol input \<notin> {Chat, Responses, Messages} then failed_check InvalidProtocol res
      else if ck_scenario input \<notin> {''text'', ''tool'', ''parallel''} then failed_check InvalidScenario res
      else check_rounds run rand now input (check_length input) 0 (check_request model input) res)"

section \<open>What a passed check shows\<close>

definition good_answer :: "admin_answer \<Rightarrow> bool" where
  "good_answer a \<longleftrightarrow> \<not> aw_timeout a \<and> 200 \<le> aw_status a \<and> aw_status a < 300 \<and> (\<exists>e t. aw_logged a = Some (''completed'', e, t))"

fun calls_of :: "block list \<Rightarrow> tool_call list" where
  "calls_of [] = []"
| "calls_of (ToolCallBlock c # bs) = c # calls_of bs"
| "calls_of (b # bs) = calls_of bs"

definition good_call :: "tool_call \<Rightarrow> bool" where
  "good_call c \<longleftrightarrow> call_name c = ''mc_echo'' \<and> call_id c \<noteq> [] \<and> echo_value (call_arguments c) \<noteq> None"

definition good_calls :: "string list \<Rightarrow> tool_call list \<Rightarrow> bool" where
  "good_calls seen cs \<longleftrightarrow> distinct (map call_id cs) \<and> set (map call_id cs) \<inter> set seen = {} \<and> list_all good_call cs"

definition echo_result :: "tool_call \<Rightarrow> block" where
  "echo_result c = ToolResultBlock \<lparr>result_call_id = call_id c, result_content = the (echo_value (call_arguments c)), result_is_error = False\<rparr>"

lemma good_calls_Cons:
  "good_calls seen (c # cs) \<longleftrightarrow> good_call c \<and> call_id c \<notin> set seen \<and> good_calls (call_id c # seen) cs"
  by (auto simp: good_calls_def)

lemma echo_calls_exact:
  "(case echo_calls seen bs of Inl m \<Rightarrow> \<not> good_calls seen (calls_of bs)
    | Inr r \<Rightarrow> good_calls seen (calls_of bs) \<and> r = (map ToolCallBlock (calls_of bs), map echo_result (calls_of bs)))"
proof (induction seen bs rule: echo_calls.induct)
  case (1 seen)
  then show ?case by (simp add: good_calls_def)
next
  case (2 seen c bs)
  show ?case
  proof (cases "good_call c \<and> call_id c \<notin> set seen")
    case True
    then obtain v where v: "echo_value (call_arguments c) = Some v" by (auto simp: good_call_def)
    with True "2.IH" show ?thesis
      by (cases "echo_calls (call_id c # seen) bs") (auto simp: good_call_def good_calls_Cons echo_result_def)
  next
    case False
    then show ?thesis by (auto simp: good_call_def good_calls_Cons split: option.splits)
  qed
qed (simp_all split: sum.splits)

lemma answered_round_good:
  "answered_round a res = (None, res') \<Longrightarrow> good_answer a \<and> cr_passed res' = cr_passed res
     \<and> cr_requests res' = cr_requests res @ (if aw_id a = [] then [] else [aw_id a])"
  by (auto simp: answered_round_def good_answer_def Let_def split: if_splits option.splits prod.splits)

lemma answered_round_bad: "answered_round a res = (Some m, res') \<Longrightarrow> \<not> good_answer a \<and> cr_passed res' = cr_passed res"
  by (auto simp: answered_round_def good_answer_def Let_def split: if_splits option.splits prod.splits)

text \<open>
  What the gateway has to answer, without the messages and the records of the check: \<open>n\<close> rounds from
  round \<open>k\<close> on.
\<close>

definition good_round :: "check_input \<Rightarrow> bool \<Rightarrow> block list \<Rightarrow> bool" where
  "good_round input is_last blocks \<longleftrightarrow>
     (if is_last then has_text blocks else length (calls_of blocks) = tool_count input \<and> good_calls [] (calls_of blocks))"

fun good_rounds ::
    "(nat \<Rightarrow> string \<Rightarrow> admin_answer) \<Rightarrow> (nat \<Rightarrow> string) \<Rightarrow> instant \<Rightarrow> check_input \<Rightarrow> nat \<Rightarrow> nat \<Rightarrow> request \<Rightarrow> bool" where
  "good_rounds run rand now input 0 k req \<longleftrightarrow> False"
| "good_rounds run rand now input (Suc n) k req \<longleftrightarrow>
     (\<exists>body blocks. EncodeRequest (round_request input (n = 0) req) (ck_protocol input) = Inr body \<and> good_answer (run k body)
       \<and> answer_blocks rand now input (aw_body (run k body)) = Inr blocks \<and> good_round input (n = 0) blocks
       \<and> (n = 0 \<or> good_rounds run rand now input n (Suc k)
            (next_request (k = 0) blocks (map echo_result (calls_of blocks)) (round_request input False req))))"

lemma check_rounds_exact:
  "\<not> cr_passed res \<Longrightarrow> cr_passed (check_rounds run rand now input n k req res) \<longleftrightarrow> good_rounds run rand now input n k req"
proof (induction n arbitrary: k req res)
  case 0
  then show ?case by (simp add: failed_check_def)
next
  case (Suc n)
  have failed: "\<not> cr_passed (failed_check m r)" if "\<not> cr_passed r" for m r using that by (simp add: failed_check_def)
  show ?case
  proof (cases "EncodeRequest (round_request input (n = 0) req) (ck_protocol input)")
    case (Inl e)
    with Suc.prems failed show ?thesis by simp
  next
    case (Inr body)
    obtain m res' where round: "answered_round (run k body) res = (m, res')" by (rule prod.exhaust)
    show ?thesis
    proof (cases m)
      case (Some msg)
      with round have "answered_round (run k body) res = (Some msg, res')" by simp
      from answered_round_bad [OF this] Some Inr round Suc.prems failed show ?thesis by simp
    next
      case None
      with round have "answered_round (run k body) res = (None, res')" by simp
      note good = answered_round_good [OF this]
      then have unpassed: "\<not> cr_passed res'" using Suc.prems by simp
      show ?thesis
      proof (cases "answer_blocks rand now input (aw_body (run k body))")
        case (Inl e)
        with Inr round None failed [OF unpassed] show ?thesis by simp
      next
        case blocks: (Inr blocks)
        show ?thesis
        proof (cases n)
          case 0
          with Inr round None blocks good failed [OF unpassed] show ?thesis by (simp add: good_round_def)
        next
          case (Suc j)
          with echo_calls_exact [of "[]" blocks] Inr round None blocks good failed [OF unpassed] Suc.IH [OF unpassed] show ?thesis
            by (cases "echo_calls [] blocks") (auto simp: good_round_def)
        qed
      qed
    qed
  qed
qed

text \<open>
  C40. A check is passed exactly when the protocol and the scenario are known and the gateway has held
  the whole conversation: in each of its rounds it has answered in time, with success and with a
  finished request whose answer can be read; in the rounds with tools it has made exactly the number
  of calls asked for, of the tool offered, with distinct ids and a text as the argument, and has been
  sent the results of just these calls; and in the last round it has answered with a text.
\<close>

theorem compatibility_passed_exact:
  "cr_passed (CheckCompatibility run rand now model input) \<longleftrightarrow>
     ck_protocol input \<in> {Chat, Responses, Messages} \<and> ck_scenario input \<in> {''text'', ''tool'', ''parallel''}
     \<and> good_rounds run rand now input (check_length input) 0 (check_request model input)"
proof -
  have "cr_passed (failed_check m r) = cr_passed r" for m r by (simp add: failed_check_def)
  then show ?thesis by (auto simp: CheckCompatibility_def Let_def check_rounds_exact)
qed

end
