(* ===== verification/Affinity.thy ===== *)
theory Affinity
  imports GatewayBody "HOL-Library.Multiset"
begin

text \<open>
  Session affinity (internal/gateway/affinity.go): a session that was served by a key of a
  candidate tries that key first for an hour. The map of bindings is an association list; the
  iteration order of the Go map only matters between bindings that expire at the same instant.
\<close>

record affinity_key =
  af_access_key :: int
  af_candidate :: int
  af_revision :: int
  af_session :: string
  af_protocol :: string

record affinity_binding =
  ab_key :: int
  ab_expires :: instant

type_synonym affinities = "(affinity_key \<times> affinity_binding) list"

definition affinity_key_of :: "int \<Rightarrow> string \<Rightarrow> resolved_route \<Rightarrow> affinity_key" where
  "affinity_key_of access session route = \<lparr>af_access_key = access, af_candidate = CandidateID route,
     af_revision = CandidateRevision route, af_session = session, af_protocol = UpstreamProtocol route\<rparr>"

section \<open>Using a binding\<close>

text \<open>The routes of one candidate with those of the bound key in front, otherwise in their order.\<close>

definition bound_first :: "int \<Rightarrow> resolved_route list \<Rightarrow> resolved_route list" where
  "bound_first kid = sort_key (\<lambda>r. if key_id (Key r) = kid then (0 :: nat) else 1)"

function affinityRoutes ::
    "instant \<Rightarrow> string \<Rightarrow> int \<Rightarrow> resolved_route list \<Rightarrow> affinities \<Rightarrow> resolved_route list \<times> affinities" where
  "affinityRoutes now session access [] m = ([], m)"
| "affinityRoutes now session access (route # routes) m =
     (let same = (\<lambda>r. CandidateID r = CandidateID route);
          group = route # takeWhile same routes;
          key = affinity_key_of access session route;
          (group, m) = (case map_of m key of
              Some binding \<Rightarrow> if now < ab_expires binding then (bound_first (ab_key binding) group, m)
                               else (group, AList.delete key m)
            | None \<Rightarrow> (group, AList.delete key m));
          (rest, m) = affinityRoutes now session access (dropWhile same routes) m
      in (group @ rest, m))"
  by pat_completeness auto
termination
  by (relation "measure (\<lambda>(now, session, access, routes, m). length routes)")
    (auto simp: less_Suc_eq_le length_dropWhile_le)

section \<open>Making a binding\<close>

text \<open>The binding that expires first.\<close>

fun oldest :: "affinities \<Rightarrow> (affinity_key \<times> instant) option \<Rightarrow> (affinity_key \<times> instant) option" where
  "oldest [] best = best"
| "oldest ((k, b) # m) best =
     oldest m (case best of None \<Rightarrow> Some (k, ab_expires b)
               | Some (k', t) \<Rightarrow> if ab_expires b < t then Some (k, ab_expires b) else best)"

definition max_affinities :: nat where "max_affinities = 10000"

definition make_room :: "instant \<Rightarrow> affinities \<Rightarrow> affinities" where
  "make_room now m =
     (let live = filter (\<lambda>x. now < ab_expires (snd x)) m in
      if length live < max_affinities then live
      else (case oldest live None of None \<Rightarrow> live | Some (k, t) \<Rightarrow> AList.delete k live))"

text \<open>\<open>success\<close> is the candidate and the key the request log names for the request.\<close>

definition rememberAffinity ::
    "instant \<Rightarrow> (int \<times> int) option \<Rightarrow> string \<Rightarrow> int \<Rightarrow> resolved_route list \<Rightarrow> affinities \<Rightarrow> affinities" where
  "rememberAffinity now success session access routes m =
     (case success of
        None \<Rightarrow> m
      | Some (cid, kid) \<Rightarrow>
          (case find (\<lambda>r. CandidateID r = cid \<and> key_id (Key r) = kid) routes of
             None \<Rightarrow> m
           | Some route \<Rightarrow>
               (let key = affinity_key_of access session route;
                    m = (if map_of m key = None \<and> max_affinities \<le> length m then make_room now m else m)
                in put key \<lparr>ab_key = kid, ab_expires = now + hour\<rparr> m)))"

section \<open>Laws\<close>

text \<open>The order of the candidates stays, and so does the set of routes of each.\<close>

lemma bound_first_mset: "mset (bound_first kid rs) = mset rs"
  by (simp add: bound_first_def)

lemma map_const: "\<forall>x \<in> set xs. f x = c \<Longrightarrow> map f xs = replicate (length xs) c"
  by (induction xs) auto

lemma bound_first_candidates:
  assumes "\<forall>r \<in> set rs. CandidateID r = cid"
  shows "map CandidateID (bound_first kid rs) = map CandidateID rs"
proof -
  have "set (bound_first kid rs) = set rs" "length (bound_first kid rs) = length rs"
    by (simp_all add: bound_first_def)
  with assms map_const [of "bound_first kid rs" CandidateID cid] map_const [of rs CandidateID cid] show ?thesis by simp
qed

lemma affinityRoutes_permutes:
  "mset (fst (affinityRoutes now session access routes m)) = mset routes
   \<and> map CandidateID (fst (affinityRoutes now session access routes m)) = map CandidateID routes"
proof (induction now session access routes m rule: affinityRoutes.induct)
  case (1 now session access m)
  then show ?case by simp
next
  case (2 now session access route routes m)
  let ?same = "\<lambda>r. CandidateID r = CandidateID route"
  let ?group = "route # takeWhile ?same routes" and ?rest = "dropWhile ?same routes"
  obtain group m1 where g: "(case map_of m (affinity_key_of access session route) of
              Some binding \<Rightarrow> if now < ab_expires binding then (bound_first (ab_key binding) ?group, m)
                               else (?group, AList.delete (affinity_key_of access session route) m)
            | None \<Rightarrow> (?group, AList.delete (affinity_key_of access session route) m)) = (group, m1)"
    by (rule prod.exhaust)
  have all: "\<forall>r \<in> set ?group. CandidateID r = CandidateID route" by (auto dest: set_takeWhileD)
  have group: "mset group = mset ?group" "map CandidateID group = map CandidateID ?group"
    using g bound_first_mset [of _ ?group] bound_first_candidates [OF all] by (auto split: option.splits if_splits)
  have split: "route # routes = ?group @ ?rest" by simp
  from "2" [OF refl refl refl g [symmetric] refl] obtain rest m2 where
    rest: "affinityRoutes now session access ?rest m1 = (rest, m2)" "mset rest = mset ?rest"
      "map CandidateID rest = map CandidateID ?rest"
    by (cases "affinityRoutes now session access ?rest m1") simp
  have eq: "affinityRoutes now session access (route # routes) m = (group @ rest, m2)"
    using g rest(1) by (simp add: Let_def)
  show ?case
    unfolding eq fst_conv using group rest(2,3)
    by (subst (1 2) split) (simp only: mset_append map_append)
qed

lemma length_delete: "length (AList.delete k m) \<le> length m"
  by (simp add: AList.delete_eq)

lemma length_delete_less: "k \<in> fst ` set m \<Longrightarrow> length (AList.delete k m) < length m"
  by (auto simp: AList.delete_eq intro!: length_filter_less)

lemma affinityRoutes_length: "length (snd (affinityRoutes now session access routes m)) \<le> length m"
proof (induction now session access routes m rule: affinityRoutes.induct)
  case (1 now session access m)
  then show ?case by simp
next
  case (2 now session access route routes m)
  show ?case
    using "2" [OF refl refl refl _ refl] length_delete [of "affinity_key_of access session route" m]
    by (fastforce simp: Let_def split: option.splits prod.splits if_splits)
qed

lemma oldest_key:
  "oldest m best = Some (k, t) \<Longrightarrow> best = Some (k, t) \<or> k \<in> fst ` set m"
proof (induction m best rule: oldest.induct)
  case (2 k b m best)
  then show ?case by (auto split: option.splits if_splits)
qed simp

lemma oldest_some: "m \<noteq> [] \<or> best \<noteq> None \<Longrightarrow> oldest m best \<noteq> None"
  by (induction m best rule: oldest.induct) (auto split: option.splits)

lemma make_room_length:
  assumes "length m \<le> max_affinities"
  shows "length (make_room now m) < max_affinities"
proof -
  let ?live = "filter (\<lambda>x. now < ab_expires (snd x)) m"
  have live: "length ?live \<le> max_affinities" using assms length_filter_le le_trans by blast
  show ?thesis
  proof (cases "length ?live < max_affinities")
    case True
    then show ?thesis by (simp add: make_room_def)
  next
    case False
    then have "?live \<noteq> []" by (auto simp: max_affinities_def)
    then obtain k t where o: "oldest ?live None = Some (k, t)" using oldest_some by fastforce
    then have "k \<in> fst ` set ?live" using oldest_key by fastforce
    from length_delete_less [OF this] False o live show ?thesis by (simp add: make_room_def)
  qed
qed

lemma length_put: "length (put k v m) \<le> length m + 1"
  by (induction m) auto

lemma length_put_present: "map_of m k \<noteq> None \<Longrightarrow> length (put k v m) = length m"
  by (induction m) auto

text \<open>The map of bindings does not grow beyond its bound.\<close>

lemma rememberAffinity_bounded:
  assumes "length m \<le> max_affinities"
  shows "length (rememberAffinity now success session access routes m) \<le> max_affinities"
proof -
  have "length (put k v (if map_of m k = None \<and> max_affinities \<le> length m then make_room now m else m)) \<le> max_affinities" for k v
  proof (cases "map_of m k = None")
    case True
    then show ?thesis
      using make_room_length [OF assms, of now] length_put [of k v "make_room now m"] length_put [of k v m] by auto
  next
    case False
    then have "(if map_of m k = None \<and> max_affinities \<le> length m then make_room now m else m) = m" by auto
    then show ?thesis using length_put_present [OF False, of v] assms by (simp only:)
  qed
  then show ?thesis using assms by (auto simp: rememberAffinity_def Let_def split: option.splits)
qed

end
