(* ===== verification/ToolHistory.thy ===== *)
theory ToolHistory
  imports AntigravityReply CodexRequest RoutingLaws JsonText
begin

text \<open>
  The tool turns of Antigravity (internal/protocol/antigravity_history.go and
  internal/store/antigravity_tools.go): a turn is stored under the ids of its calls when it leaves
  the gateway, and put back in place of the client's copy when one of these ids returns.
\<close>

section \<open>The stored turns\<close>

text \<open>A turn as a document: the structs \<^verbatim>\<open>AntigravityToolTurn\<close> and \<^verbatim>\<open>ToolCall\<close> have no tags.\<close>

definition raw_json :: "raw_message \<Rightarrow> json" where
  "raw_json raw = (case raw of None \<Rightarrow> JNull | Some j \<Rightarrow> j)"

definition call_json :: "tool_call \<Rightarrow> json" where
  "call_json c = JObj [(''ID'', JStr (call_id c)), (''UpstreamID'', JStr (call_upstream_id c)),
     (''Name'', JStr (call_name c)), (''Arguments'', raw_json (call_arguments c))]"

definition turn_document :: "ag_turn \<Rightarrow> string" where
  "turn_document turn = print_json (JObj [(''Content'', agt_content turn),
     (''Calls'', JArr (map call_json (agt_calls turn))), (''UpstreamIDs'', JArr (map JStr (agt_upstream_ids turn)))])"

definition call_struct :: "members \<Rightarrow> tool_call decoded" where
  "call_struct kvs =
     (let (i, ok1) = f_string ''ID'' kvs; (u, ok2) = f_string ''UpstreamID'' kvs; (name, ok3) = f_string ''Name'' kvs;
          (args, ok4) = f_raw ''Arguments'' kvs
      in (\<lparr>call_id = i, call_upstream_id = u, call_name = name, call_arguments = args\<rparr>, ok1 \<and> ok2 \<and> ok3 \<and> ok4))"

definition turn_struct :: "members \<Rightarrow> ag_turn decoded" where
  "turn_struct kvs =
     (let (content, ok1) = f_raw ''Content'' kvs; (calls, ok2) = f_slice (dec_struct call_struct) ''Calls'' kvs;
          (ids, ok3) = f_slice (dec_string []) ''UpstreamIDs'' kvs
      in (\<lparr>agt_content = raw_json content, agt_calls = calls, agt_upstream_ids = ids\<rparr>, ok1 \<and> ok2 \<and> ok3))"

definition read_turn :: "string \<Rightarrow> go_error + ag_turn" where
  "read_turn body = bindE (unmarshal_text body) (\<lambda>j. okE (dec_struct turn_struct j))"

record tool_history =
  th_provider :: int
  th_key :: int
  th_model :: string
  th_turn :: ag_turn

text \<open>One row for each call, all or none: the statements are a transaction.\<close>

definition turn_row :: "int option \<Rightarrow> resolved_route \<Rightarrow> ag_turn \<Rightarrow> tool_call \<Rightarrow> history_row" where
  "turn_row access route turn call = \<lparr>h_call = call_id call, h_access_key = access, h_provider = prov_id (Provider route),
     h_key = key_id (Key route), h_model = UpstreamModel route, h_history = turn_document turn\<rparr>"

definition insert_history :: "history_row \<Rightarrow> database \<Rightarrow> store_error + database" where
  "insert_history row db = exec (db\<lparr>antigravity_tool_history := insert_row (\<lambda>_. row) (antigravity_tool_history db)\<rparr>)"

definition SaveAntigravityToolTurn :: "string \<Rightarrow> resolved_route \<Rightarrow> ag_turn \<Rightarrow> database \<Rightarrow> store_error + database" where
  "SaveAntigravityToolTurn requestID route turn db =
     bindE (query_row (\<lambda>r. r_id r = requestID) (requests db)) (\<lambda>req.
     foldE (\<lambda>call. insert_history (turn_row (r_access_key req) route turn call)) (agt_calls turn) db)"

definition AntigravityToolHistory :: "int option \<Rightarrow> string \<Rightarrow> database \<Rightarrow> store_error + tool_history" where
  "AntigravityToolHistory access cid db =
     bindE (query_row (\<lambda>h. h_call h = cid \<and> h_access_key h = access) (antigravity_tool_history db)) (\<lambda>h.
     case read_turn (h_history h) of
       Inl e \<Rightarrow> Inl (Refused ''invalid tool history'')
     | Inr turn \<Rightarrow> Inr \<lparr>th_provider = h_provider h, th_key = h_key h, th_model = h_model h, th_turn = turn\<rparr>)"

section \<open>The ids in a request\<close>

record history_message =
  hm_type :: string
  hm_call :: string
  hm_tool_call :: string
  hm_calls :: "string list"
  hm_content :: raw_message

definition history_message_struct :: "members \<Rightarrow> history_message decoded" where
  "history_message_struct kvs =
     (let (kind, ok1) = f_string ''type'' kvs; (call, ok2) = f_string ''call_id'' kvs;
          (tool, ok3) = f_string ''tool_call_id'' kvs; (calls, ok4) = f_slice (dec_struct (f_string ''id'')) ''tool_calls'' kvs;
          (content, ok5) = f_raw ''content'' kvs
      in (\<lparr>hm_type = kind, hm_call = call, hm_tool_call = tool, hm_calls = calls, hm_content = content\<rparr>,
          ok1 \<and> ok2 \<and> ok3 \<and> ok4 \<and> ok5))"

definition history_block_struct :: "members \<Rightarrow> (string \<times> string \<times> string) decoded" where
  "history_block_struct kvs =
     (let (kind, ok1) = f_string ''type'' kvs; (i, ok2) = f_string ''id'' kvs; (use, ok3) = f_string ''tool_use_id'' kvs
      in ((kind, i, use), ok1 \<and> ok2 \<and> ok3))"

definition block_ids :: "string \<times> string \<times> string \<Rightarrow> string list" where
  "block_ids = (\<lambda>(kind, i, use).
     (if kind = ''tool_use'' then [i] else []) @ (if kind = ''tool_result'' then [use] else []))"

definition message_ids :: "string \<Rightarrow> history_message \<Rightarrow> string list" where
  "message_ids source m =
     (if source = Chat then hm_tool_call m # hm_calls m
      else if source = Responses then
        (if hm_type m = ''function_call'' \<or> hm_type m = ''function_call_output'' then [hm_call m] else [])
      else if source = Messages then
        (let (blocks, ok) = unm_slice (dec_struct history_block_struct) (hm_content m) in
         if ok then concat (map block_ids blocks) else [])
      else [])"

definition ag_prefix :: string where "ag_prefix = ''call_ag_''"

definition AntigravityHistoryIDs :: "string \<Rightarrow> string \<Rightarrow> go_error + string list" where
  "AntigravityHistoryIDs body source =
     bindE (bindE (unmarshal_text body) (\<lambda>j. okE (dec_map j))) (\<lambda>root.
     let (messages, ok) = unm_slice (dec_struct history_message_struct)
           (entry (if source = Responses then ''input'' else ''messages'') root)
     in Inr (if ok then filter (\<lambda>i. has_prefix i ag_prefix) (concat (map (message_ids source) messages)) else []))"

section \<open>Putting a turn back\<close>

text \<open>
  Values of type \<^verbatim>\<open>any\<close> compared deeply: objects with the same entries, the last member of a name
  counting.
\<close>

fun sort_members :: "json \<Rightarrow> json" where
  "sort_members (JArr js) = JArr (map sort_members js)"
| "sort_members (JObj kvs) = JObj (sort_key fst (object_map (map (\<lambda>kv. (fst kv, sort_members (snd kv))) kvs)))"
| "sort_members j = j"

definition message_calls :: "message \<Rightarrow> tool_call list" where
  "message_calls m = concat (map (\<lambda>b. case b of ToolCallBlock c \<Rightarrow> [c] | _ \<Rightarrow> []) (msg_blocks m))"

definition message_text :: "message \<Rightarrow> string" where
  "message_text m = concat (map (\<lambda>b. case b of TextBlock s \<Rightarrow> s | _ \<Rightarrow> []) (msg_blocks m))"

text \<open>The first turn one of the calls belongs to; a turn without calls counts as none.\<close>

definition turn_of :: "(string \<times> ag_turn) list \<Rightarrow> tool_call list \<Rightarrow> ag_turn option" where
  "turn_of history calls =
     (case filter (\<lambda>c. map_of history (call_id c) \<noteq> None) calls of
        [] \<Rightarrow> None
      | c # _ \<Rightarrow> (case map_of history (call_id c) of
           Some turn \<Rightarrow> if agt_calls turn = [] then None else Some turn
         | None \<Rightarrow> None))"

definition text_or_call :: "block \<Rightarrow> bool" where
  "text_or_call b \<longleftrightarrow> (case b of TextBlock s \<Rightarrow> True | ToolCallBlock c \<Rightarrow> True | _ \<Rightarrow> False)"

definition same_call :: "tool_call \<Rightarrow> tool_call \<Rightarrow> go_error + bool" where
  "same_call call original =
     (case (call_arguments call, call_arguments original) of
        (Some a, Some b) \<Rightarrow> Inr (call_id call = call_id original \<and> call_name call = call_name original
            \<and> sort_members a = sort_members b)
      | _ \<Rightarrow> Inl JsonError)"

fun restore_calls :: "nat \<Rightarrow> tool_call list \<Rightarrow> tool_call list \<Rightarrow> string list \<Rightarrow> go_error + tool_call list" where
  "restore_calls mi (c # cs) (orig # os) (u # us) =
     bindE (same_call c orig) (\<lambda>same.
     bindE (guardE (\<not> same) (Errorf ''messages[%d]: Antigravity tool history has been changed'' [itoa (int mi)])) (\<lambda>_.
     bindE (restore_calls mi cs os us) (\<lambda>rest. Inr (c\<lparr>call_upstream_id := u\<rparr> # rest))))"
| "restore_calls mi (c # cs) (orig # os) [] =
     bindE (same_call c orig) (\<lambda>same. Inl (Errorf (if same then ''index out of range'' else ''messages[%d]: Antigravity tool history has been changed'')
       [itoa (int mi)]))"
| "restore_calls mi cs os us = Inr cs"

fun put_calls :: "block list \<Rightarrow> tool_call list \<Rightarrow> block list" where
  "put_calls (ToolCallBlock c # bs) (c' # cs) = ToolCallBlock c' # put_calls bs cs"
| "put_calls (b # bs) cs = b # put_calls bs cs"
| "put_calls [] cs = []"

text \<open>The text of the turn as the client saw it: that of the parts that are no thoughts.\<close>

definition turn_text :: "ag_turn \<Rightarrow> go_error + string" where
  "turn_text turn =
     bindE (okE (dec_struct (f_slice dec_ag_part ''parts'') (agt_content turn))) (\<lambda>parts.
     Inr (concat (map agp_text (filter (\<lambda>p. \<not> agp_thought p) parts))))"

definition restore_message :: "(string \<times> ag_turn) list \<Rightarrow> nat \<Rightarrow> message \<Rightarrow> go_error + message" where
  "restore_message history mi m =
     (let calls = message_calls m; at = (\<lambda>what. Errorf what [itoa (int mi)]) in
      case turn_of history calls of
        None \<Rightarrow> Inr m
      | Some turn \<Rightarrow>
          bindE (guardE (msg_role m \<noteq> ''assistant'') (at ''messages[%d]: Antigravity tool calls belong to the assistant'')) (\<lambda>_.
          bindE (guardE (\<not> list_all text_or_call (msg_blocks m)) (at ''messages[%d]: Antigravity tool history with other content'')) (\<lambda>_.
          bindE (guardE (length calls \<noteq> length (agt_calls turn))
            (at ''messages[%d]: Antigravity tool history lacks calls or mixes answers'')) (\<lambda>_.
          bindE (restore_calls mi calls (agt_calls turn) (agt_upstream_ids turn)) (\<lambda>restored.
          bindE (turn_text turn) (\<lambda>original.
          bindE (guardE (message_text m \<noteq> original) (at ''messages[%d]: Antigravity text has been changed'')) (\<lambda>_.
          Inr (m\<lparr>msg_blocks := put_calls (msg_blocks m) restored, msg_antigravity := Some (agt_content turn)\<rparr>))))))))"

definition RestoreAntigravityHistory :: "request \<Rightarrow> (string \<times> ag_turn) list \<Rightarrow> go_error + request" where
  "RestoreAntigravityHistory request history =
     bindE (mapE (restore_message history) (req_messages request)) (\<lambda>ms. Inr (request\<lparr>req_messages := ms\<rparr>))"

section \<open>Laws\<close>

lemma restore_calls_same:
  "restore_calls mi cs os us = Inr rs \<Longrightarrow> length cs = length os \<Longrightarrow>
   length rs = length cs \<and> list_all2 (\<lambda>c orig. call_id c = call_id orig \<and> call_name c = call_name orig
     \<and> map_option sort_members (call_arguments c) = map_option sort_members (call_arguments orig)) cs os
   \<and> (length us = length os \<longrightarrow> map call_upstream_id rs = us)"
proof (induction mi cs os us arbitrary: rs rule: restore_calls.induct)
  case (1 mi c cs orig os u us)
  then show ?case
    by (auto simp: same_call_def elim!: bindE_InrE split: option.splits)
qed (auto elim!: bindE_InrE)

text \<open>A message that is restored is the stored turn, call by call and with its text.\<close>

lemma restore_message_turn:
  assumes "restore_message history mi m = Inr m'" "turn_of history (message_calls m) = Some turn"
  shows "msg_role m = ''assistant'' \<and> msg_antigravity m' = Some (agt_content turn) \<and> turn_text turn = Inr (message_text m)
     \<and> list_all2 (\<lambda>c orig. call_id c = call_id orig \<and> call_name c = call_name orig
         \<and> map_option sort_members (call_arguments c) = map_option sort_members (call_arguments orig))
       (message_calls m) (agt_calls turn)"
  using assms restore_calls_same
  by (fastforce simp: restore_message_def Let_def elim!: bindE_InrE)

lemma restore_message_other:
  "turn_of history (message_calls m) = None \<Longrightarrow> restore_message history mi m = Inr m"
  by (simp add: restore_message_def)

text \<open>A turn survives being written to the database and read.\<close>

definition wf_turn :: "ag_turn \<Rightarrow> bool" where
  "wf_turn turn \<longleftrightarrow> wf_json (agt_content turn)
     \<and> (\<forall>c \<in> set (agt_calls turn). \<exists>j. call_arguments c = Some j \<and> wf_json j)"

lemma turn_names:
  "fold_case ''Content'' = ''content''" "fold_case ''Calls'' = ''calls''" "fold_case ''UpstreamIDs'' = ''upstreamids''"
  "fold_case ''ID'' = ''id''" "fold_case ''UpstreamID'' = ''upstreamid''" "fold_case ''Name'' = ''name''"
  "fold_case ''Arguments'' = ''arguments''"
  by code_simp+

lemma call_struct_json: "call_arguments c = Some j \<Longrightarrow> dec_struct call_struct (call_json c) = (c, True)"
  by (simp add: call_json_def call_struct_def field_single fields_of_def turn_names raw_json_def)

lemma turn_roundtrip:
  assumes "wf_turn turn"
  shows "read_turn (turn_document turn) = Inr turn"
proof -
  have "list_all wf_json (map call_json (agt_calls turn))"
    using assms by (auto simp: wf_turn_def list_all_iff call_json_def raw_json_def)
  with assms have "wf_json (JObj [(''Content'', agt_content turn), (''Calls'', JArr (map call_json (agt_calls turn))),
      (''UpstreamIDs'', JArr (map JStr (agt_upstream_ids turn)))])"
    by (auto simp: wf_turn_def list_all_iff)
  note parse = parse_json_print [OF this]
  have "dec_elems (dec_struct call_struct) (map call_json cs) = (cs, True)" if "\<forall>c \<in> set cs. call_arguments c \<noteq> None" for cs
    using that call_struct_json by (induction cs) auto
  moreover have "\<forall>c \<in> set (agt_calls turn). call_arguments c \<noteq> None" using assms by (auto simp: wf_turn_def)
  moreover have "dec_elems (dec_string []) (map JStr ids) = (ids, True)" for ids by (induction ids) auto
  ultimately show ?thesis
    unfolding read_turn_def unmarshal_text_def turn_document_def parse
    by (simp add: turn_struct_def field_single fields_of_def turn_names raw_json_def)
qed

text \<open>A turn is found again under each of its ids, by the access key it was stored for and by no other.\<close>

lemma saved_rows:
  assumes "SaveAntigravityToolTurn requestID route turn db = Inr db'"
  shows "\<exists>req \<in> set (rows (requests db)). r_id req = requestID
     \<and> rows (antigravity_tool_history db') =
          rows (antigravity_tool_history db) @ map (turn_row (r_access_key req) route turn) (agt_calls turn)
     \<and> (agt_calls turn \<noteq> [] \<longrightarrow> schema_ok db')"
proof -
  have run: "foldE (\<lambda>call. insert_history (turn_row access route turn call)) cs db = Inr db' \<Longrightarrow>
    rows (antigravity_tool_history db') = rows (antigravity_tool_history db) @ map (turn_row access route turn) cs
    \<and> (cs \<noteq> [] \<longrightarrow> schema_ok db')" for access cs db
  proof (induction cs arbitrary: db)
    case Nil
    then show ?case by simp
  next
    case (Cons c cs)
    then obtain d where d: "insert_history (turn_row access route turn c) db = Inr d"
      and rest: "foldE (\<lambda>call. insert_history (turn_row access route turn call)) cs d = Inr db'"
      by (auto elim!: bindE_InrE)
    from d have ok: "schema_ok d"
      and rows: "rows (antigravity_tool_history d) = rows (antigravity_tool_history db) @ [turn_row access route turn c]"
      by (auto simp: insert_history_def exec_Inr)
    from Cons.IH [OF rest] rows ok rest show ?case by (cases cs) auto
  qed
  from assms show ?thesis
    by (auto simp: SaveAntigravityToolTurn_def elim!: bindE_InrE dest!: run query_row_Inr)
qed

lemma saved_turn_found:
  assumes "SaveAntigravityToolTurn requestID route turn db = Inr db'" "wf_turn turn"
  shows "\<exists>req \<in> set (rows (requests db)). r_id req = requestID \<and> (\<forall>c \<in> set (agt_calls turn). \<forall>access.
        AntigravityToolHistory access (call_id c) db' =
          (if access = r_access_key req
           then Inr \<lparr>th_provider = prov_id (Provider route), th_key = key_id (Key route), th_model = UpstreamModel route, th_turn = turn\<rparr>
           else Inl NoRows))"
proof -
  from saved_rows [OF assms(1)] obtain req where req: "req \<in> set (rows (requests db))" "r_id req = requestID"
    and rows: "rows (antigravity_tool_history db') =
      rows (antigravity_tool_history db) @ map (turn_row (r_access_key req) route turn) (agt_calls turn)"
    and ok: "agt_calls turn \<noteq> [] \<longrightarrow> schema_ok db'" by blast
  have "AntigravityToolHistory access (call_id c) db' =
      (if access = r_access_key req
       then Inr \<lparr>th_provider = prov_id (Provider route), th_key = key_id (Key route), th_model = UpstreamModel route, th_turn = turn\<rparr>
       else Inl NoRows)" if c: "c \<in> set (agt_calls turn)" for c access
  proof -
    let ?row = "turn_row (r_access_key req) route turn c"
    have mem: "?row \<in> set (rows (antigravity_tool_history db'))" using c by (simp add: rows)
    have "schema_ok db'" using ok c by auto
    then have "unique h_call (antigravity_tool_history db')" by (simp add: schema_ok_def unique_columns_def)
    from select_one [OF this mem]
    have only: "select (\<lambda>h. h_call h = call_id c) (antigravity_tool_history db') = [?row]"
      by (simp add: turn_row_def)
    have "select (\<lambda>h. h_call h = call_id c \<and> h_access_key h = access) (antigravity_tool_history db') =
        filter (\<lambda>h. h_access_key h = access) (select (\<lambda>h. h_call h = call_id c) (antigravity_tool_history db'))"
      by (simp add: select_def conj_commute)
    then have "query_row (\<lambda>h. h_call h = call_id c \<and> h_access_key h = access) (antigravity_tool_history db') =
        (if access = r_access_key req then Inr ?row else Inl NoRows)"
      unfolding only by (simp add: query_row_def turn_row_def)
    then show ?thesis using turn_roundtrip [OF assms(2)] by (simp add: AntigravityToolHistory_def turn_row_def)
  qed
  with req show ?thesis by blast
qed

end
