(* ===== verification/AntigravityRequest.thy ===== *)
theory AntigravityRequest
  imports ToolHistory GoStrings
begin

text \<open>
  Requests to Antigravity (internal/protocol/antigravity_request.go): the check that a body has no
  field the upstream could not honour, and the document that is sent.
\<close>

section \<open>Fields\<close>

definition listed :: "string \<Rightarrow> string \<Rightarrow> bool" where
  "listed allowed name \<longleftrightarrow> contains_text ('' '' @ allowed @ '' '') ('' '' @ name @ '' '')"

definition ignored_field :: "string \<Rightarrow> string \<Rightarrow> string \<Rightarrow> bool" where
  "ignored_field path allowed name \<longleftrightarrow>
     name = ''cache_control'' \<and> listed allowed ''cache_control'' \<or> name = ''prompt_cache_key'' \<and> path = ''$''"

text \<open>An object with nothing but supported fields; the result has the paths of those that are ignored.\<close>

definition agObject :: "raw_message \<Rightarrow> string \<Rightarrow> string \<Rightarrow> go_error + members \<times> string list" where
  "agObject raw path allowed =
     (case raw of
        Some (JObj kvs) \<Rightarrow>
          (let m = object_map kvs; used = map fst (filter (\<lambda>kv. snd kv \<noteq> JNull) m);
               unsupported = filter (\<lambda>f. \<not> ignored_field path allowed f \<and> \<not> listed allowed f) used
           in if unsupported \<noteq> []
              then Inl (Errorf ''Antigravity does not support fields: %s'' [join '', '' (sort (map (\<lambda>f. path @ ''.'' @ f) unsupported))])
              else Inr (m, map (\<lambda>f. path @ ''.'' @ f) (filter (ignored_field path allowed) used)))
      | _ \<Rightarrow> Inl (Errorf ''%s must be a JSON object'' [path]))"

definition agString :: "raw_message \<Rightarrow> string" where
  "agString raw = fst (unm_string raw)"

definition boolean_or_absent :: "raw_message \<Rightarrow> bool" where
  "boolean_or_absent raw \<longleftrightarrow> \<not> agPresent raw \<or> raw = Some (JBool True) \<or> raw = Some (JBool False)"

section \<open>Content\<close>

definition content_fields :: "string \<Rightarrow> string option" where
  "content_fields kind =
     (if kind \<in> {''text'', ''input_text'', ''output_text''} then Some ''type text cache_control''
      else if kind = ''image_url'' then Some ''type image_url''
      else if kind = ''input_image'' then Some ''type image_url detail''
      else if kind = ''image'' then Some ''type source cache_control''
      else if kind = ''tool_use'' then Some ''type id name input cache_control''
      else if kind = ''tool_result'' then Some ''type tool_use_id content is_error cache_control''
      else None)"

text \<open>The objects inside an image block.\<close>

definition image_objects :: "string \<Rightarrow> members \<Rightarrow> string \<Rightarrow> go_error + string list" where
  "image_objects kind block bp =
     (if kind = ''image_url'' then bindE (agObject (map_of block ''image_url'') (bp @ ''.image_url'') ''url detail'') (\<lambda>x. Inr (snd x))
      else if kind = ''image'' then
        bindE (agObject (map_of block ''source'') (bp @ ''.source'') ''type media_type data url'') (\<lambda>x. Inr (snd x))
      else Inr [])"

definition indexed :: "string \<Rightarrow> nat \<Rightarrow> string" where
  "indexed path i = path @ ''['' @ nat_str i @ '']''"

definition agBlock :: "json \<Rightarrow> string \<Rightarrow> go_error + (string \<times> members) \<times> string list" where
  "agBlock b bp =
     bindE (okE (dec_struct (f_string ''type'') b)) (\<lambda>kind.
     case content_fields kind of
       None \<Rightarrow> Inl (Errorf ''%s.type: Antigravity does not support %q'' [bp, kind])
     | Some allowed \<Rightarrow>
         bindE (agObject (Some b) bp allowed) (\<lambda>(block, ignored).
         bindE (image_objects kind block bp) (\<lambda>more_ignored. Inr ((kind, block), ignored @ more_ignored))))"

lemma object_map_sub: "map_of (object_map kvs) k = Some v \<Longrightarrow> \<exists>k'. (k', v) \<in> set kvs"
proof -
  have "map_of (fold (\<lambda>kv. put (fst kv) (snd kv)) kvs m) k = Some v \<Longrightarrow> (\<exists>k'. (k', v) \<in> set kvs) \<or> map_of m k = Some v" for m
    by (induction kvs arbitrary: m) (fastforce split: if_splits)+
  from this [of "[]"] show "map_of (object_map kvs) k = Some v \<Longrightarrow> ?thesis" by (simp add: object_map_def)
qed

lemma size_member: "(k, v) \<in> set kvs \<Longrightarrow> size v < size (JObj kvs)"
  by (induction kvs) (auto simp: less_Suc_eq_le)

lemma agBlock_size: "agBlock b bp = Inr ((kind, block), ig) \<Longrightarrow> map_of block k = Some v \<Longrightarrow> size v < size b"
  using size_member object_map_sub
  by (fastforce simp: agBlock_def agObject_def Let_def elim!: bindE_InrE split: option.splits json.splits if_splits)

lemma mapE_from_cong [fundef_cong]:
  "xs = ys \<Longrightarrow> (\<And>i x. x \<in> set ys \<Longrightarrow> f i x = g i x) \<Longrightarrow> mapE_from n f xs = mapE_from n g ys"
  by (induction xs arbitrary: ys n) auto

function agContent :: "json \<Rightarrow> string \<Rightarrow> go_error + string list" where
  "agContent j path =
     (case j of
        JNull \<Rightarrow> Inr []
      | JStr s \<Rightarrow> Inr []
      | JArr blocks \<Rightarrow>
          bindE (mapE (\<lambda>i b. bindE (agBlock b (indexed path i)) (\<lambda>x.
              if fst (fst x) = ''tool_result'' then
                (case map_of (snd (fst x)) ''content'' of
                   None \<Rightarrow> Inr (snd x)
                 | Some v \<Rightarrow> bindE (agContent v (indexed path i @ ''.content'')) (\<lambda>more_ignored. Inr (snd x @ more_ignored)))
              else Inr (snd x))) blocks) (\<lambda>ignored. Inr (concat ignored))
      | _ \<Rightarrow> Inl (Errorf ''%s must be a text or an array'' [path]))"
  by pat_completeness auto
termination
proof (relation "measure (\<lambda>(j, path). size j)")
  fix j :: json and path blocks i b x v
  assume "j = JArr blocks" "b \<in> set blocks" "agBlock b (indexed path i) = Inr x" "map_of (snd (fst x)) ''content'' = Some v"
  moreover from this have "size v < size b" by (cases x) (auto dest: agBlock_size)
  moreover from calculation have "size b < size j" by (auto simp: less_Suc_eq_le size_list_estimation')
  ultimately show "((v, indexed path i @ ''.content''), j, path) \<in> measure (\<lambda>(j, path). size j)" by simp
qed simp

declare agContent.simps [simp del]

definition content_of :: "raw_message \<Rightarrow> string \<Rightarrow> go_error + string list" where
  "content_of raw path = (case raw of None \<Rightarrow> Inr [] | Some j \<Rightarrow> agContent j path)"

section \<open>The check of a body\<close>

definition root_fields :: "string \<Rightarrow> string option" where
  "root_fields source =
     (let common = ''model tools tool_choice stream temperature top_p prompt_cache_key'' in
      if source = Chat then Some (common @ '' messages max_tokens max_completion_tokens stop parallel_tool_calls stream_options'')
      else if source = Responses then Some (common @ '' input instructions max_output_tokens parallel_tool_calls store'')
      else if source = Messages then Some (common @ '' messages system max_tokens stop_sequences'')
      else None)"

definition check_flags :: "members \<Rightarrow> go_error + string list" where
  "check_flags root =
     bindE (guardE (agPresent (map_of root ''store'') \<and> map_of root ''store'' \<noteq> Some (JBool False))
       (Errorf ''$.store must be false'' [])) (\<lambda>_.
     bindE (guardE (agPresent (map_of root ''parallel_tool_calls'') \<and> map_of root ''parallel_tool_calls'' \<noteq> Some (JBool True))
       (Errorf ''$.parallel_tool_calls: Antigravity cannot rule out parallel calls'' [])) (\<lambda>_.
     if agPresent (map_of root ''stream_options'') then
       bindE (agObject (map_of root ''stream_options'') ''$.stream_options'' ''include_usage'') (\<lambda>(options, ignored).
       bindE (guardE (\<not> boolean_or_absent (map_of options ''include_usage''))
         (Errorf ''$.stream_options.include_usage must be a boolean'' [])) (\<lambda>_. Inr ignored))
     else Inr []))"

definition check_system :: "members \<Rightarrow> go_error + string list" where
  "check_system root =
     bindE (mapE (\<lambda>_ name. if agPresent (map_of root name) then content_of (map_of root name) (''$.'' @ name) else Inr [])
       [''instructions'', ''system'']) (\<lambda>igs. Inr (concat igs))"

definition check_tool_calls :: "raw_message \<Rightarrow> string \<Rightarrow> go_error + string list" where
  "check_tool_calls raw path =
     (if \<not> agPresent raw then Inr []
      else case raw of
        Some (JArr calls) \<Rightarrow>
          bindE (mapE (\<lambda>j call.
            bindE (agObject (Some call) (indexed (path @ ''.tool_calls'') j) ''id type function'') (\<lambda>(obj, ig1).
            bindE (agObject (map_of obj ''function'') (indexed (path @ ''.tool_calls'') j @ ''.function'') ''name arguments'') (\<lambda>(_, ig2).
            Inr (ig1 @ ig2)))) calls) (\<lambda>igs. Inr (concat igs))
      | _ \<Rightarrow> Inl JsonError)"

definition message_fields :: "string \<Rightarrow> string" where
  "message_fields source = ''role content'' @ (if source = Chat then '' tool_calls tool_call_id'' else [])
     @ (if source = Responses then '' type id call_id name arguments output'' else [])"

text \<open>One message; \<open>seen\<close> says that content has come before, so that no system message may follow.\<close>

definition check_message :: "string \<Rightarrow> string \<Rightarrow> nat \<times> json \<Rightarrow> bool \<times> string list \<Rightarrow> go_error + bool \<times> string list" where
  "check_message source name = (\<lambda>(i, message) (seen, ignored).
     let path = indexed (''$.'' @ name) i in
     bindE (agObject (Some message) path (message_fields source)) (\<lambda>(item, ig1).
     let role = agString (map_of item ''role''); leading = (role = ''system'' \<or> role = ''developer'') in
     bindE (guardE (leading \<and> seen) (Errorf ''%s.role: system or developer message in the middle'' [path])) (\<lambda>_.
     bindE (mapE (\<lambda>_ f. if agPresent (map_of item f) then content_of (map_of item f) (path @ ''.'' @ f) else Inr [])
       [''content'', ''output'']) (\<lambda>ig2.
     bindE (check_tool_calls (map_of item ''tool_calls'') path) (\<lambda>ig3.
     Inr (seen \<or> \<not> leading, ignored @ ig1 @ concat ig2 @ ig3))))))"

definition check_messages :: "string \<Rightarrow> members \<Rightarrow> go_error + string list" where
  "check_messages source root =
     (let name = (if source = Responses then ''input'' else ''messages''); raw = map_of root name in
      case raw of
        None \<Rightarrow> Inl (Errorf ''$.%s must not be empty'' [name])
      | Some j \<Rightarrow>
          if source = Responses \<and> raw_is_string raw then Inr []
          else bindE (case j of JArr js \<Rightarrow> Inr js | JNull \<Rightarrow> Inr [] | _ \<Rightarrow> Inl (Errorf ''$.%s must be an array'' [name])) (\<lambda>messages.
               bindE (foldE (check_message source name) (enumerate 0 messages) (False, [])) (\<lambda>(_, ignored). Inr ignored)))"

definition tool_fields :: "string \<Rightarrow> string" where
  "tool_fields source =
     (if source = Chat then ''type function''
      else if source = Messages then ''type name description input_schema cache_control''
      else ''type name description parameters strict'')"

definition check_tool :: "string \<Rightarrow> nat \<Rightarrow> json \<Rightarrow> go_error + string list" where
  "check_tool source i raw =
     (let path = indexed ''$.tools'' i in
      bindE (agObject (Some raw) path (tool_fields source)) (\<lambda>(tool, ig1).
      bindE (if source = Chat
             then agObject (map_of tool ''function'') (path @ ''.function'') ''name description parameters strict''
             else Inr (tool, [])) (\<lambda>(tool, ig2).
      bindE (guardE (\<not> boolean_or_absent (map_of tool ''strict'')) (Errorf ''%s.strict must be a boolean'' [path])) (\<lambda>_.
      Inr (ig1 @ ig2)))))"

definition check_tools :: "string \<Rightarrow> members \<Rightarrow> go_error + string list" where
  "check_tools source root =
     (if \<not> agPresent (map_of root ''tools'') then Inr []
      else case map_of root ''tools'' of
        Some (JArr tools) \<Rightarrow> bindE (mapE (check_tool source) tools) (\<lambda>igs. Inr (concat igs))
      | _ \<Rightarrow> Inl JsonError)"

definition choice_kind :: "string \<Rightarrow> members \<Rightarrow> go_error + unit" where
  "choice_kind source object =
     (let kind = agString (map_of object ''type'') in
      if source = Messages then
        bindE (guardE (kind \<notin> {''auto'', ''any'', ''none'', ''tool''}) (Errorf ''$.tool_choice.type is not supported'' [])) (\<lambda>_.
        guardE (kind = ''tool'' \<and> agString (map_of object ''name'') = []) (Errorf ''$.tool_choice.name must not be empty'' []))
      else
        bindE (guardE (kind \<noteq> ''function'') (Errorf ''$.tool_choice.type must be function'' [])) (\<lambda>_.
        guardE (source = Responses \<and> agString (map_of object ''name'') = [] \<or> source = Chat \<and> \<not> agPresent (map_of object ''function''))
          (Errorf ''$.tool_choice without tool name'' [])))"

definition check_choice :: "string \<Rightarrow> members \<Rightarrow> go_error + string list" where
  "check_choice source root =
     (let choice = map_of root ''tool_choice'' in
      if agPresent choice \<and> \<not> raw_is_string choice then
        bindE (agObject choice ''$.tool_choice'' (if source = Chat then ''type function'' else ''type name'')) (\<lambda>(object, ig1).
        bindE (if source = Chat \<and> agPresent (map_of object ''function'') then
                 bindE (agObject (map_of object ''function'') ''$.tool_choice.function'' ''name'') (\<lambda>(function, ig2).
                 bindE (guardE (agString (map_of function ''name'') = []) (Errorf ''$.tool_choice.function.name must not be empty'' [])) (\<lambda>_.
                 Inr ig2))
               else Inr []) (\<lambda>ig2.
        bindE (choice_kind source object) (\<lambda>_. Inr (ig1 @ ig2))))
      else bindE (guardE (source = Messages \<and> raw_is_string choice) (Errorf ''$.tool_choice must be an object'' [])) (\<lambda>_. Inr []))"

definition validateAntigravityInput :: "string \<Rightarrow> string \<Rightarrow> go_error + string list" where
  "validateAntigravityInput body source =
     bindE (case root_fields source of None \<Rightarrow> Inl (Errorf ''unsupported client protocol %s'' [source]) | Some f \<Rightarrow> Inr f) (\<lambda>allowed.
     bindE (agObject (parse_json body) ''$'' allowed) (\<lambda>(root, ig0).
     bindE (check_flags root) (\<lambda>ig1.
     bindE (check_system root) (\<lambda>ig2.
     bindE (check_messages source root) (\<lambda>ig3.
     bindE (check_tools source root) (\<lambda>ig4.
     bindE (check_choice source root) (\<lambda>ig5.
     Inr (ig0 @ ig1 @ ig2 @ ig3 @ ig4 @ ig5))))))))"

section \<open>The request\<close>

text \<open>The pattern \<^verbatim>\<open>^[a-zA-Z_][a-zA-Z0-9_.-]{0,63}$\<close>.\<close>

definition letter :: "char \<Rightarrow> bool" where
  "letter c \<longleftrightarrow> (let n = of_char c :: nat in 65 \<le> n \<and> n \<le> 90 \<or> 97 \<le> n \<and> n \<le> 122)"

definition antigravityToolName :: "string \<Rightarrow> bool" where
  "antigravityToolName name \<longleftrightarrow> (case name of
       [] \<Rightarrow> False
     | c # s \<Rightarrow> (letter c \<or> c = CHR ''_'') \<and> length s \<le> 63 \<and> list_all (\<lambda>d. letter d \<or> is_digit d \<or> d \<in> set ''_.-'') s)"

definition check_declared_tool :: "nat \<Rightarrow> tool \<Rightarrow> go_error + unit" where
  "check_declared_tool i t =
     bindE (guardE (\<not> antigravityToolName (tool_name t)) (Errorf ''invalid Antigravity tool name: %q'' [tool_name t])) (\<lambda>_.
     bindE (guardE (tool_kind t \<noteq> ''function'') (Errorf ''Antigravity does not support %s tools'' [tool_kind t])) (\<lambda>_.
     guardE (tool_strict t = Some True) (Errorf ''tools.%s.strict has no equivalent upstream'' [tool_name t])))"

definition check_choice_mode :: "request \<Rightarrow> go_error + unit" where
  "check_choice_mode r =
     (let mode = choice_mode (req_tool_choice r) in
      bindE (guardE (mode \<notin> {[], ''auto'', ''none'', ''required'', ''tool''}) (Errorf ''unsupported tool_choice: %s'' [mode])) (\<lambda>_.
      guardE (mode = ''tool'' \<and> choice_name (req_tool_choice r) \<notin> tool_name ` set (req_tools r))
        (Errorf ''tool_choice names an undeclared tool %q'' [choice_name (req_tool_choice r)])))"

definition PrepareAntigravityRequest :: "string \<Rightarrow> string \<Rightarrow> string \<Rightarrow> int \<Rightarrow> int \<Rightarrow> go_error + request \<times> string list" where
  "PrepareAntigravityRequest body source model defaultMax maximum =
     bindE (validateAntigravityInput body source) (\<lambda>ignored.
     bindE (DecodeRequest body source) (\<lambda>request.
     let limit = (case req_max_output request of None \<Rightarrow> defaultMax | Some n \<Rightarrow> n);
         request = request\<lparr>req_model := model, req_max_output := Some limit\<rparr> in
     bindE (guardE (limit \<le> 0 \<or> maximum < limit) (Errorf ''the maximum of output tokens is between 1 and %d'' [itoa maximum])) (\<lambda>_.
     bindE (mapE check_declared_tool (req_tools request)) (\<lambda>_.
     bindE (check_choice_mode request) (\<lambda>_. Inr (request, sort ignored))))))"

section \<open>The document\<close>

text \<open>An entry of \<^verbatim>\<open>contents\<close>: a stored turn as it was, or a role with parts.\<close>

datatype content = Stored json | Content string "gval list"

record encoding =
  en_contents :: "content list"
  en_calls :: "(string \<times> tool_call) list"
  en_results :: bool

definition result_part :: "tool_call \<Rightarrow> tool_result \<Rightarrow> gval" where
  "result_part call result =
     (let response = [(''name'', GStr (call_name call)),
            (''response'', GMap [(if result_is_error result then ''error'' else ''result'', GStr (result_content result))])];
          identified = (if call_upstream_id call \<noteq> [] then [(''id'', GStr (call_upstream_id call))]
            else if \<not> has_prefix (call_id call) ag_prefix then [(''id'', GStr (call_id call))] else [])
      in GMap [(''functionResponse'', GMap (response @ identified))])"

text \<open>One block: its part, and the calls known so far.\<close>

definition encode_part ::
    "string \<Rightarrow> block \<Rightarrow> (string \<times> tool_call) list \<Rightarrow> go_error + gval \<times> (string \<times> tool_call) list" where
  "encode_part path b calls =
     (case b of
        TextBlock s \<Rightarrow> Inr (GMap [(''text'', GStr s)], calls)
      | ImageBlock img \<Rightarrow>
          bindE (guardE (src_kind (img_source img) \<noteq> ImageBase64)
            (Errorf ''%s: Antigravity takes images as base64 or data URL'' [path])) (\<lambda>_.
          bindE (guardE (img_detail img \<noteq> None \<and> img_detail img \<noteq> Some ''auto'')
            (Errorf ''%s.detail has no equivalent upstream'' [path])) (\<lambda>_.
          Inr (GMap [(''inlineData'', GMap [(''mimeType'', GStr (src_media_type (img_source img))), (''data'', GStr (src_data (img_source img)))])], calls)))
      | ToolCallBlock call \<Rightarrow>
          (case call_arguments call of
             None \<Rightarrow> Inl (Errorf ''%s: tool call without id, name or valid arguments'' [path])
           | Some args \<Rightarrow>
               bindE (guardE (call_id call = [] \<or> call_name call = [])
                 (Errorf ''%s: tool call without id, name or valid arguments'' [path])) (\<lambda>_.
               bindE (guardE (map_of calls (call_id call) \<noteq> None) (Errorf ''%s: duplicate tool call id'' [path])) (\<lambda>_.
               Inr (GMap [(''functionCall'', GMap [(''id'', GStr (call_id call)), (''name'', GStr (call_name call)), (''args'', GRaw args)])],
                    put (call_id call) call calls))))
      | ToolResultBlock result \<Rightarrow>
          (case map_of calls (result_call_id result) of
             None \<Rightarrow> Inl (Errorf ''%s: no call for the tool result %q'' [path, result_call_id result])
           | Some call \<Rightarrow> Inr (result_part call result, calls))
      | ReasoningBlock s \<Rightarrow> Inl (Errorf ''%s: Antigravity does not support reasoning in the history'' [path]))"

fun encode_parts ::
    "string \<Rightarrow> nat \<Rightarrow> block list \<Rightarrow> (string \<times> tool_call) list \<Rightarrow> go_error + gval list \<times> (string \<times> tool_call) list" where
  "encode_parts path i [] calls = Inr ([], calls)"
| "encode_parts path i (b # bs) calls =
     bindE (encode_part (indexed path i) b calls) (\<lambda>(part, calls').
     bindE (encode_parts path (Suc i) bs calls') (\<lambda>(parts, calls''). Inr (part # parts, calls'')))"

definition only_results :: "block list \<Rightarrow> bool" where
  "only_results bs \<longleftrightarrow> bs \<noteq> [] \<and> list_all (\<lambda>b. case b of ToolResultBlock r \<Rightarrow> True | _ \<Rightarrow> False) bs"

definition note_call :: "nat \<Rightarrow> tool_call \<Rightarrow> (string \<times> tool_call) list \<Rightarrow> go_error + (string \<times> tool_call) list" where
  "note_call mi call calls =
     bindE (guardE (map_of calls (call_id call) \<noteq> None) (Errorf ''messages[%d]: duplicate tool call id'' [itoa (int mi)])) (\<lambda>_.
     Inr (put (call_id call) call calls))"

text \<open>Results that follow results go into the same entry.\<close>

fun append_parts :: "content list \<Rightarrow> gval list \<Rightarrow> content list" where
  "append_parts [Content role parts] new = [Content role (parts @ new)]"
| "append_parts (c # cs) new = c # append_parts cs new"
| "append_parts [] new = []"

definition encode_message :: "nat \<times> message \<Rightarrow> encoding \<Rightarrow> go_error + encoding" where
  "encode_message = (\<lambda>(mi, m) e.
     case msg_antigravity m of
       Some stored \<Rightarrow>
         bindE (foldE (note_call mi) (message_calls m) (en_calls e)) (\<lambda>calls.
         Inr \<lparr>en_contents = en_contents e @ [Stored stored], en_calls = calls, en_results = False\<rparr>)
     | None \<Rightarrow>
         bindE (encode_parts (''messages['' @ nat_str mi @ ''].content'') 0 (msg_blocks m) (en_calls e)) (\<lambda>(parts, calls).
         let results = only_results (msg_blocks m) in
         Inr \<lparr>en_contents = (if results \<and> en_results e then append_parts (en_contents e) parts
                 else en_contents e @ [Content (if msg_role m = ''assistant'' then ''model'' else ''user'') parts]),
              en_calls = calls, en_results = results\<rparr>))"

definition encode_contents :: "message list \<Rightarrow> go_error + content list" where
  "encode_contents ms =
     bindE (foldE encode_message (enumerate 0 ms) \<lparr>en_contents = [], en_calls = [], en_results = False\<rparr>) (\<lambda>e. Inr (en_contents e))"

definition content_value :: "content \<Rightarrow> gval" where
  "content_value c = (case c of Stored j \<Rightarrow> GRaw j | Content role parts \<Rightarrow> GMap [(''role'', GStr role), (''parts'', GArr parts)])"

definition generation_config :: "request \<Rightarrow> gmap" where
  "generation_config r =
     [(''maxOutputTokens'', g_ptr_int (req_max_output r))]
     @ (case req_temperature r of None \<Rightarrow> [] | Some t \<Rightarrow> [(''temperature'', GFloat t)])
     @ (case req_top_p r of None \<Rightarrow> [] | Some t \<Rightarrow> [(''topP'', GFloat t)])
     @ (if req_stop r = [] then [] else [(''stopSequences'', GArr (map GStr (req_stop r)))])"

definition function_declaration :: "tool \<Rightarrow> gval" where
  "function_declaration t = GMap ([(''name'', GStr (tool_name t)), (''description'', GStr (tool_description t))]
     @ (case tool_parameters t of None \<Rightarrow> [] | Some p \<Rightarrow> [(''parameters'', GRaw p)]))"

definition tool_config :: "tool_choice \<Rightarrow> gval" where
  "tool_config c = GMap [(''functionCallingConfig'', GMap
     ((''mode'', GStr (if choice_mode c = ''none'' then ''NONE''
         else if choice_mode c = ''required'' \<or> choice_mode c = ''tool'' then ''ANY'' else ''AUTO''))
      # (if choice_mode c = ''tool'' then [(''allowedFunctionNames'', GArr [GStr (choice_name c)])] else [])))]"

definition inner_request :: "request \<Rightarrow> content list \<Rightarrow> gmap" where
  "inner_request r contents =
     [(''contents'', GArr (map content_value contents)), (''generationConfig'', GMap (generation_config r))]
     @ (if req_instructions r = [] then []
        else [(''systemInstruction'', GMap [(''role'', GStr ''user''),
               (''parts'', GArr (map (\<lambda>i. GMap [(''text'', GStr i)]) (req_instructions r)))])])
     @ (if req_tools r = [] then []
        else [(''tools'', GArr [GMap [(''functionDeclarations'', GArr (map function_declaration (req_tools r)))]]),
              (''toolConfig'', tool_config (req_tool_choice r))])"

definition EncodeAntigravityRequest :: "request \<Rightarrow> string \<Rightarrow> string \<Rightarrow> go_error + string" where
  "EncodeAntigravityRequest r project requestID =
     bindE (encode_contents (req_messages r)) (\<lambda>contents.
     Inr (print_json (marshal (GMap [(''project'', GStr project), (''model'', GStr (req_model r)), (''requestId'', GStr requestID),
       (''userAgent'', GStr ''antigravity''), (''request'', GMap (inner_request r contents))]))))"

end
