(* ===== verification/AntigravitySpec.thy ===== *)
theory AntigravitySpec
  imports AntigravityRequest
begin

text \<open>
  What the requests to Antigravity promise: nothing of a body is dropped without notice, nothing of
  a conversation is lost or reordered, and a stored tool turn goes back upstream as it came.
\<close>

section \<open>The check of a body\<close>













































section \<open>The contents\<close>

text \<open>What a conversation should be sent as: each block by itself, the calls known by their ids.\<close>

definition call_named :: "tool_call list \<Rightarrow> string \<Rightarrow> tool_call option" where
  "call_named calls = map_of (map (\<lambda>c. (call_id c, c)) calls)"

definition sent_part :: "tool_call list \<Rightarrow> block \<Rightarrow> gval" where
  "sent_part calls b = GMap
     (case b of
        TextBlock s \<Rightarrow> [(''text'', GStr s)]
      | ReasoningBlock s \<Rightarrow> []
      | ImageBlock img \<Rightarrow> [(''inlineData'', GMap [(''mimeType'', GStr (src_media_type (img_source img))), (''data'', GStr (src_data (img_source img)))])]
      | ToolCallBlock c \<Rightarrow> [(''functionCall'', GMap [(''id'', GStr (call_id c)), (''name'', GStr (call_name c)), (''args'', GRaw (raw_json (call_arguments c)))])]
      | ToolResultBlock r \<Rightarrow> (case call_named calls (result_call_id r) of
            None \<Rightarrow> []
          | Some c \<Rightarrow> (case result_part c r of GMap m \<Rightarrow> m | _ \<Rightarrow> [])))"

definition answered :: "tool_call list \<Rightarrow> block \<Rightarrow> bool" where
  "answered calls b \<longleftrightarrow> (case b of
       ToolResultBlock r \<Rightarrow> call_named calls (result_call_id r) \<noteq> None
     | ReasoningBlock s \<Rightarrow> False
     | _ \<Rightarrow> True)"

definition sent_parts :: "tool_call list \<Rightarrow> message \<Rightarrow> gval list" where
  "sent_parts calls m = (case msg_antigravity m of Some stored \<Rightarrow> [GRaw stored] | None \<Rightarrow> map (sent_part calls) (msg_blocks m))"

definition content_parts :: "content \<Rightarrow> gval list" where
  "content_parts c = (case c of Stored j \<Rightarrow> [GRaw j] | Content role parts \<Rightarrow> parts)"

definition block_calls :: "block \<Rightarrow> tool_call list" where
  "block_calls b = (case b of ToolCallBlock c \<Rightarrow> [c] | _ \<Rightarrow> [])"

text \<open>The table of calls holds exactly the calls seen so far, no id twice.\<close>

definition known :: "tool_call list \<Rightarrow> (string \<times> tool_call) list \<Rightarrow> bool" where
  "known seen calls \<longleftrightarrow> distinct (map call_id seen) \<and> map_of calls = call_named seen"

lemma call_named_simps [simp]:
  "call_named [] k = None"
  "call_named (c # cs) k = (if k = call_id c then Some c else call_named cs k)"
  by (simp_all add: call_named_def)

lemma call_named_append: "call_named (xs @ ys) k = (case call_named xs k of None \<Rightarrow> call_named ys k | Some c \<Rightarrow> Some c)"
  by (induction xs) simp_all

lemma call_named_None: "call_named cs k = None \<longleftrightarrow> k \<notin> call_id ` set cs"
  by (induction cs) auto

lemma known_put: "known seen calls \<Longrightarrow> map_of calls (call_id c) = None \<Longrightarrow> known (seen @ [c]) (put (call_id c) c calls)"
  by (auto simp: known_def call_named_append call_named_None [symmetric] fun_eq_iff split: option.splits)

lemma known_prefix: "known seen calls \<Longrightarrow> map_of calls \<subseteq>\<^sub>m call_named (seen @ rest)"
  by (auto simp: known_def map_le_def dom_def call_named_append)

lemma encode_part_known:
  "encode_part path b calls = Inr (part, calls') \<Longrightarrow> known seen calls \<Longrightarrow> known (seen @ block_calls b) calls'"
  by (auto simp: encode_part_def block_calls_def intro: known_put elim!: bindE_InrE split: block.splits option.splits)

lemma encode_part_sent:
  "encode_part path b calls = Inr (part, calls') \<Longrightarrow> map_of calls \<subseteq>\<^sub>m call_named all_calls \<Longrightarrow>
   part = sent_part all_calls b \<and> answered all_calls b"
  by (auto simp: encode_part_def sent_part_def answered_def raw_json_def result_part_def Let_def map_le_def dom_def
    elim!: bindE_InrE split: block.splits option.splits)

lemma encode_parts_known:
  "encode_parts path i bs calls = Inr (parts, calls') \<Longrightarrow> known seen calls \<Longrightarrow> known (seen @ concat (map block_calls bs)) calls'"
proof (induction bs arbitrary: i calls parts seen)
  case (Cons b bs)
  then obtain part calls1 where "encode_part (indexed path i) b calls = Inr (part, calls1)"
    and "\<exists>rest. encode_parts path (Suc i) bs calls1 = Inr (rest, calls')" by (auto elim!: bindE_InrE)
  with Cons.IH [of "Suc i" calls1 _ "seen @ block_calls b"] Cons.prems(2) encode_part_known show ?case by fastforce
qed simp

lemma encode_parts_sent:
  "encode_parts path i bs calls = Inr (parts, calls') \<Longrightarrow> known seen calls \<Longrightarrow>
   parts = map (sent_part (seen @ concat (map block_calls bs) @ rest)) bs
   \<and> (\<forall>b \<in> set bs. answered (seen @ concat (map block_calls bs) @ rest) b)"
proof (induction bs arbitrary: i calls parts seen)
  case (Cons b bs)
  then obtain part calls1 parts1 where step: "encode_part (indexed path i) b calls = Inr (part, calls1)"
    and more_parts: "encode_parts path (Suc i) bs calls1 = Inr (parts1, calls')" and parts: "parts = part # parts1"
    by (auto elim!: bindE_InrE)
  from Cons.IH [OF more_parts encode_part_known [OF step Cons.prems(2)]] parts
    encode_part_sent [OF step known_prefix [OF Cons.prems(2)]]
  show ?case by simp
qed simp

text \<open>Where results may be appended, the last entry is one of parts.\<close>

definition open_results :: "encoding \<Rightarrow> bool" where
  "open_results e \<longleftrightarrow> (en_results e \<longrightarrow> (\<exists>pre role parts. en_contents e = pre @ [Content role parts]))"

lemma append_parts_last: "append_parts (pre @ [Content role parts]) new = pre @ [Content role (parts @ new)]"
  by (induction pre rule: induct_list012) simp_all

lemma note_calls_known:
  "foldE (note_call mi) cs calls = Inr calls' \<Longrightarrow> known seen calls \<Longrightarrow> known (seen @ cs) calls'"
  by (induction cs arbitrary: calls seen) (fastforce simp: note_call_def elim!: bindE_InrE dest: known_put)+

lemma message_calls_blocks: "message_calls m = concat (map block_calls (msg_blocks m))"
  by (simp add: message_calls_def block_calls_def [abs_def])

lemma encode_message_sent:
  assumes "encode_message (mi, m) e = Inr e'" "known seen (en_calls e)" "open_results e"
  shows "known (seen @ message_calls m) (en_calls e') \<and> open_results e'
    \<and> concat (map content_parts (en_contents e')) =
        concat (map content_parts (en_contents e)) @ sent_parts (seen @ message_calls m @ rest) m
    \<and> (msg_antigravity m = None \<longrightarrow> (\<forall>b \<in> set (msg_blocks m). answered (seen @ message_calls m @ rest) b))"
proof (cases "msg_antigravity m")
  case (Some stored)
  with assms(1) obtain calls where calls: "foldE (note_call mi) (message_calls m) (en_calls e) = Inr calls"
    and e': "e' = \<lparr>en_contents = en_contents e @ [Stored stored], en_calls = calls, en_results = False\<rparr>"
    by (auto simp: encode_message_def elim!: bindE_InrE)
  from note_calls_known [OF calls assms(2)] Some show ?thesis
    by (simp add: e' open_results_def sent_parts_def content_parts_def)
next
  case None
  with assms(1) obtain parts calls where parts:
      "encode_parts (''messages['' @ nat_str mi @ ''].content'') 0 (msg_blocks m) (en_calls e) = Inr (parts, calls)"
    and e': "e' = \<lparr>en_contents = (if only_results (msg_blocks m) \<and> en_results e then append_parts (en_contents e) parts
        else en_contents e @ [Content (if msg_role m = ''assistant'' then ''model'' else ''user'') parts]),
      en_calls = calls, en_results = only_results (msg_blocks m)\<rparr>"
    by (auto simp: encode_message_def Let_def elim!: bindE_InrE)
  from encode_parts_sent [OF parts assms(2)] encode_parts_known [OF parts assms(2)] None assms(3) show ?thesis
    by (auto simp: e' open_results_def sent_parts_def content_parts_def append_parts_last message_calls_blocks)
qed

lemma encode_messages_sent:
  "foldE encode_message (enumerate mi ms) e = Inr e' \<Longrightarrow> known seen (en_calls e) \<Longrightarrow> open_results e \<Longrightarrow>
   known (seen @ concat (map message_calls ms)) (en_calls e')
   \<and> concat (map content_parts (en_contents e')) = concat (map content_parts (en_contents e))
       @ concat (map (sent_parts (seen @ concat (map message_calls ms))) ms)
   \<and> (\<forall>m \<in> set ms. msg_antigravity m = None \<longrightarrow> (\<forall>b \<in> set (msg_blocks m). answered (seen @ concat (map message_calls ms)) b))"
proof (induction ms arbitrary: mi e seen)
  case (Cons m ms)
  then obtain e1 where step: "encode_message (mi, m) e = Inr e1"
    and rest: "foldE encode_message (enumerate (Suc mi) ms) e1 = Inr e'" by (auto elim!: bindE_InrE)
  note first = encode_message_sent [OF step Cons.prems(2,3)]
  from first [of "[]"] have "known (seen @ message_calls m) (en_calls e1)" "open_results e1" by blast+
  from Cons.IH [OF rest this] first [of "concat (map message_calls ms)"] show ?case by simp
qed simp

text \<open>
  C29. A conversation that is encoded for Antigravity goes upstream complete and in order: the parts
  of all entries, one after the other, are the blocks of all messages, each written on its own, a
  stored turn standing as it was stored; only which results share an entry is up to the encoder. No
  call id occurs twice, and every tool result belongs to a call of the conversation, whose name and
  upstream id it carries.
\<close>

theorem contents_complete:
  assumes "encode_contents ms = Inr contents"
  shows "concat (map content_parts contents) = concat (map (sent_parts (concat (map message_calls ms))) ms)
    \<and> distinct (map call_id (concat (map message_calls ms)))
    \<and> (\<forall>m \<in> set ms. msg_antigravity m = None \<longrightarrow> (\<forall>b \<in> set (msg_blocks m). answered (concat (map message_calls ms)) b))"
proof -
  from assms obtain e where "foldE encode_message (enumerate 0 ms) \<lparr>en_contents = [], en_calls = [], en_results = False\<rparr> = Inr e"
    and "contents = en_contents e" by (auto simp: encode_contents_def elim!: bindE_InrE)
  with encode_messages_sent [OF this(1), of "[]"] show ?thesis
    by (auto simp: known_def open_results_def call_named_def)
qed

definition demo_call :: "string \<Rightarrow> tool_call" where
  "demo_call i = \<lparr>call_id = i, call_upstream_id = [], call_name = ''f'', call_arguments = Some (JObj [])\<rparr>"

definition demo_result :: "string \<Rightarrow> block" where
  "demo_result i = ToolResultBlock \<lparr>result_call_id = i, result_content = ''ok'', result_is_error = False\<rparr>"

definition demo_talk :: "message list" where
  "demo_talk = [message_of ''user'' [TextBlock ''hi''],
     message_of ''assistant'' [ToolCallBlock (demo_call ''a''), ToolCallBlock (demo_call ''b'')],
     message_of ''tool'' [demo_result ''a''], message_of ''tool'' [demo_result ''b'']]"

text \<open>The two results share an entry.\<close>

theorem contents_complete_witness:
  "\<exists>contents. encode_contents demo_talk = Inr contents \<and> length contents = 3
     \<and> concat (map content_parts contents) = concat (map (sent_parts [demo_call ''a'', demo_call ''b'']) demo_talk)"
proof -
  define c where "c = encode_contents demo_talk"
  have ok: "is_ok c \<and> length (projr c) = 3" unfolding c_def by code_simp
  then have c: "encode_contents demo_talk = Inr (projr c)" by (metis is_ok_projr c_def)
  have "concat (map message_calls demo_talk) = [demo_call ''a'', demo_call ''b'']" by code_simp
  with contents_complete [OF c] c ok show ?thesis by auto
qed

section \<open>Stored turns\<close>

text \<open>A message that repeats a turn as the client received it.\<close>

definition same_as :: "tool_call \<Rightarrow> tool_call \<Rightarrow> bool" where
  "same_as c orig \<longleftrightarrow> same_call c orig = Inr True"

definition exact_copy :: "message \<Rightarrow> ag_turn \<Rightarrow> bool" where
  "exact_copy m turn \<longleftrightarrow> msg_role m = ''assistant'' \<and> list_all text_or_call (msg_blocks m)
     \<and> list_all2 same_as (message_calls m) (agt_calls turn) \<and> turn_text turn = Inr (message_text m)"

lemma restore_calls_cases:
  "length cs = length os \<Longrightarrow> length us = length os \<Longrightarrow>
   (case restore_calls mi cs os us of
      Inl e \<Rightarrow> \<not> list_all2 same_as cs os
    | Inr rs \<Rightarrow> list_all2 same_as cs os \<and> length rs = length cs \<and> map call_upstream_id rs = us)"
proof (induction mi cs os us rule: restore_calls.induct)
  case (1 mi c cs orig os u us)
  show ?case
  proof (cases "same_call c orig = Inr True")
    case True
    then show ?thesis using "1.IH" [OF True] "1.prems"
      by (cases "restore_calls mi cs os us") (auto simp: same_as_def)
  next
    case False
    then show ?thesis by (cases "same_call c orig") (auto simp: same_as_def guardE_def)
  qed
qed auto

lemma message_calls_put:
  "length cs = length (concat (map block_calls bs)) \<Longrightarrow> concat (map block_calls (put_calls bs cs)) = cs"
  by (induction bs cs rule: put_calls.induct) (auto simp: block_calls_def split: block.splits)

lemma restore_message_exact:
  assumes "turn_of history (message_calls m) = Some turn" "length (agt_upstream_ids turn) = length (agt_calls turn)"
  shows "case restore_message history mi m of
      Inl e \<Rightarrow> \<not> exact_copy m turn
    | Inr m' \<Rightarrow> exact_copy m turn \<and> msg_antigravity m' = Some (agt_content turn)
        \<and> map call_upstream_id (message_calls m') = agt_upstream_ids turn"
proof (cases "msg_role m = ''assistant'' \<and> list_all text_or_call (msg_blocks m) \<and> length (message_calls m) = length (agt_calls turn)")
  case True
  with restore_calls_cases [of "message_calls m" "agt_calls turn" "agt_upstream_ids turn" mi] assms show ?thesis
    by (cases "restore_calls mi (message_calls m) (agt_calls turn) (agt_upstream_ids turn)"; cases "turn_text turn")
      (auto simp: restore_message_def exact_copy_def guardE_def message_calls_blocks message_calls_put)
next
  case False
  then have "\<not> exact_copy m turn" by (auto simp: exact_copy_def dest: list_all2_lengthD)
  moreover from False have "\<exists>e. restore_message history mi m = Inl e"
    by (auto simp: restore_message_def Let_def assms(1) guardE_def)
  ultimately show ?thesis by auto
qed

text \<open>
  C30. A tool turn that is stored is found again under each of its call ids, as it was, with the
  provider, key and model that answered; it is found with the access key of its request and with no
  other. A message of the client that names one of these calls is replaced by the stored turn exactly
  when it is a copy of it, with the role of the assistant, the same calls and the same text; every
  changed copy is refused.
\<close>

theorem stored_turn_returns:
  assumes "SaveAntigravityToolTurn requestID route turn db = Inr db'" "wf_turn turn"
    and "agt_calls turn \<noteq> []" "length (agt_upstream_ids turn) = length (agt_calls turn)"
  shows "(\<exists>req \<in> set (rows (requests db)). r_id req = requestID \<and> (\<forall>c \<in> set (agt_calls turn). \<forall>access.
        AntigravityToolHistory access (call_id c) db' =
          (if access = r_access_key req
           then Inr \<lparr>th_provider = prov_id (Provider route), th_key = key_id (Key route), th_model = UpstreamModel route, th_turn = turn\<rparr>
           else Inl NoRows)))
    \<and> (\<forall>history m mi. turn_of history (message_calls m) = Some turn \<longrightarrow>
        (case restore_message history mi m of
           Inl e \<Rightarrow> \<not> exact_copy m turn
         | Inr m' \<Rightarrow> exact_copy m turn \<and> msg_antigravity m' = Some (agt_content turn)
             \<and> map call_upstream_id (message_calls m') = agt_upstream_ids turn))"
  using saved_turn_found [OF assms(1,2)] restore_message_exact [OF _ assms(4)] by blast

definition tool_upstream :: provider_input where
  "tool_upstream = \<lparr>pi_kind = [], pi_name = ''p'', pi_auth_type = ''bearer'', pi_auth_header = [],
     pi_static_headers = [], pi_quota_codes = [], pi_endpoints = [(Chat, ''https://u'')],
     pi_keys = [\<lparr>ki_id = 0, ki_name = ''a'', ki_secret = ''s1'', ki_expires_at = None, ki_enabled = None\<rparr>]\<rparr>"

definition tool_database :: database where
  "tool_database = (snd (projr (CreateProvider 0 tool_upstream empty_database)))
     \<lparr>requests := \<lparr>rows = [\<lparr>r_id = ''r'', r_status = ''running'', r_access_key = None, r_model = ''m''\<rparr>], last_id = 1\<rparr>\<rparr>"

definition tool_route :: resolved_route where
  "tool_route = \<lparr>SkipReason = Eligible, VirtualModel = ''m'', CandidateID = 1, CandidateRevision = 1, UpstreamModel = ''real'',
     DefaultMaxOutputTokens = 8, MaxOutputTokens = 9, UpstreamProtocol = Antigravity, UpstreamEndpoint = [],
     Provider = \<lparr>prov_kind = ''antigravity'', prov_id = 1, prov_name = ''p'', prov_enabled = True, prov_auth_type = [],
       prov_auth_header = [], prov_static_headers = [], prov_quota_codes = [], prov_endpoints = [], prov_keys = [], prov_created_at = 0\<rparr>,
     Key = \<lparr>key_id = 1, key_name = ''a'', key_secret = [], key_hint = [], key_position = 0, key_enabled = True,
       key_expires_at = None, key_status = ''available'', key_reason = [], key_recover_at = None, key_last_used = None,
       key_file_name = [], key_access_expires = None, key_revision = 1\<rparr>,
     ProtocolConfig = \<lparr>Protocol = Antigravity, Position = 0, SupportsStream = True, SupportsTools = True,
       SupportsParallelTools = True, EffortLevels = [], SupportsStreamUsage = False\<rparr>\<rparr>"

definition tool_turn :: ag_turn where
  "tool_turn = \<lparr>agt_content = JObj [(''role'', JStr ''model''), (''parts'', JArr [])],
     agt_calls = [demo_call ''call_ag_1''], agt_upstream_ids = [''u1'']\<rparr>"

definition tool_copy :: "string \<Rightarrow> message" where
  "tool_copy name = message_of ''assistant'' [ToolCallBlock ((demo_call ''call_ag_1'')\<lparr>call_name := name\<rparr>)]"

text \<open>The client's copy gets the stored turn back; under another name the call is refused.\<close>

theorem stored_turn_witness:
  "\<exists>db'. SaveAntigravityToolTurn ''r'' tool_route tool_turn tool_database = Inr db'
     \<and> AntigravityToolHistory None ''call_ag_1'' db' =
         Inr \<lparr>th_provider = 1, th_key = 1, th_model = ''real'', th_turn = tool_turn\<rparr>
     \<and> AntigravityToolHistory (Some 7) ''call_ag_1'' db' = Inl NoRows
     \<and> is_ok (restore_message [(''call_ag_1'', tool_turn)] 0 (tool_copy ''f''))
     \<and> \<not> is_ok (restore_message [(''call_ag_1'', tool_turn)] 0 (tool_copy ''g''))"
proof -
  define d where "d = SaveAntigravityToolTurn ''r'' tool_route tool_turn tool_database"
  have "is_ok d" unfolding d_def by code_simp
  then have d: "SaveAntigravityToolTurn ''r'' tool_route tool_turn tool_database = Inr (projr d)" by (metis is_ok_projr d_def)
  have wf: "wf_turn tool_turn" "agt_calls tool_turn \<noteq> []" "length (agt_upstream_ids tool_turn) = length (agt_calls tool_turn)"
    by (auto simp: wf_turn_def tool_turn_def demo_call_def)
  note law = stored_turn_returns [OF d wf]
  have known: "turn_of [(''call_ag_1'', tool_turn)] (message_calls (tool_copy x)) = Some tool_turn" for x
    by (simp add: turn_of_def message_calls_def tool_copy_def demo_call_def tool_turn_def)
  have request: "req \<in> set (rows (requests tool_database)) \<Longrightarrow> r_access_key req = None" for req
    by (simp add: tool_database_def)
  have copy: "exact_copy (tool_copy ''f'') tool_turn" "\<not> exact_copy (tool_copy ''g'') tool_turn" by code_simp+
  from law [THEN conjunct2, rule_format, OF known [of "''f''"], of 0]
    law [THEN conjunct2, rule_format, OF known [of "''g''"], of 0] copy
  have "is_ok (restore_message [(''call_ag_1'', tool_turn)] 0 (tool_copy ''f''))"
    "\<not> is_ok (restore_message [(''call_ag_1'', tool_turn)] 0 (tool_copy ''g''))"
    by (auto split: sum.splits)
  moreover from law [THEN conjunct1] request
  have "AntigravityToolHistory k ''call_ag_1'' (projr d) =
      (if k = None then Inr \<lparr>th_provider = 1, th_key = 1, th_model = ''real'', th_turn = tool_turn\<rparr> else Inl NoRows)" for k
    by (auto simp: tool_route_def tool_turn_def demo_call_def)
  ultimately show ?thesis using d by simp
qed

end
