(* ===== verification/Generate.thy ===== *)
theory Generate
  imports RouteLaws Affinity AntigravitySpec
begin

text \<open>
  A request from its arrival to the loop over its routes (\<^verbatim>\<open>generate\<close>, \<^verbatim>\<open>models\<close>, \<^verbatim>\<open>authenticate\<close>,
  \<^verbatim>\<open>ListProviderModels\<close> and the first part of \<^verbatim>\<open>generateAuthorized\<close> of internal/gateway/handler.go).
  Whether a write to the log succeeds is an argument; what is written is not modelled here.
\<close>

section \<open>The state of the gateway\<close>

record gateway =
  gw_store :: store
  gw_breaker :: breaker
  gw_affinities :: affinities
  gw_affinity_on :: bool
  gw_max_body :: nat

record execution =
  ex_candidate :: int
  ex_protocol :: string
  ex_replay :: string

definition no_execution :: execution where
  "no_execution = \<lparr>ex_candidate = 0, ex_protocol = [], ex_replay = []\<rparr>"

text \<open>Which writes to the log succeed: the start of the request, the origin of a replay, the decisions.\<close>

record log_writes =
  lw_started :: bool
  lw_replay :: bool
  lw_routed :: bool

section \<open>Who asks\<close>

definition authenticate :: "instant \<Rightarrow> header \<Rightarrow> gateway \<Rightarrow> access_key option \<times> gateway" where
  "authenticate now h g =
     (case client_secret h of
        Secret s \<Rightarrow> (let (r, st) = AuthenticateAccessKey now s (gw_store g) in
          (case r of Inl e \<Rightarrow> None | Inr k \<Rightarrow> Some k, g\<lparr>gw_store := st\<rparr>))
      | _ \<Rightarrow> (None, g))"

definition model_list :: "string list \<Rightarrow> gval" where
  "model_list names = GMap [(''object'', GStr ''list''),
     (''data'', GArr (map (\<lambda>n. GMap [(''id'', GStr n), (''object'', GStr ''model''), (''owned_by'', GStr ''model-confluence'')]) names))]"

definition models :: "instant \<Rightarrow> header \<Rightarrow> gateway \<Rightarrow> gval option \<times> gateway" where
  "models now h g =
     (let (k, g) = authenticate now h g in
      case k of
        None \<Rightarrow> (None, g)
      | Some k \<Rightarrow> (let (names, st) = EnabledModelNames (gw_store g) in (Some (model_list names), g\<lparr>gw_store := st\<rparr>)))"

section \<open>The tool turns of a request\<close>

fun load_history ::
    "int option \<Rightarrow> database \<Rightarrow> string list \<Rightarrow> (string \<times> tool_history) list \<Rightarrow> (int \<times> string) + (string \<times> tool_history) list" where
  "load_history access db [] history = Inr history"
| "load_history access db (i # ids) history =
     (if map_of history i \<noteq> None then load_history access db ids history
      else (case AntigravityToolHistory access i db of
          Inl e \<Rightarrow> Inl (if e = NoRows then 400 else 500, ''antigravity_history_error'')
        | Inr item \<Rightarrow> load_history access db ids (put i item history)))"

definition matches_turn :: "resolved_route \<Rightarrow> tool_history \<Rightarrow> bool" where
  "matches_turn route item \<longleftrightarrow> prov_id (Provider route) = th_provider item \<and> key_id (Key route) = th_key item
     \<and> UpstreamModel route = th_model item"

definition compatible :: "(string \<times> tool_history) list \<Rightarrow> resolved_route \<Rightarrow> bool" where
  "compatible history route \<longleftrightarrow> UpstreamProtocol route = Antigravity \<and> list_all (\<lambda>item. matches_turn route (snd item)) history"

section \<open>The plan\<close>

text \<open>A refusal with its status and code, or the routes to try in order.\<close>

datatype plan = Deny int string | Serve request_metadata "(string \<times> tool_history) list" "resolved_route list"

definition requirements :: "request_metadata \<Rightarrow> string \<Rightarrow> execution \<Rightarrow> routing_requirements" where
  "requirements meta inbound options = \<lparr>rq_model = meta_model meta, rq_protocol = inbound, rq_stream = meta_stream meta,
     rq_tools = meta_tools meta, rq_parallel = meta_parallel meta, rq_effort = meta_effort meta,
     rq_candidate = ex_candidate options, rq_upstream_protocol = ex_protocol options\<rparr>"

definition route_error :: "store_error \<Rightarrow> plan" where
  "route_error e = (if e = NoRoute \<or> e = NoRows then Deny 503 ''no_eligible_route'' else Deny 500 ''gateway_error'')"

text \<open>The routes of a request: resolved, and turned to the keys its session is bound to.\<close>

definition bound_routes :: "instant \<Rightarrow> string \<Rightarrow> int option \<Rightarrow> resolved_route list \<Rightarrow> gateway \<Rightarrow> resolved_route list \<times> gateway" where
  "bound_routes now session access routes g =
     (case access of
        Some k \<Rightarrow>
          if gw_affinity_on g \<and> session \<noteq> [] then
            (let (routes, m) = affinityRoutes now session k routes (gw_affinities g) in (routes, g\<lparr>gw_affinities := m\<rparr>))
          else (routes, g)
      | None \<Rightarrow> (routes, g))"

definition choose_routes :: "request_metadata \<Rightarrow> (string \<times> tool_history) list \<Rightarrow> resolved_route list \<Rightarrow> plan" where
  "choose_routes meta history routes =
     (if history = [] then Serve meta history routes
      else (let routes = filter (compatible history) routes in
        if routes = [] then Deny 400 ''antigravity_history_error'' else Serve meta history routes))"

definition plan_request ::
    "instant \<Rightarrow> string \<Rightarrow> string \<Rightarrow> int option \<Rightarrow> header \<Rightarrow> execution \<Rightarrow> log_writes \<Rightarrow> gateway \<Rightarrow> plan \<times> gateway" where
  "plan_request now body inbound access h options log g =
     (if gw_max_body g < length body then (Deny 413 ''request body exceeds configured limit'', g)
      else if \<not> lw_started log then (Deny 500 ''logging_error'', g)
      else if ex_replay options \<noteq> [] \<and> \<not> lw_replay log then (Deny 500 ''logging_error'', g)
      else case inspectRequest body inbound of
        Inl e \<Rightarrow> (Deny 400 ''invalid_request'', g)
      | Inr meta \<Rightarrow>
          (case AntigravityHistoryIDs body inbound of
            Inl e \<Rightarrow> (Deny 400 ''invalid_request'', g)
          | Inr ids \<Rightarrow>
              (case load_history access (store_db (gw_store g)) ids [] of
                Inl (status, code) \<Rightarrow> (Deny status code, g)
              | Inr history \<Rightarrow>
                  (let ((found, decisions), st) = ResolveRoutes now (requirements meta inbound options) (gw_store g);
                       g = g\<lparr>gw_store := st\<rparr>;
                       session = trim_space (header_get h ''X-Session-ID'');
                       routes = (case found of Inl e \<Rightarrow> [] | Inr rs \<Rightarrow> rs)
                   in if gw_affinity_on g \<and> 512 < length session then (Deny 400 ''invalid_request'', g)
                      else (let (routes, g) = bound_routes now session access routes g in
                        if \<not> lw_routed log then (Deny 500 ''logging_error'', g)
                        else (case found of
                            Inl e \<Rightarrow> (route_error e, g)
                          | Inr _ \<Rightarrow> (choose_routes meta history routes, g)))))))"

section \<open>Serving\<close>

text \<open>
  The plan and the loop. After the loop a session is bound to the route the log names as the one
  that served it, \<open>served\<close>. \<open>None\<close> would be a loop that does not end.
\<close>

definition generateAuthorized ::
    "(string \<Rightarrow> instant option) \<Rightarrow> instant \<Rightarrow> instant \<Rightarrow> string \<Rightarrow> string \<Rightarrow> int option \<Rightarrow> header \<Rightarrow> execution \<Rightarrow> log_writes \<Rightarrow>
     (nat \<Rightarrow> attempt) \<Rightarrow> (int \<times> int) option \<Rightarrow> gateway \<Rightarrow> (final \<times> gateway) option" where
  "generateAuthorized parse_time now later body inbound access h options log world served g =
     (case plan_request now body inbound access h options log g of
        (Deny status code, g) \<Rightarrow> Some (Failed status code, g)
      | (Serve meta history routes, g) \<Rightarrow>
          (case route_loop parse_time routes world 0 (first_serving (gw_breaker g) (gw_store g)) of
             None \<Rightarrow> None
           | Some (f, s) \<Rightarrow>
               (let g = g\<lparr>gw_store := sv_store s, gw_breaker := sv_breaker s\<rparr>;
                    session = trim_space (header_get h ''X-Session-ID'')
                in Some (f, case access of
                     Some k \<Rightarrow> if gw_affinity_on g \<and> session \<noteq> []
                       then g\<lparr>gw_affinities := rememberAffinity later served session k routes (gw_affinities g)\<rparr> else g
                   | None \<Rightarrow> g))))"

definition generate ::
    "(string \<Rightarrow> instant option) \<Rightarrow> instant \<Rightarrow> instant \<Rightarrow> string \<Rightarrow> string \<Rightarrow> header \<Rightarrow> log_writes \<Rightarrow> (nat \<Rightarrow> attempt) \<Rightarrow>
     (int \<times> int) option \<Rightarrow> gateway \<Rightarrow> (final \<times> gateway) option" where
  "generate parse_time now later body path h log world served g =
     (let (k, g) = authenticate now h g in
      case k of
        None \<Rightarrow> Some (Failed 401 ''invalid_api_key'', g)
      | Some k \<Rightarrow> generateAuthorized parse_time now later body (protocolFromPath path) (Some (ak_id k)) h no_execution log world served g)"

section \<open>The models of a provider\<close>

datatype list_error = ModelsUnsupported | NoEndpoint | NoKey | FetchFailed models_error

text \<open>The keys in order; only a key that is not authorized lets the next one try.\<close>

fun try_keys ::
    "instant \<Rightarrow> (upstream_key \<Rightarrow> models_error + string list) \<Rightarrow> upstream_key list \<Rightarrow> models_error option \<Rightarrow> list_error + string list" where
  "try_keys now fetch [] last_error = Inl (case last_error of None \<Rightarrow> NoKey | Some e \<Rightarrow> FetchFailed e)"
| "try_keys now fetch (k # ks) last_error =
     (if \<not> KeyAvailable now k then try_keys now fetch ks last_error
      else (case fetch k of
          Inr names \<Rightarrow> Inr names
        | Inl (UpstreamUnauthorized status) \<Rightarrow> try_keys now fetch ks (Some (UpstreamUnauthorized status))
        | Inl e \<Rightarrow> Inl (FetchFailed e)))"

definition ListProviderModels ::
    "instant \<Rightarrow> (string \<Rightarrow> bool \<Rightarrow> upstream_key \<Rightarrow> models_error + string list) \<Rightarrow> (provider \<Rightarrow> list_error + string list) \<Rightarrow> provider \<Rightarrow>
     list_error + string list" where
  "ListProviderModels now fetch antigravity p =
     (if prov_kind p = ProviderCodexOAuth then Inl ModelsUnsupported
      else if prov_kind p = ProviderAntigravityOAuth then antigravity p
      else (let (endpoint, from_messages) = providerModelsEndpoint p in
        if endpoint = [] then Inl NoEndpoint else try_keys now (fetch endpoint from_messages) (prov_keys p) None))"

section \<open>What a plan promises\<close>

lemma load_history_found:
  assumes "load_history access db ids history = Inr result"
    and "\<forall>(i, item) \<in> set history. AntigravityToolHistory access i db = Inr item"
  shows "(\<forall>(i, item) \<in> set result. AntigravityToolHistory access i db = Inr item)
    \<and> fst ` set result = fst ` set history \<union> set ids"
  using assms
proof (induction ids arbitrary: history)
  case (Cons i ids)
  have set_put: "set (put k v m) \<subseteq> insert (k, v) (set m)" "fst ` set (put k v m) = insert k (fst ` set m)"
    for k :: string and v :: tool_history and m
    by (induction m) auto
  show ?case
  proof (cases "map_of history i")
    case None
    with Cons.prems obtain item where found: "AntigravityToolHistory access i db = Inr item"
      and rest: "load_history access db ids (put i item history) = Inr result"
      by (auto split: sum.splits)
    have "\<forall>(i, item) \<in> set (put i item history). AntigravityToolHistory access i db = Inr item"
      using Cons.prems(2) found set_put(1) [of i item history] by auto
    from Cons.IH [OF rest this] show ?thesis by (auto simp: set_put(2))
  next
    case (Some item)
    from map_of_SomeD [OF this] have "i \<in> fst ` set history" by (force simp: image_iff)
    moreover from Some Cons.prems have "load_history access db ids history = Inr result" by simp
    ultimately show ?thesis using Cons.IH [OF _ Cons.prems(2)] by auto
  qed
qed auto

text \<open>What the part of a request before the loop promises, whatever the log and the session do.\<close>

section \<open>Conversations with tool calls\<close>

lemma bound_routes_same: "bound_routes now session access routes g = (rs, g') \<Longrightarrow> set rs = set routes \<and> gw_store g' = gw_store g"
proof -
  assume run: "bound_routes now session access routes g = (rs, g')"
  have "set (fst (affinityRoutes now session k routes (gw_affinities g))) = set routes" for k
    using affinityRoutes_permutes [THEN conjunct1, THEN mset_eq_setD] .
  from this run show ?thesis
    by (auto simp: bound_routes_def split: option.splits if_splits prod.splits) (metis fst_conv)+
qed

lemma route_error_denies: "route_error e \<noteq> Serve meta history routes"
  by (simp add: route_error_def)

lemma choose_routes_Serve:
  "choose_routes meta history routes = Serve meta' history' rs \<Longrightarrow>
     meta' = meta \<and> history' = history \<and> rs = filter (\<lambda>r. history = [] \<or> compatible history r) routes"
  by (auto simp: choose_routes_def Let_def split: if_splits)

lemma plan_request_Serve:
  assumes "plan_request now body inbound access h options log g = (Serve meta history routes, g')"
  obtains meta0 history0 ids rs ds st bound where "length body \<le> gw_max_body g" "inspectRequest body inbound = Inr meta0"
    "AntigravityHistoryIDs body inbound = Inr ids" "load_history access (store_db (gw_store g)) ids [] = Inr history0"
    "ResolveRoutes now (requirements meta0 inbound options) (gw_store g) = ((Inr rs, ds), st)"
    "bound_routes now (trim_space (header_get h ''X-Session-ID'')) access rs (g\<lparr>gw_store := st\<rparr>) = (bound, g')"
    "choose_routes meta0 history0 bound = Serve meta history routes"
  using assms
  by (auto simp: plan_request_def Let_def route_error_denies split: sum.splits prod.splits if_splits)

text \<open>
  C39. A request that goes on to the loop has a body within the limit. Every stored tool call its
  conversation names was found with the access key of the request, and when there are any, every
  route that is tried is one of the eligible routes of the request and leads to the provider, the
  key and the model that made these calls: a conversation never moves to another account. Without
  such calls, the eligible routes are tried, all of them.
\<close>

theorem conversation_keeps_account:
  assumes "plan_request now body inbound access h options log g = (Serve meta history routes, g')"
  shows "length body \<le> gw_max_body g
    \<and> (\<exists>ids rs ds. AntigravityHistoryIDs body inbound = Inr ids \<and> fst ` set history = set ids
        \<and> (\<forall>(i, item) \<in> set history. AntigravityToolHistory access i (store_db (gw_store g)) = Inr item)
        \<and> ResolveRoutes now (requirements meta inbound options) (gw_store g) = ((Inr rs, ds), gw_store g')
        \<and> set routes = {r \<in> set rs. \<forall>(i, item) \<in> set history. UpstreamProtocol r = Antigravity
            \<and> prov_id (Provider r) = th_provider item \<and> key_id (Key r) = th_key item \<and> UpstreamModel r = th_model item})"
proof -
  from plan_request_Serve [OF assms] obtain meta0 history0 ids rs ds st bound where plan: "length body \<le> gw_max_body g"
    "AntigravityHistoryIDs body inbound = Inr ids" "load_history access (store_db (gw_store g)) ids [] = Inr history0"
    "ResolveRoutes now (requirements meta0 inbound options) (gw_store g) = ((Inr rs, ds), st)"
    "bound_routes now (trim_space (header_get h ''X-Session-ID'')) access rs (g\<lparr>gw_store := st\<rparr>) = (bound, g')"
    "choose_routes meta0 history0 bound = Serve meta history routes" .
  note same = choose_routes_Serve [OF plan(6)]
  from load_history_found [OF plan(3)] same have found: "fst ` set history = set ids"
    "\<forall>(i, item) \<in> set history. AntigravityToolHistory access i (store_db (gw_store g)) = Inr item" by auto
  from choose_routes_Serve [OF plan(6)] bound_routes_same [OF plan(5)]
  have "set routes = {r \<in> set rs. history = [] \<or> compatible history r}" "gw_store g' = st" by auto
  moreover have "history = [] \<or> compatible history r \<longleftrightarrow> (\<forall>(i, item) \<in> set history. UpstreamProtocol r = Antigravity
      \<and> prov_id (Provider r) = th_provider item \<and> key_id (Key r) = th_key item \<and> UpstreamModel r = th_model item)" for r
    by (cases history) (auto simp: compatible_def matches_turn_def list_all_iff)
  ultimately show ?thesis using plan(1,2,4) found same by blast
qed

text \<open>Two accounts of one provider; the second has made the call the conversation goes on with.\<close>

definition two_accounts :: database where
  "two_accounts = (snd (projr (CreateProvider 0 (tool_upstream\<lparr>pi_kind := ProviderAntigravityOAuth, pi_auth_type := [], pi_endpoints := [], pi_keys := []\<rparr>) empty_database)))
     \<lparr>upstream_keys := \<lparr>rows = map (\<lambda>i. \<lparr>k_id = i, k_provider = 1, k_name = [], k_secret = [], k_auth = [], k_file_name = [], k_oauth_user = [],
        k_oauth_account = [], k_access_expires = None, k_revision = 1, k_position = i, k_enabled = True, k_expires_at = None,
        k_status = ''available'', k_reason = [], k_recover_at = None, k_last_used = None, k_archived = None\<rparr>) [1, 2], last_id = 2\<rparr>\<rparr>"

definition account_model :: model_input where
  "account_model = \<lparr>mi_name = ''m'', mi_candidates = [\<lparr>ci_id = 0, ci_provider_id = 1, ci_upstream_model = ''real'',
     ci_default_max = 100, ci_max = 100, ci_protocols = [\<lparr>Protocol = Antigravity, Position = 0, SupportsStream = True,
       SupportsTools = True, SupportsParallelTools = False, EffortLevels = [], SupportsStreamUsage = False\<rparr>]\<rparr>]\<rparr>"

definition account_database :: database where
  "account_database = projr (SaveAntigravityToolTurn ''r'' (tool_route\<lparr>Key := (Key tool_route)\<lparr>key_id := 2\<rparr>\<rparr>) tool_turn
     ((snd (projr (CreateVirtualModel 0 account_model two_accounts)))
       \<lparr>requests := \<lparr>rows = [\<lparr>r_id = ''r'', r_status = ''running'', r_access_key = None, r_model = ''m''\<rparr>], last_id = 1\<rparr>\<rparr>))"

definition account_gateway :: gateway where
  "account_gateway = \<lparr>gw_store = open_store account_database, gw_breaker = Map.empty, gw_affinities = [], gw_affinity_on = True, gw_max_body = 1000\<rparr>"

definition account_body :: string where
  "account_body = print_json (JObj [(''model'', JStr ''m''), (''messages'', JArr [JObj [(''role'', JStr ''tool''),
     (''tool_call_id'', JStr ''call_ag_1''), (''content'', JStr ''ok'')]])])"

definition account_plan :: "plan \<times> gateway" where
  "account_plan = plan_request 7 account_body Chat None [] no_execution \<lparr>lw_started = True, lw_replay = True, lw_routed = True\<rparr> account_gateway"

text \<open>The request goes to the second account alone, although the first is free as well.\<close>

theorem conversation_keeps_account_witness:
  "(case account_plan of
      (Serve meta history routes, g') \<Rightarrow> map (\<lambda>r. key_id (Key r)) routes = [2] \<and> map fst history = [''call_ag_1'']
        \<and> (\<exists>rs ds. ResolveRoutes 7 (requirements meta Chat no_execution) (gw_store account_gateway) = ((Inr rs, ds), gw_store g')
             \<and> set routes \<subseteq> set rs)
    | _ \<Rightarrow> False)"
proof -
  have evaluated: "case fst account_plan of Serve meta history routes \<Rightarrow> map (\<lambda>r. key_id (Key r)) routes = [2] \<and> map fst history = [''call_ag_1'']
      | _ \<Rightarrow> False"
    by code_simp
  obtain p g' where pair: "account_plan = (p, g')" by (rule prod.exhaust)
  obtain meta history routes where "p = Serve meta history routes"
    using evaluated unfolding pair fst_conv by (cases p) simp_all
  with pair have plan: "account_plan = (Serve meta history routes, g')" by simp
  then have "plan_request 7 account_body Chat None [] no_execution \<lparr>lw_started = True, lw_replay = True, lw_routed = True\<rparr> account_gateway
      = (Serve meta history routes, g')"
    by (simp add: account_plan_def)
  from conversation_keeps_account [OF this]
  have "\<exists>rs ds. ResolveRoutes 7 (requirements meta Chat no_execution) (gw_store account_gateway) = ((Inr rs, ds), gw_store g')
      \<and> set routes \<subseteq> set rs" by blast
  with evaluated show ?thesis unfolding plan fst_conv by simp
qed

end
