(* ===== verification/Replay.thy ===== *)
theory Replay
  imports LogRead Generate
begin

text \<open>
  Sending a logged request again with a body of the administrator (\<^verbatim>\<open>ReplayRequest\<close> of
  internal/gateway/replay.go, \<^verbatim>\<open>runAdminRequest\<close> of internal/gateway/compatibility.go).
\<close>

record replay_input =
  ri_body :: string
  ri_candidate :: int
  ri_protocol :: string

datatype replay_error = NotReadable read_error | PayloadGone | NoBody | UnknownProtocol | KeyRefused store_error | BadBody | BadHeaders

text \<open>\<^verbatim>\<open>json.Unmarshal\<close> into a header: a later member of the same name replaces an earlier one.\<close>

definition stored_header :: "string \<Rightarrow> go_error + header" where
  "stored_header s =
     (if s = [] then Inr []
      else bindE (unmarshal_text s) (\<lambda>j.
        bindE (okE (dec_map j)) (\<lambda>kvs.
        bindE (mapE (\<lambda>_ (k, v). bindE (okE (dec_slice (dec_string []) [] v)) (\<lambda>vs. Inr (k, vs))) kvs) (\<lambda>entries.
        Inr (fold (\<lambda>(k, vs) h. put k vs h) entries [])))))"

definition replayed_headers :: "header \<Rightarrow> header" where
  "replayed_headers h = List.map_filter (\<lambda>name. case header_values h name of [] \<Rightarrow> None | vs \<Rightarrow> Some (name, vs))
     [''Anthropic-Version'', ''Anthropic-Beta'', ''Openai-Beta'']"

definition admin_header :: "header \<Rightarrow> header" where
  "admin_header h = header_set ''User-Agent'' ''model-confluence-admin-debug'' (header_set ''Content-Type'' ''application/json'' h)"

definition replay_plan ::
    "(string \<Rightarrow> string option) \<Rightarrow> instant \<Rightarrow> string \<Rightarrow> replay_input \<Rightarrow> database \<Rightarrow> logs \<Rightarrow>
     replay_error + (string \<times> int option \<times> header \<times> execution)" where
  "replay_plan gunzip now i input db l =
     (case RequestDetail gunzip i l of
        Inl e \<Rightarrow> Inl (NotReadable e)
      | Inr d \<Rightarrow>
          (let q = qs_row (de_summary d) in
           if qs_pruned (de_summary d) \<or> r_status q = ''in_progress'' then Inl PayloadGone
           else if ri_body input = [] then Inl NoBody
           else if lr_protocol q \<notin> {Chat, Responses, Messages} then Inl UnknownProtocol
           else (case ReplayAccessKey now (request_row.truncate q) db of
               Inl e \<Rightarrow> Inl (KeyRefused e)
             | Inr key \<Rightarrow>
                 (case inspectRequest (ri_body input) (lr_protocol q) of
                    Inl e \<Rightarrow> Inl BadBody
                  | Inr meta \<Rightarrow>
                      if meta_model meta = [] then Inl BadBody
                      else (case stored_header (pl_headers (lr_request q)) of
                          Inl e \<Rightarrow> Inl BadHeaders
                        | Inr h \<Rightarrow> Inr (lr_protocol q, key, admin_header (replayed_headers h),
                            \<lparr>ex_candidate = ri_candidate input, ex_protocol = ri_protocol input, ex_replay = i\<rparr>))))))"

definition ReplayRequest ::
    "(string \<Rightarrow> string option) \<Rightarrow> (string \<Rightarrow> instant option) \<Rightarrow> instant \<Rightarrow> instant \<Rightarrow> string \<Rightarrow> replay_input \<Rightarrow> logs \<Rightarrow> log_writes \<Rightarrow>
     (nat \<Rightarrow> attempt) \<Rightarrow> (int \<times> int) option \<Rightarrow> gateway \<Rightarrow> replay_error + (final \<times> gateway) option" where
  "ReplayRequest gunzip parse_time now later i input l log world served g =
     (case replay_plan gunzip now i input (store_db (gw_store g)) l of
        Inl e \<Rightarrow> Inl e
      | Inr (protocol, key, h, options) \<Rightarrow>
          Inr (generateAuthorized parse_time now later (ri_body input) protocol key h options log world served g))"

section \<open>Laws\<close>

text \<open>Nothing of the original client but three headers goes along, and never a credential.\<close>

lemma replayed_headers_names: "fst ` set (replayed_headers h) \<subseteq> {''Anthropic-Version'', ''Anthropic-Beta'', ''Openai-Beta''}"
  by (auto simp: replayed_headers_def List.map_filter_def split: option.splits list.splits if_splits)

text \<open>A replay speaks for an access key only while that key may be used.\<close>

lemma replay_key_usable:
  assumes "replay_plan gunzip now i input db l = Inr (protocol, Some k, h, options)"
  shows "\<exists>a \<in> set (rows (access_keys db)). a_id a = k \<and> a_enabled a \<and> a_archived a = None
    \<and> (case a_expires_at a of None \<Rightarrow> True | Some e \<Rightarrow> now < e)"
  using assms
  by (auto simp: replay_plan_def ReplayAccessKey_def Let_def split: sum.splits if_splits option.splits
      dest!: query_row_Inr elim!: bindE_InrE)

end
