(* ===== verification/Spec2Isabelle.thy ===== *)
theory Spec2Isabelle
  imports RequestSpec ResponseSpec StreamSpec ConverterSpec StoreSpec GatewaySpec RelaySpec LogRead AdminAccess
    Compatibility Replay
begin

text \<open>
  Model-confluence is a gateway for language models. A client speaks one of three protocols (Chat
  Completions, Responses, Messages) and names a virtual model; the gateway finds the routes of that
  model, converts the request for the protocol of the upstream, calls one upstream after the other
  until one answers, converts the answer back while it arrives, and logs all of it. Upstreams are
  providers with a key, or accounts (Codex, Antigravity) with credentials that expire. An
  administrator keeps the catalog of providers, keys and models. This development is a model of that
  program below \<^verbatim>\<open>src/internal\<close>, one theory per component, and the theorems that make the
  components correct.

  \<^bold>\<open>Conventions.\<close> A Go function that returns a value and an error is a function into a sum, the error
  on the left (\<open>bindE\<close>, \<open>foldE\<close>, \<open>guardE\<close> of Prelude); an error is the class the callers can tell apart
  or the text the code formats. A struct is a record or a datatype with the fields of the source, a
  method that changes its receiver returns it. Go strings are lists of bytes (\<open>char list\<close>); the
  messages the program words in Chinese are constructors or stand in English. Clocks, random ids,
  password hashes, gzip, the parsing of URLs and IP addresses, the decoding of a JWT and
  \<^verbatim>\<open>http.ParseTime\<close> are parameters; where a theorem needs a law of such a parameter, the law is a
  hypothesis that documents the behaviour of the library, and the witness of the theorem shows it for
  a concrete function. Definitions compute, so witnesses evaluate them.
\<close>

text \<open>
  \<^bold>\<open>What stands under everything.\<close> Prelude (errors and loops), GoText, GoStrings, GoTime, GoHttp,
  Rfc3339 (the functions of the packages \<^verbatim>\<open>strings\<close>, \<^verbatim>\<open>strconv\<close>, \<^verbatim>\<open>time\<close> and \<^verbatim>\<open>net/http\<close> that the
  source calls), GoJson, JsonText, GoDecode, GoEncode (\<^verbatim>\<open>encoding/json\<close>: a document is a tree whose
  numbers keep their spelling, since \<^verbatim>\<open>json.RawMessage\<close> and \<^verbatim>\<open>json.Number\<close> do; JsonText proves that
  printing and reading a tree gives the tree again). Types holds the canonical request and response of
  \<^verbatim>\<open>protocol/types.go\<close>.

  \<^bold>\<open>Conversion of requests\<close> (\<^verbatim>\<open>protocol/request.go\<close>, \<^verbatim>\<open>image.go\<close>, \<^verbatim>\<open>tools.go\<close>). Image, Tools,
  DecodeRequest and EncodeRequest are the code. RequestViews says what each protocol carries of a
  canonical request (for Messages \<open>messages_view\<close>), ChatView and ResponsesView that decoding what was encoded gives
  that view, Convert lifts this to the texts. The interfaces are two locales: \<open>allocator\<close> (CallIds),
  interpreted by \<^verbatim>\<open>callID\<close>, for the renaming of long call ids, and \<open>content_codec\<close> (ContentView),
  interpreted for the content of Chat and for input and output of Responses. RequestSpec holds the
  properties.

  \<^bold>\<open>Conversion of answers\<close> (\<^verbatim>\<open>response.go\<close>, \<^verbatim>\<open>usage.go\<close>, \<^verbatim>\<open>stream.go\<close>, \<^verbatim>\<open>stream_decode.go\<close>,
  \<^verbatim>\<open>stream_encode.go\<close>, \<^verbatim>\<open>stream_summary.go\<close>, \<^verbatim>\<open>antigravity_response.go\<close>). Usage, Response, Sse,
  StreamDecode, StreamEncode, StreamConvert, StreamSummary, UsageExtract and AntigravityReply are the
  code. The laws of the stream encoder are interpretations of one locale, \<open>encoder_log\<close> (StreamLaws):
  a law that every emission keeps holds for every run; StreamLaws, StreamProtocol and StreamEnd
  interpret it for the invariant of the encoder, the running numbers, the protocol of blocks, the
  target and the places of the items. The abstract specification of a stream is the block protocol of
  StreamProtocol (\<open>simulates\<close>); StreamRun says which runs keep it: of those whose tools start once and
  before their arguments, all but the ones that come back to reasoning after text or a tool has closed
  it (\<open>resumes\<close>), which break it. SummaryLaws follows the
  blocks of a summary and the fragments of arguments each tool gets. AntigravityLaws follows the tool calls the decoder holds back until
  they are stored. ResponseSpec, StreamSpec and ConverterSpec hold the properties.

  \<^bold>\<open>Antigravity\<close> (\<^verbatim>\<open>antigravity_request.go\<close>, \<^verbatim>\<open>antigravity_history.go\<close>, \<^verbatim>\<open>store/antigravity_tools.go\<close>).
  AntigravityRequest is the check of a body and the document that is sent, ToolHistory the store of
  tool turns, AntigravitySpec the properties; there \<open>body_ok\<close> is an independent description of the
  bodies that are accepted, member by member at every depth.
\<close>

text \<open>
  \<^bold>\<open>The store\<close> (\<^verbatim>\<open>store/*.go\<close>). Database has one record per table, a table is the list of its rows in
  rowid order with the counter of its key, and a statement checks the keys, the unique indices and the
  foreign keys of the schema before it changes it; an operation is its transaction, which returns an
  error or the result with the new database. JSON columns hold the values their text encodes, time
  columns instants with the comparison SQL makes of their texts. CatalogRead and Catalog are
  \<^verbatim>\<open>catalog.go\<close>, AccessKeys \<^verbatim>\<open>access_keys.go\<close>, Credentials \<^verbatim>\<open>oauth_credentials.go\<close>, \<^verbatim>\<open>antigravity.go\<close>
  and \<^verbatim>\<open>oauth_relogin.go\<close>, CodexAuth \<^verbatim>\<open>codex/auth.go\<close>, Routing \<^verbatim>\<open>routing.go\<close>. VersionedCache is the way
  the store caches what it reads, with readers and writers that overlap, as the locale
  \<open>versioned_cache\<close>; StoreCache interprets it for routes, model names and access keys. StoreOps joins
  all changes of the database to a step relation, each operation with the invalidation that follows
  its commit in the source (\<open>op_commit\<close>, \<open>op_after\<close>), and proves that every run of them, with readers
  in between, is a run the caches are right for; CatalogLaws and CatalogInvariant prove its invariant,
  RoutingLaws what the choice of routes promises, StoreSpec holds the properties.

  \<^bold>\<open>The gateway\<close> (\<^verbatim>\<open>gateway/*.go\<close>, \<^verbatim>\<open>codex/*.go\<close>). GatewayHeaders, GatewayBody, CodexRequest and
  CodexStream are what is read from and written into requests and answers; Breaker is the cooldown of
  candidates, Affinity the session affinity. Relay and RelayAccounts are the four proxies, over the
  list of what arrives: lines of the upstream, ticks of the keep-alive, the end or an error. RouteLoop
  is the loop of \<^verbatim>\<open>generateAuthorized\<close>: the upstreams are a function from the number of the call to
  what it gives, so the loop is total only if it ends, and \<open>serving_ends\<close> proves that it does.
  Generate is a request from its arrival to the loop and the binding afterwards, Compatibility and
  Replay are the two callers of the gateway inside the program. RouteLaws and RelayLaws prove the laws (\<open>renamed_line\<close> of RelaySpec is what the renaming of the model
  may change in a line: the member of the top level, not those below it),
  GatewaySpec, RelaySpec and Generate hold the properties.

  \<^bold>\<open>The log\<close> (\<^verbatim>\<open>store/logs.go\<close>, \<^verbatim>\<open>payload.go\<close>, \<^verbatim>\<open>request_routing.go\<close>, \<^verbatim>\<open>retention.go\<close>, \<^verbatim>\<open>storage.go\<close>,
  \<^verbatim>\<open>performance.go\<close>). RequestLog writes it, Retention takes payloads and rows out of it, LogRead lists
  it. What the gateway writes into the log while it serves is not threaded through RouteLoop: the
  attempts of the loop are its result.

  \<^bold>\<open>Administration\<close> (\<^verbatim>\<open>admin/handler.go\<close>, \<^verbatim>\<open>limiter.go\<close>, \<^verbatim>\<open>oauth_login.go\<close>, \<^verbatim>\<open>httpx/httpx.go\<close>,
  \<^verbatim>\<open>oauthlogin/login.go\<close>). AdminAccess is who may call the administration: the password, the sessions,
  the limit of attempts (its windows are fixed, and tries may overlap), the guards of every route of
  the mux with the methods a pattern serves, and the clean-up of logs, whose handler goes by the
  method. OAuthLogin is the manager of browser
  logins, whose methods and goroutines are the steps of a relation and may interleave in any order.
\<close>

text \<open>
  \<^bold>\<open>Termination and bounds.\<close> The reader of JSON texts is the only definition with fuel: it bounds the depth
  of the calls, and twice the length of the text is enough (\<open>parse_json_print\<close>). Loops over data are
  structural or have a measure: the reader of SSE lines its input, the loops of retention and clean-up
  the rows that are still due (a batch takes at most 200, as in the code). The route loop is a
  \<open>partial_function (option)\<close>: not to return would be \<open>None\<close>, and the theorem \<open>serving_ends\<close> gives
  its result and the bound on the passes: one for every route and one more for every key.

  \<^bold>\<open>Where the model is coarser than the program.\<close> A \<^verbatim>\<open>float64\<close> is the literal it was read from. The map
  of headers is an association list, whose order the theorems do not use. The select loop of a proxy is
  the list of what it saw in the order it saw it. Operations of the store run one after the other
  except in VersionedCache. Failures of the disk and of SQLite are not modelled, nor is the
  cancellation of a context outside the proxies, the clean-up and the browser
  logins. The fraction
  in a \<^verbatim>\<open>time.ParseDuration\<close> is cut off below a nanosecond exactly, where Go multiplies floats.

  \<^bold>\<open>Not modelled.\<close> The reports (\<^verbatim>\<open>health.go\<close>, \<^verbatim>\<open>costs.go\<close>, \<^verbatim>\<open>overview.go\<close>, \<^verbatim>\<open>store/compatibility.go\<close>):
  single SQL aggregates, whose evaluation is SQLite's. The other handlers of the administration behind
  their guards: they read a form and call one operation of the store. The exchanges with authorization
  servers (\<^verbatim>\<open>antigravity/oauth.go\<close>, \<^verbatim>\<open>antigravity/login.go\<close>, \<^verbatim>\<open>codex/login.go\<close>, \<^verbatim>\<open>codex/oauth.go\<close>,
  \<^verbatim>\<open>gateway/oauth_login.go\<close>): HTTP, their results are arguments. The idle timeout of a stream: a timer,
  which the proxies see as an error of the reader. Configuration, start-up, signals and the files of
  the web interface.
\<close>

end
